(* ===== verification/Prelude.thy ===== *)
theory Prelude
  imports Main "HOL-Library.Char_ord" "HOL-Library.List_Lexorder" "HOL-Library.Product_Lexorder"
begin

text \<open>
  Shared vocabulary of the development: Go's machine integers, times and durations, the
  functions of the packages \<open>strings\<close>, \<open>strconv\<close> and \<open>time\<close> the operator calls, and
  the list lemmas that the component theories rest on.

  \<^item> A Go string is a byte sequence; \<^typ>\<open>string\<close> is a list of 8-bit characters, so
    \<open>len\<close>, slicing and comparison coincide. The rune-level functions (\<open>ToLower\<close>,
    \<open>TrimSpace\<close>, iteration over runes) are given for ASCII bytes: Kubernetes names, event
    types and label values are ASCII.
  \<^item> A \<open>time.Time\<close> is the number of nanoseconds since Go's zero time, so \<open>IsZero\<close> is
    equality with 0; a \<open>time.Duration\<close> is an int64 number of nanoseconds, and
    \<open>Time.Sub\<close> saturates at the int64 bounds as the library does.
  \<^item> int64 arithmetic that can overflow is written with \<open>wrap64\<close>.
\<close>

named_theorems go_simps \<open>unfolding rules for the Go library functions\<close>
named_theorems bounded_intros \<open>length bounds kept by the capped lists\<close>

type_synonym gotime = int
type_synonym duration = int

section \<open>Machine integers\<close>

definition max_int64 :: int where
  "max_int64 = 9223372036854775807"

definition min_int64 :: int where
  "min_int64 = -9223372036854775808"

definition wrap64 :: "int \<Rightarrow> int" where
  "wrap64 x = (x + 9223372036854775808) mod 18446744073709551616 - 9223372036854775808"

definition in_int64 :: "int \<Rightarrow> bool" where
  "in_int64 x \<longleftrightarrow> min_int64 \<le> x \<and> x \<le> max_int64"

lemma wrap64_in_range [simp]: "in_int64 (wrap64 x)"
  by (simp add: in_int64_def wrap64_def min_int64_def max_int64_def)

lemma wrap64_id [simp]: "in_int64 x \<Longrightarrow> wrap64 x = x"
  by (simp add: in_int64_def wrap64_def min_int64_def max_int64_def)

section \<open>Time\<close>

definition nanosecond :: duration where "nanosecond = 1"
definition second :: duration where "second = 1000000000"
definition minute :: duration where "minute = 60000000000"
definition hour :: duration where "hour = 3600000000000"

lemmas duration_units = nanosecond_def second_def minute_def hour_def

definition time_sub :: "gotime \<Rightarrow> gotime \<Rightarrow> duration" where
  "time_sub t u = max min_int64 (min max_int64 (t - u))"

definition time_before :: "gotime \<Rightarrow> gotime \<Rightarrow> bool" where
  "time_before t u \<longleftrightarrow> t < u"

definition time_after :: "gotime \<Rightarrow> gotime \<Rightarrow> bool" where
  "time_after t u \<longleftrightarrow> u < t"

definition time_is_zero :: "gotime \<Rightarrow> bool" where
  "time_is_zero t \<longleftrightarrow> t = 0"

lemma time_sub_exact: "in_int64 (t - u) \<Longrightarrow> time_sub t u = t - u"
  by (simp add: time_sub_def in_int64_def)

lemma time_sub_less_iff: "in_int64 d \<Longrightarrow> min_int64 < d \<Longrightarrow> time_sub t u < d \<longleftrightarrow> t - u < d"
  by (auto simp: time_sub_def in_int64_def)

lemma time_sub_le_iff: "in_int64 d \<Longrightarrow> d < max_int64 \<Longrightarrow> time_sub t u \<le> d \<longleftrightarrow> t - u \<le> d"
  by (auto simp: time_sub_def in_int64_def min_int64_def max_int64_def)

lemma time_sub_gt_iff: "in_int64 d \<Longrightarrow> d < max_int64 \<Longrightarrow> d < time_sub t u \<longleftrightarrow> d < t - u"
  using time_sub_le_iff [of d t u] by linarith

lemma time_sub_mono: "t \<le> t' \<Longrightarrow> time_sub t u \<le> time_sub t' u"
  by (auto simp: time_sub_def)

section \<open>Characters\<close>

abbreviation byte_of :: "char \<Rightarrow> nat" where
  "byte_of c \<equiv> (of_char c :: nat)"

definition is_space :: "char \<Rightarrow> bool" where
  "is_space c \<longleftrightarrow> (9 \<le> byte_of c \<and> byte_of c \<le> 13) \<or> byte_of c = 32"

definition is_digit :: "char \<Rightarrow> bool" where
  "is_digit c \<longleftrightarrow> 48 \<le> byte_of c \<and> byte_of c \<le> 57"

definition is_lower :: "char \<Rightarrow> bool" where
  "is_lower c \<longleftrightarrow> 97 \<le> byte_of c \<and> byte_of c \<le> 122"

definition is_upper :: "char \<Rightarrow> bool" where
  "is_upper c \<longleftrightarrow> 65 \<le> byte_of c \<and> byte_of c \<le> 90"

definition lower_char :: "char \<Rightarrow> char" where
  "lower_char c = (if is_upper c then char_of (byte_of c + 32) else c)"

lemmas char_class_defs [go_simps] = is_space_def is_digit_def is_lower_def is_upper_def

lemma byte_of_char_of [simp]: "n < 256 \<Longrightarrow> byte_of (char_of n) = n"
  by (simp add: of_char_of)

lemma not_upper_lower_char [simp]: "\<not> is_upper (lower_char c)"
  by (auto simp: lower_char_def is_upper_def)

lemma lower_char_idem [simp]: "lower_char (lower_char c) = lower_char c"
  by (subst (1) lower_char_def) simp

section \<open>Strings\<close>

definition to_lower :: "string \<Rightarrow> string" where
  "to_lower s = map lower_char s"

definition has_prefix :: "string \<Rightarrow> string \<Rightarrow> bool" where
  "has_prefix s p \<longleftrightarrow> take (length p) s = p"

fun str_contains :: "string \<Rightarrow> string \<Rightarrow> bool" where
  "str_contains [] sub \<longleftrightarrow> sub = []"
| "str_contains (c # cs) sub \<longleftrightarrow> has_prefix (c # cs) sub \<or> str_contains cs sub"

text \<open>\<open>strings.Cut\<close>: the part before the first occurrence of the separator, if there is one.\<close>

fun str_cut :: "string \<Rightarrow> string \<Rightarrow> string option" where
  "str_cut [] sep = (if sep = [] then Some [] else None)"
| "str_cut (c # cs) sep =
     (if has_prefix (c # cs) sep then Some [] else map_option ((#) c) (str_cut cs sep))"

definition trim_left :: "(char \<Rightarrow> bool) \<Rightarrow> string \<Rightarrow> string" where
  "trim_left p s = dropWhile p s"

definition trim_right :: "(char \<Rightarrow> bool) \<Rightarrow> string \<Rightarrow> string" where
  "trim_right p s = rev (dropWhile p (rev s))"

definition trim_cut :: "(char \<Rightarrow> bool) \<Rightarrow> string \<Rightarrow> string" where
  "trim_cut p s = trim_right p (trim_left p s)"

definition trim_space :: "string \<Rightarrow> string" where
  "trim_space s = trim_cut is_space s"

text \<open>\<open>strings.Split\<close> on a one-byte separator and \<open>strings.Join\<close>.\<close>

fun str_split :: "char \<Rightarrow> string \<Rightarrow> string list" where
  "str_split sep [] = [[]]"
| "str_split sep (c # cs) =
     (if c = sep then [] # str_split sep cs
      else (case str_split sep cs of [] \<Rightarrow> [[c]] | p # ps \<Rightarrow> (c # p) # ps))"

fun str_join :: "string \<Rightarrow> string list \<Rightarrow> string" where
  "str_join sep [] = []"
| "str_join sep [p] = p"
| "str_join sep (p # ps) = p @ sep @ str_join sep ps"

text \<open>\<open>strings.FieldsFunc\<close>: maximal runs of characters that are not separators.\<close>

fun split_when :: "(char \<Rightarrow> bool) \<Rightarrow> string \<Rightarrow> string list" where
  "split_when p [] = [[]]"
| "split_when p (c # cs) =
     (if p c then [] # split_when p cs
      else (case split_when p cs of [] \<Rightarrow> [[c]] | f # fs \<Rightarrow> (c # f) # fs))"

definition str_fields :: "(char \<Rightarrow> bool) \<Rightarrow> string \<Rightarrow> string list" where
  "str_fields p s = filter (\<lambda>f. f \<noteq> []) (split_when p s)"

lemma to_lower_append [simp]: "to_lower (s @ t) = to_lower s @ to_lower t"
  by (simp add: to_lower_def)

lemma to_lower_idem [simp]: "to_lower (to_lower s) = to_lower s"
  by (simp add: to_lower_def)

lemma length_to_lower [simp]: "length (to_lower s) = length s"
  by (simp add: to_lower_def)

lemma to_lower_no_upper: "c \<in> set (to_lower s) \<Longrightarrow> \<not> is_upper c"
  by (auto simp: to_lower_def)

lemma has_prefix_append [simp]: "has_prefix (p @ s) p"
  by (simp add: has_prefix_def)

lemma set_dropWhile_subset: "set (dropWhile p xs) \<subseteq> set xs"
  by (induction xs) auto

lemma set_trim_cut: "set (trim_cut p s) \<subseteq> set s"
  using set_dropWhile_subset [of p s] set_dropWhile_subset [of p "rev (dropWhile p s)"]
  by (auto simp: trim_cut_def trim_left_def trim_right_def)

lemma length_trim_right: "length (trim_right p s) \<le> length s"
  using length_dropWhile_le [of p "rev s"] by (simp add: trim_right_def)

lemma length_trim_cut: "length (trim_cut p s) \<le> length s"
  using length_trim_right [of p "dropWhile p s"] length_dropWhile_le [of p s]
  by (simp add: trim_cut_def trim_left_def)

lemma last_trim_right: "trim_right p s \<noteq> [] \<Longrightarrow> \<not> p (last (trim_right p s))"
  using hd_dropWhile [of p "rev s"] by (auto simp: trim_right_def last_rev)

lemma trim_right_Nil: "trim_right p s = [] \<longleftrightarrow> (\<forall>c \<in> set s. p c)"
  by (auto simp: trim_right_def dropWhile_eq_Nil_conv)

lemma trim_right_prefix: "\<exists>t. s = trim_right p s @ t"
proof -
  have "s = rev (takeWhile p (rev s) @ dropWhile p (rev s))" by simp
  then have "s = trim_right p s @ rev (takeWhile p (rev s))"
    by (simp only: trim_right_def rev_append)
  then show ?thesis by blast
qed

lemma hd_trim_right: "trim_right p s \<noteq> [] \<Longrightarrow> hd (trim_right p s) = hd s"
  using trim_right_prefix [of s p] by (metis hd_append)

lemma hd_trim_cut: "trim_cut p s \<noteq> [] \<Longrightarrow> \<not> p (hd (trim_cut p s))"
  by (metis hd_dropWhile hd_trim_right trim_cut_def trim_left_def trim_right_Nil
      dropWhile_eq_Nil_conv empty_iff empty_set)

lemma last_trim_cut: "trim_cut p s \<noteq> [] \<Longrightarrow> \<not> p (last (trim_cut p s))"
  by (simp add: trim_cut_def last_trim_right)

lemma str_split_nonempty [simp]: "str_split sep s \<noteq> []"
  by (induction s) (auto split: list.splits)

lemma str_join_Cons: "ps \<noteq> [] \<Longrightarrow> str_join sep (p # ps) = p @ sep @ str_join sep ps"
  by (cases ps) auto

lemma str_join_split: "str_join [sep] (str_split sep s) = s"
proof (induction s)
  case (Cons c s)
  obtain p ps where ps: "str_split sep s = p # ps"
    by (cases "str_split sep s") auto
  with Cons show ?case by (cases ps) (auto simp: str_join_Cons)
qed simp

lemma str_split_parts: "p \<in> set (str_split sep s) \<Longrightarrow> sep \<notin> set p"
  by (induction s arbitrary: p) (auto split: list.splits if_splits)

lemma str_split_no_sep: "sep \<notin> set p \<Longrightarrow> str_split sep p = [p]"
  by (induction p) auto

lemma str_split_append:
  "sep \<notin> set p \<Longrightarrow> str_split sep (p @ sep # s) = p # str_split sep s"
  by (induction p) auto

lemma str_split_at: "str_split sep (s @ sep # t) = str_split sep s @ str_split sep t"
proof (induction s)
  case (Cons c s)
  then show ?case by (cases "str_split sep s") (auto split: list.splits)
qed simp

lemma str_split_join:
  "ps \<noteq> [] \<Longrightarrow> (\<And>p. p \<in> set ps \<Longrightarrow> sep \<notin> set p) \<Longrightarrow> str_split sep (str_join [sep] ps) = ps"
proof (induction ps)
  case (Cons p ps)
  show ?case
  proof (cases "ps = []")
    case True
    with Cons.prems show ?thesis by (simp add: str_split_no_sep)
  next
    case False
    with Cons show ?thesis by (simp add: str_join_Cons str_split_append)
  qed
qed simp

text \<open>Joining is injective on non-empty lists of parts that do not contain the separator.\<close>

lemma str_join_inject:
  assumes "str_join [sep] ps = str_join [sep] qs" and "ps \<noteq> []" and "qs \<noteq> []"
    and "\<And>p. p \<in> set ps \<Longrightarrow> sep \<notin> set p" and "\<And>q. q \<in> set qs \<Longrightarrow> sep \<notin> set q"
  shows "ps = qs"
  using assms str_split_join [of ps sep] str_split_join [of qs sep] by metis

lemma str_fields_parts: "f \<in> set (str_fields p s) \<Longrightarrow> f \<noteq> [] \<and> (\<forall>c \<in> set f. \<not> p c)"
  unfolding str_fields_def
  by (induction s arbitrary: f) (force split: list.splits if_splits)+

lemma split_when_none: "(\<And>c. c \<in> set f \<Longrightarrow> \<not> p c) \<Longrightarrow> split_when p f = [f]"
  by (induction f) auto

lemma split_when_append:
  "(\<And>c. c \<in> set f \<Longrightarrow> \<not> p c) \<Longrightarrow> p sep \<Longrightarrow> split_when p (f @ sep # s) = f # split_when p s"
  by (induction f) auto

lemma str_fields_join:
  "(\<And>f. f \<in> set fs \<Longrightarrow> f \<noteq> [] \<and> (\<forall>c \<in> set f. \<not> p c)) \<Longrightarrow> p sep \<Longrightarrow>
     str_fields p (str_join [sep] fs) = fs"
proof (induction fs)
  case (Cons f fs)
  then have f: "f \<noteq> []" "\<And>c. c \<in> set f \<Longrightarrow> \<not> p c" and ih: "str_fields p (str_join [sep] fs) = fs" by auto
  from f ih Cons.prems(2) show ?case
    by (cases "fs = []") (simp_all add: str_fields_def str_join_Cons split_when_none split_when_append)
qed (simp add: str_fields_def)

lemma dropWhile_hd: "s = [] \<or> \<not> p (hd s) \<Longrightarrow> dropWhile p s = s"
  by (cases s) auto

lemma trim_cut_id: "s \<noteq> [] \<Longrightarrow> \<not> p (hd s) \<Longrightarrow> \<not> p (last s) \<Longrightarrow> trim_cut p s = s"
  by (simp add: trim_cut_def trim_left_def trim_right_def dropWhile_hd hd_rev)

lemma trim_cut_idem [simp]: "trim_cut p (trim_cut p s) = trim_cut p s"
proof (cases "trim_cut p s = []")
  case False
  from trim_cut_id [OF this hd_trim_cut [OF this] last_trim_cut [OF this]] show ?thesis .
next
  case True
  then show ?thesis by (simp only: True) (simp add: trim_cut_def trim_left_def trim_right_def)
qed

lemma trim_cut_Nil: "trim_cut p s = [] \<longleftrightarrow> (\<forall>c \<in> set s. p c)"
  by (induction s) (auto simp: trim_cut_def trim_left_def trim_right_Nil)

section \<open>Decimal numbers\<close>

fun nat_digits :: "nat \<Rightarrow> string" where
  "nat_digits n =
     (if n < 10 then [char_of (48 + n)] else nat_digits (n div 10) @ [char_of (48 + n mod 10)])"

declare nat_digits.simps [simp del]

definition itoa :: "int \<Rightarrow> string" where
  "itoa n = (if n < 0 then CHR ''-'' # nat_digits (nat (- n)) else nat_digits (nat n))"

definition digits_val :: "string \<Rightarrow> nat" where
  "digits_val s = foldl (\<lambda>v c. 10 * v + (byte_of c - 48)) 0 s"

text \<open>\<open>strconv.Atoi\<close>: an optional sign and decimal digits, in the range of an int64.\<close>

definition atoi :: "string \<Rightarrow> int option" where
  "atoi s =
     (let (neg, ds) = (case s of [] \<Rightarrow> (False, [])
                       | c # cs \<Rightarrow> if c = CHR ''-'' then (True, cs)
                                   else if c = CHR ''+'' then (False, cs) else (False, s));
          v = (if neg then - int (digits_val ds) else int (digits_val ds))
      in if ds = [] \<or> \<not> list_all is_digit ds \<or> \<not> in_int64 v then None else Some v)"

text \<open>\<open>hex.EncodeToString\<close>.\<close>

definition hex_digit :: "nat \<Rightarrow> char" where
  "hex_digit n = (if n < 10 then char_of (48 + n) else char_of (87 + n))"

definition hex_string :: "string \<Rightarrow> string" where
  "hex_string s = concat (map (\<lambda>c. [hex_digit (byte_of c div 16), hex_digit (byte_of c mod 16)]) s)"

lemma nat_digits_nonempty [simp]: "nat_digits n \<noteq> []"
  by (subst nat_digits.simps) simp

lemma is_digit_char_of [simp]: "(n::nat) < 10 \<Longrightarrow> is_digit (char_of (48 + n))"
  by (simp add: is_digit_def)

lemma list_all_digit_nat_digits [simp]: "list_all is_digit (nat_digits n)"
proof (induction n rule: nat_digits.induct)
  case (1 n)
  then show ?case by (cases "n < 10") (simp_all add: nat_digits.simps [of n])
qed

lemma digits_val_snoc: "digits_val (s @ [c]) = 10 * digits_val s + (byte_of c - 48)"
  by (simp add: digits_val_def)

lemma digits_val_nat_digits [simp]: "digits_val (nat_digits n) = n"
proof (induction n rule: nat_digits.induct)
  case (1 n)
  show ?case
  proof (cases "n < 10")
    case True
    then show ?thesis by (simp add: nat_digits.simps [of n] digits_val_def)
  next
    case False
    with 1 show ?thesis by (simp add: nat_digits.simps [of n] digits_val_snoc)
  qed
qed

lemma hd_nat_digits: "is_digit (hd (nat_digits n))"
  using list_all_digit_nat_digits [of n] nat_digits_nonempty [of n]
  by (cases "nat_digits n") auto

lemma hd_nat_digits_neq [simp]:
  "hd (nat_digits n) \<noteq> CHR ''-''" "hd (nat_digits n) \<noteq> CHR ''+''"
  using hd_nat_digits [of n] by (auto simp: is_digit_def)

lemma atoi_itoa [simp]: "in_int64 n \<Longrightarrow> atoi (itoa n) = Some n"
proof (cases "n < 0")
  case True
  then show "in_int64 n \<Longrightarrow> atoi (itoa n) = Some n"
    by (simp add: atoi_def itoa_def Let_def)
next
  case False
  obtain c cs where cs: "nat_digits (nat n) = c # cs"
    by (cases "nat_digits (nat n)") auto
  have "c \<noteq> CHR ''-''" "c \<noteq> CHR ''+''"
    using hd_nat_digits_neq [of "nat n"] cs by auto
  moreover have "list_all is_digit (c # cs)" "digits_val (c # cs) = nat n"
    using list_all_digit_nat_digits [of "nat n"] digits_val_nat_digits [of "nat n"] cs by auto
  ultimately show "in_int64 n \<Longrightarrow> atoi (itoa n) = Some n"
    using False cs by (auto simp: atoi_def itoa_def Let_def)
qed

lemma itoa_nonempty [simp]: "itoa n \<noteq> []"
  by (simp add: itoa_def)

lemma atoi_in_range: "atoi s = Some n \<Longrightarrow> in_int64 n"
  by (auto simp: atoi_def Let_def split: list.splits if_splits)

lemma itoa_inject: "in_int64 m \<Longrightarrow> in_int64 n \<Longrightarrow> itoa m = itoa n \<longleftrightarrow> m = n"
  by (metis atoi_itoa option.inject)

section \<open>Lists: keeping the last entries\<close>

definition take_last :: "nat \<Rightarrow> 'a list \<Rightarrow> 'a list" where
  "take_last n xs = (if length xs \<le> n then xs else drop (length xs - n) xs)"

lemma length_take_last [bounded_intros]: "length (take_last n xs) \<le> n"
  by (simp add: take_last_def)

lemma length_take_last_eq [simp]: "length (take_last n xs) = min n (length xs)"
  by (auto simp: take_last_def)

lemma take_last_id [simp]: "length xs \<le> n \<Longrightarrow> take_last n xs = xs"
  by (simp add: take_last_def)

lemma take_last_drop: "take_last n xs = drop (length xs - n) xs"
  by (simp add: take_last_def)

lemma set_take_last: "set (take_last n xs) \<subseteq> set xs"
  by (simp add: take_last_drop set_drop_subset)

lemma take_last_snoc: "0 < n \<Longrightarrow> take_last n (xs @ [x]) = take_last (n - 1) xs @ [x]"
  by (auto simp: take_last_drop Suc_diff_le not_less)

lemma last_take_last_snoc [simp]: "0 < n \<Longrightarrow> last (take_last n (xs @ [x])) = x"
  by (simp add: take_last_snoc)

lemma take_last_take_last: "m \<le> n \<Longrightarrow> take_last m (take_last n xs) = take_last m xs"
  by (auto simp: take_last_drop intro!: arg_cong [where f = "\<lambda>k. drop k xs"])

lemma take_last_append_take_last:
  "take_last n (take_last n xs @ ys) = take_last n (xs @ ys)"
  by (auto simp: take_last_drop intro!: arg_cong [where f = "\<lambda>k. drop k xs"])

lemma distinct_take_last [intro]: "distinct xs \<Longrightarrow> distinct (take_last n xs)"
  by (simp add: take_last_drop)

section \<open>Association with a default\<close>

text \<open>Reading an absent key of a Go \<open>map[string]string\<close> gives the empty string.\<close>

definition map_get :: "('k \<rightharpoonup> string) \<Rightarrow> 'k \<Rightarrow> string" where
  "map_get m k = (case m k of None \<Rightarrow> [] | Some v \<Rightarrow> v)"

lemma map_get_upd [simp]: "map_get (m(k \<mapsto> v)) k' = (if k' = k then v else map_get m k')"
  by (simp add: map_get_def)

lemma map_get_empty [simp]: "map_get Map.empty k = []"
  by (simp add: map_get_def)

section \<open>Printing durations\<close>

text \<open>\<open>Duration.String\<close>: the fraction is printed without trailing zeros.\<close>

fun pad_digits :: "nat \<Rightarrow> nat \<Rightarrow> string" where
  "pad_digits 0 v = []"
| "pad_digits (Suc k) v = pad_digits k (v div 10) @ [char_of (48 + v mod 10)]"

definition frac_string :: "nat \<Rightarrow> nat \<Rightarrow> string" where
  "frac_string prec v =
     (let ds = trim_right (\<lambda>c. c = CHR ''0'') (pad_digits prec v)
      in if ds = [] then [] else CHR ''.'' # ds)"

definition hms_string :: "nat \<Rightarrow> string" where
  "hms_string u =
     (let secs = u div 10 ^ 9; mins = secs div 60; hrs = mins div 60;
          s = nat_digits (secs mod 60) @ frac_string 9 u @ ''s''
      in if mins = 0 then s
         else if hrs = 0 then nat_digits (mins mod 60) @ ''m'' @ s
         else nat_digits hrs @ ''h'' @ nat_digits (mins mod 60) @ ''m'' @ s)"

definition duration_string :: "duration \<Rightarrow> string" where
  "duration_string d =
     (let u = nat \<bar>d\<bar>;
          body = (if u = 0 then ''0s''
                  else if u < 1000 then nat_digits u @ ''ns''
                  else if u < 1000000 then nat_digits (u div 1000) @ frac_string 3 u @ [CHR 0xC2, CHR 0xB5] @ ''s''
                  else if u < 1000000000 then nat_digits (u div 1000000) @ frac_string 6 u @ ''ms''
                  else hms_string u)
      in if d < 0 then CHR ''-'' # body else body)"

section \<open>First match in a sorted list\<close>

lemma find_sorted_key_min:
  fixes f :: "'a \<Rightarrow> 'b :: linorder"
  assumes "sorted (map f xs)" and "find P xs = Some x" and "y \<in> set xs" and "P y"
  shows "f x \<le> f y"
  using assms
  by (induction xs) (auto split: if_splits)

lemma find_SomeD: "find P xs = Some x \<Longrightarrow> x \<in> set xs \<and> P x"
  by (auto simp: find_Some_iff)

lemma find_NoneD: "find P xs = None \<Longrightarrow> x \<in> set xs \<Longrightarrow> \<not> P x"
  by (auto simp: find_None_iff)

text \<open>In a list sorted by time, dropping the old prefix is filtering the old entries out.\<close>

lemma dropWhile_sorted_filter:
  fixes f :: "'a \<Rightarrow> 'b :: linorder"
  shows "sorted (map f xs) \<Longrightarrow> dropWhile (\<lambda>x. f x < c) xs = filter (\<lambda>x. c \<le> f x) xs"
proof (induction xs)
  case (Cons x xs)
  show ?case
  proof (cases "f x < c")
    case True
    with Cons show ?thesis by simp
  next
    case False
    with Cons.prems have "\<forall>y \<in> set xs. c \<le> f y" by fastforce
    with False show ?thesis by simp
  qed
qed simp

lemma dropWhile_same_length: "length (dropWhile P xs) = length xs \<Longrightarrow> dropWhile P xs = xs"
  using length_dropWhile_le [of P "tl xs"] by (cases xs) auto

lemma sorted_map_dropWhile: "sorted (map f xs) \<Longrightarrow> sorted (map f (dropWhile P xs))"
  by (induction xs) auto

end
