(* ===== verification/Events.thy ===== *)
theory Events
  imports Prelude
begin

text \<open>
  The signal vocabulary of \<open>internal/watcher/events.go\<close>: one constructor per event struct,
  each with the embedded \<open>BaseEvent\<close> first and the struct's own fields after it, the methods
  \<open>Type\<close>, \<open>OccurredAt\<close>, \<open>DedupKey\<close> and \<open>Attributes\<close>, the event-type table and the
  flattening of OTel attributes.
\<close>

record base_event =
  be_At :: gotime
  be_AgentName :: string
  be_Namespace :: string
  be_PodName :: string
  be_PodUID :: string
  be_NodeName :: string

definition zero_base :: base_event where
  "zero_base = \<lparr>be_At = 0, be_AgentName = [], be_Namespace = [], be_PodName = [],
                be_PodUID = [], be_NodeName = []\<rparr>"

type_synonym attr_map = "string \<rightharpoonup> string"

datatype correlator_event =
    CrashLoopBackOffEvent (ev_base: base_event) (ev_ContainerName: string)
      (ev_RestartCount: int) (ev_Threshold: int) (ev_LastExitCode: int)
      (ev_ExitCodeCategory: string) (ev_ExitCodeDescription: string)
  | OOMKilledEvent (ev_base: base_event) (ev_ContainerName: string) (ev_ExitCode: int)
      (ev_Reason: string)
  | ImagePullBackOffEvent (ev_base: base_event) (ev_ContainerName: string)
      (ev_Reason: string) (ev_Message: string)
  | PodPendingTooLongEvent (ev_base: base_event) (ev_PendingFor: duration) (ev_Timeout: duration)
  | GracePeriodViolationEvent (ev_base: base_event) (ev_GracePeriodSeconds: int)
      (ev_OverdueFor: duration)
  | PodHealthyEvent (ev_base: base_event)
  | PodDeletedEvent (ev_base: base_event)
  | NodeNotReadyEvent (ev_base: base_event) (ev_Reason: string) (ev_Message: string)
  | PodEvictedEvent (ev_base: base_event) (ev_Reason: string) (ev_Message: string)
  | ProbeFailureEvent (ev_base: base_event) (ev_ProbeType: string) (ev_Message: string)
  | StalledRolloutEvent (ev_base: base_event) (ev_DeploymentName: string) (ev_Revision: int)
      (ev_DesiredReplicas: int) (ev_ReadyReplicas: int) (ev_Reason: string) (ev_Message: string)
  | NodePressureEvent (ev_base: base_event) (ev_PressureType: string) (ev_Message: string)
  | StalledStatefulSetEvent (ev_base: base_event) (ev_StatefulSetName: string) (ev_Revision: int)
      (ev_DesiredReplicas: int) (ev_ReadyReplicas: int) (ev_UpdatedReplicas: int)
      (ev_Reason: string) (ev_Message: string)
  | StalledDaemonSetEvent (ev_base: base_event) (ev_DaemonSetName: string) (ev_Revision: int)
      (ev_DesiredNumberScheduled: int) (ev_NumberReady: int) (ev_UpdatedNumberScheduled: int)
      (ev_Reason: string) (ev_Message: string)
  | JobFailedEvent (ev_base: base_event) (ev_JobName: string) (ev_Reason: string)
      (ev_Message: string)
  | CronJobFailedEvent (ev_base: base_event) (ev_CronJobName: string) (ev_LastJobName: string)
      (ev_Reason: string) (ev_Message: string)
  | OTelSpanErrorEvent (ev_base: base_event) (ev_TraceID: string) (ev_SpanID: string)
      (ev_ParentSpanID: string) (ev_ServiceName: string) (ev_SpanName: string)
      (ev_SpanKind: string) (ev_StatusCode: string) (ev_StatusMessage: string)
      (ev_DurationNanos: int) (ev_StartTime: gotime) (ev_EndTime: gotime)
      (ev_Attrs: attr_map) (ev_ResourceAttrs: attr_map)
  | OTelSpanLatencySpikeEvent (ev_base: base_event) (ev_TraceID: string) (ev_SpanID: string)
      (ev_ParentSpanID: string) (ev_ServiceName: string) (ev_SpanName: string)
      (ev_DurationNanos: int) (ev_ThresholdNs: int) (ev_StartTime: gotime) (ev_EndTime: gotime)
      (ev_Attrs: attr_map) (ev_ResourceAttrs: attr_map)
  | OTelLogMatchEvent (ev_base: base_event) (ev_TraceID: string) (ev_SpanID: string)
      (ev_ServiceName: string) (ev_Severity: string) (ev_SeverityNum: int) (ev_Body: string)
      (ev_BodyHash: string) (ev_Attrs: attr_map) (ev_ResourceAttrs: attr_map)
  | OTelSpanEventEvent (ev_base: base_event) (ev_TraceID: string) (ev_SpanID: string)
      (ev_ServiceName: string) (ev_EventName: string) (ev_EventTime: gotime)
      (ev_Attrs: attr_map) (ev_ResourceAttrs: attr_map)

section \<open>Event types\<close>

definition valid_event_types :: "string list" where
  "valid_event_types =
     [''CrashLoopBackOff'', ''OOMKilled'', ''ImagePullBackOff'', ''PodPendingTooLong'',
      ''GracePeriodViolation'', ''PodHealthy'', ''PodDeleted'', ''NodeNotReady'', ''PodEvicted'',
      ''ProbeFailure'', ''StalledRollout'', ''NodePressure'', ''StalledStatefulSet'',
      ''StalledDaemonSet'', ''JobFailed'', ''CronJobFailed'', ''OTelSpanError'',
      ''OTelSpanLatencySpike'', ''OTelLogMatch'', ''OTelSpanEvent'']"

definition IsKnownEventType :: "string \<Rightarrow> bool" where
  "IsKnownEventType name \<longleftrightarrow> name \<in> set valid_event_types"

definition event_type :: "correlator_event \<Rightarrow> string" where
  "event_type e = (case e of
     CrashLoopBackOffEvent _ _ _ _ _ _ _ \<Rightarrow> ''CrashLoopBackOff''
   | OOMKilledEvent _ _ _ _ \<Rightarrow> ''OOMKilled''
   | ImagePullBackOffEvent _ _ _ _ \<Rightarrow> ''ImagePullBackOff''
   | PodPendingTooLongEvent _ _ _ \<Rightarrow> ''PodPendingTooLong''
   | GracePeriodViolationEvent _ _ _ \<Rightarrow> ''GracePeriodViolation''
   | PodHealthyEvent _ \<Rightarrow> ''PodHealthy''
   | PodDeletedEvent _ \<Rightarrow> ''PodDeleted''
   | NodeNotReadyEvent _ _ _ \<Rightarrow> ''NodeNotReady''
   | PodEvictedEvent _ _ _ \<Rightarrow> ''PodEvicted''
   | ProbeFailureEvent _ _ _ \<Rightarrow> ''ProbeFailure''
   | StalledRolloutEvent _ _ _ _ _ _ _ \<Rightarrow> ''StalledRollout''
   | NodePressureEvent _ _ _ \<Rightarrow> ''NodePressure''
   | StalledStatefulSetEvent _ _ _ _ _ _ _ _ \<Rightarrow> ''StalledStatefulSet''
   | StalledDaemonSetEvent _ _ _ _ _ _ _ _ \<Rightarrow> ''StalledDaemonSet''
   | JobFailedEvent _ _ _ _ \<Rightarrow> ''JobFailed''
   | CronJobFailedEvent _ _ _ _ _ \<Rightarrow> ''CronJobFailed''
   | OTelSpanErrorEvent _ _ _ _ _ _ _ _ _ _ _ _ _ _ \<Rightarrow> ''OTelSpanError''
   | OTelSpanLatencySpikeEvent _ _ _ _ _ _ _ _ _ _ _ _ \<Rightarrow> ''OTelSpanLatencySpike''
   | OTelLogMatchEvent _ _ _ _ _ _ _ _ _ _ \<Rightarrow> ''OTelLogMatch''
   | OTelSpanEventEvent _ _ _ _ _ _ _ _ \<Rightarrow> ''OTelSpanEvent'')"

definition OccurredAt :: "correlator_event \<Rightarrow> gotime" where
  "OccurredAt e = be_At (ev_base e)"

text \<open>\<open>DedupKey\<close>: the type and the struct's identity fields, separated by colons.\<close>

definition dedup_fields :: "correlator_event \<Rightarrow> string list" where
  "dedup_fields e =
     (let b = ev_base e; ns = be_Namespace b; pod = be_PodName b; uid = be_PodUID b
      in case e of
     CrashLoopBackOffEvent _ c _ _ _ _ _ \<Rightarrow> [ns, pod, c]
   | OOMKilledEvent _ c _ _ \<Rightarrow> [ns, pod, c, uid]
   | ImagePullBackOffEvent _ c _ _ \<Rightarrow> [ns, pod, c]
   | PodPendingTooLongEvent _ _ _ \<Rightarrow> [ns, pod, uid]
   | GracePeriodViolationEvent _ _ _ \<Rightarrow> [ns, pod, uid]
   | PodHealthyEvent _ \<Rightarrow> [ns, pod]
   | PodDeletedEvent _ \<Rightarrow> [ns, pod]
   | NodeNotReadyEvent _ _ _ \<Rightarrow> [ns, be_NodeName b]
   | PodEvictedEvent _ _ _ \<Rightarrow> [ns, pod, uid]
   | ProbeFailureEvent _ pt _ \<Rightarrow> [ns, pod, pt]
   | StalledRolloutEvent _ d _ _ _ _ _ \<Rightarrow> [ns, d]
   | NodePressureEvent _ pt _ \<Rightarrow> [be_NodeName b, pt]
   | StalledStatefulSetEvent _ n _ _ _ _ _ _ \<Rightarrow> [ns, n]
   | StalledDaemonSetEvent _ n _ _ _ _ _ _ \<Rightarrow> [ns, n]
   | JobFailedEvent _ n _ _ \<Rightarrow> [ns, n]
   | CronJobFailedEvent _ n _ _ _ \<Rightarrow> [ns, n]
   | OTelSpanErrorEvent _ t s _ _ _ _ _ _ _ _ _ _ _ \<Rightarrow> [t, s]
   | OTelSpanLatencySpikeEvent _ t s _ _ _ _ _ _ _ _ _ \<Rightarrow> [t, s]
   | OTelLogMatchEvent _ _ _ svc _ _ _ h _ _ \<Rightarrow> [svc, h]
   | OTelSpanEventEvent _ t s _ n _ _ _ \<Rightarrow> [t, s, n])"

definition DedupKey :: "correlator_event \<Rightarrow> string" where
  "DedupKey e = str_join '':'' (event_type e # dedup_fields e)"

section \<open>Attributes of OTel events\<close>

definition put_nonempty :: "string \<Rightarrow> string \<Rightarrow> attr_map \<Rightarrow> attr_map" where
  "put_nonempty k v m = (if v \<noteq> [] then m(k \<mapsto> v) else m)"

text \<open>
  \<open>mergedAttrs\<close>: resource attributes, overlaid by the event's attributes, overlaid by the
  promoted struct fields (a list of key and value, empty values are skipped).
\<close>

definition mergedAttrs :: "attr_map \<Rightarrow> attr_map \<Rightarrow> (string \<times> string) list \<Rightarrow> attr_map" where
  "mergedAttrs attrs resourceAttrs self =
     fold (\<lambda>(k, v). put_nonempty k v) self (resourceAttrs ++ attrs)"

definition promoteTraceIDs :: "attr_map \<Rightarrow> string \<Rightarrow> string \<Rightarrow> string \<Rightarrow> attr_map" where
  "promoteTraceIDs out traceID spanID parentSpanID =
     put_nonempty ''parent.span.id'' parentSpanID
       (put_nonempty ''span.id'' spanID (put_nonempty ''trace.id'' traceID out))"

text \<open>\<open>Attributes\<close>: \<open>None\<close> for the events that do not implement \<open>AttributesEvent\<close>.\<close>

definition event_attributes :: "correlator_event \<Rightarrow> attr_map option" where
  "event_attributes e = (case e of
     OTelSpanErrorEvent _ t s p svc sn sk sc sm _ _ _ a ra \<Rightarrow>
       Some (promoteTraceIDs (mergedAttrs a ra
         [(''service.name'', svc), (''span.name'', sn), (''span.kind'', sk),
          (''span.status.code'', sc), (''span.status.message'', sm)]) t s p)
   | OTelSpanLatencySpikeEvent _ t s p svc sn _ _ _ _ a ra \<Rightarrow>
       Some (promoteTraceIDs (mergedAttrs a ra
         [(''service.name'', svc), (''span.name'', sn)]) t s p)
   | OTelLogMatchEvent _ t s svc sev _ body _ a ra \<Rightarrow>
       Some (promoteTraceIDs (mergedAttrs a ra
         [(''service.name'', svc), (''log.severity'', sev), (''log.body'', body)]) t s [])
   | OTelSpanEventEvent _ t s svc en _ a ra \<Rightarrow>
       Some (promoteTraceIDs (mergedAttrs a ra
         [(''service.name'', svc), (''event.name'', en)]) t s [])
   | _ \<Rightarrow> None)"

text \<open>The trace id carried by an OTel event (the three copies of \<open>extractTraceID\<close>).\<close>

definition extractTraceID :: "correlator_event \<Rightarrow> string" where
  "extractTraceID e = (case e of
     OTelSpanErrorEvent _ t _ _ _ _ _ _ _ _ _ _ _ _ \<Rightarrow> t
   | OTelSpanLatencySpikeEvent _ t _ _ _ _ _ _ _ _ _ _ \<Rightarrow> t
   | OTelLogMatchEvent _ t _ _ _ _ _ _ _ _ \<Rightarrow> t
   | OTelSpanEventEvent _ t _ _ _ _ _ _ \<Rightarrow> t
   | _ \<Rightarrow> [])"

definition is_otel_event :: "correlator_event \<Rightarrow> bool" where
  "is_otel_event e \<longleftrightarrow> event_attributes e \<noteq> None"

definition is_lifecycle_event :: "correlator_event \<Rightarrow> bool" where
  "is_lifecycle_event e \<longleftrightarrow> (case e of PodHealthyEvent _ \<Rightarrow> True | PodDeletedEvent _ \<Rightarrow> True | _ \<Rightarrow> False)"

section \<open>Lemmas\<close>

lemma event_type_known: "IsKnownEventType (event_type e)"
  by (cases e) (simp_all add: IsKnownEventType_def valid_event_types_def event_type_def)

lemma lifecycle_event_type:
  "is_lifecycle_event e \<longleftrightarrow> event_type e \<in> {''PodHealthy'', ''PodDeleted''}"
  by (cases e) (simp_all add: is_lifecycle_event_def event_type_def)

lemma event_type_no_colon: "CHR '':'' \<notin> set (event_type e)"
  by (cases e) (simp_all add: event_type_def)

lemma put_nonempty_apply:
  "put_nonempty k v m x = (if x = k \<and> v \<noteq> [] then Some v else m x)"
  by (simp add: put_nonempty_def)

lemma event_attributes_trace_id:
  "event_attributes e = Some m \<Longrightarrow> extractTraceID e \<noteq> [] \<Longrightarrow>
     m ''trace.id'' = Some (extractTraceID e)"
  by (cases e) (auto simp: event_attributes_def extractTraceID_def promoteTraceIDs_def
      put_nonempty_apply)

lemma event_attributes_none: "event_attributes e = None \<Longrightarrow> extractTraceID e = []"
  by (cases e) (simp_all add: event_attributes_def extractTraceID_def)

lemma DedupKey_cut: "takeWhile (\<lambda>c. c \<noteq> CHR '':'') (DedupKey e) = event_type e"
proof -
  have "dedup_fields e \<noteq> []" by (cases e) (simp_all add: dedup_fields_def Let_def)
  then have "DedupKey e = event_type e @ CHR '':'' # str_join '':'' (dedup_fields e)"
    by (simp add: DedupKey_def str_join_Cons)
  moreover have "takeWhile (\<lambda>c. c \<noteq> CHR '':'') (event_type e) = event_type e"
    using event_type_no_colon by (auto simp: takeWhile_eq_all_conv)
  ultimately show ?thesis by (simp add: takeWhile_tail)
qed

section \<open>Properties\<close>

text \<open>Events with one dedup key have one type, whatever their fields hold; when no identity field
  contains a colon (namespaces, pod, container and node names never do), they also agree in
  every identity field. So a deduplicator suppresses only repetitions of the same fault.
\<close>

theorem DedupKey_identity:
  assumes "DedupKey e = DedupKey e'"
  shows "event_type e = event_type e' \<and>
    (list_all (\<lambda>f. CHR '':'' \<notin> set f) (dedup_fields e @ dedup_fields e') \<longrightarrow> dedup_fields e = dedup_fields e')"
proof (intro conjI impI)
  show "event_type e = event_type e'" using DedupKey_cut [of e] DedupKey_cut [of e'] assms by simp
next
  assume "list_all (\<lambda>f. CHR '':'' \<notin> set f) (dedup_fields e @ dedup_fields e')"
  then have "event_type e # dedup_fields e = event_type e' # dedup_fields e'"
    using assms event_type_no_colon
    by (intro str_join_inject [of "CHR '':''"]) (auto simp: DedupKey_def list_all_iff)
  then show "dedup_fields e = dedup_fields e'" by simp
qed

theorem DedupKey_identity_witness:
  "dedup_fields (PodHealthyEvent (zero_base\<lparr>be_PodName := ''web''\<rparr>))
     = dedup_fields (PodHealthyEvent (zero_base\<lparr>be_PodName := ''web'', be_At := 7\<rparr>))"
  using DedupKey_identity [of "PodHealthyEvent (zero_base\<lparr>be_PodName := ''web''\<rparr>)"
      "PodHealthyEvent (zero_base\<lparr>be_PodName := ''web'', be_At := 7\<rparr>)"]
  by (simp add: DedupKey_def dedup_fields_def event_type_def zero_base_def)

end
