(* ===== verification/Dedup.thy ===== *)
theory Dedup
  imports Events "HOL-Library.Sublist"
begin

text \<open>
  Suppression of repeated signals inside a time window. Two components do it: the channel
  emitter in front of the correlator (\<open>internal/watcher/emitter.go\<close>) and the signal
  deduplicator (\<open>internal/signals/deduplicator.go\<close>). The locale \<open>window_dedup\<close> states what
  both promise; what follows from the promise for a whole sequence of signals is proved once.
\<close>

section \<open>The deduplicator\<close>

record deduplicator =
  dd_seen :: "string \<rightharpoonup> gotime"
  dd_window :: duration

definition NewDeduplicator :: "duration \<Rightarrow> deduplicator" where
  "NewDeduplicator window = \<lparr>dd_seen = Map.empty, dd_window = window\<rparr>"

definition dd_purgeOld :: "gotime \<Rightarrow> deduplicator \<Rightarrow> deduplicator" where
  "dd_purgeOld now d =
     d\<lparr>dd_seen := (\<lambda>k. case dd_seen d k of None \<Rightarrow> None
        | Some ts \<Rightarrow> if time_before ts (now - dd_window d) then None else Some ts)\<rparr>"

definition IsDuplicate :: "gotime \<Rightarrow> string \<Rightarrow> deduplicator \<Rightarrow> bool \<times> deduplicator" where
  "IsDuplicate now key d =
     (let d1 = dd_purgeOld now d;
          recorded = (False, d1\<lparr>dd_seen := (dd_seen d1)(key \<mapsto> now)\<rparr>)
      in case dd_seen d1 key of
           Some lastSeen \<Rightarrow> if time_sub now lastSeen < dd_window d1 then (True, d1) else recorded
         | None \<Rightarrow> recorded)"

section \<open>The channel emitter\<close>

text \<open>The channel is its queue of pending events and its capacity; a send that would block is
  dropped. The receiver of \<open>Emit\<close> and the event are present (the nil guards return at once).\<close>

record emitter =
  em_queue :: "correlator_event list"
  em_capacity :: nat
  em_dedupWindow :: duration
  em_recent :: "string \<rightharpoonup> gotime"

definition NewChannelEventEmitterWithOptions :: "nat \<Rightarrow> duration \<Rightarrow> emitter" where
  "NewChannelEventEmitterWithOptions cap window =
     \<lparr>em_queue = [], em_capacity = cap, em_dedupWindow = window, em_recent = Map.empty\<rparr>"

definition NewChannelEventEmitter :: "nat \<Rightarrow> emitter" where
  "NewChannelEventEmitter cap = NewChannelEventEmitterWithOptions cap 0"

definition shouldDropDuplicate ::
    "gotime \<Rightarrow> correlator_event \<Rightarrow> emitter \<Rightarrow> bool \<times> emitter" where
  "shouldDropDuplicate now event em =
     (if em_dedupWindow em \<le> 0 then (False, em)
      else let key = DedupKey event in
        if key = [] then (False, em)
        else case em_recent em key of
          Some t \<Rightarrow> if time_sub now t < em_dedupWindow em then (True, em)
                    else (False, em\<lparr>em_recent := (\<lambda>k. case ((em_recent em)(key \<mapsto> now)) k of
                           None \<Rightarrow> None
                         | Some seenAt \<Rightarrow> if em_dedupWindow em \<le> time_sub now seenAt then None
                                         else Some seenAt)\<rparr>)
        | None \<Rightarrow> (False, em\<lparr>em_recent := (\<lambda>k. case ((em_recent em)(key \<mapsto> now)) k of
                           None \<Rightarrow> None
                         | Some seenAt \<Rightarrow> if em_dedupWindow em \<le> time_sub now seenAt then None
                                         else Some seenAt)\<rparr>))"

definition Emit :: "gotime \<Rightarrow> correlator_event \<Rightarrow> emitter \<Rightarrow> emitter" where
  "Emit now event em =
     (let (dup, em1) = shouldDropDuplicate now event em
      in if dup then em1
         else if length (em_queue em1) < em_capacity em1
              then em1\<lparr>em_queue := em_queue em1 @ [event]\<rparr> else em1)"

section \<open>The contract\<close>

text \<open>
  \<open>check now k s\<close> answers whether key \<open>k\<close> is a duplicate at time \<open>now\<close> and gives the
  next state; \<open>seen s\<close> is the state's record of the last accepted time of each key.
\<close>

text \<open>The accepted signals of a sequence of arrivals, for a duplicate check \<open>check\<close>.\<close>

fun accepted_by :: "(gotime \<Rightarrow> 'k \<Rightarrow> 's \<Rightarrow> bool \<times> 's) \<Rightarrow> (gotime \<times> 'k) list \<Rightarrow> 's \<Rightarrow>
    (gotime \<times> 'k) list" where
  "accepted_by check [] s = []"
| "accepted_by check ((now, k) # es) s =
     (let (dup, s') = check now k s
      in if dup then accepted_by check es s' else (now, k) # accepted_by check es s')"

lemma accepted_by_Cons:
  "accepted_by check ((now, k) # es) s =
     (if fst (check now k s) then accepted_by check es (snd (check now k s))
      else (now, k) # accepted_by check es (snd (check now k s)))"
  by (simp split: prod.splits)

lemma set_accepted_by: "set (accepted_by check es s) \<subseteq> set es"
proof (induction es arbitrary: s)
  case (Cons e es)
  then show ?case by (cases e) (auto simp: accepted_by_Cons simp del: accepted_by.simps)
qed simp

text \<open>Entries of a timed sequence with one key are at least \<open>w\<close> apart.\<close>

definition spaced :: "duration \<Rightarrow> (gotime \<times> 'a \<Rightarrow> 'k) \<Rightarrow> (gotime \<times> 'a) list \<Rightarrow> bool" where
  "spaced w key es \<longleftrightarrow> sorted_wrt (\<lambda>a b. key a = key b \<longrightarrow> w \<le> time_sub (fst b) (fst a)) es"

text \<open>No entry of a timed sequence is more than \<open>d\<close> older than an earlier one.\<close>

definition lag_within :: "duration \<Rightarrow> (gotime \<times> 'a) list \<Rightarrow> bool" where
  "lag_within d es \<longleftrightarrow> sorted_wrt (\<lambda>a b. fst a \<le> fst b + d) es"

lemma lag_within_sorted: "lag_within 0 es = sorted (map fst es)"
  by (simp add: lag_within_def sorted_map)

lemma time_sub_lag: "now \<le> t + d \<Longrightarrow> 0 \<le> d \<Longrightarrow> time_sub now t0 \<le> time_sub t t0 + d"
  by (simp add: time_sub_def min_def max_def)

locale window_dedup =
  fixes check :: "gotime \<Rightarrow> 'k \<Rightarrow> 's \<Rightarrow> bool \<times> 's"
    and seen :: "'s \<Rightarrow> 'k \<rightharpoonup> gotime"
    and window :: duration
    and inv :: "'s \<Rightarrow> bool"
    and tracked :: "'k \<Rightarrow> bool"
  assumes inv_check: "inv s \<Longrightarrow> inv (snd (check now k s))"
    and dup_iff: "inv s \<Longrightarrow> tracked k \<Longrightarrow>
          fst (check now k s) \<longleftrightarrow> (\<exists>t. seen s k = Some t \<and> time_sub now t < window)"
    and accept_records: "inv s \<Longrightarrow> tracked k \<Longrightarrow> \<not> fst (check now k s) \<Longrightarrow>
          seen (snd (check now k s)) k = Some now"
    and dup_keeps: "inv s \<Longrightarrow> tracked k \<Longrightarrow> fst (check now k s) \<Longrightarrow>
          seen (snd (check now k s)) k = seen s k"
    and others_kept: "inv s \<Longrightarrow> tracked k \<Longrightarrow> j \<noteq> k \<Longrightarrow> seen s j = Some t \<Longrightarrow>
          time_sub now t < window \<Longrightarrow> seen (snd (check now k s)) j = Some t"
    and others_old: "inv s \<Longrightarrow> tracked k \<Longrightarrow> j \<noteq> k \<Longrightarrow>
          seen (snd (check now k s)) j = Some t \<Longrightarrow> seen s j = Some t"
begin

lemma record_step:
  assumes "inv s" and "tracked j" and "seen s k = Some t0" and "tracked k"
  shows "seen (snd (check now j s)) k = Some t0 \<and> (j = k \<longrightarrow> fst (check now j s))
         \<or> window \<le> time_sub now t0"
proof (cases "time_sub now t0 < window")
  case True
  then show ?thesis
    using assms dup_iff [of s j now] dup_keeps [of s j now] others_kept [of s j k t0 now]
    by (cases "j = k") auto
qed simp

text \<open>
  A key recorded at \<open>t0\<close> is not accepted again before the window has passed, but for the time \<open>d\<close>
  by which a check may be made with a clock reading older than that of an earlier check.
\<close>

lemma accepted_after_record:
  assumes "inv s" and "seen s k = Some t0" and "tracked k" and "lag_within d es" "0 \<le> d"
    and "list_all (\<lambda>e. tracked (snd e)) es"
    and "(t, k) \<in> set (accepted_by check es s)"
  shows "window - d \<le> time_sub t t0"
  using assms
proof (induction es arbitrary: s)
  case (Cons e es)
  obtain now j where e: "e = (now, j)" by (cases e)
  let ?s' = "snd (check now j s)"
  have "(t, k) \<in> set (e # es)"
    using set_accepted_by Cons.prems(7) by (rule subsetD)
  then have t: "now \<le> t + d" using Cons.prems(4,5) by (auto simp: e lag_within_def)
  consider "seen ?s' k = Some t0" "j = k \<longrightarrow> fst (check now j s)" | "window \<le> time_sub now t0"
    using record_step [OF Cons.prems(1) _ Cons.prems(2,3), of j now] Cons.prems(6) by (auto simp: e)
  then show ?case
  proof cases
    case 1
    then have "(t, k) \<in> set (accepted_by check es ?s')"
      using Cons.prems(7) by (auto simp: e accepted_by_Cons simp del: accepted_by.simps split: if_splits)
    with 1(1) show ?thesis
      using Cons.IH [OF inv_check [OF Cons.prems(1)]] Cons.prems(3-6) by (auto simp: e lag_within_def)
  next
    case 2
    then show ?thesis using time_sub_lag [OF t Cons.prems(5), of t0] by linarith
  qed
qed simp

text \<open>Two accepted signals with the same key are at least a window less the lag apart.\<close>

lemma accepted_spaced_lag:
  assumes "inv s" and "lag_within d es" "0 \<le> d" and "list_all (\<lambda>e. tracked (snd e)) es"
  shows "spaced (window - d) snd (accepted_by check es s)"
  using assms
proof (induction es arbitrary: s)
  case (Cons e es)
  obtain now j where e: "e = (now, j)" by (cases e)
  let ?s' = "snd (check now j s)"
  have inv': "inv ?s'" using Cons.prems(1) by (rule inv_check)
  have tj: "tracked j" "list_all (\<lambda>e. tracked (snd e)) es" "lag_within d es"
    using Cons.prems(2,4) e by (auto simp: lag_within_def)
  note IH = Cons.IH [OF inv' tj(3) Cons.prems(3) tj(2)]
  show ?case
  proof (cases "fst (check now j s)")
    case True
    then show ?thesis using IH by (simp add: e accepted_by_Cons del: accepted_by.simps)
  next
    case False
    note rec = accepted_after_record
      [OF inv' accept_records [OF Cons.prems(1) tj(1) False] tj(1,3) Cons.prems(3) tj(2)]
    show ?thesis using False IH rec by (auto simp: e accepted_by_Cons spaced_def simp del: accepted_by.simps)
  qed
qed (simp add: spaced_def)

lemma accepted_spaced:
  assumes "inv s" and "sorted (map fst es)" and "list_all (\<lambda>e. tracked (snd e)) es"
  shows "spaced window snd (accepted_by check es s)"
  using accepted_spaced_lag [of s 0 es] assms by (simp add: lag_within_sorted)

text \<open>A signal whose key has no live record is never suppressed.\<close>

lemma fresh_accepted:
  "inv s \<Longrightarrow> tracked k \<Longrightarrow> seen s k = None \<Longrightarrow> \<not> fst (check now k s)"
  by (simp add: dup_iff)

end

section \<open>Both components keep the contract\<close>

definition dedup_inv :: "duration \<Rightarrow> deduplicator \<Rightarrow> bool" where
  "dedup_inv w d \<longleftrightarrow> dd_window d = w \<and> in_int64 w"

lemma purge_lookup:
  "dd_seen (dd_purgeOld now d) k =
     (case dd_seen d k of None \<Rightarrow> None
      | Some ts \<Rightarrow> if ts < now - dd_window d then None else Some ts)"
  by (simp add: dd_purgeOld_def time_before_def split: option.splits)

lemma purged_is_old: "in_int64 w \<Longrightarrow> ts < now - w \<Longrightarrow> w \<le> time_sub now ts"
  by (auto simp: time_sub_def in_int64_def)

lemma dd_window_purge [simp]: "dd_window (dd_purgeOld now d) = dd_window d"
  by (simp add: dd_purgeOld_def)

lemma IsDuplicate_fst:
  "in_int64 (dd_window d) \<Longrightarrow>
     fst (IsDuplicate now k d) \<longleftrightarrow> (\<exists>t. dd_seen d k = Some t \<and> time_sub now t < dd_window d)"
  using purged_is_old [of "dd_window d" "the (dd_seen d k)" now]
  by (cases "dd_seen d k") (auto simp: IsDuplicate_def Let_def purge_lookup)

interpretation deduplicator: window_dedup IsDuplicate dd_seen w "dedup_inv w" "\<lambda>_. True" for w
proof (unfold_locales, goal_cases)
  case (1 s now k)
  then show ?case
    by (auto simp: IsDuplicate_def Let_def dedup_inv_def dd_purgeOld_def split: option.splits)
next
  case (2 s k now)
  then show ?case by (simp add: dedup_inv_def IsDuplicate_fst)
next
  case (3 s k now)
  then show ?case by (auto simp: IsDuplicate_def Let_def split: option.splits if_splits)
next
  case (4 s k now)
  then show ?case
    by (auto simp: IsDuplicate_def Let_def purge_lookup split: option.splits if_splits)
next
  case (5 s k j t now)
  then show ?case
    using purged_is_old [of w t now]
    by (auto simp: IsDuplicate_def Let_def dedup_inv_def purge_lookup split: option.splits if_splits)
next
  case (6 s k j now t)
  then show ?case
    by (auto simp: IsDuplicate_def Let_def purge_lookup split: option.splits if_splits)
qed

text \<open>The emitter keyed by the event's dedup key: \<open>emit_check\<close> is the check on keys that
  \<open>shouldDropDuplicate\<close> makes for an event with that key.\<close>

definition emit_check :: "gotime \<Rightarrow> string \<Rightarrow> emitter \<Rightarrow> bool \<times> emitter" where
  "emit_check now key em =
     (if em_dedupWindow em \<le> 0 \<or> key = [] then (False, em)
      else if \<exists>t. em_recent em key = Some t \<and> time_sub now t < em_dedupWindow em then (True, em)
      else (False, em\<lparr>em_recent := (\<lambda>k. case ((em_recent em)(key \<mapsto> now)) k of
              None \<Rightarrow> None
            | Some seenAt \<Rightarrow> if em_dedupWindow em \<le> time_sub now seenAt then None else Some seenAt)\<rparr>))"

lemma shouldDropDuplicate_check: "shouldDropDuplicate now event em = emit_check now (DedupKey event) em"
  by (auto simp: shouldDropDuplicate_def emit_check_def Let_def split: option.splits)

definition emitter_inv :: "duration \<Rightarrow> emitter \<Rightarrow> bool" where
  "emitter_inv w em \<longleftrightarrow> em_dedupWindow em = w \<and> 0 < w"

lemma time_sub_self [simp]: "time_sub t t = 0"
  by (simp add: time_sub_def min_int64_def max_int64_def)

interpretation emitter: window_dedup emit_check em_recent w "emitter_inv w" "\<lambda>k. k \<noteq> []" for w
  by unfold_locales (auto simp: emit_check_def emitter_inv_def split: option.splits if_splits)

section \<open>Runs of the emitter\<close>

fun emit_all :: "(gotime \<times> correlator_event) list \<Rightarrow> emitter \<Rightarrow> emitter" where
  "emit_all [] em = em"
| "emit_all ((now, event) # es) em = emit_all es (Emit now event em)"

text \<open>The events that a run puts on the channel, with the time of the call.\<close>

fun emit_log :: "(gotime \<times> correlator_event) list \<Rightarrow> emitter \<Rightarrow> (gotime \<times> correlator_event) list" where
  "emit_log [] em = []"
| "emit_log ((now, event) # es) em =
     (if length (em_queue em) < length (em_queue (Emit now event em)) then [(now, event)] else [])
       @ emit_log es (Emit now event em)"

abbreviation event_keys :: "(gotime \<times> correlator_event) list \<Rightarrow> (gotime \<times> string) list" where
  "event_keys es \<equiv> map (\<lambda>(t, e). (t, DedupKey e)) es"

lemma DedupKey_nonempty [simp]: "DedupKey e \<noteq> []"
  using DedupKey_cut [of e] by (cases e) (auto simp: event_type_def)

lemma emit_check_frame [simp]:
  "em_queue (snd (emit_check now k em)) = em_queue em"
  "em_capacity (snd (emit_check now k em)) = em_capacity em"
  by (simp_all add: emit_check_def)

lemma emit_check_queue:
  "emit_check now k (em\<lparr>em_queue := q\<rparr>) =
     (fst (emit_check now k em), (snd (emit_check now k em))\<lparr>em_queue := q\<rparr>)"
  by (cases em) (auto simp: emit_check_def fun_eq_iff split: option.splits)

lemma accepted_by_queue: "accepted_by emit_check ks (em\<lparr>em_queue := q\<rparr>) = accepted_by emit_check ks em"
proof (induction ks arbitrary: em)
  case (Cons k ks)
  then show ?case
    by (cases k) (simp add: accepted_by_Cons emit_check_queue del: accepted_by.simps)
qed simp

lemma Emit_check:
  "Emit now event em =
     (let em' = snd (emit_check now (DedupKey event) em)
      in if fst (emit_check now (DedupKey event) em) \<or> em_capacity em \<le> length (em_queue em) then em'
         else em'\<lparr>em_queue := em_queue em @ [event]\<rparr>)"
  by (simp add: Emit_def shouldDropDuplicate_check case_prod_unfold Let_def)

lemma emit_log_accepted:
  "subseq (event_keys (emit_log es em)) (accepted_by emit_check (event_keys es) em)"
proof (induction es arbitrary: em)
  case (Cons te es)
  obtain t e where te: "te = (t, e)" by (cases te)
  show ?case
    using Cons.IH [of "Emit t e em"]
    by (auto simp: te accepted_by_Cons Emit_check Let_def accepted_by_queue simp del: accepted_by.simps
        intro: list_emb_Cons)
qed simp

lemma emit_all_bounded:
  "length (em_queue em) \<le> em_capacity em \<Longrightarrow>
     length (em_queue (emit_all es em)) \<le> em_capacity em \<and>
     em_queue (emit_all es em) = em_queue em @ map snd (emit_log es em)"
proof (induction es arbitrary: em)
  case (Cons te es)
  obtain t e where te: "te = (t, e)" by (cases te)
  have "em_capacity (Emit t e em) = em_capacity em" "length (em_queue (Emit t e em)) \<le> em_capacity em"
    using Cons.prems by (auto simp: Emit_check Let_def)
  with Cons.IH [of "Emit t e em"] show ?case by (auto simp: te Emit_check Let_def)
qed simp

lemma sorted_wrt_subseq: "subseq xs ys \<Longrightarrow> sorted_wrt P ys \<Longrightarrow> sorted_wrt P xs"
proof (induction rule: list_emb.induct)
  case (list_emb_Cons2 x y xs ys)
  then show ?case using list_emb_set [of "(=)" xs ys] by fastforce
qed auto

section \<open>Properties\<close>

text \<open>
  Two signals with one key that the deduplicator lets through are at least a window apart, for
  any sequence of arrivals in time order and any window that fits a Go duration.
\<close>

lemma IsDuplicate_spaced:
  assumes "in_int64 w" and "sorted (map fst es)"
  shows "spaced w snd (accepted_by IsDuplicate es (NewDeduplicator w))"
  by (rule deduplicator.accepted_spaced)
    (use assms in \<open>auto simp: dedup_inv_def NewDeduplicator_def list_all_iff\<close>)

lemma IsDuplicate_spaced_witness:
  "spaced 60 snd (accepted_by IsDuplicate [(0, ''k''), (30, ''k''), (70, ''k'')] (NewDeduplicator 60)) \<and>
   accepted_by IsDuplicate [(0, ''k''), (30, ''k''), (70, ''k'')] (NewDeduplicator 60) = [(0, ''k''), (70, ''k'')]"
  using IsDuplicate_spaced [of 60 "[(0, ''k''), (30, ''k''), (70, ''k'')]"]
  by (simp add: NewDeduplicator_def IsDuplicate_def dd_purgeOld_def Let_def time_before_def time_sub_def
      in_int64_def max_int64_def min_int64_def)

text \<open>
  However events arrive in time, the emitter puts two events with one dedup key on the channel
  only a window apart, never exceeds the channel's capacity, and queues in order of arrival
  exactly the events it did not drop.
\<close>

theorem Emit_spaced:
  fixes cap :: nat
  assumes "0 < w" and "sorted (map fst es)"
  defines "em \<equiv> NewChannelEventEmitterWithOptions cap w"
  shows "spaced w (\<lambda>te. DedupKey (snd te)) (emit_log es em) \<and>
    length (em_queue (emit_all es em)) \<le> cap \<and> em_queue (emit_all es em) = map snd (emit_log es em)"
proof -
  have "spaced w snd (accepted_by emit_check (event_keys es) em)"
    using assms by (intro emitter.accepted_spaced)
      (auto simp: emitter_inv_def NewChannelEventEmitterWithOptions_def list_all_iff comp_def case_prod_unfold)
  then have "spaced w snd (event_keys (emit_log es em))"
    unfolding spaced_def by (rule sorted_wrt_subseq [OF emit_log_accepted])
  then have "spaced w (\<lambda>te. DedupKey (snd te)) (emit_log es em)"
    by (simp add: spaced_def sorted_wrt_map case_prod_unfold)
  moreover have "length (em_queue em) \<le> em_capacity em" "em_queue em = []" "em_capacity em = cap"
    by (simp_all add: em_def NewChannelEventEmitterWithOptions_def)
  ultimately show ?thesis using emit_all_bounded [of em es] by force
qed

theorem Emit_spaced_witness:
  "length (em_queue (emit_all [(0, PodHealthyEvent zero_base), (5, PodHealthyEvent zero_base)]
     (NewChannelEventEmitterWithOptions 1 60))) \<le> 1"
  using Emit_spaced [of 60 "[(0, PodHealthyEvent zero_base), (5, PodHealthyEvent zero_base)]" 1] by simp

end
