(* ===== verification/Api_Types.thy ===== *)
theory Api_Types
  imports Prelude
begin

text \<open>
  The custom resources of \<open>api/v1alpha1\<close>: \<open>IncidentReport\<close> with its scope, affected
  resources, timeline and status, and \<open>RCACorrelationRule\<close>. A pointer field is an option, a
  \<open>map[string]string\<close> is a partial map (a nil map reads like the empty one, and the code
  allocates before it writes). \<open>status.incidentGraph\<close> is its raw JSON.
\<close>

record object_meta =
  om_Name :: string
  om_GenerateName :: string
  om_Namespace :: string
  om_Labels :: "string \<rightharpoonup> string"
  om_Annotations :: "string \<rightharpoonup> string"
  om_CreationTimestamp :: gotime

record affected_resource =
  ar_APIVersion :: string
  ar_Kind :: string
  ar_Name :: string
  ar_Namespace :: string
  ar_UID :: string

record object_ref =
  or_APIVersion :: string
  or_Kind :: string
  or_Namespace :: string
  or_Name :: string
  or_UID :: string

record incident_scope =
  sc_Level :: string
  sc_Namespace :: string
  sc_WorkloadRef :: "object_ref option"
  sc_ResourceRef :: "object_ref option"

record timeline_event =
  tl_Time :: gotime
  tl_Event :: string

record report_spec =
  sp_AgentRef :: string
  sp_Fingerprint :: string
  sp_IncidentType :: string
  sp_Scope :: incident_scope

record report_status =
  st_Severity :: string
  st_Phase :: string
  st_IncidentType :: string
  st_Summary :: string
  st_Reason :: string
  st_Message :: string
  st_FirstObservedAt :: "gotime option"
  st_ActiveAt :: "gotime option"
  st_LastObservedAt :: "gotime option"
  st_StartTime :: "gotime option"
  st_ResolvedTime :: "gotime option"
  st_ResolvedAt :: "gotime option"
  st_SignalCount :: int
  st_StabilizationWindowSeconds :: int
  st_Notified :: bool
  st_AffectedResources :: "affected_resource list"
  st_CorrelatedSignals :: "string list"
  st_Timeline :: "timeline_event list"
  st_IncidentGraph :: "string option"

record incident_report =
  ir_Meta :: object_meta
  ir_Spec :: report_spec
  ir_Status :: report_status

definition zero_scope :: incident_scope where
  "zero_scope = \<lparr>sc_Level = [], sc_Namespace = [], sc_WorkloadRef = None, sc_ResourceRef = None\<rparr>"

definition zero_status :: report_status where
  "zero_status = \<lparr>st_Severity = [], st_Phase = [], st_IncidentType = [], st_Summary = [],
     st_Reason = [], st_Message = [], st_FirstObservedAt = None, st_ActiveAt = None,
     st_LastObservedAt = None, st_StartTime = None, st_ResolvedTime = None, st_ResolvedAt = None,
     st_SignalCount = 0, st_StabilizationWindowSeconds = 0, st_Notified = False,
     st_AffectedResources = [], st_CorrelatedSignals = [], st_Timeline = [],
     st_IncidentGraph = None\<rparr>"

section \<open>Correlation rules\<close>

record attribute_match =
  am_Key :: string
  am_Op :: string
  am_Value :: string

record rule_condition =
  rc_EventType :: string
  rc_Scope :: string
  rc_Negate :: bool
  rc_Attributes :: "attribute_match list"

record rule_fires =
  rf_IncidentType :: string
  rf_Severity :: string
  rf_Summary :: string
  rf_Resource :: string
  rf_Scope :: string

text \<open>\<open>metav1.LabelSelector\<close>: labels to match, and expressions of a key, an operator and values.\<close>

record label_selector =
  lsel_MatchLabels :: "string \<rightharpoonup> string"
  lsel_MatchExpressions :: "(string \<times> string \<times> string list) list"

record rule_spec =
  rs_Priority :: int
  rs_AgentSelector :: "label_selector option"
  rs_TriggerEventType :: string
  rs_Conditions :: "rule_condition list"
  rs_Fires :: rule_fires

record correlation_rule =
  ru_Meta :: object_meta
  ru_Spec :: rule_spec

section \<open>Identity of a report\<close>

abbreviation report_name :: "incident_report \<Rightarrow> string" where
  "report_name r \<equiv> om_Name (ir_Meta r)"

abbreviation report_ns :: "incident_report \<Rightarrow> string" where
  "report_ns r \<equiv> om_Namespace (ir_Meta r)"

abbreviation report_key :: "incident_report \<Rightarrow> string \<times> string" where
  "report_key r \<equiv> (report_ns r, report_name r)"

abbreviation report_phase :: "incident_report \<Rightarrow> string" where
  "report_phase r \<equiv> st_Phase (ir_Status r)"

abbreviation report_annotation :: "incident_report \<Rightarrow> string \<Rightarrow> string" where
  "report_annotation r k \<equiv> map_get (om_Annotations (ir_Meta r)) k"

abbreviation report_label :: "incident_report \<Rightarrow> string \<Rightarrow> string" where
  "report_label r k \<equiv> map_get (om_Labels (ir_Meta r)) k"

text \<open>Two affected resources denote the same object when kind, namespace and name agree.\<close>

definition same_resource :: "affected_resource \<Rightarrow> affected_resource \<Rightarrow> bool" where
  "same_resource a b \<longleftrightarrow>
     ar_Kind a = ar_Kind b \<and> ar_Namespace a = ar_Namespace b \<and> ar_Name a = ar_Name b"

text \<open>\<open>mergeAffectedResources\<close>: append the candidates that denote a new object.\<close>

definition add_resource :: "affected_resource \<Rightarrow> affected_resource list \<Rightarrow> affected_resource list" where
  "add_resource candidate out =
     (if list_ex (\<lambda>current. same_resource current candidate) out then out else out @ [candidate])"

definition mergeAffectedResources ::
    "affected_resource list \<Rightarrow> affected_resource list \<Rightarrow> affected_resource list" where
  "mergeAffectedResources existing incoming = fold add_resource incoming existing"

definition covers :: "affected_resource list \<Rightarrow> affected_resource \<Rightarrow> bool" where
  "covers rs a \<longleftrightarrow> list_ex (\<lambda>c. same_resource c a) rs"

definition no_duplicate_resources :: "affected_resource list \<Rightarrow> bool" where
  "no_duplicate_resources rs \<longleftrightarrow> distinct (map (\<lambda>a. (ar_Kind a, ar_Namespace a, ar_Name a)) rs)"

lemma same_resource_refl [simp]: "same_resource a a"
  by (simp add: same_resource_def)

lemma covers_append [simp]: "covers (xs @ ys) a \<longleftrightarrow> covers xs a \<or> covers ys a"
  by (simp add: covers_def)

lemma covers_in_set: "a \<in> set rs \<Longrightarrow> covers rs a"
  by (auto simp: covers_def list_ex_iff intro: bexI [of _ a])

lemma add_resource_prefix: "\<exists>ys. add_resource a rs = rs @ ys"
  by (simp add: add_resource_def)

lemma merge_resources_Nil [simp]: "mergeAffectedResources rs [] = rs"
  by (simp add: mergeAffectedResources_def)

lemma merge_resources_Cons [simp]:
  "mergeAffectedResources rs (a # inc) = mergeAffectedResources (add_resource a rs) inc"
  by (simp add: mergeAffectedResources_def)

lemma merge_resources_prefix: "\<exists>ys. mergeAffectedResources rs inc = rs @ ys"
proof (induction inc arbitrary: rs)
  case (Cons a inc)
  obtain ys where "add_resource a rs = rs @ ys" using add_resource_prefix by blast
  with Cons [of "add_resource a rs"] show ?case by auto
qed simp

lemma merge_resources_covers_old: "covers rs a \<Longrightarrow> covers (mergeAffectedResources rs inc) a"
  using merge_resources_prefix [of rs inc] by auto

lemma add_resource_covers: "covers (add_resource a rs) a"
  by (auto simp: add_resource_def covers_def)

lemma merge_resources_covers_new:
  "a \<in> set inc \<Longrightarrow> covers (mergeAffectedResources rs inc) a"
proof (induction inc arbitrary: rs)
  case (Cons b inc)
  then show ?case
    using merge_resources_covers_old [OF add_resource_covers, of b rs inc]
    by auto
qed simp

lemma add_resource_distinct: "no_duplicate_resources rs \<Longrightarrow> no_duplicate_resources (add_resource a rs)"
  by (auto simp: no_duplicate_resources_def add_resource_def same_resource_def list_ex_iff)

lemma merge_resources_distinct:
  "no_duplicate_resources rs \<Longrightarrow> no_duplicate_resources (mergeAffectedResources rs inc)"
  by (induction inc arbitrary: rs) (simp_all add: add_resource_distinct)

lemma merge_resources_sources:
  "set (mergeAffectedResources rs inc) \<subseteq> set rs \<union> set inc"
proof (induction inc arbitrary: rs)
  case (Cons a inc)
  have "set (add_resource a rs) \<subseteq> insert a (set rs)" by (simp add: add_resource_def subset_insertI)
  then show ?case using Cons [of "add_resource a rs"] by auto
qed simp

end
