(* ===== verification/Kube.thy ===== *)
theory Kube
  imports Api_Types
begin

text \<open>
  The Kubernetes API as the operator sees it. The controller-runtime client, the API server
  behind it and the metrics and event sinks are not part of the repository: they are the
  parameter \<open>K\<close>, a record of operations over an abstract world \<open>'w\<close>. A read leaves the world
  alone, a write answers with a result and the next world (a failed write may have changed it
  or not). Of the built-in objects only the fields the operator reads are kept.
\<close>

datatype kerr = NotFound | KubeError string

record owner_ref =
  ow_APIVersion :: string
  ow_Kind :: string
  ow_Name :: string
  ow_UID :: string

record kcondition =
  kc_Type :: string
  kc_Status :: string
  kc_Reason :: string

text \<open>\<open>pod_Controller\<close> and \<open>rset_Controller\<close> are what \<open>metav1.GetControllerOf\<close> returns.\<close>

record pod =
  pod_Name :: string
  pod_Namespace :: string
  pod_UID :: string
  pod_Controller :: "owner_ref option"
  pod_NodeName :: string
  pod_Phase :: string
  pod_Conditions :: "kcondition list"

record replica_set =
  rset_Name :: string
  rset_UID :: string
  rset_Controller :: "owner_ref option"

record stateful_set =
  sts_Replicas :: "int option"
  sts_UpdateRevision :: string
  sts_CurrentRevision :: string
  sts_UpdatedReplicas :: int

record daemon_set =
  ds_DesiredNumberScheduled :: int
  ds_UpdatedNumberScheduled :: int

text \<open>What the operator tells the outside: Prometheus metrics, Kubernetes events, notifications.\<close>

datatype observation =
    RecordSignalReceived string
  | RecordSignalDeduplicated string
  | RecordIncidentDetecting string string
  | RecordIncidentActivated string string duration
  | RecordIncidentResolved string string string duration
  | KubeEvent string string string string

record 'w kube =
  k_get_pod :: "'w \<Rightarrow> string \<Rightarrow> string \<Rightarrow> kerr + pod"
  k_get_replica_set :: "'w \<Rightarrow> string \<Rightarrow> string \<Rightarrow> kerr + replica_set"
  k_get_node_conditions :: "'w \<Rightarrow> string \<Rightarrow> kerr + kcondition list"
  k_get_deployment_conditions :: "'w \<Rightarrow> string \<Rightarrow> string \<Rightarrow> kerr + kcondition list"
  k_get_stateful_set :: "'w \<Rightarrow> string \<Rightarrow> string \<Rightarrow> kerr + stateful_set"
  k_get_daemon_set :: "'w \<Rightarrow> string \<Rightarrow> string \<Rightarrow> kerr + daemon_set"
  k_get_job_conditions :: "'w \<Rightarrow> string \<Rightarrow> string \<Rightarrow> kerr + kcondition list"
  k_get_cron_job :: "'w \<Rightarrow> string \<Rightarrow> string \<Rightarrow> kerr + unit"
  k_get_report :: "'w \<Rightarrow> string \<Rightarrow> string \<Rightarrow> kerr + incident_report"
  k_list_reports :: "'w \<Rightarrow> string option \<Rightarrow> (string \<times> string) option \<Rightarrow> kerr + incident_report list"
  k_create_report :: "'w \<Rightarrow> incident_report \<Rightarrow> (kerr + incident_report) \<times> 'w"
  k_patch_report :: "'w \<Rightarrow> incident_report \<Rightarrow> incident_report \<Rightarrow> (kerr + incident_report) \<times> 'w"
  k_patch_status :: "'w \<Rightarrow> incident_report \<Rightarrow> incident_report \<Rightarrow> (kerr + incident_report) \<times> 'w"
  k_observe :: "'w \<Rightarrow> observation \<Rightarrow> 'w"

text \<open>The same for the cluster-scoped correlation rules; a list may select a label.\<close>

record 'w rule_client =
  rk_list :: "'w \<Rightarrow> (string \<times> string) option \<Rightarrow> kerr + correlation_rule list"
  rk_get :: "'w \<Rightarrow> string \<Rightarrow> kerr + correlation_rule"
  rk_create :: "'w \<Rightarrow> correlation_rule \<Rightarrow> kerr option \<times> 'w"
  rk_update :: "'w \<Rightarrow> correlation_rule \<Rightarrow> kerr option \<times> 'w"
  rk_delete :: "'w \<Rightarrow> string \<Rightarrow> kerr option \<times> 'w"

text \<open>\<open>client.IgnoreNotFound\<close> on a read that answers with a default.\<close>

definition ignore_not_found :: "'a \<Rightarrow> kerr + 'a \<Rightarrow> kerr + 'a" where
  "ignore_not_found d r = (case r of Inl NotFound \<Rightarrow> Inr d | _ \<Rightarrow> r)"

section \<open>A store of incident reports\<close>

text \<open>Selection of a list request: the empty namespace selects every namespace.\<close>

definition matches_selector :: "string option \<Rightarrow> (string \<times> string) option \<Rightarrow> incident_report \<Rightarrow> bool" where
  "matches_selector ns sel r \<longleftrightarrow>
     (case ns of None \<Rightarrow> True | Some n \<Rightarrow> n = [] \<or> report_ns r = n) \<and>
     (case sel of None \<Rightarrow> True | Some (k, v) \<Rightarrow> om_Labels (ir_Meta r) k = Some v)"

definition keys_distinct :: "incident_report list \<Rightarrow> bool" where
  "keys_distinct rs \<longleftrightarrow> distinct (map report_key rs)"

definition replace_report :: "incident_report \<Rightarrow> incident_report list \<Rightarrow> incident_report list" where
  "replace_report r rs = map (\<lambda>x. if report_key x = report_key r then r else x) rs"

definition lookup_report :: "incident_report list \<Rightarrow> string \<times> string \<Rightarrow> incident_report option" where
  "lookup_report rs k = find (\<lambda>r. report_key r = k) rs"

lemma lookup_reportD: "lookup_report rs k = Some r \<Longrightarrow> r \<in> set rs \<and> report_key r = k"
  unfolding lookup_report_def by (drule find_SomeD) simp

lemma lookup_report_in:
  "keys_distinct rs \<Longrightarrow> r \<in> set rs \<Longrightarrow> lookup_report rs (report_key r) = Some r"
  by (induction rs) (auto simp: keys_distinct_def lookup_report_def image_iff)

lemma set_replace_report:
  "lookup_report rs (report_key r) \<noteq> None \<Longrightarrow>
     set (replace_report r rs) = insert r {x \<in> set rs. report_key x \<noteq> report_key r}"
  by (auto simp: replace_report_def lookup_report_def find_None_iff image_iff)

lemma map_key_replace [simp]: "map report_key (replace_report r rs) = map report_key rs"
  by (induction rs) (auto simp: replace_report_def)

lemma length_replace [simp]: "length (replace_report r rs) = length rs"
  by (simp add: replace_report_def)

lemma keys_distinct_replace [simp]: "keys_distinct (replace_report r rs) = keys_distinct rs"
  by (simp add: keys_distinct_def)

text \<open>
  A status on its way through the API server: \<open>metav1.Time\<close> is written in RFC 3339, so a time
  keeps whole seconds, and a zero time is written as null.
\<close>

definition stored_time :: "gotime \<Rightarrow> gotime" where
  "stored_time t = t - t mod 1000000000"

definition stored_time_ptr :: "gotime option \<Rightarrow> gotime option" where
  "stored_time_ptr p = (case p of None \<Rightarrow> None | Some t \<Rightarrow> if t = 0 then None else Some (stored_time t))"

definition stored_status :: "report_status \<Rightarrow> report_status" where
  "stored_status s = s\<lparr>
     st_FirstObservedAt := stored_time_ptr (st_FirstObservedAt s),
     st_ActiveAt := stored_time_ptr (st_ActiveAt s),
     st_LastObservedAt := stored_time_ptr (st_LastObservedAt s),
     st_StartTime := stored_time_ptr (st_StartTime s),
     st_ResolvedTime := stored_time_ptr (st_ResolvedTime s),
     st_ResolvedAt := stored_time_ptr (st_ResolvedAt s),
     st_Timeline := map (\<lambda>e. e\<lparr>tl_Time := stored_time (tl_Time e)\<rparr>) (st_Timeline s)\<rparr>"

lemma stored_status_frame [simp]:
  "st_Severity (stored_status s) = st_Severity s"
  "st_Phase (stored_status s) = st_Phase s"
  "st_IncidentType (stored_status s) = st_IncidentType s"
  "st_Summary (stored_status s) = st_Summary s"
  "st_Reason (stored_status s) = st_Reason s"
  "st_Message (stored_status s) = st_Message s"
  "st_SignalCount (stored_status s) = st_SignalCount s"
  "st_StabilizationWindowSeconds (stored_status s) = st_StabilizationWindowSeconds s"
  "st_Notified (stored_status s) = st_Notified s"
  "st_AffectedResources (stored_status s) = st_AffectedResources s"
  "st_CorrelatedSignals (stored_status s) = st_CorrelatedSignals s"
  "st_IncidentGraph (stored_status s) = st_IncidentGraph s"
  "length (st_Timeline (stored_status s)) = length (st_Timeline s)"
  "st_FirstObservedAt (stored_status s) = stored_time_ptr (st_FirstObservedAt s)"
  "st_ActiveAt (stored_status s) = stored_time_ptr (st_ActiveAt s)"
  "st_LastObservedAt (stored_status s) = stored_time_ptr (st_LastObservedAt s)"
  "st_ResolvedAt (stored_status s) = stored_time_ptr (st_ResolvedAt s)"
  "st_ResolvedTime (stored_status s) = stored_time_ptr (st_ResolvedTime s)"
  by (simp_all add: stored_status_def)

lemma stored_time_bounds: "stored_time t \<le> t" "t - stored_time t < 1000000000"
  by (simp_all add: stored_time_def)

text \<open>
  What the operator relies on of the API server for its own custom resource, as laws over the
  list of stored reports: keys are unique; reads answer from the store; a create adds the object,
  without status, under a fresh name; a merge patch whose base agrees with the stored object
  where the patch does not touch it replaces metadata and spec (or the status, for the status
  subresource) and nothing else; a write that fails leaves the store alone; the sinks do not
  touch it. A read may fail at any time, but one that succeeds sees the writes made before it. The
  API server keeps this law; the cached client of the manager, which \<open>cmd/main.go\<close> passes to the
  components, keeps it only while its cache has caught up with their writes. What happens otherwise
  is shown where it matters (\<open>stale_reads_duplicate\<close>).
\<close>

definition base_agrees :: "incident_report \<Rightarrow> incident_report \<Rightarrow> incident_report \<Rightarrow> bool" where
  "base_agrees b m s \<longleftrightarrow>
     ir_Spec b = ir_Spec s \<and> ir_Meta b\<lparr>om_Annotations := Map.empty\<rparr> = ir_Meta s\<lparr>om_Annotations := Map.empty\<rparr> \<and>
     (\<forall>k. om_Annotations (ir_Meta b) k = om_Annotations (ir_Meta s) k
          \<or> om_Annotations (ir_Meta m) k \<noteq> om_Annotations (ir_Meta b) k)"

locale report_store =
  fixes K :: "'w kube" and inv :: "'w \<Rightarrow> bool" and reports :: "'w \<Rightarrow> incident_report list"
  assumes unique_keys: "inv w \<Longrightarrow> keys_distinct (reports w)"
    and get_stored: "inv w \<Longrightarrow> k_get_report K w ns name = Inr r \<Longrightarrow>
          lookup_report (reports w) (ns, name) = Some r"
    and list_stored: "inv w \<Longrightarrow> k_list_reports K w nsel sel = Inr rs \<Longrightarrow>
          distinct rs \<and> set rs = {r \<in> set (reports w). matches_selector nsel sel r}"
    and create_stored: "inv w \<Longrightarrow> k_create_report K w r = (Inr r', w') \<Longrightarrow>
          inv w' \<and> (\<exists>name ts. r' = r\<lparr>ir_Meta := (ir_Meta r)\<lparr>om_Name := name, om_CreationTimestamp := ts\<rparr>,
                                   ir_Status := zero_status\<rparr>)
          \<and> lookup_report (reports w) (report_key r') = None
          \<and> set (reports w') = insert r' (set (reports w))"
    and patch_stored: "inv w \<Longrightarrow> k_patch_report K w b m = (Inr r', w') \<Longrightarrow>
          lookup_report (reports w) (report_key b) = Some s \<Longrightarrow> base_agrees b m s \<Longrightarrow>
          report_key m = report_key b \<Longrightarrow>
          inv w' \<and> r' = s\<lparr>ir_Meta := ir_Meta m, ir_Spec := ir_Spec m\<rparr>
          \<and> reports w' = replace_report r' (reports w)"
    and patch_status_stored: "inv w \<Longrightarrow> k_patch_status K w b m = (Inr r', w') \<Longrightarrow>
          lookup_report (reports w) (report_key b) = Some s \<Longrightarrow> ir_Status b = ir_Status s \<Longrightarrow>
          report_key m = report_key b \<Longrightarrow>
          inv w' \<and> r' = s\<lparr>ir_Status := stored_status (ir_Status m)\<rparr> \<and> reports w' = replace_report r' (reports w)"
    and create_failed: "inv w \<Longrightarrow> k_create_report K w r = (Inl e, w') \<Longrightarrow> inv w' \<and> reports w' = reports w"
    and patch_failed: "inv w \<Longrightarrow> k_patch_report K w b m = (Inl e, w') \<Longrightarrow> inv w' \<and> reports w' = reports w"
    and patch_status_failed: "inv w \<Longrightarrow> k_patch_status K w b m = (Inl e, w') \<Longrightarrow>
          inv w' \<and> reports w' = reports w"
    and observe_frame: "inv w \<Longrightarrow> inv (k_observe K w ob) \<and> reports (k_observe K w ob) = reports w"
begin

lemma list_in: "inv w \<Longrightarrow> k_list_reports K w nsel sel = Inr rs \<Longrightarrow> r \<in> set rs \<Longrightarrow>
    r \<in> set (reports w) \<and> matches_selector nsel sel r"
  using list_stored [of w nsel sel rs] by auto

lemma list_nil: "inv w \<Longrightarrow> k_list_reports K w nsel sel = Inr [] \<Longrightarrow> r \<in> set (reports w) \<Longrightarrow>
    \<not> matches_selector nsel sel r"
  using list_stored [of w nsel sel "[]"] by auto

lemma stored_lookup: "inv w \<Longrightarrow> r \<in> set (reports w) \<Longrightarrow> lookup_report (reports w) (report_key r) = Some r"
  by (simp add: lookup_report_in unique_keys)

lemma observe_all: "inv w \<Longrightarrow>
    inv (fold (\<lambda>ob w. k_observe K w ob) obs w) \<and> reports (fold (\<lambda>ob w. k_observe K w ob) obs w) = reports w"
  by (induction obs arbitrary: w) (simp_all add: observe_frame)

end

section \<open>An in-memory store\<close>

text \<open>
  A concrete client that satisfies the laws: reports in a list, generated names numbered by a
  counter, the objects of the cluster and the observations beside them. It plays the part of the
  fake client of the repository's tests.
\<close>

record mem_world =
  mw_reports :: "incident_report list"
  mw_counter :: nat
  mw_pods :: "string \<Rightarrow> string \<Rightarrow> pod option"
  mw_replica_sets :: "string \<Rightarrow> string \<Rightarrow> replica_set option"
  mw_nodes :: "string \<Rightarrow> (kcondition list) option"
  mw_deployments :: "string \<Rightarrow> string \<Rightarrow> (kcondition list) option"
  mw_log :: "observation list"

definition or_not_found :: "'a option \<Rightarrow> kerr + 'a" where
  "or_not_found x = (case x of None \<Rightarrow> Inl NotFound | Some v \<Rightarrow> Inr v)"

definition mem_put :: "incident_report \<Rightarrow> mem_world \<Rightarrow> (kerr + incident_report) \<times> mem_world" where
  "mem_put r w = (Inr r, w\<lparr>mw_reports := replace_report r (mw_reports w)\<rparr>)"

definition mem_create :: "mem_world \<Rightarrow> incident_report \<Rightarrow> (kerr + incident_report) \<times> mem_world" where
  "mem_create w r =
     (let r' = r\<lparr>ir_Meta := (ir_Meta r)\<lparr>om_Name := om_GenerateName (ir_Meta r) @ nat_digits (mw_counter w),
                                        om_CreationTimestamp := int (mw_counter w)\<rparr>,
                 ir_Status := zero_status\<rparr>
      in if lookup_report (mw_reports w) (report_key r') = None
         then (Inr r', w\<lparr>mw_reports := mw_reports w @ [r'], mw_counter := mw_counter w + 1\<rparr>)
         else (Inl (KubeError ''already exists''), w\<lparr>mw_counter := mw_counter w + 1\<rparr>))"

definition mem_client :: "mem_world kube" where
  "mem_client = \<lparr>
     k_get_pod = (\<lambda>w ns name. or_not_found (mw_pods w ns name)),
     k_get_replica_set = (\<lambda>w ns name. or_not_found (mw_replica_sets w ns name)),
     k_get_node_conditions = (\<lambda>w name. or_not_found (mw_nodes w name)),
     k_get_deployment_conditions = (\<lambda>w ns name. or_not_found (mw_deployments w ns name)),
     k_get_stateful_set = (\<lambda>w ns name. Inl NotFound),
     k_get_daemon_set = (\<lambda>w ns name. Inl NotFound),
     k_get_job_conditions = (\<lambda>w ns name. Inl NotFound),
     k_get_cron_job = (\<lambda>w ns name. Inl NotFound),
     k_get_report = (\<lambda>w ns name. or_not_found (lookup_report (mw_reports w) (ns, name))),
     k_list_reports = (\<lambda>w ns sel. Inr (filter (matches_selector ns sel) (mw_reports w))),
     k_create_report = mem_create,
     k_patch_report = (\<lambda>w b m. case lookup_report (mw_reports w) (report_key b) of
         None \<Rightarrow> (Inl NotFound, w)
       | Some s \<Rightarrow> if report_key m = report_key b then mem_put (s\<lparr>ir_Meta := ir_Meta m, ir_Spec := ir_Spec m\<rparr>) w
                  else (Inl (KubeError ''invalid''), w)),
     k_patch_status = (\<lambda>w b m. case lookup_report (mw_reports w) (report_key b) of
         None \<Rightarrow> (Inl NotFound, w)
       | Some s \<Rightarrow> mem_put (s\<lparr>ir_Status := stored_status (ir_Status m)\<rparr>) w),
     k_observe = (\<lambda>w ob. w\<lparr>mw_log := mw_log w @ [ob]\<rparr>)\<rparr>"

definition mem_inv :: "mem_world \<Rightarrow> bool" where
  "mem_inv w \<longleftrightarrow> keys_distinct (mw_reports w)"

lemma lookup_report_None: "lookup_report rs k = None \<longleftrightarrow> k \<notin> report_key ` set rs"
  by (auto simp: lookup_report_def find_None_iff)

lemma mem_client_sel:
  "k_get_report mem_client w ns name = or_not_found (lookup_report (mw_reports w) (ns, name))"
  "k_list_reports mem_client w nsel sel = Inr (filter (matches_selector nsel sel) (mw_reports w))"
  "k_create_report mem_client = mem_create"
  "k_observe mem_client w ob = w\<lparr>mw_log := mw_log w @ [ob]\<rparr>"
  "k_patch_status mem_client w b m = (case lookup_report (mw_reports w) (report_key b) of
         None \<Rightarrow> (Inl NotFound, w)
       | Some s \<Rightarrow> mem_put (s\<lparr>ir_Status := stored_status (ir_Status m)\<rparr>) w)"
  by (simp_all add: mem_client_def)

interpretation mem: report_store mem_client mem_inv mw_reports
proof (unfold_locales, goal_cases)
  case (4 w r r' w')
  then show ?case
    by (auto simp: mem_client_def mem_create_def Let_def mem_inv_def keys_distinct_def
        lookup_report_None split: if_splits)
next
  case (5 w b m r' w' s)
  then show ?case by (auto simp: mem_client_def mem_put_def mem_inv_def)
next
  case (6 w b m r' w' s)
  then show ?case by (auto simp: mem_client_def mem_put_def mem_inv_def)
next
  case (7 w r e w')
  then show ?case by (auto simp: mem_client_def mem_create_def Let_def mem_inv_def split: if_splits)
next
  case (3 w nsel sel rs)
  then show ?case by (auto simp: mem_client_def mem_inv_def keys_distinct_def distinct_map)
qed (auto simp: mem_client_def mem_inv_def or_not_found_def mem_put_def split: option.splits if_splits)

end
