(* ===== verification/Incident.thy ===== *)
theory Incident
  imports Kube
begin

text \<open>
  Incident identity and status transitions: \<open>internal/incident/model.go\<close> (the input of the
  reporter and its fingerprint), \<open>internal/incident/resolver.go\<close> (the scope of a pod through its
  owner references) and \<open>internal/incidentstatus/status.go\<close> (capped timeline, \<open>MarkActive\<close>,
  \<open>MarkResolved\<close>).
\<close>

section \<open>Input and fingerprint\<close>

record input =
  in_Namespace :: string
  in_AgentRef :: string
  in_IncidentType :: string
  in_Severity :: string
  in_Summary :: string
  in_Reason :: string
  in_Message :: string
  in_DedupKey :: string
  in_ObservedAt :: gotime
  in_Scope :: incident_scope
  in_AffectedResources :: "affected_resource list"
  in_TraceID :: string
  in_FiredRule :: string

definition ref_parts :: "object_ref option \<Rightarrow> string list" where
  "ref_parts ref = (case ref of None \<Rightarrow> [] | Some r \<Rightarrow> [to_lower (or_Kind r), or_Name r])"

definition ns_parts :: "string \<Rightarrow> string list" where
  "ns_parts ns = (if ns \<noteq> [] then [ns] else [])"

text \<open>The parts of the fingerprint for a scope; \<open>default_parts\<close> are those of the \<open>default\<close> branch.\<close>

definition scope_parts :: "incident_scope \<Rightarrow> string list \<Rightarrow> string list" where
  "scope_parts scope default_parts =
     (if sc_Level scope = ''Cluster'' then ''Cluster'' # ref_parts (sc_ResourceRef scope)
      else if sc_Level scope = ''Workload'' then
        ''Workload'' # ns_parts (sc_Namespace scope) @ ref_parts (sc_WorkloadRef scope)
      else if sc_Level scope = ''Namespace'' then ''Namespace'' # ns_parts (sc_Namespace scope)
      else if sc_Level scope = ''Pod'' then
        ''Pod'' # ns_parts (sc_Namespace scope) @ ref_parts (sc_ResourceRef scope)
      else default_parts)"

definition Fingerprint :: "input \<Rightarrow> string" where
  "Fingerprint i =
     str_join ''|'' (scope_parts (in_Scope i)
       (ns_parts (in_Namespace i) @ ref_parts (sc_ResourceRef (in_Scope i))))"

definition IsOTelIncidentType :: "string \<Rightarrow> bool" where
  "IsOTelIncidentType t \<longleftrightarrow> has_prefix (trim_space t) ''OTel''"

text \<open>The digest function \<open>crypto/sha1.Sum\<close> is the parameter \<open>sha1\<close>.\<close>

definition FingerprintHash :: "(string \<Rightarrow> string) \<Rightarrow> string \<Rightarrow> string" where
  "FingerprintHash sha1 fingerprint = hex_string (take 6 (sha1 fingerprint))"

definition SummaryFromParts :: "string \<Rightarrow> string \<Rightarrow> string \<Rightarrow> string" where
  "SummaryFromParts incidentType reason message =
     (if reason \<noteq> [] \<and> message \<noteq> [] then incidentType @ '' reason='' @ reason @ '' message='' @ message
      else if reason \<noteq> [] then incidentType @ '' reason='' @ reason
      else if message \<noteq> [] then incidentType @ '' message='' @ message
      else incidentType)"

section \<open>Resolving the scope of a pod\<close>

definition appendIfMissing ::
    "affected_resource list \<Rightarrow> affected_resource \<Rightarrow> affected_resource list" where
  "appendIfMissing ins candidate =
     (if list_ex (\<lambda>item. same_resource item candidate) ins then ins else ins @ [candidate])"

definition mk_ref :: "string \<Rightarrow> string \<Rightarrow> string \<Rightarrow> string \<Rightarrow> string \<Rightarrow> object_ref" where
  "mk_ref api kind ns name uid =
     \<lparr>or_APIVersion = api, or_Kind = kind, or_Namespace = ns, or_Name = name, or_UID = uid\<rparr>"

definition mk_affected :: "string \<Rightarrow> string \<Rightarrow> string \<Rightarrow> string \<Rightarrow> string \<Rightarrow> affected_resource" where
  "mk_affected api kind ns name uid =
     \<lparr>ar_APIVersion = api, ar_Kind = kind, ar_Name = name, ar_Namespace = ns, ar_UID = uid\<rparr>"

definition resolveTopOwner :: "'w kube \<Rightarrow> 'w \<Rightarrow> pod \<Rightarrow> object_ref option" where
  "resolveTopOwner K w p = (case pod_Controller p of
     None \<Rightarrow> None
   | Some owner \<Rightarrow>
       if ow_Kind owner \<in> {''StatefulSet'', ''DaemonSet'', ''Job''} then
         Some (mk_ref (ow_APIVersion owner) (ow_Kind owner) (pod_Namespace p) (ow_Name owner) (ow_UID owner))
       else if ow_Kind owner = ''ReplicaSet'' then
         (case k_get_replica_set K w (pod_Namespace p) (ow_Name owner) of
            Inl err \<Rightarrow> Some (mk_ref ''apps/v1'' ''ReplicaSet'' (pod_Namespace p) (ow_Name owner) (ow_UID owner))
          | Inr rs \<Rightarrow>
              (case rset_Controller rs of
                 Some rsOwner \<Rightarrow>
                   if ow_Kind rsOwner = ''Deployment'' then
                     Some (mk_ref (ow_APIVersion rsOwner) ''Deployment'' (pod_Namespace p)
                            (ow_Name rsOwner) (ow_UID rsOwner))
                   else Some (mk_ref ''apps/v1'' ''ReplicaSet'' (pod_Namespace p) (rset_Name rs) (rset_UID rs))
               | None \<Rightarrow>
                   Some (mk_ref ''apps/v1'' ''ReplicaSet'' (pod_Namespace p) (rset_Name rs) (rset_UID rs))))
       else if ow_Kind owner = ''CronJob'' then
         Some (mk_ref ''batch/v1'' ''CronJob'' (pod_Namespace p) (ow_Name owner) (ow_UID owner))
       else
         Some (mk_ref (ow_APIVersion owner) (ow_Kind owner) (pod_Namespace p) (ow_Name owner) (ow_UID owner)))"

text \<open>The scope, the affected resources and the error, if the pod could not be read.\<close>

definition ResolvePodScope ::
    "'w kube \<Rightarrow> 'w \<Rightarrow> string \<Rightarrow> string \<Rightarrow> incident_scope \<times> affected_resource list \<times> kerr option" where
  "ResolvePodScope K w namespace podName = (case k_get_pod K w namespace podName of
     Inl err \<Rightarrow>
       (\<lparr>sc_Level = ''Pod'', sc_Namespace = namespace, sc_WorkloadRef = None,
         sc_ResourceRef = Some (mk_ref ''v1'' ''Pod'' namespace podName [])\<rparr>,
        [mk_affected [] ''Pod'' namespace podName []], Some err)
   | Inr p \<Rightarrow>
       (let scope = \<lparr>sc_Level = ''Pod'', sc_Namespace = namespace, sc_WorkloadRef = None,
              sc_ResourceRef = Some (mk_ref ''v1'' ''Pod'' namespace (pod_Name p) (pod_UID p))\<rparr>;
            affected = [mk_affected ''v1'' ''Pod'' namespace (pod_Name p) (pod_UID p)];
            (scope, affected) = (case resolveTopOwner K w p of
                None \<Rightarrow> (scope, affected)
              | Some ref \<Rightarrow>
                  (scope\<lparr>sc_Level := ''Workload'', sc_WorkloadRef := Some ref\<rparr>,
                   affected @ [mk_affected (or_APIVersion ref) (or_Kind ref) (or_Namespace ref)
                                 (or_Name ref) (or_UID ref)]));
            affected = (if pod_NodeName p \<noteq> []
                        then appendIfMissing affected (mk_affected ''v1'' ''Node'' [] (pod_NodeName p) [])
                        else affected)
        in (scope, affected, None)))"

section \<open>Status transitions\<close>

definition MaxTimelineEntries :: nat where
  "MaxTimelineEntries = 50"

definition AppendTimeline :: "timeline_event list \<Rightarrow> gotime \<Rightarrow> string \<Rightarrow> timeline_event list" where
  "AppendTimeline tline t msg =
     (let tl' = tline @ [\<lparr>tl_Time = t, tl_Event = msg\<rparr>]
      in if MaxTimelineEntries < length tl' then drop (length tl' - MaxTimelineEntries) tl' else tl')"

definition EffectiveStartTime :: "report_status \<Rightarrow> gotime option" where
  "EffectiveStartTime s =
     (case st_FirstObservedAt s of Some t \<Rightarrow> Some t | None \<Rightarrow> st_StartTime s)"

definition EffectiveResolvedTime :: "report_status \<Rightarrow> gotime option" where
  "EffectiveResolvedTime s =
     (case st_ResolvedAt s of Some t \<Rightarrow> Some t | None \<Rightarrow> st_ResolvedTime s)"

definition since :: "gotime \<Rightarrow> gotime option \<Rightarrow> duration" where
  "since now t = (case t of None \<Rightarrow> 0 | Some u \<Rightarrow> time_sub now u)"

text \<open>The marked status and the metric that is recorded, if any.\<close>

definition MarkActive :: "report_status \<Rightarrow> gotime \<Rightarrow> string \<Rightarrow> report_status \<times> observation list" where
  "MarkActive s now reason =
     (let priorPhase = st_Phase s;
          s' = s\<lparr>st_Phase := ''Active'', st_ActiveAt := Some now,
                 st_Timeline := AppendTimeline (st_Timeline s) now reason\<rparr>
      in (s', if priorPhase \<noteq> ''Active''
              then [RecordIncidentActivated (st_IncidentType s') (st_Severity s')
                      (since now (EffectiveStartTime s'))]
              else []))"

definition MarkResolved :: "report_status \<Rightarrow> gotime \<Rightarrow> string \<Rightarrow> report_status \<times> observation list" where
  "MarkResolved s now reason =
     (let priorPhase = st_Phase s;
          s' = s\<lparr>st_Phase := ''Resolved'', st_ResolvedAt := Some now, st_ResolvedTime := Some now,
                 st_Timeline := AppendTimeline (st_Timeline s) now reason\<rparr>;
          dt = (if priorPhase = ''Active'' then since now (st_ActiveAt s')
                else since now (EffectiveStartTime s'))
      in (s', if priorPhase \<noteq> ''Resolved''
              then [RecordIncidentResolved (st_IncidentType s') (st_Severity s') priorPhase dt]
              else []))"

section \<open>Capped logs\<close>

text \<open>
  The timeline, the correlated signals and the trace-id list are logs that keep their most
  recent entries. The locale states that once; the components interpret it with their limits.
\<close>

locale capped_log =
  fixes append :: "'a list \<Rightarrow> 'a \<Rightarrow> 'a list" and cap :: nat
  assumes append_take_last: "append xs x = take_last cap (xs @ [x])"
    and cap_pos: "0 < cap"
begin

lemma length_append_le: "length (append xs x) \<le> cap"
  by (simp add: append_take_last)

lemma last_append_new: "last (append xs x) = x"
  by (simp add: append_take_last cap_pos)

lemma append_nonempty: "append xs x \<noteq> []"
  using cap_pos by (auto simp: append_take_last simp flip: length_greater_0_conv)

text \<open>Logging a sequence keeps exactly the most recent entries, whatever was logged before.\<close>

lemma fold_append: "length xs \<le> cap \<Longrightarrow> fold (\<lambda>y l. append l y) ys xs = take_last cap (xs @ ys)"
  by (induction ys arbitrary: xs) (simp_all add: append_take_last take_last_append_take_last)

end

definition append_event :: "timeline_event list \<Rightarrow> timeline_event \<Rightarrow> timeline_event list" where
  "append_event tline e = AppendTimeline tline (tl_Time e) (tl_Event e)"

interpretation timeline: capped_log append_event MaxTimelineEntries
  by unfold_locales
    (auto simp: append_event_def AppendTimeline_def MaxTimelineEntries_def take_last_def Let_def)

lemma AppendTimeline_event: "AppendTimeline tline t msg = append_event tline \<lparr>tl_Time = t, tl_Event = msg\<rparr>"
  by (simp add: append_event_def)

lemma AppendTimeline_bounded: "length (AppendTimeline tline t msg) \<le> MaxTimelineEntries"
  unfolding AppendTimeline_event by (rule timeline.length_append_le)

section \<open>Lemmas on fingerprints and transitions\<close>

text \<open>The fingerprint depends on the scope and the namespace only, not on the kind of signal.\<close>

lemma Fingerprint_cong:
  "in_Scope i = in_Scope j \<Longrightarrow> in_Namespace i = in_Namespace j \<Longrightarrow> Fingerprint i = Fingerprint j"
  by (simp add: Fingerprint_def)

lemma MarkActive_phase [simp]: "st_Phase (fst (MarkActive s now reason)) = ''Active''"
  by (simp add: MarkActive_def Let_def)

lemma MarkResolved_phase [simp]: "st_Phase (fst (MarkResolved s now reason)) = ''Resolved''"
  by (simp add: MarkResolved_def Let_def)

lemma MarkResolved_time:
  "EffectiveResolvedTime (fst (MarkResolved s now reason)) = Some now"
  by (simp add: MarkResolved_def Let_def EffectiveResolvedTime_def)

lemma MarkActive_timeline: "length (st_Timeline (fst (MarkActive s now reason))) \<le> MaxTimelineEntries"
  by (simp add: MarkActive_def Let_def AppendTimeline_bounded)

lemma MarkResolved_timeline:
  "length (st_Timeline (fst (MarkResolved s now reason))) \<le> MaxTimelineEntries"
  by (simp add: MarkResolved_def Let_def AppendTimeline_bounded)

lemma MarkResolved_frame [simp]:
  "st_AffectedResources (fst (MarkResolved s now r)) = st_AffectedResources s"
  "st_CorrelatedSignals (fst (MarkResolved s now r)) = st_CorrelatedSignals s"
  "st_Severity (fst (MarkResolved s now r)) = st_Severity s"
  "st_IncidentType (fst (MarkResolved s now r)) = st_IncidentType s"
  "st_SignalCount (fst (MarkResolved s now r)) = st_SignalCount s"
  "st_Notified (fst (MarkResolved s now r)) = st_Notified s"
  by (simp_all add: MarkResolved_def Let_def)

lemma MarkActive_frame [simp]:
  "st_AffectedResources (fst (MarkActive s now r)) = st_AffectedResources s"
  "st_CorrelatedSignals (fst (MarkActive s now r)) = st_CorrelatedSignals s"
  "st_Severity (fst (MarkActive s now r)) = st_Severity s"
  "st_IncidentType (fst (MarkActive s now r)) = st_IncidentType s"
  "st_SignalCount (fst (MarkActive s now r)) = st_SignalCount s"
  "st_Notified (fst (MarkActive s now r)) = st_Notified s"
  by (simp_all add: MarkActive_def Let_def)

section \<open>Properties\<close>

text \<open>However many events are appended to a timeline, it holds exactly the fifty most recent ones
  in order.
\<close>

theorem timeline_keeps_latest:
  "fold (\<lambda>(t, msg) tline. AppendTimeline tline t msg) es []
     = take_last 50 (map (\<lambda>(t, msg). \<lparr>tl_Time = t, tl_Event = msg\<rparr>) es)"
proof -
  have "fold (\<lambda>(t, msg) tline. AppendTimeline tline t msg) es tline
      = fold (\<lambda>e l. append_event l e) (map (\<lambda>(t, msg). \<lparr>tl_Time = t, tl_Event = msg\<rparr>) es) tline" for tline
    by (induction es arbitrary: tline) (auto simp: AppendTimeline_event)
  then show ?thesis using timeline.fold_append [of "[]"] by (simp add: MaxTimelineEntries_def)
qed

text \<open>The reference that identifies a workload or pod scope.\<close>

definition scope_ref :: "incident_scope \<Rightarrow> object_ref option" where
  "scope_ref scope = (if sc_Level scope = ''Workload'' then sc_WorkloadRef scope else sc_ResourceRef scope)"

definition bar_free :: "string \<Rightarrow> bool" where
  "bar_free s \<longleftrightarrow> CHR ''|'' \<notin> set s"

lemma to_lower_bar: "bar_free s \<Longrightarrow> bar_free (to_lower s)"
proof -
  have "lower_char c = CHR ''|'' \<Longrightarrow> c = CHR ''|''" for c
    by (auto simp: lower_char_def is_upper_def split: if_splits dest!: arg_cong [where f = byte_of])
  then show "bar_free s \<Longrightarrow> bar_free (to_lower s)" by (simp add: bar_free_def to_lower_def) (metis imageE)
qed

text \<open>A fingerprint identifies the faulty object: two workload or pod signals, with a namespace and a
  reference free of the separator, have one fingerprint only if level, namespace, kind (up to
  case) and name agree. The type of the signal plays no role.
\<close>

theorem Fingerprint_identity:
  assumes "sc_Level (in_Scope i) \<in> {''Workload'', ''Pod''}" "sc_Level (in_Scope j) \<in> {''Workload'', ''Pod''}"
    and "scope_ref (in_Scope i) = Some r" "scope_ref (in_Scope j) = Some s"
    and "sc_Namespace (in_Scope i) \<noteq> []" "sc_Namespace (in_Scope j) \<noteq> []"
    and "list_all bar_free [sc_Namespace (in_Scope i), or_Kind r, or_Name r, sc_Namespace (in_Scope j), or_Kind s, or_Name s]"
  shows "Fingerprint i = Fingerprint j \<longleftrightarrow>
    sc_Level (in_Scope i) = sc_Level (in_Scope j) \<and> sc_Namespace (in_Scope i) = sc_Namespace (in_Scope j) \<and>
    to_lower (or_Kind r) = to_lower (or_Kind s) \<and> or_Name r = or_Name s"
proof -
  have parts: "Fingerprint k = str_join ''|'' [sc_Level (in_Scope k), sc_Namespace (in_Scope k), to_lower (or_Kind q), or_Name q]"
    if "sc_Level (in_Scope k) \<in> {''Workload'', ''Pod''}" "scope_ref (in_Scope k) = Some q" "sc_Namespace (in_Scope k) \<noteq> []" for k q
    using that by (auto simp: Fingerprint_def scope_parts_def scope_ref_def ns_parts_def ref_parts_def)
  have "sc_Level (in_Scope i) = sc_Level (in_Scope j) \<and> sc_Namespace (in_Scope i) = sc_Namespace (in_Scope j) \<and>
    to_lower (or_Kind r) = to_lower (or_Kind s) \<and> or_Name r = or_Name s" if eq: "Fingerprint i = Fingerprint j"
  proof -
    have "bar_free (to_lower (or_Kind r))" "bar_free (to_lower (or_Kind s))"
      using assms(7) by (simp_all add: to_lower_bar)
    moreover have "bar_free ''Workload''" "bar_free ''Pod''" by (simp_all add: bar_free_def)
    ultimately have "[sc_Level (in_Scope i), sc_Namespace (in_Scope i), to_lower (or_Kind r), or_Name r]
        = [sc_Level (in_Scope j), sc_Namespace (in_Scope j), to_lower (or_Kind s), or_Name s]"
      using eq parts [OF assms(1,3,5)] parts [OF assms(2,4,6)] assms(1,2,7)
      by (intro str_join_inject [of "CHR ''|''"]) (auto simp: bar_free_def)
    then show ?thesis by simp
  qed
  then show ?thesis using parts [OF assms(1,3,5)] parts [OF assms(2,4,6)] by auto
qed

definition named_input :: "string \<Rightarrow> string \<Rightarrow> input" where
  "named_input typ name = \<lparr>in_Namespace = ''shop'', in_AgentRef = ''a'', in_IncidentType = typ, in_Severity = ''P3'',
     in_Summary = [], in_Reason = [], in_Message = [], in_DedupKey = [], in_ObservedAt = 0,
     in_Scope = \<lparr>sc_Level = ''Workload'', sc_Namespace = ''shop'', sc_WorkloadRef = Some (mk_ref ''apps/v1'' ''Deployment'' ''shop'' name []),
       sc_ResourceRef = None\<rparr>,
     in_AffectedResources = [], in_TraceID = [], in_FiredRule = []\<rparr>"

theorem Fingerprint_identity_witness:
  "Fingerprint (named_input ''OOMKilled'' ''web'') = Fingerprint (named_input ''ProbeFailure'' ''web'') \<and>
   Fingerprint (named_input ''OOMKilled'' ''web'') \<noteq> Fingerprint (named_input ''OOMKilled'' ''db'')"
proof -
  let ?r = "\<lambda>name. mk_ref ''apps/v1'' ''Deployment'' ''shop'' name []"
  note id = Fingerprint_identity [where r = "?r ''web''" and i = "named_input ''OOMKilled'' ''web''"]
  have "Fingerprint (named_input ''OOMKilled'' ''web'') = Fingerprint (named_input ''ProbeFailure'' ''web'')"
    using id [where s = "?r ''web''" and j = "named_input ''ProbeFailure'' ''web''"]
    by (simp add: named_input_def scope_ref_def bar_free_def mk_ref_def)
  moreover have "Fingerprint (named_input ''OOMKilled'' ''web'') \<noteq> Fingerprint (named_input ''OOMKilled'' ''db'')"
    using id [where s = "?r ''db''" and j = "named_input ''OOMKilled'' ''db''"]
    by (simp add: named_input_def scope_ref_def bar_free_def mk_ref_def)
  ultimately show ?thesis ..
qed

end
