(* ===== verification/Signals.thy ===== *)
theory Signals
  imports Incident Dedup "HOL-Library.While_Combinator"
begin

text \<open>
  The signal pipeline of \<open>internal/signals\<close>: the normalizer maps a watcher event to the
  reporter's input through the mapping table, the enricher promotes pod-scoped signals to the
  workload that owns the pod. The deduplicator is in the theory of the window contract.
\<close>

section \<open>Mappings\<close>

record signal_mapping =
  sm_EventType :: string
  sm_IncidentType :: string
  sm_Severity :: string
  sm_ScopeLevel :: string

definition mk_mapping :: "string \<Rightarrow> string \<Rightarrow> string \<Rightarrow> signal_mapping" where
  "mk_mapping et sev lvl =
     \<lparr>sm_EventType = et, sm_IncidentType = et, sm_Severity = sev, sm_ScopeLevel = lvl\<rparr>"

definition DefaultMappings :: "signal_mapping list" where
  "DefaultMappings =
     [mk_mapping ''CrashLoopBackOff'' ''P3'' ''Pod'',
      mk_mapping ''OOMKilled'' ''P2'' ''Pod'',
      mk_mapping ''ImagePullBackOff'' ''P3'' ''Workload'',
      mk_mapping ''PodPendingTooLong'' ''P3'' ''Pod'',
      mk_mapping ''GracePeriodViolation'' ''P2'' ''Pod'',
      mk_mapping ''NodeNotReady'' ''P1'' ''Cluster'',
      mk_mapping ''PodEvicted'' ''P2'' ''Pod'',
      mk_mapping ''ProbeFailure'' ''P3'' ''Pod'',
      mk_mapping ''StalledRollout'' ''P2'' ''Workload'',
      mk_mapping ''NodePressure'' ''P2'' ''Cluster'',
      mk_mapping ''StalledStatefulSet'' ''P2'' ''Workload'',
      mk_mapping ''StalledDaemonSet'' ''P2'' ''Workload'',
      mk_mapping ''JobFailed'' ''P3'' ''Workload'',
      mk_mapping ''CronJobFailed'' ''P3'' ''Workload'',
      mk_mapping ''OTelSpanError'' ''P3'' ''Workload'',
      mk_mapping ''OTelSpanLatencySpike'' ''P4'' ''Workload'',
      mk_mapping ''OTelLogMatch'' ''P4'' ''Workload'',
      mk_mapping ''OTelSpanEvent'' ''P3'' ''Workload'']"

type_synonym normalizer = "string \<rightharpoonup> signal_mapping"

definition NewNormalizer :: "signal_mapping list \<Rightarrow> normalizer" where
  "NewNormalizer overrides =
     fold (\<lambda>m n. n(sm_EventType m \<mapsto> m)) (DefaultMappings @ overrides) Map.empty"

section \<open>Fields of an event\<close>

text \<open>\<open>extractBase\<close> (and \<open>rulengine.ExtractBase\<close>): the lifecycle events fall into the
  \<open>default\<close> branch and give the zero value.\<close>

definition ExtractBase :: "correlator_event \<Rightarrow> base_event" where
  "ExtractBase event = (case event of
     PodHealthyEvent _ \<Rightarrow> zero_base
   | PodDeletedEvent _ \<Rightarrow> zero_base
   | _ \<Rightarrow> ev_base event)"

definition extractReason :: "correlator_event \<Rightarrow> string" where
  "extractReason event = (case event of
     CrashLoopBackOffEvent _ _ _ _ _ _ _ \<Rightarrow> ''CrashLoopBackOff''
   | OOMKilledEvent _ _ _ r \<Rightarrow> r
   | ImagePullBackOffEvent _ _ r _ \<Rightarrow> r
   | PodPendingTooLongEvent _ _ _ \<Rightarrow> ''PendingTooLong''
   | GracePeriodViolationEvent _ _ _ \<Rightarrow> ''GracePeriodExceeded''
   | NodeNotReadyEvent _ r _ \<Rightarrow> r
   | PodEvictedEvent _ r _ \<Rightarrow> r
   | ProbeFailureEvent _ pt _ \<Rightarrow> pt
   | StalledRolloutEvent _ _ _ _ _ r _ \<Rightarrow> r
   | NodePressureEvent _ pt _ \<Rightarrow> pt
   | StalledStatefulSetEvent _ _ _ _ _ _ r _ \<Rightarrow> r
   | StalledDaemonSetEvent _ _ _ _ _ _ r _ \<Rightarrow> r
   | JobFailedEvent _ _ r _ \<Rightarrow> r
   | CronJobFailedEvent _ _ _ r _ \<Rightarrow> r
   | OTelSpanErrorEvent _ _ _ _ _ _ _ sc _ _ _ _ _ _ \<Rightarrow> sc
   | OTelSpanLatencySpikeEvent _ _ _ _ _ _ _ _ _ _ _ _ \<Rightarrow> ''LatencySpike''
   | OTelLogMatchEvent _ _ _ _ sev _ _ _ _ _ \<Rightarrow> sev
   | OTelSpanEventEvent _ _ _ _ en _ _ _ \<Rightarrow> en
   | _ \<Rightarrow> [])"

text \<open>The marker is a three-byte ellipsis and \<open>(truncated)\<close>.\<close>

definition truncated_marker :: string where
  "truncated_marker = [CHR 0xE2, CHR 0x80, CHR 0xA6] @ ''(truncated)''"

definition truncateBody :: "string \<Rightarrow> int \<Rightarrow> string" where
  "truncateBody s mx =
     (if mx \<le> 0 \<or> int (length s) \<le> mx then s else take (nat mx) s @ truncated_marker)"

definition buildSummary :: "correlator_event \<Rightarrow> string" where
  "buildSummary event = (case event of
     CrashLoopBackOffEvent _ _ rc th ec cat desc \<Rightarrow>
       (let s = ''CrashLoopBackOff restarts='' @ itoa rc @ '' threshold='' @ itoa th
        in if ec \<noteq> 0 \<and> cat \<noteq> []
           then s @ '' exitCode='' @ itoa ec @ '' category='' @ cat @ '' description='' @ desc else s)
   | OOMKilledEvent _ _ ec r \<Rightarrow> ''OOMKilled exitCode='' @ itoa ec @ '' reason='' @ r
   | ImagePullBackOffEvent _ _ r m \<Rightarrow> ''Image pull failure reason='' @ r @ '' message='' @ m
   | PodPendingTooLongEvent _ pf to \<Rightarrow>
       ''Pod pending too long pendingFor='' @ duration_string pf @ '' timeout='' @ duration_string to
   | GracePeriodViolationEvent _ g od \<Rightarrow>
       ''Pod deletion exceeded grace period grace='' @ itoa g @ ''s overdue='' @ duration_string od
   | NodeNotReadyEvent _ r m \<Rightarrow> ''Node not ready reason='' @ r @ '' message='' @ m
   | PodEvictedEvent _ r m \<Rightarrow> ''Pod evicted from node reason='' @ r @ '' message='' @ m
   | ProbeFailureEvent _ pt m \<Rightarrow> ''Probe failed probeType='' @ pt @ '' message='' @ m
   | StalledRolloutEvent _ _ _ dr rr r m \<Rightarrow>
       ''Deployment rollout stalled reason='' @ r @ '' desiredReplicas='' @ itoa dr @
       '' readyReplicas='' @ itoa rr @ '' message='' @ m
   | NodePressureEvent b pt m \<Rightarrow>
       ''Node '' @ be_NodeName b @ '' condition='' @ pt @ '' message='' @ m
   | StalledStatefulSetEvent _ _ _ dr rr ur r m \<Rightarrow>
       ''StatefulSet rollout stalled reason='' @ r @ '' desiredReplicas='' @ itoa dr @
       '' readyReplicas='' @ itoa rr @ '' updatedReplicas='' @ itoa ur @ '' message='' @ m
   | StalledDaemonSetEvent _ _ _ dn nr un r m \<Rightarrow>
       ''DaemonSet rollout stalled reason='' @ r @ '' desired='' @ itoa dn @
       '' ready='' @ itoa nr @ '' updated='' @ itoa un @ '' message='' @ m
   | JobFailedEvent _ _ r m \<Rightarrow> ''Job failed reason='' @ r @ '' message='' @ m
   | CronJobFailedEvent _ _ lj r m \<Rightarrow>
       ''CronJob failed lastJob='' @ lj @ '' reason='' @ r @ '' message='' @ m
   | OTelSpanErrorEvent _ _ _ _ svc sn _ sc sm _ _ _ _ _ \<Rightarrow>
       ''Error span service='' @ svc @ '' span='' @ sn @ '' status='' @ sc @ '' message='' @ sm
   | OTelSpanLatencySpikeEvent _ _ _ _ svc sn d th _ _ _ _ \<Rightarrow>
       ''Latency spike service='' @ svc @ '' span='' @ sn @ '' durationNs='' @ itoa d @
       '' thresholdNs='' @ itoa th
   | OTelLogMatchEvent _ _ _ svc sev _ body _ _ _ \<Rightarrow>
       ''Log match service='' @ svc @ '' severity='' @ sev @ '' body='' @ truncateBody body 512
   | OTelSpanEventEvent _ _ _ svc en _ _ _ \<Rightarrow>
       ''Span event service='' @ svc @ '' event='' @ en
   | _ \<Rightarrow> [])"

section \<open>Stripping empty key-value fragments\<close>

text \<open>
  The regular expression \<^verbatim>\<open>(^|\s)[A-Za-z_][\w.-]*=(\s|$)\<close> replaced by its second group. The
  key's characters exclude \<open>=\<close>, so the greedy run determines the match; \<open>kv_tail\<close> matches from
  the key on and gives the second group and the rest, \<open>kv_match\<close> adds the first group, with the
  start-of-text alternative first.
\<close>

definition re_space :: "char \<Rightarrow> bool" where
  "re_space c \<longleftrightarrow> byte_of c \<in> {9, 10, 12, 13, 32}"

definition key_start :: "char \<Rightarrow> bool" where
  "key_start c \<longleftrightarrow> is_lower c \<or> is_upper c \<or> c = CHR ''_''"

definition key_char :: "char \<Rightarrow> bool" where
  "key_char c \<longleftrightarrow> key_start c \<or> is_digit c \<or> c = CHR ''.'' \<or> c = CHR ''-''"

definition kv_tail :: "string \<Rightarrow> (string \<times> string) option" where
  "kv_tail s = (case s of [] \<Rightarrow> None
     | c # cs \<Rightarrow>
         if \<not> key_start c then None
         else (case dropWhile key_char cs of [] \<Rightarrow> None
               | e # rest \<Rightarrow>
                   if e \<noteq> CHR ''='' then None
                   else (case rest of [] \<Rightarrow> Some ([], [])
                         | d # ds \<Rightarrow> if re_space d then Some ([d], ds) else None)))"

definition kv_match :: "bool \<Rightarrow> string \<Rightarrow> (string \<times> string) option" where
  "kv_match at_start s =
     (let by_space = (case s of [] \<Rightarrow> None | c # cs \<Rightarrow> if re_space c then kv_tail cs else None)
      in if at_start then (case kv_tail s of Some m \<Rightarrow> Some m | None \<Rightarrow> by_space) else by_space)"

lemma kv_tail_shrinks: "kv_tail s = Some (g, rest) \<Longrightarrow> length g + length rest < length s"
proof -
  assume "kv_tail s = Some (g, rest)"
  then obtain c cs e r where s: "s = c # cs" and dw: "dropWhile key_char cs = e # r"
    and gr: "(g = [] \<and> rest = [] \<and> r = []) \<or> (\<exists>d. g = [d] \<and> r = d # rest)"
    by (auto simp: kv_tail_def split: list.splits if_splits)
  have "length (e # r) \<le> length cs" using length_dropWhile_le [of key_char cs] dw by simp
  with s gr show ?thesis by auto
qed

lemma kv_match_shrinks: "kv_match b s = Some (g, rest) \<Longrightarrow> length g + length rest < length s"
  by (auto simp: kv_match_def Let_def dest: kv_tail_shrinks split: list.splits if_splits option.splits)

text \<open>One pass of \<open>ReplaceAllString\<close>.\<close>

function replace_kv :: "bool \<Rightarrow> string \<Rightarrow> string" where
  "replace_kv at_start s = (case kv_match at_start s of
     Some (g, rest) \<Rightarrow> g @ replace_kv False rest
   | None \<Rightarrow> (case s of [] \<Rightarrow> [] | c # cs \<Rightarrow> c # replace_kv False cs))"
  by pat_completeness auto
termination
  by (relation "measure (\<lambda>(b, s). length s)") (auto dest: kv_match_shrinks)

declare replace_kv.simps [simp del]

lemma kv_match_Nil [simp]: "kv_match b [] = None"
  by (simp add: kv_match_def kv_tail_def)

lemma replace_kv_Nil [simp]: "replace_kv b [] = []"
  by (subst replace_kv.simps) simp

lemma replace_kv_skip: "kv_match b (c # cs) = None \<Longrightarrow> replace_kv b (c # cs) = c # replace_kv False cs"
  by (subst replace_kv.simps) simp

lemma replace_kv_hit: "kv_match b s = Some (g, rest) \<Longrightarrow> replace_kv b s = g @ replace_kv False rest"
  by (subst replace_kv.simps) simp

lemma replace_kv_length: "length (replace_kv b s) \<le> length s"
proof (induction b s rule: replace_kv.induct)
  case (1 b s)
  show ?case
  proof (cases "kv_match b s")
    case None
    then show ?thesis using 1 by (cases s) (auto simp: replace_kv_skip)
  next
    case (Some m)
    obtain g rest where m: "m = (g, rest)" by (cases m)
    have "length (replace_kv False rest) \<le> length rest" using 1(2) [OF Some] m by simp
    then show ?thesis
      using Some m kv_match_shrinks [of b s g rest] by (simp add: replace_kv_hit)
  qed
qed

lemma replace_kv_shrinks: "replace_kv b s \<noteq> s \<Longrightarrow> length (replace_kv b s) < length s"
proof (induction b s rule: replace_kv.induct)
  case (1 b s)
  show ?case
  proof (cases "kv_match b s")
    case None
    then show ?thesis using 1 by (cases s) (auto simp: replace_kv_skip)
  next
    case (Some m)
    obtain g rest where m: "m = (g, rest)" by (cases m)
    have "length (replace_kv False rest) \<le> length rest" by (rule replace_kv_length)
    then show ?thesis
      using Some m kv_match_shrinks [of b s g rest] by (simp add: replace_kv_hit)
  qed
qed

text \<open>The loop until the text is stable; every pass that changes it makes it shorter.\<close>

function strip_loop :: "string \<Rightarrow> string" where
  "strip_loop s = (let out = replace_kv True s in if out = s then s else strip_loop out)"
  by pat_completeness auto
termination
  by (relation "measure length") (auto dest: replace_kv_shrinks)

declare strip_loop.simps [simp del]

text \<open>The same loop as the source has it, which may not return.\<close>

definition strip_while :: "string \<Rightarrow> string option" where
  "strip_while s = while_option (\<lambda>s. replace_kv True s \<noteq> s) (replace_kv True) s"

text \<open>No position of the text starts a match of the pattern.\<close>

definition empty_kv_free :: "string \<Rightarrow> bool" where
  "empty_kv_free s \<longleftrightarrow> (\<forall>n \<le> length s. kv_match (n = 0) (drop n s) = None)"

fun collapse_spaces :: "bool \<Rightarrow> string \<Rightarrow> string" where
  "collapse_spaces prev [] = []"
| "collapse_spaces prev (c # cs) =
     (if re_space c then (if prev then collapse_spaces True cs else CHR '' '' # collapse_spaces True cs)
      else c # collapse_spaces False cs)"

definition stripEmptyKV :: "string \<Rightarrow> string" where
  "stripEmptyKV s = trim_space (collapse_spaces False (strip_loop s))"

lemma strip_loop_stable: "replace_kv True (strip_loop s) = strip_loop s"
proof (induction s rule: strip_loop.induct)
  case (1 s)
  then show ?case by (cases "replace_kv True s = s") (simp_all add: strip_loop.simps [of s] Let_def)
qed

lemma strip_loop_length: "length (strip_loop s) \<le> length s"
proof (induction s rule: strip_loop.induct)
  case (1 s)
  then show ?case
    using replace_kv_length [of True s]
    by (cases "replace_kv True s = s") (auto simp: strip_loop.simps [of s] Let_def)
qed

lemma replace_kv_stable: "replace_kv b s = s \<Longrightarrow> n \<le> length s \<Longrightarrow> kv_match (b \<and> n = 0) (drop n s) = None"
proof (induction n arbitrary: b s)
  case 0
  then show ?case
  proof (cases "kv_match b s")
    case (Some m)
    obtain g rest where m: "m = (g, rest)" by (cases m)
    then show ?thesis
      using 0 Some kv_match_shrinks [of b s g rest] replace_kv_length [of False rest]
      by (auto simp: replace_kv_hit dest!: arg_cong [where f = length])
  qed simp
next
  case (Suc n)
  then obtain c cs where s: "s = c # cs" by (cases s) auto
  have "kv_match b s = None"
  proof (rule ccontr)
    assume "kv_match b s \<noteq> None"
    then obtain g rest where m: "kv_match b s = Some (g, rest)" by auto
    then show False
      using Suc.prems kv_match_shrinks [OF m] replace_kv_length [of False rest]
      by (auto simp: replace_kv_hit dest!: arg_cong [where f = length])
  qed
  then have "replace_kv False cs = cs" using Suc.prems s by (simp add: replace_kv_skip)
  from Suc.IH [OF this] Suc.prems s show ?case by simp
qed

lemma strip_while_loop: "strip_while s = Some (strip_loop s)"
proof (induction s rule: strip_loop.induct)
  case (1 s)
  then show ?case
    unfolding strip_while_def by (subst while_option_unfold) (simp add: strip_loop.simps [of s] Let_def)
qed

lemma strip_passes: "\<exists>k \<le> length s. strip_loop s = (replace_kv True ^^ k) s"
proof (induction s rule: strip_loop.induct)
  case (1 s)
  show ?case
  proof (cases "replace_kv True s = s")
    case True
    then show ?thesis by (intro exI [of _ 0]) (simp add: strip_loop.simps [of s])
  next
    case False
    with 1 obtain k where "k \<le> length (replace_kv True s)"
      "strip_loop (replace_kv True s) = (replace_kv True ^^ k) (replace_kv True s)" by auto
    with False replace_kv_shrinks [OF False] show ?thesis
      by (intro exI [of _ "Suc k"]) (simp add: strip_loop.simps [of s] Let_def funpow_swap1)
  qed
qed

lemma collapse_spaces_length: "length (collapse_spaces b s) \<le> length s"
  by (induction b s rule: collapse_spaces.induct) (auto simp: le_SucI)

section \<open>Building the input\<close>

definition firstNonEmpty :: "string list \<Rightarrow> string" where
  "firstNonEmpty values =
     (case find (\<lambda>t. t \<noteq> []) (map trim_space values) of None \<Rightarrow> [] | Some t \<Rightarrow> t)"

definition workload_keys :: "(string \<times> string \<times> string) list" where
  "workload_keys =
     [(''k8s.deployment.name'', ''apps/v1'', ''Deployment''),
      (''k8s.statefulset.name'', ''apps/v1'', ''StatefulSet''),
      (''k8s.daemonset.name'', ''apps/v1'', ''DaemonSet''),
      (''k8s.job.name'', ''batch/v1'', ''Job''),
      (''k8s.cronjob.name'', ''batch/v1'', ''CronJob'')]"

fun first_workload :: "string \<Rightarrow> attr_map \<Rightarrow> (string \<times> string \<times> string) list \<Rightarrow>
    (object_ref \<times> affected_resource) option" where
  "first_workload namespace attrs [] = None"
| "first_workload namespace attrs ((attrKey, api, kind) # candidates) =
     (let name = trim_space (map_get attrs attrKey)
      in if name = [] \<or> namespace = [] then first_workload namespace attrs candidates
         else Some (mk_ref api kind namespace name [], mk_affected api kind namespace name []))"

definition workloadFromOTelResourceAttrs ::
    "string \<Rightarrow> attr_map \<Rightarrow> (object_ref \<times> affected_resource) option" where
  "workloadFromOTelResourceAttrs namespace attrs = first_workload namespace attrs workload_keys"

definition extractOTelResourceIdentity :: "correlator_event \<Rightarrow> (string \<times> attr_map) option" where
  "extractOTelResourceIdentity event = (case event of
     OTelSpanErrorEvent _ _ _ _ svc _ _ _ _ _ _ _ _ ra \<Rightarrow> Some (svc, ra)
   | OTelSpanLatencySpikeEvent _ _ _ _ svc _ _ _ _ _ _ ra \<Rightarrow> Some (svc, ra)
   | OTelLogMatchEvent _ _ _ svc _ _ _ _ _ ra \<Rightarrow> Some (svc, ra)
   | OTelSpanEventEvent _ _ _ svc _ _ _ ra \<Rightarrow> Some (svc, ra)
   | _ \<Rightarrow> None)"

text \<open>Give the input workload scope: both references point to the workload.\<close>

definition set_workload :: "object_ref \<Rightarrow> incident_scope \<Rightarrow> incident_scope" where
  "set_workload ref scope =
     scope\<lparr>sc_Level := ''Workload'', sc_WorkloadRef := Some ref, sc_ResourceRef := Some ref\<rparr>"

definition applyOTelScopeOverrides :: "input \<Rightarrow> correlator_event \<Rightarrow> input" where
  "applyOTelScopeOverrides i event = (case extractOTelResourceIdentity event of
     None \<Rightarrow> i
   | Some (serviceName, ra) \<Rightarrow>
       (let namespace = firstNonEmpty [in_Namespace i, map_get ra ''k8s.namespace.name'',
                                       map_get ra ''service.namespace''];
            i = (if namespace \<noteq> []
                 then i\<lparr>in_Namespace := namespace, in_Scope := (in_Scope i)\<lparr>sc_Namespace := namespace\<rparr>\<rparr>
                 else i)
        in case workloadFromOTelResourceAttrs namespace ra of
             Some (ref, affected) \<Rightarrow>
               i\<lparr>in_Scope := set_workload ref (in_Scope i), in_AffectedResources := [affected]\<rparr>
           | None \<Rightarrow>
               (let svc = firstNonEmpty [serviceName, map_get ra ''service.name'']
                in if svc = [] \<or> namespace = [] then i
                   else i\<lparr>in_Scope := set_workload (mk_ref ''v1'' ''Service'' namespace svc []) (in_Scope i),
                          in_AffectedResources := [mk_affected ''v1'' ''Service'' namespace svc []]\<rparr>)))"

definition pod_scope :: "base_event \<Rightarrow> incident_scope" where
  "pod_scope b =
     \<lparr>sc_Level = ''Pod'', sc_Namespace = be_Namespace b, sc_WorkloadRef = None,
      sc_ResourceRef = Some (mk_ref ''v1'' ''Pod'' (be_Namespace b) (be_PodName b) [])\<rparr>"

definition default_scope :: "base_event \<Rightarrow> string \<Rightarrow> incident_scope \<times> affected_resource list" where
  "default_scope b lvl =
     (if lvl = ''Cluster'' then
        (zero_scope\<lparr>sc_Level := ''Cluster'',
                   sc_ResourceRef := Some (mk_ref ''v1'' ''Node'' [] (be_NodeName b) [])\<rparr>,
         [mk_affected ''v1'' ''Node'' [] (be_NodeName b) []])
      else if lvl = ''Workload'' then
        (if be_PodName b \<noteq> [] then (pod_scope b, [])
         else (zero_scope\<lparr>sc_Level := ''Workload'', sc_Namespace := be_Namespace b\<rparr>, []))
      else (pod_scope b, []))"

definition workload_override ::
    "string \<Rightarrow> string \<Rightarrow> base_event \<Rightarrow> string \<Rightarrow> input \<Rightarrow> input" where
  "workload_override api kind b name i =
     i\<lparr>in_Scope := set_workload (mk_ref api kind (be_Namespace b) name [])
                    ((in_Scope i)\<lparr>sc_Namespace := be_Namespace b\<rparr>),
       in_AffectedResources := [mk_affected api kind (be_Namespace b) name []]\<rparr>"

definition buildInput :: "correlator_event \<Rightarrow> signal_mapping \<Rightarrow> input" where
  "buildInput event mapping =
     (let base = ExtractBase event;
          summary = stripEmptyKV (buildSummary event);
          (scope, affected) = default_scope base (sm_ScopeLevel mapping);
          i = \<lparr>in_Namespace = be_Namespace base, in_AgentRef = be_AgentName base,
               in_IncidentType = sm_IncidentType mapping,
               in_Severity = (case event of
                   NodePressureEvent _ pt _ \<Rightarrow> if pt = ''PIDPressure'' then ''P3'' else sm_Severity mapping
                 | _ \<Rightarrow> sm_Severity mapping),
               in_Summary = summary, in_Reason = extractReason event, in_Message = summary,
               in_DedupKey = DedupKey event, in_ObservedAt = OccurredAt event,
               in_Scope = scope, in_AffectedResources = affected,
               in_TraceID = extractTraceID event, in_FiredRule = []\<rparr>
      in case event of
           StalledRolloutEvent b n _ _ _ _ _ \<Rightarrow> workload_override ''apps/v1'' ''Deployment'' b n i
         | StalledStatefulSetEvent b n _ _ _ _ _ _ \<Rightarrow> workload_override ''apps/v1'' ''StatefulSet'' b n i
         | StalledDaemonSetEvent b n _ _ _ _ _ _ \<Rightarrow> workload_override ''apps/v1'' ''DaemonSet'' b n i
         | JobFailedEvent b n _ _ \<Rightarrow> workload_override ''batch/v1'' ''Job'' b n i
         | CronJobFailedEvent b n _ _ _ \<Rightarrow> workload_override ''batch/v1'' ''CronJob'' b n i
         | _ \<Rightarrow> applyOTelScopeOverrides i event)"

text \<open>\<open>Normalize\<close>: \<open>None\<close> where the source returns \<open>ok = false\<close>. The signal is the input;
  its raw event is the argument.\<close>

definition Normalize :: "normalizer \<Rightarrow> correlator_event \<Rightarrow> input option" where
  "Normalize n event =
     (let eventType = event_type event
      in if eventType = ''PodHealthy'' \<or> eventType = ''PodDeleted'' then None
         else case n eventType of
           None \<Rightarrow> None
         | Some mapping \<Rightarrow>
             (case event of
                OTelSpanErrorEvent _ _ _ _ _ _ sk _ _ _ _ _ _ _ \<Rightarrow>
                  if sk \<noteq> [] \<and> sk \<noteq> ''SERVER'' then None else Some (buildInput event mapping)
              | _ \<Rightarrow> Some (buildInput event mapping)))"

section \<open>Enrichment\<close>

definition looksLikeReplicaSetHash :: "string \<Rightarrow> bool" where
  "looksLikeReplicaSetHash token \<longleftrightarrow>
     8 \<le> length token \<and> length token \<le> 10 \<and> list_all (\<lambda>r. is_lower r \<or> is_digit r) token"

definition GuessDeploymentNameFromPod :: "string \<Rightarrow> string" where
  "GuessDeploymentNameFromPod podName =
     (let parts = str_split (CHR ''-'') (trim_space podName)
      in if length parts < 2 then []
         else if length (last parts) = 5 then
           (if 3 \<le> length parts \<and> looksLikeReplicaSetHash (parts ! (length parts - 2))
            then str_join ''-'' (take (length parts - 2) parts)
            else str_join ''-'' (take (length parts - 1) parts))
         else [])"

definition promote_by_name :: "input \<Rightarrow> string \<Rightarrow> string \<Rightarrow> input" where
  "promote_by_name i namespace podName =
     (let workloadName = GuessDeploymentNameFromPod podName
      in if workloadName = [] then i
         else i\<lparr>in_Scope := set_workload (mk_ref ''apps/v1'' ''Deployment'' namespace workloadName [])
                               ((in_Scope i)\<lparr>sc_Namespace := namespace\<rparr>),
                in_AffectedResources := mergeAffectedResources (in_AffectedResources i)
                  [mk_affected ''apps/v1'' ''Deployment'' namespace workloadName []]\<rparr>)"

definition promoteToWorkloadScope :: "input \<Rightarrow> string \<Rightarrow> string \<Rightarrow> input" where
  "promoteToWorkloadScope i namespace podName =
     (case sc_WorkloadRef (in_Scope i) of
        Some ref \<Rightarrow>
          if or_Name ref \<noteq> [] then
            i\<lparr>in_Scope := (in_Scope i)\<lparr>sc_Level := ''Workload'', sc_Namespace := namespace,
                                       sc_ResourceRef := Some ref\<rparr>\<rparr>
          else promote_by_name i namespace podName
      | None \<Rightarrow> promote_by_name i namespace podName)"

definition Enrich :: "'w kube \<Rightarrow> 'w \<Rightarrow> input \<Rightarrow> input" where
  "Enrich K w sig =
     (if sc_Level (in_Scope sig) \<noteq> ''Pod'' then sig
      else let podName = (case sc_ResourceRef (in_Scope sig) of None \<Rightarrow> [] | Some r \<Rightarrow> or_Name r)
        in if podName = [] then sig
           else let existingWorkloadRef = sc_WorkloadRef (in_Scope sig);
                    (scope, affected, err) = ResolvePodScope K w (in_Namespace sig) podName;
                    scope = (if sc_WorkloadRef scope = None \<and> existingWorkloadRef \<noteq> None
                             then scope\<lparr>sc_WorkloadRef := existingWorkloadRef\<rparr> else scope)
                in promoteToWorkloadScope (sig\<lparr>in_Scope := scope, in_AffectedResources := affected\<rparr>)
                     (in_Namespace sig) podName)"

section \<open>Lemmas on the pipeline\<close>

definition known_levels :: "string set" where
  "known_levels = {''Cluster'', ''Workload'', ''Namespace'', ''Pod''}"

lemma default_scope_level: "sc_Level (fst (default_scope b lvl)) \<in> known_levels"
  by (simp add: default_scope_def pod_scope_def known_levels_def)

lemma applyOTelScopeOverrides_frame [simp]:
  "in_IncidentType (applyOTelScopeOverrides i e) = in_IncidentType i"
  "in_Severity (applyOTelScopeOverrides i e) = in_Severity i"
  "in_Summary (applyOTelScopeOverrides i e) = in_Summary i"
  "in_TraceID (applyOTelScopeOverrides i e) = in_TraceID i"
  "in_DedupKey (applyOTelScopeOverrides i e) = in_DedupKey i"
  by (simp_all add: applyOTelScopeOverrides_def Let_def split: option.splits prod.splits)

lemma applyOTelScopeOverrides_level:
  "sc_Level (in_Scope i) \<in> known_levels \<Longrightarrow> sc_Level (in_Scope (applyOTelScopeOverrides i e)) \<in> known_levels"
  by (auto simp: applyOTelScopeOverrides_def set_workload_def known_levels_def Let_def split: option.splits prod.splits)

lemma workload_override_frame [simp]:
  "in_IncidentType (workload_override a k b n i) = in_IncidentType i"
  "in_Severity (workload_override a k b n i) = in_Severity i"
  "in_Summary (workload_override a k b n i) = in_Summary i"
  "in_TraceID (workload_override a k b n i) = in_TraceID i"
  "in_DedupKey (workload_override a k b n i) = in_DedupKey i"
  "sc_Level (in_Scope (workload_override a k b n i)) = ''Workload''"
  by (simp_all add: workload_override_def set_workload_def)

lemma buildInput_fields:
  "in_IncidentType (buildInput e m) = sm_IncidentType m"
  "in_Severity (buildInput e m) = sm_Severity m \<or> in_Severity (buildInput e m) = ''P3''"
  "in_Summary (buildInput e m) = stripEmptyKV (buildSummary e)"
  "in_TraceID (buildInput e m) = extractTraceID e"
  "in_DedupKey (buildInput e m) = DedupKey e"
  "sc_Level (in_Scope (buildInput e m)) \<in> known_levels"
  using default_scope_level [of "ExtractBase e" "sm_ScopeLevel m"]
  by (auto simp: buildInput_def Let_def split: correlator_event.split prod.split
      intro!: applyOTelScopeOverrides_level) (simp_all add: known_levels_def)

lemma promote_frame [simp]:
  "in_IncidentType (promoteToWorkloadScope i ns p) = in_IncidentType i"
  "in_Severity (promoteToWorkloadScope i ns p) = in_Severity i"
  "in_Summary (promoteToWorkloadScope i ns p) = in_Summary i"
  "in_Namespace (promoteToWorkloadScope i ns p) = in_Namespace i"
  by (simp_all add: promoteToWorkloadScope_def promote_by_name_def Let_def split: option.splits)

lemma promote_level:
  "sc_Level (in_Scope i) \<in> known_levels \<Longrightarrow> sc_Level (in_Scope (promoteToWorkloadScope i ns p)) \<in> known_levels"
  by (auto simp: promoteToWorkloadScope_def promote_by_name_def set_workload_def known_levels_def Let_def
      split: option.splits)

lemma ResolvePodScope_level: "sc_Level (fst (ResolvePodScope K w ns p)) \<in> {''Pod'', ''Workload''}"
  by (auto simp: ResolvePodScope_def Let_def split: sum.splits option.splits)

lemma Enrich_frame [simp]:
  "in_IncidentType (Enrich K w i) = in_IncidentType i" "in_Severity (Enrich K w i) = in_Severity i"
  "in_Summary (Enrich K w i) = in_Summary i" "in_Namespace (Enrich K w i) = in_Namespace i"
  by (simp_all add: Enrich_def Let_def split: prod.splits)

lemma Enrich_level:
  assumes "sc_Level (in_Scope i) \<in> known_levels"
  shows "sc_Level (in_Scope (Enrich K w i)) \<in> known_levels"
proof (cases "sc_Level (in_Scope i) = ''Pod'' \<and> (case sc_ResourceRef (in_Scope i) of None \<Rightarrow> [] | Some r \<Rightarrow> or_Name r) \<noteq> []")
  case True
  obtain scope affected err where r: "ResolvePodScope K w (in_Namespace i)
      (case sc_ResourceRef (in_Scope i) of None \<Rightarrow> [] | Some r \<Rightarrow> or_Name r) = (scope, affected, err)"
    by (metis prod_cases3)
  have "sc_Level scope \<in> known_levels"
    using ResolvePodScope_level [of K w "in_Namespace i"] r unfolding known_levels_def by (metis fst_conv insertCI insertE empty_iff)
  then show ?thesis using True r by (auto simp: Enrich_def Let_def intro!: promote_level)
qed (use assms in \<open>auto simp: Enrich_def Let_def\<close>)

text \<open>The scope of a pod whose controller chain ends in a named workload.\<close>

lemma Enrich_owned_pod:
  assumes "sc_Level (in_Scope i) = ''Pod''" "sc_ResourceRef (in_Scope i) = Some r" "or_Name r \<noteq> []"
    and "k_get_pod K w (in_Namespace i) (or_Name r) = Inr p"
    and "resolveTopOwner K w p = Some ref" "or_Name ref \<noteq> []"
  shows "sc_Level (in_Scope (Enrich K w i)) = ''Workload''"
    and "sc_Namespace (in_Scope (Enrich K w i)) = in_Namespace i"
    and "sc_WorkloadRef (in_Scope (Enrich K w i)) = Some ref"
  using assms by (simp_all add: Enrich_def ResolvePodScope_def promoteToWorkloadScope_def Let_def)

lemma default_mapping_fields:
  "NewNormalizer [] et = Some m \<Longrightarrow> sm_IncidentType m = et \<and> sm_Severity m \<in> {''P1'', ''P2'', ''P3'', ''P4''}"
  by (auto simp: NewNormalizer_def DefaultMappings_def mk_mapping_def split: if_splits)

section \<open>Properties\<close>

text \<open>
  With the default mappings the normalizer drops exactly the pod lifecycle events and the error
  spans of a kind other than SERVER; every other event becomes an input of its own event type, with
  a severity between P1 and P4, a scope level that the fingerprint knows, and the trace id of the
  event.
\<close>

lemma Normalize_default:
  "(Normalize (NewNormalizer []) e = None \<longleftrightarrow>
      is_lifecycle_event e \<or> (event_type e = ''OTelSpanError'' \<and> ev_SpanKind e \<notin> {[], ''SERVER''}))
   \<and> (\<forall>i. Normalize (NewNormalizer []) e = Some i \<longrightarrow>
        in_IncidentType i = event_type e \<and> in_Severity i \<in> {''P1'', ''P2'', ''P3'', ''P4''}
        \<and> sc_Level (in_Scope i) \<in> known_levels \<and> in_TraceID i = extractTraceID e)"
proof (intro conjI allI impI)
  show "Normalize (NewNormalizer []) e = None \<longleftrightarrow>
      is_lifecycle_event e \<or> (event_type e = ''OTelSpanError'' \<and> ev_SpanKind e \<notin> {[], ''SERVER''})"
    by (cases e) (simp_all add: Normalize_def event_type_def is_lifecycle_event_def NewNormalizer_def
        DefaultMappings_def mk_mapping_def Let_def)
next
  fix i assume "Normalize (NewNormalizer []) e = Some i"
  then obtain m where m: "NewNormalizer [] (event_type e) = Some m" "i = buildInput e m"
    by (auto simp: Normalize_def Let_def split: if_splits option.splits correlator_event.splits)
  from default_mapping_fields [OF m(1)] buildInput_fields [of e m] m(2)
  show "in_IncidentType i = event_type e" "in_Severity i \<in> {''P1'', ''P2'', ''P3'', ''P4''}"
    "sc_Level (in_Scope i) \<in> known_levels" "in_TraceID i = extractTraceID e" by auto
qed

definition sample_probe :: correlator_event where
  "sample_probe = ProbeFailureEvent \<lparr>be_At = 5, be_AgentName = ''agent'', be_Namespace = ''shop'',
     be_PodName = ''web-6b474476c4-x7k2p'', be_PodUID = [], be_NodeName = []\<rparr> ''Liveness'' ''timeout''"

lemma Normalize_default_witness:
  "\<exists>i. Normalize (NewNormalizer []) sample_probe = Some i \<and> in_IncidentType i = ''ProbeFailure''
     \<and> in_Severity i \<in> {''P1'', ''P2'', ''P3'', ''P4''}"
proof -
  have "event_type sample_probe = ''ProbeFailure''" "\<not> is_lifecycle_event sample_probe"
    by (simp_all add: sample_probe_def event_type_def is_lifecycle_event_def)
  with Normalize_default [of sample_probe] show ?thesis by auto
qed

text \<open>
  The characters of the hashes and suffixes that Kubernetes generates: the pod template hash is the
  decimal text of a 32-bit number, and the suffix five random characters, both written in this
  alphabet, so that a hash has one to ten characters.
\<close>

definition hash_alphabet :: string where
  "hash_alphabet = ''bcdfghjklmnpqrstvwxz2456789''"

lemma hash_alphabet_chars:
  assumes "set h \<subseteq> set hash_alphabet"
  shows "CHR ''-'' \<notin> set h" "list_all (\<lambda>c. is_lower c \<or> is_digit c) h" "h \<noteq> [] \<Longrightarrow> \<not> is_space (last h)"
proof -
  have all: "\<forall>c \<in> set hash_alphabet. c \<noteq> CHR ''-'' \<and> (is_lower c \<or> is_digit c) \<and> \<not> is_space c"
    by (simp add: hash_alphabet_def is_lower_def is_digit_def is_space_def)
  show "CHR ''-'' \<notin> set h" "list_all (\<lambda>c. is_lower c \<or> is_digit c) h" using assms all by (auto simp: list_all_iff)
  show "\<not> is_space (last h)" if "h \<noteq> []" using that assms all last_in_set [of h] by blast
qed

text \<open>C21.
  The name of a pod that a Deployment created, the deployment name, a ReplicaSet hash of at most ten
  characters and a pod suffix of five, both in the alphabet of Kubernetes, joined by dashes, gives the
  deployment name back when the hash has at least eight characters; for a shorter hash the guess is
  the name of the ReplicaSet.
\<close>

theorem Guess_deployment_round_trip:
  assumes "d \<noteq> []" "\<not> is_space (hd d)"
    and "set h \<subseteq> set hash_alphabet" "length h \<le> 10"
    and "set sfx \<subseteq> set hash_alphabet" "length sfx = 5"
  shows "GuessDeploymentNameFromPod (d @ ''-'' @ h @ ''-'' @ sfx) = (if 8 \<le> length h then d else d @ ''-'' @ h)"
proof -
  let ?s = "d @ ''-'' @ h @ ''-'' @ sfx"
  note h = hash_alphabet_chars [OF assms(3)] and sfx = hash_alphabet_chars [OF assms(5)]
  have "sfx \<noteq> []" using assms(6) by auto
  then have "trim_space ?s = ?s"
    unfolding trim_space_def using assms(1,2) sfx(3) by (intro trim_cut_id) simp_all
  moreover have "str_split (CHR ''-'') ?s = str_split (CHR ''-'') d @ [h, sfx]"
    using h(1) sfx(1) by (simp add: str_split_at str_split_no_sep)
  moreover have "str_split (CHR ''-'') d \<noteq> []" by simp
  moreover have "str_join ''-'' (str_split (CHR ''-'') d @ [h]) = d @ ''-'' @ h"
    using str_join_split [of "CHR ''-''" "d @ ''-'' @ h"] h(1) by (simp add: str_split_at str_split_no_sep)
  moreover have "looksLikeReplicaSetHash h \<longleftrightarrow> 8 \<le> length h"
    using h(2) assms(4) by (auto simp: looksLikeReplicaSetHash_def)
  ultimately show ?thesis
    using assms(6) by (auto simp: GuessDeploymentNameFromPod_def Let_def nth_append str_join_split Suc_le_eq)
qed

theorem Guess_deployment_round_trip_witness:
  "GuessDeploymentNameFromPod ''web-6b474476c4-x7k2p'' = ''web''
   \<and> GuessDeploymentNameFromPod ''web-6b47447-x7k2p'' = ''web-6b47447''"
  using Guess_deployment_round_trip [of "''web''" "''6b474476c4''" "''x7k2p''"]
    Guess_deployment_round_trip [of "''web''" "''6b47447''" "''x7k2p''"]
  by (simp add: hash_alphabet_def is_space_def)

text \<open>A signal about the pod of that name, and what the cluster says of a pod that a Deployment runs:
  its controller is a ReplicaSet that can be read and whose controller is the Deployment.\<close>

definition pod_signal :: "input \<Rightarrow> string \<Rightarrow> string \<Rightarrow> bool" where
  "pod_signal i ns name \<longleftrightarrow> sc_Level (in_Scope i) = ''Pod'' \<and> in_Namespace i = ns \<and> name \<noteq> []
     \<and> (case sc_ResourceRef (in_Scope i) of None \<Rightarrow> False | Some r \<Rightarrow> or_Name r = name)"

definition deployment_pod :: "'w kube \<Rightarrow> 'w \<Rightarrow> string \<Rightarrow> string \<Rightarrow> string \<Rightarrow> bool" where
  "deployment_pod K w ns name d \<longleftrightarrow> (\<exists>p owner rs dep.
     k_get_pod K w ns name = Inr p \<and> pod_Controller p = Some owner \<and> ow_Kind owner = ''ReplicaSet''
     \<and> k_get_replica_set K w (pod_Namespace p) (ow_Name owner) = Inr rs
     \<and> rset_Controller rs = Some dep \<and> ow_Kind dep = ''Deployment'' \<and> ow_Name dep = d)"

lemma Enrich_deployment_pod:
  assumes "pod_signal i ns name" "deployment_pod K w ns name d" "d \<noteq> []"
  shows "Fingerprint (Enrich K w i) = str_join ''|'' (''Workload'' # ns_parts ns @ [''deployment'', d])"
proof -
  from assms(1) obtain r where r: "sc_Level (in_Scope i) = ''Pod''" "sc_ResourceRef (in_Scope i) = Some r"
    "or_Name r \<noteq> []" "or_Name r = name" "in_Namespace i = ns" by (auto simp: pod_signal_def split: option.splits)
  from assms(2) obtain p ref where p: "k_get_pod K w ns name = Inr p" "resolveTopOwner K w p = Some ref"
    and ref: "or_Kind ref = ''Deployment''" "or_Name ref = d"
    by (auto simp: deployment_pod_def resolveTopOwner_def mk_ref_def)
  from r p ref assms(3) have e: "or_Name ref \<noteq> []" "k_get_pod K w (in_Namespace i) (or_Name r) = Inr p" by simp_all
  have "to_lower ''Deployment'' = ''deployment''" by code_simp
  with Enrich_owned_pod [OF r(1-3) e(2) p(2) e(1)] r(5) ref show ?thesis
    by (simp add: Fingerprint_def scope_parts_def ref_parts_def)
qed

text \<open>A ReplicaSet that cannot be read becomes the workload itself, under another fingerprint.\<close>

lemma Enrich_replica_set_unreadable:
  assumes "pod_signal i ns name" "k_get_pod K w ns name = Inr p" "pod_Controller p = Some owner"
    and "ow_Kind owner = ''ReplicaSet''" "k_get_replica_set K w (pod_Namespace p) (ow_Name owner) = Inl err" "ow_Name owner \<noteq> []"
  shows "Fingerprint (Enrich K w i) = str_join ''|'' (''Workload'' # ns_parts ns @ [''replicaset'', ow_Name owner])"
proof -
  from assms(1) obtain r where r: "sc_Level (in_Scope i) = ''Pod''" "sc_ResourceRef (in_Scope i) = Some r"
    "or_Name r \<noteq> []" "or_Name r = name" "in_Namespace i = ns" by (auto simp: pod_signal_def split: option.splits)
  let ?ref = "mk_ref ''apps/v1'' ''ReplicaSet'' (pod_Namespace p) (ow_Name owner) (ow_UID owner)"
  have "resolveTopOwner K w p = Some ?ref" using assms(3-5) by (simp add: resolveTopOwner_def)
  moreover have "to_lower ''ReplicaSet'' = ''replicaset''" by code_simp
  ultimately show ?thesis
    using Enrich_owned_pod [OF r(1-3), of K w p ?ref] r assms(2,6)
    by (simp add: Fingerprint_def scope_parts_def ref_parts_def mk_ref_def)
qed

text \<open>C20.
  Signals of any kind about two pods of one namespace, each controlled by a readable ReplicaSet that
  the same Deployment controls, get one fingerprint after enrichment, that of the Deployment: they
  meet in one incident, across the ReplicaSets of a rollout too.
\<close>

theorem Enrich_coalesces:
  assumes "pod_signal i ns name" "deployment_pod K w ns name d"
    and "pod_signal j ns name'" "deployment_pod K w ns name' d" "d \<noteq> []"
  shows "Fingerprint (Enrich K w i) = Fingerprint (Enrich K w j)
    \<and> Fingerprint (Enrich K w i) = str_join ''|'' (''Workload'' # ns_parts ns @ [''deployment'', d])"
  using Enrich_deployment_pod [OF assms(1,2,5)] Enrich_deployment_pod [OF assms(3,4,5)] by simp

text \<open>Pods of the Deployment \<open>web\<close> in the in-memory cluster: of one ReplicaSet, and in a rollout of the
  ReplicaSet their name begins with.\<close>

definition web_pod :: "string \<Rightarrow> pod" where
  "web_pod name = \<lparr>pod_Name = name, pod_Namespace = ''shop'', pod_UID = [],
     pod_Controller = Some \<lparr>ow_APIVersion = ''apps/v1'', ow_Kind = ''ReplicaSet'', ow_Name = ''web-rs'', ow_UID = []\<rparr>,
     pod_NodeName = [], pod_Phase = ''Running'', pod_Conditions = []\<rparr>"

definition web_world :: mem_world where
  "web_world = \<lparr>mw_reports = [], mw_counter = 0, mw_pods = (\<lambda>ns name. Some (web_pod name)),
     mw_replica_sets = (\<lambda>ns name. Some \<lparr>rset_Name = name, rset_UID = [],
       rset_Controller = Some \<lparr>ow_APIVersion = ''apps/v1'', ow_Kind = ''Deployment'', ow_Name = ''web'', ow_UID = []\<rparr>\<rparr>),
     mw_nodes = (\<lambda>name. None), mw_deployments = (\<lambda>ns name. None), mw_log = []\<rparr>"

definition pod_input :: "string \<Rightarrow> string \<Rightarrow> input" where
  "pod_input type name = \<lparr>in_Namespace = ''shop'', in_AgentRef = ''agent'', in_IncidentType = type, in_Severity = ''P2'',
     in_Summary = type, in_Reason = [], in_Message = type, in_DedupKey = name, in_ObservedAt = 5,
     in_Scope = \<lparr>sc_Level = ''Pod'', sc_Namespace = ''shop'', sc_WorkloadRef = None,
                 sc_ResourceRef = Some (mk_ref ''v1'' ''Pod'' ''shop'' name [])\<rparr>,
     in_AffectedResources = [], in_TraceID = [], in_FiredRule = []\<rparr>"

definition rollout_world :: mem_world where
  "rollout_world = web_world\<lparr>mw_pods := (\<lambda>ns name. Some ((web_pod name)\<lparr>pod_Controller :=
     Some \<lparr>ow_APIVersion = ''apps/v1'', ow_Kind = ''ReplicaSet'', ow_Name = take 7 name, ow_UID = []\<rparr>\<rparr>))\<rparr>"

theorem Enrich_coalesces_witness:
  "Fingerprint (Enrich mem_client rollout_world (pod_input ''OOMKilled'' ''web-rs1-a''))
     = Fingerprint (Enrich mem_client rollout_world (pod_input ''ProbeFailure'' ''web-rs2-b''))"
proof -
  have "pod_signal (pod_input ''OOMKilled'' ''web-rs1-a'') ''shop'' ''web-rs1-a''"
    "pod_signal (pod_input ''ProbeFailure'' ''web-rs2-b'') ''shop'' ''web-rs2-b''"
    by (simp_all add: pod_signal_def pod_input_def mk_ref_def)
  moreover have "deployment_pod mem_client rollout_world ''shop'' name ''web''" for name
    by (simp add: deployment_pod_def mem_client_def rollout_world_def web_world_def or_not_found_def web_pod_def)
  ultimately show ?thesis using Enrich_coalesces [of _ "''shop''" _ mem_client rollout_world "''web''"] by blast
qed

text \<open>C26.
  The loop that strips empty key-value fragments returns for every text, after at most as many passes
  as the text has characters, with a text in which the pattern matches nowhere; the stripped text is
  no longer than the original.
\<close>

theorem stripEmptyKV_ends:
  "\<exists>out k. strip_while s = Some out \<and> k \<le> length s \<and> out = (replace_kv True ^^ k) s \<and> empty_kv_free out
     \<and> stripEmptyKV s = trim_space (collapse_spaces False out) \<and> length (stripEmptyKV s) \<le> length s"
proof -
  obtain k where k: "k \<le> length s" "strip_loop s = (replace_kv True ^^ k) s" using strip_passes by blast
  have "empty_kv_free (strip_loop s)"
    using replace_kv_stable [OF strip_loop_stable [of s]] by (simp add: empty_kv_free_def)
  moreover have "length (stripEmptyKV s) \<le> length s"
    using strip_loop_length [of s] collapse_spaces_length [of False "strip_loop s"]
      length_trim_cut [of is_space "collapse_spaces False (strip_loop s)"]
    by (simp add: stripEmptyKV_def trim_space_def)
  ultimately show ?thesis
    using k strip_while_loop [of s] by (intro exI [of _ "strip_loop s"] exI [of _ k]) (simp add: stripEmptyKV_def)
qed

end
