(* ===== verification/Reporter.thy ===== *)
theory Reporter
  imports Incident Signals
begin

text \<open>
  The reporter of \<open>internal/reporter/cr_reporter.go\<close>, the only writer of \<open>IncidentReport\<close>
  resources in the signal path. Its environment \<open>E\<close> holds the code outside the repository: the
  Kubernetes client, SHA-1, the RFC 3339 codec of package \<open>time\<close> (which prints in the process's
  time zone) and whether an event recorder is attached. Its state is the world and the cache
  \<open>openByFingerprint\<close>. The clock \<open>r.Now\<close> is the argument \<open>now\<close> of a call.
\<close>

abbreviation AnnotationDedupKey :: string where
  "AnnotationDedupKey \<equiv> ''rca.rca-operator.tech/dedup-key''"
abbreviation AnnotationSignal :: string where
  "AnnotationSignal \<equiv> ''rca.rca-operator.tech/signal''"
abbreviation AnnotationLastSeen :: string where
  "AnnotationLastSeen \<equiv> ''rca.rca-operator.tech/last-seen''"
abbreviation AnnotationSignalSeen :: string where
  "AnnotationSignalSeen \<equiv> ''rca.rca-operator.tech/signal-count''"
abbreviation AnnotationTraceID :: string where
  "AnnotationTraceID \<equiv> ''rca.rca-operator.tech/trace-id''"
abbreviation AnnotationTraceIDs :: string where
  "AnnotationTraceIDs \<equiv> ''rca.rca-operator.tech/trace-ids''"
abbreviation AnnotationFiredRule :: string where
  "AnnotationFiredRule \<equiv> ''rca.rca-operator.tech/fired-rule''"
abbreviation LabelAgent :: string where
  "LabelAgent \<equiv> ''rca.rca-operator.tech/agent''"
abbreviation LabelSeverity :: string where
  "LabelSeverity \<equiv> ''rca.rca-operator.tech/severity''"
abbreviation LabelIncidentType :: string where
  "LabelIncidentType \<equiv> ''rca.rca-operator.tech/incident-type''"
abbreviation LabelPodName :: string where
  "LabelPodName \<equiv> ''rca.rca-operator.tech/pod''"
abbreviation LabelFingerprintHash :: string where
  "LabelFingerprintHash \<equiv> ''rca.rca-operator.tech/fingerprint-hash''"

definition SignalCooldown :: duration where
  "SignalCooldown = 300000000000"

definition ReopenWindow :: duration where
  "ReopenWindow = 1800000000000"

definition MaxSignalEntries :: nat where
  "MaxSignalEntries = 20"

definition MaxTraceIDEntries :: nat where
  "MaxTraceIDEntries = 20"

record 'w rep_env =
  re_client :: "'w kube"
  re_sha1 :: "string \<Rightarrow> string"
  re_format :: "gotime \<Rightarrow> string"
  re_parse :: "string \<Rightarrow> gotime option"
  re_recorder :: bool

record 'w rep_state =
  rp_world :: 'w
  rp_open :: "string \<rightharpoonup> string \<times> string"

datatype rep_error = RepError string kerr

section \<open>Pure helpers\<close>

definition truncateEventMessage :: "string \<Rightarrow> string" where
  "truncateEventMessage s =
     (if length s \<le> 1000 then s else take 1000 s @ truncated_marker)"

definition trace_separator :: "char \<Rightarrow> bool" where
  "trace_separator c \<longleftrightarrow> c = CHR '','' \<or> byte_of c \<in> {10, 13, 9, 32}"

fun dedup_ids :: "string list \<Rightarrow> string list \<Rightarrow> string list" where
  "dedup_ids seen [] = []"
| "dedup_ids seen (p # ps) =
     (let tid = trim_space p
      in if tid = [] \<or> tid \<in> set seen then dedup_ids seen ps
         else tid # dedup_ids (tid # seen) ps)"

definition parseTraceIDCSV :: "string \<Rightarrow> string list" where
  "parseTraceIDCSV s =
     (if trim_space s = [] then [] else dedup_ids [] (str_fields trace_separator s))"

definition mergeTraceIDList :: "string \<Rightarrow> string \<Rightarrow> string" where
  "mergeTraceIDList existingCSV incoming =
     (let incoming = trim_space incoming
      in if incoming = [] then trim_space existingCSV
         else let existing = parseTraceIDCSV existingCSV;
                  existing = (if incoming \<in> set existing then existing else existing @ [incoming]);
                  existing = (if MaxTraceIDEntries < length existing
                              then drop (length existing - MaxTraceIDEntries) existing else existing)
              in str_join '','' existing)"

definition applyDiagnosticAnnotations :: "(string \<rightharpoonup> string) \<Rightarrow> input \<Rightarrow> (string \<rightharpoonup> string)" where
  "applyDiagnosticAnnotations an i =
     (let an = (if in_TraceID i \<noteq> [] then
                  an(AnnotationTraceID \<mapsto> in_TraceID i,
                     AnnotationTraceIDs \<mapsto> mergeTraceIDList (map_get an AnnotationTraceIDs) (in_TraceID i))
                else if map_get an AnnotationTraceIDs = [] \<and> map_get an AnnotationTraceID \<noteq> [] then
                  an(AnnotationTraceIDs \<mapsto> map_get an AnnotationTraceID)
                else an)
      in if in_FiredRule i \<noteq> [] then an(AnnotationFiredRule \<mapsto> in_FiredRule i) else an)"

definition buildInitialAnnotations :: "(gotime \<Rightarrow> string) \<Rightarrow> input \<Rightarrow> gotime \<Rightarrow> (string \<rightharpoonup> string)" where
  "buildInitialAnnotations fmt i firstSeen =
     applyDiagnosticAnnotations
       [AnnotationSignal \<mapsto> in_Summary i, AnnotationDedupKey \<mapsto> in_DedupKey i,
        AnnotationLastSeen \<mapsto> fmt firstSeen, AnnotationSignalSeen \<mapsto> ''1''] i"

definition incidentAffectsPod :: "incident_report \<Rightarrow> string \<Rightarrow> string \<Rightarrow> bool" where
  "incidentAffectsPod report podName namespace =
     list_ex (\<lambda>r. ar_Kind r = ''Pod'' \<and> ar_Name r = podName \<and> ar_Namespace r = namespace)
       (st_AffectedResources (ir_Status report))"

definition isPodCurrentlyReady :: "pod \<Rightarrow> bool" where
  "isPodCurrentlyReady p \<longleftrightarrow>
     pod_Phase p = ''Running'' \<and>
     (case find (\<lambda>c. kc_Type c = ''Ready'') (pod_Conditions p) of
        None \<Rightarrow> False | Some c \<Rightarrow> kc_Status c = ''True'')"

definition trimSignals :: "string list \<Rightarrow> string list" where
  "trimSignals s = (if length s \<le> MaxSignalEntries then s else drop (length s - MaxSignalEntries) s)"

definition incrementCounter :: "string \<Rightarrow> string" where
  "incrementCounter current =
     (if current = [] then ''1''
      else case atoi current of
             None \<Rightarrow> ''1''
           | Some n \<Rightarrow> if n < 0 then ''1'' else itoa (wrap64 (n + 1)))"

definition severity_rank :: "string \<Rightarrow> nat" where
  "severity_rank s =
     (if s = ''P1'' then 4 else if s = ''P2'' then 3 else if s = ''P3'' then 2
      else if s = ''P4'' then 1 else 0)"

definition higherSeverity :: "string \<Rightarrow> string \<Rightarrow> string" where
  "higherSeverity current incoming =
     (if severity_rank current < severity_rank incoming then incoming
      else if current = [] then incoming else current)"

definition label_char :: "char \<Rightarrow> char" where
  "label_char r =
     (if is_lower r \<or> is_digit r \<or> r = CHR ''-'' \<or> r = CHR ''.'' \<or> r = CHR ''_'' then r
      else CHR ''-'')"

definition safeLabelValue :: "string \<Rightarrow> string" where
  "safeLabelValue s =
     (if s = [] then ''unknown''
      else let out = trim_cut (\<lambda>c. c = CHR ''-'' \<or> c = CHR ''.'' \<or> c = CHR ''_'')
                       (map label_char (to_lower s))
           in if out = [] then ''unknown'' else if 63 < length out then take 63 out else out)"

definition name_char :: "char \<Rightarrow> char" where
  "name_char r = (if is_lower r \<or> is_digit r \<or> r = CHR ''-'' then r else CHR ''-'')"

definition safeNameToken :: "string \<Rightarrow> string" where
  "safeNameToken s =
     (if s = [] then ''incident''
      else let out = trim_cut (\<lambda>c. c = CHR ''-'') (map name_char (to_lower s))
           in if out = [] then ''incident'' else out)"

definition primaryPodName :: "input \<Rightarrow> string" where
  "primaryPodName i =
     (case find (\<lambda>r. ar_Kind r = ''Pod'') (in_AffectedResources i) of
        Some r \<Rightarrow> ar_Name r
      | None \<Rightarrow> (case sc_ResourceRef (in_Scope i) of
                   Some ref \<Rightarrow> if or_Kind ref = ''Pod'' then or_Name ref else []
                 | None \<Rightarrow> []))"

definition primaryResourceName :: "input \<Rightarrow> string" where
  "primaryResourceName i =
     (case sc_WorkloadRef (in_Scope i) of
        Some ref \<Rightarrow> or_Name ref
      | None \<Rightarrow> (case sc_ResourceRef (in_Scope i) of
          Some ref \<Rightarrow> or_Name ref
        | None \<Rightarrow> (case in_AffectedResources i of r # _ \<Rightarrow> ar_Name r | [] \<Rightarrow> ''incident'')))"

section \<open>The fingerprint of a stored report\<close>

definition stripLegacyOTelFingerprintType :: "string \<Rightarrow> string" where
  "stripLegacyOTelFingerprintType fp =
     (case str_cut fp ''|type|OTel'' of Some head \<Rightarrow> head | None \<Rightarrow> fp)"

definition workload_kinds :: "string list" where
  "workload_kinds = [''Deployment'', ''StatefulSet'', ''DaemonSet'', ''Job'', ''CronJob'', ''ReplicaSet'']"

definition legacy_parts :: "incident_report \<Rightarrow> string list" where
  "legacy_parts report =
     (case find (\<lambda>r. ar_Kind r = ''Node'' \<or> ar_Kind r \<in> set workload_kinds \<or> ar_Kind r = ''Pod'')
             (st_AffectedResources (ir_Status report)) of
        Some r \<Rightarrow>
          if ar_Kind r = ''Node'' then [''Cluster'', ''node'', ar_Name r]
          else if ar_Kind r \<in> set workload_kinds
          then [''Workload'', ar_Namespace r, to_lower (ar_Kind r), ar_Name r]
          else [''Pod'', ar_Namespace r, ''pod'', ar_Name r]
      | None \<Rightarrow> if report_ns report \<noteq> [] then [''Namespace'', report_ns report] else [report_name report])"

definition reportFingerprint :: "incident_report \<Rightarrow> string" where
  "reportFingerprint report =
     (let sp = ir_Spec report
      in if sp_Fingerprint sp \<noteq> [] then
           (if IsOTelIncidentType (sp_IncidentType sp) \<or> IsOTelIncidentType (st_IncidentType (ir_Status report))
            then stripLegacyOTelFingerprintType (sp_Fingerprint sp) else sp_Fingerprint sp)
         else str_join ''|'' (scope_parts (sp_Scope sp) (legacy_parts report)))"

definition is_open :: "incident_report \<Rightarrow> bool" where
  "is_open r \<longleftrightarrow> report_phase r \<noteq> ''Resolved''"

definition reportMatchesWorkloadRef :: "incident_report \<Rightarrow> object_ref \<Rightarrow> string \<Rightarrow> bool" where
  "reportMatchesWorkloadRef report ref incoming =
     (let rtype = (if sp_IncidentType (ir_Spec report) = [] then st_IncidentType (ir_Status report)
                   else sp_IncidentType (ir_Spec report));
          same = (\<lambda>kind ns name. kind = or_Kind ref \<and> ns = or_Namespace ref \<and> name = or_Name ref)
      in if IsOTelIncidentType incoming \<and> \<not> IsOTelIncidentType rtype then False
         else (case sp_Scope (ir_Spec report) of s \<Rightarrow>
                 (case sc_WorkloadRef s of None \<Rightarrow> False
                  | Some r \<Rightarrow> same (or_Kind r) (or_Namespace r) (or_Name r)))
              \<or> list_ex (\<lambda>a. same (ar_Kind a) (ar_Namespace a) (ar_Name a))
                  (st_AffectedResources (ir_Status report)))"

section \<open>Updates of a report\<close>

text \<open>The pure parts of \<open>createIncident\<close>, \<open>updateActiveIncident\<close> and \<open>reopenIncident\<close>: the
  object that is sent, the metadata-and-spec patch and the status patch.\<close>

definition new_report :: "'w rep_env \<Rightarrow> input \<Rightarrow> string \<Rightarrow> string \<Rightarrow> incident_report" where
  "new_report E i fingerprint hash =
     \<lparr>ir_Meta = \<lparr>om_Name = [],
        om_GenerateName = to_lower (in_IncidentType i) @ ''-'' @ safeNameToken (primaryResourceName i) @ ''-'',
        om_Namespace = in_Namespace i,
        om_Labels = [LabelAgent \<mapsto> in_AgentRef i, LabelSeverity \<mapsto> in_Severity i,
                     LabelIncidentType \<mapsto> in_IncidentType i,
                     LabelPodName \<mapsto> safeLabelValue (primaryPodName i),
                     LabelFingerprintHash \<mapsto> hash],
        om_Annotations = buildInitialAnnotations (re_format E) i (in_ObservedAt i),
        om_CreationTimestamp = 0\<rparr>,
      ir_Spec = \<lparr>sp_AgentRef = in_AgentRef i, sp_Fingerprint = fingerprint,
                 sp_IncidentType = in_IncidentType i, sp_Scope = in_Scope i\<rparr>,
      ir_Status = zero_status\<rparr>"

definition new_status :: "input \<Rightarrow> report_status" where
  "new_status i =
     \<lparr>st_Severity = in_Severity i, st_Phase = ''Detecting'', st_IncidentType = in_IncidentType i,
      st_Summary = in_Summary i, st_Reason = in_Reason i, st_Message = in_Message i,
      st_FirstObservedAt = Some (in_ObservedAt i), st_ActiveAt = None,
      st_LastObservedAt = Some (in_ObservedAt i), st_StartTime = Some (in_ObservedAt i),
      st_ResolvedTime = None, st_ResolvedAt = None, st_SignalCount = 1,
      st_StabilizationWindowSeconds = 300, st_Notified = False,
      st_AffectedResources = in_AffectedResources i, st_CorrelatedSignals = [in_Summary i],
      st_Timeline = AppendTimeline [] (in_ObservedAt i) (in_Summary i), st_IncidentGraph = None\<rparr>"

definition targetIncidentType :: "incident_report \<Rightarrow> input \<Rightarrow> string" where
  "targetIncidentType report i =
     (let rtype = (if sp_IncidentType (ir_Spec report) = [] then st_IncidentType (ir_Status report)
                   else sp_IncidentType (ir_Spec report))
      in if IsOTelIncidentType rtype \<and> IsOTelIncidentType (in_IncidentType i)
            \<and> rtype \<noteq> [] \<and> rtype \<noteq> in_IncidentType i
         then rtype else in_IncidentType i)"

definition set_spec :: "string \<Rightarrow> string \<Rightarrow> input \<Rightarrow> report_spec \<Rightarrow> report_spec" where
  "set_spec fingerprint ttype i sp =
     sp\<lparr>sp_Fingerprint := fingerprint, sp_IncidentType := ttype, sp_Scope := in_Scope i\<rparr>"

text \<open>The signal-count annotation is back-filled before the patch base is copied.\<close>

definition backfill_count :: "incident_report \<Rightarrow> incident_report" where
  "backfill_count report =
     (if report_annotation report AnnotationSignalSeen = [] \<and> 0 < st_SignalCount (ir_Status report)
      then report\<lparr>ir_Meta := (ir_Meta report)\<lparr>om_Annotations :=
             (om_Annotations (ir_Meta report))(AnnotationSignalSeen \<mapsto> itoa (st_SignalCount (ir_Status report)))\<rparr>\<rparr>
      else report)"

definition update_meta ::
    "'w rep_env \<Rightarrow> input \<Rightarrow> string \<Rightarrow> string \<Rightarrow> incident_report \<Rightarrow> incident_report" where
  "update_meta E i fingerprint hash report =
     (let ttype = targetIncidentType report i; m = ir_Meta report; an = om_Annotations m
      in report\<lparr>ir_Meta := m\<lparr>
             om_Labels := (om_Labels m)(LabelSeverity \<mapsto> higherSeverity (map_get (om_Labels m) LabelSeverity) (in_Severity i),
                LabelIncidentType \<mapsto> ttype, LabelFingerprintHash \<mapsto> hash,
                LabelPodName \<mapsto> safeLabelValue (primaryPodName i)),
             om_Annotations := applyDiagnosticAnnotations
               (an(AnnotationSignal \<mapsto> in_Summary i, AnnotationDedupKey \<mapsto> in_DedupKey i,
                   AnnotationLastSeen \<mapsto> re_format E (in_ObservedAt i),
                   AnnotationSignalSeen \<mapsto> incrementCounter (map_get an AnnotationSignalSeen))) i\<rparr>,
           ir_Spec := set_spec fingerprint ttype i (ir_Spec report)\<rparr>)"

definition append_signal :: "string list \<Rightarrow> string \<Rightarrow> string list" where
  "append_signal sigs s = trimSignals (sigs @ [s])"

definition update_status :: "input \<Rightarrow> string \<Rightarrow> report_status \<Rightarrow> report_status" where
  "update_status i ttype s =
     s\<lparr>st_Severity := higherSeverity (st_Severity s) (in_Severity i), st_IncidentType := ttype,
       st_Summary := in_Summary i, st_Reason := in_Reason i, st_Message := in_Message i,
       st_LastObservedAt := Some (in_ObservedAt i), st_StartTime := st_FirstObservedAt s,
       st_SignalCount := wrap64 (st_SignalCount s + 1),
       st_Timeline := AppendTimeline (st_Timeline s) (in_ObservedAt i) (in_Summary i),
       st_CorrelatedSignals := append_signal (st_CorrelatedSignals s) (in_Summary i),
       st_AffectedResources := mergeAffectedResources (st_AffectedResources s) (in_AffectedResources i)\<rparr>"

definition reopen_meta ::
    "'w rep_env \<Rightarrow> input \<Rightarrow> string \<Rightarrow> string \<Rightarrow> incident_report \<Rightarrow> incident_report" where
  "reopen_meta E i fingerprint hash report =
     (let ttype = targetIncidentType report i; m = ir_Meta report; an = om_Annotations m
      in report\<lparr>ir_Meta := m\<lparr>
             om_Labels := (om_Labels m)(LabelSeverity \<mapsto> higherSeverity (map_get (om_Labels m) LabelSeverity) (in_Severity i),
                LabelIncidentType \<mapsto> ttype, LabelFingerprintHash \<mapsto> hash),
             om_Annotations := applyDiagnosticAnnotations
               (an(AnnotationLastSeen \<mapsto> re_format E (in_ObservedAt i),
                   AnnotationSignalSeen \<mapsto> incrementCounter (map_get an AnnotationSignalSeen),
                   AnnotationSignal \<mapsto> in_Summary i, AnnotationDedupKey \<mapsto> in_DedupKey i)) i\<rparr>,
           ir_Spec := set_spec fingerprint ttype i (ir_Spec report)\<rparr>)"

definition reopen_status :: "input \<Rightarrow> string \<Rightarrow> report_status \<Rightarrow> report_status" where
  "reopen_status i ttype s =
     s\<lparr>st_Phase := ''Detecting'', st_ResolvedTime := None, st_ResolvedAt := None, st_ActiveAt := None,
       st_FirstObservedAt := Some (in_ObservedAt i), st_LastObservedAt := Some (in_ObservedAt i),
       st_StartTime := Some (in_ObservedAt i),
       st_Severity := higherSeverity (st_Severity s) (in_Severity i), st_IncidentType := ttype,
       st_Summary := in_Summary i, st_Reason := in_Reason i, st_Message := in_Message i,
       st_SignalCount := (if st_SignalCount s \<le> 0 then 1 else wrap64 (st_SignalCount s + 1)),
       st_StabilizationWindowSeconds := 300,
       st_Timeline := AppendTimeline (st_Timeline s) (in_ObservedAt i)
                        (''Incident re-opened: '' @ in_Summary i),
       st_CorrelatedSignals := append_signal (st_CorrelatedSignals s) (in_Summary i),
       st_AffectedResources := mergeAffectedResources (st_AffectedResources s) (in_AffectedResources i)\<rparr>"

section \<open>Operations\<close>

type_synonym 'w rep_result = "rep_error option \<times> 'w rep_state"

definition observe :: "'w rep_env \<Rightarrow> observation list \<Rightarrow> 'w rep_state \<Rightarrow> 'w rep_state" where
  "observe E obs st = st\<lparr>rp_world := fold (\<lambda>ob w. k_observe (re_client E) w ob) obs (rp_world st)\<rparr>"

definition record_event :: "'w rep_env \<Rightarrow> string \<Rightarrow> string \<Rightarrow> string \<Rightarrow> observation list" where
  "record_event E reason action msg =
     (if re_recorder E then [KubeEvent ''Warning'' reason action (truncateEventMessage msg)] else [])"

definition createIncident ::
    "'w rep_env \<Rightarrow> input \<Rightarrow> string \<Rightarrow> string \<Rightarrow> 'w rep_state \<Rightarrow> 'w rep_result" where
  "createIncident E i fingerprint hash st =
     (case k_create_report (re_client E) (rp_world st) (new_report E i fingerprint hash) of
        (Inl err, w) \<Rightarrow> (Some (RepError ''failed to create IncidentReport'' err), st\<lparr>rp_world := w\<rparr>)
      | (Inr base, w) \<Rightarrow>
          (case k_patch_status (re_client E) w base (base\<lparr>ir_Status := new_status i\<rparr>) of
             (Inl err, w) \<Rightarrow>
               (Some (RepError ''failed to patch IncidentReport status'' err), st\<lparr>rp_world := w\<rparr>)
           | (Inr report, w) \<Rightarrow>
               (None, observe E (RecordIncidentDetecting (in_IncidentType i) (in_Severity i) #
                       record_event E ''IncidentDetected'' ''Detect''
                         (''New '' @ in_IncidentType i @ '' incident detected severity='' @ in_Severity i @
                          '': '' @ in_Summary i))
                     (st\<lparr>rp_world := w, rp_open := (rp_open st)(fingerprint \<mapsto> report_key report)\<rparr>))))"

text \<open>
  Updates and reopenings patch metadata and spec first, then the status of the object that the
  first patch returned; each patch has its error message.
\<close>

definition patch_both ::
    "'w rep_env \<Rightarrow> string \<Rightarrow> string \<Rightarrow> incident_report \<Rightarrow> incident_report \<Rightarrow>
       (report_status \<Rightarrow> report_status) \<Rightarrow> 'w \<Rightarrow> (rep_error + incident_report) \<times> 'w" where
  "patch_both E metaMsg statusMsg metaBase changed upd w =
     (case k_patch_report (re_client E) w metaBase changed of
        (Inl err, w) \<Rightarrow> (Inl (RepError metaMsg err), w)
      | (Inr report, w) \<Rightarrow>
          (case k_patch_status (re_client E) w report (report\<lparr>ir_Status := upd (ir_Status report)\<rparr>) of
             (Inl err, w) \<Rightarrow> (Inl (RepError statusMsg err), w)
           | (Inr report, w) \<Rightarrow> (Inr report, w)))"

definition updateActiveIncident ::
    "'w rep_env \<Rightarrow> incident_report \<Rightarrow> input \<Rightarrow> string \<Rightarrow> string \<Rightarrow> 'w rep_state \<Rightarrow> 'w rep_result" where
  "updateActiveIncident E report i fingerprint hash st0 =
     (let st = observe E [RecordSignalDeduplicated (in_IncidentType i)] st0;
          metaBase = backfill_count report
      in case patch_both E ''failed to patch IncidentReport metadata'' ''failed to patch IncidentReport status''
                metaBase (update_meta E i fingerprint hash metaBase)
                (update_status i (targetIncidentType report i)) (rp_world st) of
           (Inl err, w) \<Rightarrow> (Some err, st\<lparr>rp_world := w\<rparr>)
         | (Inr report, w) \<Rightarrow>
             (None, st\<lparr>rp_world := w, rp_open := (rp_open st)(fingerprint \<mapsto> report_key report)\<rparr>))"

definition reopenIncident ::
    "'w rep_env \<Rightarrow> incident_report \<Rightarrow> input \<Rightarrow> string \<Rightarrow> string \<Rightarrow> 'w rep_state \<Rightarrow> 'w rep_result" where
  "reopenIncident E report i fingerprint hash st =
     (case patch_both E ''failed to patch IncidentReport metadata on reopen''
             ''failed to patch IncidentReport status on reopen''
             report (reopen_meta E i fingerprint hash report)
             (reopen_status i (targetIncidentType report i)) (rp_world st) of
        (Inl err, w) \<Rightarrow> (Some err, st\<lparr>rp_world := w\<rparr>)
      | (Inr report, w) \<Rightarrow>
          (None, observe E (record_event E ''IncidentReopened'' ''Reopen''
                              (''Incident re-opened: '' @ in_Summary i))
             (st\<lparr>rp_world := w, rp_open := (rp_open st)(fingerprint \<mapsto> report_key report)\<rparr>)))"

text \<open>List by fingerprint hash, and by namespace only when no report carries the hash.\<close>

definition list_candidates ::
    "'w rep_env \<Rightarrow> 'w \<Rightarrow> string \<Rightarrow> string \<Rightarrow> string \<Rightarrow> string \<Rightarrow> rep_error + incident_report list" where
  "list_candidates E w msg fallbackMsg namespace hash =
     (case k_list_reports (re_client E) w (Some namespace) (Some (LabelFingerprintHash, hash)) of
        Inl err \<Rightarrow> Inl (RepError msg err)
      | Inr (r # rs) \<Rightarrow> Inr (r # rs)
      | Inr [] \<Rightarrow> (case k_list_reports (re_client E) w (Some namespace) None of
                     Inl err \<Rightarrow> Inl (RepError fallbackMsg err)
                   | Inr rs \<Rightarrow> Inr rs))"

definition findOpenIncident ::
    "'w rep_env \<Rightarrow> string \<Rightarrow> string \<Rightarrow> string \<Rightarrow> 'w rep_state \<Rightarrow>
       (rep_error + incident_report option) \<times> 'w rep_state" where
  "findOpenIncident E namespace fingerprint hash st =
     (let cached = (case rp_open st fingerprint of None \<Rightarrow> None
                    | Some (ns, name) \<Rightarrow>
                        (case k_get_report (re_client E) (rp_world st) ns name of
                           Inl _ \<Rightarrow> None
                         | Inr r \<Rightarrow> if is_open r \<and> reportFingerprint r = fingerprint then Some r else None))
      in case cached of
           Some r \<Rightarrow> (Inr (Some r), st)
         | None \<Rightarrow>
             (let st = st\<lparr>rp_open := (rp_open st)(fingerprint := None)\<rparr>
              in case list_candidates E (rp_world st) ''failed to list IncidentReports''
                        ''failed to list IncidentReports fallback'' namespace hash of
                   Inl err \<Rightarrow> (Inl err, st)
                 | Inr items \<Rightarrow>
                     (case find (\<lambda>r. is_open r \<and> reportFingerprint r = fingerprint) items of
                        None \<Rightarrow> (Inr None, st)
                      | Some r \<Rightarrow>
                          (Inr (Some r), st\<lparr>rp_open := (rp_open st)(fingerprint \<mapsto> report_key r)\<rparr>))))"

text \<open>The most recently resolved of the reports that \<open>ok\<close> admits; the first one wins a tie.\<close>

fun best_resolved ::
    "(incident_report \<Rightarrow> gotime \<Rightarrow> bool) \<Rightarrow> incident_report list \<Rightarrow> incident_report option \<Rightarrow>
       incident_report option" where
  "best_resolved ok [] best = best"
| "best_resolved ok (r # rs) best =
     (case EffectiveResolvedTime (ir_Status r) of
        None \<Rightarrow> best_resolved ok rs best
      | Some t \<Rightarrow>
          if \<not> ok r t then best_resolved ok rs best
          else best_resolved ok rs
            (case best of None \<Rightarrow> Some r
             | Some b \<Rightarrow> (case EffectiveResolvedTime (ir_Status b) of
                           None \<Rightarrow> Some b
                         | Some bt \<Rightarrow> if time_after t bt then Some r else Some b)))"

definition findResolvableIncident ::
    "'w rep_env \<Rightarrow> gotime \<Rightarrow> string \<Rightarrow> string \<Rightarrow> string \<Rightarrow> 'w rep_state \<Rightarrow>
       rep_error + incident_report option" where
  "findResolvableIncident E now namespace fingerprint hash st =
     (case list_candidates E (rp_world st) ''failed to list IncidentReports for reopen check''
             ''failed to list IncidentReports for reopen fallback'' namespace hash of
        Inl err \<Rightarrow> Inl err
      | Inr items \<Rightarrow>
          Inr (best_resolved (\<lambda>r t. \<not> is_open r \<and> reportFingerprint r = fingerprint
                                   \<and> \<not> ReopenWindow < time_sub now t) items None))"

definition findExistingByWorkloadRef ::
    "'w rep_env \<Rightarrow> input \<Rightarrow> 'w rep_state \<Rightarrow> rep_error + incident_report option" where
  "findExistingByWorkloadRef E i st =
     (case sc_WorkloadRef (in_Scope i) of
        None \<Rightarrow> Inr None
      | Some ref \<Rightarrow>
          if or_Name ref = [] then Inr None
          else (case k_list_reports (re_client E) (rp_world st) (Some (in_Namespace i)) None of
                  Inl err \<Rightarrow> Inl (RepError ''failed to list IncidentReports for workload-ref fallback'' err)
                | Inr items \<Rightarrow>
                    (let matching = filter (\<lambda>r. reportMatchesWorkloadRef r ref (in_IncidentType i)) items
                     in Inr (case find is_open matching of
                               Some r \<Rightarrow> Some r
                             | None \<Rightarrow> best_resolved (\<lambda>r t. \<not> is_open r) matching None))))"

definition normalize_input :: "gotime \<Rightarrow> input \<Rightarrow> input" where
  "normalize_input now i =
     (let i = (if in_AgentRef i = [] then i\<lparr>in_AgentRef := ''unknown-agent''\<rparr> else i);
          i = (if time_is_zero (in_ObservedAt i) then i\<lparr>in_ObservedAt := now\<rparr> else i);
          i = (if in_Summary i = []
               then i\<lparr>in_Summary := SummaryFromParts (in_IncidentType i) (in_Reason i) (in_Message i)\<rparr> else i)
      in if in_Message i = [] then i\<lparr>in_Message := in_Summary i\<rparr> else i)"

definition EnsureSignal :: "'w rep_env \<Rightarrow> gotime \<Rightarrow> input \<Rightarrow> 'w rep_state \<Rightarrow> 'w rep_result" where
  "EnsureSignal E now i0 st0 =
     (let i = normalize_input now i0;
          fingerprint = Fingerprint i;
          hash = FingerprintHash (re_sha1 E) fingerprint
      in case findOpenIncident E (in_Namespace i) fingerprint hash st0 of
           (Inl err, st) \<Rightarrow> (Some err, st)
         | (Inr (Some active), st) \<Rightarrow> updateActiveIncident E active i fingerprint hash st
         | (Inr None, st) \<Rightarrow>
             (case findResolvableIncident E now (in_Namespace i) fingerprint hash st of
                Inl err \<Rightarrow> (Some err, st)
              | Inr (Some resolved) \<Rightarrow> reopenIncident E resolved i fingerprint hash st
              | Inr None \<Rightarrow>
                  (case findExistingByWorkloadRef E i st of
                     Inl err \<Rightarrow> (Some err, st)
                   | Inr (Some existing) \<Rightarrow>
                       if \<not> is_open existing then reopenIncident E existing i fingerprint hash st
                       else updateActiveIncident E existing i fingerprint hash st
                   | Inr None \<Rightarrow> createIncident E i fingerprint hash st)))"

definition EnsureIncident ::
    "'w rep_env \<Rightarrow> gotime \<Rightarrow> string \<Rightarrow> string \<Rightarrow> string \<Rightarrow> string \<Rightarrow> string \<Rightarrow> string \<Rightarrow> string \<Rightarrow> gotime \<Rightarrow>
       'w rep_state \<Rightarrow> 'w rep_result" where
  "EnsureIncident E now namespace podName agentRef incidentType severity summary dedupKey occurredAt st =
     EnsureSignal E now
       \<lparr>in_Namespace = namespace, in_AgentRef = agentRef, in_IncidentType = incidentType,
        in_Severity = severity, in_Summary = summary, in_Reason = [], in_Message = summary,
        in_DedupKey = dedupKey, in_ObservedAt = occurredAt,
        in_Scope = \<lparr>sc_Level = ''Pod'', sc_Namespace = namespace, sc_WorkloadRef = None,
                    sc_ResourceRef = Some (mk_ref ''v1'' ''Pod'' namespace podName [])\<rparr>,
        in_AffectedResources = [mk_affected ''v1'' ''Pod'' namespace podName []],
        in_TraceID = [], in_FiredRule = []\<rparr> st"

section \<open>Resolution by pod lifecycle events\<close>

definition last_observed :: "'w rep_env \<Rightarrow> incident_report \<Rightarrow> gotime option" where
  "last_observed E report = (case st_LastObservedAt (ir_Status report) of
     Some t \<Rightarrow> Some t
   | None \<Rightarrow> (let seen = report_annotation report AnnotationLastSeen
             in if seen \<noteq> [] then re_parse E seen else None))"

definition in_cooldown :: "'w rep_env \<Rightarrow> gotime \<Rightarrow> incident_report \<Rightarrow> bool" where
  "in_cooldown E now report = (case last_observed E report of
     None \<Rightarrow> False | Some t \<Rightarrow> time_sub now t < SignalCooldown)"

text \<open>Resolve the listed reports that \<open>skip\<close> does not exclude, up to the first failing patch.\<close>

fun resolve_reports ::
    "'w rep_env \<Rightarrow> gotime \<Rightarrow> (incident_report \<Rightarrow> bool) \<Rightarrow> string \<Rightarrow> string \<Rightarrow> incident_report list \<Rightarrow>
       'w rep_state \<Rightarrow> 'w rep_result" where
  "resolve_reports E now skip reason msg [] st = (None, st)"
| "resolve_reports E now skip reason msg (r # rs) st =
     (if skip r then resolve_reports E now skip reason msg rs st
      else let (s', obs) = MarkResolved (ir_Status r) now reason; st = observe E obs st
           in case k_patch_status (re_client E) (rp_world st) r (r\<lparr>ir_Status := s'\<rparr>) of
                (Inl err, w) \<Rightarrow> (Some (RepError msg err), st\<lparr>rp_world := w\<rparr>)
              | (Inr _, w) \<Rightarrow> resolve_reports E now skip reason msg rs (st\<lparr>rp_world := w\<rparr>))"

definition ResolveForHealthyPod ::
    "'w rep_env \<Rightarrow> gotime \<Rightarrow> string \<Rightarrow> string \<Rightarrow> 'w rep_state \<Rightarrow> 'w rep_result" where
  "ResolveForHealthyPod E now namespace podName st =
     (case k_get_pod (re_client E) (rp_world st) namespace podName of
        Inl NotFound \<Rightarrow> (None, st)
      | Inl err \<Rightarrow> (Some (RepError ''failed to fetch pod for resolve check'' err), st)
      | Inr p \<Rightarrow>
          if \<not> isPodCurrentlyReady p then (None, st)
          else (case k_list_reports (re_client E) (rp_world st) (Some namespace) None of
                  Inl err \<Rightarrow> (Some (RepError ''failed to list IncidentReports for resolve'' err), st)
                | Inr items \<Rightarrow>
                    resolve_reports E now
                      (\<lambda>r. \<not> is_open r \<or> \<not> incidentAffectsPod r podName namespace \<or> in_cooldown E now r)
                      (''Pod '' @ podName @ '' became Running and Ready'')
                      ''failed to patch IncidentReport resolve status'' items st))"

definition ResolveForDeletedPod ::
    "'w rep_env \<Rightarrow> gotime \<Rightarrow> string \<Rightarrow> string \<Rightarrow> 'w rep_state \<Rightarrow> 'w rep_result" where
  "ResolveForDeletedPod E now namespace podName st =
     (case k_list_reports (re_client E) (rp_world st) (Some namespace) None of
        Inl err \<Rightarrow> (Some (RepError ''failed to list IncidentReports for deleted-pod resolve'' err), st)
      | Inr items \<Rightarrow>
          resolve_reports E now (\<lambda>r. \<not> is_open r \<or> \<not> incidentAffectsPod r podName namespace)
            (''Pod '' @ podName @ '' was deleted from the cluster'')
            ''failed to patch IncidentReport resolve status for deleted pod'' items st)"

section \<open>Consolidation at startup\<close>

text \<open>
  The groups of open reports, by namespace and fingerprint, in the order in which they are first
  seen: the key, the canonical report and the extras. Go visits the map \<open>groups\<close> in an
  unspecified order, which is the argument \<open>order\<close> of \<open>Consolidate\<close>.
\<close>

type_synonym report_group = "string \<times> incident_report \<times> incident_report list"

fun insert_group :: "string \<Rightarrow> incident_report \<Rightarrow> report_group list \<Rightarrow> report_group list" where
  "insert_group key item [] = [(key, item, [])]"
| "insert_group key item ((k, canonical, extras) # gs) =
     (if k = key then
        (if time_before (om_CreationTimestamp (ir_Meta item)) (om_CreationTimestamp (ir_Meta canonical))
         then (k, item, extras @ [canonical]) # gs
         else (k, canonical, extras @ [item]) # gs)
      else (k, canonical, extras) # insert_group key item gs)"

definition group_key :: "incident_report \<Rightarrow> string" where
  "group_key r = report_ns r @ ''/'' @ reportFingerprint r"

definition group_reports :: "incident_report list \<Rightarrow> report_group list" where
  "group_reports items =
     fold (\<lambda>item gs. if \<not> is_open item \<or> reportFingerprint item = [] then gs
                     else insert_group (group_key item) item gs) items []"

definition merge_extras :: "incident_report \<Rightarrow> incident_report list \<Rightarrow> incident_report" where
  "merge_extras canonical extras =
     canonical\<lparr>ir_Status := (ir_Status canonical)\<lparr>st_AffectedResources :=
       fold (\<lambda>extra rs. mergeAffectedResources rs (st_AffectedResources (ir_Status extra))) extras
         (st_AffectedResources (ir_Status canonical))\<rparr>\<rparr>"

text \<open>A failed patch is logged; the object in memory keeps the attempted change.\<close>

definition patch_logged ::
    "(kerr + incident_report) \<times> 'w \<Rightarrow> incident_report \<Rightarrow> 'w rep_state \<Rightarrow> incident_report \<times> 'w rep_state" where
  "patch_logged answer attempted st =
     (case answer of (Inl _, w) \<Rightarrow> (attempted, st\<lparr>rp_world := w\<rparr>)
      | (Inr r, w) \<Rightarrow> (r, st\<lparr>rp_world := w\<rparr>))"

definition backfill_fingerprint ::
    "'w rep_env \<Rightarrow> incident_report \<Rightarrow> 'w rep_state \<Rightarrow> incident_report \<times> 'w rep_state" where
  "backfill_fingerprint E canonical st =
     (if sp_Fingerprint (ir_Spec canonical) = []
      then let changed = canonical\<lparr>ir_Spec := (ir_Spec canonical)\<lparr>sp_Fingerprint := reportFingerprint canonical\<rparr>\<rparr>
           in patch_logged (k_patch_report (re_client E) (rp_world st) canonical changed) changed st
      else (canonical, st))"

definition merged_reason :: "string \<Rightarrow> string" where
  "merged_reason name = ''Merged into canonical incident '' @ name @ '' during startup consolidation''"

definition resolve_extra ::
    "'w rep_env \<Rightarrow> gotime \<Rightarrow> string \<Rightarrow> incident_report \<Rightarrow> 'w rep_state \<Rightarrow> 'w rep_state" where
  "resolve_extra E now canonicalName extra st =
     (let (s', obs) = MarkResolved (ir_Status extra) now (merged_reason canonicalName);
          st = observe E obs st;
          changed = extra\<lparr>ir_Status := s'\<rparr>
      in snd (patch_logged (k_patch_status (re_client E) (rp_world st) extra changed) changed st))"

definition consolidate_group ::
    "'w rep_env \<Rightarrow> gotime \<Rightarrow> report_group \<Rightarrow> 'w rep_state \<Rightarrow> 'w rep_state" where
  "consolidate_group E now g st =
     (let (key, canonical, extras) = g;
          st = st\<lparr>rp_open := (rp_open st)(reportFingerprint canonical \<mapsto> report_key canonical)\<rparr>;
          (canonical, st) = backfill_fingerprint E canonical st
      in if extras = [] then st
         else let changed = merge_extras canonical extras;
                  (canonical, st) = patch_logged
                    (k_patch_status (re_client E) (rp_world st) canonical changed) changed st
              in fold (resolve_extra E now (report_name canonical)) extras st)"

definition Consolidate ::
    "'w rep_env \<Rightarrow> (report_group list \<Rightarrow> report_group list) \<Rightarrow> gotime \<Rightarrow> 'w rep_state \<Rightarrow> 'w rep_result" where
  "Consolidate E order now st =
     (case k_list_reports (re_client E) (rp_world st) None None of
        Inl err \<Rightarrow> (Some (RepError ''consolidate incidents: list failed'' err), st)
      | Inr items \<Rightarrow> (None, fold (consolidate_group E now) (order (group_reports items)) st))"

section \<open>Lemmas on the helpers\<close>

interpretation signals: capped_log append_signal MaxSignalEntries
  by unfold_locales
    (auto simp: append_signal_def trimSignals_def MaxSignalEntries_def take_last_def)

lemma severity_rank_higher: "severity_rank (higherSeverity a b) = max (severity_rank a) (severity_rank b)"
  by (auto simp: higherSeverity_def severity_rank_def)

lemma incrementCounter_next:
  "0 \<le> n \<Longrightarrow> n < max_int64 \<Longrightarrow> incrementCounter (itoa n) = itoa (n + 1)"
  by (simp add: incrementCounter_def in_int64_def max_int64_def min_int64_def)

lemma atoi_one [simp]: "atoi ''1'' = Some 1"
  by code_simp

lemma incrementCounter_changes: "incrementCounter c \<noteq> c"
proof (cases "atoi c")
  case (Some n)
  have "in_int64 n" using Some by (rule atoi_in_range)
  then have "wrap64 (n + 1) \<noteq> n"
    by (cases "n = max_int64") (auto simp: wrap64_def in_int64_def max_int64_def min_int64_def)
  moreover have "atoi (itoa (wrap64 (n + 1))) = Some (wrap64 (n + 1))" by simp
  ultimately show ?thesis using Some by (auto simp: incrementCounter_def)
next
  case None
  then show ?thesis using atoi_one by (auto simp: incrementCounter_def simp del: atoi_one)
qed

text \<open>Trace ids: what the parser accepts, it prints and parses back.\<close>

definition trace_id_ok :: "string \<Rightarrow> bool" where
  "trace_id_ok t \<longleftrightarrow> t \<noteq> [] \<and> trim_space t = t \<and> list_all (\<lambda>c. \<not> trace_separator c) t"

lemma dedup_ids_spec:
  "distinct (dedup_ids seen ps) \<and> set (dedup_ids seen ps) = trim_space ` set ps - set seen - {[]}"
  by (induction ps arbitrary: seen) (auto simp: Let_def)

lemma dedup_ids_id:
  "distinct ids \<Longrightarrow> list_all trace_id_ok ids \<Longrightarrow> set ids \<inter> set seen = {} \<Longrightarrow> dedup_ids seen ids = ids"
  by (induction ids arbitrary: seen) (auto simp: trace_id_ok_def Let_def)

lemma parseTraceIDCSV_distinct: "distinct (parseTraceIDCSV s)"
  by (simp add: parseTraceIDCSV_def dedup_ids_spec)

lemma parseTraceIDCSV_ok: "list_all trace_id_ok (parseTraceIDCSV s)"
proof -
  have "trace_id_ok t" if "t \<in> trim_space ` set (str_fields trace_separator s)" "t \<noteq> []" for t
  proof -
    from that obtain f where f: "f \<in> set (str_fields trace_separator s)" "t = trim_space f" by auto
    then have "\<forall>c \<in> set f. \<not> trace_separator c" using str_fields_parts by blast
    then show ?thesis
      using f(2) that(2) set_trim_cut [of is_space f]
      by (auto simp: trace_id_ok_def trim_space_def list_all_iff)
  qed
  then show ?thesis
    using dedup_ids_spec [of "[]" "str_fields trace_separator s"]
    by (auto simp: parseTraceIDCSV_def list_all_iff)
qed

lemma trace_id_not_space: "trace_id_ok t \<Longrightarrow> \<exists>c \<in> set t. \<not> is_space c"
  using trim_cut_Nil [of is_space t] by (auto simp: trace_id_ok_def trim_space_def)

lemma set_str_join: "p \<in> set ps \<Longrightarrow> set p \<subseteq> set (str_join sep ps)"
  by (induction sep ps rule: str_join.induct) auto

lemma parse_join_ids:
  assumes "distinct ids" "list_all trace_id_ok ids"
  shows "parseTraceIDCSV (str_join '','' ids) = ids"
proof (cases "ids = []")
  case True
  then show ?thesis by (simp add: parseTraceIDCSV_def trim_space_def trim_cut_Nil)
next
  case False
  have sep: "trace_separator CHR '',''" by (simp add: trace_separator_def)
  have "str_fields trace_separator (str_join '','' ids) = ids"
    using assms(2) by (intro str_fields_join sep) (auto simp: trace_id_ok_def list_all_iff)
  moreover have "trim_space (str_join '','' ids) \<noteq> []"
  proof -
    from False assms(2) have "trace_id_ok (hd ids)" "hd ids \<in> set ids" by (auto simp: list_all_iff)
    with trace_id_not_space set_str_join [of "hd ids" ids "'',''"]
    show ?thesis by (force simp: trim_space_def trim_cut_Nil)
  qed
  ultimately show ?thesis
    using assms by (simp add: parseTraceIDCSV_def dedup_ids_id)
qed

lemma parse_mergeTraceIDList:
  assumes "trace_id_ok t"
  shows "parseTraceIDCSV (mergeTraceIDList csv t) =
    take_last MaxTraceIDEntries (let ids = parseTraceIDCSV csv in if t \<in> set ids then ids else ids @ [t])"
    (is "_ = take_last _ ?ids")
proof -
  have ok: "distinct ?ids" "list_all trace_id_ok ?ids"
    using assms parseTraceIDCSV_distinct parseTraceIDCSV_ok by (auto simp: Let_def)
  have "distinct (take_last MaxTraceIDEntries ?ids)" using ok(1) by (rule distinct_take_last)
  moreover have "list_all trace_id_ok (take_last MaxTraceIDEntries ?ids)"
    using ok(2) set_take_last by (force simp: list_all_iff)
  moreover have "mergeTraceIDList csv t = str_join '','' (take_last MaxTraceIDEntries ?ids)"
    using assms by (auto simp: mergeTraceIDList_def trace_id_ok_def Let_def take_last_drop)
  ultimately show ?thesis by (simp add: parse_join_ids)
qed

section \<open>Properties\<close>

text \<open>The trace-id annotation round-trips: parsing what \<open>mergeTraceIDList\<close> wrote gives back the ids
  that were there, in order and without repetition, with the new one appended if it was missing,
  cut to the twenty most recent.
\<close>

theorem mergeTraceIDList_log:
  assumes "trace_id_ok t"
  shows "parseTraceIDCSV (mergeTraceIDList csv t) =
      take_last 20 (if t \<in> set (parseTraceIDCSV csv) then parseTraceIDCSV csv else parseTraceIDCSV csv @ [t])
    \<and> distinct (parseTraceIDCSV csv)"
  using parse_mergeTraceIDList [OF assms, of csv] parseTraceIDCSV_distinct [of csv]
  by (simp add: MaxTraceIDEntries_def Let_def)

theorem mergeTraceIDList_log_witness:
  "parseTraceIDCSV (mergeTraceIDList ''a1, b2 a1'' ''c3'') = [''a1'', ''b2'', ''c3'']"
proof -
  have "trace_id_ok ''c3''" "parseTraceIDCSV ''a1, b2 a1'' = [''a1'', ''b2'']" by code_simp+
  with mergeTraceIDList_log [of "''c3''" "''a1, b2 a1''"] show ?thesis by simp
qed

end
