(* ===== verification/Reporter_Store.thy ===== *)
theory Reporter_Store
  imports Reporter
begin

text \<open>
  What the reporter guarantees of the stored reports when the API server keeps the laws of
  \<open>report_store\<close>: at most one open report per namespace and fingerprint, no report lost, no
  severity lowered, bounded logs, exact resolution, on every path, failed writes included.
\<close>

section \<open>The registry invariant\<close>

definition put_report :: "incident_report \<Rightarrow> incident_report set \<Rightarrow> incident_report set" where
  "put_report r S = insert r {x \<in> S. report_key x \<noteq> report_key r}"

definition rival :: "incident_report set \<Rightarrow> incident_report \<Rightarrow> string \<Rightarrow> incident_report \<Rightarrow> bool" where
  "rival S r fp x \<longleftrightarrow> x \<in> S \<and> report_key x \<noteq> report_key r \<and> is_open x \<and> report_ns x = report_ns r
     \<and> reportFingerprint x = fp"

definition unique_open :: "incident_report set \<Rightarrow> bool" where
  "unique_open S \<longleftrightarrow> (\<forall>r \<in> S. is_open r \<longrightarrow> (\<forall>x. \<not> rival S r (reportFingerprint r) x))"

definition hash_labelled :: "(string \<Rightarrow> string) \<Rightarrow> incident_report \<Rightarrow> bool" where
  "hash_labelled sha1 r \<longleftrightarrow>
     om_Labels (ir_Meta r) LabelFingerprintHash = Some (FingerprintHash sha1 (reportFingerprint r))"

definition registry_ok :: "(string \<Rightarrow> string) \<Rightarrow> incident_report set \<Rightarrow> bool" where
  "registry_ok sha1 S \<longleftrightarrow> unique_open S \<and> (\<forall>r \<in> S. is_open r \<longrightarrow> hash_labelled sha1 r)"

text \<open>
  A fingerprint that identifies a report: it is not empty and does not contain the marker
  \<^verbatim>\<open>|type|OTel\<close> at which \<open>stripLegacyOTelFingerprintType\<close> cuts the fingerprint of a stored
  telemetry report. The fingerprint of a signal about Kubernetes objects, whose names are lower case,
  is such (\<open>Fingerprint_identifiable\<close>). The names of services and workloads that telemetry carries
  are any text (\<open>applyOTelScopeOverrides\<close>): one that contains the marker has a fingerprint that does
  not identify it, and its reports are taken for those of another service (\<open>services_collide\<close>).
\<close>

definition identifiable :: "input \<Rightarrow> bool" where
  "identifiable i \<longleftrightarrow> Fingerprint i \<noteq> [] \<and> str_cut (Fingerprint i) ''|type|OTel'' = None"

lemma put_put [simp]: "report_key a = report_key b \<Longrightarrow> put_report a (put_report b S) = put_report a S"
  by (auto simp: put_report_def)

lemma in_put: "x \<in> put_report r S \<longleftrightarrow> x = r \<or> x \<in> S \<and> report_key x \<noteq> report_key r"
  by (auto simp: put_report_def)

lemma report_ns_key: "report_key a = report_key b \<Longrightarrow> report_ns a = report_ns b"
  by simp

lemma registry_put:
  assumes "registry_ok sha1 S"
    and "is_open r \<Longrightarrow> hash_labelled sha1 r \<and> (\<forall>x. \<not> rival S r (reportFingerprint r) x)"
  shows "registry_ok sha1 (put_report r S)"
proof -
  have "\<not> rival (put_report r S) a (reportFingerprint a) x" if a: "a \<in> put_report r S" "is_open a" for a x
  proof
    assume "rival (put_report r S) a (reportFingerprint a) x"
    then have x: "x = r \<or> x \<in> S \<and> report_key x \<noteq> report_key r" "report_key x \<noteq> report_key a" "is_open x"
      "report_ns x = report_ns a" "reportFingerprint x = reportFingerprint a"
      unfolding rival_def in_put by blast+
    consider "a = r" "x \<in> S" | "a \<in> S" "x = r" | "a \<in> S" "x \<in> S" using a x(1,2) unfolding in_put by blast
    then show False
    proof cases
      case 1
      then have "rival S r (reportFingerprint r) x" using x unfolding rival_def by simp
      with assms(2) 1 a show False by blast
    next
      case 2
      then have "rival S r (reportFingerprint r) a" using x a unfolding rival_def by auto
      with assms(2) 2 x show False by blast
    next
      case 3
      then have "rival S a (reportFingerprint a) x" using x unfolding rival_def by simp
      with assms(1) 3 a(2) show False unfolding registry_ok_def unique_open_def by blast
    qed
  qed
  moreover have "hash_labelled sha1 a" if "a \<in> put_report r S" "is_open a" for a
    using that assms unfolding registry_ok_def in_put by blast
  ultimately show ?thesis unfolding registry_ok_def unique_open_def by blast
qed

lemma rival_cong: "report_key a = report_key b \<Longrightarrow> rival S a fp x = rival S b fp x"
  by (simp add: rival_def)

lemma rival_put: "report_key b = report_key r \<Longrightarrow> rival (put_report b S) r fp x = rival S r fp x"
  by (auto simp: rival_def in_put)

lemma reportFingerprint_set:
  "fp \<noteq> [] \<Longrightarrow> str_cut fp ''|type|OTel'' = None \<Longrightarrow> sp_Fingerprint (ir_Spec r) = fp \<Longrightarrow>
     reportFingerprint r = fp"
  by (simp add: reportFingerprint_def Let_def stripLegacyOTelFingerprintType_def)

section \<open>Fingerprints of Kubernetes names\<close>

lemma str_cut_absent: "c \<in> set sep \<Longrightarrow> c \<notin> set s \<Longrightarrow> str_cut s sep = None"
proof (induction s)
  case (Cons a s)
  have "c \<notin> set (take (length sep) (a # s))" using Cons.prems(2) by (meson in_set_takeD)
  with Cons show ?case by (auto simp: has_prefix_def)
qed auto

definition lower_case :: "string \<Rightarrow> bool" where
  "lower_case s \<longleftrightarrow> list_all (\<lambda>c. \<not> is_upper c) s"

definition names_lower :: "incident_scope \<Rightarrow> bool" where
  "names_lower sc \<longleftrightarrow> lower_case (sc_Namespace sc)
     \<and> (case sc_WorkloadRef sc of None \<Rightarrow> True | Some r \<Rightarrow> lower_case (or_Name r))
     \<and> (case sc_ResourceRef sc of None \<Rightarrow> True | Some r \<Rightarrow> lower_case (or_Name r))"

lemma set_str_join_subset: "set (str_join sep ps) \<subseteq> set sep \<union> \<Union> (set ` set ps)"
  by (induction sep ps rule: str_join.induct) auto

lemma Fingerprint_identifiable:
  assumes "sc_Level (in_Scope i) \<in> {''Cluster'', ''Workload'', ''Namespace'', ''Pod''}"
    and "names_lower (in_Scope i)"
  shows "identifiable i"
proof -
  let ?ps = "scope_parts (in_Scope i) (ns_parts (in_Namespace i) @ ref_parts (sc_ResourceRef (in_Scope i)))"
  have O: "is_upper (CHR ''O'')" by (simp add: is_upper_def)
  have low: "CHR ''O'' \<notin> set (to_lower s)" for s using to_lower_no_upper [of "CHR ''O''" s] O by auto
  have nin: "lower_case s \<Longrightarrow> CHR ''O'' \<notin> set s" for s using O by (auto simp: lower_case_def list_all_iff)
  have "\<forall>p \<in> set ?ps. CHR ''O'' \<notin> set p"
    using assms by (auto simp: scope_parts_def ns_parts_def ref_parts_def names_lower_def low nin
        split: option.splits)
  then have "CHR ''O'' \<notin> set (Fingerprint i)"
    unfolding Fingerprint_def using set_str_join_subset [of "''|''" ?ps] by auto
  then have "str_cut (Fingerprint i) ''|type|OTel'' = None"
    by (rule str_cut_absent [rotated]) simp
  moreover have "Fingerprint i \<noteq> []"
  proof -
    have "hd ?ps \<noteq> []" "hd ?ps \<in> set ?ps" using assms(1) by (auto simp: scope_parts_def)
    then show ?thesis using set_str_join [of "hd ?ps" ?ps "''|''"] by (auto simp: Fingerprint_def)
  qed
  ultimately show ?thesis by (simp add: identifiable_def)
qed

section \<open>The abstract registry\<close>

text \<open>
  What one signal may do to the set of stored reports: nothing, evolve one report that has no
  rival for the fingerprint of the signal, or add one report where no open one has it.
\<close>

definition logs_bounded :: "incident_report \<Rightarrow> bool" where
  "logs_bounded r \<longleftrightarrow> length (st_Timeline (ir_Status r)) \<le> MaxTimelineEntries
     \<and> length (st_CorrelatedSignals (ir_Status r)) \<le> MaxSignalEntries"

definition evolves :: "(string \<Rightarrow> string) \<Rightarrow> string \<Rightarrow> incident_report \<Rightarrow> incident_report \<Rightarrow> bool" where
  "evolves sha1 fp r r' \<longleftrightarrow>
     report_key r' = report_key r \<and> sp_Fingerprint (ir_Spec r') = fp
     \<and> om_Labels (ir_Meta r') LabelFingerprintHash = Some (FingerprintHash sha1 fp)
     \<and> severity_rank (st_Severity (ir_Status r)) \<le> severity_rank (st_Severity (ir_Status r'))
     \<and> set (st_AffectedResources (ir_Status r)) \<subseteq> set (st_AffectedResources (ir_Status r'))
     \<and> (is_open r \<longrightarrow> report_phase r' = report_phase r)
     \<and> (\<not> is_open r \<longrightarrow> report_phase r' = ''Resolved'' \<or> report_phase r' = ''Detecting'')
     \<and> (logs_bounded r \<longrightarrow> logs_bounded r')"

inductive registry_step ::
    "(string \<Rightarrow> string) \<Rightarrow> string \<Rightarrow> string \<Rightarrow> incident_report set \<Rightarrow> incident_report set \<Rightarrow> bool"
  for sha1 ns fp where
  stay: "registry_step sha1 ns fp S S"
| evolve: "r \<in> S \<Longrightarrow> evolves sha1 fp r r' \<Longrightarrow> \<forall>x. \<not> rival S r fp x \<Longrightarrow>
    registry_step sha1 ns fp S (put_report r' S)"
| add: "\<forall>x \<in> S. report_key x \<noteq> report_key r' \<Longrightarrow>
    \<forall>x \<in> S. \<not> (is_open x \<and> report_ns x = ns \<and> reportFingerprint x = fp) \<Longrightarrow>
    report_ns r' = ns \<Longrightarrow> is_open r' \<Longrightarrow> sp_Fingerprint (ir_Spec r') = fp \<Longrightarrow>
    om_Labels (ir_Meta r') LabelFingerprintHash = Some (FingerprintHash sha1 fp) \<Longrightarrow> logs_bounded r' \<Longrightarrow>
    registry_step sha1 ns fp S (put_report r' S)"

lemma registry_step_ok:
  assumes "registry_step sha1 ns fp S S'" "registry_ok sha1 S" "fp \<noteq> []" "str_cut fp ''|type|OTel'' = None"
  shows "registry_ok sha1 S'"
  using assms(1)
proof (cases rule: registry_step.cases)
  case stay
  then show ?thesis using assms(2) by simp
next
  case (evolve r r')
  then have "reportFingerprint r' = fp" using reportFingerprint_set assms(3,4) by (simp add: evolves_def)
  moreover have "rival S r' fp x = rival S r fp x" for x
    using evolve by (intro rival_cong) (simp add: evolves_def)
  ultimately show ?thesis
    using evolve by (auto intro!: registry_put assms(2) simp: hash_labelled_def evolves_def simp del: prod.inject)
next
  case (add r')
  then have "reportFingerprint r' = fp" using reportFingerprint_set assms(3,4) by simp
  then show ?thesis
    using add by (auto intro!: registry_put assms(2) simp: hash_labelled_def rival_def)
qed

lemma registry_step_bounded:
  "registry_step sha1 ns fp S S' \<Longrightarrow> \<forall>r \<in> S. logs_bounded r \<Longrightarrow> \<forall>r \<in> S'. logs_bounded r"
  by (induction rule: registry_step.induct) (auto simp: in_put evolves_def)

lemma put_keys:
  assumes "r \<in> S" "report_key r' = report_key r"
  shows "report_key ` put_report r' S = report_key ` S"
proof -
  have "report_key r' \<in> report_key ` S" using assms by (intro image_eqI [of _ _ r]) simp_all
  then show ?thesis unfolding put_report_def by auto
qed

lemma registry_step_keys:
  assumes "registry_step sha1 ns fp S S'" "a \<in> S" "is_open a" "report_ns a = ns" "reportFingerprint a = fp"
  shows "report_key ` S' = report_key ` S"
  using assms(1)
proof (cases rule: registry_step.cases)
  case (evolve r r')
  then show ?thesis using put_keys [of r S r'] by (simp add: evolves_def)
qed (use assms in auto)

text \<open>No report is lost, lowered in severity, closed or stripped of affected resources.\<close>

definition outlives :: "incident_report \<Rightarrow> incident_report \<Rightarrow> bool" where
  "outlives r r' \<longleftrightarrow> report_key r' = report_key r
     \<and> severity_rank (st_Severity (ir_Status r)) \<le> severity_rank (st_Severity (ir_Status r'))
     \<and> set (st_AffectedResources (ir_Status r)) \<subseteq> set (st_AffectedResources (ir_Status r'))
     \<and> (is_open r \<longrightarrow> is_open r')"

lemma outlives_refl [simp]: "outlives r r"
  by (simp add: outlives_def)

lemma evolves_outlives: "evolves sha1 fp r r' \<Longrightarrow> outlives r r'"
  by (auto simp: evolves_def outlives_def is_open_def)

lemma registry_step_outlives:
  assumes "registry_step sha1 ns fp S S'" "a \<in> S" and uniq: "inj_on report_key S"
  shows "\<exists>a' \<in> S'. outlives a a'"
  using assms(1)
proof (cases rule: registry_step.cases)
  case (evolve r r')
  have key: "report_key r' = report_key r" and out: "outlives r r'"
    using evolve by (simp add: evolves_def, blast intro: evolves_outlives)
  show ?thesis
  proof (cases "report_key a = report_key r")
    case True
    then have "a = r" using uniq assms(2) evolve by (auto dest: inj_onD)
    then show ?thesis using out evolve(1) by (intro bexI [of _ r']) (simp_all add: in_put)
  next
    case False
    then have "a \<in> S'" using key assms(2) unfolding evolve(1) in_put by metis
    then show ?thesis by (intro bexI [of _ a]) simp_all
  qed
next
  case (add r')
  then have "a \<in> S'" using assms(2) by (simp add: in_put)
  then show ?thesis by (intro bexI [of _ a]) simp_all
qed (use assms(2) in \<open>auto intro: outlives_refl\<close>)

section \<open>The reporter on a lawful store\<close>

text \<open>The reports that the two patches of an update and of a reopening leave in the store.\<close>

definition with_meta :: "incident_report \<Rightarrow> incident_report \<Rightarrow> incident_report" where
  "with_meta m r = r\<lparr>ir_Meta := ir_Meta m, ir_Spec := ir_Spec m\<rparr>"

definition with_status :: "report_status \<Rightarrow> incident_report \<Rightarrow> incident_report" where
  "with_status s r = r\<lparr>ir_Status := stored_status s\<rparr>"

lemma with_meta_status [simp]:
  "ir_Status (with_meta m r) = ir_Status r" "ir_Meta (with_meta m r) = ir_Meta m"
  "ir_Spec (with_meta m r) = ir_Spec m" "ir_Status (with_status s r) = stored_status s"
  "ir_Meta (with_status s r) = ir_Meta r" "ir_Spec (with_status s r) = ir_Spec r"
  by (simp_all add: with_meta_def with_status_def)

lemma update_meta_fields [simp]:
  "om_Name (ir_Meta (update_meta E i fp h r)) = om_Name (ir_Meta r)"
  "om_Namespace (ir_Meta (update_meta E i fp h r)) = om_Namespace (ir_Meta r)"
  "sp_Fingerprint (ir_Spec (update_meta E i fp h r)) = fp"
  "om_Labels (ir_Meta (update_meta E i fp h r)) LabelFingerprintHash = Some h"
  by (simp_all add: update_meta_def set_spec_def Let_def)

lemma reopen_meta_fields [simp]:
  "om_Name (ir_Meta (reopen_meta E i fp h r)) = om_Name (ir_Meta r)"
  "om_Namespace (ir_Meta (reopen_meta E i fp h r)) = om_Namespace (ir_Meta r)"
  "sp_Fingerprint (ir_Spec (reopen_meta E i fp h r)) = fp"
  "om_Labels (ir_Meta (reopen_meta E i fp h r)) LabelFingerprintHash = Some h"
  by (simp_all add: reopen_meta_def set_spec_def Let_def)

lemma backfill_count_fields [simp]:
  "om_Name (ir_Meta (backfill_count r)) = om_Name (ir_Meta r)"
  "om_Namespace (ir_Meta (backfill_count r)) = om_Namespace (ir_Meta r)"
  "ir_Spec (backfill_count r) = ir_Spec r"
  by (simp_all add: backfill_count_def)

lemma diagnostic_keeps_count:
  "applyDiagnosticAnnotations an i AnnotationSignalSeen = an AnnotationSignalSeen"
  by (simp add: applyDiagnosticAnnotations_def Let_def)

lemma update_base_agrees: "base_agrees (backfill_count r) (update_meta E i fp h (backfill_count r)) r"
proof -
  have "om_Annotations (ir_Meta (update_meta E i fp h b)) AnnotationSignalSeen
          \<noteq> om_Annotations (ir_Meta b) AnnotationSignalSeen" for b
    using incrementCounter_changes
    by (auto simp: update_meta_def Let_def diagnostic_keeps_count map_get_def split: option.splits)
  then have "om_Annotations (ir_Meta (backfill_count r)) k = om_Annotations (ir_Meta r) k
    \<or> om_Annotations (ir_Meta (update_meta E i fp h (backfill_count r))) k
         \<noteq> om_Annotations (ir_Meta (backfill_count r)) k" for k
    by (cases "k = AnnotationSignalSeen") (auto simp: backfill_count_def)
  then show ?thesis by (simp add: base_agrees_def) (simp add: backfill_count_def)
qed

lemma base_agrees_refl [simp]: "base_agrees r m r"
  by (simp add: base_agrees_def)

lemma update_status_fields:
  "st_Phase (update_status i t s) = st_Phase s"
  "severity_rank (st_Severity s) \<le> severity_rank (st_Severity (update_status i t s))"
  "set (st_AffectedResources s) \<subseteq> set (st_AffectedResources (update_status i t s))"
  "length (st_Timeline (update_status i t s)) \<le> MaxTimelineEntries"
  "length (st_CorrelatedSignals (update_status i t s)) \<le> MaxSignalEntries"
  using merge_resources_prefix [of "st_AffectedResources s" "in_AffectedResources i"]
  by (auto simp: update_status_def severity_rank_higher AppendTimeline_bounded signals.length_append_le)

lemma reopen_status_fields:
  "st_Phase (reopen_status i t s) = ''Detecting''"
  "severity_rank (st_Severity s) \<le> severity_rank (st_Severity (reopen_status i t s))"
  "set (st_AffectedResources s) \<subseteq> set (st_AffectedResources (reopen_status i t s))"
  "length (st_Timeline (reopen_status i t s)) \<le> MaxTimelineEntries"
  "length (st_CorrelatedSignals (reopen_status i t s)) \<le> MaxSignalEntries"
  using merge_resources_prefix [of "st_AffectedResources s" "in_AffectedResources i"]
  by (auto simp: reopen_status_def severity_rank_higher AppendTimeline_bounded signals.length_append_le)

lemma update_evolves:
  assumes "is_open r"
  shows "evolves sha1 fp r (with_meta (update_meta E i fp (FingerprintHash sha1 fp) (backfill_count r)) r)"
    and "evolves sha1 fp r (with_status (update_status i t (ir_Status r))
           (with_meta (update_meta E i fp (FingerprintHash sha1 fp) (backfill_count r)) r))"
  using assms update_status_fields [where i = i and t = t and s = "ir_Status r"]
  by (simp_all add: evolves_def logs_bounded_def)

lemma reopen_evolves:
  assumes "\<not> is_open r"
  shows "evolves sha1 fp r (with_meta (reopen_meta E i fp (FingerprintHash sha1 fp) r) r)"
    and "evolves sha1 fp r (with_status (reopen_status i t (ir_Status r))
           (with_meta (reopen_meta E i fp (FingerprintHash sha1 fp) r) r))"
  using assms reopen_status_fields [where i = i and t = t and s = "ir_Status r"]
  by (simp_all add: evolves_def logs_bounded_def is_open_def)

text \<open>The report that a successful update or reopening leaves.\<close>

definition updated_report :: "'w rep_env \<Rightarrow> input \<Rightarrow> string \<Rightarrow> incident_report \<Rightarrow> incident_report" where
  "updated_report E i fp r =
     with_status (update_status i (targetIncidentType r i) (ir_Status r))
       (with_meta (update_meta E i fp (FingerprintHash (re_sha1 E) fp) (backfill_count r)) r)"

definition reopened_report :: "'w rep_env \<Rightarrow> input \<Rightarrow> string \<Rightarrow> incident_report \<Rightarrow> incident_report" where
  "reopened_report E i fp r =
     with_status (reopen_status i (targetIncidentType r i) (ir_Status r))
       (with_meta (reopen_meta E i fp (FingerprintHash (re_sha1 E) fp) r) r)"

context report_store
begin

lemma keys_inj: "inv w \<Longrightarrow> inj_on report_key (set (reports w))"
  using unique_keys [of w] by (simp add: keys_distinct_def distinct_map)

lemma replace_put: "inv w \<Longrightarrow> r \<in> set (reports w) \<Longrightarrow> report_key r' = report_key r \<Longrightarrow>
    set (replace_report r' (reports w)) = put_report r' (set (reports w))"
  using stored_lookup [of w r] by (simp add: set_replace_report put_report_def)

lemma patch_put:
  assumes "inv w" "r \<in> set (reports w)" "k_patch_report K w b m = (res, w')"
    and "base_agrees b m r" "report_key b = report_key r" "report_key m = report_key r"
  shows "inv w'" and "res = Inl e \<Longrightarrow> set (reports w') = set (reports w)"
    and "res = Inr r' \<Longrightarrow> r' = with_meta m r \<and> set (reports w') = put_report r' (set (reports w))"
  using assms stored_lookup [of w r] patch_failed [of w b m _ w'] patch_stored [of w b m _ w' r]
    replace_put [of w r "with_meta m r"]
  by (cases res; force simp: with_meta_def)+

lemma status_put:
  assumes "inv w" "r \<in> set (reports w)" "k_patch_status K w r (r\<lparr>ir_Status := s\<rparr>) = (res, w')"
  shows "inv w'" and "res = Inl e \<Longrightarrow> set (reports w') = set (reports w)"
    and "res = Inr r' \<Longrightarrow> r' = with_status s r \<and> set (reports w') = put_report r' (set (reports w))"
  using assms stored_lookup [of w r] patch_status_failed [of w r "r\<lparr>ir_Status := s\<rparr>" _ w']
    patch_status_stored [of w r "r\<lparr>ir_Status := s\<rparr>" _ w' r] replace_put [of w r "with_status s r"]
  by (cases res; force simp: with_status_def)+

end

definition resolved_report :: "gotime \<Rightarrow> string \<Rightarrow> incident_report \<Rightarrow> incident_report" where
  "resolved_report now reason r = with_status (fst (MarkResolved (ir_Status r) now reason)) r"

definition close_reports ::
    "gotime \<Rightarrow> string \<Rightarrow> incident_report set \<Rightarrow> incident_report set \<Rightarrow> incident_report set" where
  "close_reports now reason A S = (\<lambda>r. if r \<in> A then resolved_report now reason r else r) ` S"

lemma resolved_report_fields [simp]:
  "\<not> is_open (resolved_report now reason r)" "ir_Meta (resolved_report now reason r) = ir_Meta r"
  "ir_Spec (resolved_report now reason r) = ir_Spec r"
  by (simp_all add: resolved_report_def is_open_def)

lemma close_reports_empty [simp]: "close_reports now reason {} S = S"
  by (simp add: close_reports_def)

lemma close_reports_insert:
  assumes "inj_on report_key S" "r \<in> S" "A \<subseteq> S" "r \<notin> A"
  shows "close_reports now reason A (put_report (resolved_report now reason r) S) = close_reports now reason (insert r A) S"
proof -
  let ?q = "resolved_report now reason r" and ?f = "\<lambda>A r. if r \<in> A then resolved_report now reason r else r"
  have other: "{x \<in> S. report_key x \<noteq> report_key ?q} = S - {r}"
    using assms(1,2) by (auto dest: inj_onD)
  have q: "?q \<notin> A"
  proof
    assume "?q \<in> A"
    moreover from this have "?q \<in> S" using assms(3) by blast
    ultimately have "?q = r" using inj_onD [OF assms(1) _ _ assms(2), of ?q] by simp
    with \<open>?q \<in> A\<close> assms(4) show False by simp
  qed
  have "?f A ` (S - {r}) = ?f (insert r A) ` (S - {r})" by auto
  then show ?thesis
    using q assms(2) unfolding close_reports_def put_report_def other
    by (auto simp: insert_absorb)
qed

lemma registry_close: "registry_ok sha1 S \<Longrightarrow> registry_ok sha1 (close_reports now reason A S)"
proof -
  assume ok: "registry_ok sha1 S"
  have "x \<in> S" if "x \<in> close_reports now reason A S" "is_open x" for x
    using that by (auto simp: close_reports_def split: if_splits)
  then show ?thesis using ok unfolding registry_ok_def unique_open_def rival_def by blast
qed

lemma bounded_close: "\<forall>r \<in> S. logs_bounded r \<Longrightarrow> \<forall>r \<in> close_reports now reason A S. logs_bounded r"
  by (auto simp: close_reports_def resolved_report_def logs_bounded_def MarkResolved_timeline)

text \<open>The open reports that affect a pod, as far as a listing of the namespace shows them.\<close>

definition open_on_pod :: "string \<Rightarrow> string \<Rightarrow> incident_report set \<Rightarrow> incident_report set" where
  "open_on_pod ns podName S =
     {r \<in> S. (ns = [] \<or> report_ns r = ns) \<and> is_open r \<and> incidentAffectsPod r podName ns}"

definition deleted_reason :: "string \<Rightarrow> string" where
  "deleted_reason podName = ''Pod '' @ podName @ '' was deleted from the cluster''"

definition healthy_reason :: "string \<Rightarrow> string" where
  "healthy_reason podName = ''Pod '' @ podName @ '' became Running and Ready''"

lemma best_resolved_in:
  "best_resolved ok rs best = Some r \<Longrightarrow>
     best = Some r \<or> r \<in> set rs \<and> (\<exists>t. EffectiveResolvedTime (ir_Status r) = Some t \<and> ok r t)"
proof (induction ok rs best rule: best_resolved.induct)
  case (2 ok a rs best)
  then show ?case by (cases "EffectiveResolvedTime (ir_Status a)") (auto split: if_splits option.splits)
qed simp

lemma normalize_input_fields [simp]:
  "in_Scope (normalize_input now i) = in_Scope i" "in_Namespace (normalize_input now i) = in_Namespace i"
  "in_IncidentType (normalize_input now i) = in_IncidentType i"
  "Fingerprint (normalize_input now i) = Fingerprint i"
  by (simp_all add: normalize_input_def Let_def Fingerprint_def)

definition created_report :: "'w rep_env \<Rightarrow> input \<Rightarrow> string \<Rightarrow> string \<Rightarrow> gotime \<Rightarrow> incident_report" where
  "created_report E i fp name ts =
     (let r = new_report E i fp (FingerprintHash (re_sha1 E) fp)
      in with_status (new_status i) (r\<lparr>ir_Meta := (ir_Meta r)\<lparr>om_Name := name, om_CreationTimestamp := ts\<rparr>\<rparr>))"

text \<open>What the report holds after the signal \<open>i\<close> has been taken in.\<close>

definition carries :: "input \<Rightarrow> incident_report \<Rightarrow> bool" where
  "carries i r \<longleftrightarrow> is_open r \<and> sp_Fingerprint (ir_Spec r) = Fingerprint i
     \<and> sp_Scope (ir_Spec r) = in_Scope i
     \<and> st_Summary (ir_Status r) = in_Summary i \<and> st_Message (ir_Status r) = in_Message i
     \<and> st_LastObservedAt (ir_Status r) = stored_time_ptr (Some (in_ObservedAt i))
     \<and> last (st_CorrelatedSignals (ir_Status r)) = in_Summary i
     \<and> severity_rank (in_Severity i) \<le> severity_rank (st_Severity (ir_Status r))
     \<and> list_all (covers (st_AffectedResources (ir_Status r))) (in_AffectedResources i)"

lemma updated_carries: "is_open r \<Longrightarrow> carries i (updated_report E i (Fingerprint i) r)"
  by (auto simp: carries_def updated_report_def is_open_def update_status_def update_meta_def set_spec_def Let_def
      severity_rank_higher list_all_iff merge_resources_covers_new signals.last_append_new)

lemma reopened_carries: "carries i (reopened_report E i (Fingerprint i) r)"
  by (auto simp: carries_def reopened_report_def is_open_def reopen_status_def reopen_meta_def set_spec_def Let_def
      severity_rank_higher list_all_iff merge_resources_covers_new signals.last_append_new)

lemma created_carries: "carries i (created_report E i (Fingerprint i) name ts)"
  by (auto simp: carries_def created_report_def is_open_def new_status_def new_report_def Let_def
      list_all_iff covers_in_set)

lemma updated_key [simp]: "report_name (updated_report E i fp r) = report_name r"
    "report_ns (updated_report E i fp r) = report_ns r"
  by (simp_all add: updated_report_def)

lemma reopened_key [simp]: "report_name (reopened_report E i fp r) = report_name r"
    "report_ns (reopened_report E i fp r) = report_ns r"
  by (simp_all add: reopened_report_def)

locale reporter_store = report_store "re_client E" inv reports
  for E :: "'w rep_env" and inv :: "'w \<Rightarrow> bool" and reports :: "'w \<Rightarrow> incident_report list"
begin

text \<open>The two patches of an update or a reopening, from a stored report \<open>r\<close> without a rival.\<close>

lemma patch_both_effect:
  assumes w: "inv w" "r \<in> set (reports w)" and nr: "\<forall>x. \<not> rival (set (reports w)) r fp x"
    and b: "base_agrees b m r" "report_key b = report_key r"
    and ev: "evolves sha1 fp r (with_meta m r)" "evolves sha1 fp r (with_status (f (ir_Status r)) (with_meta m r))"
    and op: "patch_both E msg1 msg2 b m f w = (res, w')"
  shows "inv w' \<and> registry_step sha1 ns fp (set (reports w)) (set (reports w'))"
    and "res = Inr r' \<Longrightarrow> r' = with_status (f (ir_Status r)) (with_meta m r)
           \<and> set (reports w') = put_report r' (set (reports w)) \<and> report_key r' = report_key r"
proof -
  let ?S = "set (reports w)"
  have m: "report_key m = report_key r" using ev(1) by (simp add: evolves_def)
  obtain res1 w1 where p: "k_patch_report (re_client E) w b m = (res1, w1)" by force
  note p' = patch_put [OF w p b m]
  have "(inv w' \<and> registry_step sha1 ns fp ?S (set (reports w'))) \<and>
    (res = Inr r' \<longrightarrow> r' = with_status (f (ir_Status r)) (with_meta m r)
           \<and> set (reports w') = put_report r' ?S \<and> report_key r' = report_key r)"
  proof (cases res1)
    case (Inl e)
    with p'(1) p'(2) [OF Inl] op p show ?thesis
      by (auto simp: patch_both_def intro: registry_step.stay)
  next
    case (Inr r1)
    then have r1: "r1 = with_meta m r" "set (reports w1) = put_report r1 ?S" "r1 \<in> set (reports w1)"
      using p'(3) by (simp_all add: in_put)
    obtain res2 w2 where q: "k_patch_status (re_client E) w1 r1 (r1\<lparr>ir_Status := f (ir_Status r1)\<rparr>) = (res2, w2)"
      by force
    note q' = status_put [OF p'(1) r1(3) q]
    show ?thesis
    proof (cases res2)
      case (Inl e)
      with q'(1) q'(2) [OF Inl] op p q Inr r1 ev(1) w(2) nr show ?thesis
        by (auto simp: patch_both_def intro: registry_step.evolve)
    next
      case res2: (Inr r2)
      have r2: "r2 = with_status (f (ir_Status r)) (with_meta m r)" "set (reports w2) = put_report r2 ?S"
        using q'(3) [OF res2] r1 by (simp_all add: with_status_def)
      with q'(1) op p q Inr res2 ev(2) w(2) nr show ?thesis
        by (auto simp: patch_both_def evolves_def intro: registry_step.evolve)
    qed
  qed
  then show "inv w' \<and> registry_step sha1 ns fp ?S (set (reports w'))"
    and "res = Inr r' \<Longrightarrow> r' = with_status (f (ir_Status r)) (with_meta m r)
           \<and> set (reports w') = put_report r' ?S \<and> report_key r' = report_key r" by blast+
qed

lemma observe_keeps: "inv (rp_world st) \<Longrightarrow> inv (rp_world (observe E obs st))"
  "inv (rp_world st) \<Longrightarrow> reports (rp_world (observe E obs st)) = reports (rp_world st)"
  "rp_open (observe E obs st) = rp_open st"
  using observe_all [of "rp_world st" obs] by (simp_all add: observe_def)

lemma update_effect:
  assumes w: "inv (rp_world st)" "r \<in> set (reports (rp_world st))" "is_open r"
    and nr: "\<forall>x. \<not> rival (set (reports (rp_world st))) r fp x"
    and op: "updateActiveIncident E r i fp (FingerprintHash (re_sha1 E) fp) st = (res, st')"
  shows "inv (rp_world st') \<and>
      registry_step (re_sha1 E) ns fp (set (reports (rp_world st))) (set (reports (rp_world st')))"
    and "res = None \<Longrightarrow> set (reports (rp_world st')) = put_report (updated_report E i fp r) (set (reports (rp_world st)))
           \<and> rp_open st' fp = Some (report_key r)"
proof -
  define st1 where "st1 = observe E [RecordSignalDeduplicated (in_IncidentType i)] st"
  have 1: "inv (rp_world st1)" "reports (rp_world st1) = reports (rp_world st)"
    using observe_keeps w(1) by (simp_all add: st1_def)
  obtain res1 w1 where p: "patch_both E ''failed to patch IncidentReport metadata''
      ''failed to patch IncidentReport status'' (backfill_count r)
      (update_meta E i fp (FingerprintHash (re_sha1 E) fp) (backfill_count r))
      (update_status i (targetIncidentType r i)) (rp_world st1) = (res1, w1)" by force
  note eff = patch_both_effect [OF 1(1) _ _ update_base_agrees _ update_evolves [OF w(3)] p, unfolded 1(2), OF w(2) nr]
  have "rp_world st' = w1" using op p
    by (auto simp: updateActiveIncident_def Let_def st1_def split: sum.splits)
  with eff(1) show "inv (rp_world st') \<and>
      registry_step (re_sha1 E) ns fp (set (reports (rp_world st))) (set (reports (rp_world st')))" by simp
  assume "res = None"
  then obtain r' where "res1 = Inr r'" "rp_world st' = w1" "rp_open st' fp = Some (report_key r')"
    using op p by (auto simp: updateActiveIncident_def Let_def st1_def split: sum.splits)
  with eff(2) show "set (reports (rp_world st')) = put_report (updated_report E i fp r) (set (reports (rp_world st)))
           \<and> rp_open st' fp = Some (report_key r)" by (simp add: updated_report_def)
qed

lemma reopen_effect:
  assumes w: "inv (rp_world st)" "r \<in> set (reports (rp_world st))" "\<not> is_open r"
    and nr: "\<forall>x. \<not> rival (set (reports (rp_world st))) r fp x"
    and op: "reopenIncident E r i fp (FingerprintHash (re_sha1 E) fp) st = (res, st')"
  shows "inv (rp_world st') \<and>
      registry_step (re_sha1 E) ns fp (set (reports (rp_world st))) (set (reports (rp_world st')))"
    and "res = None \<Longrightarrow> set (reports (rp_world st')) = put_report (reopened_report E i fp r) (set (reports (rp_world st)))
           \<and> rp_open st' fp = Some (report_key r)"
proof -
  obtain res1 w1 where p: "patch_both E ''failed to patch IncidentReport metadata on reopen''
      ''failed to patch IncidentReport status on reopen'' r
      (reopen_meta E i fp (FingerprintHash (re_sha1 E) fp) r)
      (reopen_status i (targetIncidentType r i)) (rp_world st) = (res1, w1)" by force
  note eff = patch_both_effect [OF w(1,2) nr base_agrees_refl refl reopen_evolves [OF w(3)] p]
  have obs: "inv w \<Longrightarrow> inv (rp_world (observe E obs (st\<lparr>rp_world := w, rp_open := c\<rparr>))) \<and>
    reports (rp_world (observe E obs (st\<lparr>rp_world := w, rp_open := c\<rparr>))) = reports w" for w c obs
    using observe_keeps by simp
  show "inv (rp_world st') \<and>
      registry_step (re_sha1 E) ns fp (set (reports (rp_world st))) (set (reports (rp_world st')))"
    using op p eff(1) obs by (auto simp: reopenIncident_def split: sum.splits)
  assume "res = None"
  then obtain r' where "res1 = Inr r'" using op p by (auto simp: reopenIncident_def split: sum.splits)
  with eff op p obs show "set (reports (rp_world st')) = put_report (reopened_report E i fp r) (set (reports (rp_world st)))
           \<and> rp_open st' fp = Some (report_key r)"
    by (auto simp: reopenIncident_def reopened_report_def observe_keeps(3))
qed

lemma create_effect:
  assumes w: "inv (rp_world st)"
    and none: "\<forall>x \<in> set (reports (rp_world st)). \<not> (is_open x \<and> report_ns x = in_Namespace i \<and> reportFingerprint x = fp)"
    and op: "createIncident E i fp (FingerprintHash (re_sha1 E) fp) st = (res, st')"
  shows "inv (rp_world st') \<and> registry_step (re_sha1 E) (in_Namespace i) fp
           (set (reports (rp_world st))) (set (reports (rp_world st')))"
    and "res = None \<Longrightarrow> \<exists>name ts. let r' = created_report E i fp name ts in
           set (reports (rp_world st')) = put_report r' (set (reports (rp_world st)))
           \<and> (\<forall>x \<in> set (reports (rp_world st)). report_key x \<noteq> report_key r') \<and> rp_open st' fp = Some (report_key r')"
proof -
  let ?h = "FingerprintHash (re_sha1 E) fp" and ?S = "set (reports (rp_world st))"
  obtain res1 w1 where p: "k_create_report (re_client E) (rp_world st) (new_report E i fp ?h) = (res1, w1)" by force
  have "(inv (rp_world st') \<and> registry_step (re_sha1 E) (in_Namespace i) fp ?S (set (reports (rp_world st')))) \<and>
    (res = None \<longrightarrow> (\<exists>name ts. let r' = created_report E i fp name ts in
           set (reports (rp_world st')) = put_report r' ?S
           \<and> (\<forall>x \<in> ?S. report_key x \<noteq> report_key r') \<and> rp_open st' fp = Some (report_key r')))"
  proof (cases res1)
    case (Inl e)
    then show ?thesis using op p create_failed [OF w, of "new_report E i fp ?h" e w1]
      by (auto simp: createIncident_def intro: registry_step.stay)
  next
    case (Inr b)
    from create_stored [OF w, of "new_report E i fp ?h" b w1] p Inr obtain name ts where
      w1: "inv w1" "lookup_report (reports (rp_world st)) (report_key b) = None"
        "set (reports w1) = insert b ?S"
      and b: "b = (new_report E i fp ?h)\<lparr>ir_Meta := (ir_Meta (new_report E i fp ?h))\<lparr>om_Name := name,
                om_CreationTimestamp := ts\<rparr>, ir_Status := zero_status\<rparr>" by auto
    have fresh: "\<forall>x \<in> ?S. report_key x \<noteq> report_key b" using w1(2) by (simp add: lookup_report_def find_None_iff)
    then have S1: "set (reports w1) = put_report b ?S" using w1(3) by (auto simp: put_report_def)
    obtain res2 w2 where q: "k_patch_status (re_client E) w1 b (b\<lparr>ir_Status := new_status i\<rparr>) = (res2, w2)" by force
    have "b \<in> set (reports w1)" using w1(3) by simp
    note q' = status_put [OF w1(1) this q]
    have b_add: "registry_step (re_sha1 E) (in_Namespace i) fp ?S (put_report b ?S)"
      using fresh none by (intro registry_step.add)
        (simp_all add: b new_report_def is_open_def logs_bounded_def zero_status_def)
    show ?thesis
    proof (cases res2)
      case (Inl e)
      with q'(1) q'(2) [OF Inl] op p q Inr S1 b_add show ?thesis by (auto simp: createIncident_def)
    next
      case res2: (Inr r2)
      have r2: "r2 = created_report E i fp name ts" "set (reports w2) = put_report r2 ?S"
        using q'(3) [OF res2] S1
        by (simp_all add: created_report_def with_status_def b Let_def new_report_def)
      have key: "report_key r2 = report_key b" by (simp add: r2(1) b created_report_def Let_def)
      have step: "registry_step (re_sha1 E) (in_Namespace i) fp ?S (put_report r2 ?S)"
        using fresh none key by (intro registry_step.add)
          (simp_all add: r2(1) created_report_def Let_def new_report_def new_status_def is_open_def
            logs_bounded_def MaxSignalEntries_def AppendTimeline_bounded)
      have "inv (rp_world st') \<and> reports (rp_world st') = reports w2 \<and> rp_open st' fp = Some (report_key r2)"
        using q'(1) op p q Inr res2 observe_keeps(1,2) [of "st\<lparr>rp_world := w2, rp_open := c\<rparr>" for c]
        by (auto simp: createIncident_def observe_keeps(3))
      with r2 key fresh step show ?thesis
        unfolding Let_def by (intro conjI impI exI [of _ name] exI [of _ ts]) simp_all
    qed
  qed
  then show "inv (rp_world st') \<and> registry_step (re_sha1 E) (in_Namespace i) fp ?S (set (reports (rp_world st')))"
    and "res = None \<Longrightarrow> \<exists>name ts. let r' = created_report E i fp name ts in
           set (reports (rp_world st')) = put_report r' ?S
           \<and> (\<forall>x \<in> ?S. report_key x \<noteq> report_key r') \<and> rp_open st' fp = Some (report_key r')" by blast+
qed

lemma candidates_in:
  "inv w \<Longrightarrow> list_candidates E w m1 m2 ns h = Inr items \<Longrightarrow> r \<in> set items \<Longrightarrow>
     r \<in> set (reports w) \<and> (ns = [] \<or> report_ns r = ns)"
  using list_in [of w "Some ns" "Some (LabelFingerprintHash, h)"] list_in [of w "Some ns" None]
  by (fastforce simp: list_candidates_def matches_selector_def split: sum.splits list.splits)

lemma candidates_complete:
  "inv w \<Longrightarrow> list_candidates E w m1 m2 ns h = Inr items \<Longrightarrow> r \<in> set (reports w) \<Longrightarrow>
     ns = [] \<or> report_ns r = ns \<Longrightarrow> om_Labels (ir_Meta r) LabelFingerprintHash = Some h \<Longrightarrow> r \<in> set items"
  using list_stored [of w "Some ns" "Some (LabelFingerprintHash, h)"]
  by (fastforce simp: list_candidates_def matches_selector_def split: sum.splits list.splits)

lemma find_open_effect:
  assumes "inv (rp_world st)" "registry_ok (re_sha1 E) (set (reports (rp_world st)))"
    and "findOpenIncident E ns fp (FingerprintHash (re_sha1 E) fp) st = (res, st')"
  shows "rp_world st' = rp_world st"
    and "res = Inr (Some r) \<Longrightarrow> r \<in> set (reports (rp_world st)) \<and> is_open r \<and> reportFingerprint r = fp"
    and "res = Inr None \<Longrightarrow> x \<in> set (reports (rp_world st)) \<Longrightarrow> ns = [] \<or> report_ns x = ns \<Longrightarrow>
           \<not> (is_open x \<and> reportFingerprint x = fp)"
proof -
  show "rp_world st' = rp_world st" using assms(3)
    by (auto simp: findOpenIncident_def Let_def split: option.splits sum.splits if_splits)
  have get: "k_get_report (re_client E) (rp_world st) n m = Inr r \<Longrightarrow> r \<in> set (reports (rp_world st))" for n m r
    using get_stored [OF assms(1)] lookup_reportD by blast
  show "r \<in> set (reports (rp_world st)) \<and> is_open r \<and> reportFingerprint r = fp" if "res = Inr (Some r)"
    using assms(3) that candidates_in [OF assms(1)] get
    by (auto simp: findOpenIncident_def Let_def dest!: find_SomeD split: option.splits sum.splits if_splits)
  assume none: "res = Inr None" and x: "x \<in> set (reports (rp_world st))" "ns = [] \<or> report_ns x = ns"
  show "\<not> (is_open x \<and> reportFingerprint x = fp)"
  proof
    assume o: "is_open x \<and> reportFingerprint x = fp"
    then have "om_Labels (ir_Meta x) LabelFingerprintHash = Some (FingerprintHash (re_sha1 E) fp)"
      using assms(2) x(1) by (auto simp: registry_ok_def hash_labelled_def)
    then show False using candidates_complete [OF assms(1) _ x] assms(3) none o
      by (auto simp: findOpenIncident_def Let_def dest!: find_NoneD split: option.splits sum.splits if_splits)
  qed
qed

lemma find_resolvable_effect:
  assumes "inv (rp_world st)" "findResolvableIncident E now ns fp h st = Inr (Some r)"
  shows "r \<in> set (reports (rp_world st)) \<and> (ns = [] \<or> report_ns r = ns) \<and> \<not> is_open r"
proof -
  from assms(2) obtain items where "list_candidates E (rp_world st) ''failed to list IncidentReports for reopen check''
      ''failed to list IncidentReports for reopen fallback'' ns h = Inr items" "r \<in> set items" "\<not> is_open r"
    by (auto simp: findResolvableIncident_def dest!: best_resolved_in split: sum.splits)
  then show ?thesis using candidates_in [OF assms(1)] by blast
qed

lemma find_existing_effect:
  assumes "inv (rp_world st)" "findExistingByWorkloadRef E i st = Inr (Some r)"
  shows "r \<in> set (reports (rp_world st)) \<and> (in_Namespace i = [] \<or> report_ns r = in_Namespace i)"
proof -
  from assms(2) obtain items where
    "k_list_reports (re_client E) (rp_world st) (Some (in_Namespace i)) None = Inr items" "r \<in> set items"
    by (auto simp: findExistingByWorkloadRef_def Let_def
        dest!: best_resolved_in find_SomeD split: sum.splits option.splits if_splits)
  then show ?thesis using list_in [OF assms(1)] by (fastforce simp: matches_selector_def)
qed

lemma no_open_no_rival:
  assumes "\<And>x. x \<in> S \<Longrightarrow> ns = [] \<or> report_ns x = ns \<Longrightarrow> \<not> (is_open x \<and> reportFingerprint x = fp)"
    and "ns = [] \<or> report_ns r = ns"
  shows "\<forall>x. \<not> rival S r fp x"
  using assms by (auto simp: rival_def)

text \<open>Every path of \<open>EnsureSignal\<close> is a step of the abstract registry.\<close>

lemma ensure_effect:
  assumes w: "inv (rp_world st)" and reg: "registry_ok (re_sha1 E) (set (reports (rp_world st)))"
    and op: "EnsureSignal E now i st = (res, st')"
  shows "inv (rp_world st') \<and> registry_step (re_sha1 E) (in_Namespace i) (Fingerprint i)
            (set (reports (rp_world st))) (set (reports (rp_world st')))"
    and "res = None \<Longrightarrow> \<exists>r \<in> set (reports (rp_world st')). carries (normalize_input now i) r
           \<and> rp_open st' (Fingerprint i) = Some (report_key r)"
proof -
  let ?i = "normalize_input now i" and ?fp = "Fingerprint i" and ?S = "set (reports (rp_world st))"
  let ?h = "FingerprintHash (re_sha1 E) ?fp"
  let ?goal = "(inv (rp_world st') \<and> registry_step (re_sha1 E) (in_Namespace i) ?fp ?S (set (reports (rp_world st'))))
    \<and> (res = None \<longrightarrow> (\<exists>r \<in> set (reports (rp_world st')). carries ?i r \<and> rp_open st' ?fp = Some (report_key r)))"
  obtain found st1 where f: "findOpenIncident E (in_Namespace i) ?fp ?h st = (found, st1)" by force
  note f' = find_open_effect [OF w reg f]
  have w1: "inv (rp_world st1)" "rp_world st1 = rp_world st" using w f'(1) by simp_all
  have upd: ?goal if "updateActiveIncident E r ?i ?fp ?h st1 = (res, st')" "r \<in> ?S" "is_open r"
      "\<forall>x. \<not> rival ?S r ?fp x" for r
    using update_effect(1) [OF w1(1), of r ?fp ?i res st' "in_Namespace i"]
      update_effect(2) [OF w1(1), of r ?fp ?i res st'] that w1(2) updated_carries [of r ?i E]
    by (auto simp: in_put intro!: bexI [of _ "updated_report E ?i ?fp r"])
  have reo: ?goal if "reopenIncident E r ?i ?fp ?h st1 = (res, st')" "r \<in> ?S" "\<not> is_open r"
      "\<forall>x. \<not> rival ?S r ?fp x" for r
    using reopen_effect(1) [OF w1(1), of r ?fp ?i res st' "in_Namespace i"]
      reopen_effect(2) [OF w1(1), of r ?fp ?i res st'] that w1(2) reopened_carries [of ?i E r]
    by (auto simp: in_put intro!: bexI [of _ "reopened_report E ?i ?fp r"])
  have cre: ?goal if "createIncident E ?i ?fp ?h st1 = (res, st')" "found = Inr None"
    using create_effect [OF w1(1), of ?i ?fp res st'] f'(3) [OF that(2)] that w1(2) created_carries [of ?i E]
    by (fastforce simp: in_put Let_def)
  have err: ?goal if "st' = st1" "res \<noteq> None" using that w1 by (auto intro: registry_step.stay)
  have ?goal
  proof (cases "\<exists>e. found = Inl e")
    case True
    then show ?thesis using err op f by (auto simp: EnsureSignal_def Let_def)
  next
    case False
    then consider (some) r where "found = Inr (Some r)" | (none) "found = Inr None"
      by (metis option.exhaust sumE)
    then show ?thesis
    proof cases
      case some
      then have "updateActiveIncident E r ?i ?fp ?h st1 = (res, st')" using op f by (simp add: EnsureSignal_def Let_def)
      moreover have "r \<in> ?S" "is_open r" "reportFingerprint r = ?fp" using f'(2) some by simp_all
      ultimately show ?thesis using upd reg by (auto simp: registry_ok_def unique_open_def)
    next
      case none
      note nr = no_open_no_rival [of ?S "in_Namespace i" ?fp, OF f'(3) [OF none]]
      show ?thesis
        using op f none err cre
          find_resolvable_effect [OF w1(1), of now "in_Namespace i" ?fp ?h]
          find_existing_effect [OF w1(1), of ?i] upd reo nr w1(2)
        by (auto simp: EnsureSignal_def Let_def split: sum.splits option.splits if_splits)
    qed
  qed
  then show "inv (rp_world st') \<and> registry_step (re_sha1 E) (in_Namespace i) ?fp ?S (set (reports (rp_world st')))"
    and "res = None \<Longrightarrow> \<exists>r \<in> set (reports (rp_world st')). carries ?i r \<and> rp_open st' ?fp = Some (report_key r)"
    by blast+
qed

lemma resolve_effect:
  assumes "inv (rp_world st)" "set items \<subseteq> set (reports (rp_world st))" "distinct items"
    and "resolve_reports E now skip reason msg items st = (res, st')"
  shows "inv (rp_world st') \<and> (\<exists>n. set (reports (rp_world st')) =
      close_reports now reason (set (filter (\<lambda>r. \<not> skip r) (take n items))) (set (reports (rp_world st)))
      \<and> (res = None \<longrightarrow> n = length items))"
  using assms
proof (induction items arbitrary: st)
  case (Cons r items)
  show ?case
  proof (cases "skip r")
    case True
    then have "resolve_reports E now skip reason msg items st = (res, st')" using Cons.prems(4) by simp
    from Cons.IH [OF Cons.prems(1) _ _ this] Cons.prems(2,3) obtain n where "inv (rp_world st')"
      "set (reports (rp_world st')) = close_reports now reason
        (set (filter (\<lambda>r. \<not> skip r) (take n items))) (set (reports (rp_world st)))" "res = None \<longrightarrow> n = length items"
      by auto
    with True show ?thesis by (intro conjI exI [of _ "Suc n"]) simp_all
  next
    case False
    let ?S = "set (reports (rp_world st))"
    obtain s' obs where m: "MarkResolved (ir_Status r) now reason = (s', obs)" by force
    define st1 where "st1 = observe E obs st"
    have 1: "inv (rp_world st1)" "reports (rp_world st1) = reports (rp_world st)"
      using observe_keeps Cons.prems(1) by (simp_all add: st1_def)
    obtain res1 w1 where p: "k_patch_status (re_client E) (rp_world st1) r (r\<lparr>ir_Status := s'\<rparr>) = (res1, w1)" by force
    note p' = status_put [OF 1(1) _ p, unfolded 1(2)]
    show ?thesis
    proof (cases res1)
      case (Inl e)
      then show ?thesis using p' Cons.prems False m p
        by (auto simp: st1_def [symmetric] intro!: exI [of _ 0])
    next
      case (Inr r1)
      have S1: "r \<in> ?S" "set (reports w1) = put_report (resolved_report now reason r) ?S" "inv w1"
        using p'(1,3) Cons.prems(2) Inr m by (simp_all add: resolved_report_def)
      have other: "set items \<subseteq> set (reports w1)"
      proof
        fix x assume x: "x \<in> set items"
        then have "x \<in> ?S" "x \<noteq> r" using Cons.prems(2,3) by auto
        then have "report_key x \<noteq> report_key r" using inj_onD [OF keys_inj [OF Cons.prems(1)] _ _ S1(1), of x] by blast
        then show "x \<in> set (reports w1)" using \<open>x \<in> ?S\<close> S1(2) by (simp add: in_put)
      qed
      have "resolve_reports E now skip reason msg items (st1\<lparr>rp_world := w1\<rparr>) = (res, st')"
        using Cons.prems(4) False m p Inr by (simp add: st1_def)
      from Cons.IH [OF _ _ _ this] S1 other Cons.prems(3) obtain n where
        n: "inv (rp_world st')" "set (reports (rp_world st')) =
           close_reports now reason (set (filter (\<lambda>r. \<not> skip r) (take n items))) (put_report (resolved_report now reason r) ?S)"
          "res = None \<longrightarrow> n = length items" by auto
      have "set (filter (\<lambda>r. \<not> skip r) (take n items)) \<subseteq> ?S" "r \<notin> set (filter (\<lambda>r. \<not> skip r) (take n items))"
        using Cons.prems(2,3) by (auto dest: in_set_takeD)
      note ins = close_reports_insert [OF keys_inj [OF Cons.prems(1)] S1(1) this]
      have "set (filter (\<lambda>r. \<not> skip r) (take (Suc n) (r # items))) = insert r (set (filter (\<lambda>r. \<not> skip r) (take n items)))"
        using False by auto
      with n ins show ?thesis by (intro conjI exI [of _ "Suc n"]) simp_all
    qed
  qed
qed auto

lemma resolve_listed:
  assumes "inv (rp_world st)" "k_list_reports (re_client E) (rp_world st) (Some ns) None = Inr items"
    and "resolve_reports E now skip reason msg items st = (res, st')"
    and affected: "affected = {r \<in> set (reports (rp_world st)). (ns = [] \<or> report_ns r = ns) \<and> \<not> skip r}"
  shows "inv (rp_world st') \<and> (\<exists>A \<subseteq> affected.
      set (reports (rp_world st')) = close_reports now reason A (set (reports (rp_world st))) \<and> (res = None \<longrightarrow> A = affected))"
proof -
  note l = list_stored [OF assms(1,2)]
  have sub: "set (filter (\<lambda>r. \<not> skip r) (take n items)) \<subseteq> affected" for n
    using l by (auto simp: affected matches_selector_def dest!: in_set_takeD)
  have all: "set (filter (\<lambda>r. \<not> skip r) items) = affected"
    using l by (auto simp: affected matches_selector_def)
  have "set items \<subseteq> set (reports (rp_world st))" using l by auto
  from resolve_effect [OF assms(1) this conjunct1 [OF l] assms(3)] obtain n where
    n: "inv (rp_world st')" "set (reports (rp_world st')) = close_reports now reason
         (set (filter (\<lambda>r. \<not> skip r) (take n items))) (set (reports (rp_world st)))" "res = None \<longrightarrow> n = length items"
    by blast
  have "res = None \<Longrightarrow> set (filter (\<lambda>r. \<not> skip r) (take n items)) = affected" using n(3) all by simp
  with n(1,2) sub show ?thesis by blast
qed

lemma deleted_effect:
  assumes "inv (rp_world st)" "ResolveForDeletedPod E now ns podName st = (res, st')"
  shows "inv (rp_world st') \<and> (\<exists>A \<subseteq> open_on_pod ns podName (set (reports (rp_world st))).
      set (reports (rp_world st')) = close_reports now (deleted_reason podName) A (set (reports (rp_world st)))
      \<and> (res = None \<longrightarrow> A = open_on_pod ns podName (set (reports (rp_world st)))))"
proof (cases "k_list_reports (re_client E) (rp_world st) (Some ns) None")
  case (Inl e)
  then show ?thesis using assms by (auto simp: ResolveForDeletedPod_def intro!: exI [of _ "{}"])
next
  case (Inr items)
  then have "resolve_reports E now (\<lambda>r. \<not> is_open r \<or> \<not> incidentAffectsPod r podName ns) (deleted_reason podName)
      ''failed to patch IncidentReport resolve status for deleted pod'' items st = (res, st')"
    using assms(2) by (simp add: ResolveForDeletedPod_def deleted_reason_def)
  from resolve_listed [OF assms(1) Inr this refl] show ?thesis by (simp add: open_on_pod_def)
qed

lemma healthy_effect:
  assumes "inv (rp_world st)" "ResolveForHealthyPod E now ns podName st = (res, st')"
  defines "affected \<equiv> {r \<in> open_on_pod ns podName (set (reports (rp_world st))). \<not> in_cooldown E now r}"
  shows "inv (rp_world st') \<and> (\<exists>A \<subseteq> affected.
      set (reports (rp_world st')) = close_reports now (healthy_reason podName) A (set (reports (rp_world st)))
      \<and> (\<forall>p. res = None \<longrightarrow> k_get_pod (re_client E) (rp_world st) ns podName = Inr p \<longrightarrow> isPodCurrentlyReady p \<longrightarrow>
           A = affected))
      \<and> ((\<forall>p. k_get_pod (re_client E) (rp_world st) ns podName = Inr p \<longrightarrow> \<not> isPodCurrentlyReady p) \<longrightarrow> st' = st)"
proof (cases "\<exists>p items. k_get_pod (re_client E) (rp_world st) ns podName = Inr p \<and> isPodCurrentlyReady p
    \<and> k_list_reports (re_client E) (rp_world st) (Some ns) None = Inr items")
  case False
  have "st' = st \<and> (\<forall>p. res = None \<longrightarrow> k_get_pod (re_client E) (rp_world st) ns podName = Inr p \<longrightarrow>
      \<not> isPodCurrentlyReady p)"
    using assms(2) False unfolding ResolveForHealthyPod_def
    by (auto split: sum.splits if_splits kerr.splits)
  then show ?thesis using assms(1) by (auto intro!: exI [of _ "{}"])
next
  case True
  then obtain p items where p: "k_get_pod (re_client E) (rp_world st) ns podName = Inr p" "isPodCurrentlyReady p"
    and l: "k_list_reports (re_client E) (rp_world st) (Some ns) None = Inr items" by blast
  have "resolve_reports E now (\<lambda>r. \<not> is_open r \<or> \<not> incidentAffectsPod r podName ns \<or> in_cooldown E now r)
      (healthy_reason podName) ''failed to patch IncidentReport resolve status'' items st = (res, st')"
    using assms(2) p l by (simp add: ResolveForHealthyPod_def healthy_reason_def)
  moreover have "affected = {r \<in> set (reports (rp_world st)). (ns = [] \<or> report_ns r = ns) \<and>
      \<not> (\<not> is_open r \<or> \<not> incidentAffectsPod r podName ns \<or> in_cooldown E now r)}"
    by (auto simp: affected_def open_on_pod_def)
  ultimately have "inv (rp_world st') \<and> (\<exists>A \<subseteq> affected.
      set (reports (rp_world st')) = close_reports now (healthy_reason podName) A (set (reports (rp_world st)))
      \<and> (res = None \<longrightarrow> A = affected))" by (rule resolve_listed [OF assms(1) l])
  moreover have "\<not> (\<forall>p. k_get_pod (re_client E) (rp_world st) ns podName = Inr p \<longrightarrow> \<not> isPodCurrentlyReady p)"
    using p by blast
  ultimately show ?thesis by blast
qed

end

section \<open>The in-memory store as environment\<close>

definition mem_env :: "mem_world rep_env" where
  "mem_env = \<lparr>re_client = mem_client, re_sha1 = (\<lambda>s. s), re_format = itoa, re_parse = atoi, re_recorder = True\<rparr>"

lemma mem_env_fields [simp]:
  "re_client mem_env = mem_client" "re_sha1 mem_env = (\<lambda>s. s)" "re_format mem_env = itoa"
  "re_parse mem_env = atoi" "re_recorder mem_env"
  by (simp_all add: mem_env_def)

interpretation mem_rep: reporter_store mem_env mem_inv mw_reports
  by (simp add: reporter_store_def mem.report_store_axioms)

definition mem_empty :: "mem_world rep_state" where
  "mem_empty = \<lparr>rp_world = \<lparr>mw_reports = [], mw_counter = 0, mw_pods = (\<lambda>ns name. None),
     mw_replica_sets = (\<lambda>ns name. None), mw_nodes = (\<lambda>name. None), mw_deployments = (\<lambda>ns name. None),
     mw_log = []\<rparr>, rp_open = Map.empty\<rparr>"

definition sample_input :: input where
  "sample_input = \<lparr>in_Namespace = ''shop'', in_AgentRef = ''agent'', in_IncidentType = ''CrashLoop'',
     in_Severity = ''P2'', in_Summary = ''crash'', in_Reason = [], in_Message = ''crash'', in_DedupKey = ''k'',
     in_ObservedAt = 5000000000,
     in_Scope = \<lparr>sc_Level = ''Pod'', sc_Namespace = ''shop'', sc_WorkloadRef = None,
                 sc_ResourceRef = Some (mk_ref ''v1'' ''Pod'' ''shop'' ''web-1'' [])\<rparr>,
     in_AffectedResources = [mk_affected ''v1'' ''Pod'' ''shop'' ''web-1'' []],
     in_TraceID = [], in_FiredRule = []\<rparr>"

text \<open>The store after one signal: a report that is open.\<close>

definition mem_one :: "mem_world rep_state" where
  "mem_one = snd (EnsureSignal mem_env 6000000000 sample_input mem_empty)"

lemma mem_empty_ok: "mem_inv (rp_world mem_empty)" "mw_reports (rp_world mem_empty) = []"
  by (simp_all add: mem_empty_def mem_inv_def keys_distinct_def)

lemma sample_identifiable: "identifiable sample_input"
  by (rule Fingerprint_identifiable)
    (simp_all add: sample_input_def mk_ref_def names_lower_def lower_case_def is_upper_def)

lemma mem_report_store: "report_store (re_client mem_env) mem_inv mw_reports"
  by (simp add: mem.report_store_axioms)

lemma registry_ok_empty [simp]: "registry_ok sha1 {}"
  by (simp add: registry_ok_def unique_open_def)

lemma mem_one_ok: "mem_inv (rp_world mem_one)" "registry_ok (re_sha1 mem_env) (set (mw_reports (rp_world mem_one)))"
  using mem_rep.ensure_effect(1) [of mem_empty 6000000000 sample_input _ mem_one] mem_empty_ok sample_identifiable
    registry_step_ok [of "\<lambda>s. s" _ "Fingerprint sample_input" "{}"]
  by (auto simp: mem_one_def identifiable_def prod_eq_iff)

lemma mem_one_run: "EnsureSignal mem_env 6000000000 sample_input mem_empty = (None, mem_one)"
proof -
  have "sc_WorkloadRef (in_Scope sample_input) = None" by (simp add: sample_input_def)
  then have "fst (EnsureSignal mem_env 6000000000 sample_input mem_empty) = None"
    by (simp add: EnsureSignal_def findOpenIncident_def mem_empty_def mem_client_sel list_candidates_def
        findResolvableIncident_def findExistingByWorkloadRef_def createIncident_def mem_create_def lookup_report_def
        mem_put_def Let_def)
  then show ?thesis by (simp add: mem_one_def prod_eq_iff)
qed

lemma mem_one_created:
  obtains name where "mw_reports (rp_world mem_one) = [created_report mem_env sample_input (Fingerprint sample_input) name 0]"
proof -
  let ?i = "normalize_input 6000000000 sample_input"
  have norm: "?i = sample_input" by (simp add: normalize_input_def sample_input_def time_is_zero_def)
  have "sc_WorkloadRef (in_Scope sample_input) = None" by (simp add: sample_input_def)
  then show thesis using that
    by (simp add: mem_one_def EnsureSignal_def findOpenIncident_def mem_empty_def mem_client_sel list_candidates_def
        findResolvableIncident_def findExistingByWorkloadRef_def createIncident_def mem_create_def lookup_report_def
        mem_put_def Let_def observe_def record_event_def norm replace_report_def created_report_def with_status_def)
qed

text \<open>The only report of \<open>mem_one\<close> is open, in the namespace of the sample and with its fingerprint.\<close>

lemma mem_one_report:
  obtains r where "mw_reports (rp_world mem_one) = [r]" "is_open r" "report_ns r = in_Namespace sample_input"
    "reportFingerprint r = Fingerprint sample_input" "logs_bounded r" "st_AffectedResources (ir_Status r) = in_AffectedResources sample_input"
    "st_LastObservedAt (ir_Status r) = Some 5000000000"
proof -
  obtain name where "mw_reports (rp_world mem_one) = [created_report mem_env sample_input (Fingerprint sample_input) name 0]"
    by (rule mem_one_created)
  moreover have "reportFingerprint (created_report mem_env sample_input (Fingerprint sample_input) name 0) = Fingerprint sample_input"
    using sample_identifiable unfolding identifiable_def
    by (intro reportFingerprint_set) (simp_all add: created_report_def new_report_def Let_def)
  ultimately show thesis
    by (intro that [of "created_report mem_env sample_input (Fingerprint sample_input) name 0"])
      (simp_all add: created_report_def new_report_def new_status_def Let_def is_open_def logs_bounded_def
        MaxSignalEntries_def AppendTimeline_bounded sample_input_def stored_time_ptr_def stored_time_def)
qed

lemma mem_one_status:
  obtains r where "mw_reports (rp_world mem_one) = [r]" "report_phase r = ''Detecting''"
    "EffectiveStartTime (ir_Status r) = Some 5000000000" "st_StabilizationWindowSeconds (ir_Status r) = 300"
    "sp_Scope (ir_Spec r) = in_Scope sample_input" "report_annotation r AnnotationLastSeen = itoa 5000000000"
proof -
  obtain name where "mw_reports (rp_world mem_one) = [created_report mem_env sample_input (Fingerprint sample_input) name 0]"
    by (rule mem_one_created)
  then show thesis
    by (intro that [of "created_report mem_env sample_input (Fingerprint sample_input) name 0"])
      (simp_all add: created_report_def new_report_def new_status_def Let_def sample_input_def EffectiveStartTime_def
        stored_time_ptr_def stored_time_def buildInitialAnnotations_def applyDiagnosticAnnotations_def)
qed

section \<open>Where uniqueness ends\<close>

text \<open>What the registry relies on is needed: reads that see earlier writes, and identifying fingerprints.\<close>

text \<open>A signal whose report the client does not show yet creates a report, whatever the store holds.\<close>

lemma EnsureSignal_unseen:
  assumes "\<And>ns name r. k_get_report (re_client E) (rp_world st) ns name \<noteq> Inr r"
    and "\<And>nsel sel. k_list_reports (re_client E) (rp_world st) nsel sel = Inr []"
  shows "EnsureSignal E now i st = createIncident E (normalize_input now i) (Fingerprint i)
    (FingerprintHash (re_sha1 E) (Fingerprint i)) (st\<lparr>rp_open := (rp_open st)(Fingerprint i := None)\<rparr>)"
proof -
  let ?i = "normalize_input now i" and ?fp = "Fingerprint i"
  have "findOpenIncident E ns ?fp h st = (Inr None, st\<lparr>rp_open := (rp_open st)(?fp := None)\<rparr>)" for ns h
    using assms(1) by (auto simp: findOpenIncident_def Let_def list_candidates_def assms(2) split: option.split sum.split)
  moreover have "findResolvableIncident E now ns ?fp h (st\<lparr>rp_open := m\<rparr>) = Inr None" for ns h m
    by (simp add: findResolvableIncident_def list_candidates_def assms(2))
  moreover have "findExistingByWorkloadRef E ?i (st\<lparr>rp_open := m\<rparr>) = Inr None" for m
    by (auto simp: findExistingByWorkloadRef_def Let_def assms(2) split: option.split)
  ultimately show ?thesis by (simp add: EnsureSignal_def Let_def)
qed

text \<open>A client whose cache has not seen the reports yet.\<close>

definition stale_env :: "mem_world rep_env" where
  "stale_env = mem_env\<lparr>re_client := mem_client\<lparr>k_get_report := (\<lambda>w ns name. Inl NotFound), k_list_reports := (\<lambda>w ns sel. Inr [])\<rparr>\<rparr>"

text \<open>A creation in the in-memory store, whatever its client shows of the reports.\<close>

lemma mem_created:
  assumes "k_create_report (re_client E) = mem_create" "k_patch_status (re_client E) = k_patch_status mem_client"
    and "k_observe (re_client E) = k_observe mem_client"
    and "name = om_GenerateName (ir_Meta (new_report E i fp (FingerprintHash (re_sha1 E) fp))) @ nat_digits (mw_counter (rp_world st))"
    and "(in_Namespace i, name) \<notin> report_key ` set (mw_reports (rp_world st))"
  shows "mw_reports (rp_world (snd (createIncident E i fp (FingerprintHash (re_sha1 E) fp) st))) =
       mw_reports (rp_world st) @ [created_report E i fp name (int (mw_counter (rp_world st)))]"
    and "mw_counter (rp_world (snd (createIncident E i fp (FingerprintHash (re_sha1 E) fp) st))) = Suc (mw_counter (rp_world st))"
proof -
  let ?r = "new_report E i fp (FingerprintHash (re_sha1 E) fp)"
  have obs: "mw_reports (fold (\<lambda>ob w. w\<lparr>mw_log := mw_log w @ [ob]\<rparr>) obs w) = mw_reports w"
    "mw_counter (fold (\<lambda>ob w. w\<lparr>mw_log := mw_log w @ [ob]\<rparr>) obs w) = mw_counter w" for obs w
    by (induction obs arbitrary: w) simp_all
  have ns: "report_ns ?r = in_Namespace i" by (simp add: new_report_def)
  have other: "\<forall>x \<in> set (mw_reports (rp_world st)). report_key x \<noteq> (in_Namespace i, name)" using assms(5) unfolding image_iff by auto
  then have keep: "replace_report r (mw_reports (rp_world st)) = mw_reports (rp_world st)" if "report_key r = (in_Namespace i, name)" for r
    unfolding replace_report_def using that by (intro map_idI) auto
  have free: "lookup_report (mw_reports (rp_world st)) (in_Namespace i, name) = None"
    using assms(5) by (simp add: lookup_report_None)
  let ?base = "?r\<lparr>ir_Meta := (ir_Meta ?r)\<lparr>om_Name := name, om_CreationTimestamp := int (mw_counter (rp_world st))\<rparr>, ir_Status := zero_status\<rparr>"
  have found: "lookup_report (mw_reports (rp_world st) @ [?base]) (in_Namespace i, name) = Some ?base"
  proof -
    have "find P (xs @ [y]) = Some y" if "\<forall>x \<in> set xs. \<not> P x" "P y" for P xs and y :: incident_report
      using that by (induction xs) simp_all
    from this [OF other] show ?thesis by (simp add: lookup_report_def ns)
  qed
  let ?new = "created_report E i fp name (int (mw_counter (rp_world st)))"
  let ?w1 = "(rp_world st)\<lparr>mw_reports := mw_reports (rp_world st) @ [?base], mw_counter := mw_counter (rp_world st) + 1\<rparr>"
  let ?w2 = "(rp_world st)\<lparr>mw_reports := mw_reports (rp_world st) @ [?new], mw_counter := mw_counter (rp_world st) + 1\<rparr>"
  have new: "?new = ?base\<lparr>ir_Status := stored_status (new_status i)\<rparr>"
    by (simp add: created_report_def with_status_def Let_def)
  have create: "mem_create (rp_world st) ?r = (Inr ?base, ?w1)"
    using free ns by (simp add: mem_create_def assms(4)[symmetric] Let_def)
  have "replace_report ?new (mw_reports (rp_world st) @ [?base]) = mw_reports (rp_world st) @ [?new]"
    using keep [of ?new] ns by (simp add: replace_report_def new)
  then have patch: "k_patch_status mem_client ?w1 ?base (?base\<lparr>ir_Status := new_status i\<rparr>) = (Inr ?new, ?w2)"
    using found ns by (simp add: mem_client_sel mem_put_def new)
  have run: "\<exists>obs m. snd (createIncident E i fp (FingerprintHash (re_sha1 E) fp) st) = observe E obs (st\<lparr>rp_world := ?w2, rp_open := m\<rparr>)"
    unfolding createIncident_def assms(1,2) create prod.case sum.case patch snd_conv by blast
  show "mw_reports (rp_world (snd (createIncident E i fp (FingerprintHash (re_sha1 E) fp) st))) =
       mw_reports (rp_world st) @ [created_report E i fp name (int (mw_counter (rp_world st)))]"
    "mw_counter (rp_world (snd (createIncident E i fp (FingerprintHash (re_sha1 E) fp) st))) = Suc (mw_counter (rp_world st))"
    using run by (auto simp: observe_def assms(3) mem_client_sel obs)
qed


lemma normalize_sample: "normalize_input now (sample_input\<lparr>in_IncidentType := t, in_Scope := sc, in_AffectedResources := rs\<rparr>) =
    sample_input\<lparr>in_IncidentType := t, in_Scope := sc, in_AffectedResources := rs\<rparr>"
  by (simp add: normalize_input_def sample_input_def time_is_zero_def)

lemma created_facts:
  assumes "identifiable i"
  shows "is_open (created_report E i (Fingerprint i) name ts)" "report_ns (created_report E i (Fingerprint i) name ts) = in_Namespace i"
    "report_name (created_report E i (Fingerprint i) name ts) = name"
    "reportFingerprint (created_report E i (Fingerprint i) name ts) = Fingerprint i"
  using assms reportFingerprint_set [of "Fingerprint i" "created_report E i (Fingerprint i) name ts"]
  by (simp_all add: created_report_def new_report_def new_status_def Let_def is_open_def identifiable_def)

lemma two_open:
  assumes "set (mw_reports w) = {a, b}" "is_open a" "is_open b" "report_ns a = report_ns b" "report_name a \<noteq> report_name b"
    and "reportFingerprint a = reportFingerprint b"
  shows "\<not> unique_open (set (mw_reports w))"
  using assms by (auto simp: unique_open_def rival_def)

lemma digits_0_1: "nat_digits 0 \<noteq> nat_digits (Suc 0)" "nat_digits (Suc 0) \<noteq> nat_digits 0"
  by (simp_all add: nat_digits.simps)

lemma stale_env_sel:
  "k_create_report (re_client stale_env) = mem_create" "k_patch_status (re_client stale_env) = k_patch_status mem_client"
  "k_observe (re_client stale_env) = k_observe mem_client"
  "k_get_report (re_client stale_env) w ns name = Inl NotFound" "k_list_reports (re_client stale_env) w nsel sel = Inr []"
  by (simp_all add: stale_env_def mem_client_sel)

text \<open>
  The manager hands out a client that reads from a cache. While the cache does not show the report
  that the first signal created, a second signal creates another open report for the fingerprint.
\<close>

lemma stale_reads_duplicate:
  defines "st \<equiv> snd (EnsureSignal stale_env 6000000000 sample_input mem_empty)"
  shows "\<not> unique_open (set (mw_reports (rp_world (snd (EnsureSignal stale_env 7000000000 sample_input st)))))"
proof -
  let ?fp = "Fingerprint sample_input"
  have norm: "normalize_input now sample_input = sample_input" for now
    by (simp add: normalize_input_def sample_input_def time_is_zero_def)
  have unseen: "EnsureSignal stale_env now sample_input s = createIncident stale_env sample_input ?fp
      (FingerprintHash (re_sha1 stale_env) ?fp) (s\<lparr>rp_open := (rp_open s)(?fp := None)\<rparr>)" for now s
    using EnsureSignal_unseen [of stale_env s now sample_input] by (simp add: stale_env_sel norm)
  define gen where "gen = om_GenerateName (ir_Meta (new_report stale_env sample_input ?fp (FingerprintHash (re_sha1 stale_env) ?fp)))"
  note made = mem_created [OF stale_env_sel(1-3) refl, of sample_input ?fp]
  let ?a = "created_report stale_env sample_input ?fp (gen @ nat_digits 0) 0"
  let ?b = "created_report stale_env sample_input ?fp (gen @ nat_digits 1) 1"
  have st: "mw_reports (rp_world st) = [?a]" "mw_counter (rp_world st) = 1"
    using made [of "mem_empty\<lparr>rp_open := (rp_open mem_empty)(?fp := None)\<rparr>"]
    by (simp_all add: st_def unseen mem_empty_def gen_def)
  note facts = created_facts [OF sample_identifiable]
  have "mw_reports (rp_world (snd (EnsureSignal stale_env 7000000000 sample_input st))) = [?a, ?b]"
    using made(1) [of "st\<lparr>rp_open := (rp_open st)(?fp := None)\<rparr>"] digits_0_1
    by (simp add: unseen st gen_def [symmetric] facts)
  then show ?thesis by (intro two_open [of _ ?a ?b]) (simp_all add: facts digits_0_1)
qed

text \<open>Telemetry of a service, whose name is any text.\<close>

definition service_input :: "string \<Rightarrow> input" where
  "service_input name = sample_input\<lparr>in_IncidentType := ''OTelSpanError'',
     in_Scope := \<lparr>sc_Level = ''Workload'', sc_Namespace = ''shop'', sc_WorkloadRef = Some (mk_ref ''v1'' ''Service'' ''shop'' name []),
       sc_ResourceRef = Some (mk_ref ''v1'' ''Service'' ''shop'' name [])\<rparr>,
     in_AffectedResources := [mk_affected ''v1'' ''Service'' ''shop'' name []]\<rparr>"

lemma service_fingerprint: "Fingerprint (service_input name) = ''Workload|shop|service|'' @ name"
proof -
  have "to_lower ''Service'' = ''service''" by code_simp
  then show ?thesis by (simp add: service_input_def Fingerprint_def scope_parts_def ns_parts_def ref_parts_def mk_ref_def)
qed


lemma service_created:
  assumes "fp \<noteq> []"
  shows "reportFingerprint (created_report E (service_input name) fp n ts) = stripLegacyOTelFingerprintType fp"
    "is_open (created_report E (service_input name) fp n ts)" "report_ns (created_report E (service_input name) fp n ts) = ''shop''"
    "report_name (created_report E (service_input name) fp n ts) = n"
    "EffectiveResolvedTime (ir_Status (created_report E (service_input name) fp n ts)) = None"
    "reportMatchesWorkloadRef (created_report E (service_input name) fp n ts) (mk_ref ''v1'' ''Service'' ''shop'' other []) t \<Longrightarrow> other = name"
proof -
  let ?r = "created_report E (service_input name) fp n ts"
  have type: "IsOTelIncidentType ''OTelSpanError''" by code_simp
  have r: "sp_Fingerprint (ir_Spec ?r) = fp" "sp_IncidentType (ir_Spec ?r) = ''OTelSpanError''"
    "sc_WorkloadRef (sp_Scope (ir_Spec ?r)) = Some (mk_ref ''v1'' ''Service'' ''shop'' name [])" "report_ns ?r = ''shop''" "report_name ?r = n" "report_phase ?r = ''Detecting''"
    "st_AffectedResources (ir_Status ?r) = [mk_affected ''v1'' ''Service'' ''shop'' name []]"
    "st_ResolvedAt (ir_Status ?r) = None" "st_ResolvedTime (ir_Status ?r) = None"
    by (simp_all add: created_report_def new_report_def new_status_def service_input_def sample_input_def Let_def stored_time_ptr_def)
  show "reportFingerprint ?r = stripLegacyOTelFingerprintType fp" using assms by (simp add: reportFingerprint_def r type)
  show "is_open ?r" by (simp add: is_open_def r)
  show "report_ns ?r = ''shop''" "report_name ?r = n" by (rule r)+
  show "EffectiveResolvedTime (ir_Status ?r) = None" by (simp add: EffectiveResolvedTime_def r)
  show "other = name" if "reportMatchesWorkloadRef ?r (mk_ref ''v1'' ''Service'' ''shop'' other []) t"
    using that by (auto simp: reportMatchesWorkloadRef_def Let_def r mk_ref_def mk_affected_def split: if_splits)
qed

text \<open>
  The services \<open>pay\<close> and \<^verbatim>\<open>pay|type|OTelX\<close> get an open report each, and the stored fingerprints of
  the two are the same once the marker is stripped.
\<close>

lemma services_collide:
  defines "st \<equiv> snd (EnsureSignal mem_env 6000000000 (service_input ''pay'') mem_empty)"
  shows "\<not> unique_open (set (mw_reports (rp_world (snd (EnsureSignal mem_env 7000000000 (service_input ''pay|type|OTelX'') st)))))"
proof -
  let ?i = "service_input ''pay''" and ?j = "service_input ''pay|type|OTelX''"
  have norm: "normalize_input now (service_input name) = service_input name" for now name
    unfolding service_input_def by (rule normalize_sample)
  have strip: "stripLegacyOTelFingerprintType (Fingerprint ?i) = Fingerprint ?i" "stripLegacyOTelFingerprintType (Fingerprint ?j) = Fingerprint ?i"
    unfolding service_fingerprint by code_simp+
  have differ: "Fingerprint ?i \<noteq> Fingerprint ?j" "Fingerprint ?i \<noteq> []" "Fingerprint ?j \<noteq> []" by (simp_all add: service_fingerprint)
  have K: "k_create_report (re_client mem_env) = mem_create" "k_patch_status (re_client mem_env) = k_patch_status mem_client"
    "k_observe (re_client mem_env) = k_observe mem_client" by (simp_all add: mem_client_sel)
  note made = mem_created [OF K refl]
  define gen where "gen i fp = om_GenerateName (ir_Meta (new_report mem_env i fp (FingerprintHash (\<lambda>s. s) fp)))" for i fp
  let ?a = "created_report mem_env ?i (Fingerprint ?i) (gen ?i (Fingerprint ?i) @ nat_digits 0) 0"
  let ?b = "created_report mem_env ?j (Fingerprint ?j) (gen ?j (Fingerprint ?j) @ nat_digits 1) 1"
  have "EnsureSignal mem_env 6000000000 ?i mem_empty = createIncident mem_env ?i (Fingerprint ?i)
      (FingerprintHash (re_sha1 mem_env) (Fingerprint ?i)) (mem_empty\<lparr>rp_open := (rp_open mem_empty)(Fingerprint ?i := None)\<rparr>)"
    using EnsureSignal_unseen [of mem_env mem_empty 6000000000 ?i] by (simp add: mem_client_sel mem_empty_def or_not_found_def lookup_report_def norm)
  then have st: "mw_reports (rp_world st) = [?a]" "mw_counter (rp_world st) = 1"
    using made [of ?i "Fingerprint ?i" "mem_empty\<lparr>rp_open := (rp_open mem_empty)(Fingerprint ?i := None)\<rparr>"]
    by (simp_all add: st_def mem_empty_def gen_def)
  note fa = service_created [OF differ(2), where name = "''pay''"] and fb = service_created [OF differ(3), where name = "''pay|type|OTelX''"]
  have list: "list_candidates mem_env (rp_world st) m1 m2 ns h \<in> {Inr [], Inr [?a]}" for m1 m2 ns h
    by (auto simp: list_candidates_def mem_client_sel st)
  have get: "k_get_report mem_client (rp_world st) ns name = Inr r \<Longrightarrow> r = ?a" for ns name r
    using lookup_reportD [of "[?a]" "(ns, name)" r] by (auto simp: mem_client_sel or_not_found_def st split: option.splits)
  have 1: "\<exists>m. findOpenIncident mem_env ns (Fingerprint ?j) h st = (Inr None, st\<lparr>rp_open := m\<rparr>)" for ns h
  proof -
    have "\<not> (is_open r \<and> reportFingerprint r = Fingerprint ?j)" if "r = ?a" for r using differ(1) that by (simp add: fa(1) strip(1))
    then show ?thesis
      using get list [of "''failed to list IncidentReports''" "''failed to list IncidentReports fallback''" ns h]
      by (auto simp: findOpenIncident_def Let_def split: option.split sum.split)
  qed
  have 2: "findResolvableIncident mem_env now ns (Fingerprint ?j) h (st\<lparr>rp_open := m\<rparr>) = Inr None" for now ns h m
    using list [of "''failed to list IncidentReports for reopen check''" "''failed to list IncidentReports for reopen fallback''" ns h]
    by (auto simp: findResolvableIncident_def fa(5))
  have 3: "findExistingByWorkloadRef mem_env ?j (st\<lparr>rp_open := m\<rparr>) = Inr None" for m
  proof -
    have ref: "sc_WorkloadRef (in_Scope ?j) = Some (mk_ref ''v1'' ''Service'' ''shop'' ''pay|type|OTelX'' [])" by (simp add: service_input_def)
    have "\<not> reportMatchesWorkloadRef ?a (mk_ref ''v1'' ''Service'' ''shop'' ''pay|type|OTelX'' []) t" for t
      using fa(6) [of mem_env _ 0 "''pay|type|OTelX''" t] by auto
    then show ?thesis by (simp add: findExistingByWorkloadRef_def ref mem_client_sel st)
  qed
  obtain m where "EnsureSignal mem_env 7000000000 ?j st = createIncident mem_env ?j (Fingerprint ?j)
      (FingerprintHash (re_sha1 mem_env) (Fingerprint ?j)) (st\<lparr>rp_open := m\<rparr>)"
    using 1 [of "in_Namespace ?j" "FingerprintHash (re_sha1 mem_env) (Fingerprint ?j)"] 2 3 unfolding EnsureSignal_def Let_def norm by force
  moreover have "gen ?j (Fingerprint ?j) @ nat_digits 1 \<noteq> gen ?i (Fingerprint ?i) @ nat_digits 0"
    using digits_0_1 by (auto simp: nat_digits.simps)
  moreover have "in_Namespace ?j = ''shop''" by (simp add: service_input_def sample_input_def)
  ultimately have "mw_reports (rp_world (snd (EnsureSignal mem_env 7000000000 ?j st))) = [?a, ?b]"
    using made(1) [of ?j "Fingerprint ?j" "st\<lparr>rp_open := m\<rparr>"] by (simp add: st gen_def [symmetric] fa(3,4))
  then show ?thesis
    using \<open>gen ?j (Fingerprint ?j) @ nat_digits 1 \<noteq> _\<close> by (intro two_open [of _ ?a ?b]) (auto simp: fa(1-4) fb(1-4) strip)
qed

section \<open>Properties\<close>

lemma reporter_storeI: "report_store (re_client E) ok reports \<Longrightarrow> reporter_store E ok reports"
  by (simp add: reporter_store_def)

text \<open>C2.
  Every outcome of \<open>EnsureSignal\<close>, failed writes included, is one step of the abstract registry:
  the stored reports stay as they are, one report without a rival evolves, or one report is
  added where no open one carries the fingerprint.
\<close>

theorem EnsureSignal_refines:
  assumes "report_store (re_client E) ok reports" "ok (rp_world st)"
    and "registry_ok (re_sha1 E) (set (reports (rp_world st)))"
  shows "registry_step (re_sha1 E) (in_Namespace i) (Fingerprint i) (set (reports (rp_world st)))
           (set (reports (rp_world (snd (EnsureSignal E now i st)))))"
  using reporter_store.ensure_effect(1) [OF reporter_storeI [OF assms(1)] assms(2,3)] by (metis prod.collapse)

theorem EnsureSignal_refines_witness:
  "registry_step (re_sha1 mem_env) ''shop'' (Fingerprint sample_input) (set (mw_reports (rp_world mem_one)))
     (set (mw_reports (rp_world (snd (EnsureSignal mem_env 7000000000 sample_input mem_one)))))"
  using EnsureSignal_refines [OF mem_report_store mem_one_ok, of sample_input] by (simp add: sample_input_def)

text \<open>C1.
  From a well-formed registry, and on a client whose reads see the earlier writes, a signal whose
  fingerprint is neither empty nor contains the marker \<^verbatim>\<open>|type|OTel\<close> keeps the registry well formed,
  whichever requests fail: at most one open report per namespace and fingerprint, and every open
  report carries the label by which the next lookup finds it.
\<close>

theorem EnsureSignal_unique_open:
  assumes "report_store (re_client E) ok reports" "ok (rp_world st)"
    and "registry_ok (re_sha1 E) (set (reports (rp_world st)))" "identifiable i"
  shows "registry_ok (re_sha1 E) (set (reports (rp_world (snd (EnsureSignal E now i st)))))"
  using reporter_store.ensure_effect(1) [OF reporter_storeI [OF assms(1)] assms(2,3)]
    registry_step_ok assms(3,4) unfolding identifiable_def by (metis prod.collapse)

theorem EnsureSignal_unique_open_witness:
  "registry_ok (re_sha1 mem_env)
     (set (mw_reports (rp_world (snd (EnsureSignal mem_env 7000000000 sample_input mem_one)))))"
  by (rule EnsureSignal_unique_open [OF mem_report_store mem_one_ok sample_identifiable])

text \<open>C3.
  When \<open>EnsureSignal\<close> returns no error the signal has landed: the store holds an open report with
  the fingerprint and scope of the signal that shows its summary, message and time of
  observation, ends its log of signals with it, is at least as severe, covers every affected
  resource, and is the one the cache points to.
\<close>

theorem EnsureSignal_records:
  assumes "report_store (re_client E) ok reports" "ok (rp_world st)"
    and "registry_ok (re_sha1 E) (set (reports (rp_world st)))"
    and "EnsureSignal E now i st = (None, st')"
  shows "\<exists>r \<in> set (reports (rp_world st')). carries (normalize_input now i) r
           \<and> rp_open st' (Fingerprint i) = Some (report_key r)"
  using reporter_store.ensure_effect(2) [OF reporter_storeI [OF assms(1)] assms(2-4)] by simp

theorem EnsureSignal_records_witness:
  "\<exists>r \<in> set (mw_reports (rp_world mem_one)). carries (normalize_input 6000000000 sample_input) r
     \<and> rp_open mem_one (Fingerprint sample_input) = Some (report_key r)"
  using EnsureSignal_records [OF mem_report_store mem_empty_ok(1) _ mem_one_run] mem_empty_ok(2) by simp

text \<open>No signal loses a report, lowers a severity, closes an open report or drops an affected
  resource, and the timeline and signal logs of all reports stay within their limits.
\<close>

theorem EnsureSignal_keeps_reports:
  assumes "report_store (re_client E) ok reports" "ok (rp_world st)"
    and "registry_ok (re_sha1 E) (set (reports (rp_world st)))"
    and "\<forall>r \<in> set (reports (rp_world st)). logs_bounded r"
  shows "(\<forall>r \<in> set (reports (rp_world st)).
            \<exists>r' \<in> set (reports (rp_world (snd (EnsureSignal E now i st)))). outlives r r')
         \<and> (\<forall>r \<in> set (reports (rp_world (snd (EnsureSignal E now i st)))). logs_bounded r)"
proof -
  note rs = reporter_storeI [OF assms(1)]
  have step: "registry_step (re_sha1 E) (in_Namespace i) (Fingerprint i) (set (reports (rp_world st)))
           (set (reports (rp_world (snd (EnsureSignal E now i st)))))"
    using reporter_store.ensure_effect(1) [OF rs assms(2,3)] by (metis prod.collapse)
  show ?thesis
    using registry_step_outlives [OF step _ report_store.keys_inj [OF assms(1,2)]]
      registry_step_bounded [OF step assms(4)] by blast
qed

theorem EnsureSignal_keeps_reports_witness:
  "\<exists>r r'. mw_reports (rp_world mem_one) = [r] \<and>
     r' \<in> set (mw_reports (rp_world (snd (EnsureSignal mem_env 7000000000 sample_input mem_one)))) \<and> outlives r r'"
proof -
  obtain r where r: "mw_reports (rp_world mem_one) = [r]" by (rule mem_one_report)
  have "\<forall>r \<in> set (mw_reports (rp_world mem_one)). logs_bounded r" using mem_one_report by force
  note kept = conjunct1 [OF EnsureSignal_keeps_reports [OF mem_report_store mem_one_ok this]]
  have "r \<in> set (mw_reports (rp_world mem_one))" using r by simp
  from bspec [OF kept this] r show ?thesis by blast
qed

text \<open>
  While a namespace has an open report for the fingerprint of a signal, the signal creates no
  report: the names in the store stay the same.
\<close>

lemma EnsureSignal_no_second_report:
  assumes "report_store (re_client E) ok reports" "ok (rp_world st)"
    and "registry_ok (re_sha1 E) (set (reports (rp_world st)))"
    and "r \<in> set (reports (rp_world st))" "is_open r" "report_ns r = in_Namespace i"
    and "reportFingerprint r = Fingerprint i"
  shows "report_key ` set (reports (rp_world (snd (EnsureSignal E now i st))))
           = report_key ` set (reports (rp_world st))"
proof -
  have "registry_step (re_sha1 E) (in_Namespace i) (Fingerprint i) (set (reports (rp_world st)))
           (set (reports (rp_world (snd (EnsureSignal E now i st)))))"
    using reporter_store.ensure_effect(1) [OF reporter_storeI [OF assms(1)] assms(2,3)] by (metis prod.collapse)
  then show ?thesis using registry_step_keys assms(4-7) by blast
qed

lemma EnsureSignal_no_second_report_witness:
  "card (report_key ` set (mw_reports (rp_world (snd (EnsureSignal mem_env 7000000000 sample_input mem_one))))) = 1"
proof -
  obtain r where r: "mw_reports (rp_world mem_one) = [r]" "is_open r" "report_ns r = in_Namespace sample_input"
    "reportFingerprint r = Fingerprint sample_input" by (rule mem_one_report)
  have "r \<in> set (mw_reports (rp_world mem_one))" using r(1) by simp
  from EnsureSignal_no_second_report [OF mem_report_store mem_one_ok this r(2-4)] r(1) show ?thesis by simp
qed

text \<open>C19.
  When the deletion of a pod is handled without error, the open reports of the namespace that
  affect the pod are resolved, with the time and the reason, and no other report changes.
\<close>

theorem ResolveForDeletedPod_exact:
  assumes "report_store (re_client E) ok reports" "ok (rp_world st)"
    and "ResolveForDeletedPod E now ns podName st = (None, st')"
  shows "set (reports (rp_world st')) =
    close_reports now (deleted_reason podName) (open_on_pod ns podName (set (reports (rp_world st))))
      (set (reports (rp_world st)))"
  using reporter_store.deleted_effect [OF reporter_storeI [OF assms(1)] assms(2,3)] by auto

lemma mem_one_deleted_run: "fst (ResolveForDeletedPod mem_env 9000000000 ''shop'' ''web-1'' mem_one) = None"
proof -
  obtain r where r: "mw_reports (rp_world mem_one) = [r]" by (rule mem_one_report)
  show ?thesis
    by (simp add: ResolveForDeletedPod_def mem_client_sel r matches_selector_def observe_def lookup_report_def
        mem_put_def MarkResolved_def Let_def)
qed

theorem ResolveForDeletedPod_exact_witness:
  "list_all (\<lambda>r. \<not> is_open r)
     (mw_reports (rp_world (snd (ResolveForDeletedPod mem_env 9000000000 ''shop'' ''web-1'' mem_one))))"
proof -
  obtain r where r: "mw_reports (rp_world mem_one) = [r]" "is_open r" "report_ns r = in_Namespace sample_input"
    "st_AffectedResources (ir_Status r) = in_AffectedResources sample_input" by (rule mem_one_report)
  have "open_on_pod ''shop'' ''web-1'' (set (mw_reports (rp_world mem_one))) = {r}"
    using r by (auto simp: open_on_pod_def incidentAffectsPod_def sample_input_def mk_affected_def)
  moreover have "ResolveForDeletedPod mem_env 9000000000 ''shop'' ''web-1'' mem_one
      = (None, snd (ResolveForDeletedPod mem_env 9000000000 ''shop'' ''web-1'' mem_one))"
    using mem_one_deleted_run by (simp add: prod_eq_iff)
  from ResolveForDeletedPod_exact [OF mem_report_store mem_one_ok(1) this] calculation r(1)
  show ?thesis by (simp add: close_reports_def list_all_iff)
qed

text \<open>A pod that reports healthy resolves, when it is still ready and nothing fails, exactly the open
  reports of the namespace that affect it and have had no signal for the cooldown period; a pod
  that cannot be read or is not ready resolves nothing; and on every path a report in its cooldown
  stays as it is.
\<close>

theorem ResolveForHealthyPod_cooldown:
  assumes "report_store (re_client E) ok reports" "ok (rp_world st)"
    and "ResolveForHealthyPod E now ns podName st = (res, st')"
  shows "(\<forall>p. res = None \<longrightarrow> k_get_pod (re_client E) (rp_world st) ns podName = Inr p \<longrightarrow> isPodCurrentlyReady p \<longrightarrow>
            set (reports (rp_world st')) = close_reports now (healthy_reason podName)
              {r \<in> open_on_pod ns podName (set (reports (rp_world st))). \<not> in_cooldown E now r}
              (set (reports (rp_world st))))
       \<and> ((\<forall>p. k_get_pod (re_client E) (rp_world st) ns podName = Inr p \<longrightarrow> \<not> isPodCurrentlyReady p) \<longrightarrow> st' = st)
       \<and> (\<forall>r \<in> set (reports (rp_world st)). in_cooldown E now r \<longrightarrow> r \<in> set (reports (rp_world st')))"
proof -
  note eff = reporter_store.healthy_effect [OF reporter_storeI [OF assms(1)] assms(2,3)]
  have keep: "r \<in> close_reports now reason A S" if "r \<in> S" "r \<notin> A" for r A S reason
    using that unfolding close_reports_def by (intro image_eqI [of _ _ r]) simp_all
  obtain A where A: "A \<subseteq> {r \<in> open_on_pod ns podName (set (reports (rp_world st))). \<not> in_cooldown E now r}"
    "set (reports (rp_world st')) = close_reports now (healthy_reason podName) A (set (reports (rp_world st)))"
    "\<forall>p. res = None \<longrightarrow> k_get_pod (re_client E) (rp_world st) ns podName = Inr p \<longrightarrow> isPodCurrentlyReady p \<longrightarrow>
       A = {r \<in> open_on_pod ns podName (set (reports (rp_world st))). \<not> in_cooldown E now r}"
    using eff by blast
  have "r \<in> set (reports (rp_world st'))" if "r \<in> set (reports (rp_world st))" "in_cooldown E now r" for r
    unfolding A(2) using that A(1) by (intro keep) auto
  then show ?thesis using A(2,3) eff by simp
qed

text \<open>The store of \<open>mem_one\<close> with its pod running and ready, and the run six minutes later.\<close>

definition mem_ready :: "mem_world rep_state" where
  "mem_ready = mem_one\<lparr>rp_world := (rp_world mem_one)\<lparr>mw_pods := (\<lambda>ns name. Some
     \<lparr>pod_Name = name, pod_Namespace = ns, pod_UID = [], pod_Controller = None, pod_NodeName = [],
      pod_Phase = ''Running'',
      pod_Conditions = [\<lparr>kc_Type = ''Ready'', kc_Status = ''True'', kc_Reason = []\<rparr>]\<rparr>)\<rparr>\<rparr>"

lemma mem_ready_facts: "mem_inv (rp_world mem_ready)" "mw_reports (rp_world mem_ready) = mw_reports (rp_world mem_one)"
  using mem_one_ok(1) by (simp_all add: mem_ready_def mem_inv_def)

lemma mem_ready_run: "fst (ResolveForHealthyPod mem_env 366000000000 ''shop'' ''web-1'' mem_ready) = None"
proof -
  obtain r where r: "mw_reports (rp_world mem_ready) = [r]" unfolding mem_ready_facts(2) by (rule mem_one_report)
  then have "mw_reports (rp_world mem_one) = [r]" using mem_ready_facts by simp
  then show ?thesis
    by (simp add: ResolveForHealthyPod_def mem_client_def mem_ready_def or_not_found_def matches_selector_def observe_def
        lookup_report_def mem_put_def MarkResolved_def Let_def isPodCurrentlyReady_def)
qed

theorem ResolveForHealthyPod_cooldown_witness:
  "list_all (\<lambda>r. \<not> is_open r)
     (mw_reports (rp_world (snd (ResolveForHealthyPod mem_env 366000000000 ''shop'' ''web-1'' mem_ready))))"
proof -
  obtain r where r: "mw_reports (rp_world mem_ready) = [r]" "is_open r" "report_ns r = in_Namespace sample_input"
    "st_AffectedResources (ir_Status r) = in_AffectedResources sample_input"
    "st_LastObservedAt (ir_Status r) = Some 5000000000" unfolding mem_ready_facts(2) by (rule mem_one_report)
  have set_r: "{r \<in> open_on_pod ''shop'' ''web-1'' (set (mw_reports (rp_world mem_ready))). \<not> in_cooldown mem_env 366000000000 r} = {r}"
    using r by (auto simp: open_on_pod_def incidentAffectsPod_def sample_input_def mk_affected_def in_cooldown_def
        last_observed_def SignalCooldown_def time_sub_def max_int64_def min_int64_def)
  have pod: "\<exists>p. k_get_pod (re_client mem_env) (rp_world mem_ready) ''shop'' ''web-1'' = Inr p \<and> isPodCurrentlyReady p"
    by (simp add: mem_client_def mem_ready_def or_not_found_def isPodCurrentlyReady_def)
  have run: "ResolveForHealthyPod mem_env 366000000000 ''shop'' ''web-1'' mem_ready
      = (None, snd (ResolveForHealthyPod mem_env 366000000000 ''shop'' ''web-1'' mem_ready))"
    using mem_ready_run by (simp add: prod_eq_iff)
  from ResolveForHealthyPod_cooldown [OF mem_report_store mem_ready_facts(1) run] pod
  have "set (mw_reports (rp_world (snd (ResolveForHealthyPod mem_env 366000000000 ''shop'' ''web-1'' mem_ready)))) =
      close_reports 366000000000 (healthy_reason ''web-1'') {r} (set (mw_reports (rp_world mem_ready)))"
    unfolding set_r by blast
  then show ?thesis using r(1) by (simp add: close_reports_def list_all_iff)
qed

text \<open>The calls that the event consumer makes, in any order, with any clock and any answers.\<close>

inductive reporter_step :: "'w rep_env \<Rightarrow> 'w rep_state \<Rightarrow> 'w rep_state \<Rightarrow> bool" for E where
  signal: "identifiable i \<Longrightarrow> reporter_step E st (snd (EnsureSignal E now i st))"
| healthy: "reporter_step E st (snd (ResolveForHealthyPod E now ns podName st))"
| deleted: "reporter_step E st (snd (ResolveForDeletedPod E now ns podName st))"

definition store_ok :: "(string \<Rightarrow> string) \<Rightarrow> incident_report list \<Rightarrow> bool" where
  "store_ok sha1 rs \<longleftrightarrow> registry_ok sha1 (set rs) \<and> list_all logs_bounded rs"

lemma store_close:
  "store_ok sha1 rs \<Longrightarrow> set rs' = close_reports now reason A (set rs) \<Longrightarrow> store_ok sha1 rs'"
  using registry_close [of sha1 "set rs"] bounded_close [of "set rs"] unfolding store_ok_def list_all_iff by metis

lemma reporter_step_ok:
  assumes "report_store (re_client E) ok reports" "ok (rp_world st)" "store_ok (re_sha1 E) (reports (rp_world st))"
    and "reporter_step E st st'"
  shows "ok (rp_world st') \<and> store_ok (re_sha1 E) (reports (rp_world st'))"
  using assms(4)
proof cases
  note rs = reporter_storeI [OF assms(1)] and so = assms(3) [unfolded store_ok_def]
  case (signal i now)
  then have run: "EnsureSignal E now i st = (fst (EnsureSignal E now i st), st')" by simp
  have *: "ok (rp_world st')" "registry_step (re_sha1 E) (in_Namespace i) (Fingerprint i)
      (set (reports (rp_world st))) (set (reports (rp_world st')))"
    using reporter_store.ensure_effect(1) [OF rs assms(2) conjunct1 [OF so] run] by simp_all
  show ?thesis
    using * registry_step_ok [OF *(2) conjunct1 [OF so]] registry_step_bounded [OF *(2)] so signal(2)
    by (simp add: store_ok_def identifiable_def list_all_iff)
next
  note rs = reporter_storeI [OF assms(1)] and so = assms(3) [unfolded store_ok_def]
  case (healthy now ns podName)
  then have run: "ResolveForHealthyPod E now ns podName st = (fst (ResolveForHealthyPod E now ns podName st), st')" by simp
  obtain A where "ok (rp_world st')"
    "set (reports (rp_world st')) = close_reports now (healthy_reason podName) A (set (reports (rp_world st)))"
    using reporter_store.healthy_effect [OF rs assms(2) run] by blast
  then show ?thesis using store_close [OF assms(3)] by blast
next
  note rs = reporter_storeI [OF assms(1)] and so = assms(3) [unfolded store_ok_def]
  case (deleted now ns podName)
  then have run: "ResolveForDeletedPod E now ns podName st = (fst (ResolveForDeletedPod E now ns podName st), st')" by simp
  obtain A where "ok (rp_world st')"
    "set (reports (rp_world st')) = close_reports now (deleted_reason podName) A (set (reports (rp_world st)))"
    using reporter_store.deleted_effect [OF rs assms(2) run] by blast
  then show ?thesis using store_close [OF assms(3)] by blast
qed

end
