(* ===== verification/Consolidation.thy ===== *)
theory Consolidation
  imports Reporter_Store "HOL-Library.Multiset"
begin

text \<open>
  \<open>Reporter.Consolidate\<close> on a lawful store: the set of reports it leaves when its writes succeed,
  and from it that every namespace has at most one open report per fingerprint; what it keeps when
  writes fail, which it only logs; and two open reports it leaves behind, returning no error.
\<close>

section \<open>Groups\<close>

definition group_members :: "report_group list \<Rightarrow> incident_report list" where
  "group_members gs = concat (map (\<lambda>(key, canonical, extras). canonical # extras) gs)"

definition groupable :: "incident_report \<Rightarrow> bool" where
  "groupable r \<longleftrightarrow> is_open r \<and> reportFingerprint r \<noteq> []"

definition groups_keyed :: "report_group list \<Rightarrow> bool" where
  "groups_keyed gs \<longleftrightarrow> distinct (map fst gs) \<and>
     (\<forall>(key, canonical, extras) \<in> set gs. \<forall>r \<in> set (canonical # extras). group_key r = key)"

lemma group_members_simps [simp]:
  "group_members [] = []"
  "group_members ((k, c, es) # gs) = c # es @ group_members gs"
  by (simp_all add: group_members_def)

lemma group_in_members: "(k, c, es) \<in> set gs \<Longrightarrow> set (c # es) \<subseteq> set (group_members gs)"
  by (induction gs) auto

lemma group_members_in: "r \<in> set (group_members gs) \<Longrightarrow> \<exists>k c es. (k, c, es) \<in> set gs \<and> r \<in> set (c # es)"
  by (fastforce simp: group_members_def)

lemma insert_group_members:
  "mset (group_members (insert_group k x gs)) = add_mset x (mset (group_members gs))"
  by (induction k x gs rule: insert_group.induct) auto

lemma insert_group_fst:
  "map fst (insert_group k x gs) = (if k \<in> set (map fst gs) then map fst gs else map fst gs @ [k])"
  by (induction k x gs rule: insert_group.induct) auto

lemma insert_group_key:
  "\<forall>(key, c, es) \<in> set gs. \<forall>r \<in> set (c # es). group_key r = key \<Longrightarrow> group_key x = k \<Longrightarrow>
     \<forall>(key, c, es) \<in> set (insert_group k x gs). \<forall>r \<in> set (c # es). group_key r = key"
  by (induction k x gs rule: insert_group.induct) auto

lemma insert_group_keyed: "groups_keyed gs \<Longrightarrow> groups_keyed (insert_group (group_key x) x gs)"
  using insert_group_key [of gs x "group_key x"]
  unfolding groups_keyed_def insert_group_fst by simp

lemma group_fold:
  assumes "groups_keyed gs"
  defines "f \<equiv> \<lambda>item gs. if \<not> is_open item \<or> reportFingerprint item = [] then gs
                     else insert_group (group_key item) item gs"
  shows "groups_keyed (fold f items gs) \<and>
    mset (group_members (fold f items gs)) = mset (group_members gs) + mset (filter groupable items)"
  using assms(1)
  by (induction items arbitrary: gs)
    (auto simp: f_def insert_group_keyed insert_group_members groupable_def)

lemma group_reports_spec:
  "groups_keyed (group_reports items)"
  "mset (group_members (group_reports items)) = mset (filter groupable items)"
  using group_fold [of "[]" items] by (simp_all add: group_reports_def groups_keyed_def)

lemma group_members_perm:
  "mset gs = mset hs \<Longrightarrow> mset (group_members gs) = mset (group_members hs)"
proof -
  have "mset (group_members xs) = (\<Sum>(k, c, es) \<in># mset xs. mset (c # es))" for xs
    by (induction xs) auto
  then show "mset gs = mset hs \<Longrightarrow> ?thesis" by simp
qed

lemma groups_keyed_perm: "mset gs = mset hs \<Longrightarrow> groups_keyed gs = groups_keyed hs"
proof -
  assume perm: "mset gs = mset hs"
  then have "mset (map fst gs) = mset (map fst hs)" by simp
  then have "distinct (map fst gs) = distinct (map fst hs)" by (rule mset_eq_imp_distinct_iff)
  then show ?thesis using mset_eq_setD [OF perm] by (simp add: groups_keyed_def)
qed

section \<open>What one group leaves\<close>

definition canonical_report :: "incident_report \<Rightarrow> incident_report list \<Rightarrow> incident_report" where
  "canonical_report c es =
     (let c1 = (if sp_Fingerprint (ir_Spec c) = []
                then c\<lparr>ir_Spec := (ir_Spec c)\<lparr>sp_Fingerprint := reportFingerprint c\<rparr>\<rparr> else c)
      in if es = [] then c1 else with_status (ir_Status (merge_extras c1 es)) c1)"

definition group_result :: "gotime \<Rightarrow> report_group \<Rightarrow> incident_report set" where
  "group_result now g = (case g of (k, c, es) \<Rightarrow>
     insert (canonical_report c es) (resolved_report now (merged_reason (report_name c)) ` set es))"

definition keys_of :: "incident_report set \<Rightarrow> (string \<times> string) set" where
  "keys_of S = report_key ` S"

definition without :: "(string \<times> string) set \<Rightarrow> incident_report set \<Rightarrow> incident_report set" where
  "without ks S = {x \<in> S. report_key x \<notin> ks}"

lemma canonical_report_meta [simp]:
  "ir_Meta (canonical_report c es) = ir_Meta c"
  "report_phase (canonical_report c es) = report_phase c"
  by (simp_all add: canonical_report_def merge_extras_def Let_def)

lemma canonical_report_open [simp]: "is_open (canonical_report c es) = is_open c"
  by (simp add: is_open_def)

lemma canonical_report_fingerprint:
  assumes "reportFingerprint c \<noteq> []"
    and "sp_Fingerprint (ir_Spec c) = [] \<Longrightarrow> str_cut (reportFingerprint c) ''|type|OTel'' = None"
  shows "reportFingerprint (canonical_report c es) = reportFingerprint c"
proof (cases "sp_Fingerprint (ir_Spec c) = []")
  case True
  then show ?thesis using assms
    by (intro reportFingerprint_set) (simp_all add: canonical_report_def Let_def)
next
  case False
  then show ?thesis by (simp add: canonical_report_def Let_def merge_extras_def reportFingerprint_def)
qed

lemma keys_of_group_result: "keys_of (group_result now (k, c, es)) = keys_of (set (c # es))"
  by (auto simp: keys_of_def group_result_def image_iff)

lemma put_without: "put_report r S = insert r (without {report_key r} S)"
  by (auto simp: put_report_def without_def)

lemma without_without: "without A (without B S) = without (A \<union> B) S"
  by (auto simp: without_def)

lemma without_mem:
  assumes "without A T = without A U" "x \<in> U" "report_key x \<notin> A"
  shows "x \<in> T"
proof -
  have "x \<in> without A T" unfolding assms(1) using assms(2,3) unfolding without_def by blast
  then show ?thesis by (simp only: without_def mem_Collect_eq)
qed

lemma without_trans:
  assumes "without A U = without A S" "without B T = without B U"
  shows "without (A \<union> B) T = without (A \<union> B) S"
proof -
  have "without (A \<union> B) T = without A (without B T)" by (simp add: without_without)
  also have "\<dots> = without B (without A U)" by (simp add: assms(2) without_without Un_commute)
  finally show ?thesis by (simp add: assms(1) without_without Un_commute)
qed

lemma without_disjoint: "keys_of S \<inter> A = {} \<Longrightarrow> without A S = S"
  by (auto simp: without_def keys_of_def)

lemma without_Un: "without A (S \<union> T) = without A S \<union> without A T"
  by (auto simp: without_def)

lemma keys_of_Un: "keys_of (S \<union> T) = keys_of S \<union> keys_of T"
  by (auto simp: keys_of_def)

lemma keys_of_insert: "keys_of (insert r S) = insert (report_key r) (keys_of S)"
  by (simp add: keys_of_def)

lemma without_insert: "report_key r \<notin> A \<Longrightarrow> without A (insert r S) = insert r (without A S)"
  by (auto simp: without_def)

lemma in_without: "T \<subseteq> S \<Longrightarrow> keys_of T \<inter> A = {} \<Longrightarrow> T \<subseteq> without A S"
  by (auto simp: without_def keys_of_def)

definition writes_succeed ::
    "'w kube \<Rightarrow> ('w \<Rightarrow> bool) \<Rightarrow> ('w \<Rightarrow> incident_report list) \<Rightarrow> bool" where
  "writes_succeed K ok reports \<longleftrightarrow>
     (\<forall>w b m. ok w \<longrightarrow> report_key b \<in> keys_of (set (reports w)) \<longrightarrow> report_key m = report_key b \<longrightarrow>
        (\<exists>r. fst (k_patch_report K w b m) = Inr r) \<and> (\<exists>r. fst (k_patch_status K w b m) = Inr r))"

definition unique_identity :: "incident_report set \<Rightarrow> bool" where
  "unique_identity S \<longleftrightarrow>
     (\<forall>r \<in> S. \<forall>x \<in> S. groupable r \<longrightarrow> groupable x \<longrightarrow> report_ns r = report_ns x \<longrightarrow>
        reportFingerprint r = reportFingerprint x \<longrightarrow> r = x)"

definition backfill_safe :: "incident_report \<Rightarrow> bool" where
  "backfill_safe r \<longleftrightarrow>
     (sp_Fingerprint (ir_Spec r) = [] \<longrightarrow> str_cut (reportFingerprint r) ''|type|OTel'' = None)"

definition fingerprints_stored :: "incident_report set \<Rightarrow> bool" where
  "fingerprints_stored S \<longleftrightarrow> (\<forall>r \<in> S. groupable r \<longrightarrow> sp_Fingerprint (ir_Spec r) \<noteq> [])"

definition identity_kept :: "incident_report \<Rightarrow> incident_report set \<Rightarrow> bool" where
  "identity_kept c T \<longleftrightarrow>
     (\<exists>x \<in> T. report_key x = report_key c \<and> groupable x \<and> group_key x = group_key c)"

lemma canonical_groupable:
  assumes "groupable c" "backfill_safe c"
  shows "groupable (canonical_report c es)" "group_key (canonical_report c es) = group_key c"
  using assms canonical_report_fingerprint [of c es]
  by (simp_all add: groupable_def backfill_safe_def group_key_def)

text \<open>The reports left by consolidating the groups of all groupable reports of \<open>S\<close>.\<close>

lemma consolidated_reports:
  assumes "groups_keyed gs" "set (group_members gs) = {r \<in> S. groupable r}" "\<forall>r \<in> S. groupable r \<longrightarrow> backfill_safe r"
    and T_def: "T = without (keys_of (set (group_members gs))) S \<union> \<Union> (group_result now ` set gs)"
  shows "unique_identity T" and "r \<in> S \<Longrightarrow> groupable r \<Longrightarrow> \<exists>r' \<in> T. groupable r' \<and> group_key r' = group_key r"
proof -
  have mem: "set (c # es) \<subseteq> {r \<in> S. groupable r}" if "(k, c, es) \<in> set gs" for k c es
    using group_in_members [OF that] assms(2) by blast
  have can: "\<exists>k c es. (k, c, es) \<in> set gs \<and> x = canonical_report c es \<and> group_key x = k"
    if xT: "x \<in> T" "groupable x" for x
  proof -
    have "x \<notin> without (keys_of (set (group_members gs))) S"
      using xT(2) assms(2) by (auto simp: without_def keys_of_def)
    then obtain k c es where g: "(k, c, es) \<in> set gs" "x \<in> group_result now (k, c, es)"
      using xT(1) by (auto simp: T_def)
    then have "x = canonical_report c es" using xT(2) by (auto simp: group_result_def groupable_def)
    moreover have "group_key x = k"
      using g mem [OF g(1)] assms(1,3) canonical_groupable(2) [of c es] calculation
      by (auto simp: groups_keyed_def)
    ultimately show ?thesis using g(1) by blast
  qed
  have fst_inj: "(k, g) \<in> set gs \<Longrightarrow> (k, h) \<in> set gs \<Longrightarrow> g = h" for k g h
    using assms(1) by (auto simp: groups_keyed_def eq_key_imp_eq_value)
  show "unique_identity T"
    unfolding unique_identity_def
  proof (intro ballI impI)
    fix x y assume xy: "x \<in> T" "y \<in> T" "groupable x" "groupable y" "report_ns x = report_ns y"
      "reportFingerprint x = reportFingerprint y"
    then have "group_key x = group_key y" by (simp add: group_key_def)
    with can [OF xy(1,3)] can [OF xy(2,4)] fst_inj show "x = y" by (metis Pair_inject)
  qed
  show "\<exists>r' \<in> T. groupable r' \<and> group_key r' = group_key r" if r: "r \<in> S" "groupable r"
  proof -
    from r assms(2) have "r \<in> set (group_members gs)" by auto
    then obtain k c es where g: "(k, c, es) \<in> set gs" "r \<in> set (c # es)" using group_members_in by blast
    then have "group_key r = group_key c" using assms(1) by (auto simp: groups_keyed_def)
    moreover have "canonical_report c es \<in> T" using g by (force simp: T_def group_result_def)
    ultimately show ?thesis using canonical_groupable [of c es] mem [OF g(1)] assms(3)
      by (intro bexI [of _ "canonical_report c es"]) auto
  qed
qed

context reporter_store
begin

lemma status_succeeds:
  assumes "writes_succeed (re_client E) inv reports" "inv w" "r \<in> set (reports w)"
  shows "\<exists>w'. k_patch_status (re_client E) w r (r\<lparr>ir_Status := s\<rparr>) = (Inr (with_status s r), w') \<and> inv w'
    \<and> set (reports w') = put_report (with_status s r) (set (reports w))"
proof -
  obtain res w' where p: "k_patch_status (re_client E) w r (r\<lparr>ir_Status := s\<rparr>) = (res, w')" by force
  have "fst (k_patch_status (re_client E) w r (r\<lparr>ir_Status := s\<rparr>)) \<noteq> Inl e" for e
    using assms(1) [unfolded writes_succeed_def, rule_format, OF assms(2), of r "r\<lparr>ir_Status := s\<rparr>"] assms(3)
    by (auto simp: keys_of_def)
  then obtain r' where "res = Inr r'" using p by (cases res) auto
  with status_put(1,3) [OF assms(2,3) p] p show ?thesis by auto
qed

lemma resolve_extra_effect:
  assumes "writes_succeed (re_client E) inv reports" "inv (rp_world st)" "e \<in> set (reports (rp_world st))"
  shows "inv (rp_world (resolve_extra E now name e st))"
    and "set (reports (rp_world (resolve_extra E now name e st))) =
      put_report (resolved_report now (merged_reason name) e) (set (reports (rp_world st)))"
proof -
  obtain s' obs where m: "MarkResolved (ir_Status e) now (merged_reason name) = (s', obs)" by force
  have 1: "inv (rp_world (observe E obs st))" "reports (rp_world (observe E obs st)) = reports (rp_world st)"
    using observe_keeps assms(2) by simp_all
  from status_succeeds [OF assms(1) 1(1), of e s'] assms(3) 1(2) obtain w' where
    p: "k_patch_status (re_client E) (rp_world (observe E obs st)) e (e\<lparr>ir_Status := s'\<rparr>) = (Inr (with_status s' e), w')"
      "inv w'" "set (reports w') = put_report (with_status s' e) (set (reports (rp_world st)))" by auto
  have "rp_world (resolve_extra E now name e st) = w'"
    by (simp add: resolve_extra_def m p(1) patch_logged_def Let_def)
  then show "inv (rp_world (resolve_extra E now name e st))"
    and "set (reports (rp_world (resolve_extra E now name e st))) =
      put_report (resolved_report now (merged_reason name) e) (set (reports (rp_world st)))"
    using p(2,3) m by (simp_all add: resolved_report_def)
qed

lemma extras_effect:
  assumes "writes_succeed (re_client E) inv reports" "inv (rp_world st)" "set es \<subseteq> set (reports (rp_world st))"
    and "distinct (map report_key es)"
  shows "inv (rp_world (fold (resolve_extra E now name) es st)) \<and>
    set (reports (rp_world (fold (resolve_extra E now name) es st))) =
      without (keys_of (set es)) (set (reports (rp_world st))) \<union> resolved_report now (merged_reason name) ` set es"
  using assms(2-4)
proof (induction es arbitrary: st)
  case Nil
  then show ?case by (simp add: without_def keys_of_def)
next
  case (Cons e es)
  let ?S = "set (reports (rp_world st))" and ?r = "resolved_report now (merged_reason name) e"
  define st1 where "st1 = resolve_extra E now name e st"
  have 1: "inv (rp_world st1)" "set (reports (rp_world st1)) = insert ?r (without {report_key e} ?S)"
    using resolve_extra_effect [OF assms(1) Cons.prems(1), of e now name] Cons.prems(2)
    by (simp_all add: st1_def put_without)
  have e: "report_key e \<notin> keys_of (set es)" using Cons.prems(3) by (simp add: keys_of_def)
  have "set es \<subseteq> without {report_key e} ?S" using Cons.prems(2) e by (intro in_without) auto
  with Cons.IH [OF 1(1)] 1(2) Cons.prems(3)
  have "inv (rp_world (fold (resolve_extra E now name) es st1))"
    "set (reports (rp_world (fold (resolve_extra E now name) es st1))) =
       without (keys_of (set es)) (insert ?r (without {report_key e} ?S)) \<union> resolved_report now (merged_reason name) ` set es"
    by auto
  moreover have "without (keys_of (set es)) (insert ?r (without {report_key e} ?S)) =
      insert ?r (without (keys_of (set (e # es))) ?S)"
    using e by (simp add: without_insert without_without keys_of_insert)
  ultimately show ?case by (simp add: st1_def)
qed

lemma backfill_effect:
  assumes "writes_succeed (re_client E) inv reports" "inv (rp_world st)" "c \<in> set (reports (rp_world st))"
  obtains st' where "backfill_fingerprint E c st = (canonical_report c [], st')" "inv (rp_world st')"
    "set (reports (rp_world st')) = put_report (canonical_report c []) (set (reports (rp_world st)))"
proof (cases "sp_Fingerprint (ir_Spec c) = []")
  case False
  have "put_report c (set (reports (rp_world st))) = set (reports (rp_world st))"
    using assms(3) keys_inj [OF assms(2)] by (auto simp: put_report_def dest: inj_onD)
  with False assms(2) that [of st] show thesis
    by (simp add: backfill_fingerprint_def canonical_report_def)
next
  case True
  let ?c = "c\<lparr>ir_Spec := (ir_Spec c)\<lparr>sp_Fingerprint := reportFingerprint c\<rparr>\<rparr>"
  obtain res w' where p: "k_patch_report (re_client E) (rp_world st) c ?c = (res, w')" by force
  have "fst (k_patch_report (re_client E) (rp_world st) c ?c) \<noteq> Inl e" for e
    using assms(1) [unfolded writes_succeed_def, rule_format, OF assms(2), of c ?c] assms(3)
    by (auto simp: keys_of_def)
  then obtain r' where r': "res = Inr r'" using p by (cases res) auto
  with patch_put(1,3) [OF assms(2,3) p base_agrees_refl] p True that [of "st\<lparr>rp_world := w'\<rparr>"] show thesis
    by (auto simp: backfill_fingerprint_def patch_logged_def canonical_report_def with_meta_def Let_def)
qed

lemma group_effect:
  assumes ok: "writes_succeed (re_client E) inv reports" "inv (rp_world st)"
    and sub: "set (c # es) \<subseteq> set (reports (rp_world st))" and dist: "distinct (map report_key (c # es))"
  shows "inv (rp_world (consolidate_group E now (k, c, es) st)) \<and>
    set (reports (rp_world (consolidate_group E now (k, c, es) st))) =
      without (keys_of (set (c # es))) (set (reports (rp_world st))) \<union> group_result now (k, c, es)"
proof -
  let ?S = "set (reports (rp_world st))" and ?c1 = "canonical_report c []" and ?c2 = "canonical_report c es"
  define st0 where "st0 = st\<lparr>rp_open := (rp_open st)(reportFingerprint c \<mapsto> report_key c)\<rparr>"
  have 0: "rp_world st0 = rp_world st" by (simp add: st0_def)
  obtain st1 where 1: "backfill_fingerprint E c st0 = (?c1, st1)" "inv (rp_world st1)"
    "set (reports (rp_world st1)) = put_report ?c1 ?S"
    using backfill_effect [OF ok(1), of st0 c] ok(2) sub by (auto simp: 0)
  show ?thesis
  proof (cases "es = []")
    case True
    then have "consolidate_group E now (k, c, es) st = st1"
      using 1(1) by (simp add: consolidate_group_def st0_def [symmetric])
    then show ?thesis using 1 True by (simp add: put_without keys_of_def group_result_def)
  next
    case False
    have merge: "merge_extras ?c1 es = ?c1\<lparr>ir_Status := ir_Status (merge_extras ?c1 es)\<rparr>"
      by (simp add: merge_extras_def)
    have c2: "with_status (ir_Status (merge_extras ?c1 es)) ?c1 = ?c2"
      using False by (simp add: canonical_report_def Let_def)
    from status_succeeds [OF ok(1) 1(2), of ?c1 "ir_Status (merge_extras ?c1 es)"] 1(3) obtain w2 where
      2: "k_patch_status (re_client E) (rp_world st1) ?c1 (merge_extras ?c1 es) = (Inr ?c2, w2)" "inv w2"
        "set (reports w2) = put_report ?c2 (put_report ?c1 ?S)"
      unfolding c2 merge [symmetric] by (auto simp: in_put)
    have S2: "set (reports w2) = insert ?c2 (without {report_key c} ?S)"
    proof -
      have "put_report ?c2 (put_report ?c1 ?S) = put_report ?c2 ?S" by (rule put_put) simp
      then show ?thesis using 2(3) by (simp add: put_without)
    qed
    have c: "report_key c \<notin> keys_of (set es)" using dist by (simp add: keys_of_def)
    then have es: "set es \<subseteq> set (reports w2)"
      unfolding S2 using sub in_without [of "set es" ?S "{report_key c}"] by auto
    have run: "consolidate_group E now (k, c, es) st = fold (resolve_extra E now (report_name c)) es (st1\<lparr>rp_world := w2\<rparr>)"
      using 1(1) 2(1) False by (simp add: consolidate_group_def st0_def [symmetric] patch_logged_def Let_def)
    have "without (keys_of (set es)) (set (reports w2)) = insert ?c2 (without (keys_of (set (c # es))) ?S)"
      using c by (simp add: S2 without_insert without_without keys_of_insert)
    then show ?thesis
      using extras_effect [OF ok(1), of "st1\<lparr>rp_world := w2\<rparr>" es now "report_name c"] 2(2) es dist
      by (auto simp: run group_result_def)
  qed
qed

lemma groups_effect:
  assumes "writes_succeed (re_client E) inv reports" "inv (rp_world st)"
    and "set (group_members gs) \<subseteq> set (reports (rp_world st))" "distinct (map report_key (group_members gs))"
  shows "inv (rp_world (fold (consolidate_group E now) gs st)) \<and>
    set (reports (rp_world (fold (consolidate_group E now) gs st))) =
      without (keys_of (set (group_members gs))) (set (reports (rp_world st))) \<union> \<Union> (group_result now ` set gs)"
  using assms(2-4)
proof (induction gs arbitrary: st)
  case Nil
  then show ?case by (simp add: without_def keys_of_def)
next
  case (Cons g gs)
  obtain k c es where g: "g = (k, c, es)" by (cases g)
  let ?S = "set (reports (rp_world st))" and ?ms = "set (group_members gs)"
  define st1 where "st1 = consolidate_group E now g st"
  have 1: "inv (rp_world st1)"
    "set (reports (rp_world st1)) = without (keys_of (set (c # es))) ?S \<union> group_result now g"
    using group_effect [OF assms(1) Cons.prems(1), of c es now k] Cons.prems(2,3) by (simp_all add: st1_def g)
  have disj: "keys_of ?ms \<inter> keys_of (set (c # es)) = {}"
    using Cons.prems(3) by (auto simp: g keys_of_def)
  have "?ms \<subseteq> without (keys_of (set (c # es))) ?S" using Cons.prems(2) disj by (intro in_without) (auto simp: g)
  with Cons.IH [OF 1(1)] 1(2) Cons.prems(3) have
    "inv (rp_world (fold (consolidate_group E now) gs st1))"
    "set (reports (rp_world (fold (consolidate_group E now) gs st1))) =
       without (keys_of ?ms) (without (keys_of (set (c # es))) ?S \<union> group_result now g) \<union> \<Union> (group_result now ` set gs)"
    by (auto simp: g)
  moreover have "without (keys_of ?ms) (without (keys_of (set (c # es))) ?S \<union> group_result now g) =
      without (keys_of (set (group_members (g # gs)))) ?S \<union> group_result now g"
    using disj keys_of_group_result [of now k c es]
    by (simp add: without_Un without_without without_disjoint g keys_of_Un keys_of_insert Int_commute Un_commute
        insert_commute)
  ultimately show ?case by (simp add: st1_def Un_assoc)
qed

text \<open>
  With failing writes, where every open report stores its fingerprint: each group changes only its
  own reports, and its canonical report stays open under the same fingerprint.
\<close>

lemma resolve_extra_frame:
  assumes "inv (rp_world st)" "e \<in> set (reports (rp_world st))"
    and st'_def: "st' = resolve_extra E now name e st"
  shows "inv (rp_world st')" and "without {report_key e} (set (reports (rp_world st'))) =
      without {report_key e} (set (reports (rp_world st)))"
proof -
  obtain s' obs where m: "MarkResolved (ir_Status e) now (merged_reason name) = (s', obs)" by force
  have 1: "inv (rp_world (observe E obs st))" "reports (rp_world (observe E obs st)) = reports (rp_world st)"
    using observe_keeps assms(1) by simp_all
  obtain res w' where p: "k_patch_status (re_client E) (rp_world (observe E obs st)) e (e\<lparr>ir_Status := s'\<rparr>) = (res, w')"
    by force
  have st': "rp_world st' = w'"
    by (cases res) (simp_all add: st'_def resolve_extra_def m p patch_logged_def Let_def)
  note put = status_put [OF 1(1) assms(2) [folded 1(2)] p, unfolded 1(2)]
  show "inv (rp_world st')" using put(1) st' by simp
  show "without {report_key e} (set (reports (rp_world st'))) = without {report_key e} (set (reports (rp_world st)))"
    using put(2,3) st' by (cases res) (auto simp: without_def in_put)
qed

lemma extras_frame:
  assumes "inv (rp_world st)" "set es \<subseteq> set (reports (rp_world st))" "distinct (map report_key es)"
    and st'_def: "st' = fold (resolve_extra E now name) es st"
  shows "inv (rp_world st') \<and> without (keys_of (set es)) (set (reports (rp_world st'))) =
      without (keys_of (set es)) (set (reports (rp_world st)))"
  using assms(1-3) unfolding assms(4)
proof (induction es arbitrary: st)
  case (Cons e es)
  define st1 where "st1 = resolve_extra E now name e st"
  note 1 = resolve_extra_frame [of st e st1 now name, OF _ _ st1_def]
  have e: "report_key e \<notin> keys_of (set es)" using Cons.prems(3) by (simp add: keys_of_def)
  then have "set es \<subseteq> set (reports (rp_world st1))"
    using 1(2) Cons.prems(1,2) in_without [of "set es" "set (reports (rp_world st))" "{report_key e}"]
    by (auto simp: without_def)
  with Cons.IH [of st1] 1(1) Cons.prems
  have 2: "inv (rp_world (fold (resolve_extra E now name) es st1))"
    "without (keys_of (set es)) (set (reports (rp_world (fold (resolve_extra E now name) es st1)))) =
      without (keys_of (set es)) (set (reports (rp_world st1)))"
    by simp_all
  have "keys_of (set (e # es)) = {report_key e} \<union> keys_of (set es)" by (simp add: keys_of_insert)
  then show ?case using without_trans [OF 1(2) 2(2)] 2(1) Cons.prems(1,2) by (simp add: st1_def)
qed simp

lemma group_frame:
  assumes w: "inv (rp_world st)" "set (c # es) \<subseteq> set (reports (rp_world st))"
    and dist: "distinct (map report_key (c # es))"
    and c: "groupable c" "sp_Fingerprint (ir_Spec c) \<noteq> []"
    and st'_def: "st' = consolidate_group E now (k, c, es) st"
  shows "inv (rp_world st')" and "without (keys_of (set (c # es))) (set (reports (rp_world st'))) =
      without (keys_of (set (c # es))) (set (reports (rp_world st)))"
    and "identity_kept c (set (reports (rp_world st')))"
proof -
  let ?S = "set (reports (rp_world st))" and ?ks = "keys_of (set es)"
  have ck: "report_key c \<notin> ?ks" using dist by (simp add: keys_of_def)
  have kept: "identity_kept c T" if "x \<in> T" "x = c \<or> x = canonical_report c es" for x T
    using that c canonical_groupable [of c es]
    by (auto simp: identity_kept_def backfill_safe_def intro!: bexI [of _ x])
  have "inv (rp_world st') \<and> without (keys_of (set (c # es))) (set (reports (rp_world st'))) =
      without (keys_of (set (c # es))) ?S \<and> identity_kept c (set (reports (rp_world st')))"
  proof (cases "es = []")
    case True
    then have "rp_world st' = rp_world st"
      using c(2) by (simp add: st'_def consolidate_group_def backfill_fingerprint_def)
    then show ?thesis using w kept [of c ?S] by simp
  next
    case False
    define m where "m = ir_Status (merge_extras c es)"
    have m: "merge_extras c es = c\<lparr>ir_Status := m\<rparr>" by (simp add: m_def merge_extras_def)
    have can: "with_status m c = canonical_report c es"
      using False c(2) by (simp add: canonical_report_def m_def)
    obtain res w2 where p: "k_patch_status (re_client E) (rp_world st) c (c\<lparr>ir_Status := m\<rparr>) = (res, w2)" by force
    have cS: "c \<in> ?S" using w(2) by simp
    note put = status_put [OF w(1) cS p]
    define st2 where "st2 = st\<lparr>rp_open := (rp_open st)(reportFingerprint c \<mapsto> report_key c), rp_world := w2\<rparr>"
    have name: "report_name (fst (patch_logged (res, w2) (c\<lparr>ir_Status := m\<rparr>) st)) = report_name c"
      using put(3) by (cases res) (auto simp: patch_logged_def)
    have run: "st' = fold (resolve_extra E now (report_name c)) es st2"
      using False c(2) p name
      by (cases res) (simp_all add: st'_def consolidate_group_def backfill_fingerprint_def patch_logged_def m st2_def Let_def)
    have S2: "without {report_key c} (set (reports w2)) = without {report_key c} ?S"
      "c \<in> set (reports w2) \<or> canonical_report c es \<in> set (reports w2)"
      using put(2,3) cS by (cases res; auto simp: without_def in_put can)+
    have "set es \<subseteq> without {report_key c} ?S" using w(2) ck in_without [of "set es" ?S "{report_key c}"] by auto
    then have es: "set es \<subseteq> set (reports (rp_world st2))" using S2(1) by (auto simp: st2_def without_def)
    have fr: "inv (rp_world st')" "without ?ks (set (reports (rp_world st'))) = without ?ks (set (reports w2))"
      using extras_frame [of st2 es st' now "report_name c"] put(1) es dist by (simp_all add: run st2_def)
    have "without (keys_of (set (c # es))) (set (reports (rp_world st'))) = without (keys_of (set (c # es))) ?S"
      using without_trans [OF S2(1) fr(2)] by (simp add: keys_of_insert)
    moreover have "x \<in> set (reports w2) \<Longrightarrow> x = c \<or> x = canonical_report c es \<Longrightarrow> x \<in> set (reports (rp_world st'))" for x
      using without_mem [OF fr(2), of x] ck by auto
    then have "identity_kept c (set (reports (rp_world st')))" using S2(2) kept by blast
    ultimately show ?thesis using fr(1) by blast
  qed
  then show "inv (rp_world st')" "without (keys_of (set (c # es))) (set (reports (rp_world st'))) =
      without (keys_of (set (c # es))) ?S" "identity_kept c (set (reports (rp_world st')))" by blast+
qed

lemma groups_frame:
  assumes "inv (rp_world st)" "set (group_members gs) \<subseteq> set (reports (rp_world st))"
    and "distinct (map report_key (group_members gs))"
    and "\<forall>r \<in> set (group_members gs). groupable r \<and> sp_Fingerprint (ir_Spec r) \<noteq> []"
    and st'_def: "st' = fold (consolidate_group E now) gs st"
  shows "inv (rp_world st') \<and> without (keys_of (set (group_members gs))) (set (reports (rp_world st'))) =
      without (keys_of (set (group_members gs))) (set (reports (rp_world st)))
    \<and> (\<forall>(k, c, es) \<in> set gs. identity_kept c (set (reports (rp_world st'))))"
  using assms(1-4) unfolding assms(5)
proof (induction gs arbitrary: st)
  case (Cons g gs)
  obtain k c es where g: "g = (k, c, es)" by (cases g)
  let ?ks = "keys_of (set (c # es))" and ?ms = "set (group_members gs)"
  define st1 where "st1 = consolidate_group E now g st"
  define st2 where "st2 = fold (consolidate_group E now) gs st1"
  have 1: "inv (rp_world st1)" "without ?ks (set (reports (rp_world st1))) = without ?ks (set (reports (rp_world st)))"
    "identity_kept c (set (reports (rp_world st1)))"
    using group_frame [of st c es st1 now k] Cons.prems by (simp_all add: g st1_def)
  have disj: "keys_of ?ms \<inter> ?ks = {}" using Cons.prems(3) by (auto simp: g keys_of_def)
  have "?ms \<subseteq> without ?ks (set (reports (rp_world st)))" using Cons.prems(2) disj by (intro in_without) (auto simp: g)
  then have "?ms \<subseteq> set (reports (rp_world st1))" using 1(2) by (auto simp: without_def)
  with Cons.IH [of st1] 1(1) Cons.prems(3,4) have 2: "inv (rp_world st2)"
    "without (keys_of ?ms) (set (reports (rp_world st2))) = without (keys_of ?ms) (set (reports (rp_world st1)))"
    "\<forall>(k, c, es) \<in> set gs. identity_kept c (set (reports (rp_world st2)))"
    by (auto simp: g st2_def)
  have "report_key c \<notin> keys_of ?ms" using disj by (auto simp: keys_of_insert)
  then have "identity_kept c (set (reports (rp_world st2)))" using 1(3) 2(2)
    by (auto simp: identity_kept_def without_def)
  moreover have "keys_of (set (group_members (g # gs))) = ?ks \<union> keys_of ?ms"
    by (simp add: g keys_of_Un keys_of_insert)
  ultimately show ?case using without_trans [OF 1(2) 2(2)] 2(1,3) by (simp add: g st2_def st1_def)
qed simp

lemma consolidate_groups:
  assumes "inv (rp_world st)" "\<And>gs. mset (order gs) = mset gs" "Consolidate E order now st = (None, st')"
  obtains gs where "st' = fold (consolidate_group E now) gs st" "groups_keyed gs"
    "set (group_members gs) = {r \<in> set (reports (rp_world st)). groupable r}"
    "distinct (map report_key (group_members gs))"
proof -
  obtain items where items: "k_list_reports (re_client E) (rp_world st) None None = Inr items"
    and st': "st' = fold (consolidate_group E now) (order (group_reports items)) st"
    using assms(3) by (auto simp: Consolidate_def split: sum.splits)
  let ?gs = "order (group_reports items)" and ?S = "set (reports (rp_world st))"
  have all: "distinct items" "set items = ?S" using list_stored [OF assms(1) items] by (auto simp: matches_selector_def)
  have perm: "mset (group_members ?gs) = mset (filter groupable items)"
    using group_members_perm [OF assms(2)] group_reports_spec(2) by simp
  have ms: "set (group_members ?gs) = {r \<in> ?S. groupable r}" using mset_eq_setD [OF perm] all(2) by simp
  have "distinct (group_members ?gs)" using mset_eq_imp_distinct_iff [OF perm] all(1) by simp
  then have "distinct (map report_key (group_members ?gs))"
    using ms keys_inj [OF assms(1)] by (auto simp: distinct_map intro: inj_on_subset)
  moreover have "groups_keyed ?gs" using groups_keyed_perm [OF assms(2)] group_reports_spec(1) by blast
  ultimately show thesis using that st' ms by blast
qed

lemma consolidate_effect:
  assumes "writes_succeed (re_client E) inv reports" "inv (rp_world st)"
    and "\<And>gs. mset (order gs) = mset gs" "Consolidate E order now st = (None, st')"
  shows "\<exists>gs. groups_keyed gs \<and>
    set (group_members gs) = {r \<in> set (reports (rp_world st)). groupable r} \<and>
    set (reports (rp_world st')) = without (keys_of (set (group_members gs))) (set (reports (rp_world st)))
      \<union> \<Union> (group_result now ` set gs)"
proof -
  obtain gs where gs: "st' = fold (consolidate_group E now) gs st" "groups_keyed gs"
    "set (group_members gs) = {r \<in> set (reports (rp_world st)). groupable r}"
    "distinct (map report_key (group_members gs))"
    using consolidate_groups [OF assms(2-4)] .
  with groups_effect [OF assms(1,2) _ gs(4)] show ?thesis by (auto intro!: exI [of _ gs])
qed

lemma consolidate_keeps:
  assumes "inv (rp_world st)" "\<And>gs. mset (order gs) = mset gs" "Consolidate E order now st = (None, st')"
    and "fingerprints_stored (set (reports (rp_world st)))" "r \<in> set (reports (rp_world st))" "groupable r"
  shows "\<exists>r' \<in> set (reports (rp_world st')). groupable r' \<and> group_key r' = group_key r"
proof -
  obtain gs where gs: "st' = fold (consolidate_group E now) gs st" "groups_keyed gs"
    "set (group_members gs) = {r \<in> set (reports (rp_world st)). groupable r}"
    "distinct (map report_key (group_members gs))"
    using consolidate_groups [OF assms(1-3)] .
  obtain k c es where g: "(k, c, es) \<in> set gs" "r \<in> set (c # es)"
    using group_members_in [of r gs] gs(3) assms(5,6) by blast
  have "set (group_members gs) \<subseteq> set (reports (rp_world st))"
    "\<forall>r \<in> set (group_members gs). groupable r \<and> sp_Fingerprint (ir_Spec r) \<noteq> []"
    using assms(4) by (simp_all add: gs(3) fingerprints_stored_def)
  from groups_frame [OF assms(1) this(1) gs(4) this(2) gs(1)] g(1)
  have "identity_kept c (set (reports (rp_world st')))" by blast
  moreover have "group_key c = group_key r" using gs(2) g by (auto simp: groups_keyed_def)
  ultimately show ?thesis unfolding identity_kept_def by metis
qed

end

section \<open>Properties\<close>

text \<open>C5.
  Consolidation on a store that follows the API server's laws, in whatever order Go visits the
  groups, when the initial list succeeds. If every write succeeds, it leaves at most one open report
  per namespace and fingerprint. And every identity that had an open report still has one, if every
  write succeeds or if every open report already stores its fingerprint, in which case any of the
  writes may fail. Throughout, the fingerprint computed for an open report that stores none must
  not contain the legacy marker \<open>|type|OTel\<close>.
\<close>

theorem Consolidate_unique:
  assumes "report_store (re_client E) ok reports" "ok (rp_world st)"
    and "\<And>gs. mset (order gs) = mset gs"
    and "\<forall>r \<in> set (reports (rp_world st)). groupable r \<longrightarrow> backfill_safe r"
    and "Consolidate E order now st = (None, st')"
  shows "(writes_succeed (re_client E) ok reports \<longrightarrow> unique_identity (set (reports (rp_world st'))))
    \<and> (writes_succeed (re_client E) ok reports \<or> fingerprints_stored (set (reports (rp_world st))) \<longrightarrow>
        (\<forall>r \<in> set (reports (rp_world st)). groupable r \<longrightarrow>
           (\<exists>r' \<in> set (reports (rp_world st')). groupable r' \<and> group_key r' = group_key r)))"
proof -
  note rs = reporter_storeI [OF assms(1)]
  let ?S = "set (reports (rp_world st))" and ?T = "set (reports (rp_world st'))"
  have all: "unique_identity ?T \<and> (\<forall>r \<in> ?S. groupable r \<longrightarrow> (\<exists>r' \<in> ?T. groupable r' \<and> group_key r' = group_key r))"
    if ws: "writes_succeed (re_client E) ok reports"
  proof -
    obtain gs where gs: "groups_keyed gs" "set (group_members gs) = {r \<in> ?S. groupable r}"
      "?T = without (keys_of (set (group_members gs))) ?S \<union> \<Union> (group_result now ` set gs)"
      using reporter_store.consolidate_effect [OF rs ws assms(2,3,5)] by blast
    from consolidated_reports [OF gs(1,2) assms(4) gs(3)] show ?thesis by blast
  qed
  have "\<exists>r' \<in> ?T. groupable r' \<and> group_key r' = group_key r"
    if "fingerprints_stored ?S" "r \<in> ?S" "groupable r" for r
    using reporter_store.consolidate_keeps [OF rs assms(2,3,5) that] .
  with all show ?thesis by blast
qed

lemma mem_writes_succeed: "writes_succeed mem_client mem_inv mw_reports"
  by (auto simp: writes_succeed_def keys_of_def mem_client_def mem_put_def lookup_report_None image_iff
      split: option.splits)

text \<open>A store with two open reports for one pod, as two replicas of the operator could leave it.\<close>

definition twin_report :: "string \<Rightarrow> gotime \<Rightarrow> incident_report" where
  "twin_report name ts = created_report mem_env sample_input (Fingerprint sample_input) name ts"

definition mem_twins :: "mem_world rep_state" where
  "mem_twins = mem_empty\<lparr>rp_world := (rp_world mem_empty)\<lparr>mw_reports := [twin_report ''b'' 2, twin_report ''a'' 1]\<rparr>\<rparr>"

lemma twin_report_fields:
  "report_ns (twin_report name ts) = ''shop''" "report_name (twin_report name ts) = name"
  "sp_Fingerprint (ir_Spec (twin_report name ts)) \<noteq> []" "groupable (twin_report name ts)"
  "reportFingerprint (twin_report name ts) = Fingerprint sample_input"
proof -
  show fp: "reportFingerprint (twin_report name ts) = Fingerprint sample_input"
    using sample_identifiable unfolding identifiable_def twin_report_def
    by (intro reportFingerprint_set) (simp_all add: created_report_def new_report_def Let_def)
  show "sp_Fingerprint (ir_Spec (twin_report name ts)) \<noteq> []"
    using sample_identifiable by (simp add: identifiable_def twin_report_def created_report_def new_report_def Let_def)
  show "groupable (twin_report name ts)" using sample_identifiable
    by (simp add: groupable_def fp identifiable_def)
      (simp add: twin_report_def created_report_def new_report_def Let_def is_open_def new_status_def)
qed (simp_all add: twin_report_def created_report_def new_report_def Let_def sample_input_def)

theorem Consolidate_unique_witness:
  "unique_identity (set (mw_reports (rp_world (snd (Consolidate mem_env (\<lambda>gs. gs) 9000000000 mem_twins)))))
   \<and> \<not> unique_identity (set (mw_reports (rp_world mem_twins)))"
proof -
  have rs: "mw_reports (rp_world mem_twins) = [twin_report ''b'' 2, twin_report ''a'' 1]" by (simp add: mem_twins_def)
  have inv: "mem_inv (rp_world mem_twins)"
    using twin_report_fields by (simp add: mem_inv_def keys_distinct_def rs)
  have run: "Consolidate mem_env (\<lambda>gs. gs) 9000000000 mem_twins
      = (None, snd (Consolidate mem_env (\<lambda>gs. gs) 9000000000 mem_twins))"
    by (simp add: Consolidate_def mem_client_def)
  have safe: "\<forall>r \<in> set (mw_reports (rp_world mem_twins)). groupable r \<longrightarrow> backfill_safe r"
    using twin_report_fields by (simp add: rs backfill_safe_def)
  have "unique_identity (set (mw_reports (rp_world (snd (Consolidate mem_env (\<lambda>gs. gs) 9000000000 mem_twins)))))"
    using Consolidate_unique [OF mem_report_store inv _ safe run] mem_writes_succeed by simp
  moreover have "twin_report ''b'' 2 \<noteq> twin_report ''a'' 1"
    using twin_report_fields(2) [of "''b''" 2] twin_report_fields(2) [of "''a''" 1] by auto
  then have "\<not> unique_identity (set (mw_reports (rp_world mem_twins)))"
    using twin_report_fields by (auto simp: unique_identity_def rs)
  ultimately show ?thesis by blast
qed

section \<open>When the writes fail\<close>

text \<open>
  Consolidation logs a failed patch and goes on, so it also returns no error when no duplicate could
  be resolved: with a client that refuses every status patch the two open reports of one pod stay.
\<close>

definition refusing_env :: "mem_world rep_env" where
  "refusing_env = mem_env\<lparr>re_client := mem_client\<lparr>
     k_patch_report := (\<lambda>w b m. (Inl (KubeError ''refused''), w)),
     k_patch_status := (\<lambda>w b m. (Inl (KubeError ''refused''), w))\<rparr>\<rparr>"

lemma refusing_observe: "mw_reports (rp_world (observe refusing_env obs st)) = mw_reports (rp_world st)"
proof -
  have "mw_reports (fold (\<lambda>ob w. w\<lparr>mw_log := mw_log w @ [ob]\<rparr>) obs w) = mw_reports w" for w :: mem_world
    by (induction obs arbitrary: w) simp_all
  then show ?thesis by (simp add: observe_def refusing_env_def mem_client_def)
qed

lemma refusing_extras:
  "mw_reports (rp_world (fold (resolve_extra refusing_env now name) es st)) = mw_reports (rp_world st)"
proof (induction es arbitrary: st)
  case (Cons e es)
  have "mw_reports (rp_world (resolve_extra refusing_env now name e st)) = mw_reports (rp_world st)"
    using refusing_observe [of _ st]
    by (simp add: resolve_extra_def patch_logged_def Let_def split: prod.split) (simp add: refusing_env_def)
  then show ?case using Cons.IH by simp
qed simp

lemma refusing_group:
  "mw_reports (rp_world (consolidate_group refusing_env now g st)) = mw_reports (rp_world st)"
  by (cases g)
    (simp add: consolidate_group_def backfill_fingerprint_def patch_logged_def Let_def refusing_extras
      refusing_env_def [THEN arg_cong, of re_client])

lemma refused_duplicates_stay:
  "fst (Consolidate refusing_env order now mem_twins) = None
   \<and> mw_reports (rp_world (snd (Consolidate refusing_env order now mem_twins)))
       = [twin_report ''b'' 2, twin_report ''a'' 1]
   \<and> \<not> unique_identity {twin_report ''b'' 2, twin_report ''a'' 1}"
proof -
  have "mw_reports (rp_world (fold (consolidate_group refusing_env now) gs st)) = mw_reports (rp_world st)" for gs st
    by (induction gs arbitrary: st) (simp_all add: refusing_group)
  moreover have "k_list_reports (re_client refusing_env) w nsel sel = k_list_reports mem_client w nsel sel" for w nsel sel
    by (simp add: refusing_env_def)
  moreover have "twin_report ''b'' 2 \<noteq> twin_report ''a'' 1"
    using twin_report_fields(2) [of "''b''" 2] twin_report_fields(2) [of "''a''" 1] by auto
  ultimately show ?thesis
    using twin_report_fields by (auto simp: Consolidate_def mem_client_sel unique_identity_def mem_twins_def)
qed

end
