(* ===== verification/Buffer.thy ===== *)
theory Buffer
  imports Events
begin

text \<open>
  The sliding-window event store of \<open>internal/correlator/correlator.go\<close> with its per-trace
  index and its subscribers, the registry of correlation rules (\<open>rules.go\<close>), the priority-ordered
  correlator, and the classification of events for the dashboard stream (\<open>classify.go\<close>). Every
  operation takes the lock, so it is one atomic step; the clock \<open>nowFn\<close> is the argument \<open>now\<close>.
\<close>

section \<open>Buffer\<close>

record entry =
  en_Event :: correlator_event
  en_AddedAt :: gotime

record subscriber =
  sub_ch :: nat
  sub_cap :: nat
  sub_queue :: "entry list"

text \<open>\<open>byTrace\<close> is a total function: an absent key of the Go map reads as the nil slice.\<close>

record buffer =
  bf_entries :: "entry list"
  bf_byTrace :: "string \<Rightarrow> entry list"
  bf_window :: duration
  bf_subs :: "subscriber list"

definition NewBuffer :: "duration \<Rightarrow> buffer" where
  "NewBuffer window = \<lparr>bf_entries = [], bf_byTrace = (\<lambda>_. []), bf_window = window, bf_subs = []\<rparr>"

definition Window :: "buffer \<Rightarrow> duration" where
  "Window b = bf_window b"

definition index_entry :: "entry \<Rightarrow> (string \<Rightarrow> entry list) \<Rightarrow> (string \<Rightarrow> entry list)" where
  "index_entry en idx =
     (let traceID = extractTraceID (en_Event en)
      in if traceID \<noteq> [] then idx(traceID := idx traceID @ [en]) else idx)"

definition buf_purgeOld :: "gotime \<Rightarrow> buffer \<Rightarrow> buffer" where
  "buf_purgeOld now b =
     (let cutoff = now - bf_window b;
          kept = dropWhile (\<lambda>en. time_before (en_AddedAt en) cutoff) (bf_entries b)
      in if length kept = length (bf_entries b) then b
         else b\<lparr>bf_entries := kept, bf_byTrace := fold index_entry kept (\<lambda>_. [])\<rparr>)"

text \<open>\<open>Subscribe\<close> and the closure it returns; delivery to a full channel drops the entry.\<close>

definition Subscribe :: "nat \<Rightarrow> nat \<Rightarrow> buffer \<Rightarrow> buffer" where
  "Subscribe ch cap b =
     (if ch \<in> sub_ch ` set (bf_subs b) then b
      else b\<lparr>bf_subs := bf_subs b @ [\<lparr>sub_ch = ch, sub_cap = cap, sub_queue = []\<rparr>]\<rparr>)"

definition Unsubscribe :: "nat \<Rightarrow> buffer \<Rightarrow> buffer" where
  "Unsubscribe ch b = b\<lparr>bf_subs := filter (\<lambda>s. sub_ch s \<noteq> ch) (bf_subs b)\<rparr>"

definition deliver :: "entry \<Rightarrow> subscriber \<Rightarrow> subscriber" where
  "deliver en s =
     (if length (sub_queue s) < sub_cap s then s\<lparr>sub_queue := sub_queue s @ [en]\<rparr> else s)"

definition buf_Add :: "gotime \<Rightarrow> correlator_event \<Rightarrow> buffer \<Rightarrow> buffer" where
  "buf_Add now e b =
     (let b1 = buf_purgeOld now b;
          en = \<lparr>en_Event = e, en_AddedAt = now\<rparr>
      in b1\<lparr>bf_entries := bf_entries b1 @ [en],
            bf_byTrace := index_entry en (bf_byTrace b1),
            bf_subs := map (deliver en) (bf_subs b1)\<rparr>)"

definition Snapshot :: "gotime \<Rightarrow> buffer \<Rightarrow> entry list \<times> buffer" where
  "Snapshot now b = (let b1 = buf_purgeOld now b in (bf_entries b1, b1))"

definition SnapshotByTrace :: "gotime \<Rightarrow> string \<Rightarrow> buffer \<Rightarrow> entry list \<times> buffer" where
  "SnapshotByTrace now traceID b =
     (if traceID = [] then ([], b)
      else let b1 = buf_purgeOld now b in (bf_byTrace b1 traceID, b1))"

section \<open>Invariants of the buffer\<close>

definition trace_scan :: "string \<Rightarrow> entry list \<Rightarrow> entry list" where
  "trace_scan t es = filter (\<lambda>en. t \<noteq> [] \<and> extractTraceID (en_Event en) = t) es"

definition index_ok :: "buffer \<Rightarrow> bool" where
  "index_ok b \<longleftrightarrow> (\<forall>t. bf_byTrace b t = trace_scan t (bf_entries b))"

definition time_ordered :: "buffer \<Rightarrow> bool" where
  "time_ordered b \<longleftrightarrow> sorted (map en_AddedAt (bf_entries b))"

lemma index_entry_scan: "index_entry en (\<lambda>t. trace_scan t es) = (\<lambda>t. trace_scan t (es @ [en]))"
  by (auto simp: index_entry_def trace_scan_def Let_def fun_eq_iff)

lemma fold_index_scan: "fold index_entry es (\<lambda>t. trace_scan t ds) = (\<lambda>t. trace_scan t (ds @ es))"
  by (induction es arbitrary: ds) (simp_all add: index_entry_scan)

lemma rebuild_index: "fold index_entry es (\<lambda>_. []) = (\<lambda>t. trace_scan t es)"
  using fold_index_scan [of es "[]"] by (simp add: trace_scan_def)

lemma buf_purgeOld_entries:
  "bf_entries (buf_purgeOld now b) =
     dropWhile (\<lambda>en. en_AddedAt en < now - bf_window b) (bf_entries b)"
  by (auto simp: buf_purgeOld_def Let_def time_before_def dest: dropWhile_same_length)

lemma buf_purgeOld_window [simp]: "bf_window (buf_purgeOld now b) = bf_window b"
  by (simp add: buf_purgeOld_def Let_def)

lemma buf_purgeOld_subs [simp]: "bf_subs (buf_purgeOld now b) = bf_subs b"
  by (simp add: buf_purgeOld_def Let_def)

lemma index_ok_purge: "index_ok b \<Longrightarrow> index_ok (buf_purgeOld now b)"
  by (auto simp: index_ok_def buf_purgeOld_def Let_def rebuild_index)

lemma index_ok_Add: "index_ok b \<Longrightarrow> index_ok (buf_Add now e b)"
proof -
  assume "index_ok b"
  then have "bf_byTrace (buf_purgeOld now b) = (\<lambda>t. trace_scan t (bf_entries (buf_purgeOld now b)))"
    using index_ok_purge by (auto simp: index_ok_def)
  then show ?thesis by (simp add: buf_Add_def Let_def index_ok_def index_entry_scan)
qed

lemma time_ordered_purge: "time_ordered b \<Longrightarrow> time_ordered (buf_purgeOld now b)"
  by (simp add: time_ordered_def buf_purgeOld_entries sorted_map_dropWhile)

lemma time_ordered_Add:
  assumes "time_ordered b" and "\<And>en. en \<in> set (bf_entries b) \<Longrightarrow> en_AddedAt en \<le> now"
  shows "time_ordered (buf_Add now e b)"
proof -
  have "set (bf_entries (buf_purgeOld now b)) \<subseteq> set (bf_entries b)"
    by (simp add: buf_purgeOld_entries set_dropWhile_subset)
  then show ?thesis
    using time_ordered_purge [OF assms(1), of now] assms(2)
    by (auto simp: time_ordered_def buf_Add_def Let_def sorted_append)
qed

lemma buf_Add_window [simp]: "bf_window (buf_Add now e b) = bf_window b"
  by (simp add: buf_Add_def Let_def)

lemma deliver_ch [simp]: "sub_ch (deliver en s) = sub_ch s"
  by (simp add: deliver_def)

lemma Add_subscribers:
  "sub_ch ` set (bf_subs (buf_Add now e b)) = sub_ch ` set (bf_subs b)"
  by (simp add: buf_Add_def Let_def image_image)

section \<open>Refinement: the buffer is the recent part of the history\<close>

text \<open>
  The specification keeps every event ever added; the buffer keeps a suffix of it. \<open>run_adds\<close>
  performs the additions of a history, oldest first.
\<close>

definition run_adds :: "entry list \<Rightarrow> buffer \<Rightarrow> buffer" where
  "run_adds h b = fold (\<lambda>en. buf_Add (en_AddedAt en) (en_Event en)) h b"

definition recent :: "gotime \<Rightarrow> duration \<Rightarrow> entry list \<Rightarrow> entry list" where
  "recent now w h = filter (\<lambda>en. now - w \<le> en_AddedAt en) h"

lemma recent_recent: "now \<le> now' \<Longrightarrow> recent now' w (recent now w h) = recent now' w h"
  by (auto simp: recent_def intro!: filter_cong)

lemma run_adds_window [simp]: "bf_window (run_adds h b) = bf_window b"
  by (induction h arbitrary: b) (simp_all add: run_adds_def)

lemma run_adds_snoc: "run_adds (h @ [en]) b = buf_Add (en_AddedAt en) (en_Event en) (run_adds h b)"
  by (simp add: run_adds_def)

lemma purge_recent:
  "time_ordered b \<Longrightarrow> bf_entries (buf_purgeOld now b) = recent now (bf_window b) (bf_entries b)"
  by (simp add: time_ordered_def buf_purgeOld_entries recent_def dropWhile_sorted_filter)

lemma run_adds_entries:
  assumes "sorted (map en_AddedAt h)" and "\<And>en. en \<in> set h \<Longrightarrow> en_AddedAt en \<le> now" and "0 \<le> w"
  shows "index_ok (run_adds h (NewBuffer w))"
    and "time_ordered (run_adds h (NewBuffer w))"
    and "set (bf_entries (run_adds h (NewBuffer w))) \<subseteq> set h"
    and "recent now w (bf_entries (run_adds h (NewBuffer w))) = recent now w h"
  using assms
proof (induction h arbitrary: now rule: rev_induct)
  case Nil
  {
    case 1 then show ?case by (simp add: run_adds_def NewBuffer_def index_ok_def trace_scan_def)
  next
    case 2 then show ?case by (simp add: run_adds_def NewBuffer_def time_ordered_def)
  next
    case 3 then show ?case by (simp add: run_adds_def NewBuffer_def)
  next
    case 4 then show ?case by (simp add: run_adds_def NewBuffer_def)
  }
next
  case (snoc en h)
  let ?b = "run_adds h (NewBuffer w)" and ?t = "en_AddedAt en"
  have win: "bf_window ?b = w" by (simp add: NewBuffer_def)
  have pre: "sorted (map en_AddedAt h)" "\<And>e. e \<in> set h \<Longrightarrow> en_AddedAt e \<le> ?t"
    if "sorted (map en_AddedAt (h @ [en]))"
    using that by (auto simp: sorted_append)
  {
    case 1
    then show ?case using snoc.IH(1) [OF pre] by (simp add: run_adds_snoc index_ok_Add)
  next
    case 2
    then show ?case
      using snoc.IH(2) [OF pre] snoc.IH(3) [OF pre] pre(2)
      by (auto simp: run_adds_snoc intro: time_ordered_Add)
  next
    case 3
    then show ?case
      using snoc.IH(3) [OF pre] set_dropWhile_subset [of _ "bf_entries ?b"]
      by (fastforce simp: run_adds_snoc buf_Add_def Let_def buf_purgeOld_entries)
  next
    case 4
    have "recent now w (bf_entries (buf_purgeOld ?t ?b)) = recent now w (recent ?t w (bf_entries ?b))"
      using 4 purge_recent [OF snoc.IH(2) [OF pre], of ?t] win by simp
    also have "\<dots> = recent now w (recent ?t w h)"
      using 4 snoc.IH(4) [OF pre] by simp
    also have "\<dots> = recent now w h" using 4 by (simp add: recent_recent)
    finally show ?case
      by (simp add: run_adds_snoc buf_Add_def Let_def) (simp add: recent_def)
  }
qed

section \<open>Correlation results and rules\<close>

record correlation_result =
  cr_Fired :: bool
  cr_Severity :: string
  cr_Summary :: string
  cr_Rule :: string
  cr_Resource :: string
  cr_ScopeLevel :: string

definition zero_result :: correlation_result where
  "zero_result = \<lparr>cr_Fired = False, cr_Severity = [], cr_Summary = [], cr_Rule = [],
                  cr_Resource = [], cr_ScopeLevel = []\<rparr>"

text \<open>A registered rule carries its evaluation function (\<open>ruleFunc\<close>) as data.\<close>

record registered_rule =
  rr_name :: string
  rr_priority :: int
  rr_evaluate :: "correlator_event \<Rightarrow> entry list \<Rightarrow> correlation_result"

definition rule_Evaluate :: "registered_rule \<Rightarrow> correlator_event \<Rightarrow> entry list \<Rightarrow> correlation_result" where
  "rule_Evaluate r event entries =
     (let result = rr_evaluate r event entries
      in if cr_Fired result \<and> cr_Rule result = [] then result\<lparr>cr_Rule := rr_name r\<rparr> else result)"

text \<open>Descending priority, ties by name: the order of the stable sort.\<close>

definition rule_key :: "registered_rule \<Rightarrow> int \<times> string" where
  "rule_key r = (- rr_priority r, rr_name r)"

datatype rule_panic = NilRule | DuplicateRule string

definition RegisterRule ::
    "registered_rule option \<Rightarrow> registered_rule list \<Rightarrow> rule_panic + registered_rule list" where
  "RegisterRule rule registry = (case rule of
     None \<Rightarrow> Inl NilRule
   | Some r \<Rightarrow> if rr_name r \<in> rr_name ` set registry then Inl (DuplicateRule (rr_name r))
              else Inr (registry @ [r]))"

definition RegisteredRules :: "registered_rule list \<Rightarrow> registered_rule list" where
  "RegisteredRules registry = sort_key rule_key registry"

record correlator =
  co_buf :: buffer
  co_rules :: "registered_rule list"

definition WithRules :: "registered_rule list \<Rightarrow> correlator \<Rightarrow> correlator" where
  "WithRules rules c = c\<lparr>co_rules := sort_key rule_key rules\<rparr>"

definition NewCorrelator ::
    "registered_rule list \<Rightarrow> duration \<Rightarrow> (correlator \<Rightarrow> correlator) list \<Rightarrow> correlator" where
  "NewCorrelator registry window opts =
     fold (\<lambda>opt c. opt c) opts \<lparr>co_buf = NewBuffer window, co_rules = RegisteredRules registry\<rparr>"

definition co_Add :: "gotime \<Rightarrow> correlator_event \<Rightarrow> correlator \<Rightarrow> correlator" where
  "co_Add now e c = c\<lparr>co_buf := buf_Add now e (co_buf c)\<rparr>"

fun eval_rules :: "registered_rule list \<Rightarrow> correlator_event \<Rightarrow> entry list \<Rightarrow> correlation_result" where
  "eval_rules [] event entries = zero_result"
| "eval_rules (rule # rules) event entries =
     (let result = rule_Evaluate rule event entries
      in if cr_Fired result then result else eval_rules rules event entries)"

definition co_Evaluate :: "gotime \<Rightarrow> correlator_event \<Rightarrow> correlator \<Rightarrow> correlation_result \<times> correlator" where
  "co_Evaluate now event c =
     (let (entries, b) = Snapshot now (co_buf c)
      in (eval_rules (co_rules c) event entries, c\<lparr>co_buf := b\<rparr>))"

section \<open>The contract of a rule engine\<close>

text \<open>
  \<open>RuleEngine\<close> of the source has two providers, this correlator and the CRD rule engine. Both
  evaluate a list of rules, kept sorted by key, against the purged buffer and answer with the
  first rule that fires.
\<close>

locale priority_engine =
  fixes rules :: "'s \<Rightarrow> 'r list"
    and key :: "'r \<Rightarrow> int \<times> string"
    and fires :: "'r \<Rightarrow> correlator_event \<Rightarrow> entry list \<Rightarrow> bool"
    and outcome :: "'r \<Rightarrow> correlator_event \<Rightarrow> entry list \<Rightarrow> correlation_result"
    and window_of :: "gotime \<Rightarrow> 's \<Rightarrow> entry list"
    and evaluate :: "gotime \<Rightarrow> correlator_event \<Rightarrow> 's \<Rightarrow> correlation_result \<times> 's"
    and ordered :: "'s \<Rightarrow> bool"
  assumes ordered_sorted: "ordered s \<Longrightarrow> sorted (map key (rules s))"
    and outcome_fired: "fires r e es \<Longrightarrow> cr_Fired (outcome r e es)"
    and evaluate_first: "fst (evaluate now e s) =
          (case find (\<lambda>r. fires r e (window_of now s)) (rules s) of
             None \<Rightarrow> zero_result | Some r \<Rightarrow> outcome r e (window_of now s))"
    and evaluate_keeps: "rules (snd (evaluate now e s)) = rules s"
begin

lemma fired_iff:
  "cr_Fired (fst (evaluate now e s)) \<longleftrightarrow> (\<exists>r \<in> set (rules s). fires r e (window_of now s))"
  by (auto simp: evaluate_first zero_result_def outcome_fired dest: find_SomeD find_NoneD
      split: option.splits)

text \<open>The rule that answers has the best key of all rules that fire.\<close>

lemma winner_best:
  assumes "ordered s" and "cr_Fired (fst (evaluate now e s))"
  shows "\<exists>r \<in> set (rules s). fires r e (window_of now s)
      \<and> fst (evaluate now e s) = outcome r e (window_of now s)
      \<and> (\<forall>r' \<in> set (rules s). fires r' e (window_of now s) \<longrightarrow> key r \<le> key r')"
proof (cases "find (\<lambda>r. fires r e (window_of now s)) (rules s)")
  case None
  with assms(2) show ?thesis by (simp add: evaluate_first zero_result_def)
next
  case (Some r)
  with find_SomeD [OF Some] find_sorted_key_min [OF ordered_sorted [OF assms(1)] Some]
  show ?thesis by (auto simp: evaluate_first)
qed

lemma ordered_preserved: "ordered s \<Longrightarrow> sorted (map key (rules (snd (evaluate now e s))))"
  by (simp add: evaluate_keeps ordered_sorted)

end

definition rules_sorted :: "correlator \<Rightarrow> bool" where
  "rules_sorted c \<longleftrightarrow> sorted (map rule_key (co_rules c))"

lemma eval_rules_find:
  "eval_rules rs e es =
     (case find (\<lambda>r. cr_Fired (rule_Evaluate r e es)) rs of
        None \<Rightarrow> zero_result | Some r \<Rightarrow> rule_Evaluate r e es)"
  by (induction rs) (simp_all add: Let_def)

interpretation registry_engine: priority_engine co_rules rule_key
  "\<lambda>r e es. cr_Fired (rule_Evaluate r e es)" rule_Evaluate
  "\<lambda>now c. fst (Snapshot now (co_buf c))" co_Evaluate rules_sorted
  by unfold_locales
    (auto simp: rules_sorted_def co_Evaluate_def eval_rules_find case_prod_unfold Let_def)

lemma RegisteredRules_sorted: "sorted (map rule_key (RegisteredRules registry))"
  by (simp add: RegisteredRules_def)

lemma rule_Evaluate_named: "cr_Fired (rule_Evaluate r e es) \<Longrightarrow> rr_name r \<noteq> [] \<Longrightarrow>
    cr_Rule (rule_Evaluate r e es) \<noteq> []"
  by (auto simp: rule_Evaluate_def Let_def)

section \<open>Helpers kept for node affinity\<close>

definition extractNodeForFailure :: "correlator_event \<Rightarrow> string" where
  "extractNodeForFailure e = (case e of
     CrashLoopBackOffEvent b _ _ _ _ _ _ \<Rightarrow> be_NodeName b
   | OOMKilledEvent b _ _ _ \<Rightarrow> be_NodeName b
   | PodEvictedEvent b _ _ \<Rightarrow> be_NodeName b
   | _ \<Rightarrow> [])"

definition failurePodKey :: "correlator_event \<Rightarrow> string" where
  "failurePodKey e = (case e of
     CrashLoopBackOffEvent b _ _ _ _ _ _ \<Rightarrow> be_Namespace b @ ''/'' @ be_PodName b
   | OOMKilledEvent b _ _ _ \<Rightarrow> be_Namespace b @ ''/'' @ be_PodName b
   | PodEvictedEvent b _ _ \<Rightarrow> be_Namespace b @ ''/'' @ be_PodName b
   | _ \<Rightarrow> [])"

section \<open>Classification for the live stream\<close>

record event_classification =
  ec_Kind :: string
  ec_Source :: string
  ec_Title :: string
  ec_Msg :: string
  ec_Resource :: string

definition baseFields :: "correlator_event \<Rightarrow> string \<times> string \<times> string" where
  "baseFields e =
     (if is_otel_event e then ([], [], [])
      else let b = ev_base e in (be_Namespace b, be_PodName b, be_NodeName b))"

definition ClassifyEvent :: "correlator_event \<Rightarrow> event_classification" where
  "ClassifyEvent e = (case e of
     OTelSpanErrorEvent _ _ _ _ svc sn _ _ sm _ _ _ _ _ \<Rightarrow>
       \<lparr>ec_Kind = ''trace'', ec_Source = ''OTel'', ec_Title = ''span.error'',
        ec_Msg = svc @ '' '' @ sn @ '' ('' @ sm @ '')'', ec_Resource = svc\<rparr>
   | OTelSpanLatencySpikeEvent _ _ _ _ svc sn _ _ _ _ _ _ \<Rightarrow>
       \<lparr>ec_Kind = ''trace'', ec_Source = ''OTel'', ec_Title = ''span.latency'',
        ec_Msg = svc @ '' '' @ sn @ '' exceeded latency threshold'', ec_Resource = svc\<rparr>
   | OTelSpanEventEvent _ _ _ svc en _ _ _ \<Rightarrow>
       \<lparr>ec_Kind = ''trace'', ec_Source = ''OTel'', ec_Title = en,
        ec_Msg = en @ '' on '' @ svc, ec_Resource = svc\<rparr>
   | OTelLogMatchEvent _ _ _ svc sev _ body _ _ _ \<Rightarrow>
       \<lparr>ec_Kind = ''log'', ec_Source = ''OTel'', ec_Title = (if sev = [] then ''LOG'' else sev),
        ec_Msg = body, ec_Resource = svc\<rparr>
   | _ \<Rightarrow>
       (let title = event_type e; (ns, pod, node) = baseFields e;
            r0 = (if pod = [] then node else pod);
            resource = (if ns \<noteq> [] \<and> r0 \<noteq> [] then ns @ ''/'' @ r0 else r0)
        in \<lparr>ec_Kind = ''k8s'', ec_Source = ''RCA-Operator'', ec_Title = title,
            ec_Msg = title @ '' on '' @ resource, ec_Resource = resource\<rparr>))"

lemma ClassifyEvent_source:
  "ec_Source (ClassifyEvent e) = (if is_otel_event e then ''OTel'' else ''RCA-Operator'')"
  by (cases e) (simp_all add: ClassifyEvent_def is_otel_event_def event_attributes_def Let_def
      split: prod.splits)

section \<open>Properties\<close>

text \<open>C24.
  Whatever events were added before, a snapshot is exactly the part of the history that is not
  older than the window, in order, and the per-trace snapshot, served from the index, is the scan
  of that part for the trace id.
\<close>

theorem Snapshot_recent:
  assumes "sorted (map en_AddedAt h)" and "\<forall>en \<in> set h. en_AddedAt en \<le> now" and "0 \<le> w"
  defines "b \<equiv> run_adds h (NewBuffer w)"
  shows "fst (Snapshot now b) = recent now w h \<and>
    fst (SnapshotByTrace now t b) = trace_scan t (recent now w h)"
proof -
  have run: "index_ok b" "time_ordered b" "recent now w (bf_entries b) = recent now w h"
    using run_adds_entries [of h now w] assms by (simp_all add: b_def)
  moreover have "bf_window b = w" by (simp add: b_def NewBuffer_def)
  ultimately have entries: "bf_entries (buf_purgeOld now b) = recent now w h"
    using purge_recent by simp
  then show ?thesis
    using index_ok_purge [OF run(1), of now]
    by (auto simp: Snapshot_def SnapshotByTrace_def Let_def index_ok_def trace_scan_def)
qed

theorem Snapshot_recent_witness:
  "fst (Snapshot 100 (run_adds [\<lparr>en_Event = PodHealthyEvent zero_base, en_AddedAt = 10\<rparr>,
      \<lparr>en_Event = PodDeletedEvent zero_base, en_AddedAt = 90\<rparr>] (NewBuffer 60)))
     = [\<lparr>en_Event = PodDeletedEvent zero_base, en_AddedAt = 90\<rparr>]"
  using Snapshot_recent [of "[\<lparr>en_Event = PodHealthyEvent zero_base, en_AddedAt = 10\<rparr>,
      \<lparr>en_Event = PodDeletedEvent zero_base, en_AddedAt = 90\<rparr>]" 100 60 "[]"]
  by (simp add: recent_def)

end
