(* ===== verification/Rule_Engine.thy ===== *)
theory Rule_Engine
  imports Buffer Signals
begin

text \<open>
  The CRD-driven rule engine of \<open>internal/rulengine/crd_engine.go\<close>: rules are compiled from the
  \<open>RCACorrelationRule\<close> resources, kept in priority order, and evaluated against the sliding
  window. The engines of the Go standard library the rules are handed to (\<open>regexp\<close>,
  \<open>text/template\<close>, \<open>strconv.ParseFloat\<close>) are the parameter \<open>L\<close>.
\<close>

record template_context =
  tc_PodName :: string
  tc_Namespace :: string
  tc_NodeName :: string
  tc_EventType :: string

record ('re, 'tm, 'fl) go_lib =
  lib_regexp_compile :: "string \<Rightarrow> 're option"
  lib_regexp_match :: "'re \<Rightarrow> string \<Rightarrow> bool"
  lib_parse_float :: "string \<Rightarrow> 'fl option"
  lib_float_le :: "'fl \<Rightarrow> 'fl \<Rightarrow> bool"
  lib_float_lt :: "'fl \<Rightarrow> 'fl \<Rightarrow> bool"
  lib_template_parse :: "string \<Rightarrow> string \<Rightarrow> 'tm option"
  lib_template_name :: "'tm \<Rightarrow> string"
  lib_template_execute :: "'tm \<Rightarrow> template_context \<Rightarrow> string option"

section \<open>Compiled rules\<close>

record ('re, 'fl) compiled_attribute =
  ca_key :: string
  ca_op :: string
  ca_value :: string
  ca_regex :: "'re option"
  ca_number :: "'fl option"

record ('re, 'fl) loaded_condition =
  lc_eventType :: string
  lc_scope :: string
  lc_negate :: bool
  lc_attributes :: "('re, 'fl) compiled_attribute list"

record ('re, 'tm, 'fl) loaded_rule =
  lr_name :: string
  lr_priority :: int
  lr_trigger :: string
  lr_conditions :: "('re, 'fl) loaded_condition list"
  lr_fires :: rule_fires
  lr_tmpl :: 'tm

definition normalizeAttributeOp :: "string \<Rightarrow> string" where
  "normalizeAttributeOp op = (if op = [] then ''Equals'' else op)"

definition numeric_ops :: "string list" where
  "numeric_ops = [''Gte'', ''Lte'', ''Gt'', ''Lt'']"

definition compile_attribute ::
    "('re, 'tm, 'fl) go_lib \<Rightarrow> attribute_match \<Rightarrow> ('re, 'fl) compiled_attribute option" where
  "compile_attribute L m =
     (let c = \<lparr>ca_key = am_Key m, ca_op = normalizeAttributeOp (am_Op m), ca_value = am_Value m,
               ca_regex = None, ca_number = None\<rparr>
      in if ca_op c = ''Regex'' then
           (case lib_regexp_compile L (am_Value m) of
              None \<Rightarrow> None | Some re \<Rightarrow> Some (c\<lparr>ca_regex := Some re\<rparr>))
         else if ca_op c \<in> set numeric_ops then
           (case lib_parse_float L (am_Value m) of
              None \<Rightarrow> None | Some x \<Rightarrow> Some (c\<lparr>ca_number := Some x\<rparr>))
         else Some c)"

text \<open>A list of fallible steps: the first failure is the result.\<close>

fun map_all :: "('a \<Rightarrow> 'b option) \<Rightarrow> 'a list \<Rightarrow> 'b list option" where
  "map_all f [] = Some []"
| "map_all f (x # xs) = (case f x of None \<Rightarrow> None
     | Some y \<Rightarrow> (case map_all f xs of None \<Rightarrow> None | Some ys \<Rightarrow> Some (y # ys)))"

definition compileAttributeMatches ::
    "('re, 'tm, 'fl) go_lib \<Rightarrow> attribute_match list \<Rightarrow> ('re, 'fl) compiled_attribute list option" where
  "compileAttributeMatches L matches = map_all (compile_attribute L) matches"

definition compile_condition ::
    "('re, 'tm, 'fl) go_lib \<Rightarrow> rule_condition \<Rightarrow> ('re, 'fl) loaded_condition option" where
  "compile_condition L cond = (case compileAttributeMatches L (rc_Attributes cond) of
     None \<Rightarrow> None
   | Some attributes \<Rightarrow>
       Some \<lparr>lc_eventType = rc_EventType cond, lc_scope = rc_Scope cond,
             lc_negate = rc_Negate cond, lc_attributes = attributes\<rparr>)"

definition compileConditions ::
    "('re, 'tm, 'fl) go_lib \<Rightarrow> rule_condition list \<Rightarrow> ('re, 'fl) loaded_condition list option" where
  "compileConditions L conditions = map_all (compile_condition L) conditions"

text \<open>A rule whose template or conditions do not compile is logged and skipped.\<close>

definition load_rule ::
    "('re, 'tm, 'fl) go_lib \<Rightarrow> correlation_rule \<Rightarrow> ('re, 'tm, 'fl) loaded_rule option" where
  "load_rule L rule =
     (case lib_template_parse L (om_Name (ru_Meta rule)) (rf_Summary (rs_Fires (ru_Spec rule))) of
        None \<Rightarrow> None
      | Some tmpl \<Rightarrow>
          (case compileConditions L (rs_Conditions (ru_Spec rule)) of
             None \<Rightarrow> None
           | Some conditions \<Rightarrow>
               Some \<lparr>lr_name = om_Name (ru_Meta rule), lr_priority = rs_Priority (ru_Spec rule),
                     lr_trigger = rs_TriggerEventType (ru_Spec rule), lr_conditions = conditions,
                     lr_fires = rs_Fires (ru_Spec rule), lr_tmpl = tmpl\<rparr>))"

definition loaded_key :: "('re, 'tm, 'fl) loaded_rule \<Rightarrow> int \<times> string" where
  "loaded_key r = (- lr_priority r, lr_name r)"

record ('re, 'tm, 'fl) crd_engine =
  ce_buf :: buffer
  ce_rules :: "('re, 'tm, 'fl) loaded_rule list"

definition NewCRDRuleEngine :: "duration \<Rightarrow> ('re, 'tm, 'fl) crd_engine" where
  "NewCRDRuleEngine window = \<lparr>ce_buf = NewBuffer window, ce_rules = []\<rparr>"

definition LoadRules ::
    "('re, 'tm, 'fl) go_lib \<Rightarrow> 'w rule_client \<Rightarrow> 'w \<Rightarrow> ('re, 'tm, 'fl) crd_engine \<Rightarrow>
       kerr option \<times> ('re, 'tm, 'fl) crd_engine" where
  "LoadRules L K w e = (case rk_list K w None of
     Inl err \<Rightarrow> (Some err, e)
   | Inr items \<Rightarrow> (None, e\<lparr>ce_rules := sort_key loaded_key (List.map_filter (load_rule L) items)\<rparr>))"

definition ce_Add :: "gotime \<Rightarrow> correlator_event \<Rightarrow> ('re, 'tm, 'fl) crd_engine \<Rightarrow> ('re, 'tm, 'fl) crd_engine" where
  "ce_Add now event e = e\<lparr>ce_buf := buf_Add now event (ce_buf e)\<rparr>"

definition RuleCount :: "('re, 'tm, 'fl) crd_engine \<Rightarrow> nat" where
  "RuleCount e = length (ce_rules e)"

section \<open>Conditions\<close>

definition traceIDOf :: "correlator_event \<Rightarrow> string" where
  "traceIDOf ev = (case event_attributes ev of
     None \<Rightarrow> []
   | Some attrs \<Rightarrow>
       (case attrs ''trace.id'' of
          Some tid \<Rightarrow> if tid \<noteq> [] then tid else map_get attrs ''trace_id''
        | None \<Rightarrow> map_get attrs ''trace_id''))"

definition sameTraceID :: "correlator_event \<Rightarrow> correlator_event \<Rightarrow> bool" where
  "sameTraceID a b \<longleftrightarrow> traceIDOf a \<noteq> [] \<and> traceIDOf a = traceIDOf b"

definition scopeMatches :: "correlator_event \<Rightarrow> correlator_event \<Rightarrow> string \<Rightarrow> bool" where
  "scopeMatches trigger candidate scope =
     (let t = ExtractBase trigger; c = ExtractBase candidate
      in if scope = ''samePod'' then
           be_Namespace t = be_Namespace c \<and> be_PodName t = be_PodName c \<and> be_PodName t \<noteq> []
         else if scope = ''sameNode'' then be_NodeName t = be_NodeName c \<and> be_NodeName t \<noteq> []
         else if scope = ''sameNamespace'' then
           be_Namespace t = be_Namespace c \<and> be_Namespace t \<noteq> []
         else if scope = ''sameTrace'' then sameTraceID trigger candidate
         else if scope = ''any'' then True
         else be_Namespace t = be_Namespace c \<and> be_PodName t = be_PodName c)"

definition compare_number ::
    "('re, 'tm, 'fl) go_lib \<Rightarrow> string \<Rightarrow> 'fl \<Rightarrow> 'fl option \<Rightarrow> bool" where
  "compare_number L op lhs number = (case number of
     None \<Rightarrow> False
   | Some n \<Rightarrow>
       if op = ''Gte'' then lib_float_le L n lhs
       else if op = ''Lte'' then lib_float_le L lhs n
       else if op = ''Gt'' then lib_float_lt L n lhs
       else lib_float_lt L lhs n)"

text \<open>\<open>attrs\<close> is \<open>None\<close> for an event without attributes.\<close>

definition evaluateAttribute ::
    "('re, 'tm, 'fl) go_lib \<Rightarrow> attr_map option \<Rightarrow> ('re, 'fl) compiled_attribute \<Rightarrow> bool" where
  "evaluateAttribute L attrs m = (case attrs of
     None \<Rightarrow> ca_op m = ''NotExists''
   | Some as \<Rightarrow>
       (let op = ca_op m; val = as (ca_key m)
        in if op = ''Equals'' then (case val of None \<Rightarrow> False | Some v \<Rightarrow> v = ca_value m)
           else if op = ''NotEquals'' then (case val of None \<Rightarrow> False | Some v \<Rightarrow> v \<noteq> ca_value m)
           else if op = ''Contains'' then (case val of None \<Rightarrow> False | Some v \<Rightarrow> str_contains v (ca_value m))
           else if op = ''NotContains'' then
             (case val of None \<Rightarrow> False | Some v \<Rightarrow> \<not> str_contains v (ca_value m))
           else if op = ''Regex'' then
             (case val of None \<Rightarrow> False
              | Some v \<Rightarrow> (case ca_regex m of None \<Rightarrow> False | Some re \<Rightarrow> lib_regexp_match L re v))
           else if op = ''Exists'' then (case val of None \<Rightarrow> False | Some v \<Rightarrow> v \<noteq> [])
           else if op = ''NotExists'' then (case val of None \<Rightarrow> True | Some v \<Rightarrow> v = [])
           else if op \<in> set numeric_ops then
             (case val of None \<Rightarrow> False
              | Some v \<Rightarrow> (case lib_parse_float L v of None \<Rightarrow> False
                          | Some lhs \<Rightarrow> compare_number L op lhs (ca_number m)))
           else False))"

definition attributesMatch ::
    "('re, 'tm, 'fl) go_lib \<Rightarrow> correlator_event \<Rightarrow> ('re, 'fl) compiled_attribute list \<Rightarrow> bool" where
  "attributesMatch L ev matches = list_all (evaluateAttribute L (event_attributes ev)) matches"

definition condition_entry ::
    "('re, 'tm, 'fl) go_lib \<Rightarrow> correlator_event \<Rightarrow> ('re, 'fl) loaded_condition \<Rightarrow> entry \<Rightarrow> bool" where
  "condition_entry L trigger cond en \<longleftrightarrow>
     event_type (en_Event en) = lc_eventType cond \<and>
     scopeMatches trigger (en_Event en) (lc_scope cond) \<and>
     attributesMatch L (en_Event en) (lc_attributes cond)"

fun conditionsMet ::
    "('re, 'tm, 'fl) go_lib \<Rightarrow> correlator_event \<Rightarrow> ('re, 'fl) loaded_condition list \<Rightarrow> entry list \<Rightarrow> bool" where
  "conditionsMet L trigger [] entries = True"
| "conditionsMet L trigger (cond # conds) entries =
     (let found = list_ex (condition_entry L trigger cond) entries
      in if lc_negate cond then (if found then False else conditionsMet L trigger conds entries)
         else (if \<not> found then False else conditionsMet L trigger conds entries))"

section \<open>Evaluation\<close>

definition renderSummary :: "('re, 'tm, 'fl) go_lib \<Rightarrow> 'tm \<Rightarrow> correlator_event \<Rightarrow> string" where
  "renderSummary L tmpl event =
     (let b = ExtractBase event;
          ctx = \<lparr>tc_PodName = be_PodName b, tc_Namespace = be_Namespace b,
                 tc_NodeName = be_NodeName b, tc_EventType = event_type event\<rparr>
      in case lib_template_execute L tmpl ctx of
           None \<Rightarrow> lib_template_name L tmpl @ '': template render error''
         | Some out \<Rightarrow> out)"

definition resolveResource :: "rule_fires \<Rightarrow> correlator_event \<Rightarrow> string" where
  "resolveResource fires event =
     (let b = ExtractBase event; r = to_lower (rf_Resource fires)
      in if r = ''node'' then be_NodeName b
         else if r = ''deployment'' then
           (case event of StalledRolloutEvent _ n _ _ _ _ _ \<Rightarrow> n | _ \<Rightarrow> be_PodName b)
         else [])"

definition loaded_fires ::
    "('re, 'tm, 'fl) go_lib \<Rightarrow> ('re, 'tm, 'fl) loaded_rule \<Rightarrow> correlator_event \<Rightarrow> entry list \<Rightarrow> bool" where
  "loaded_fires L rule event entries \<longleftrightarrow>
     lr_trigger rule = event_type event \<and> conditionsMet L event (lr_conditions rule) entries"

definition loaded_result ::
    "('re, 'tm, 'fl) go_lib \<Rightarrow> ('re, 'tm, 'fl) loaded_rule \<Rightarrow> correlator_event \<Rightarrow> correlation_result" where
  "loaded_result L rule event =
     \<lparr>cr_Fired = True, cr_Severity = rf_Severity (lr_fires rule),
      cr_Summary = renderSummary L (lr_tmpl rule) event, cr_Rule = lr_name rule,
      cr_Resource = resolveResource (lr_fires rule) event, cr_ScopeLevel = rf_Scope (lr_fires rule)\<rparr>"

fun eval_loaded ::
    "('re, 'tm, 'fl) go_lib \<Rightarrow> ('re, 'tm, 'fl) loaded_rule list \<Rightarrow> correlator_event \<Rightarrow> entry list \<Rightarrow>
       correlation_result" where
  "eval_loaded L [] event entries = zero_result"
| "eval_loaded L (rule # rules) event entries =
     (if lr_trigger rule \<noteq> event_type event then eval_loaded L rules event entries
      else if \<not> conditionsMet L event (lr_conditions rule) entries then eval_loaded L rules event entries
      else loaded_result L rule event)"

definition ce_Evaluate ::
    "('re, 'tm, 'fl) go_lib \<Rightarrow> gotime \<Rightarrow> correlator_event \<Rightarrow> ('re, 'tm, 'fl) crd_engine \<Rightarrow>
       correlation_result \<times> ('re, 'tm, 'fl) crd_engine" where
  "ce_Evaluate L now event e =
     (let (entries, b) = Snapshot now (ce_buf e)
      in (eval_loaded L (ce_rules e) event entries, e\<lparr>ce_buf := b\<rparr>))"

section \<open>Lemmas\<close>

lemma conditionsMet_iff:
  "conditionsMet L trigger conds entries \<longleftrightarrow>
     (\<forall>cond \<in> set conds. (\<exists>en \<in> set entries. condition_entry L trigger cond en) \<noteq> lc_negate cond)"
  by (induction conds) (auto simp: Let_def list_ex_iff)

lemma eval_loaded_find:
  "eval_loaded L rs event entries =
     (case find (\<lambda>r. loaded_fires L r event entries) rs of
        None \<Rightarrow> zero_result | Some r \<Rightarrow> loaded_result L r event)"
  by (induction rs) (auto simp: loaded_fires_def)

definition engine_sorted :: "('re, 'tm, 'fl) crd_engine \<Rightarrow> bool" where
  "engine_sorted e \<longleftrightarrow> sorted (map loaded_key (ce_rules e))"

interpretation crd: priority_engine ce_rules loaded_key "loaded_fires L"
  "\<lambda>r e es. loaded_result L r e" "\<lambda>now e. fst (Snapshot now (ce_buf e))" "ce_Evaluate L" engine_sorted
  for L :: "('re, 'tm, 'fl) go_lib"
  by unfold_locales
    (auto simp: engine_sorted_def loaded_result_def ce_Evaluate_def eval_loaded_find
      case_prod_unfold Let_def)

lemma LoadRules_sorted: "LoadRules L K w e = (None, e') \<Longrightarrow> engine_sorted e'"
  by (auto simp: LoadRules_def engine_sorted_def split: sum.splits)

lemma set_LoadRules:
  "rk_list K w None = Inr items \<Longrightarrow> LoadRules L K w e = (None, e') \<Longrightarrow>
     set (ce_rules e') = {r. \<exists>i \<in> set items. load_rule L i = Some r}"
  by (force simp: LoadRules_def List.map_filter_def)

lemma ExtractBase_lifecycle: "is_lifecycle_event e \<Longrightarrow> ExtractBase e = zero_base"
  by (cases e) (simp_all add: ExtractBase_def is_lifecycle_event_def)

lemma samePod_not_lifecycle: "is_lifecycle_event c \<Longrightarrow> \<not> scopeMatches t c ''samePod''"
  by (simp add: scopeMatches_def Let_def ExtractBase_lifecycle zero_base_def)

lemma traceIDOf_k8s: "\<not> is_otel_event e \<Longrightarrow> traceIDOf e = []"
  by (simp add: traceIDOf_def is_otel_event_def)

lemma traceIDOf_otel: "extractTraceID e \<noteq> [] \<Longrightarrow> traceIDOf e = extractTraceID e"
  by (cases "event_attributes e")
     (auto simp: traceIDOf_def dest: event_attributes_none event_attributes_trace_id)

section \<open>Properties\<close>

text \<open>The loader does not look at the agents a rule selects.\<close>

lemma load_rule_selector:
  "load_rule L (i\<lparr>ru_Spec := (ru_Spec i)\<lparr>rs_AgentSelector := sel\<rparr>\<rparr>) = load_rule L i"
  by (simp add: load_rule_def split: option.split)

text \<open>C23.
  After a successful load, an evaluation fires exactly when some rule of the cluster that
  compiles has the event's type as trigger and all its conditions hold in the window; the answer
  is that of the firing rule of highest priority, the first by name among equals. When no
  rule fires the answer is the empty result. Whatever agents a rule selects by its
  \<open>agentSelector\<close>, it is loaded as if it selected none.
\<close>

theorem Evaluate_best_rule:
  fixes now :: gotime
  assumes "rk_list K w None = Inr items" and "LoadRules L K w e0 = (None, e)"
  defines "window \<equiv> fst (Snapshot now (ce_buf e))"
  shows "((\<exists>i \<in> set items. \<exists>r. load_rule L i = Some r \<and> loaded_fires L r event window \<and>
            fst (ce_Evaluate L now event e) = loaded_result L r event \<and>
            (\<forall>j \<in> set items. \<forall>r'. load_rule L j = Some r' \<longrightarrow> loaded_fires L r' event window \<longrightarrow>
               lr_priority r' < lr_priority r \<or> lr_priority r' = lr_priority r \<and> lr_name r \<le> lr_name r'))
         \<or> fst (ce_Evaluate L now event e) = zero_result \<and>
           (\<forall>i \<in> set items. \<forall>r. load_rule L i = Some r \<longrightarrow> \<not> loaded_fires L r event window))
         \<and> (\<forall>i sel. load_rule L (i\<lparr>ru_Spec := (ru_Spec i)\<lparr>rs_AgentSelector := sel\<rparr>\<rparr>) = load_rule L i)" (is "?main \<and> _")
proof (intro conjI allI load_rule_selector)
  show ?main
  proof (cases "cr_Fired (fst (ce_Evaluate L now event e))")
    case True
    from crd.winner_best [OF LoadRules_sorted [OF assms(2)] True] obtain r where
      r: "r \<in> set (ce_rules e)" "loaded_fires L r event window"
        "fst (ce_Evaluate L now event e) = loaded_result L r event"
      and best: "\<And>r'. r' \<in> set (ce_rules e) \<Longrightarrow> loaded_fires L r' event window \<Longrightarrow> loaded_key r \<le> loaded_key r'"
      unfolding window_def by blast
    have order: "lr_priority r' < lr_priority r \<or> lr_priority r' = lr_priority r \<and> lr_name r \<le> lr_name r'"
      if "loaded_key r \<le> loaded_key r'" for r'
      using that by (auto simp: loaded_key_def less_eq_prod_def)
    show ?main
      using r best order unfolding set_LoadRules [OF assms(1,2)] by blast
  next
    case False
    then have "fst (ce_Evaluate L now event e) = zero_result"
      by (auto simp: crd.evaluate_first loaded_result_def split: option.splits)
    moreover from False have "\<forall>r \<in> set (ce_rules e). \<not> loaded_fires L r event window"
      by (simp add: crd.fired_iff window_def)
    ultimately show ?main unfolding set_LoadRules [OF assms(1,2)] by blast
  qed
qed

text \<open>A library of patterns, numbers and templates that are plain strings and integers.\<close>

definition sample_lib :: "(string, string, int) go_lib" where
  "sample_lib = \<lparr>lib_regexp_compile = Some, lib_regexp_match = (\<lambda>re s. str_contains s re),
     lib_parse_float = atoi, lib_float_le = (\<le>), lib_float_lt = (<),
     lib_template_parse = (\<lambda>name t. Some t), lib_template_name = (\<lambda>t. t), lib_template_execute = (\<lambda>t ctx. Some t)\<rparr>"

definition sample_rule :: "string \<Rightarrow> int \<Rightarrow> string \<Rightarrow> correlation_rule" where
  "sample_rule name priority severity =
     \<lparr>ru_Meta = \<lparr>om_Name = name, om_GenerateName = [], om_Namespace = [], om_Labels = Map.empty,
        om_Annotations = Map.empty, om_CreationTimestamp = 0\<rparr>,
      ru_Spec = \<lparr>rs_Priority = priority, rs_AgentSelector = None, rs_TriggerEventType = ''PodEvicted'', rs_Conditions = [],
        rs_Fires = \<lparr>rf_IncidentType = ''PodEvicted'', rf_Severity = severity, rf_Summary = ''evicted'',
          rf_Resource = [], rf_Scope = []\<rparr>\<rparr>\<rparr>"

text \<open>A cluster whose world is its list of rules, in which nothing can be written.\<close>

definition rules_client :: "correlation_rule list rule_client" where
  "rules_client = \<lparr>rk_list = (\<lambda>w sel. Inr w), rk_get = (\<lambda>w name. Inl NotFound),
     rk_create = (\<lambda>w r. (Some NotFound, w)), rk_update = (\<lambda>w r. (Some NotFound, w)),
     rk_delete = (\<lambda>w n. (Some NotFound, w))\<rparr>"

theorem Evaluate_best_rule_witness:
  "cr_Severity (fst (ce_Evaluate sample_lib 5 (PodEvictedEvent zero_base [] [])
     (snd (LoadRules sample_lib rules_client [sample_rule ''b'' 10 ''P2'', sample_rule ''a'' 100 ''P1'']
        (NewCRDRuleEngine 60))))) = ''P1''"
proof -
  let ?items = "[sample_rule ''b'' 10 ''P2'', sample_rule ''a'' 100 ''P1'']"
  let ?load = "LoadRules sample_lib rules_client ?items (NewCRDRuleEngine 60)"
  have list: "rk_list rules_client ?items None = Inr ?items" by (simp add: rules_client_def)
  have load: "?load = (None, snd ?load)" by (simp add: LoadRules_def rules_client_def)
  have rule: "load_rule sample_lib (sample_rule n p s) = Some r \<longleftrightarrow>
      r = \<lparr>lr_name = n, lr_priority = p, lr_trigger = ''PodEvicted'', lr_conditions = [],
           lr_fires = rs_Fires (ru_Spec (sample_rule n p s)), lr_tmpl = ''evicted''\<rparr>" for n p s r
    by (auto simp: load_rule_def sample_lib_def sample_rule_def compileConditions_def)
  have sev: "rf_Severity (rs_Fires (ru_Spec (sample_rule n p s))) = s" for n p s by (simp add: sample_rule_def)
  show ?thesis
    using Evaluate_best_rule [OF list load, of "PodEvictedEvent zero_base [] []" 5]
    by (auto simp: rule sev loaded_fires_def event_type_def loaded_result_def)
qed

end
