(* ===== verification/Consumer.thy ===== *)
theory Consumer
  imports Rule_Engine Reporter_Store
begin

text \<open>
  The consumer of \<open>internal/correlator/consumer.go\<close>: it takes events from the watchers' channel and
  drives the pipeline normalizer, enricher, rule engine, reporter. The rule engine is the
  interface \<open>RuleEngine\<close> of the source, a record of its operations; both engines of the
  repository provide it. One reading of the clock serves the whole handling of an event.
\<close>

record 'e engine_ops =
  eo_Add :: "gotime \<Rightarrow> correlator_event \<Rightarrow> 'e \<Rightarrow> 'e"
  eo_Evaluate :: "gotime \<Rightarrow> correlator_event \<Rightarrow> 'e \<Rightarrow> correlation_result \<times> 'e"

record ('w, 'e) cons_env =
  cv_rep :: "'w rep_env"
  cv_engine :: "'e engine_ops"
  cv_normalizer :: normalizer

record ('w, 'e) consumer =
  cs_rep :: "'w rep_state"
  cs_engine :: "'e option"

definition NewConsumer :: "'w \<Rightarrow> 'e option \<Rightarrow> ('w, 'e) consumer" where
  "NewConsumer w engine = \<lparr>cs_rep = \<lparr>rp_world = w, rp_open = Map.empty\<rparr>, cs_engine = engine\<rparr>"

text \<open>What a fired rule changes of the input.\<close>

definition apply_result :: "correlation_result \<Rightarrow> input \<Rightarrow> input" where
  "apply_result result i0 =
     (if \<not> cr_Fired result then i0
      else let i = i0\<lparr>in_Severity := cr_Severity result, in_Summary := cr_Summary result,
                      in_Message := cr_Summary result, in_FiredRule := cr_Rule result\<rparr>
           in if cr_Resource result = [] then i
              else if cr_ScopeLevel result = ''Cluster'' then
                i\<lparr>in_Scope := \<lparr>sc_Level = ''Cluster'', sc_Namespace = [], sc_WorkloadRef = None,
                     sc_ResourceRef = Some (mk_ref ''v1'' ''Node'' [] (cr_Resource result) [])\<rparr>,
                  in_AffectedResources := [mk_affected ''v1'' ''Node'' [] (cr_Resource result) []]\<rparr>
              else
                i\<lparr>in_Scope := (in_Scope i)\<lparr>sc_Level := ''Workload'',
                     sc_WorkloadRef := Some (mk_ref ''apps/v1'' ''Deployment'' (in_Namespace i) (cr_Resource result) [])\<rparr>,
                  in_AffectedResources := mergeAffectedResources (in_AffectedResources i)
                     [mk_affected ''apps/v1'' ''Deployment'' (in_Namespace i) (cr_Resource result) []]\<rparr>)"

text \<open>The pipeline of a failure event: the input for the reporter, if any, and the engine after it.\<close>

definition signal_input ::
    "('w, 'e) cons_env \<Rightarrow> gotime \<Rightarrow> correlator_event \<Rightarrow> 'w \<Rightarrow> 'e option \<Rightarrow> input option \<times> 'e option" where
  "signal_input V now event w engine0 =
     (let engine = map_option (eo_Add (cv_engine V) now event) engine0
      in case Normalize (cv_normalizer V) event of
           None \<Rightarrow> (None, engine)
         | Some sig \<Rightarrow>
             (let i = Enrich (re_client (cv_rep V)) w sig
              in case engine of
                   None \<Rightarrow> (Some i, None)
                 | Some e \<Rightarrow> (let (result, e) = eo_Evaluate (cv_engine V) now event e
                             in (Some (apply_result result i), Some e))))"

definition handleEvent ::
    "('w, 'e) cons_env \<Rightarrow> gotime \<Rightarrow> correlator_event \<Rightarrow> ('w, 'e) consumer \<Rightarrow>
       rep_error option \<times> ('w, 'e) consumer" where
  "handleEvent V now event c =
     (let E = cv_rep V; st = observe E [RecordSignalReceived (event_type event)] (cs_rep c)
      in case event of
           PodHealthyEvent b \<Rightarrow>
             (let (err, st) = ResolveForHealthyPod E now (be_Namespace b) (be_PodName b) st
              in (err, c\<lparr>cs_rep := st\<rparr>))
         | PodDeletedEvent b \<Rightarrow>
             (let (err, st) = ResolveForDeletedPod E now (be_Namespace b) (be_PodName b) st
              in (err, c\<lparr>cs_rep := st\<rparr>))
         | _ \<Rightarrow>
             (case signal_input V now event (rp_world st) (cs_engine c) of
                (None, engine) \<Rightarrow> (None, \<lparr>cs_rep = st, cs_engine = engine\<rparr>)
              | (Some i, engine) \<Rightarrow>
                  (let (err, st) = EnsureSignal E now i st in (err, \<lparr>cs_rep = st, cs_engine = engine\<rparr>))))"

text \<open>
  \<open>Run\<close>: consolidate, then handle what the channel delivers until it is closed or the context
  ends (the end of the list); a nil event is skipped, an error is logged.
\<close>

fun consume :: "('w, 'e) cons_env \<Rightarrow> (gotime \<times> correlator_event option) list \<Rightarrow> ('w, 'e) consumer \<Rightarrow> ('w, 'e) consumer" where
  "consume V [] c = c"
| "consume V ((now, None) # evs) c = consume V evs c"
| "consume V ((now, Some event) # evs) c = consume V evs (snd (handleEvent V now event c))"

definition consumer_Run ::
    "('w, 'e) cons_env \<Rightarrow> (report_group list \<Rightarrow> report_group list) \<Rightarrow> gotime \<Rightarrow>
       (gotime \<times> correlator_event option) list \<Rightarrow> ('w, 'e) consumer \<Rightarrow> ('w, 'e) consumer" where
  "consumer_Run V order now evs c =
     consume V evs (c\<lparr>cs_rep := snd (Consolidate (cv_rep V) order now (cs_rep c))\<rparr>)"

text \<open>The older mapping from an event to incident metadata: namespace, name, agent, incident type,
  severity and summary.\<close>

definition mapEvent :: "correlator_event \<Rightarrow> string \<times> string \<times> string \<times> string \<times> string \<times> string" where
  "mapEvent event = (case event of
     CrashLoopBackOffEvent b _ rc th ec cat desc \<Rightarrow>
       (let summary = ''CrashLoopBackOff restarts='' @ itoa rc @ '' threshold='' @ itoa th;
            summary = (if ec \<noteq> 0 \<and> cat \<noteq> []
              then summary @ '' exitCode='' @ itoa ec @ '' category='' @ cat @ '' description='' @ desc else summary)
        in (be_Namespace b, be_PodName b, be_AgentName b, ''CrashLoopBackOff'', ''P3'', summary))
   | OOMKilledEvent b _ ec r \<Rightarrow>
       (be_Namespace b, be_PodName b, be_AgentName b, ''OOMKilled'', ''P2'',
        ''OOMKilled exitCode='' @ itoa ec @ '' reason='' @ r)
   | ImagePullBackOffEvent b _ r m \<Rightarrow>
       (be_Namespace b, be_PodName b, be_AgentName b, ''ImagePullBackOff'', ''P3'',
        ''Image pull failure reason='' @ r @ '' message='' @ m)
   | PodPendingTooLongEvent b pf to \<Rightarrow>
       (be_Namespace b, be_PodName b, be_AgentName b, ''PodPendingTooLong'', ''P3'',
        ''Pod pending too long pendingFor='' @ duration_string pf @ '' timeout='' @ duration_string to)
   | GracePeriodViolationEvent b g od \<Rightarrow>
       (be_Namespace b, be_PodName b, be_AgentName b, ''GracePeriodViolation'', ''P2'',
        ''Pod deletion exceeded grace period grace='' @ itoa g @ ''s overdue='' @ duration_string od)
   | NodeNotReadyEvent b r m \<Rightarrow>
       (be_Namespace b, be_NodeName b, be_AgentName b, ''NodeNotReady'', ''P1'',
        ''Node not ready reason='' @ r @ '' message='' @ m)
   | PodEvictedEvent b r m \<Rightarrow>
       (be_Namespace b, be_PodName b, be_AgentName b, ''PodEvicted'', ''P2'',
        ''Pod evicted from node reason='' @ r @ '' message='' @ m)
   | ProbeFailureEvent b pt m \<Rightarrow>
       (be_Namespace b, be_PodName b, be_AgentName b, ''ProbeFailure'', ''P3'',
        ''Probe failed probeType='' @ pt @ '' message='' @ m)
   | StalledRolloutEvent b n _ dr rr r m \<Rightarrow>
       (be_Namespace b, n, be_AgentName b, ''StalledRollout'', ''P2'',
        ''Deployment rollout stalled reason='' @ r @ '' desiredReplicas='' @ itoa dr @
        '' readyReplicas='' @ itoa rr @ '' message='' @ m)
   | NodePressureEvent b pt m \<Rightarrow>
       (be_Namespace b, be_NodeName b, be_AgentName b, ''NodePressure'',
        (if pt = ''PIDPressure'' then ''P3'' else ''P2''),
        ''Node '' @ be_NodeName b @ '' condition='' @ pt @ '' message='' @ m)
   | _ \<Rightarrow> ([], [], [], [], [], []))"

section \<open>Engines as sinks of events\<close>

text \<open>
  What the consumer relies on of a rule engine: the events it holds are events it was given.
\<close>

definition engine_held :: "('e \<Rightarrow> correlator_event set) \<Rightarrow> 'e option \<Rightarrow> correlator_event set" where
  "engine_held held engine = (case engine of None \<Rightarrow> {} | Some e \<Rightarrow> held e)"

lemma handle_cs_engine:
  "cs_engine (snd (handleEvent V now event c)) =
     (if is_lifecycle_event event then cs_engine c
      else snd (signal_input V now event
        (rp_world (observe (cv_rep V) [RecordSignalReceived (event_type event)] (cs_rep c))) (cs_engine c)))"
  by (cases event) (auto simp: handleEvent_def is_lifecycle_event_def Let_def split: prod.splits option.splits)

locale event_sink =
  fixes ops :: "'e engine_ops" and held :: "'e \<Rightarrow> correlator_event set"
  assumes add_held: "held (eo_Add ops now event e) \<subseteq> insert event (held e)"
    and eval_held: "held (snd (eo_Evaluate ops now event e)) \<subseteq> held e"
begin

lemma signal_input_held:
  assumes "cv_engine V = ops"
  shows "engine_held held (snd (signal_input V now event w engine)) \<subseteq> insert event (engine_held held engine)"
proof (cases engine)
  case (Some e)
  let ?e = "eo_Add ops now event e"
  have "snd (signal_input V now event w engine) = Some ?e
      \<or> snd (signal_input V now event w engine) = Some (snd (eo_Evaluate ops now event ?e))"
    using assms Some by (auto simp: signal_input_def Let_def split: option.splits prod.splits)
  then show ?thesis using add_held [of now event e] eval_held [of now event ?e] Some by (auto simp: engine_held_def)
qed (simp add: signal_input_def engine_held_def split: option.splits)

lemma handle_held:
  assumes "cv_engine V = ops"
  shows "engine_held held (cs_engine (snd (handleEvent V now event c)))
    \<subseteq> (if is_lifecycle_event event then engine_held held (cs_engine c) else insert event (engine_held held (cs_engine c)))"
  using signal_input_held [OF assms] by (simp add: handle_cs_engine)

text \<open>What reaches the engine in a run: no lifecycle event.\<close>

lemma consume_held:
  assumes "cv_engine V = ops"
  shows "engine_held held (cs_engine (consume V evs c)) \<subseteq>
    engine_held held (cs_engine c) \<union> {event. (\<exists>now. (now, Some event) \<in> set evs) \<and> \<not> is_lifecycle_event event}"
  using assms
proof (induction V evs c rule: consume.induct)
  case (3 V now event evs c)
  let ?new = "{ev. (\<exists>t. (t, Some ev) \<in> set ((now, Some event) # evs)) \<and> \<not> is_lifecycle_event ev}"
  have "engine_held held (cs_engine (snd (handleEvent V now event c))) \<subseteq> engine_held held (cs_engine c) \<union> ?new"
    using handle_held [OF 3(2), of now event c] by (auto split: if_splits)
  moreover have "{ev. (\<exists>t. (t, Some ev) \<in> set evs) \<and> \<not> is_lifecycle_event ev} \<subseteq> ?new" by auto
  ultimately show ?case using 3(1) [OF 3(2)] by simp blast
qed auto

end

definition crd_ops :: "('re, 'tm, 'fl) go_lib \<Rightarrow> ('re, 'tm, 'fl) crd_engine engine_ops" where
  "crd_ops L = \<lparr>eo_Add = ce_Add, eo_Evaluate = ce_Evaluate L\<rparr>"

definition registry_ops :: "correlator engine_ops" where
  "registry_ops = \<lparr>eo_Add = co_Add, eo_Evaluate = co_Evaluate\<rparr>"

definition buffered :: "buffer \<Rightarrow> correlator_event set" where
  "buffered b = en_Event ` set (bf_entries b)"

lemma buffered_purge: "buffered (buf_purgeOld now b) \<subseteq> buffered b"
  unfolding buffered_def buf_purgeOld_entries by (intro image_mono set_dropWhile_subset)

lemma buffered_Add: "buffered (buf_Add now e b) \<subseteq> insert e (buffered b)"
  using buffered_purge [of now b] by (auto simp: buf_Add_def Let_def buffered_def)

interpretation crd_sink: event_sink "crd_ops L" "\<lambda>e. buffered (ce_buf e)"
  for L :: "('re, 'tm, 'fl) go_lib"
  using buffered_Add buffered_purge
  by unfold_locales (simp_all add: crd_ops_def ce_Add_def ce_Evaluate_def Snapshot_def Let_def)

interpretation registry_sink: event_sink registry_ops "\<lambda>c. buffered (co_buf c)"
  using buffered_Add buffered_purge
  by unfold_locales (simp_all add: registry_ops_def co_Add_def co_Evaluate_def Snapshot_def Let_def)

lemma run_buffered:
  assumes "cv_engine V = crd_ops L" "bf_entries (ce_buf e0) = []"
    and "cs_engine (consumer_Run V order now evs (NewConsumer w (Some e0))) = Some e"
  shows "buffered (ce_buf e) \<subseteq> {event. (\<exists>t. (t, Some event) \<in> set evs) \<and> \<not> is_lifecycle_event event}"
proof -
  let ?c = "NewConsumer w (Some e0)"
  let ?c' = "?c\<lparr>cs_rep := snd (Consolidate (cv_rep V) order now (cs_rep ?c))\<rparr>"
  have "engine_held (\<lambda>e. buffered (ce_buf e)) (cs_engine ?c') = {}"
    using assms(2) by (simp add: engine_held_def NewConsumer_def buffered_def)
  with crd_sink.consume_held [OF assms(1), of evs ?c'] assms(3) show ?thesis
    by (simp add: consumer_Run_def engine_held_def)
qed

section \<open>Sample environment\<close>

definition sample_env :: "(mem_world, (string, string, int) crd_engine) cons_env" where
  "sample_env = \<lparr>cv_rep = mem_env, cv_engine = crd_ops sample_lib, cv_normalizer = NewNormalizer []\<rparr>"

definition sample_event :: correlator_event where
  "sample_event = OOMKilledEvent \<lparr>be_At = 5000000000, be_AgentName = ''agent'', be_Namespace = ''shop'',
     be_PodName = ''web-1'', be_PodUID = [], be_NodeName = []\<rparr> ''app'' 137 ''OOMKilled''"

definition sample_healthy :: correlator_event where
  "sample_healthy = PodHealthyEvent \<lparr>be_At = 6000000000, be_AgentName = ''agent'', be_Namespace = ''shop'',
     be_PodName = ''web-1'', be_PodUID = [], be_NodeName = []\<rparr>"

definition sample_consumer :: "(mem_world, (string, string, int) crd_engine) consumer" where
  "sample_consumer = NewConsumer (rp_world mem_empty) (Some (NewCRDRuleEngine 300000000000))"

lemma sample_engine: "cv_engine sample_env = crd_ops sample_lib" "cv_rep sample_env = mem_env"
  by (simp_all add: sample_env_def)

definition sample_run :: "(mem_world, (string, string, int) crd_engine) consumer" where
  "sample_run = consumer_Run sample_env (\<lambda>gs. gs) 4000000000
     [(5000000000, Some sample_event), (6000000000, None), (6000000000, Some sample_healthy)] sample_consumer"

lemma signal_input_engine: "snd (signal_input V now event w (Some e)) \<noteq> None"
  by (auto simp: signal_input_def Let_def split: option.splits prod.splits)

lemma handle_engine: "cs_engine c \<noteq> None \<Longrightarrow> cs_engine (snd (handleEvent V now event c)) \<noteq> None"
  using signal_input_engine by (auto simp: handle_cs_engine)

lemma consume_engine: "cs_engine c \<noteq> None \<Longrightarrow> cs_engine (consume V evs c) \<noteq> None"
  by (induction V evs c rule: consume.induct) (simp_all add: handle_engine)

lemma sample_run_engine: obtains e where "cs_engine sample_run = Some e"
proof -
  have "cs_engine sample_run \<noteq> None"
    unfolding sample_run_def consumer_Run_def by (rule consume_engine) (simp add: sample_consumer_def NewConsumer_def)
  then show thesis using that by blast
qed

lemma mem_none_ensure:
  assumes "mw_reports (rp_world st) = []"
  shows "fst (EnsureSignal mem_env now i st) = None"
  using assms
  by (simp add: EnsureSignal_def findOpenIncident_def mem_client_sel list_candidates_def or_not_found_def
      findResolvableIncident_def findExistingByWorkloadRef_def createIncident_def mem_create_def lookup_report_def
      mem_put_def Let_def split: option.splits prod.splits)

lemma apply_result_type [simp]: "in_IncidentType (apply_result result i) = in_IncidentType i"
  by (simp add: apply_result_def Let_def)

lemma sample_enriched:
  assumes "mw_pods w = (\<lambda>ns name. None)"
  shows "identifiable (Enrich mem_client w (buildInput sample_event (mk_mapping ''OOMKilled'' ''P2'' ''Pod'')))"
proof (rule Fingerprint_identifiable)
  let ?i = "Enrich mem_client w (buildInput sample_event (mk_mapping ''OOMKilled'' ''P2'' ''Pod''))"
  have "sc_Level (in_Scope ?i) \<in> known_levels" by (intro Enrich_level buildInput_fields(6))
  then show "sc_Level (in_Scope ?i) \<in> {''Cluster'', ''Workload'', ''Namespace'', ''Pod''}"
    by (simp add: known_levels_def)
  have "in_Scope (buildInput sample_event (mk_mapping ''OOMKilled'' ''P2'' ''Pod'')) =
      \<lparr>sc_Level = ''Pod'', sc_Namespace = ''shop'', sc_WorkloadRef = None,
       sc_ResourceRef = Some (mk_ref ''v1'' ''Pod'' ''shop'' ''web-1'' [])\<rparr>"
    "in_Namespace (buildInput sample_event (mk_mapping ''OOMKilled'' ''P2'' ''Pod'')) = ''shop''"
    by (simp_all add: buildInput_def sample_event_def mk_mapping_def ExtractBase_def default_scope_def pod_scope_def
        applyOTelScopeOverrides_def extractOTelResourceIdentity_def Let_def)
  then have "in_Scope ?i = \<lparr>sc_Level = ''Pod'', sc_Namespace = ''shop'', sc_WorkloadRef = None,
       sc_ResourceRef = Some (mk_ref ''v1'' ''Pod'' ''shop'' ''web-1'' [])\<rparr>"
    using assms
    by (simp add: Enrich_def ResolvePodScope_def mem_client_def or_not_found_def promoteToWorkloadScope_def
        promote_by_name_def GuessDeploymentNameFromPod_def mk_ref_def Let_def trim_space_def trim_cut_def trim_left_def
        trim_right_def is_space_def)
  then show "names_lower (in_Scope ?i)"
    by (simp add: names_lower_def lower_case_def is_upper_def mk_ref_def)
qed

lemma sample_signal:
  assumes "mw_pods w = (\<lambda>ns name. None)"
  obtains i engine where "signal_input sample_env 7000000000 sample_event w (cs_engine sample_consumer) = (Some i, engine)"
    "in_IncidentType i = ''OOMKilled''" "identifiable i"
proof -
  let ?i = "Enrich mem_client w (buildInput sample_event (mk_mapping ''OOMKilled'' ''P2'' ''Pod''))"
  have "Normalize (cv_normalizer sample_env) sample_event
      = Some (buildInput sample_event (mk_mapping ''OOMKilled'' ''P2'' ''Pod''))"
    by (simp add: sample_env_def Normalize_def sample_event_def event_type_def NewNormalizer_def DefaultMappings_def
        mk_mapping_def Let_def)
  moreover have "apply_result zero_result ?i = ?i" by (simp add: apply_result_def zero_result_def)
  moreover have "in_IncidentType ?i = ''OOMKilled''" by (simp add: buildInput_fields mk_mapping_def)
  ultimately show thesis using that [of ?i] sample_enriched [OF assms]
    by (auto simp: signal_input_def Let_def sample_consumer_def NewConsumer_def sample_engine crd_ops_def
        ce_Evaluate_def ce_Add_def NewCRDRuleEngine_def Snapshot_def)
qed

lemma sample_no_pods:
  "mw_pods (rp_world (observe (cv_rep sample_env) obs (cs_rep sample_consumer))) = (\<lambda>ns name. None)"
proof -
  have "mw_pods (fold (\<lambda>ob w. k_observe mem_client w ob) obs w) = mw_pods w" for w
    by (induction obs arbitrary: w) (simp_all add: mem_client_sel)
  then show ?thesis by (simp add: observe_def sample_engine sample_consumer_def NewConsumer_def mem_empty_def)
qed

section \<open>Properties\<close>

text \<open>Whatever the channel delivers, the sliding window of the rule engine of a new consumer only ever
  holds failure events that were delivered: pod-healthy and pod-deleted events never enter it.
\<close>

theorem consumer_buffers_no_lifecycle:
  assumes "cv_engine V = crd_ops L" "bf_entries (ce_buf e0) = []"
    and "cs_engine (consumer_Run V order now evs (NewConsumer w (Some e0))) = Some e"
  shows "\<forall>event \<in> buffered (ce_buf e). \<not> is_lifecycle_event event \<and> (\<exists>t. (t, Some event) \<in> set evs)"
  using run_buffered [OF assms] by blast

theorem consumer_buffers_no_lifecycle_witness:
  "\<exists>e. cs_engine sample_run = Some e \<and> (\<forall>event \<in> buffered (ce_buf e). \<not> is_lifecycle_event event)"
proof -
  obtain e where e: "cs_engine sample_run = Some e" by (rule sample_run_engine)
  from consumer_buffers_no_lifecycle [OF sample_engine(1) _ e [unfolded sample_run_def sample_consumer_def]] e
  show ?thesis by (simp add: NewCRDRuleEngine_def NewBuffer_def)
qed

text \<open>
  A negated condition on a pod lifecycle event, such as the one of the default rule
  \<open>imagepull-no-history\<close>, never restrains a rule: over the window of a running consumer the
  conditions are met with it exactly when they are met without it.
\<close>

theorem negated_lifecycle_condition_vacuous:
  assumes "cv_engine V = crd_ops L" "bf_entries (ce_buf e0) = []"
    and "cs_engine (consumer_Run V order now evs (NewConsumer w (Some e0))) = Some e"
    and "lc_negate cond" "lc_eventType cond = ''PodHealthy'' \<or> lc_eventType cond = ''PodDeleted''"
  shows "conditionsMet L trigger (cond # conds) (bf_entries (ce_buf e))
    = conditionsMet L trigger conds (bf_entries (ce_buf e))"
proof -
  have "event_type (en_Event en) \<noteq> lc_eventType cond" if "en \<in> set (bf_entries (ce_buf e))" for en
  proof -
    have "en_Event en \<in> buffered (ce_buf e)" using that by (simp add: buffered_def)
    then have "\<not> is_lifecycle_event (en_Event en)" using run_buffered [OF assms(1-3)] by blast
    then show ?thesis using assms(5) lifecycle_event_type [of "en_Event en"] by auto
  qed
  then show ?thesis using assms(4) by (simp add: Let_def list_ex_iff condition_entry_def)
qed

theorem negated_lifecycle_condition_vacuous_witness:
  "\<exists>e. cs_engine sample_run = Some e \<and>
     conditionsMet sample_lib sample_event
       [\<lparr>lc_eventType = ''PodHealthy'', lc_scope = ''samePod'', lc_negate = True, lc_attributes = []\<rparr>]
       (bf_entries (ce_buf e))"
proof -
  let ?cond = "\<lparr>lc_eventType = ''PodHealthy'', lc_scope = ''samePod'', lc_negate = True, lc_attributes = []\<rparr>"
  obtain e where e: "cs_engine sample_run = Some e" by (rule sample_run_engine)
  have "conditionsMet sample_lib sample_event [?cond] (bf_entries (ce_buf e))
      = conditionsMet sample_lib sample_event [] (bf_entries (ce_buf e))"
    by (rule negated_lifecycle_condition_vacuous [OF sample_engine(1) _ e [unfolded sample_run_def sample_consumer_def]])
      (simp_all add: NewCRDRuleEngine_def NewBuffer_def)
  with e show ?thesis by auto
qed

lemma handle_failure_event:
  assumes "\<not> is_lifecycle_event event"
  shows "handleEvent V now event c = (let st = observe (cv_rep V) [RecordSignalReceived (event_type event)] (cs_rep c) in case signal_input V now event (rp_world st) (cs_engine c) of
      (None, engine) \<Rightarrow> (None, \<lparr>cs_rep = st, cs_engine = engine\<rparr>)
    | (Some i, engine) \<Rightarrow> (let (err, st) = EnsureSignal (cv_rep V) now i st in (err, \<lparr>cs_rep = st, cs_engine = engine\<rparr>)))"
  using assms by (cases event) (simp_all add: handleEvent_def is_lifecycle_event_def Let_def)

lemma handle_lifecycle_event:
  "cs_rep (snd (handleEvent V now (PodHealthyEvent b) c)) = snd (ResolveForHealthyPod (cv_rep V) now (be_Namespace b)
     (be_PodName b) (observe (cv_rep V) [RecordSignalReceived ''PodHealthy''] (cs_rep c)))"
  "cs_rep (snd (handleEvent V now (PodDeletedEvent b) c)) = snd (ResolveForDeletedPod (cv_rep V) now (be_Namespace b)
     (be_PodName b) (observe (cv_rep V) [RecordSignalReceived ''PodDeleted''] (cs_rep c)))"
  by (simp_all add: handleEvent_def Let_def event_type_def split: prod.splits)

text \<open>The error spans that the normalizer leaves out, as they mirror the failure of another service, and
  what the rule engine says of an event once it is in its window.\<close>

definition client_span :: "correlator_event \<Rightarrow> bool" where
  "client_span event \<longleftrightarrow> event_type event = ''OTelSpanError'' \<and> ev_SpanKind event \<notin> {[], ''SERVER''}"

definition rule_result :: "('w, 'e) cons_env \<Rightarrow> gotime \<Rightarrow> correlator_event \<Rightarrow> 'e option \<Rightarrow> correlation_result" where
  "rule_result V now event engine = (case engine of None \<Rightarrow> zero_result
   | Some e \<Rightarrow> fst (eo_Evaluate (cv_engine V) now event (eo_Add (cv_engine V) now event e)))"

lemma apply_result_fields:
  "in_Summary (apply_result result i) = (if cr_Fired result then cr_Summary result else in_Summary i)"
  "in_Severity (apply_result result i) = (if cr_Fired result then cr_Severity result else in_Severity i)"
  by (simp_all add: apply_result_def Let_def)

lemma signal_input_default:
  assumes "cv_normalizer V = NewNormalizer []" "\<not> is_lifecycle_event event"
  shows "client_span event \<Longrightarrow> fst (signal_input V now event w engine) = None"
    and "\<not> client_span event \<Longrightarrow> \<exists>i. fst (signal_input V now event w engine) = Some i \<and> in_IncidentType i = event_type event
      \<and> in_Summary i = (if cr_Fired (rule_result V now event engine) then cr_Summary (rule_result V now event engine)
                          else stripEmptyKV (buildSummary event))
      \<and> (if cr_Fired (rule_result V now event engine) then in_Severity i = cr_Severity (rule_result V now event engine)
          else in_Severity i \<in> {''P1'', ''P2'', ''P3'', ''P4''})"
proof -
  note norm = Normalize_default [of event]
  show "fst (signal_input V now event w engine) = None" if "client_span event"
    using norm that assms by (simp add: client_span_def signal_input_def Let_def)
  assume "\<not> client_span event"
  then obtain j where j: "Normalize (NewNormalizer []) event = Some j" using norm assms(2) by (auto simp: client_span_def)
  then obtain m where m: "j = buildInput event m"
    by (auto simp: Normalize_def Let_def split: if_splits option.splits correlator_event.splits)
  let ?r = "rule_result V now event engine" and ?i = "Enrich (re_client (cv_rep V)) w j"
  have "fst (signal_input V now event w engine) = Some (apply_result ?r ?i)"
    using j assms(1)
    by (auto simp: signal_input_def rule_result_def Let_def apply_result_def zero_result_def split: option.split prod.split)
  moreover have "in_IncidentType j = event_type event" "in_Severity j \<in> {''P1'', ''P2'', ''P3'', ''P4''}" using norm j by auto
  moreover have "in_Summary j = stripEmptyKV (buildSummary event)" using buildInput_fields(3) m by simp
  ultimately show "\<exists>i. fst (signal_input V now event w engine) = Some i \<and> in_IncidentType i = event_type event
      \<and> in_Summary i = (if cr_Fired ?r then cr_Summary ?r else stripEmptyKV (buildSummary event))
      \<and> (if cr_Fired ?r then in_Severity i = cr_Severity ?r else in_Severity i \<in> {''P1'', ''P2'', ''P3'', ''P4''})"
    by (intro exI [of _ "apply_result ?r ?i"]) (simp add: apply_result_fields)
qed



text \<open>Handling an event, whatever its writes answer, keeps the store well formed.\<close>

lemma handleEvent_keeps_store:
  assumes "report_store (re_client (cv_rep V)) ok reports" "ok (rp_world (cs_rep c))"
    and "store_ok (re_sha1 (cv_rep V)) (reports (rp_world (cs_rep c)))"
    and "\<And>i. fst (signal_input V now event (rp_world (observe (cv_rep V) [RecordSignalReceived (event_type event)] (cs_rep c)))
               (cs_engine c)) = Some i \<Longrightarrow> identifiable i"
  shows "ok (rp_world (cs_rep (snd (handleEvent V now event c))))
    \<and> store_ok (re_sha1 (cv_rep V)) (reports (rp_world (cs_rep (snd (handleEvent V now event c)))))"
proof -
  let ?E = "cv_rep V" and ?st = "observe (cv_rep V) [RecordSignalReceived (event_type event)] (cs_rep c)"
  have 1: "ok (rp_world ?st)" "store_ok (re_sha1 ?E) (reports (rp_world ?st))"
    using reporter_store.observe_keeps(1,2) [OF reporter_storeI [OF assms(1)] assms(2)] assms(3) by simp_all
  have "cs_rep (snd (handleEvent V now event c)) = ?st \<or> reporter_step ?E ?st (cs_rep (snd (handleEvent V now event c)))"
  proof (cases "is_lifecycle_event event")
    case True
    then show ?thesis
      by (cases event) (auto simp: is_lifecycle_event_def handle_lifecycle_event event_type_def
          intro: reporter_step.healthy reporter_step.deleted)
  next
    case False
    obtain o1 engine where si: "signal_input V now event (rp_world ?st) (cs_engine c) = (o1, engine)" by force
    show ?thesis
    proof (cases o1)
      case None
      then show ?thesis by (simp add: handle_failure_event [OF False] si Let_def)
    next
      case (Some i)
      then have "identifiable i" using assms(4) si by (metis fst_conv)
      then have "reporter_step ?E ?st (snd (EnsureSignal ?E now i ?st))" by (rule reporter_step.signal)
      moreover have "cs_rep (snd (handleEvent V now event c)) = snd (EnsureSignal ?E now i ?st)"
        using Some by (simp add: handle_failure_event [OF False] si Let_def split: prod.splits)
      ultimately show ?thesis by simp
    qed
  qed
  then show ?thesis using reporter_step_ok [OF assms(1) 1] 1 by auto
qed

end
