(* ===== verification/Lifecycle.thy ===== *)
theory Lifecycle
  imports Reporter_Store
begin

text \<open>
  The lifecycle controller of \<open>internal/controller/incidentreport_controller.go\<close>: the reconciler
  that moves a report from Detecting to Active to Resolved. Its environment \<open>C\<close> holds the client,
  the RFC 3339 parser, whether an event recorder is attached, the notification dispatcher and the
  incident graph builder; the last two are optional in the source and so here.
\<close>

definition stabilizationDelay :: duration where "stabilizationDelay = 300000000000"
definition healthyResolveWindow :: duration where "healthyResolveWindow = 300000000000"

abbreviation notificationOpenSentKey :: string where
  "notificationOpenSentKey \<equiv> ''rca.rca-operator.tech/notification-open-sent''"
abbreviation notificationResolvedSentKey :: string where
  "notificationResolvedSentKey \<equiv> ''rca.rca-operator.tech/notification-resolved-sent''"
abbreviation resolvedMetricRecordedKey :: string where
  "resolvedMetricRecordedKey \<equiv> ''rca.rca-operator.tech/resolved-metric-recorded''"

text \<open>What \<open>Build\<close> answers: an error, or a graph with its number of nodes and its JSON text, if
  it can be marshalled; a nil graph has no nodes.\<close>

datatype graph_answer = BuildError | BuiltGraph nat "string option"

record 'w rec_env =
  rv_client :: "'w kube"
  rv_parse :: "string \<Rightarrow> gotime option"
  rv_recorder :: bool
  rv_notifier :: "(incident_report \<Rightarrow> string \<Rightarrow> 'w \<Rightarrow> kerr option \<times> 'w) option"
  rv_graph :: "(incident_report \<Rightarrow> 'w \<Rightarrow> graph_answer) option"

datatype rec_error = RecError string string string kerr | ReadError kerr

text \<open>The answer of a reconciliation: \<open>RequeueAfter\<close> (0 for none), the error, and the world.\<close>

type_synonym 'w rec_answer = "duration \<times> rec_error option \<times> 'w"

definition rec_fail :: "string \<Rightarrow> incident_report \<Rightarrow> kerr \<Rightarrow> rec_error" where
  "rec_fail msg report err = RecError msg (report_ns report) (report_name report) err"

definition ignore_missing :: "kerr \<Rightarrow> rec_error option" where
  "ignore_missing err = (if err = NotFound then None else Some (ReadError err))"

definition rec_observe :: "'w rec_env \<Rightarrow> observation list \<Rightarrow> 'w \<Rightarrow> 'w" where
  "rec_observe C obs w = fold (\<lambda>ob w. k_observe (rv_client C) w ob) obs w"

definition rec_event :: "'w rec_env \<Rightarrow> string \<Rightarrow> string \<Rightarrow> string \<Rightarrow> string \<Rightarrow> 'w \<Rightarrow> 'w" where
  "rec_event C etype reason action msg w =
     (if rv_recorder C then rec_observe C [KubeEvent etype reason action msg] w else w)"

section \<open>Is the issue still present?\<close>

definition isPodReady :: "pod \<Rightarrow> bool" where
  "isPodReady p \<longleftrightarrow>
     pod_Phase p = ''Running'' \<and>
     (case find (\<lambda>c. kc_Type c = ''Ready'') (pod_Conditions p) of
        None \<Rightarrow> False | Some c \<Rightarrow> kc_Status c = ''True'')"

text \<open>A read that answers \<open>False\<close> when the object is gone.\<close>

definition present_if :: "('a \<Rightarrow> bool) \<Rightarrow> kerr + 'a \<Rightarrow> kerr + bool" where
  "present_if p answer = (case answer of
     Inl NotFound \<Rightarrow> Inr False | Inl err \<Rightarrow> Inl err | Inr x \<Rightarrow> Inr (p x))"

definition podIncidentStillPresent :: "'w rec_env \<Rightarrow> 'w \<Rightarrow> string \<Rightarrow> string \<Rightarrow> kerr + bool" where
  "podIncidentStillPresent C w namespace name =
     present_if (\<lambda>p. \<not> isPodReady p) (k_get_pod (rv_client C) w namespace name)"

definition node_unhealthy :: "kcondition \<Rightarrow> bool" where
  "node_unhealthy cond \<longleftrightarrow>
     (if kc_Type cond = ''Ready'' then kc_Status cond \<noteq> ''True''
      else kc_Type cond \<in> {''DiskPressure'', ''MemoryPressure'', ''PIDPressure''} \<and> kc_Status cond = ''True'')"

definition nodeIncidentStillPresent :: "'w rec_env \<Rightarrow> 'w \<Rightarrow> string \<Rightarrow> kerr + bool" where
  "nodeIncidentStillPresent C w name =
     present_if (list_ex node_unhealthy) (k_get_node_conditions (rv_client C) w name)"

definition deploymentIncidentStillPresent :: "'w rec_env \<Rightarrow> 'w \<Rightarrow> string \<Rightarrow> string \<Rightarrow> kerr + bool" where
  "deploymentIncidentStillPresent C w namespace name =
     present_if (list_ex (\<lambda>c. kc_Type c = ''Progressing'' \<and> kc_Status c = ''False''
                            \<and> kc_Reason c = ''ProgressDeadlineExceeded''))
       (k_get_deployment_conditions (rv_client C) w namespace name)"

definition statefulSetIncidentStillPresent :: "'w rec_env \<Rightarrow> 'w \<Rightarrow> string \<Rightarrow> string \<Rightarrow> kerr + bool" where
  "statefulSetIncidentStillPresent C w namespace name =
     present_if (\<lambda>sts. sts_UpdateRevision sts \<noteq> sts_CurrentRevision sts \<and>
         sts_UpdatedReplicas sts < (case sts_Replicas sts of None \<Rightarrow> 1 | Some n \<Rightarrow> n))
       (k_get_stateful_set (rv_client C) w namespace name)"

definition daemonSetIncidentStillPresent :: "'w rec_env \<Rightarrow> 'w \<Rightarrow> string \<Rightarrow> string \<Rightarrow> kerr + bool" where
  "daemonSetIncidentStillPresent C w namespace name =
     present_if (\<lambda>ds. 0 < ds_DesiredNumberScheduled ds \<and>
         ds_UpdatedNumberScheduled ds < ds_DesiredNumberScheduled ds)
       (k_get_daemon_set (rv_client C) w namespace name)"

definition jobIncidentStillPresent :: "'w rec_env \<Rightarrow> 'w \<Rightarrow> string \<Rightarrow> string \<Rightarrow> kerr + bool" where
  "jobIncidentStillPresent C w namespace name =
     present_if (list_ex (\<lambda>c. kc_Type c = ''Failed'' \<and> kc_Status c = ''True''))
       (k_get_job_conditions (rv_client C) w namespace name)"

definition cronJobIncidentStillPresent :: "'w rec_env \<Rightarrow> 'w \<Rightarrow> string \<Rightarrow> string \<Rightarrow> kerr + bool" where
  "cronJobIncidentStillPresent C w namespace name =
     present_if (\<lambda>_. False) (k_get_cron_job (rv_client C) w namespace name)"

text \<open>The check of a workload kind, if it is one the controller knows.\<close>

definition workload_check :: "'w rec_env \<Rightarrow> 'w \<Rightarrow> object_ref \<Rightarrow> (kerr + bool) option" where
  "workload_check C w ref =
     (let k = or_Kind ref; ns = or_Namespace ref; n = or_Name ref
      in if k = ''Deployment'' then Some (deploymentIncidentStillPresent C w ns n)
         else if k = ''StatefulSet'' then Some (statefulSetIncidentStillPresent C w ns n)
         else if k = ''DaemonSet'' then Some (daemonSetIncidentStillPresent C w ns n)
         else if k = ''Job'' then Some (jobIncidentStillPresent C w ns n)
         else if k = ''CronJob'' then Some (cronJobIncidentStillPresent C w ns n)
         else None)"

definition resource_check :: "'w rec_env \<Rightarrow> 'w \<Rightarrow> object_ref \<Rightarrow> (kerr + bool) option" where
  "resource_check C w ref =
     (if or_Kind ref = ''Node'' then Some (nodeIncidentStillPresent C w (or_Name ref))
      else if or_Kind ref = ''Pod'' then Some (podIncidentStillPresent C w (or_Namespace ref) (or_Name ref))
      else workload_check C w ref)"

definition affected_check :: "'w rec_env \<Rightarrow> 'w \<Rightarrow> affected_resource list \<Rightarrow> kerr + bool" where
  "affected_check C w rs = (case find (\<lambda>r. ar_Kind r = ''Node'') rs of
     Some r \<Rightarrow> nodeIncidentStillPresent C w (ar_Name r)
   | None \<Rightarrow> (case find (\<lambda>r. ar_Kind r = ''Pod'') rs of
       Some r \<Rightarrow> podIncidentStillPresent C w (ar_Namespace r) (ar_Name r)
     | None \<Rightarrow> Inr False))"

definition incidentStillPresent :: "'w rec_env \<Rightarrow> 'w \<Rightarrow> incident_report \<Rightarrow> kerr + bool" where
  "incidentStillPresent C w report =
     (let scope = sp_Scope (ir_Spec report)
      in case Option.bind (sc_ResourceRef scope) (resource_check C w) of
           Some answer \<Rightarrow> answer
         | None \<Rightarrow> (case Option.bind (sc_WorkloadRef scope) (workload_check C w) of
             Some answer \<Rightarrow> answer
           | None \<Rightarrow> affected_check C w (st_AffectedResources (ir_Status report))))"

definition stabilizationWindow :: "incident_report \<Rightarrow> duration" where
  "stabilizationWindow report =
     (if 0 < st_StabilizationWindowSeconds (ir_Status report)
      then wrap64 (st_StabilizationWindowSeconds (ir_Status report) * second)
      else 30 * second)"

section \<open>Transitions\<close>

definition buildIncidentGraph :: "'w rec_env \<Rightarrow> incident_report \<Rightarrow> 'w \<Rightarrow> string option" where
  "buildIncidentGraph C report w = (case rv_graph C of
     None \<Rightarrow> None
   | Some build \<Rightarrow> (case build report w of
       BuildError \<Rightarrow> None
     | BuiltGraph nodes encoded \<Rightarrow> if nodes = 0 then None else encoded))"

definition set_graph :: "string \<Rightarrow> report_status \<Rightarrow> report_status" where
  "set_graph raw s = s\<lparr>st_IncidentGraph := Some raw\<rparr>"

text \<open>\<open>changed\<close> with the report as it is then, or the error.\<close>

definition ensureIncidentGraph ::
    "'w rec_env \<Rightarrow> incident_report \<Rightarrow> 'w \<Rightarrow> (rec_error + bool) \<times> 'w" where
  "ensureIncidentGraph C report w =
     (if (case st_IncidentGraph (ir_Status report) of None \<Rightarrow> False | Some raw \<Rightarrow> raw \<noteq> []) then (Inr False, w)
      else case buildIncidentGraph C report w of
             None \<Rightarrow> (Inr False, w)
           | Some raw \<Rightarrow>
               (case k_patch_status (rv_client C) w report
                       (report\<lparr>ir_Status := set_graph raw (ir_Status report)\<rparr>) of
                  (Inl err, w) \<Rightarrow> (Inl (rec_fail ''failed to patch IncidentReport topology graph'' report err), w)
                | (Inr _, w) \<Rightarrow> (Inr True, w)))"

definition transitionToActive :: "'w rec_env \<Rightarrow> gotime \<Rightarrow> incident_report \<Rightarrow> 'w \<Rightarrow> 'w rec_answer" where
  "transitionToActive C now report w =
     (let (s', obs) = MarkActive (ir_Status report) now ''Incident confirmed active after stabilisation period'';
          w = rec_observe C obs w;
          s' = (case buildIncidentGraph C (report\<lparr>ir_Status := s'\<rparr>) w of None \<Rightarrow> s' | Some raw \<Rightarrow> set_graph raw s')
      in case k_patch_status (rv_client C) w report (report\<lparr>ir_Status := s'\<rparr>) of
           (Inl err, w) \<Rightarrow> (0, Some (rec_fail ''failed to transition IncidentReport to Active'' report err), w)
         | (Inr report, w) \<Rightarrow>
             (healthyResolveWindow, None,
              rec_event C ''Warning'' ''IncidentActive'' ''Activate''
                (''Incident confirmed active type='' @ st_IncidentType (ir_Status report) @
                 '' severity='' @ st_Severity (ir_Status report)) w))"

definition transitionToResolved ::
    "'w rec_env \<Rightarrow> gotime \<Rightarrow> incident_report \<Rightarrow> string \<Rightarrow> 'w \<Rightarrow> 'w rec_answer" where
  "transitionToResolved C now report reason w =
     (let (s', obs) = MarkResolved (ir_Status report) now reason;
          w = rec_observe C obs w
      in case k_patch_status (rv_client C) w report (report\<lparr>ir_Status := s'\<rparr>) of
           (Inl err, w) \<Rightarrow> (0, Some (rec_fail ''failed to resolve IncidentReport'' report err), w)
         | (Inr _, w) \<Rightarrow> (0, None, rec_event C ''Normal'' ''IncidentResolved'' ''Resolve'' reason w))"

section \<open>Notifications\<close>

definition annotate :: "string \<Rightarrow> incident_report \<Rightarrow> incident_report" where
  "annotate k report = report\<lparr>ir_Meta := (ir_Meta report)\<lparr>om_Annotations :=
     (om_Annotations (ir_Meta report))(k \<mapsto> ''true'')\<rparr>\<rparr>"

definition sendOpenNotifications ::
    "'w rec_env \<Rightarrow> incident_report \<Rightarrow> 'w \<Rightarrow> (rec_error + incident_report) \<times> 'w" where
  "sendOpenNotifications C report w = (case rv_notifier C of
     None \<Rightarrow> (Inr report, w)
   | Some notify \<Rightarrow>
       (case notify report ''trigger'' w of
          (Some err, w) \<Rightarrow> (Inl (rec_fail ''notify open incident'' report err), w)
        | (None, w) \<Rightarrow>
            (case k_patch_report (rv_client C) w report (annotate notificationOpenSentKey report) of
               (Inl err, w) \<Rightarrow> (Inl (rec_fail ''mark open notification metadata'' report err), w)
             | (Inr report, w) \<Rightarrow>
                 (case k_get_report (rv_client C) w (report_ns report) (report_name report) of
                    Inl err \<Rightarrow> (Inl (rec_fail ''re-fetch after annotation patch'' report err), w)
                  | Inr report \<Rightarrow>
                      (case k_patch_status (rv_client C) w report
                              (report\<lparr>ir_Status := (ir_Status report)\<lparr>st_Notified := True\<rparr>\<rparr>) of
                         (Inl err, w) \<Rightarrow> (Inl (rec_fail ''mark incident notified'' report err), w)
                       | (Inr report, w) \<Rightarrow> (Inr report, w))))))"

definition sendResolvedNotifications ::
    "'w rec_env \<Rightarrow> incident_report \<Rightarrow> 'w \<Rightarrow> rec_error option \<times> 'w" where
  "sendResolvedNotifications C report w =
     (if report_annotation report notificationResolvedSentKey = ''true'' then (None, w)
      else case rv_notifier C of
             None \<Rightarrow> (None, w)
           | Some notify \<Rightarrow>
               (case notify report ''resolve'' w of
                  (Some err, w) \<Rightarrow> (Some (rec_fail ''notify resolved incident'' report err), w)
                | (None, w) \<Rightarrow>
                    (case k_patch_report (rv_client C) w report (annotate notificationResolvedSentKey report) of
                       (Inl err, w) \<Rightarrow> (Some (rec_fail ''mark resolved notification metadata'' report err), w)
                     | (Inr _, w) \<Rightarrow> (None, w))))"

definition recordResolvedMetric ::
    "'w rec_env \<Rightarrow> incident_report \<Rightarrow> 'w \<Rightarrow> (rec_error + incident_report) \<times> 'w" where
  "recordResolvedMetric C report w =
     (if report_annotation report resolvedMetricRecordedKey = ''true'' then (Inr report, w)
      else case k_patch_report (rv_client C) w report (annotate resolvedMetricRecordedKey report) of
             (Inl err, w) \<Rightarrow> (Inl (rec_fail ''mark resolved metric metadata'' report err), w)
           | (Inr report, w) \<Rightarrow> (Inr report, w))"

section \<open>Reconciliation\<close>

text \<open>The re-read of a report, with \<open>client.IgnoreNotFound\<close> on its error.\<close>

definition rereading ::
    "'w rec_env \<Rightarrow> incident_report \<Rightarrow> (incident_report \<Rightarrow> 'w rec_answer) \<Rightarrow> 'w \<Rightarrow> 'w rec_answer" where
  "rereading C report k w = (case k_get_report (rv_client C) w (report_ns report) (report_name report) of
     Inl err \<Rightarrow> (0, ignore_missing err, w) | Inr r \<Rightarrow> k r)"

text \<open>The prologue of the three phases: back-fill the graph, and re-read the report if it changed.\<close>

definition with_graph ::
    "'w rec_env \<Rightarrow> incident_report \<Rightarrow> (incident_report \<Rightarrow> 'w \<Rightarrow> 'w rec_answer) \<Rightarrow> 'w \<Rightarrow> 'w rec_answer" where
  "with_graph C report body w = (case ensureIncidentGraph C report w of
     (Inl err, w) \<Rightarrow> (0, Some err, w)
   | (Inr False, w) \<Rightarrow> body report w
   | (Inr True, w) \<Rightarrow> rereading C report (\<lambda>r. body r w) w)"

definition recently_seen :: "'w rec_env \<Rightarrow> gotime \<Rightarrow> duration \<Rightarrow> incident_report \<Rightarrow> bool" where
  "recently_seen C now window report =
     (let seen = report_annotation report AnnotationLastSeen
      in seen \<noteq> [] \<and> (case rv_parse C seen of None \<Rightarrow> False | Some t \<Rightarrow> time_sub now t < window))"

definition detecting_body :: "'w rec_env \<Rightarrow> gotime \<Rightarrow> incident_report \<Rightarrow> 'w \<Rightarrow> 'w rec_answer" where
  "detecting_body C now report w = (case EffectiveStartTime (ir_Status report) of
     None \<Rightarrow> transitionToActive C now report w
   | Some firstObserved \<Rightarrow>
       (let window = stabilizationWindow report; elapsed = time_sub now firstObserved
        in if elapsed < window then (wrap64 (window - elapsed), None, w)
           else if recently_seen C now window report then transitionToActive C now report w
           else (case incidentStillPresent C w report of
                   Inl err \<Rightarrow> (0, Some (ReadError err), w)
                 | Inr True \<Rightarrow> transitionToActive C now report w
                 | Inr False \<Rightarrow> transitionToResolved C now report ''Incident cleared before activation'' w)))"

definition idle_since :: "'w rec_env \<Rightarrow> gotime \<Rightarrow> incident_report \<Rightarrow> gotime" where
  "idle_since C now report = (case st_LastObservedAt (ir_Status report) of
     Some t \<Rightarrow> t
   | None \<Rightarrow>
       (let fallback = (case EffectiveStartTime (ir_Status report) of Some t \<Rightarrow> t | None \<Rightarrow> now);
            seen = report_annotation report AnnotationLastSeen
        in if seen \<noteq> [] then (case rv_parse C seen of Some t \<Rightarrow> t | None \<Rightarrow> fallback) else fallback))"

definition active_idle :: "'w rec_env \<Rightarrow> gotime \<Rightarrow> incident_report \<Rightarrow> 'w \<Rightarrow> 'w rec_answer" where
  "active_idle C now report w =
     (let idle = time_sub now (idle_since C now report)
      in if idle < healthyResolveWindow then (wrap64 (healthyResolveWindow - idle), None, w)
         else (case incidentStillPresent C w report of
                 Inl err \<Rightarrow> (0, Some (ReadError err), w)
               | Inr True \<Rightarrow> (healthyResolveWindow, None, w)
               | Inr False \<Rightarrow> transitionToResolved C now report
                   ''No confirming signals for 5 minutes and issue state cleared'' w))"

definition active_body :: "'w rec_env \<Rightarrow> gotime \<Rightarrow> incident_report \<Rightarrow> 'w \<Rightarrow> 'w rec_answer" where
  "active_body C now report w =
     (if st_Notified (ir_Status report) then active_idle C now report w
      else case sendOpenNotifications C report w of
             (Inl err, w) \<Rightarrow> (0, Some err, w)
           | (Inr report, w) \<Rightarrow> active_idle C now report w)"

definition resolved_body :: "'w rec_env \<Rightarrow> incident_report \<Rightarrow> 'w \<Rightarrow> 'w rec_answer" where
  "resolved_body C report w = (case recordResolvedMetric C report w of
     (Inl err, w) \<Rightarrow> (0, Some err, w)
   | (Inr report, w) \<Rightarrow>
       if st_Notified (ir_Status report)
       then rereading C report (\<lambda>r. let (err, w) = sendResolvedNotifications C r w in (0, err, w)) w
       else (0, None, w))"

definition reconcileDetecting :: "'w rec_env \<Rightarrow> gotime \<Rightarrow> incident_report \<Rightarrow> 'w \<Rightarrow> 'w rec_answer" where
  "reconcileDetecting C now report w = with_graph C report (detecting_body C now) w"

definition reconcileActive :: "'w rec_env \<Rightarrow> gotime \<Rightarrow> incident_report \<Rightarrow> 'w \<Rightarrow> 'w rec_answer" where
  "reconcileActive C now report w = with_graph C report (active_body C now) w"

definition reconcileResolved :: "'w rec_env \<Rightarrow> incident_report \<Rightarrow> 'w \<Rightarrow> 'w rec_answer" where
  "reconcileResolved C report w = with_graph C report (resolved_body C) w"

definition Reconcile :: "'w rec_env \<Rightarrow> gotime \<Rightarrow> string \<times> string \<Rightarrow> 'w \<Rightarrow> 'w rec_answer" where
  "Reconcile C now req w = (case k_get_report (rv_client C) w (fst req) (snd req) of
     Inl err \<Rightarrow> (0, ignore_missing err, w)
   | Inr report \<Rightarrow>
       if report_phase report = ''Detecting'' then reconcileDetecting C now report w
       else if report_phase report = ''Active'' then reconcileActive C now report w
       else if report_phase report = ''Resolved'' then reconcileResolved C report w
       else (0, None, w))"

section \<open>The phase automaton\<close>

definition phase_step :: "string \<Rightarrow> string \<Rightarrow> bool" where
  "phase_step p q \<longleftrightarrow> p = q \<or> (p, q) \<in> {(''Detecting'', ''Active''), (''Detecting'', ''Resolved''), (''Active'', ''Resolved'')}"

text \<open>What reconciling may change of a report: phase and its times, timeline, graph, notification marks.\<close>

definition advances :: "incident_report \<Rightarrow> incident_report \<Rightarrow> bool" where
  "advances r r' \<longleftrightarrow>
     report_key r' = report_key r \<and> ir_Spec r' = ir_Spec r \<and> om_Labels (ir_Meta r') = om_Labels (ir_Meta r)
     \<and> phase_step (report_phase r) (report_phase r')
     \<and> st_IncidentType (ir_Status r') = st_IncidentType (ir_Status r)
     \<and> st_Severity (ir_Status r') = st_Severity (ir_Status r)
     \<and> st_AffectedResources (ir_Status r') = st_AffectedResources (ir_Status r)
     \<and> st_CorrelatedSignals (ir_Status r') = st_CorrelatedSignals (ir_Status r)
     \<and> st_SignalCount (ir_Status r') = st_SignalCount (ir_Status r)
     \<and> (st_Notified (ir_Status r) \<longrightarrow> st_Notified (ir_Status r'))
     \<and> (\<forall>k. report_annotation r k = ''true'' \<longrightarrow> report_annotation r' k = ''true'')
     \<and> (logs_bounded r \<longrightarrow> logs_bounded r')"

lemma phase_step_refl [simp]: "phase_step p p"
  by (simp add: phase_step_def)

lemma phase_step_trans: "phase_step p q \<Longrightarrow> phase_step q r \<Longrightarrow> phase_step p r"
  by (auto simp: phase_step_def)

lemma advances_refl [simp]: "advances r r"
  by (simp add: advances_def)

lemma advances_trans: "advances a b \<Longrightarrow> advances b c \<Longrightarrow> advances a c"
  using phase_step_trans [of "report_phase a" "report_phase b" "report_phase c"] by (simp add: advances_def)

lemma advances_fingerprint: "advances r r' \<Longrightarrow> reportFingerprint r' = reportFingerprint r"
proof -
  assume "advances r r'"
  then have "report_ns r' = report_ns r" "report_name r' = report_name r" "ir_Spec r' = ir_Spec r"
    "st_AffectedResources (ir_Status r') = st_AffectedResources (ir_Status r)"
    "st_IncidentType (ir_Status r') = st_IncidentType (ir_Status r)" by (simp_all add: advances_def)
  then have "legacy_parts r' = legacy_parts r" by (simp only: legacy_parts_def)
  then show ?thesis using \<open>advances r r'\<close> by (simp add: advances_def reportFingerprint_def Let_def)
qed

lemma advances_graph: "advances r (with_status (set_graph raw (ir_Status r)) r)"
  by (simp add: advances_def set_graph_def logs_bounded_def)

lemma advances_annotate: "advances r (with_meta (annotate k r) r)"
  by (auto simp: advances_def annotate_def logs_bounded_def map_get_def)

lemma advances_notified: "advances r (with_status ((ir_Status r)\<lparr>st_Notified := True\<rparr>) r)"
  by (simp add: advances_def logs_bounded_def)

lemma advances_active:
  assumes "report_phase r = ''Detecting''" "s = fst (MarkActive (ir_Status r) now reason) \<or>
    s = set_graph raw (fst (MarkActive (ir_Status r) now reason))"
  shows "advances r (with_status s r)"
  using assms MarkActive_timeline [of "ir_Status r" now reason]
  by (auto simp: advances_def phase_step_def logs_bounded_def set_graph_def)

lemma advances_resolved:
  "report_phase r \<in> {''Detecting'', ''Active''} \<Longrightarrow> advances r (with_status (fst (MarkResolved (ir_Status r) now reason)) r)"
  using MarkResolved_timeline [of "ir_Status r" now reason]
  by (auto simp: advances_def phase_step_def logs_bounded_def)

locale lifecycle_store = report_store "rv_client C" inv reports
  for C :: "'w rec_env" and inv :: "'w \<Rightarrow> bool" and reports :: "'w \<Rightarrow> incident_report list" +
  assumes notify_frame: "rv_notifier C = Some notify \<Longrightarrow> inv w \<Longrightarrow> notify r kind w = (e, w') \<Longrightarrow>
      inv w' \<and> reports w' = reports w"
begin

definition moves :: "'w \<Rightarrow> incident_report \<Rightarrow> 'w \<Rightarrow> incident_report \<Rightarrow> bool" where
  "moves w r w' r' \<longleftrightarrow> inv w' \<and> advances r r' \<and> set (reports w') = put_report r' (set (reports w))"

lemma put_same: "inv w \<Longrightarrow> r \<in> set (reports w) \<Longrightarrow> put_report r (set (reports w)) = set (reports w)"
  using inj_onD [OF keys_inj, of w] by (auto simp: put_report_def)

lemma moves_stay: "inv w \<Longrightarrow> r \<in> set (reports w) \<Longrightarrow> inv w' \<Longrightarrow> set (reports w') = set (reports w) \<Longrightarrow> moves w r w' r"
  by (simp add: moves_def put_same)

lemma moves_in: "moves w r w' r' \<Longrightarrow> inv w' \<and> r' \<in> set (reports w')"
  by (simp add: moves_def in_put)

lemma moves_trans: "moves w r w1 r1 \<Longrightarrow> moves w1 r1 w2 r2 \<Longrightarrow> moves w r w2 r2"
  unfolding moves_def using advances_trans by (auto simp: advances_def)

lemma observe_moves: "inv w \<Longrightarrow> inv (rec_observe C obs w) \<and> reports (rec_observe C obs w) = reports w"
  using observe_all [of w obs] by (simp add: rec_observe_def)

lemma event_moves: "inv w \<Longrightarrow> inv (rec_event C t re a m w) \<and> reports (rec_event C t re a m w) = reports w"
  using observe_moves by (simp add: rec_event_def)

lemma get_moves:
  assumes "inv w" "r \<in> set (reports w)" "k_get_report (rv_client C) w (report_ns r) (report_name r) = Inr x"
  shows "x = r"
  using get_stored [OF assms(1,3)] stored_lookup [OF assms(1,2)] by simp

lemma status_moves:
  assumes "inv w" "r \<in> set (reports w)" "advances r (with_status s r)"
    and "k_patch_status (rv_client C) w r (r\<lparr>ir_Status := s\<rparr>) = (res, w')"
  shows "moves w r w' (case res of Inl _ \<Rightarrow> r | Inr _ \<Rightarrow> with_status s r)"
    and "res = Inr x \<Longrightarrow> x = with_status s r"
  using status_put [OF assms(1,2,4)] assms(1-3) moves_stay [OF assms(1,2), of w']
  by (auto simp: moves_def split: sum.splits)

lemma annotate_moves:
  assumes "inv w" "r \<in> set (reports w)" "k_patch_report (rv_client C) w r (annotate k r) = (res, w')"
  shows "moves w r w' (case res of Inl _ \<Rightarrow> r | Inr _ \<Rightarrow> with_meta (annotate k r) r)"
    and "res = Inr x \<Longrightarrow> x = with_meta (annotate k r) r"
  using patch_put [OF assms base_agrees_refl] assms(1,2) moves_stay [OF assms(1,2), of w'] advances_annotate [of r k]
  by (auto simp: moves_def annotate_def split: sum.splits)

abbreviation world_of :: "'w rec_answer \<Rightarrow> 'w" where
  "world_of a \<equiv> snd (snd a)"

lemma graph_moves:
  assumes "inv w" "r \<in> set (reports w)" "ensureIncidentGraph C r w = (res, w')"
  shows "\<exists>r'. moves w r w' r' \<and> report_phase r' = report_phase r \<and> (res = Inr False \<longrightarrow> w' = w \<and> r' = r)"
proof (cases "w' = w \<and> res = Inr False")
  case True
  then show ?thesis using assms moves_stay by blast
next
  case False
  then obtain raw res1 where p: "k_patch_status (rv_client C) w r (r\<lparr>ir_Status := set_graph raw (ir_Status r)\<rparr>) = (res1, w')"
    and res: "res \<noteq> Inr False"
    using assms(3) by (auto simp: ensureIncidentGraph_def split: if_splits option.splits prod.splits sum.splits)
  note m = status_moves(1) [OF assms(1,2) advances_graph p]
  show ?thesis using m res by (cases res1) (auto simp: set_graph_def)
qed

lemma with_graph_moves:
  assumes "inv w" "r \<in> set (reports w)"
    and body: "\<And>w1 r1. inv w1 \<Longrightarrow> r1 \<in> set (reports w1) \<Longrightarrow> report_phase r1 = report_phase r \<Longrightarrow>
      \<exists>r2. moves w1 r1 (world_of (body r1 w1)) r2"
  shows "\<exists>r2. moves w r (world_of (with_graph C r body w)) r2"
proof -
  obtain res w1 where g: "ensureIncidentGraph C r w = (res, w1)" by force
  obtain r1 where r1: "moves w r w1 r1" "report_phase r1 = report_phase r" "res = Inr False \<longrightarrow> w1 = w \<and> r1 = r"
    using graph_moves [OF assms(1,2) g] by blast
  have key: "report_ns r1 = report_ns r" "report_name r1 = report_name r" using r1(1) by (simp_all add: moves_def advances_def)
  have in1: "inv w1" "r1 \<in> set (reports w1)" using moves_in [OF r1(1)] by simp_all
  from body [OF in1 r1(2)] obtain r2 where r2: "moves w1 r1 (world_of (body r1 w1)) r2" by blast
  consider (err) e where "res = Inl e" | (same) "res = Inr False" | (changed) "res = Inr True"
    by (metis sumE)
  then show ?thesis
  proof cases
    case err
    then show ?thesis using g r1(1) by (auto simp: with_graph_def)
  next
    case same
    then have "world_of (with_graph C r body w) = world_of (body r1 w1)" using g r1(3) by (simp add: with_graph_def)
    then show ?thesis using r2 same r1(3) by auto
  next
    case changed
    show ?thesis
    proof (cases "k_get_report (rv_client C) w1 (report_ns r1) (report_name r1)")
      case (Inl e)
      then have "world_of (with_graph C r body w) = w1" using g changed by (simp add: with_graph_def rereading_def key)
      then show ?thesis using r1(1) by auto
    next
      case (Inr x)
      then have "x = r1" by (rule get_moves [OF in1])
      then have "world_of (with_graph C r body w) = world_of (body r1 w1)"
        using g changed Inr by (simp add: with_graph_def rereading_def key)
      then show ?thesis using moves_trans [OF r1(1) r2] by auto
    qed
  qed
qed

lemma active_moves:
  assumes "inv w" "r \<in> set (reports w)" "report_phase r = ''Detecting''"
  shows "\<exists>r'. moves w r (world_of (transitionToActive C now r w)) r'
    \<and> (fst (snd (transitionToActive C now r w)) = None \<longrightarrow> report_phase r' = ''Active'')"
proof -
  let ?msg = "''Incident confirmed active after stabilisation period''"
  obtain s0 obs where m: "MarkActive (ir_Status r) now ?msg = (s0, obs)" by force
  define w1 where "w1 = rec_observe C obs w"
  define s where "s = (case buildIncidentGraph C (r\<lparr>ir_Status := s0\<rparr>) w1 of None \<Rightarrow> s0 | Some raw \<Rightarrow> set_graph raw s0)"
  have 1: "inv w1" "reports w1 = reports w" using observe_moves [OF assms(1)] by (simp_all add: w1_def)
  have s: "s = fst (MarkActive (ir_Status r) now ?msg) \<or> (\<exists>raw. s = set_graph raw (fst (MarkActive (ir_Status r) now ?msg)))"
    by (auto simp: s_def m split: option.splits)
  then have adv: "advances r (with_status s r)" using advances_active [OF assms(3)] by blast
  have ph: "st_Phase s = ''Active''" using s by (auto simp: set_graph_def)
  obtain res w2 where p: "k_patch_status (rv_client C) w1 r (r\<lparr>ir_Status := s\<rparr>) = (res, w2)" by force
  have mv: "moves w r w2 (case res of Inl _ \<Rightarrow> r | Inr _ \<Rightarrow> with_status s r)"
    using status_moves(1) [OF 1(1) _ adv p] assms(2) 1(2) by (simp add: moves_def)
  have w': "world_of (transitionToActive C now r w) = (case res of Inl _ \<Rightarrow> w2 | Inr x \<Rightarrow>
      rec_event C ''Warning'' ''IncidentActive'' ''Activate'' (''Incident confirmed active type='' @ st_IncidentType (ir_Status x) @
                 '' severity='' @ st_Severity (ir_Status x)) w2)"
    "fst (snd (transitionToActive C now r w)) = None \<longleftrightarrow> (\<exists>x. res = Inr x)"
    using p by (auto simp: transitionToActive_def m w1_def [symmetric] s_def [symmetric] Let_def split: sum.splits)
  have "inv w2" using mv by (simp add: moves_def)
  note ev = event_moves [OF this]
  show ?thesis
  proof (cases res)
    case (Inl e)
    then show ?thesis using mv w' by auto
  next
    case (Inr x)
    then have "moves w r (world_of (transitionToActive C now r w)) (with_status s r)"
      using mv w'(1) ev by (simp add: moves_def)
    then show ?thesis using ph by (intro exI [of _ "with_status s r"]) simp
  qed
qed

lemma resolved_moves:
  assumes "inv w" "r \<in> set (reports w)" "report_phase r \<in> {''Detecting'', ''Active''}"
  shows "\<exists>r'. moves w r (world_of (transitionToResolved C now r reason w)) r'
    \<and> (fst (snd (transitionToResolved C now r reason w)) = None \<longrightarrow> report_phase r' = ''Resolved'')"
proof -
  obtain s obs where m: "MarkResolved (ir_Status r) now reason = (s, obs)" by force
  define w1 where "w1 = rec_observe C obs w"
  have 1: "inv w1" "reports w1 = reports w" using observe_moves [OF assms(1)] by (simp_all add: w1_def)
  have adv: "advances r (with_status s r)" using advances_resolved [OF assms(3), of now reason] m by simp
  have ph: "st_Phase s = ''Resolved''" using MarkResolved_phase [of "ir_Status r" now reason] m by simp
  obtain res w2 where p: "k_patch_status (rv_client C) w1 r (r\<lparr>ir_Status := s\<rparr>) = (res, w2)" by force
  have mv: "moves w r w2 (case res of Inl _ \<Rightarrow> r | Inr _ \<Rightarrow> with_status s r)"
    using status_moves(1) [OF 1(1) _ adv p] assms(2) 1(2) by (simp add: moves_def)
  have w': "world_of (transitionToResolved C now r reason w) = (case res of Inl _ \<Rightarrow> w2 | Inr _ \<Rightarrow>
      rec_event C ''Normal'' ''IncidentResolved'' ''Resolve'' reason w2)"
    "fst (snd (transitionToResolved C now r reason w)) = None \<longleftrightarrow> (\<exists>x. res = Inr x)"
    using p by (auto simp: transitionToResolved_def m w1_def [symmetric] Let_def split: sum.splits)
  have "inv w2" using mv by (simp add: moves_def)
  note ev = event_moves [OF this]
  show ?thesis
  proof (cases res)
    case (Inl e)
    then show ?thesis using mv w' by auto
  next
    case (Inr x)
    then have "moves w r (world_of (transitionToResolved C now r reason w)) (with_status s r)"
      using mv w'(1) ev by (simp add: moves_def)
    then show ?thesis using ph by (intro exI [of _ "with_status s r"]) simp
  qed
qed

lemma detecting_moves:
  assumes "inv w" "r \<in> set (reports w)" "report_phase r = ''Detecting''"
  shows "\<exists>r'. moves w r (world_of (detecting_body C now r w)) r'"
  using active_moves [OF assms, of now] resolved_moves [OF assms(1,2), of now "''Incident cleared before activation''"]
    moves_stay [OF assms(1,2,1) refl] assms(3)
  by (auto simp: detecting_body_def Let_def split: option.splits sum.splits bool.splits)

lemma idle_moves:
  assumes "inv w" "r \<in> set (reports w)" "report_phase r = ''Active''"
  shows "\<exists>r'. moves w r (world_of (active_idle C now r w)) r'"
  using resolved_moves [OF assms(1,2), of now "''No confirming signals for 5 minutes and issue state cleared''"]
    moves_stay [OF assms(1,2,1) refl] assms(3)
  by (auto simp: active_idle_def Let_def split: sum.splits bool.splits)

lemma open_notify_moves:
  assumes "inv w" "r \<in> set (reports w)" "sendOpenNotifications C r w = (res, w')"
  shows "\<exists>r'. moves w r w' r' \<and> report_phase r' = report_phase r \<and> (\<forall>x. res = Inr x \<longrightarrow> x = r')"
proof (cases "rv_notifier C")
  case None
  then show ?thesis using assms moves_stay [OF assms(1,2,1) refl] by (auto simp: sendOpenNotifications_def)
next
  case (Some notify)
  obtain e w1 where n: "notify r ''trigger'' w = (e, w1)" by force
  have 1: "inv w1" "r \<in> set (reports w1)" "moves w r w1 r"
    using notify_frame [OF Some assms(1) n] assms moves_stay by auto
  obtain res2 w2 where p: "k_patch_report (rv_client C) w1 r (annotate notificationOpenSentKey r) = (res2, w2)" by force
  note m2 = annotate_moves [OF 1(1,2) p]
  let ?r2 = "with_meta (annotate notificationOpenSentKey r) r"
  show ?thesis
  proof (cases "e = None \<and> (\<exists>x. res2 = Inr x)")
    case False
    then have "w' = w1 \<or> w' = w2 \<and> (\<exists>e. res2 = Inl e)" "\<forall>x. res \<noteq> Inr x"
      using assms(3) Some n p by (auto simp: sendOpenNotifications_def split: option.splits sum.splits)
    then have "moves w r w' r" "\<forall>x. res \<noteq> Inr x" using 1(3) moves_trans [OF 1(3) m2(1)] by auto
    then show ?thesis by (intro exI [of _ r]) simp
  next
    case True
    then obtain x where x: "res2 = Inr x" by blast
    have m2': "moves w r w2 ?r2" "res2 = Inr ?r2" using moves_trans [OF 1(3) m2(1)] m2(2) [OF x] x by simp_all
    have in2: "inv w2" "?r2 \<in> set (reports w2)" using moves_in [OF m2'(1)] by simp_all
    show ?thesis
    proof (cases "k_get_report (rv_client C) w2 (report_ns ?r2) (report_name ?r2)")
      case (Inl err)
      then have "w' = w2" "\<forall>x. res \<noteq> Inr x"
        using assms(3) Some n p True m2'(2) by (auto simp: sendOpenNotifications_def)
      then show ?thesis using m2'(1) by auto
    next
      case (Inr x)
      then have x: "x = ?r2" by (rule get_moves [OF in2])
      obtain res3 w3 where q: "k_patch_status (rv_client C) w2 ?r2
          (?r2\<lparr>ir_Status := (ir_Status ?r2)\<lparr>st_Notified := True\<rparr>\<rparr>) = (res3, w3)" by force
      note m3 = status_moves [OF in2 advances_notified q]
      have "w' = w3" "res = (case res3 of Inl err \<Rightarrow> Inl (rec_fail ''mark incident notified'' ?r2 err) | Inr y \<Rightarrow> Inr y)"
        using assms(3) Some n p True m2'(2) Inr q x by (auto simp: sendOpenNotifications_def split: sum.splits)
      then show ?thesis using moves_trans [OF m2'(1) m3(1)] m3(2) by (cases res3) auto
    qed
  qed
qed

lemma active_body_moves:
  assumes "inv w" "r \<in> set (reports w)" "report_phase r = ''Active''"
  shows "\<exists>r'. moves w r (world_of (active_body C now r w)) r'"
proof (cases "st_Notified (ir_Status r)")
  case True
  then show ?thesis using idle_moves [OF assms] by (simp add: active_body_def)
next
  case False
  obtain res w1 where n: "sendOpenNotifications C r w = (res, w1)" by force
  obtain r1 where r1: "moves w r w1 r1" "report_phase r1 = ''Active''" "\<forall>x. res = Inr x \<longrightarrow> x = r1"
    using open_notify_moves [OF assms(1,2) n] assms(3) by auto
  show ?thesis
  proof (cases res)
    case (Inl e)
    then show ?thesis using False n r1(1) by (auto simp: active_body_def)
  next
    case (Inr x)
    obtain r2 where "moves w1 r1 (world_of (active_idle C now r1 w1)) r2"
      using idle_moves moves_in [OF r1(1)] r1(2) by blast
    from moves_trans [OF r1(1) this] show ?thesis using False n Inr r1(3) by (auto simp: active_body_def)
  qed
qed

lemma resolved_notify_moves:
  assumes "inv w" "r \<in> set (reports w)"
  shows "\<exists>r'. moves w r (snd (sendResolvedNotifications C r w)) r'"
proof (cases "rv_notifier C")
  case None
  then show ?thesis using moves_stay [OF assms assms(1) refl] by (auto simp: sendResolvedNotifications_def)
next
  case (Some notify)
  obtain e w1 where n: "notify r ''resolve'' w = (e, w1)" by force
  have 1: "inv w1" "r \<in> set (reports w1)" "moves w r w1 r"
    using notify_frame [OF Some assms(1) n] assms moves_stay by auto
  obtain res2 w2 where p: "k_patch_report (rv_client C) w1 r (annotate notificationResolvedSentKey r) = (res2, w2)" by force
  have "snd (sendResolvedNotifications C r w) \<in> {w, w1, w2}"
    using Some n p by (auto simp: sendResolvedNotifications_def split: option.splits sum.splits)
  then show ?thesis
    using moves_stay [OF assms assms(1) refl] 1(3) moves_trans [OF 1(3) annotate_moves(1) [OF 1(1,2) p]] by auto
qed

lemma resolved_body_moves:
  assumes "inv w" "r \<in> set (reports w)"
  shows "\<exists>r'. moves w r (world_of (resolved_body C r w)) r'"
proof -
  obtain res w1 where n: "recordResolvedMetric C r w = (res, w1)" by force
  have "\<exists>r1. moves w r w1 r1 \<and> (\<forall>x. res = Inr x \<longrightarrow> x = r1)"
  proof (cases "report_annotation r resolvedMetricRecordedKey = ''true''")
    case True
    then show ?thesis using n moves_stay [OF assms assms(1) refl] by (auto simp: recordResolvedMetric_def)
  next
    case False
    obtain res2 w2 where p: "k_patch_report (rv_client C) w r (annotate resolvedMetricRecordedKey r) = (res2, w2)" by force
    show ?thesis using annotate_moves [OF assms p] n False p
      by (cases res2) (auto simp: recordResolvedMetric_def)
  qed
  then obtain r1 where r1: "moves w r w1 r1" "\<forall>x. res = Inr x \<longrightarrow> x = r1" by blast
  note in1 = moves_in [OF r1(1)]
  obtain r2 where r2: "moves w1 r1 (snd (sendResolvedNotifications C r1 w1)) r2" using resolved_notify_moves in1 by blast
  have "world_of (resolved_body C r w) \<in> {w1, snd (sendResolvedNotifications C r1 w1)}"
    using n r1(2) get_moves [of w1 r1] in1
    by (auto simp: resolved_body_def rereading_def Let_def split: sum.splits prod.splits)
  then show ?thesis using r1(1) moves_trans [OF r1(1) r2] by auto
qed

lemma reconcile_moves:
  assumes "inv w" "k_get_report (rv_client C) w (fst req) (snd req) = Inr r"
  shows "r \<in> set (reports w)" "report_key r = req" "\<exists>r'. moves w r (world_of (Reconcile C now req w)) r'"
proof -
  have "lookup_report (reports w) req = Some r" using get_stored [OF assms] by simp
  then show r: "r \<in> set (reports w)" "report_key r = req" using lookup_reportD by blast+
  note stay = moves_stay [OF assms(1) r(1) assms(1) refl]
  show "\<exists>r'. moves w r (world_of (Reconcile C now req w)) r'"
    using with_graph_moves [OF assms(1) r(1), of "detecting_body C now"] detecting_moves
      with_graph_moves [OF assms(1) r(1), of "active_body C now"] active_body_moves
      with_graph_moves [OF assms(1) r(1), of "resolved_body C"] resolved_body_moves stay assms(2)
    by (auto simp: Reconcile_def reconcileDetecting_def reconcileActive_def reconcileResolved_def)
qed

end

section \<open>The in-memory store as environment\<close>

definition mem_rec :: "mem_world rec_env" where
  "mem_rec = \<lparr>rv_client = mem_client, rv_parse = atoi, rv_recorder = True,
     rv_notifier = Some (\<lambda>r kind w. (None, w)), rv_graph = None\<rparr>"

interpretation mem_life: lifecycle_store mem_rec mem_inv mw_reports
  by (simp add: lifecycle_store_def lifecycle_store_axioms_def mem_rec_def mem.report_store_axioms)

lemma mem_lifecycle: "lifecycle_store mem_rec mem_inv mw_reports"
  by (rule mem_life.lifecycle_store_axioms)

lemma mem_one_get:
  obtains r where "k_get_report (rv_client mem_rec) (rp_world mem_one) (report_ns r) (report_name r) = Inr r"
    "mw_reports (rp_world mem_one) = [r]" "report_phase r = ''Detecting''" "EffectiveStartTime (ir_Status r) = Some 5000000000"
    "stabilizationWindow r = 300000000000" "sp_Scope (ir_Spec r) = in_Scope sample_input"
proof -
  obtain r where r: "mw_reports (rp_world mem_one) = [r]" "report_phase r = ''Detecting''"
    "EffectiveStartTime (ir_Status r) = Some 5000000000" "st_StabilizationWindowSeconds (ir_Status r) = 300"
    "sp_Scope (ir_Spec r) = in_Scope sample_input" by (rule mem_one_status)
  then show thesis
    by (intro that [of r])
      (simp_all add: mem_rec_def mem_client_sel or_not_found_def lookup_report_def stabilizationWindow_def second_def
        in_int64_def max_int64_def min_int64_def)
qed

section \<open>Properties\<close>

text \<open>C6.
  Reconciling a report touches no other report and moves this one only along Detecting, Active,
  Resolved; it never reopens it, never changes its identity, severity, signals or affected
  resources, keeps its logs within their limits and never withdraws the notification mark. A report
  that cannot be read leaves the store alone. This holds whatever the API server, the notifier
  and the graph builder answer.
\<close>

theorem Reconcile_advances:
  assumes "lifecycle_store C ok reports" "ok w"
  shows "case k_get_report (rv_client C) w (fst req) (snd req) of
      Inl e \<Rightarrow> snd (snd (Reconcile C now req w)) = w
    | Inr r \<Rightarrow> r \<in> set (reports w) \<and> report_key r = req \<and>
        (\<exists>r'. advances r r' \<and> set (reports (snd (snd (Reconcile C now req w)))) = put_report r' (set (reports w)))"
proof (cases "k_get_report (rv_client C) w (fst req) (snd req)")
  case (Inl e)
  then show ?thesis by (simp add: Reconcile_def)
next
  case (Inr r)
  from lifecycle_store.reconcile_moves(1,2) [OF assms Inr] lifecycle_store.reconcile_moves(3) [OF assms Inr, of now] Inr
  show ?thesis by (auto simp: lifecycle_store.moves_def [OF assms(1)])
qed

theorem Reconcile_advances_witness:
  "\<exists>r r'. mw_reports (rp_world mem_one) = [r] \<and> advances r r' \<and>
     set (mw_reports (snd (snd (Reconcile mem_rec 400000000000 (report_key r) (rp_world mem_one))))) = {r'}"
proof -
  obtain r where r: "k_get_report (rv_client mem_rec) (rp_world mem_one) (report_ns r) (report_name r) = Inr r"
    "mw_reports (rp_world mem_one) = [r]" by (rule mem_one_get)
  from Reconcile_advances [OF mem_lifecycle mem_one_ok(1), where req = "report_key r" and now = 400000000000] r
  show ?thesis by (auto simp: put_report_def advances_def)
qed

text \<open>The graph that the prologue writes: the one that is built for a report without a graph.\<close>

definition graph_due :: "'w rec_env \<Rightarrow> incident_report \<Rightarrow> 'w \<Rightarrow> string option" where
  "graph_due C r w = (if (case st_IncidentGraph (ir_Status r) of None \<Rightarrow> False | Some raw \<Rightarrow> raw \<noteq> []) then None
     else buildIncidentGraph C r w)"

lemma ensureIncidentGraph_due:
  "ensureIncidentGraph C r w = (case graph_due C r w of None \<Rightarrow> (Inr False, w)
   | Some raw \<Rightarrow> (case k_patch_status (rv_client C) w r (r\<lparr>ir_Status := set_graph raw (ir_Status r)\<rparr>) of
       (Inl err, w) \<Rightarrow> (Inl (rec_fail ''failed to patch IncidentReport topology graph'' r err), w)
     | (Inr _, w) \<Rightarrow> (Inr True, w)))"
  by (simp add: ensureIncidentGraph_def graph_due_def)

text \<open>A report that waits: the window it is in and the time the window is counted from.\<close>

definition waits :: "'w rec_env \<Rightarrow> gotime \<Rightarrow> incident_report \<Rightarrow> gotime \<Rightarrow> duration \<Rightarrow> bool" where
  "waits C now r t window \<longleftrightarrow>
     report_phase r = ''Detecting'' \<and> EffectiveStartTime (ir_Status r) = Some t \<and> window = stabilizationWindow r \<or>
     report_phase r = ''Active'' \<and> st_Notified (ir_Status r) \<and> t = idle_since C now r \<and> window = healthyResolveWindow"

lemma set_graph_frame [simp]:
  "st_Phase (set_graph raw s) = st_Phase s" "st_Notified (set_graph raw s) = st_Notified s"
  "st_LastObservedAt (set_graph raw s) = st_LastObservedAt s" "EffectiveStartTime (set_graph raw s) = EffectiveStartTime s"
  "st_StabilizationWindowSeconds (set_graph raw s) = st_StabilizationWindowSeconds s"
  "st_AffectedResources (set_graph raw s) = st_AffectedResources s"
  by (simp_all add: set_graph_def EffectiveStartTime_def split: option.split)

lemma waits_graph: "waits C now (r\<lparr>ir_Status := set_graph raw (ir_Status r)\<rparr>) t window = waits C now r t window"
proof -
  let ?g = "r\<lparr>ir_Status := set_graph raw (ir_Status r)\<rparr>"
  have "idle_since C now ?g = idle_since C now r" by (simp add: idle_since_def Let_def split: option.split)
  moreover have "stabilizationWindow ?g = stabilizationWindow r" by (simp add: stabilizationWindow_def)
  ultimately show ?thesis by (simp add: waits_def)
qed

lemma stored_graph: "stored_status s = s \<Longrightarrow> stored_status (set_graph raw s) = set_graph raw s"
  by (cases s) (simp add: stored_status_def set_graph_def)

lemma waiting_bodies:
  assumes "waits C now r t window" "0 \<le> now - t" "now - t < window"
  shows "report_phase r = ''Detecting'' \<Longrightarrow> detecting_body C now r w = (window - (now - t), None, w)"
    and "report_phase r = ''Active'' \<Longrightarrow> active_body C now r w = (window - (now - t), None, w)"
proof -
  have "in_int64 window" using assms(1)
    by (auto simp: waits_def stabilizationWindow_def healthyResolveWindow_def second_def in_int64_def max_int64_def min_int64_def
        wrap64_def)
  then have sub: "time_sub now t = now - t" and wr: "wrap64 (window - (now - t)) = window - (now - t)"
    using assms(2,3) by (auto intro!: time_sub_exact wrap64_id simp: in_int64_def min_int64_def)
  show "detecting_body C now r w = (window - (now - t), None, w)" if "report_phase r = ''Detecting''"
    using assms(1,3) sub wr that by (simp add: waits_def detecting_body_def Let_def)
  show "active_body C now r w = (window - (now - t), None, w)" if "report_phase r = ''Active''"
    using assms(1,3) sub wr that by (auto simp: waits_def active_body_def active_idle_def Let_def)
qed

context lifecycle_store
begin

lemma waits_effect:
  assumes "inv w" "k_get_report (rv_client C) w (fst req) (snd req) = Inr r"
    and "stored_status (ir_Status r) = ir_Status r" "waits C now r t window" "0 \<le> now - t" "now - t < window"
  shows "case graph_due C r w of
      None \<Rightarrow> Reconcile C now req w = (window - (now - t), None, w)
    | Some raw \<Rightarrow>
        (case k_patch_status (rv_client C) w r (r\<lparr>ir_Status := set_graph raw (ir_Status r)\<rparr>) of
           (Inl err, w') \<Rightarrow> set (reports w') = set (reports w) \<and>
             Reconcile C now req w = (0, Some (rec_fail ''failed to patch IncidentReport topology graph'' r err), w')
         | (Inr _, w') \<Rightarrow>
             set (reports w') = put_report (r\<lparr>ir_Status := set_graph raw (ir_Status r)\<rparr>) (set (reports w)) \<and>
             Reconcile C now req w = (case k_get_report (rv_client C) w' (fst req) (snd req) of
                 Inl err \<Rightarrow> (0, ignore_missing err, w')
               | Inr _ \<Rightarrow> (window - (now - t), None, w')))"
proof -
  note r = reconcile_moves(1,2) [OF assms(1,2)]
  let ?g = "\<lambda>raw. r\<lparr>ir_Status := set_graph raw (ir_Status r)\<rparr>"
  define body where "body = (if report_phase r = ''Detecting'' then detecting_body C now else active_body C now)"
  have ph: "report_phase r = ''Detecting'' \<or> report_phase r = ''Active''" using assms(4) by (auto simp: waits_def)
  then have run: "Reconcile C now req w = with_graph C r body w"
    using assms(2) by (auto simp: body_def Reconcile_def reconcileDetecting_def reconcileActive_def)
  have stop: "body r w' = (window - (now - t), None, w')" "body (?g raw) w' = (window - (now - t), None, w')" for w' raw
    using waiting_bodies [OF assms(4-6), of w'] waiting_bodies [OF _ assms(5,6), of C "?g raw" w'] ph assms(4)
    by (auto simp: body_def waits_graph)
  show ?thesis
  proof (cases "graph_due C r w")
    case None
    then show ?thesis by (simp add: run with_graph_def ensureIncidentGraph_due stop)
  next
    case (Some raw)
    obtain res w' where p: "k_patch_status (rv_client C) w r (?g raw) = (res, w')" by force
    note put = status_put [OF assms(1) r(1) p]
    show ?thesis
    proof (cases res)
      case (Inl err)
      then show ?thesis using put(2) by (simp add: Some p run with_graph_def ensureIncidentGraph_due)
    next
      case (Inr x)
      have S: "set (reports w') = put_report (?g raw) (set (reports w))"
        using put(3) [OF Inr] stored_graph [OF assms(3)] by (simp add: with_status_def)
      have "?g raw \<in> set (reports w')" unfolding S by (simp add: in_put)
      then have get: "k_get_report (rv_client C) w' (fst req) (snd req) = Inr y \<Longrightarrow> y = ?g raw" for y
        using get_moves [OF put(1), of "?g raw" y] r(2) by auto
      show ?thesis using r(2) S get
        by (auto simp: Some p Inr run with_graph_def ensureIncidentGraph_due rereading_def stop split: sum.split)
    qed
  qed
qed

end

text \<open>C7.
  A report waits out its windows: a detecting one until its stabilization window has passed since
  it was first observed, an announced active one until five minutes after its last signal. While the
  time is within the window, with a graph builder and a notifier of any kind, a reconciliation writes
  nothing but a graph that is missing, leaves the phase alone, and is requeued exactly for the end of
  the window. It fails, without a time, only when that graph cannot be written or the report not be
  read again. The times of the report are as the API server stores them, in whole seconds.
\<close>

theorem Reconcile_waits:
  assumes "lifecycle_store C ok reports" "ok w" "k_get_report (rv_client C) w (fst req) (snd req) = Inr r"
    and "stored_status (ir_Status r) = ir_Status r" "waits C now r t window" "0 \<le> now - t" "now - t < window"
  shows "case graph_due C r w of
      None \<Rightarrow> Reconcile C now req w = (window - (now - t), None, w)
    | Some raw \<Rightarrow>
        (case k_patch_status (rv_client C) w r (r\<lparr>ir_Status := set_graph raw (ir_Status r)\<rparr>) of
           (Inl err, w') \<Rightarrow> set (reports w') = set (reports w) \<and>
             Reconcile C now req w = (0, Some (rec_fail ''failed to patch IncidentReport topology graph'' r err), w')
         | (Inr _, w') \<Rightarrow>
             set (reports w') = put_report (r\<lparr>ir_Status := set_graph raw (ir_Status r)\<rparr>) (set (reports w)) \<and>
             Reconcile C now req w = (case k_get_report (rv_client C) w' (fst req) (snd req) of
                 Inl err \<Rightarrow> (0, ignore_missing err, w')
               | Inr _ \<Rightarrow> (window - (now - t), None, w')))"
  by (rule lifecycle_store.waits_effect [OF assms])

text \<open>The in-memory controller with a graph builder, as the deployed one has.\<close>

definition mem_graph_rec :: "mem_world rec_env" where
  "mem_graph_rec = mem_rec\<lparr>rv_graph := Some (\<lambda>r w. BuiltGraph 1 (Some ''{}''))\<rparr>"

lemma mem_graph_fields [simp]:
  "rv_client mem_graph_rec = mem_client" "rv_client mem_rec = mem_client"
  by (simp_all add: mem_graph_rec_def mem_rec_def)

interpretation mem_graph: lifecycle_store mem_graph_rec mem_inv mw_reports
  by (simp add: lifecycle_store_def lifecycle_store_axioms_def mem.report_store_axioms) (simp add: mem_graph_rec_def mem_rec_def)

lemma mem_one_stored:
  obtains r where "k_get_report mem_client (rp_world mem_one) (report_ns r) (report_name r) = Inr r"
    "mw_reports (rp_world mem_one) = [r]" "stored_status (ir_Status r) = ir_Status r"
    "waits mem_graph_rec now r 5000000000 300000000000" "graph_due mem_graph_rec r w = Some ''{}''"
proof -
  obtain r where r: "k_get_report (rv_client mem_rec) (rp_world mem_one) (report_ns r) (report_name r) = Inr r"
    "mw_reports (rp_world mem_one) = [r]" "report_phase r = ''Detecting''" "EffectiveStartTime (ir_Status r) = Some 5000000000"
    "stabilizationWindow r = 300000000000" by (rule mem_one_get)
  obtain name where "mw_reports (rp_world mem_one) = [created_report mem_env sample_input (Fingerprint sample_input) name 0]"
    by (rule mem_one_created)
  with r(2) have "ir_Status r = stored_status (new_status sample_input)" by (auto simp: created_report_def Let_def)
  then have "stored_status (ir_Status r) = ir_Status r" "st_IncidentGraph (ir_Status r) = None"
    by (simp_all add: stored_status_def stored_time_def stored_time_ptr_def new_status_def AppendTimeline_def MaxTimelineEntries_def
        sample_input_def)
  with r show thesis
    by (intro that [of r]) (simp_all add: waits_def graph_due_def buildIncidentGraph_def mem_graph_rec_def)
qed

theorem Reconcile_waits_witness:
  "\<exists>r. mw_reports (rp_world mem_one) = [r] \<and>
     fst (Reconcile mem_graph_rec 65000000000 (report_key r) (rp_world mem_one)) = 240000000000 \<and>
     set (mw_reports (snd (snd (Reconcile mem_graph_rec 65000000000 (report_key r) (rp_world mem_one))))) =
       {r\<lparr>ir_Status := set_graph ''{}'' (ir_Status r)\<rparr>}"
proof -
  obtain r where r: "k_get_report mem_client (rp_world mem_one) (report_ns r) (report_name r) = Inr r"
    "mw_reports (rp_world mem_one) = [r]" "stored_status (ir_Status r) = ir_Status r"
    "waits mem_graph_rec 65000000000 r 5000000000 300000000000" "graph_due mem_graph_rec r (rp_world mem_one) = Some ''{}''"
    by (rule mem_one_stored)
  let ?g = "r\<lparr>ir_Status := set_graph ''{}'' (ir_Status r)\<rparr>"
  have "k_patch_status mem_client (rp_world mem_one) r ?g = (Inr ?g, (rp_world mem_one)\<lparr>mw_reports := [?g]\<rparr>)"
    using r(2) stored_graph [OF r(3)]
    by (simp add: mem_client_sel lookup_report_def mem_put_def replace_report_def)
  with Reconcile_waits [OF mem_graph.lifecycle_store_axioms mem_one_ok(1), of "report_key r" r 65000000000 5000000000 300000000000] r
  show ?thesis by (auto simp: mem_client_sel lookup_report_def or_not_found_def)
qed

section \<open>Progress\<close>

definition window_passed :: "'w rec_env \<Rightarrow> gotime \<Rightarrow> incident_report \<Rightarrow> bool" where
  "window_passed C now r \<longleftrightarrow>
     (if report_phase r = ''Detecting''
      then (case EffectiveStartTime (ir_Status r) of None \<Rightarrow> True | Some t \<Rightarrow> stabilizationWindow r \<le> time_sub now t)
      else report_phase r = ''Active'' \<and> healthyResolveWindow \<le> time_sub now (idle_since C now r))"

text \<open>The phase a due report is moved to: a fault that is still visible keeps it open.\<close>

definition due_phase :: "'w rec_env \<Rightarrow> gotime \<Rightarrow> 'w \<Rightarrow> incident_report \<Rightarrow> string" where
  "due_phase C now w r =
     (if incidentStillPresent C w r = Inr True
         \<or> report_phase r = ''Detecting'' \<and> (EffectiveStartTime (ir_Status r) = None \<or> recently_seen C now (stabilizationWindow r) r)
      then ''Active'' else ''Resolved'')"

text \<open>Every request about the report with that key succeeds, and so does the notifier.\<close>

definition requests_succeed :: "'w rec_env \<Rightarrow> ('w \<Rightarrow> bool) \<Rightarrow> ('w \<Rightarrow> incident_report list) \<Rightarrow> string \<times> string \<Rightarrow> bool" where
  "requests_succeed C ok reports key \<longleftrightarrow> (\<forall>w r. ok w \<longrightarrow> r \<in> set (reports w) \<longrightarrow> report_key r = key \<longrightarrow>
     (\<exists>x. k_get_report (rv_client C) w (report_ns r) (report_name r) = Inr x) \<and>
     (\<forall>m. \<exists>x w'. k_patch_status (rv_client C) w r m = (Inr x, w')) \<and>
     (\<forall>m. report_key m = key \<longrightarrow> (\<exists>x w'. k_patch_report (rv_client C) w r m = (Inr x, w'))) \<and>
     (\<forall>notify. rv_notifier C = Some notify \<longrightarrow> fst (notify r ''trigger'' w) = None))"

text \<open>Writing reports and sending notifications do not change what the checks of the cluster see.\<close>

locale steady_cluster = lifecycle_store C inv reports
  for C :: "'w rec_env" and inv :: "'w \<Rightarrow> bool" and reports :: "'w \<Rightarrow> incident_report list" +
  assumes present_status: "k_patch_status (rv_client C) w b m = (res, w') \<Longrightarrow> incidentStillPresent C w' x = incidentStillPresent C w x"
    and present_patch: "k_patch_report (rv_client C) w b m = (res, w') \<Longrightarrow> incidentStillPresent C w' x = incidentStillPresent C w x"
    and present_notify: "rv_notifier C = Some notify \<Longrightarrow> notify r kind w = (e, w') \<Longrightarrow>
      incidentStillPresent C w' x = incidentStillPresent C w x"

text \<open>A report as one of the writes before the decision leaves it: what the decision depends on is the
  same, and the status is one that the API server stores.\<close>

definition same_case :: "incident_report \<Rightarrow> incident_report \<Rightarrow> bool" where
  "same_case r r' \<longleftrightarrow> report_phase r' = report_phase r \<and> ir_Spec r' = ir_Spec r
     \<and> st_AffectedResources (ir_Status r') = st_AffectedResources (ir_Status r)
     \<and> st_StabilizationWindowSeconds (ir_Status r') = st_StabilizationWindowSeconds (ir_Status r)
     \<and> report_annotation r' AnnotationLastSeen = report_annotation r AnnotationLastSeen
     \<and> EffectiveStartTime (ir_Status r') = EffectiveStartTime (ir_Status r)
     \<and> st_LastObservedAt (ir_Status r') = st_LastObservedAt (ir_Status r)
     \<and> stored_status (ir_Status r') = ir_Status r'"

lemma same_case_refl: "stored_status (ir_Status r) = ir_Status r \<Longrightarrow> same_case r r"
  by (simp add: same_case_def)

lemma same_case_graph:
  "stored_status (ir_Status r) = ir_Status r \<Longrightarrow> same_case r (with_status (set_graph raw (ir_Status r)) r)"
  by (simp add: same_case_def stored_graph)

lemma same_case_notified:
  assumes "stored_status (ir_Status r) = ir_Status r" "k \<noteq> AnnotationLastSeen"
  shows "same_case r (with_status ((ir_Status r)\<lparr>st_Notified := True\<rparr>) (with_meta (annotate k r) r))"
proof -
  have "stored_status (s\<lparr>st_Notified := True\<rparr>) = s\<lparr>st_Notified := True\<rparr>" if "stored_status s = s" for s
    using that by (cases s) (simp add: stored_status_def)
  moreover have "EffectiveStartTime (s\<lparr>st_Notified := True\<rparr>) = EffectiveStartTime s" for s
    by (simp add: EffectiveStartTime_def split: option.split)
  ultimately show ?thesis using assms by (simp add: same_case_def annotate_def)
qed

lemma same_case_decision:
  assumes "same_case r r'"
  shows "window_passed C now r' = window_passed C now r" "incidentStillPresent C w r' = incidentStillPresent C w r"
    and "incidentStillPresent C w' r' = incidentStillPresent C w r \<Longrightarrow> due_phase C now w' r' = due_phase C now w r"
proof -
  have same: "report_phase r' = report_phase r" "ir_Spec r' = ir_Spec r"
    "st_AffectedResources (ir_Status r') = st_AffectedResources (ir_Status r)"
    "st_StabilizationWindowSeconds (ir_Status r') = st_StabilizationWindowSeconds (ir_Status r)"
    "report_annotation r' AnnotationLastSeen = report_annotation r AnnotationLastSeen"
    "EffectiveStartTime (ir_Status r') = EffectiveStartTime (ir_Status r)"
    "st_LastObservedAt (ir_Status r') = st_LastObservedAt (ir_Status r)" using assms by (simp_all add: same_case_def)
  have window: "stabilizationWindow r' = stabilizationWindow r" unfolding stabilizationWindow_def same by (rule refl)
  have idle: "idle_since C now r' = idle_since C now r" unfolding idle_since_def same by (rule refl)
  show "window_passed C now r' = window_passed C now r" unfolding window_passed_def same window idle by (rule refl)
  show "incidentStillPresent C w r' = incidentStillPresent C w r" unfolding incidentStillPresent_def same by (rule refl)
  show "due_phase C now w' r' = due_phase C now w r" if "incidentStillPresent C w' r' = incidentStillPresent C w r"
    unfolding due_phase_def recently_seen_def that same window by (rule refl)
qed

context steady_cluster
begin

lemma transitions_succeed:
  assumes "inv w" "r \<in> set (reports w)" "requests_succeed C inv reports (report_key r)"
  shows "fst (snd (transitionToActive C now r w)) = None" "fst (snd (transitionToResolved C now r reason w)) = None"
proof -
  have "\<exists>x w'. k_patch_status (rv_client C) (rec_observe C obs w) r m = (Inr x, w')" for obs m
    using observe_moves [OF assms(1)] assms(2,3) unfolding requests_succeed_def by metis
  then show "fst (snd (transitionToActive C now r w)) = None" "fst (snd (transitionToResolved C now r reason w)) = None"
    by (auto simp: transitionToActive_def transitionToResolved_def Let_def split: prod.splits sum.splits) (metis Inl_Inr_False Pair_inject)+
qed

lemma due_detecting:
  assumes "inv w" "r \<in> set (reports w)" "requests_succeed C inv reports (report_key r)" "report_phase r = ''Detecting''"
    and "window_passed C now r" "incidentStillPresent C w r = Inr b"
  shows "fst (snd (detecting_body C now r w)) = None \<and>
    (\<exists>r'. moves w r (world_of (detecting_body C now r w)) r' \<and> report_phase r' = due_phase C now w r)"
proof -
  note ok = transitions_succeed [OF assms(1-3)]
  have res: "report_phase r \<in> {''Detecting'', ''Active''}" using assms(4) by simp
  show ?thesis
    using active_moves [OF assms(1,2,4), of now] resolved_moves [OF assms(1,2) res] ok assms(4-6)
    by (cases b) (auto simp: detecting_body_def window_passed_def due_phase_def Let_def split: option.splits)
qed

lemma due_idle:
  assumes "inv w" "r \<in> set (reports w)" "requests_succeed C inv reports (report_key r)" "report_phase r = ''Active''"
    and "window_passed C now r" "incidentStillPresent C w r = Inr b"
  shows "fst (snd (active_idle C now r w)) = None \<and>
    (\<exists>r'. moves w r (world_of (active_idle C now r w)) r' \<and> report_phase r' = due_phase C now w r)"
proof -
  note ok = transitions_succeed(2) [OF assms(1-3)]
  have res: "report_phase r \<in> {''Detecting'', ''Active''}" using assms(4) by simp
  show ?thesis
    using resolved_moves [OF assms(1,2) res] ok assms(4-6) moves_stay [OF assms(1,2,1) refl]
    by (cases b) (auto simp: active_idle_def window_passed_def due_phase_def Let_def)
qed

text \<open>What the graph prologue and the announcement leave, when nothing fails.\<close>

definition prepared :: "'w \<Rightarrow> incident_report \<Rightarrow> 'w \<Rightarrow> incident_report \<Rightarrow> bool" where
  "prepared w r w' r' \<longleftrightarrow> moves w r w' r' \<and> same_case r r' \<and> incidentStillPresent C w' r' = incidentStillPresent C w r"

lemma prepared_refl: "inv w \<Longrightarrow> r \<in> set (reports w) \<Longrightarrow> stored_status (ir_Status r) = ir_Status r \<Longrightarrow> prepared w r w r"
  by (simp add: prepared_def moves_stay same_case_refl)

lemma prepared_facts:
  assumes "prepared w r w' r'"
  shows "inv w'" "r' \<in> set (reports w')" "report_key r' = report_key r" "report_phase r' = report_phase r"
    and "stored_status (ir_Status r') = ir_Status r'" "window_passed C now r' = window_passed C now r" "due_phase C now w' r' = due_phase C now w r"
  using assms moves_in [of w r w' r'] same_case_decision [of r r' C]
  by (auto simp: prepared_def moves_def advances_def) (simp_all add: same_case_def)

lemma graph_prepared:
  assumes "inv w" "r \<in> set (reports w)" "requests_succeed C inv reports (report_key r)"
    and "stored_status (ir_Status r) = ir_Status r"
  obtains w1 r1 where "prepared w r w1 r1" "\<forall>body. with_graph C r body w = body r1 w1"
proof (cases "graph_due C r w")
  case None
  then show ?thesis
    using prepared_refl [OF assms(1,2,4)] by (intro that [of w r]) (simp_all add: with_graph_def ensureIncidentGraph_due)
next
  case (Some raw)
  let ?s = "set_graph raw (ir_Status r)"
  let ?r1 = "with_status ?s r"
  obtain x w1 where p: "k_patch_status (rv_client C) w r (r\<lparr>ir_Status := ?s\<rparr>) = (Inr x, w1)"
    using assms(1-3) unfolding requests_succeed_def by metis
  have m: "moves w r w1 ?r1" using status_moves(1) [OF assms(1,2) advances_graph p] by simp
  have same: "same_case r ?r1" by (rule same_case_graph [OF assms(4)])
  have "prepared w r w1 ?r1"
    using m same present_status [OF p] same_case_decision(2) [OF same] by (simp add: prepared_def)
  moreover obtain y where y: "k_get_report (rv_client C) w1 (report_ns ?r1) (report_name ?r1) = Inr y"
    using prepared_facts(1-3) [OF calculation] assms(3) unfolding requests_succeed_def by metis
  moreover have "y = ?r1" using get_moves [OF prepared_facts(1,2) [OF calculation(1)] y] .
  ultimately show ?thesis using p Some
    by (intro that [of w1 ?r1]) (simp_all add: with_graph_def ensureIncidentGraph_due rereading_def)
qed

lemma announce_prepared:
  assumes "inv w" "r \<in> set (reports w)" "requests_succeed C inv reports (report_key r)"
    and "stored_status (ir_Status r) = ir_Status r"
  obtains w1 r1 where "prepared w r w1 r1" "sendOpenNotifications C r w = (Inr r1, w1)"
proof (cases "rv_notifier C")
  case None
  then show ?thesis using prepared_refl [OF assms(1,2,4)] that by (simp add: sendOpenNotifications_def)
next
  case (Some notify)
  obtain w1 where n: "notify r ''trigger'' w = (None, w1)"
    using assms(1-3) Some unfolding requests_succeed_def by (metis prod.collapse)
  have 1: "inv w1" "r \<in> set (reports w1)" "reports w1 = reports w" using notify_frame [OF Some assms(1) n] assms(2) by simp_all
  let ?m = "annotate notificationOpenSentKey r"
  let ?r2 = "with_meta ?m r"
  have key: "report_key ?m = report_key r" by (simp add: annotate_def)
  obtain x w2 where p: "k_patch_report (rv_client C) w1 r ?m = (Inr x, w2)"
    using assms(3) 1 key unfolding requests_succeed_def by metis
  have m2: "moves w1 r w2 ?r2" "x = ?r2" using annotate_moves [OF 1(1,2) p] by simp_all
  have in2: "inv w2" "?r2 \<in> set (reports w2)" "report_key ?r2 = report_key r" using moves_in [OF m2(1)] key by simp_all
  obtain y where get: "k_get_report (rv_client C) w2 (report_ns ?r2) (report_name ?r2) = Inr y"
    using assms(3) in2 unfolding requests_succeed_def by metis
  have y: "y = ?r2" using get_moves [OF in2(1,2) get] .
  let ?s = "(ir_Status ?r2)\<lparr>st_Notified := True\<rparr>"
  let ?r3 = "with_status ?s ?r2"
  obtain z w3 where q: "k_patch_status (rv_client C) w2 ?r2 (?r2\<lparr>ir_Status := ?s\<rparr>) = (Inr z, w3)"
    using assms(3) in2 unfolding requests_succeed_def by metis
  have m3: "moves w2 ?r2 w3 ?r3" "z = ?r3" using status_moves [OF in2(1,2) advances_notified q] by simp_all
  have same: "same_case r ?r3" using same_case_notified [OF assms(4), of notificationOpenSentKey] by simp
  have "moves w r w3 ?r3"
    using moves_trans [OF moves_trans [OF moves_stay [OF assms(1,2) 1(1)] m2(1)] m3(1)] 1(3) by simp
  then have "prepared w r w3 ?r3"
    using same same_case_decision(2) [OF same] present_notify [OF Some n] present_patch [OF p] present_status [OF q]
    by (simp add: prepared_def)
  moreover have "sendOpenNotifications C r w = (Inr ?r3, w3)"
    using Some n p q get y m2(2) m3(2) by (simp add: sendOpenNotifications_def)
  ultimately show ?thesis by (rule that)
qed

lemma due_active:
  assumes "inv w" "r \<in> set (reports w)" "requests_succeed C inv reports (report_key r)" "report_phase r = ''Active''"
    and "window_passed C now r" "incidentStillPresent C w r = Inr b" "stored_status (ir_Status r) = ir_Status r"
  shows "fst (snd (active_body C now r w)) = None \<and>
    (\<exists>r'. moves w r (world_of (active_body C now r w)) r' \<and> report_phase r' = due_phase C now w r)"
proof (cases "st_Notified (ir_Status r)")
  case True
  then show ?thesis using due_idle [OF assms(1-6)] by (simp add: active_body_def)
next
  case False
  obtain w1 r1 where n: "prepared w r w1 r1" "sendOpenNotifications C r w = (Inr r1, w1)"
    by (rule announce_prepared [OF assms(1-3,7)])
  note f = prepared_facts [OF n(1)]
  have "incidentStillPresent C w1 r1 = Inr b" using n(1) assms(6) by (simp add: prepared_def)
  with due_idle [OF f(1,2), of now b] f assms(3-5) obtain r' where
    "fst (snd (active_idle C now r1 w1)) = None" "moves w1 r1 (world_of (active_idle C now r1 w1)) r'"
    "report_phase r' = due_phase C now w r" by auto
  moreover have "active_body C now r w = active_idle C now r1 w1" using False n(2) by (simp add: active_body_def)
  ultimately show ?thesis using moves_trans [of w r w1 r1] n(1) by (auto simp: prepared_def)
qed

lemma progress_effect:
  assumes "inv w" "k_get_report (rv_client C) w (fst req) (snd req) = Inr r" "requests_succeed C inv reports req"
    and "window_passed C now r" "incidentStillPresent C w r = Inr b" "stored_status (ir_Status r) = ir_Status r"
  shows "fst (snd (Reconcile C now req w)) = None \<and>
    (\<exists>r'. moves w r (world_of (Reconcile C now req w)) r' \<and> report_phase r' = due_phase C now w r)"
proof -
  note r = reconcile_moves(1,2) [OF assms(1,2)]
  have req: "requests_succeed C inv reports (report_key r)" using assms(3) r(2) by simp
  obtain w1 r1 where g: "prepared w r w1 r1" "\<forall>body. with_graph C r body w = body r1 w1"
    by (rule graph_prepared [OF assms(1) r(1) req assms(6)])
  note f = prepared_facts [OF g(1)]
  have b: "incidentStillPresent C w1 r1 = Inr b" using g(1) assms(5) by (simp add: prepared_def)
  have req1: "requests_succeed C inv reports (report_key r1)" using req f(3) by simp
  have wp: "window_passed C now r1" using f(6) assms(4) by simp
  have "report_phase r = ''Detecting'' \<or> report_phase r = ''Active''"
    using assms(4) unfolding window_passed_def by metis
  then obtain r' where "fst (snd (Reconcile C now req w)) = None" "moves w1 r1 (world_of (Reconcile C now req w)) r'"
    "report_phase r' = due_phase C now w1 r1"
    using assms(2) g(2) f(4) due_detecting [OF f(1,2) req1 _ wp b] due_active [OF f(1,2) req1 _ wp b f(5)]
    by (auto simp: Reconcile_def reconcileDetecting_def reconcileActive_def)
  then show ?thesis using moves_trans [of w r w1 r1] g(1) f(7) by (auto simp: prepared_def)
qed

end

text \<open>C22.
  Once its window has passed, a reconciliation moves a report on: a detecting report becomes
  active when the fault is still visible or was seen within the window and is resolved otherwise,
  an active one, announced first if it has not been, stays active while the fault is visible and is
  resolved otherwise. It does so with any graph builder and notifier, and succeeds, when the reads and
  writes of the report, the check of the cluster and the notification succeed, and when writing a
  report or sending a notification does not change what the check of the cluster sees. The times of
  the report are as the API server stores them, in whole seconds.
\<close>

theorem Reconcile_progress:
  assumes "steady_cluster C ok reports" "ok w" "k_get_report (rv_client C) w (fst req) (snd req) = Inr r"
    and "requests_succeed C ok reports req" "window_passed C now r" "incidentStillPresent C w r = Inr b"
    and "stored_status (ir_Status r) = ir_Status r"
  shows "fst (snd (Reconcile C now req w)) = None \<and>
    (\<exists>r'. advances r r' \<and> set (reports (snd (snd (Reconcile C now req w)))) = put_report r' (set (reports w)) \<and>
       report_phase r' = due_phase C now w r)"
  using steady_cluster.progress_effect [OF assms]
    lifecycle_store.moves_def [OF steady_cluster.axioms(1) [OF assms(1)]] by blast

lemma mem_present:
  assumes "mw_pods w' = mw_pods w" "mw_nodes w' = mw_nodes w" "mw_deployments w' = mw_deployments w"
  shows "incidentStillPresent mem_graph_rec w' r = incidentStillPresent mem_graph_rec w r"
proof -
  have K: "k_get_pod mem_client w' = k_get_pod mem_client w" "k_get_node_conditions mem_client w' = k_get_node_conditions mem_client w"
    "k_get_deployment_conditions mem_client w' = k_get_deployment_conditions mem_client w"
    "k_get_stateful_set mem_client w' = k_get_stateful_set mem_client w" "k_get_daemon_set mem_client w' = k_get_daemon_set mem_client w"
    "k_get_job_conditions mem_client w' = k_get_job_conditions mem_client w" "k_get_cron_job mem_client w' = k_get_cron_job mem_client w"
    using assms by (simp_all add: mem_client_def)
  show ?thesis
    unfolding incidentStillPresent_def resource_check_def [abs_def] workload_check_def [abs_def] affected_check_def
      podIncidentStillPresent_def nodeIncidentStillPresent_def deploymentIncidentStillPresent_def statefulSetIncidentStillPresent_def
      daemonSetIncidentStillPresent_def jobIncidentStillPresent_def cronJobIncidentStillPresent_def mem_graph_fields K by (rule refl)
qed

interpretation mem_steady: steady_cluster mem_graph_rec mem_inv mw_reports
proof (unfold_locales, goal_cases)
  case (1 w b m res w' x)
  then show ?case by (intro mem_present) (auto simp: mem_client_sel mem_put_def split: option.splits)
next
  case (2 w b m res w' x)
  then show ?case by (intro mem_present) (auto simp: mem_client_def mem_put_def split: option.splits if_splits)
next
  case (3 notify r kind w e w' x)
  then show ?case by (auto simp: mem_graph_rec_def mem_rec_def)
qed

lemma mem_requests: "requests_succeed mem_graph_rec mem_inv mw_reports key"
  using mem.stored_lookup
  by (auto simp: requests_succeed_def mem_client_def mem_put_def or_not_found_def) (auto simp: mem_graph_rec_def mem_rec_def)

theorem Reconcile_progress_witness:
  "\<exists>r r'. mw_reports (rp_world mem_one) = [r] \<and> report_phase r = ''Detecting'' \<and> report_phase r' \<noteq> ''Detecting'' \<and>
     set (mw_reports (snd (snd (Reconcile mem_graph_rec 700000000000 (report_key r) (rp_world mem_one))))) = {r'}"
proof -
  obtain r where r: "k_get_report (rv_client mem_rec) (rp_world mem_one) (report_ns r) (report_name r) = Inr r"
    "mw_reports (rp_world mem_one) = [r]" "report_phase r = ''Detecting''" "EffectiveStartTime (ir_Status r) = Some 5000000000"
    "stabilizationWindow r = 300000000000" "sp_Scope (ir_Spec r) = in_Scope sample_input" by (rule mem_one_get)
  have window: "window_passed mem_graph_rec 700000000000 r"
    using r by (simp add: window_passed_def time_sub_def max_int64_def min_int64_def)
  obtain b where b: "incidentStillPresent mem_graph_rec (rp_world mem_one) r = Inr b"
    using r(6) by (cases "mw_pods (rp_world mem_one) ''shop'' ''web-1''")
      (auto simp: incidentStillPresent_def resource_check_def sample_input_def mk_ref_def podIncidentStillPresent_def
        present_if_def mem_client_def or_not_found_def ignore_not_found_def)
  have stored: "stored_status (ir_Status r) = ir_Status r" using r(2) mem_one_stored by (metis list.inject)
  from Reconcile_progress [OF mem_steady.steady_cluster_axioms mem_one_ok(1), where req = "report_key r", OF _ mem_requests window b stored] r(1,2)
  obtain r' where "advances r r'" "report_phase r' = due_phase mem_graph_rec 700000000000 (rp_world mem_one) r"
    "set (mw_reports (snd (snd (Reconcile mem_graph_rec 700000000000 (report_key r) (rp_world mem_one))))) = put_report r' {r}"
    by auto
  then show ?thesis using r(2,3) by (intro exI [of _ r] exI [of _ r']) (auto simp: put_report_def advances_def due_phase_def)
qed

section \<open>Reopened incidents\<close>

text \<open>The marks that a report carries once it was announced, resolved and reported resolved.\<close>

definition announced :: "incident_report \<Rightarrow> bool" where
  "announced r \<longleftrightarrow> st_Notified (ir_Status r) \<and> report_annotation r resolvedMetricRecordedKey = ''true''
     \<and> report_annotation r notificationResolvedSentKey = ''true''"

lemma diagnostic_keeps:
  "k \<notin> {AnnotationTraceID, AnnotationTraceIDs, AnnotationFiredRule} \<Longrightarrow>
     map_get (applyDiagnosticAnnotations an i) k = map_get an k"
  by (simp add: applyDiagnosticAnnotations_def Let_def)

lemma announced_kept:
  "announced r \<Longrightarrow> announced (with_meta (reopen_meta E i fp h r) r)"
  "announced (with_meta m r) \<Longrightarrow> announced (with_status (reopen_status i t (ir_Status r)) (with_meta m r))"
  "announced r \<Longrightarrow> advances r r' \<Longrightarrow> announced r'"
  by (simp_all add: announced_def advances_def reopen_meta_def reopen_status_def Let_def diagnostic_keeps)

context reporter_store
begin

lemma reopen_marks:
  assumes w: "inv (rp_world st)" "r \<in> set (reports (rp_world st))" and "announced r"
    and op: "reopenIncident E r i fp h st = (res, st')"
  shows "inv (rp_world st') \<and> (\<exists>r' \<in> set (reports (rp_world st')). report_key r' = report_key r \<and> announced r'
    \<and> (res = None \<longrightarrow> report_phase r' = ''Detecting''))"
proof -
  let ?m = "reopen_meta E i fp h r" and ?f = "reopen_status i (targetIncidentType r i)"
  have m: "report_key ?m = report_key r" by simp
  obtain res1 w1 where p: "k_patch_report (re_client E) (rp_world st) r ?m = (res1, w1)" by force
  note p' = patch_put [OF w p base_agrees_refl refl m]
  have fin: "inv (rp_world (observe E obs (st\<lparr>rp_world := w', rp_open := c\<rparr>)))"
    "reports (rp_world (observe E obs (st\<lparr>rp_world := w', rp_open := c\<rparr>))) = reports w'" if "inv w'" for w' obs c
    using observe_keeps that by simp_all
  show ?thesis
  proof (cases res1)
    case (Inl e)
    then have "rp_world st' = w1" "res \<noteq> None" using op p by (auto simp: reopenIncident_def patch_both_def)
    then show ?thesis using p'(1) p'(2) [OF Inl] w(2) assms(3) by auto
  next
    case (Inr x)
    let ?r1 = "with_meta ?m r"
    have r1: "x = ?r1" "set (reports w1) = put_report ?r1 (set (reports (rp_world st)))" using p'(3) [OF Inr] by simp_all
    have in1: "?r1 \<in> set (reports w1)" unfolding r1(2) by (simp add: in_put)
    have a1: "announced ?r1" using announced_kept(1) assms(3) by blast
    obtain res2 w2 where q: "k_patch_status (re_client E) w1 ?r1 (?r1\<lparr>ir_Status := ?f (ir_Status ?r1)\<rparr>) = (res2, w2)" by force
    note q' = status_put [OF p'(1) in1 q]
    show ?thesis
    proof (cases res2)
      case (Inl e)
      then have "rp_world st' = w2" "res \<noteq> None" using op p q Inr r1(1) by (auto simp: reopenIncident_def patch_both_def)
      then show ?thesis using q'(1) q'(2) [OF Inl] in1 a1 m by (auto intro!: bexI [of _ ?r1])
    next
      case res2: (Inr y)
      let ?r2 = "with_status (?f (ir_Status r)) ?r1"
      have S2: "set (reports w2) = put_report ?r2 (set (reports w1))" using q'(3) [OF res2] by simp
      have st': "\<exists>obs c. st' = observe E obs (st\<lparr>rp_world := w2, rp_open := c\<rparr>)"
        using op p q Inr r1(1) res2 by (auto simp: reopenIncident_def patch_both_def)
      have "?r2 \<in> set (reports w2)" unfolding S2 by (simp add: in_put)
      moreover have "announced ?r2" "report_phase ?r2 = ''Detecting''" "report_key ?r2 = report_key r"
        using announced_kept(2) [OF a1] reopen_status_fields(1) by simp_all
      ultimately show ?thesis using st' fin [OF q'(1)] by (auto intro!: bexI [of _ ?r2])
    qed
  qed
qed

end

text \<open>What does not consult the notifier is the same for every notifier.\<close>

lemma rec_env_sel:
  "rv_client (C\<lparr>rv_notifier := n\<rparr>) = rv_client C" "rv_parse (C\<lparr>rv_notifier := n\<rparr>) = rv_parse C"
  "rv_recorder (C\<lparr>rv_notifier := n\<rparr>) = rv_recorder C" "rv_graph (C\<lparr>rv_notifier := n\<rparr>) = rv_graph C"
  by simp_all

lemma transitions_notifier:
  "transitionToActive (C\<lparr>rv_notifier := n\<rparr>) now r w = transitionToActive C now r w"
  "transitionToResolved (C\<lparr>rv_notifier := n\<rparr>) now r reason w = transitionToResolved C now r reason w"
  "recently_seen (C\<lparr>rv_notifier := n\<rparr>) now window r = recently_seen C now window r"
  "idle_since (C\<lparr>rv_notifier := n\<rparr>) now r = idle_since C now r"
  unfolding transitionToActive_def transitionToResolved_def recently_seen_def idle_since_def rec_observe_def rec_event_def
    buildIncidentGraph_def rec_env_sel by (rule refl)+

lemma present_notifier: "incidentStillPresent (C\<lparr>rv_notifier := n\<rparr>) w r = incidentStillPresent C w r"
  unfolding incidentStillPresent_def resource_check_def [abs_def] workload_check_def [abs_def] affected_check_def
    podIncidentStillPresent_def nodeIncidentStillPresent_def deploymentIncidentStillPresent_def
    statefulSetIncidentStillPresent_def daemonSetIncidentStillPresent_def jobIncidentStillPresent_def
    cronJobIncidentStillPresent_def rec_env_sel by (rule refl)

lemma idle_notifier: "active_idle (C\<lparr>rv_notifier := n\<rparr>) now r w = active_idle C now r w"
  unfolding active_idle_def transitions_notifier present_notifier by (rule refl)

lemma announced_bodies:
  assumes "announced r" "k_get_report (rv_client C) w (report_ns r) (report_name r) = Inr r"
  shows "detecting_body (C\<lparr>rv_notifier := n\<rparr>) now r w = detecting_body C now r w"
    and "active_body (C\<lparr>rv_notifier := n\<rparr>) now r w = active_body C now r w"
    and "resolved_body (C\<lparr>rv_notifier := n\<rparr>) r w = resolved_body C r w"
proof -
  show "detecting_body (C\<lparr>rv_notifier := n\<rparr>) now r w = detecting_body C now r w"
    unfolding detecting_body_def transitions_notifier present_notifier by (rule refl)
  show "active_body (C\<lparr>rv_notifier := n\<rparr>) now r w = active_body C now r w"
    using assms(1) by (simp add: active_body_def announced_def idle_notifier)
  show "resolved_body (C\<lparr>rv_notifier := n\<rparr>) r w = resolved_body C r w"
    using assms by (simp add: resolved_body_def announced_def recordResolvedMetric_def rereading_def sendResolvedNotifications_def)
qed

text \<open>The world after reconciling a report at the given times, one after the other.\<close>

definition reconciles :: "'w rec_env \<Rightarrow> string \<times> string \<Rightarrow> gotime list \<Rightarrow> 'w \<Rightarrow> 'w" where
  "reconciles C req nows w = fold (\<lambda>now w. snd (snd (Reconcile C now req w))) nows w"

lemma graph_notifier: "ensureIncidentGraph (C\<lparr>rv_notifier := n\<rparr>) r w = ensureIncidentGraph C r w"
  unfolding ensureIncidentGraph_def buildIncidentGraph_def rec_env_sel by (rule refl)

context lifecycle_store
begin

lemma with_graph_silent:
  assumes "inv w" "r \<in> set (reports w)" "announced r" "k_get_report (rv_client C) w (report_ns r) (report_name r) = Inr r"
    and "\<And>w r. announced r \<Longrightarrow> k_get_report (rv_client C) w (report_ns r) (report_name r) = Inr r \<Longrightarrow> body' r w = body r w"
  shows "with_graph (C\<lparr>rv_notifier := n\<rparr>) r body' w = with_graph C r body w"
proof -
  obtain res w1 where g: "ensureIncidentGraph C r w = (res, w1)" by force
  obtain r1 where r1: "moves w r w1 r1" using graph_moves [OF assms(1,2) g] by blast
  have "announced r1" "report_key r1 = report_key r"
    using announced_kept(3) [OF assms(3)] r1 by (simp_all add: moves_def advances_def)
  moreover have "k_get_report (rv_client C) w1 (report_ns r1) (report_name r1) = Inr x \<Longrightarrow> x = r1" for x
    using get_moves moves_in [OF r1] by blast
  ultimately have "rereading (C\<lparr>rv_notifier := n\<rparr>) r (\<lambda>r. body' r w1) w1 = rereading C r (\<lambda>r. body r w1) w1"
    using assms(5) by (auto simp: rereading_def split: sum.split)
  then show ?thesis
    using g assms(5) [OF assms(3,4)] graph_moves [OF assms(1,2) g]
    by (auto simp: with_graph_def graph_notifier split: sum.splits bool.splits)
qed

lemma announced_silent:
  assumes "inv w" "r \<in> set (reports w)" "announced r"
  shows "Reconcile (C\<lparr>rv_notifier := n\<rparr>) now (report_key r) w = Reconcile C now (report_key r) w"
    and "inv (world_of (Reconcile C now (report_key r) w)) \<and>
      (\<exists>r' \<in> set (reports (world_of (Reconcile C now (report_key r) w))). report_key r' = report_key r \<and> announced r')"
proof -
  have "Reconcile (C\<lparr>rv_notifier := n\<rparr>) now (report_key r) w = Reconcile C now (report_key r) w \<and>
    inv (world_of (Reconcile C now (report_key r) w)) \<and>
      (\<exists>r' \<in> set (reports (world_of (Reconcile C now (report_key r) w))). report_key r' = report_key r \<and> announced r')"
  proof (cases "k_get_report (rv_client C) w (report_ns r) (report_name r)")
    case (Inl e)
    then show ?thesis using assms by (auto simp: Reconcile_def)
  next
    case (Inr x)
    then have get: "k_get_report (rv_client C) w (report_ns r) (report_name r) = Inr r" using get_moves [OF assms(1,2)] by simp
    obtain r' where m: "moves w r (world_of (Reconcile C now (report_key r) w)) r'"
      using reconcile_moves(3) [OF assms(1), of "report_key r"] get by auto
    have "announced r'" "report_key r' = report_key r" using m announced_kept(3) [OF assms(3)] by (simp_all add: moves_def advances_def)
    moreover have "Reconcile (C\<lparr>rv_notifier := n\<rparr>) now (report_key r) w = Reconcile C now (report_key r) w"
      using get with_graph_silent [OF assms get announced_bodies(1)] with_graph_silent [OF assms get announced_bodies(2)]
        with_graph_silent [OF assms get announced_bodies(3)]
      by (simp add: Reconcile_def reconcileDetecting_def reconcileActive_def reconcileResolved_def)
    ultimately show ?thesis using moves_in [OF m] by blast
  qed
  then show "Reconcile (C\<lparr>rv_notifier := n\<rparr>) now (report_key r) w = Reconcile C now (report_key r) w"
    "inv (world_of (Reconcile C now (report_key r) w)) \<and>
      (\<exists>r' \<in> set (reports (world_of (Reconcile C now (report_key r) w))). report_key r' = report_key r \<and> announced r')" by blast+
qed

lemma reconciles_silent:
  "inv w \<Longrightarrow> r \<in> set (reports w) \<Longrightarrow> announced r \<Longrightarrow>
     reconciles (C\<lparr>rv_notifier := n\<rparr>) (report_key r) nows w = reconciles C (report_key r) nows w"
proof (induction nows arbitrary: w r)
  case (Cons now nows)
  have s: "Reconcile (C\<lparr>rv_notifier := n\<rparr>) now (report_key r) w = Reconcile C now (report_key r) w"
    by (rule announced_silent(1) [OF Cons.prems])
  from announced_silent(2) [OF Cons.prems, of now] obtain r' where "r' \<in> set (reports (world_of (Reconcile C now (report_key r) w)))" "report_key r' = report_key r" "announced r'"
    "inv (world_of (Reconcile C now (report_key r) w))" by blast
  with Cons.IH [of "world_of (Reconcile C now (report_key r) w)" r'] s show ?case by (simp add: reconciles_def)
qed (simp add: reconciles_def)

end



end
