(* ===== verification/Agent_Spec.thy ===== *)
theory Agent_Spec
  imports Reporter_Store
begin

text \<open>
  The \<open>RCAAgent\<close> resource (\<open>api/v1alpha1/rcaagent_types.go\<close>), its admission webhook
  (\<open>internal/webhook/rcaagent_webhook.go\<close>), the retention period
  (\<open>internal/retention/parse.go\<close>) and the helpers of the agent controller that look at one agent
  or one report (\<open>internal/controller/rcaagent_controller.go\<close>).
\<close>

record slack_config =
  sl_WebhookSecretRef :: string
  sl_Channel :: string
  sl_MentionOnP1 :: string

record pagerduty_config =
  pd_SecretRef :: string
  pd_Severity :: string

record notifications_config =
  nc_Slack :: "slack_config option"
  nc_PagerDuty :: "pagerduty_config option"

record otel_config =
  ot_Endpoint :: string
  ot_ServiceName :: string
  ot_SamplingRate :: string
  ot_Insecure :: bool

record agent_spec =
  ag_WatchNamespaces :: "string list"
  ag_Notifications :: "notifications_config option"
  ag_IncidentRetention :: string
  ag_IncidentRetentionDays :: int
  ag_OTel :: "otel_config option"

record agent_condition =
  ac_Type :: string
  ac_Status :: string
  ac_Reason :: string
  ac_Message :: string
  ac_ObservedGeneration :: int

text \<open>\<open>aa_Deleting\<close> is a set deletion timestamp.\<close>

record rca_agent =
  aa_Name :: string
  aa_Namespace :: string
  aa_Deleting :: bool
  aa_Finalizers :: "string list"
  aa_Generation :: int
  aa_Spec :: agent_spec
  aa_Conditions :: "agent_condition list"

section \<open>Admission\<close>

definition agent_Default :: "rca_agent \<Rightarrow> rca_agent" where
  "agent_Default agent =
     (let spec = aa_Spec agent;
          spec = (if ag_IncidentRetention spec = [] then spec\<lparr>ag_IncidentRetention := ''30d''\<rparr> else spec);
          spec = (case ag_OTel spec of None \<Rightarrow> spec
            | Some o1 \<Rightarrow>
                (let o2 = (if ot_ServiceName o1 = [] then o1\<lparr>ot_ServiceName := ''rca-operator''\<rparr> else o1);
                     o3 = (if ot_SamplingRate o2 = [] then o2\<lparr>ot_SamplingRate := ''1.0''\<rparr> else o2)
                 in spec\<lparr>ag_OTel := Some o3\<rparr>))
      in agent\<lparr>aa_Spec := spec\<rparr>)"

text \<open>\<open>net.SplitHostPort\<close> of the standard library: host and port, or \<open>None\<close> for an error.\<close>

definition index_byte :: "char \<Rightarrow> string \<Rightarrow> nat option" where
  "index_byte c s = (if c \<in> set s then Some (length (takeWhile (\<lambda>x. x \<noteq> c) s)) else None)"

definition last_byte :: "char \<Rightarrow> string \<Rightarrow> nat option" where
  "last_byte c s = map_option (\<lambda>k. length s - 1 - k) (index_byte c (rev s))"

definition split_host_port :: "string \<Rightarrow> (string \<times> string) option" where
  "split_host_port hp = (case last_byte (CHR '':'') hp of
     None \<Rightarrow> None
   | Some i \<Rightarrow>
       (let finish = (\<lambda>host j k.
              if CHR ''['' \<in> set (drop j hp) \<or> CHR '']'' \<in> set (drop k hp) then None
              else Some (host, drop (i + 1) hp))
        in if has_prefix hp ''['' then
             (case index_byte (CHR '']'') hp of
                None \<Rightarrow> None
              | Some e \<Rightarrow> if e + 1 = i then finish (take (e - 1) (drop 1 hp)) 1 (e + 1) else None)
           else if CHR '':'' \<in> set (take i hp) then None
           else finish (take i hp) 0 0))"

datatype agent_rejection = NoWatchNamespaces | BadEndpoint string

definition validateAgent :: "rca_agent \<Rightarrow> agent_rejection option" where
  "validateAgent agent =
     (let spec = aa_Spec agent
      in if ag_WatchNamespaces spec = [] then Some NoWatchNamespaces
         else case ag_OTel spec of
                None \<Rightarrow> None
              | Some ot \<Rightarrow>
                  if ot_Endpoint ot \<noteq> [] \<and> split_host_port (ot_Endpoint ot) = None
                  then Some (BadEndpoint (ot_Endpoint ot)) else None)"

section \<open>Retention period\<close>

datatype retention_error = TooShort string | NotPositive string | BadSuffix string

definition defaultIncidentRetention :: duration where
  "defaultIncidentRetention = 30 * 24 * hour"

definition parseRetentionDuration :: "string \<Rightarrow> retention_error + duration" where
  "parseRetentionDuration s =
     (if length s < 2 then Inl (TooShort s)
      else let unit = last s in
        case atoi (butlast s) of
          None \<Rightarrow> Inl (NotPositive s)
        | Some value \<Rightarrow>
            if value \<le> 0 then Inl (NotPositive s)
            else if unit = CHR ''m'' then Inr (wrap64 (value * minute))
            else if unit = CHR ''h'' then Inr (wrap64 (value * hour))
            else if unit = CHR ''d'' then Inr (wrap64 (wrap64 (value * 24) * hour))
            else Inl (BadSuffix s))"

definition ParseIncidentRetention :: "string \<Rightarrow> int \<Rightarrow> retention_error + duration" where
  "ParseIncidentRetention incidentRetention incidentRetentionDays =
     (let trimmed = trim_space incidentRetention
      in if trimmed \<noteq> [] then parseRetentionDuration trimmed
         else if 0 < incidentRetentionDays then Inr (wrap64 (wrap64 (incidentRetentionDays * 24) * hour))
         else Inr defaultIncidentRetention)"

section \<open>Helpers of the agent controller\<close>

fun dedup_trimmed :: "string list \<Rightarrow> string list \<Rightarrow> string list" where
  "dedup_trimmed seen [] = []"
| "dedup_trimmed seen (x # xs) =
     (let ns = trim_space x
      in if ns = [] \<or> ns \<in> set seen then dedup_trimmed seen xs else ns # dedup_trimmed (ns # seen) xs)"

definition normalizeNamespaces :: "string list \<Rightarrow> string list" where
  "normalizeNamespaces namespaces = sort (dedup_trimmed [] namespaces)"

text \<open>Name of a referenced secret and what it is used for.\<close>

definition referencedSecretRefs :: "rca_agent \<Rightarrow> (string \<times> string) list" where
  "referencedSecretRefs agent = (case ag_Notifications (aa_Spec agent) of
     None \<Rightarrow> []
   | Some n \<Rightarrow>
       (case nc_Slack n of
          Some slack \<Rightarrow> if trim_space (sl_WebhookSecretRef slack) \<noteq> []
                        then [(trim_space (sl_WebhookSecretRef slack), ''Slack webhook'')] else []
        | None \<Rightarrow> []) @
       (case nc_PagerDuty n of
          Some pagerDuty \<Rightarrow> if trim_space (pd_SecretRef pagerDuty) \<noteq> []
                        then [(trim_space (pd_SecretRef pagerDuty), ''PagerDuty routing key'')] else []
        | None \<Rightarrow> []))"

definition referencesSecret :: "rca_agent \<Rightarrow> string \<Rightarrow> bool" where
  "referencesSecret agent secretName \<longleftrightarrow> list_ex (\<lambda>ref. fst ref = secretName) (referencedSecretRefs agent)"

text \<open>The name of an agent, as of every object, is not empty: a missing label never equals it.\<close>

definition belongsToAgent :: "incident_report \<Rightarrow> string \<Rightarrow> bool" where
  "belongsToAgent report agentName \<longleftrightarrow>
     sp_AgentRef (ir_Spec report) = agentName \<or> om_Labels (ir_Meta report) LabelAgent = Some agentName"

definition shouldPruneIncidentReport :: "incident_report \<Rightarrow> gotime \<Rightarrow> duration \<Rightarrow> bool" where
  "shouldPruneIncidentReport report now retentionDuration \<longleftrightarrow>
     (if report_phase report = ''Resolved'' then
        (case EffectiveResolvedTime (ir_Status report) of
           None \<Rightarrow> False
         | Some t \<Rightarrow> \<not> time_is_zero t \<and> retentionDuration < time_sub now t)
      else report_phase report = [] \<and> retentionDuration < time_sub now (om_CreationTimestamp (ir_Meta report)))"

definition incidentGraphAnchor :: "incident_report \<Rightarrow> gotime" where
  "incidentGraphAnchor report =
     (let st = ir_Status report
      in case st_FirstObservedAt st of
           Some t \<Rightarrow> if \<not> time_is_zero t then t
                     else (case st_ActiveAt st of
                             Some u \<Rightarrow> if \<not> time_is_zero u then u else om_CreationTimestamp (ir_Meta report)
                           | None \<Rightarrow> om_CreationTimestamp (ir_Meta report))
         | None \<Rightarrow> (case st_ActiveAt st of
                      Some u \<Rightarrow> if \<not> time_is_zero u then u else om_CreationTimestamp (ir_Meta report)
                    | None \<Rightarrow> om_CreationTimestamp (ir_Meta report)))"

section \<open>Lemmas\<close>

lemma dedup_trimmed_spec:
  "distinct (dedup_trimmed seen xs) \<and> set (dedup_trimmed seen xs) = trim_space ` set xs - set seen - {[]}"
  by (induction xs arbitrary: seen) (auto simp: Let_def)

lemma normalizeNamespaces_spec:
  "sorted (normalizeNamespaces xs) \<and> distinct (normalizeNamespaces xs) \<and>
   set (normalizeNamespaces xs) = trim_space ` set xs - {[]}"
  using dedup_trimmed_spec [of "[]" xs] by (simp add: normalizeNamespaces_def)

lemma normalizeNamespaces_cong:
  "trim_space ` set xs - {[]} = trim_space ` set ys - {[]} \<Longrightarrow> normalizeNamespaces xs = normalizeNamespaces ys"
  using normalizeNamespaces_spec [of xs] normalizeNamespaces_spec [of ys] sorted_distinct_set_unique by metis

lemma trim_retention:
  assumes "0 < n" "\<not> is_space u"
  shows "trim_space (itoa n @ [u]) = itoa n @ [u]"
proof -
  have "hd (itoa n) = hd (nat_digits (nat n))" using assms(1) by (simp add: itoa_def)
  then have "\<not> is_space (hd (itoa n))" using hd_nat_digits [of "nat n"] by (auto simp: is_digit_def is_space_def)
  then show ?thesis unfolding trim_space_def by (intro trim_cut_id) (simp_all add: assms(2))
qed

definition retention_unit :: "char \<Rightarrow> duration option" where
  "retention_unit u = (if u = CHR ''m'' then Some minute else if u = CHR ''h'' then Some hour
     else if u = CHR ''d'' then Some (24 * hour) else None)"

lemma parse_retention_exact:
  assumes "0 < n" "retention_unit u = Some d" "n * d \<le> max_int64"
  shows "parseRetentionDuration (itoa n @ [u]) = Inr (n * d)"
proof -
  have d: "1 \<le> d" "d \<in> {minute, hour, 24 * hour}" using assms(2)
    by (auto simp: retention_unit_def duration_units split: if_splits)
  then have "n \<le> n * d" "0 < n * d" using assms(1) by simp_all
  then have n: "in_int64 n" "in_int64 (n * d)"
    using assms(1,3) d(1) order_trans [OF \<open>n \<le> n * d\<close> assms(3)] \<open>0 < n * d\<close> unfolding in_int64_def min_int64_def by linarith+
  have "u = CHR ''d'' \<Longrightarrow> in_int64 (n * 24)"
    using assms(1-3) by (auto simp: retention_unit_def in_int64_def duration_units max_int64_def min_int64_def)
  moreover have "length (itoa n) \<ge> 1" by (simp add: Suc_le_eq)
  ultimately show ?thesis
    using assms n by (auto simp: parseRetentionDuration_def retention_unit_def Let_def mult.assoc split: if_splits)
qed

section \<open>Properties\<close>

text \<open>C30.
  A retention period written as a positive number of minutes, hours or days is read back as
  exactly that duration, whatever the deprecated field holds, as long as the product fits a
  64-bit duration.
\<close>

theorem retention_round_trip:
  assumes "0 < n" "retention_unit u = Some d" "n * d \<le> max_int64"
  shows "ParseIncidentRetention (itoa n @ [u]) days = Inr (n * d)"
proof -
  have "\<not> is_space u" using assms(2) by (auto simp: retention_unit_def is_space_def split: if_splits)
  then show ?thesis
    using trim_retention [OF assms(1)] parse_retention_exact [OF assms]
    by (simp add: ParseIncidentRetention_def Let_def)
qed

theorem retention_round_trip_witness: "ParseIncidentRetention ''30d'' 7 = Inr defaultIncidentRetention"
proof -
  have "itoa 30 = ''30''" by code_simp
  with retention_round_trip [of 30 "CHR ''d''" "24 * hour" 7] show ?thesis
    by (simp add: retention_unit_def hour_def max_int64_def defaultIncidentRetention_def)
qed

text \<open>The multiplication is not checked: \<open>106752d\<close>, which the pattern of the custom resource allows,
  wraps around to a negative period, and with it every resolved report is due for deletion as
  soon as it is resolved.
\<close>

theorem retention_overflow_prunes:
  assumes "report_phase r = ''Resolved''" "EffectiveResolvedTime (ir_Status r) = Some t" "\<not> time_is_zero t" "t \<le> now"
  shows "\<exists>d. ParseIncidentRetention ''106752d'' days = Inr d \<and> d < 0 \<and> shouldPruneIncidentReport r now d"
proof -
  have "ParseIncidentRetention ''106752d'' days = Inr (-9223371273709551616)"
  proof -
    have "trim_space ''106752d'' = ''106752d''"
      by (simp add: trim_space_def trim_cut_def trim_left_def trim_right_def is_space_def)
    moreover have "atoi ''106752'' = Some 106752"
      by (simp add: atoi_def digits_val_def is_digit_def in_int64_def max_int64_def min_int64_def)
    ultimately show ?thesis
      by (simp add: ParseIncidentRetention_def parseRetentionDuration_def wrap64_def hour_def)
  qed
  moreover have "0 \<le> time_sub now t" using assms(4) by (simp add: time_sub_def max_int64_def)
  ultimately show ?thesis using assms by (simp add: shouldPruneIncidentReport_def)
qed

theorem retention_overflow_prunes_witness:
  "\<exists>r d. ParseIncidentRetention ''106752d'' 30 = Inr d \<and> shouldPruneIncidentReport r 9000000000 d"
proof -
  obtain r0 where "mw_reports (rp_world mem_one) = [r0]" by (rule mem_one_report)
  define r where "r = resolved_report 8000000000 ''done'' r0"
  have "report_phase r = ''Resolved''" "EffectiveResolvedTime (ir_Status r) = Some 8000000000"
    by (simp_all add: r_def resolved_report_def with_status_def MarkResolved_def Let_def EffectiveResolvedTime_def
        stored_status_def stored_time_ptr_def stored_time_def)
  from retention_overflow_prunes [OF this, of 9000000000 30] show ?thesis
    by (auto simp: time_is_zero_def)
qed

end
