(* ===== verification/Agent.thy ===== *)
theory Agent
  imports Agent_Spec Lifecycle
begin

text \<open>
  The agent controller (\<open>internal/controller/rcaagent_controller.go\<close>): it keeps one running
  set of collectors per \<open>RCAAgent\<close>, resolves incidents whose pods are gone, deletes reports past
  their retention and drops stale topology graphs. The API server is the client of \<open>Kube\<close>
  extended by the operations this controller needs beyond it; starting a collector is an operation
  of the environment. A context made by \<open>context.WithCancel\<close> is a number, and the live
  contexts are those made and not yet cancelled. Cancelling one ends the scans that run under it; the
  event handlers a collector adds to the shared informers are kept apart, since nothing removes them.
\<close>

datatype collector_kind = PodCollector | EventCollector | WorkloadCollector | NodeCollector
  | StatefulSetCollector | DaemonSetCollector | JobCollector | CronJobCollector

record collector_config =
  cc_Kind :: collector_kind
  cc_AgentName :: string
  cc_WatchNamespaces :: "string list"
  cc_IncidentNamespace :: string

text \<open>
  \<open>av_set_condition\<close> is \<open>meta.SetStatusCondition\<close> of apimachinery. \<open>av_emitter\<close>, \<open>av_cache\<close>
  and \<open>av_injected\<close> say whether the emitter, the cache and the factory of a collector are set.
\<close>

record 'w agent_env =
  av_client :: "'w kube"
  av_delete_report :: "'w \<Rightarrow> incident_report \<Rightarrow> kerr option \<times> 'w"
  av_list_namespaces :: "'w \<Rightarrow> kerr + string list"
  av_get_secret :: "'w \<Rightarrow> string \<Rightarrow> string \<Rightarrow> kerr option"
  av_get_agent :: "'w \<Rightarrow> string \<Rightarrow> string \<Rightarrow> kerr + rca_agent"
  av_list_agents :: "'w \<Rightarrow> string \<Rightarrow> kerr + rca_agent list"
  av_update_agent :: "'w \<Rightarrow> rca_agent \<Rightarrow> kerr option \<times> 'w"
  av_patch_agent_status :: "'w \<Rightarrow> rca_agent \<Rightarrow> rca_agent \<Rightarrow> (kerr + rca_agent) \<times> 'w"
  av_set_condition :: "agent_condition \<Rightarrow> agent_condition list \<Rightarrow> agent_condition list"
  av_error_text :: "kerr \<Rightarrow> string"
  av_emitter :: bool
  av_cache :: bool
  av_injected :: "collector_kind \<Rightarrow> bool"
  av_start :: "collector_config \<Rightarrow> nat \<Rightarrow> 'w \<Rightarrow> kerr option \<times> 'w"

text \<open>\<open>as_registry\<close>: per agent the context of its collectors and the namespaces they watch;
  \<open>as_handlers\<close>: the handlers added to the informers of the cache, with the context under which the
  collector was started.\<close>

record 'w agent_state =
  as_world :: 'w
  as_registry :: "string \<times> string \<rightharpoonup> nat \<times> string list"
  as_live :: "nat list"
  as_next :: nat
  as_handlers :: "(nat \<times> collector_config) list"

text \<open>The first argument of an error says which operation failed; the wording of messages is not modelled.\<close>

datatype agent_error = AgentError string kerr | RetentionError string string retention_error

section \<open>Collectors\<close>

abbreviation agent_key :: "rca_agent \<Rightarrow> string \<times> string" where
  "agent_key agent \<equiv> (aa_Namespace agent, aa_Name agent)"

definition cancel_context :: "nat \<Rightarrow> 'w agent_state \<Rightarrow> 'w agent_state" where
  "cancel_context ctx st = st\<lparr>as_live := filter (\<lambda>c. c \<noteq> ctx) (as_live st)\<rparr>"

text \<open>Stopping the collectors of an agent cancels their context. The handlers of the informers do not
  look at the context and stay.\<close>

definition stopCollectors :: "string \<times> string \<Rightarrow> 'w agent_state \<Rightarrow> 'w agent_state" where
  "stopCollectors key st = (case as_registry st key of
     None \<Rightarrow> st
   | Some (ctx, nss) \<Rightarrow> cancel_context ctx (st\<lparr>as_registry := (as_registry st)(key := None)\<rparr>))"

definition collector_config_for :: "rca_agent \<Rightarrow> string list \<Rightarrow> collector_kind \<Rightarrow> collector_config" where
  "collector_config_for agent namespaces kind =
     \<lparr>cc_Kind = kind, cc_AgentName = aa_Name agent,
      cc_WatchNamespaces = (if kind = NodeCollector then [] else namespaces),
      cc_IncidentNamespace = (if kind = NodeCollector then aa_Namespace agent else [])\<rparr>"

text \<open>\<open>Start\<close> of every watcher but that of cron jobs adds its handler to an informer.\<close>

definition add_handler :: "nat \<Rightarrow> collector_config \<Rightarrow> 'w agent_state \<Rightarrow> 'w agent_state" where
  "add_handler ctx cfg st =
     (if cc_Kind cfg = CronJobCollector then st else st\<lparr>as_handlers := (ctx, cfg) # as_handlers st\<rparr>)"

lemma add_handler_world [simp]: "as_world (add_handler ctx cfg st) = as_world st"
  by (simp add: add_handler_def)

text \<open>Start the collectors in order; the first failure ends it.\<close>

fun start_each ::
    "'w agent_env \<Rightarrow> rca_agent \<Rightarrow> string list \<Rightarrow> nat \<Rightarrow> collector_kind list \<Rightarrow> 'w agent_state \<Rightarrow>
       kerr option \<times> 'w agent_state" where
  "start_each A agent namespaces ctx [] st = (None, st)"
| "start_each A agent namespaces ctx (kind # kinds) st =
     (let cfg = collector_config_for agent namespaces kind
      in case av_start A cfg ctx (as_world st) of
           (Some err, w) \<Rightarrow> (Some err, st\<lparr>as_world := w\<rparr>)
         | (None, w) \<Rightarrow> start_each A agent namespaces ctx kinds (add_handler ctx cfg (st\<lparr>as_world := w\<rparr>)))"

definition optional_collectors :: "collector_kind list" where
  "optional_collectors = [WorkloadCollector, NodeCollector, StatefulSetCollector, DaemonSetCollector, JobCollector, CronJobCollector]"

definition startOptionalCollectors ::
    "'w agent_env \<Rightarrow> rca_agent \<Rightarrow> string list \<Rightarrow> nat \<Rightarrow> 'w agent_state \<Rightarrow> kerr option \<times> 'w agent_state" where
  "startOptionalCollectors A agent namespaces ctx st =
     start_each A agent namespaces ctx (filter (\<lambda>k. av_injected A k \<or> av_cache A) optional_collectors) st"

definition ensureCollectorsRunning ::
    "'w agent_env \<Rightarrow> rca_agent \<Rightarrow> 'w agent_state \<Rightarrow> agent_error option \<times> 'w agent_state" where
  "ensureCollectorsRunning A agent st =
     (if \<not> av_emitter A then (None, st)
      else let desired = normalizeNamespaces (ag_WatchNamespaces (aa_Spec agent)) in
        if \<not> av_injected A PodCollector \<and> \<not> av_cache A then (None, st)
        else if map_option snd (as_registry st (agent_key agent)) = Some desired then (None, st)
        else let st = stopCollectors (agent_key agent) st;
                 ctx = as_next st;
                 st = st\<lparr>as_live := ctx # as_live st, as_next := ctx + 1\<rparr>
          in case start_each A agent desired ctx [PodCollector, EventCollector] st of
               (Some err, st) \<Rightarrow> (Some (AgentError ''failed to start collector'' err), cancel_context ctx st)
             | (None, st) \<Rightarrow>
                 (case startOptionalCollectors A agent desired ctx st of
                    (Some err, st) \<Rightarrow> (Some (AgentError ''failed to start collector'' err), cancel_context ctx st)
                  | (None, st) \<Rightarrow>
                      (None, st\<lparr>as_registry := (as_registry st)(agent_key agent \<mapsto> (ctx, desired))\<rparr>)))"

section \<open>Sweeps over the reports of an agent\<close>

text \<open>
  Orphan resolution, retention and graph pruning walk the reports of every namespace of the
  agent, act on those selected, skip a report that is gone and stop at the first other error.
\<close>

fun sweep ::
    "('w \<Rightarrow> incident_report \<Rightarrow> bool) \<Rightarrow> ('w \<Rightarrow> incident_report \<Rightarrow> kerr option \<times> 'w) \<Rightarrow> incident_report list \<Rightarrow> 'w \<Rightarrow>
       kerr option \<times> 'w" where
  "sweep sel act [] w = (None, w)"
| "sweep sel act (r # rs) w =
     (if \<not> sel w r then sweep sel act rs w
      else case act w r of
             (None, w) \<Rightarrow> sweep sel act rs w
           | (Some NotFound, w) \<Rightarrow> sweep sel act rs w
           | (Some (KubeError m), w) \<Rightarrow> (Some (KubeError m), w))"

fun sweep_namespaces ::
    "'w agent_env \<Rightarrow> string \<Rightarrow> ('w \<Rightarrow> incident_report \<Rightarrow> bool) \<Rightarrow> ('w \<Rightarrow> incident_report \<Rightarrow> kerr option \<times> 'w) \<Rightarrow>
       string list \<Rightarrow> 'w \<Rightarrow> agent_error option \<times> 'w" where
  "sweep_namespaces A what sel act [] w = (None, w)"
| "sweep_namespaces A what sel act (ns # nss) w = (case k_list_reports (av_client A) w (Some ns) None of
     Inl err \<Rightarrow> (Some (AgentError (''failed to list IncidentReports for '' @ what) err), w)
   | Inr items \<Rightarrow>
       (case sweep sel act items w of
          (Some err, w) \<Rightarrow> (Some (AgentError (''failed on IncidentReport during '' @ what) err), w)
        | (None, w) \<Rightarrow> sweep_namespaces A what sel act nss w))"

definition retentionNamespaces :: "'w agent_env \<Rightarrow> rca_agent \<Rightarrow> 'w \<Rightarrow> kerr + string list" where
  "retentionNamespaces A agent w =
     (let namespaces = normalizeNamespaces (ag_WatchNamespaces (aa_Spec agent))
      in if namespaces \<noteq> [] then Inr namespaces
         else case av_list_namespaces A w of Inl err \<Rightarrow> Inl err | Inr names \<Rightarrow> Inr (sort names))"

definition observe_client :: "'w kube \<Rightarrow> observation list \<Rightarrow> 'w \<Rightarrow> 'w" where
  "observe_client K obs w = fold (\<lambda>ob w. k_observe K w ob) obs w"

definition patch_result :: "(kerr + incident_report) \<times> 'w \<Rightarrow> kerr option \<times> 'w" where
  "patch_result res = (case res of (Inl err, w) \<Rightarrow> (Some err, w) | (Inr _, w) \<Rightarrow> (None, w))"

text \<open>A report is taken for orphaned as soon as one of its pods is not found.\<close>

definition pod_gone :: "'w agent_env \<Rightarrow> 'w \<Rightarrow> incident_report \<Rightarrow> bool" where
  "pod_gone A w report = list_ex (\<lambda>res. ar_Kind res = ''Pod'' \<and>
     k_get_pod (av_client A) w (ar_Namespace res) (ar_Name res) = Inl NotFound) (st_AffectedResources (ir_Status report))"

definition orphan_reason :: string where
  "orphan_reason = ''Pod no longer exists in cluster; incident auto-resolved''"

definition orphaned :: "'w agent_env \<Rightarrow> rca_agent \<Rightarrow> 'w \<Rightarrow> incident_report \<Rightarrow> bool" where
  "orphaned A agent w r \<longleftrightarrow> report_phase r \<noteq> ''Resolved'' \<and> belongsToAgent r (aa_Name agent) \<and> pod_gone A w r"

definition resolve_orphan :: "'w agent_env \<Rightarrow> gotime \<Rightarrow> 'w \<Rightarrow> incident_report \<Rightarrow> kerr option \<times> 'w" where
  "resolve_orphan A now w r =
     (let (s, obs) = MarkResolved (ir_Status r) now orphan_reason
      in patch_result (k_patch_status (av_client A) (observe_client (av_client A) obs w) r (r\<lparr>ir_Status := s\<rparr>)))"

definition resolveOrphanedIncidents ::
    "'w agent_env \<Rightarrow> gotime \<Rightarrow> rca_agent \<Rightarrow> 'w \<Rightarrow> agent_error option \<times> 'w" where
  "resolveOrphanedIncidents A now agent w = (case retentionNamespaces A agent w of
     Inl err \<Rightarrow> (Some (AgentError ''failed to list namespaces for incident retention cleanup'' err), w)
   | Inr namespaces \<Rightarrow>
       sweep_namespaces A ''orphan check'' (orphaned A agent) (resolve_orphan A now) namespaces w)"

definition expired :: "rca_agent \<Rightarrow> gotime \<Rightarrow> duration \<Rightarrow> incident_report \<Rightarrow> bool" where
  "expired agent now d r \<longleftrightarrow> belongsToAgent r (aa_Name agent) \<and> shouldPruneIncidentReport r now d"

definition agent_retention :: "rca_agent \<Rightarrow> agent_error + duration" where
  "agent_retention agent =
     (case ParseIncidentRetention (ag_IncidentRetention (aa_Spec agent)) (ag_IncidentRetentionDays (aa_Spec agent)) of
        Inl err \<Rightarrow> Inl (RetentionError (aa_Namespace agent) (aa_Name agent) err) | Inr d \<Rightarrow> Inr d)"

definition cleanupResolvedIncidents ::
    "'w agent_env \<Rightarrow> gotime \<Rightarrow> rca_agent \<Rightarrow> 'w \<Rightarrow> agent_error option \<times> 'w" where
  "cleanupResolvedIncidents A now agent w = (case agent_retention agent of
     Inl err \<Rightarrow> (Some err, w)
   | Inr d \<Rightarrow>
       (case retentionNamespaces A agent w of
          Inl err \<Rightarrow> (Some (AgentError ''failed to list namespaces for incident retention cleanup'' err), w)
        | Inr namespaces \<Rightarrow>
            sweep_namespaces A ''retention cleanup'' (\<lambda>w. expired agent now d) (av_delete_report A) namespaces w))"

definition graph_stale :: "rca_agent \<Rightarrow> gotime \<Rightarrow> duration \<Rightarrow> incident_report \<Rightarrow> bool" where
  "graph_stale agent now ttl r \<longleftrightarrow>
     belongsToAgent r (aa_Name agent) \<and> st_IncidentGraph (ir_Status r) \<noteq> None \<and>
     \<not> time_is_zero (incidentGraphAnchor r) \<and> ttl < time_sub now (incidentGraphAnchor r)"

definition drop_graph :: "'w agent_env \<Rightarrow> 'w \<Rightarrow> incident_report \<Rightarrow> kerr option \<times> 'w" where
  "drop_graph A w r =
     patch_result (k_patch_status (av_client A) w r (r\<lparr>ir_Status := (ir_Status r)\<lparr>st_IncidentGraph := None\<rparr>\<rparr>))"

text \<open>Go divides towards zero; a period that is not positive leaves the graphs alone.\<close>

definition pruneStaleIncidentGraphs ::
    "'w agent_env \<Rightarrow> gotime \<Rightarrow> rca_agent \<Rightarrow> 'w \<Rightarrow> agent_error option \<times> 'w" where
  "pruneStaleIncidentGraphs A now agent w = (case agent_retention agent of
     Inl err \<Rightarrow> (Some err, w)
   | Inr d \<Rightarrow>
       (let graphTTL = (if d < 0 then - ((- d) div 4) else d div 4)
        in if graphTTL \<le> 0 then (None, w)
           else case retentionNamespaces A agent w of
                  Inl err \<Rightarrow> (Some (AgentError ''failed to list namespaces for incident retention cleanup'' err), w)
                | Inr namespaces \<Rightarrow>
                    sweep_namespaces A ''graph pruning'' (\<lambda>w. graph_stale agent now graphTTL) (drop_graph A) namespaces w))"

section \<open>Reconciliation\<close>

text \<open>\<open>%q\<close> of a name: object names hold nothing that needs an escape.\<close>

definition quoted :: "string \<Rightarrow> string" where
  "quoted s = CHR 0x22 # s @ [CHR 0x22]"

text \<open>The message of the first secret that cannot be read.\<close>

fun missing_secret :: "'w agent_env \<Rightarrow> string \<Rightarrow> (string \<times> string) list \<Rightarrow> 'w \<Rightarrow> string option" where
  "missing_secret A ns [] w = None"
| "missing_secret A ns ((name, usage) # refs) w = (case av_get_secret A w ns name of
     Some err \<Rightarrow> Some (usage @ '' secret '' @ quoted name @ '' not found in namespace '' @ quoted ns @ '': '' @ av_error_text A err)
   | None \<Rightarrow> missing_secret A ns refs w)"

definition validateReferencedSecrets :: "'w agent_env \<Rightarrow> rca_agent \<Rightarrow> 'w \<Rightarrow> string option" where
  "validateReferencedSecrets A agent w = missing_secret A (aa_Namespace agent) (referencedSecretRefs agent) w"

text \<open>\<open>setCondition\<close>: the agent is read again, and what was written is the agent from then on.\<close>

definition setCondition ::
    "'w agent_env \<Rightarrow> rca_agent \<Rightarrow> string \<Rightarrow> string \<Rightarrow> string \<Rightarrow> string \<Rightarrow> 'w \<Rightarrow> (agent_error + rca_agent) \<times> 'w" where
  "setCondition A agent conditionType status reason message w =
     (case av_get_agent A w (aa_Namespace agent) (aa_Name agent) of
        Inl err \<Rightarrow> (Inl (AgentError ''failed to re-fetch RCAAgent before status patch'' err), w)
      | Inr current \<Rightarrow>
          (let cond = \<lparr>ac_Type = conditionType, ac_Status = status, ac_Reason = reason, ac_Message = message,
                       ac_ObservedGeneration = aa_Generation current\<rparr>
           in case av_patch_agent_status A w current
                     (current\<lparr>aa_Conditions := av_set_condition A cond (aa_Conditions current)\<rparr>) of
                (Inl err, w) \<Rightarrow> (Inl (AgentError ''failed to patch status condition'' err), w)
              | (Inr agent, w) \<Rightarrow> (Inr agent, w)))"

definition set_conditions ::
    "'w agent_env \<Rightarrow> rca_agent \<Rightarrow> (string \<times> string \<times> string \<times> string) list \<Rightarrow> 'w \<Rightarrow> agent_error option \<times> 'w" where
  "set_conditions A agent conds w = (case foldl
     (\<lambda>(res, w) (t, s, r, m). case res of Inl err \<Rightarrow> (res, w) | Inr agent \<Rightarrow> setCondition A agent t s r m w) (Inr agent, w) conds of
     (Inl err, w) \<Rightarrow> (Some err, w) | (Inr _, w) \<Rightarrow> (None, w))"

definition findRCAAgentsForSecret :: "'w agent_env \<Rightarrow> string \<Rightarrow> string \<Rightarrow> 'w \<Rightarrow> (string \<times> string) list" where
  "findRCAAgentsForSecret A ns secretName w = (case av_list_agents A w ns of
     Inl err \<Rightarrow> []
   | Inr agents \<Rightarrow> map agent_key (filter (\<lambda>agent. referencesSecret agent secretName) agents))"

definition rcaAgentFinalizer :: string where
  "rcaAgentFinalizer = ''rca.rca-operator.tech/finalizer''"

text \<open>The answer: \<open>Requeue\<close>, \<open>RequeueAfter\<close>, the error and the state.\<close>

type_synonym 'w agent_answer = "bool \<times> duration \<times> agent_error option \<times> 'w agent_state"

definition set_world :: "'w \<Rightarrow> 'w agent_state \<Rightarrow> 'w agent_state" where
  "set_world w st = st\<lparr>as_world := w\<rparr>"

definition finalize_agent :: "'w agent_env \<Rightarrow> rca_agent \<Rightarrow> string \<times> string \<Rightarrow> 'w agent_state \<Rightarrow> 'w agent_answer" where
  "finalize_agent A agent req st =
     (if rcaAgentFinalizer \<in> set (aa_Finalizers agent) then
        (let st = stopCollectors req st
         in case av_update_agent A (as_world st)
                   (agent\<lparr>aa_Finalizers := filter (\<lambda>f. f \<noteq> rcaAgentFinalizer) (aa_Finalizers agent)\<rparr>) of
              (Some err, w) \<Rightarrow> (False, 0, Some (AgentError ''failed to remove finalizer'' err), set_world w st)
            | (None, w) \<Rightarrow> (False, 0, None, set_world w st))
      else (False, 0, None, st))"

text \<open>The report sweeps in their order, each only after the one before succeeded.\<close>

definition maintain_reports :: "'w agent_env \<Rightarrow> gotime \<Rightarrow> rca_agent \<Rightarrow> 'w \<Rightarrow> agent_error option \<times> 'w" where
  "maintain_reports A now agent w =
     (case resolveOrphanedIncidents A now agent w of
        (Some err, w) \<Rightarrow> (Some err, w)
      | (None, w) \<Rightarrow>
          (case cleanupResolvedIncidents A now agent w of
             (Some err, w) \<Rightarrow> (Some err, w)
           | (None, w) \<Rightarrow> pruneStaleIncidentGraphs A now agent w))"

definition run_agent :: "'w agent_env \<Rightarrow> gotime \<Rightarrow> rca_agent \<Rightarrow> 'w agent_state \<Rightarrow> 'w agent_answer" where
  "run_agent A now agent st = (case ensureCollectorsRunning A agent st of
     (Some err, st) \<Rightarrow> (False, 0, Some err, st)
   | (None, st) \<Rightarrow>
       (case maintain_reports A now agent (as_world st) of
          (Some err, w) \<Rightarrow> (False, 0, Some err, set_world w st)
        | (None, w) \<Rightarrow>
            (case set_conditions A agent
                    [(''Available'', ''True'', ''AgentReady'',
                      ''RCAAgent is configured and watching '' @ itoa (int (length (ag_WatchNamespaces (aa_Spec agent)))) @ '' namespace(s)''),
                     (''Degraded'', ''False'', ''AgentHealthy'', ''All validations passed'')] w of
               (Some err, w) \<Rightarrow> (False, 0, Some err, set_world w st)
             | (None, w) \<Rightarrow> (False, minute, None, set_world w st))))"

definition agent_Reconcile :: "'w agent_env \<Rightarrow> gotime \<Rightarrow> string \<times> string \<Rightarrow> 'w agent_state \<Rightarrow> 'w agent_answer" where
  "agent_Reconcile A now req st = (case av_get_agent A (as_world st) (fst req) (snd req) of
     Inl NotFound \<Rightarrow> (False, 0, None, st)
   | Inl (KubeError m) \<Rightarrow> (False, 0, Some (AgentError ''failed to fetch RCAAgent'' (KubeError m)), st)
   | Inr agent \<Rightarrow>
       if aa_Deleting agent then finalize_agent A agent req st
       else if rcaAgentFinalizer \<notin> set (aa_Finalizers agent) then
         (case av_update_agent A (as_world st) (agent\<lparr>aa_Finalizers := aa_Finalizers agent @ [rcaAgentFinalizer]\<rparr>) of
            (Some err, w) \<Rightarrow> (False, 0, Some (AgentError ''failed to add finalizer'' err), set_world w st)
          | (None, w) \<Rightarrow> (True, 0, None, set_world w st))
       else case validateReferencedSecrets A agent (as_world st) of
              Some msg \<Rightarrow>
                (case set_conditions A agent [(''Available'', ''False'', ''SecretNotFound'', msg),
                                              (''Degraded'', ''True'', ''SecretNotFound'', msg)] (as_world st) of
                   (err, w) \<Rightarrow> (False, 0, err, set_world w st))
            | None \<Rightarrow> run_agent A now agent st)"

section \<open>One running set of collectors per agent\<close>

text \<open>
  No context is leaked or shared: the live contexts are exactly the registered ones, each once,
  and contexts are fresh.
\<close>

definition contexts :: "'w agent_state \<Rightarrow> string \<times> string \<rightharpoonup> nat" where
  "contexts st = (\<lambda>k. map_option fst (as_registry st k))"

definition collectors_ok :: "'w agent_state \<Rightarrow> bool" where
  "collectors_ok st \<longleftrightarrow>
     distinct (as_live st) \<and> (\<forall>c \<in> set (as_live st). c < as_next st) \<and>
     set (as_live st) = ran (contexts st) \<and> inj_on (contexts st) (dom (contexts st))"

lemma ran_remove: "inj_on m (dom m) \<Longrightarrow> m k = Some v \<Longrightarrow> ran (m(k := None)) = ran m - {v}"
proof -
  assume inj: "inj_on m (dom m)" and k: "m k = Some v"
  have "j = k" if "m j = Some v" for j using inj_onD [OF inj, of j k] k that by auto
  then have "m j = Some x \<and> j \<noteq> k \<longleftrightarrow> m j = Some x \<and> x \<noteq> v" for j x using k by (metis option.inject)
  then have "(\<exists>j. j \<noteq> k \<and> m j = Some x) \<longleftrightarrow> (\<exists>j. m j = Some x) \<and> x \<noteq> v" for x by blast
  then show "ran (m(k := None)) = ran m - {v}" by (auto simp: ran_def)
qed

lemma inj_remove: "inj_on m (dom m) \<Longrightarrow> inj_on (m(k := None)) (dom (m(k := None)))"
  by (auto simp: inj_on_def)

lemma inj_insert: "inj_on m (dom m) \<Longrightarrow> v \<notin> ran m \<Longrightarrow> inj_on (m(k \<mapsto> v)) (dom (m(k \<mapsto> v)))"
  by (auto simp: inj_on_def ran_def)

lemma contexts_simps [simp]:
  "contexts (st\<lparr>as_world := w\<rparr>) = contexts st" "contexts (set_world w st) = contexts st"
  "contexts (st\<lparr>as_handlers := hs\<rparr>) = contexts st"
  "contexts (st\<lparr>as_live := l\<rparr>) = contexts st" "contexts (st\<lparr>as_next := n\<rparr>) = contexts st"
  "contexts (st\<lparr>as_registry := (as_registry st)(k := e)\<rparr>) = (contexts st)(k := map_option fst e)"
  by (auto simp: contexts_def set_world_def)

lemma collectors_ok_world [simp]: "collectors_ok (set_world w st) = collectors_ok st"
  "collectors_ok (st\<lparr>as_world := w\<rparr>) = collectors_ok st" "collectors_ok (st\<lparr>as_handlers := hs\<rparr>) = collectors_ok st"
  by (simp_all add: collectors_ok_def) (simp add: set_world_def)

text \<open>Starting collectors changes the world and adds handlers, nothing else.\<close>

lemma start_each_state:
  "\<exists>w hs. snd (start_each A agent nss ctx kinds st) = st\<lparr>as_world := w, as_handlers := hs @ as_handlers st\<rparr>"
proof (induction kinds arbitrary: st)
  case Nil
  have "snd (start_each A agent nss ctx [] st) = st\<lparr>as_world := as_world st, as_handlers := [] @ as_handlers st\<rparr>" by simp
  then show ?case by blast
next
  case (Cons k kinds)
  let ?cfg = "collector_config_for agent nss k"
  obtain o1 w1 where s: "av_start A ?cfg ctx (as_world st) = (o1, w1)" by force
  show ?case
  proof (cases o1)
    case None
    have "\<exists>h. add_handler ctx ?cfg (st\<lparr>as_world := w1\<rparr>) = st\<lparr>as_world := w1, as_handlers := h @ as_handlers st\<rparr>"
    proof (cases "cc_Kind ?cfg = CronJobCollector")
      case True
      then show ?thesis by (intro exI [of _ "[]"]) (simp add: add_handler_def)
    next
      case False
      then show ?thesis by (intro exI [of _ "[(ctx, ?cfg)]"]) (simp add: add_handler_def)
    qed
    then obtain h where h: "add_handler ctx ?cfg (st\<lparr>as_world := w1\<rparr>) = st\<lparr>as_world := w1, as_handlers := h @ as_handlers st\<rparr>"
      by blast
    obtain w2 hs where "snd (start_each A agent nss ctx kinds (add_handler ctx ?cfg (st\<lparr>as_world := w1\<rparr>))) =
        st\<lparr>as_world := w2, as_handlers := hs @ h @ as_handlers st\<rparr>"
      using Cons.IH [of "add_handler ctx ?cfg (st\<lparr>as_world := w1\<rparr>)"] by (auto simp: h)
    then have "snd (start_each A agent nss ctx (k # kinds) st) = st\<lparr>as_world := w2, as_handlers := (hs @ h) @ as_handlers st\<rparr>"
      using s None by (simp add: Let_def)
    then show ?thesis by blast
  next
    case (Some err)
    then have "snd (start_each A agent nss ctx (k # kinds) st) = st\<lparr>as_world := w1, as_handlers := [] @ as_handlers st\<rparr>"
      using s by simp
    then show ?thesis by blast
  qed
qed

lemma start_each_obtain:
  assumes "start_each A agent nss ctx kinds st = (res, st')"
  obtains w hs where "st' = st\<lparr>as_world := w, as_handlers := hs @ as_handlers st\<rparr>"
  using start_each_state [of A agent nss ctx kinds st] assms by (metis snd_conv)

text \<open>What a call of \<open>ensureCollectorsRunning\<close> comes to, but for the world and the handlers.\<close>

lemma ensureCollectors_state:
  assumes "ensureCollectorsRunning A agent st = (res, st')"
  defines "st0 \<equiv> stopCollectors (agent_key agent) st"
  defines "st1 \<equiv> st0\<lparr>as_live := as_next st0 # as_live st0, as_next := as_next st0 + 1\<rparr>"
  obtains (same) "st' = st" "res = None"
    | (failed) err w hs where "res = Some err" "st' = (cancel_context (as_next st0) st1)\<lparr>as_world := w, as_handlers := hs @ as_handlers st\<rparr>"
    | (started) nss w hs where "res = None" "nss = normalizeNamespaces (ag_WatchNamespaces (aa_Spec agent))"
        "st' = st1\<lparr>as_registry := (as_registry st0)(agent_key agent \<mapsto> (as_next st0, nss)), as_world := w, as_handlers := hs @ as_handlers st\<rparr>"
proof -
  let ?nss = "normalizeNamespaces (ag_WatchNamespaces (aa_Spec agent))"
  have h: "as_handlers st1 = as_handlers st"
    by (simp add: st1_def st0_def stopCollectors_def cancel_context_def split: option.split)
  show thesis
  proof (cases "\<not> av_emitter A \<or> \<not> av_injected A PodCollector \<and> \<not> av_cache A \<or>
      map_option snd (as_registry st (agent_key agent)) = Some ?nss")
    case True
    then have "ensureCollectorsRunning A agent st = (None, st)" by (auto simp: ensureCollectorsRunning_def Let_def)
    then show thesis using assms(1) same by simp
  next
    case False
    obtain r2 st2 where s1: "start_each A agent ?nss (as_next st0) [PodCollector, EventCollector] st1 = (r2, st2)" by force
    then obtain w2 h2 where st2: "st2 = st1\<lparr>as_world := w2, as_handlers := h2 @ as_handlers st\<rparr>"
      using start_each_obtain [OF s1] h by metis
    obtain r3 st3 where s2: "startOptionalCollectors A agent ?nss (as_next st0) st2 = (r3, st3)" by force
    obtain w3 h3 where "st3 = st2\<lparr>as_world := w3, as_handlers := h3 @ as_handlers st2\<rparr>"
      using start_each_obtain [OF s2 [unfolded startOptionalCollectors_def]] .
    then have st3: "st3 = st1\<lparr>as_world := w3, as_handlers := h3 @ h2 @ as_handlers st\<rparr>" by (simp add: st2)
    have run: "(res, st') = (case r2 of
        Some err \<Rightarrow> (Some (AgentError ''failed to start collector'' err), cancel_context (as_next st0) st2)
      | None \<Rightarrow> (case r3 of
          Some err \<Rightarrow> (Some (AgentError ''failed to start collector'' err), cancel_context (as_next st0) st3)
        | None \<Rightarrow> (None, st3\<lparr>as_registry := (as_registry st3)(agent_key agent \<mapsto> (as_next st0, ?nss))\<rparr>)))"
    proof -
      have c: "av_emitter A" "(\<not> av_injected A PodCollector \<and> \<not> av_cache A) = False"
        "(map_option snd (as_registry st (agent_key agent)) = Some ?nss) = False"
        using False by blast+
      have "(res, st') = (case start_each A agent ?nss (as_next st0) [PodCollector, EventCollector] st1 of
          (Some err, st) \<Rightarrow> (Some (AgentError ''failed to start collector'' err), cancel_context (as_next st0) st)
        | (None, st) \<Rightarrow> (case startOptionalCollectors A agent ?nss (as_next st0) st of
            (Some err, st) \<Rightarrow> (Some (AgentError ''failed to start collector'' err), cancel_context (as_next st0) st)
          | (None, st) \<Rightarrow> (None, st\<lparr>as_registry := (as_registry st)(agent_key agent \<mapsto> (as_next st0, ?nss))\<rparr>)))"
        unfolding assms(1) [symmetric] ensureCollectorsRunning_def Let_def st0_def st1_def
        by (simp only: c not_True_eq_False if_False)
      then show ?thesis unfolding s1 by (cases r2; cases r3) (simp_all add: s2)
    qed
    show thesis
    proof (cases r2)
      case (Some err)
      then show thesis using run failed [where err = "AgentError ''failed to start collector'' err" and w = w2 and hs = h2]
        by (simp add: st2 cancel_context_def)
    next
      case None
      show thesis
      proof (cases r3)
        case (Some err)
        then show thesis using run None failed [where err = "AgentError ''failed to start collector'' err" and w = w3 and hs = "h3 @ h2"]
          by (simp add: st3 cancel_context_def)
      next
        case ok3: None
        show thesis using run None ok3 started [where nss = ?nss and w = w3 and hs = "h3 @ h2"] by (simp add: st3 st1_def)
      qed
    qed
  qed
qed

lemma stop_world [simp]: "as_world (stopCollectors key st) = as_world st" "as_next (stopCollectors key st) = as_next st"
  by (simp_all add: stopCollectors_def cancel_context_def split: option.splits)

lemma stop_ok:
  assumes "collectors_ok st"
  shows "collectors_ok (stopCollectors key st)" "contexts (stopCollectors key st) key = None"
proof -
  show "contexts (stopCollectors key st) key = None"
    by (simp add: stopCollectors_def cancel_context_def contexts_def split: option.splits)
  show "collectors_ok (stopCollectors key st)"
  proof (cases "as_registry st key")
    case (Some e)
    have c: "contexts st key = Some (fst e)" by (simp add: contexts_def Some)
    have inj: "inj_on (contexts st) (dom (contexts st))" using assms by (simp add: collectors_ok_def)
    have "contexts (stopCollectors key st) = (contexts st)(key := None)"
      "as_live (stopCollectors key st) = filter (\<lambda>x. x \<noteq> fst e) (as_live st)"
      by (simp_all add: stopCollectors_def cancel_context_def Some case_prod_unfold)
    then show ?thesis
      using assms ran_remove [OF inj c] inj_remove [OF inj, of key] by (auto simp: collectors_ok_def)
  qed (use assms in \<open>simp add: stopCollectors_def\<close>)
qed

lemma open_context:
  assumes "collectors_ok st" "contexts st key = None"
  defines "st' \<equiv> st\<lparr>as_live := as_next st # as_live st, as_next := as_next st + 1\<rparr>"
  shows "collectors_ok (cancel_context (as_next st) st')"
    and "collectors_ok (st'\<lparr>as_registry := (as_registry st)(key \<mapsto> (as_next st, nss))\<rparr>)"
proof -
  have fresh: "as_next st \<notin> set (as_live st)" "as_next st \<notin> ran (contexts st)"
    using assms(1) by (auto simp: collectors_ok_def)
  then have "as_live (cancel_context (as_next st) st') = as_live st"
    unfolding cancel_context_def st'_def by (auto intro: filter_True)
  moreover have "contexts (cancel_context (as_next st) st') = contexts st" "as_next (cancel_context (as_next st) st') = as_next st + 1"
    by (simp_all add: cancel_context_def st'_def)
  ultimately show "collectors_ok (cancel_context (as_next st) st')"
    using assms(1) by (auto simp: collectors_ok_def less_Suc_eq)
  have "contexts (st'\<lparr>as_registry := (as_registry st)(key \<mapsto> (as_next st, nss))\<rparr>) = (contexts st)(key \<mapsto> as_next st)"
    by (auto simp: contexts_def)
  then show "collectors_ok (st'\<lparr>as_registry := (as_registry st)(key \<mapsto> (as_next st, nss))\<rparr>)"
    using assms fresh inj_insert [of "contexts st" "as_next st" key]
    by (auto simp: collectors_ok_def ran_map_upd st'_def less_Suc_eq)
qed

lemma ensureCollectors_ok:
  assumes "collectors_ok st" "ensureCollectorsRunning A agent st = (res, st')"
  shows "collectors_ok st'"
  using assms(2)
proof (cases rule: ensureCollectors_state)
  case same
  then show ?thesis using assms(1) by simp
next
  case failed
  then show ?thesis using open_context(1) [OF stop_ok [OF assms(1), of "agent_key agent"]] by simp
next
  case (started nss w hs)
  then show ?thesis using open_context(2) [OF stop_ok [OF assms(1), of "agent_key agent"], of nss] by simp
qed

section \<open>What a sweep does\<close>

text \<open>
  The contract of a sweep: acting on a stored report either replaces it by \<open>g r\<close> (nothing, for a
  deletion) and nothing else, or fails and leaves the store alone; a report that is stored
  is not reported as missing; and acting does not change which reports are selected.
\<close>

locale report_sweep =
  fixes inv :: "'w \<Rightarrow> bool" and reports :: "'w \<Rightarrow> incident_report list"
    and act :: "'w \<Rightarrow> incident_report \<Rightarrow> kerr option \<times> 'w"
    and sel :: "'w \<Rightarrow> incident_report \<Rightarrow> bool"
    and g :: "incident_report \<Rightarrow> incident_report set"
  assumes keys: "inv w \<Longrightarrow> inj_on report_key (set (reports w))"
    and g_key: "x \<in> g r \<Longrightarrow> report_key x = report_key r"
    and act_done: "inv w \<Longrightarrow> r \<in> set (reports w) \<Longrightarrow> act w r = (None, w') \<Longrightarrow>
          inv w' \<and> set (reports w') = (set (reports w) - {r}) \<union> g r"
    and act_failed: "inv w \<Longrightarrow> r \<in> set (reports w) \<Longrightarrow> act w r = (Some e, w') \<Longrightarrow>
          inv w' \<and> set (reports w') = set (reports w) \<and> e \<noteq> NotFound"
    and sel_stable: "inv w \<Longrightarrow> r \<in> set (reports w) \<Longrightarrow> act w r = (res, w') \<Longrightarrow> sel w' = sel w"
begin

text \<open>\<open>swept w w' D\<close>: the reports \<open>D\<close> were acted on, and nothing else happened.\<close>

definition swept :: "'w \<Rightarrow> 'w \<Rightarrow> incident_report set \<Rightarrow> bool" where
  "swept w w' D \<longleftrightarrow> inv w' \<and> sel w' = sel w \<and> D \<subseteq> set (reports w) \<and>
     set (reports w') = (set (reports w) - D) \<union> \<Union> (g ` D)"

lemma swept_none: "inv w \<Longrightarrow> swept w w {}"
  by (simp add: swept_def)

lemma swept_keeps: "swept w w' D \<Longrightarrow> r \<in> set (reports w) \<Longrightarrow> r \<notin> D \<Longrightarrow> r \<in> set (reports w')"
  by (simp add: swept_def)

text \<open>A report that a sweep produced has the key of one it acted on.\<close>

lemma swept_key:
  assumes "inv w" "swept w w' D" "x \<in> set (reports w')" "report_key x \<notin> report_key ` D"
  shows "x \<in> set (reports w)"
  using assms g_key by (force simp: swept_def)

lemma swept_trans:
  assumes "inv w" "swept w w1 D1" "swept w1 w2 D2" "D2 \<subseteq> set (reports w) - D1"
  shows "swept w w2 (D1 \<union> D2)"
proof -
  have "x \<notin> D2" if "x \<in> g r" "r \<in> D1" for x r
  proof
    assume "x \<in> D2"
    then have "x \<in> set (reports w)" "r \<in> set (reports w)" "report_key x = report_key r" "x \<noteq> r"
      using that assms(2,4) g_key by (auto simp: swept_def)
    then show False using inj_onD [OF keys [OF assms(1)]] by blast
  qed
  then show ?thesis using assms(2-4) by (auto simp: swept_def)
qed

lemma sweep_effect:
  assumes "inv w" "set items \<subseteq> set (reports w)" "distinct items" "sweep sel act items w = (res, w')"
  shows "\<exists>D \<subseteq> {r \<in> set items. sel w r}. swept w w' D \<and> (res = None \<longrightarrow> D = {r \<in> set items. sel w r})"
  using assms
proof (induction items arbitrary: w)
  case Nil
  then show ?case by (auto intro: swept_none)
next
  case (Cons r rs)
  show ?case
  proof (cases "sel w r")
    case False
    then obtain D where "D \<subseteq> {r \<in> set rs. sel w r}" "swept w w' D" "res = None \<longrightarrow> D = {r \<in> set rs. sel w r}"
      using Cons.IH [OF Cons.prems(1)] Cons.prems by auto
    then show ?thesis using False by (intro exI [of _ D]) auto
  next
    case True
    obtain o1 w1 where act: "act w r = (o1, w1)" by force
    have r: "r \<in> set (reports w)" using Cons.prems(2) by simp
    show ?thesis
    proof (cases o1)
      case (Some e)
      then have f: "inv w1" "set (reports w1) = set (reports w)" "e \<noteq> NotFound" "sel w1 = sel w"
        using act_failed [OF Cons.prems(1) r] sel_stable [OF Cons.prems(1) r act] act by auto
      then have "res = Some e" "w' = w1" using Cons.prems(4) True act Some by (cases e; simp)+
      then show ?thesis using f by (intro exI [of _ "{}"]) (simp add: swept_def)
    next
      case None
      then have one: "swept w w1 {r}"
        using act_done [OF Cons.prems(1) r] sel_stable [OF Cons.prems(1) r act] act r by (auto simp: swept_def)
      then have inv1: "inv w1" "sel w1 = sel w" by (simp_all add: swept_def)
      have rs: "set rs \<subseteq> set (reports w1)"
        using Cons.prems(2,3) swept_keeps [OF one] by auto
      obtain D where D: "D \<subseteq> {x \<in> set rs. sel w x}" "swept w1 w' D" "res = None \<longrightarrow> D = {x \<in> set rs. sel w x}"
        using Cons.IH [OF inv1(1) rs] Cons.prems(3,4) True act None inv1(2) by auto
      have "swept w w' ({r} \<union> D)"
        using swept_trans [OF Cons.prems(1) one D(2)] D(1) Cons.prems(2,3) by auto
      then show ?thesis using D True by (intro exI [of _ "{r} \<union> D"]) auto
    qed
  qed
qed

lemma namespaces_effect:
  assumes list: "\<And>w ns rs. inv w \<Longrightarrow> k_list_reports (av_client A) w (Some ns) None = Inr rs \<Longrightarrow>
      distinct rs \<and> set rs = {r \<in> set (reports w). matches_selector (Some ns) None r}"
    and "inv w" "distinct nss" "[] \<notin> set nss" "sweep_namespaces A what sel act nss w = (res, w')"
  shows "\<exists>D \<subseteq> {r \<in> set (reports w). report_ns r \<in> set nss \<and> sel w r}. swept w w' D \<and>
    (res = None \<longrightarrow> D = {r \<in> set (reports w). report_ns r \<in> set nss \<and> sel w r})"
  using assms(2-)
proof (induction nss arbitrary: w)
  case Nil
  then show ?case by (auto intro: swept_none)
next
  case (Cons ns nss)
  show ?case
  proof (cases "k_list_reports (av_client A) w (Some ns) None")
    case (Inl e)
    then show ?thesis using Cons.prems by (intro exI [of _ "{}"]) (auto intro: swept_none)
  next
    case (Inr items)
    have items: "distinct items" "set items = {r \<in> set (reports w). report_ns r = ns}"
      using list [OF Cons.prems(1) Inr] Cons.prems(3) by (auto simp: matches_selector_def)
    obtain o1 w1 where sw: "sweep sel act items w = (o1, w1)" by force
    obtain D1 where D1: "D1 \<subseteq> {r \<in> set items. sel w r}" "swept w w1 D1" "o1 = None \<longrightarrow> D1 = {r \<in> set items. sel w r}"
      using sweep_effect [OF Cons.prems(1) _ items(1) sw] items(2) by auto
    show ?thesis
    proof (cases o1)
      case (Some e)
      then show ?thesis using D1 items(2) Inr sw Cons.prems(4) by (intro exI [of _ D1]) auto
    next
      case None
      have w1: "inv w1" "sel w1 = sel w" using D1(2) by (simp_all add: swept_def)
      have rest: "{r \<in> set (reports w1). report_ns r \<in> set nss \<and> sel w r} = {r \<in> set (reports w). report_ns r \<in> set nss \<and> sel w r}"
      proof -
        have "report_ns x = ns" if "x \<in> D1 \<or> x \<in> \<Union> (g ` D1)" for x
          using that D1(1) items(2) g_key by auto
        then show ?thesis using D1(2) Cons.prems(2) by (auto simp: swept_def)
      qed
      obtain D2 where D2: "D2 \<subseteq> {r \<in> set (reports w). report_ns r \<in> set nss \<and> sel w r}" "swept w1 w' D2"
        "res = None \<longrightarrow> D2 = {r \<in> set (reports w). report_ns r \<in> set nss \<and> sel w r}"
        using Cons.IH [OF w1(1)] Cons.prems(2-4) Inr sw None rest w1(2) by auto
      have "D2 \<subseteq> set (reports w) - D1" using D2(1) D1(1) items(2) Cons.prems(2) by auto
      from swept_trans [OF Cons.prems(1) D1(2) D2(2) this] show ?thesis
        using D1 D2 None items(2) by (intro exI [of _ "D1 \<union> D2"]) auto
    qed
  qed
qed

end

end
