(* ===== verification/Agent_Store.thy ===== *)
theory Agent_Store
  imports Agent
begin

text \<open>
  What the agent controller does to the reports: the laws of its API server, the three sweeps
  as instances of \<open>report_sweep\<close>, and what a reconciliation leaves.
\<close>

section \<open>The API server of the agent controller\<close>

text \<open>
  Beyond the laws of the report store: what a deletion does, that a stored report is not answered
  as missing, that writing a status does not touch pods, and that the operations on agents and
  the start of collectors leave reports alone.
\<close>

locale agent_store = report_store "av_client A" inv reports
  for A :: "'w agent_env" and inv :: "'w \<Rightarrow> bool" and reports :: "'w \<Rightarrow> incident_report list" +
  assumes delete_done: "inv w \<Longrightarrow> r \<in> set (reports w) \<Longrightarrow> av_delete_report A w r = (None, w') \<Longrightarrow>
        inv w' \<and> set (reports w') = set (reports w) - {r}"
    and delete_failed: "inv w \<Longrightarrow> r \<in> set (reports w) \<Longrightarrow> av_delete_report A w r = (Some e, w') \<Longrightarrow>
        inv w' \<and> reports w' = reports w \<and> e \<noteq> NotFound"
    and patch_found: "inv w \<Longrightarrow> r \<in> set (reports w) \<Longrightarrow> k_patch_status (av_client A) w r m \<noteq> (Inl NotFound, w')"
    and patch_pods: "inv w \<Longrightarrow> k_patch_status (av_client A) w r m = (res, w') \<Longrightarrow>
        k_get_pod (av_client A) w' = k_get_pod (av_client A) w"
    and observe_pods: "inv w \<Longrightarrow> k_get_pod (av_client A) (k_observe (av_client A) w ob) = k_get_pod (av_client A) w"
    and update_agent_frame: "inv w \<Longrightarrow> av_update_agent A w agent = (oe, w') \<Longrightarrow> inv w' \<and> reports w' = reports w"
    and patch_agent_frame: "inv w \<Longrightarrow> av_patch_agent_status A w base agent = (ag, w') \<Longrightarrow> inv w' \<and> reports w' = reports w"
    and start_frame: "inv w \<Longrightarrow> av_start A cfg ctx w = (oe, w') \<Longrightarrow> inv w' \<and> reports w' = reports w"
    and namespace_names: "av_list_namespaces A w = Inr names \<Longrightarrow> distinct names \<and> [] \<notin> set names"
begin

lemma status_act:
  assumes "inv w" "r \<in> set (reports w)" "patch_result (k_patch_status (av_client A) w r (r\<lparr>ir_Status := s\<rparr>)) = (res, w')"
  shows "inv w'" and "res = None \<Longrightarrow> set (reports w') = (set (reports w) - {r}) \<union> {with_status s r}"
    and "res = Some e \<Longrightarrow> set (reports w') = set (reports w) \<and> e \<noteq> NotFound"
    and "k_get_pod (av_client A) w' = k_get_pod (av_client A) w"
proof -
  obtain x where p: "k_patch_status (av_client A) w r (r\<lparr>ir_Status := s\<rparr>) = (x, w')" "res = (case x of Inl e \<Rightarrow> Some e | Inr _ \<Rightarrow> None)"
    using assms(3) by (auto simp: patch_result_def split: prod.splits sum.splits)
  note q = status_put [OF assms(1,2) p(1)]
  show "inv w'" by (rule q(1))
  show "res = None \<Longrightarrow> set (reports w') = (set (reports w) - {r}) \<union> {with_status s r}"
  proof -
    assume "res = None"
    then obtain r' where "x = Inr r'" using p(2) by (auto split: sum.splits)
    then have "set (reports w') = put_report (with_status s r) (set (reports w))" using q(3) by auto
    moreover have "report_key y = report_key r \<longleftrightarrow> y = r" if "y \<in> set (reports w)" for y
      using inj_onD [OF keys_inj [OF assms(1)] _ that assms(2)] by auto
    ultimately show ?thesis by (auto simp: put_report_def)
  qed
  show "res = Some e \<Longrightarrow> set (reports w') = set (reports w) \<and> e \<noteq> NotFound"
    using p q(2) patch_found [OF assms(1,2)] by (auto split: sum.splits)
  show "k_get_pod (av_client A) w' = k_get_pod (av_client A) w" using patch_pods [OF assms(1) p(1)] .
qed

lemma observe_client_frame: "inv w \<Longrightarrow> inv (observe_client (av_client A) obs w) \<and>
    reports (observe_client (av_client A) obs w) = reports w \<and>
    k_get_pod (av_client A) (observe_client (av_client A) obs w) = k_get_pod (av_client A) w"
  unfolding observe_client_def by (induction obs arbitrary: w) (simp_all add: observe_frame observe_pods)

lemma orphaned_cong: "k_get_pod (av_client A) w' = k_get_pod (av_client A) w \<Longrightarrow> orphaned A agent w' = orphaned A agent w"
  by (simp add: fun_eq_iff orphaned_def pod_gone_def)

lemma retentionNamespaces_ok:
  "retentionNamespaces A agent w = Inr nss \<Longrightarrow> distinct nss \<and> [] \<notin> set nss"
  using normalizeNamespaces_spec [of "ag_WatchNamespaces (aa_Spec agent)"] namespace_names
  by (auto simp: retentionNamespaces_def Let_def split: if_splits sum.splits)

end

sublocale agent_store \<subseteq> expiry: report_sweep inv reports "av_delete_report A" "\<lambda>w. expired agent now d" "\<lambda>r. {}"
  for agent now d
proof (unfold_locales, goal_cases)
  case (1 w)
  then show ?case by (rule keys_inj)
next
  case (3 w r w')
  from delete_done [OF 3] show ?case by simp
next
  case (4 w r e w')
  from delete_failed [OF 4] show ?case by simp
qed simp_all

sublocale agent_store \<subseteq> graphs: report_sweep inv reports "drop_graph A" "\<lambda>w. graph_stale agent now ttl"
    "\<lambda>r. {with_status ((ir_Status r)\<lparr>st_IncidentGraph := None\<rparr>) r}"
  for agent now ttl
proof (unfold_locales, goal_cases)
  case (1 w)
  then show ?case by (rule keys_inj)
next
  case (3 w r w')
  then show ?case unfolding drop_graph_def using status_act(1) [OF 3(1,2)] status_act(2) [OF 3(1,2)] by blast
next
  case (4 w r e w')
  then show ?case unfolding drop_graph_def using status_act(1) [OF 4(1,2)] status_act(3) [OF 4(1,2)] by blast
qed simp_all

sublocale agent_store \<subseteq> orphans: report_sweep inv reports "resolve_orphan A now" "orphaned A agent"
    "\<lambda>r. {resolved_report now orphan_reason r}"
  for agent now
proof (unfold_locales, goal_cases)
  case (1 w)
  then show ?case by (rule keys_inj)
next
  case (2 x r)
  then show ?case by simp
next
  case (3 w r w')
  let ?w = "observe_client (av_client A) (snd (MarkResolved (ir_Status r) now orphan_reason)) w"
  have w: "inv ?w" "r \<in> set (reports ?w)" "reports ?w = reports w" using observe_client_frame 3(1,2) by auto
  have p: "patch_result (k_patch_status (av_client A) ?w r (r\<lparr>ir_Status := fst (MarkResolved (ir_Status r) now orphan_reason)\<rparr>)) = (None, w')"
    using 3(3) by (simp add: resolve_orphan_def case_prod_unfold Let_def)
  from status_act(1,2) [OF w(1,2) p] w(3) show ?case by (simp add: resolved_report_def)
next
  case (4 w r e w')
  let ?w = "observe_client (av_client A) (snd (MarkResolved (ir_Status r) now orphan_reason)) w"
  have w: "inv ?w" "r \<in> set (reports ?w)" "reports ?w = reports w" using observe_client_frame 4(1,2) by auto
  have p: "patch_result (k_patch_status (av_client A) ?w r (r\<lparr>ir_Status := fst (MarkResolved (ir_Status r) now orphan_reason)\<rparr>)) = (Some e, w')"
    using 4(3) by (simp add: resolve_orphan_def case_prod_unfold Let_def)
  from status_act(1,3) [OF w(1,2) p] w(3) show ?case by simp
next
  case (5 w r res w')
  let ?w = "observe_client (av_client A) (snd (MarkResolved (ir_Status r) now orphan_reason)) w"
  have w: "inv ?w" "r \<in> set (reports ?w)" "k_get_pod (av_client A) ?w = k_get_pod (av_client A) w"
    using observe_client_frame 5(1,2) by auto
  have p: "patch_result (k_patch_status (av_client A) ?w r (r\<lparr>ir_Status := fst (MarkResolved (ir_Status r) now orphan_reason)\<rparr>)) = (res, w')"
    using 5(3) by (simp add: resolve_orphan_def case_prod_unfold Let_def)
  from status_act(4) [OF w(1,2) p] w(3) have "k_get_pod (av_client A) w' = k_get_pod (av_client A) w" by simp
  then show ?case by (rule orphaned_cong)
qed

section \<open>The reports that a reconciliation leaves\<close>

text \<open>\<open>inherits r x\<close>: \<open>x\<close> takes the place of \<open>r\<close> without breaking what the registry relies on.\<close>

definition inherits :: "incident_report \<Rightarrow> incident_report \<Rightarrow> bool" where
  "inherits r x \<longleftrightarrow> report_key x = report_key r \<and> (logs_bounded r \<longrightarrow> logs_bounded x) \<and>
     (is_open x \<longrightarrow> is_open r \<and> om_Labels (ir_Meta x) = om_Labels (ir_Meta r) \<and> reportFingerprint x = reportFingerprint r)"

lemma store_inherits:
  assumes "store_ok sha1 rs" "\<forall>x \<in> set rs'. \<exists>r \<in> set rs. inherits r x"
  shows "store_ok sha1 rs'"
proof -
  obtain h where h: "\<And>x. x \<in> set rs' \<Longrightarrow> h x \<in> set rs \<and> inherits (h x) x" using assms(2) by metis
  have reg: "unique_open (set rs)" "\<forall>r \<in> set rs. is_open r \<longrightarrow> hash_labelled sha1 r" and logs: "\<forall>r \<in> set rs. logs_bounded r"
    using assms(1) by (simp_all add: store_ok_def registry_ok_def list_all_iff)
  have "unique_open (set rs')"
    unfolding unique_open_def
  proof (intro ballI impI allI notI)
    fix a x
    assume a: "a \<in> set rs'" "is_open a" and riv: "rival (set rs') a (reportFingerprint a) x"
    have ha: "h a \<in> set rs" "inherits (h a) a" and hx: "h x \<in> set rs" "inherits (h x) x"
      using h a(1) riv by (simp_all add: rival_def)
    have "is_open (h a)" "rival (set rs) (h a) (reportFingerprint (h a)) (h x)"
      using riv ha hx a(2) by (simp_all add: rival_def inherits_def)
    then show False using reg(1) ha(1) unfolding unique_open_def by blast
  qed
  moreover have "hash_labelled sha1 a" if "a \<in> set rs'" "is_open a" for a
    using h [OF that(1)] that(2) reg(2) by (simp add: inherits_def hash_labelled_def)
  moreover have "logs_bounded a" if "a \<in> set rs'" for a
    using h [OF that] logs by (simp add: inherits_def)
  ultimately show ?thesis by (simp add: store_ok_def registry_ok_def list_all_iff)
qed

lemma inherits_refl [simp]: "inherits r r"
  by (simp add: inherits_def)

lemma inherits_resolved: "inherits r (resolved_report now reason r)"
  by (simp add: inherits_def) (simp add: resolved_report_def logs_bounded_def MarkResolved_timeline)

lemma advances_inherits: "advances r x \<Longrightarrow> inherits r x"
  using advances_fingerprint [of r x] by (auto simp: inherits_def advances_def phase_step_def is_open_def)

lemma inherits_no_graph: "inherits r (with_status ((ir_Status r)\<lparr>st_IncidentGraph := None\<rparr>) r)"
  by (rule advances_inherits) (simp add: advances_def logs_bounded_def)

lemma inherits_trans: "inherits r x \<Longrightarrow> inherits x y \<Longrightarrow> inherits r y"
  by (simp add: inherits_def)

text \<open>The reports the retention period ends, and those whose pods are gone, in the namespaces of the agent.\<close>

definition due_reports :: "rca_agent \<Rightarrow> gotime \<Rightarrow> duration \<Rightarrow> string list \<Rightarrow> incident_report set \<Rightarrow> incident_report set" where
  "due_reports agent now d nss S = {r \<in> S. report_ns r \<in> set nss \<and> belongsToAgent r (aa_Name agent) \<and>
     shouldPruneIncidentReport r now d}"

definition orphan_reports :: "'w agent_env \<Rightarrow> rca_agent \<Rightarrow> 'w \<Rightarrow> string list \<Rightarrow> incident_report set \<Rightarrow> incident_report set" where
  "orphan_reports A agent w nss S = {r \<in> S. report_ns r \<in> set nss \<and> belongsToAgent r (aa_Name agent) \<and>
     report_phase r \<noteq> ''Resolved'' \<and> pod_gone A w r}"

context agent_store
begin

lemma cleanup_effect:
  assumes "inv w" "agent_retention agent = Inr d" "retentionNamespaces A agent w = Inr nss"
    and "cleanupResolvedIncidents A now agent w = (res, w')"
  shows "inv w' \<and> (\<exists>D \<subseteq> due_reports agent now d nss (set (reports w)).
    set (reports w') = set (reports w) - D \<and> (res = None \<longrightarrow> D = due_reports agent now d nss (set (reports w))))"
proof -
  have due: "due_reports agent now d nss S = {r \<in> S. report_ns r \<in> set nss \<and> expired agent now d r}" for S
    by (auto simp: due_reports_def expired_def)
  have run: "sweep_namespaces A ''retention cleanup'' (\<lambda>w. expired agent now d) (av_delete_report A) nss w = (res, w')"
    using assms by (simp add: cleanupResolvedIncidents_def)
  from expiry.namespaces_effect [OF list_stored assms(1) _ _ run] retentionNamespaces_ok [OF assms(3)]
  show ?thesis unfolding due expiry.swept_def by auto
qed

lemma orphan_effect:
  assumes "inv w" "retentionNamespaces A agent w = Inr nss" "resolveOrphanedIncidents A now agent w = (res, w')"
  shows "inv w' \<and> (\<exists>D \<subseteq> orphan_reports A agent w nss (set (reports w)).
    set (reports w') = (set (reports w) - D) \<union> resolved_report now orphan_reason ` D \<and>
    (res = None \<longrightarrow> D = orphan_reports A agent w nss (set (reports w))))"
proof -
  have orph: "orphan_reports A agent w nss S = {r \<in> S. report_ns r \<in> set nss \<and> orphaned A agent w r}" for S
    by (auto simp: orphan_reports_def orphaned_def)
  have run: "sweep_namespaces A ''orphan check'' (orphaned A agent) (resolve_orphan A now) nss w = (res, w')"
    using assms by (simp add: resolveOrphanedIncidents_def)
  have "(\<Union>r \<in> D. {resolved_report now orphan_reason r}) = resolved_report now orphan_reason ` D" for D by auto
  with orphans.namespaces_effect [OF list_stored assms(1) _ _ run] retentionNamespaces_ok [OF assms(2)]
  show ?thesis unfolding orph orphans.swept_def by auto
qed

text \<open>\<open>kept w w'\<close>: every report of \<open>w'\<close> inherits from one of \<open>w\<close>.\<close>

definition kept :: "'w \<Rightarrow> 'w \<Rightarrow> bool" where
  "kept w w' \<longleftrightarrow> inv w' \<and> (\<forall>x \<in> set (reports w'). \<exists>r \<in> set (reports w). inherits r x)"

lemma kept_same: "inv w' \<Longrightarrow> set (reports w') = set (reports w) \<Longrightarrow> kept w w'"
  unfolding kept_def using inherits_refl by blast

lemma kept_trans: "kept w w1 \<Longrightarrow> kept w1 w2 \<Longrightarrow> kept w w2"
  unfolding kept_def by (meson inherits_trans)

lemma kept_replaced:
  assumes "inv w'" "D \<subseteq> set (reports w)" "set (reports w') = (set (reports w) - D) \<union> h ` D" "\<And>r. inherits r (h r)"
  shows "kept w w'"
  using assms unfolding kept_def by (auto intro: inherits_refl)

lemma orphan_kept:
  assumes "inv w" "resolveOrphanedIncidents A now agent w = (res, w')"
  shows "kept w w'"
proof (cases "retentionNamespaces A agent w")
  case (Inl e)
  then show ?thesis using assms by (simp add: resolveOrphanedIncidents_def kept_same)
next
  case (Inr nss)
  obtain D where "inv w'" "D \<subseteq> orphan_reports A agent w nss (set (reports w))"
    "set (reports w') = (set (reports w) - D) \<union> resolved_report now orphan_reason ` D"
    using orphan_effect [OF assms(1) Inr assms(2)] by blast
  moreover have "orphan_reports A agent w nss (set (reports w)) \<subseteq> set (reports w)" by (auto simp: orphan_reports_def)
  ultimately show ?thesis by (intro kept_replaced [OF _ _ _ inherits_resolved]) auto
qed

lemma cleanup_kept:
  assumes "inv w" "cleanupResolvedIncidents A now agent w = (res, w')"
  shows "kept w w'"
proof (cases "agent_retention agent")
  case (Inl e)
  then show ?thesis using assms by (simp add: cleanupResolvedIncidents_def kept_same)
next
  case d: (Inr d)
  show ?thesis
  proof (cases "retentionNamespaces A agent w")
    case (Inl e)
    then show ?thesis using d assms by (simp add: cleanupResolvedIncidents_def kept_same)
  next
    case (Inr nss)
    from cleanup_effect [OF assms(1) d Inr assms(2)] show ?thesis by (auto simp: kept_def intro: inherits_refl)
  qed
qed

lemma prune_kept:
  assumes "inv w" "pruneStaleIncidentGraphs A now agent w = (res, w')"
  shows "kept w w'"
proof (cases "w' = w")
  case True
  then show ?thesis using assms(1) by (simp add: kept_same)
next
  case False
  then obtain ttl nss where nss: "retentionNamespaces A agent w = Inr nss"
    and run: "sweep_namespaces A ''graph pruning'' (\<lambda>w. graph_stale agent now ttl) (drop_graph A) nss w = (res, w')"
    using assms(2) by (auto simp: pruneStaleIncidentGraphs_def Let_def split: sum.splits if_splits)
  have "(\<Union>r \<in> D. {with_status ((ir_Status r)\<lparr>st_IncidentGraph := None\<rparr>) r}) = (\<lambda>r. with_status ((ir_Status r)\<lparr>st_IncidentGraph := None\<rparr>) r) ` D" for D
    by auto
  with graphs.namespaces_effect [OF list_stored assms(1) _ _ run] retentionNamespaces_ok [OF nss]
  obtain D where "inv w'" "D \<subseteq> set (reports w)"
    "set (reports w') = (set (reports w) - D) \<union> (\<lambda>r. with_status ((ir_Status r)\<lparr>st_IncidentGraph := None\<rparr>) r) ` D"
    unfolding graphs.swept_def by auto
  then show ?thesis using kept_replaced inherits_no_graph by blast
qed

lemma maintain_kept:
  assumes "inv w" "maintain_reports A now agent w = (res, w')"
  shows "kept w w'"
proof -
  obtain o1 w1 where r1: "resolveOrphanedIncidents A now agent w = (o1, w1)" by force
  obtain o2 w2 where r2: "cleanupResolvedIncidents A now agent w1 = (o2, w2)" by force
  have k1: "kept w w1" using orphan_kept [OF assms(1) r1] .
  then have k2: "kept w1 w2" using cleanup_kept r2 unfolding kept_def by blast
  then have k3: "kept w2 w'" if "pruneStaleIncidentGraphs A now agent w2 = (res, w')"
    using prune_kept that unfolding kept_def by blast
  show ?thesis
    using assms(2) r1 r2 k1 kept_trans [OF k1 k2] kept_trans [OF kept_trans [OF k1 k2] k3]
    by (auto simp: maintain_reports_def split: option.splits)
qed

lemma set_condition_frame:
  assumes "inv w" "setCondition A agent t s r m w = (res, w')"
  shows "inv w' \<and> reports w' = reports w"
  using assms patch_agent_frame unfolding setCondition_def Let_def by (auto split: sum.splits prod.splits)

lemma set_conditions_frame:
  assumes "inv w" "set_conditions A agent conds w = (res, w')"
  shows "inv w' \<and> reports w' = reports w"
proof -
  let ?f = "\<lambda>(res, w) (t, s, r, m). case res of Inl err \<Rightarrow> (res, w) | Inr agent \<Rightarrow> setCondition A agent t s r m w"
  have "inv (snd (foldl ?f x conds)) \<and> reports (snd (foldl ?f x conds)) = reports w" if "inv (snd x)" "reports (snd x) = reports w" for x
    using that
  proof (induction conds arbitrary: x)
    case (Cons c conds)
    have "inv (snd (?f x c)) \<and> reports (snd (?f x c)) = reports w"
      using Cons.prems
      by (cases x; cases c) (auto split: sum.splits dest: set_condition_frame [OF _ prod.collapse [symmetric]])
    then show ?case using Cons.IH [of "?f x c"] by simp
  qed simp
  from this [of "(Inr agent, w)"] show ?thesis
    using assms by (auto simp: set_conditions_def split: prod.splits sum.splits)
qed

lemma start_each_frame:
  "inv (as_world st) \<Longrightarrow> start_each A agent nss ctx kinds st = (res, st') \<Longrightarrow>
    inv (as_world st') \<and> reports (as_world st') = reports (as_world st)"
proof (induction kinds arbitrary: st)
  case (Cons k kinds)
  let ?cfg = "collector_config_for agent nss k"
  obtain o1 w1 where s: "av_start A ?cfg ctx (as_world st) = (o1, w1)" by force
  note f = start_frame [OF Cons.prems(1) s]
  show ?case
  proof (cases o1)
    case None
    then show ?thesis using Cons.prems(2) Cons.IH [of "add_handler ctx ?cfg (st\<lparr>as_world := w1\<rparr>)"] s f by (simp add: Let_def)
  next
    case (Some err)
    then have "st' = st\<lparr>as_world := w1\<rparr>" using Cons.prems(2) s by simp
    then show ?thesis using f by simp
  qed
qed simp

lemma ensure_frame:
  assumes "inv (as_world st)" "ensureCollectorsRunning A agent st = (res, st')"
  shows "inv (as_world st') \<and> reports (as_world st') = reports (as_world st)"
proof -
  let ?nss = "normalizeNamespaces (ag_WatchNamespaces (aa_Spec agent))"
  define st1 where "st1 = (stopCollectors (agent_key agent) st)\<lparr>as_live := as_next st # as_live (stopCollectors (agent_key agent) st),
      as_next := as_next st + 1\<rparr>"
  have w: "as_world st1 = as_world st" by (simp add: st1_def)
  obtain o2 st2 where s1: "start_each A agent ?nss (as_next st) [PodCollector, EventCollector] st1 = (o2, st2)" by force
  obtain o3 st3 where s2: "startOptionalCollectors A agent ?nss (as_next st) st2 = (o3, st3)" by force
  have f1: "inv (as_world st2)" "reports (as_world st2) = reports (as_world st)"
    using start_each_frame [OF _ s1] assms(1) by (simp_all add: w)
  then have f2: "inv (as_world st3)" "reports (as_world st3) = reports (as_world st)"
    using start_each_frame [OF _ s2 [unfolded startOptionalCollectors_def]] by simp_all
  show ?thesis
    using assms s1 s2 f1 f2
    by (auto simp: ensureCollectorsRunning_def Let_def cancel_context_def st1_def simp del: start_each.simps
        split: if_splits option.splits)
qed

lemma run_kept:
  assumes "inv (as_world st)" "run_agent A now agent st = (rq, after, err, st')"
  shows "kept (as_world st) (as_world st')"
proof -
  obtain o1 s1 where e: "ensureCollectorsRunning A agent st = (o1, s1)" by force
  obtain o2 w2 where m: "maintain_reports A now agent (as_world s1) = (o2, w2)" by force
  have f: "inv (as_world s1)" "kept (as_world st) (as_world s1)"
    using ensure_frame [OF assms(1) e] kept_same by simp_all
  have k: "kept (as_world st) w2" using kept_trans [OF f(2) maintain_kept [OF f(1) m]] .
  then have c: "kept (as_world st) w'" if "set_conditions A agent conds w2 = (res, w')" for conds res w'
    using set_conditions_frame [OF _ that] by (simp add: kept_def)
  show ?thesis
    using assms(2) e m f k c
    by (auto simp: run_agent_def set_world_def split: option.splits prod.splits)
qed

lemma reconcile_kept:
  assumes "inv (as_world st)" "agent_Reconcile A now req st = (rq, after, err, st')"
  shows "kept (as_world st) (as_world st')"
proof -
  have u: "kept (as_world st) w'" if "av_update_agent A (as_world st) agent = (res, w')" for agent res w'
    using update_agent_frame [OF assms(1) that] kept_same by simp
  have c: "kept (as_world st) w'" if "set_conditions A agent conds (as_world st) = (res, w')" for agent conds res w'
    using set_conditions_frame [OF assms(1) that] kept_same by simp
  have r: "kept (as_world st) (as_world st')" if "run_agent A now agent st = (rq, after, err, st')" for agent
    using run_kept [OF assms(1) that] .
  show ?thesis
    using assms(2) u c r kept_same [OF assms(1)]
    by (auto simp: agent_Reconcile_def finalize_agent_def set_world_def Let_def split: sum.splits kerr.splits if_splits option.splits prod.splits)
qed

lemma reconcile_store:
  assumes "inv (as_world st)" "store_ok sha1 (reports (as_world st))" "agent_Reconcile A now req st = (rq, after, err, st')"
  shows "inv (as_world st') \<and> store_ok sha1 (reports (as_world st'))"
  using reconcile_kept [OF assms(1,3)] store_inherits [OF assms(2)] unfolding kept_def by blast

end

section \<open>Collectors after a reconciliation\<close>

lemma ensureCollectors_running:
  assumes "ensureCollectorsRunning A agent st = (None, st')" "av_emitter A" "av_cache A"
  shows "map_option snd (as_registry st' (agent_key agent)) = Some (normalizeNamespaces (ag_WatchNamespaces (aa_Spec agent)))"
  using assms
  by (auto simp: ensureCollectorsRunning_def Let_def simp del: start_each.simps split: if_splits option.splits prod.splits)

lemma set_world_same [simp]: "set_world (as_world st) st = st"
  by (simp add: set_world_def)

lemma set_world_registry [simp]: "as_registry (set_world w st) = as_registry st"
  by (simp add: set_world_def)

lemma run_agent_registry:
  assumes "run_agent A now agent st = (rq, after, err, st')"
  obtains o1 s1 w where "ensureCollectorsRunning A agent st = (o1, s1)" "st' = set_world w s1" "err = None \<Longrightarrow> o1 = None"
proof -
  obtain o1 s1 where e: "ensureCollectorsRunning A agent st = (o1, s1)" by force
  moreover have "st' = set_world (as_world st') s1 \<and> (err = None \<longrightarrow> o1 = None)"
    using assms e by (auto simp: run_agent_def set_world_def split: option.splits prod.splits)
  ultimately show thesis using that by blast
qed

lemma stop_registry [simp]: "as_registry (stopCollectors key st) key = None"
  by (simp add: stopCollectors_def cancel_context_def split: option.splits)

section \<open>The in-memory store as environment\<close>

definition mem_delete :: "mem_world \<Rightarrow> incident_report \<Rightarrow> kerr option \<times> mem_world" where
  "mem_delete w r = (case lookup_report (mw_reports w) (report_key r) of
     None \<Rightarrow> (Some NotFound, w)
   | Some _ \<Rightarrow> (None, w\<lparr>mw_reports := filter (\<lambda>x. report_key x \<noteq> report_key r) (mw_reports w)\<rparr>))"

text \<open>One agent, all its secrets there, collectors that start.\<close>

definition mem_agents :: "rca_agent \<Rightarrow> mem_world agent_env" where
  "mem_agents agent = \<lparr>av_client = mem_client, av_delete_report = mem_delete, av_list_namespaces = (\<lambda>w. Inr [''default'', ''shop'']),
     av_get_secret = (\<lambda>w ns name. None),
     av_get_agent = (\<lambda>w ns name. if (ns, name) = agent_key agent then Inr agent else Inl NotFound),
     av_list_agents = (\<lambda>w ns. Inr (if ns = aa_Namespace agent then [agent] else [])),
     av_update_agent = (\<lambda>w a. (None, w)), av_patch_agent_status = (\<lambda>w base a. (Inr a, w)),
     av_set_condition = (\<lambda>c cs. c # filter (\<lambda>x. ac_Type x \<noteq> ac_Type c) cs), av_error_text = (\<lambda>e. []),
     av_emitter = True, av_cache = True, av_injected = (\<lambda>k. False), av_start = (\<lambda>cfg ctx w. (None, w))\<rparr>"

definition sample_agent :: rca_agent where
  "sample_agent = \<lparr>aa_Name = ''agent'', aa_Namespace = ''rca'', aa_Deleting = False, aa_Finalizers = [rcaAgentFinalizer],
     aa_Generation = 1,
     aa_Spec = \<lparr>ag_WatchNamespaces = [''shop''], ag_Notifications = None, ag_IncidentRetention = ''5m'',
               ag_IncidentRetentionDays = 0, ag_OTel = None\<rparr>,
     aa_Conditions = []\<rparr>"

lemma mem_delete_stored:
  assumes "mem_inv w" "r \<in> set (mw_reports w)"
  shows "\<exists>w'. mem_delete w r = (None, w') \<and> mem_inv w' \<and> set (mw_reports w') = set (mw_reports w) - {r}"
  using mem.stored_lookup [OF assms] inj_onD [OF mem.keys_inj [OF assms(1)] _ _ assms(2)] assms
  by (auto simp: mem_delete_def mem_inv_def keys_distinct_def distinct_map_filter)

interpretation mem_agent: agent_store "mem_agents agent" mem_inv mw_reports for agent
proof (intro agent_store.intro agent_store_axioms.intro, goal_cases)
  case 1
  then show ?case using mem.report_store_axioms by (simp add: mem_agents_def)
next
  case (2 w r w')
  then show ?case using mem_delete_stored [of w r] by (auto simp: mem_agents_def)
next
  case (3 w r e w')
  then show ?case using mem_delete_stored [of w r] by (auto simp: mem_agents_def)
next
  case (4 w r m w')
  then show ?case using mem.stored_lookup [of w r] by (simp add: mem_agents_def mem_client_sel mem_put_def)
qed (auto simp: mem_agents_def mem_client_def mem_put_def split: option.splits)

lemma mem_agent_store: "agent_store (mem_agents agent) mem_inv mw_reports"
  by (rule mem_agent.agent_store_axioms)

lemma sample_agent_env:
  "agent_retention sample_agent = Inr (5 * minute)" "retentionNamespaces (mem_agents sample_agent) sample_agent w = Inr [''shop'']"
  "normalizeNamespaces (ag_WatchNamespaces (aa_Spec sample_agent)) = [''shop'']"
proof -
  have "itoa 5 = ''5''" by code_simp
  then have "parseRetentionDuration ''5m'' = Inr (5 * minute)"
    using parse_retention_exact [of 5 "CHR ''m''" minute] by (simp add: retention_unit_def minute_def second_def max_int64_def)
  moreover have "trim_space ''5m'' = ''5m''" "trim_space ''shop'' = ''shop''"
    by (simp_all add: trim_space_def trim_cut_def trim_left_def trim_right_def is_space_def)
  ultimately show "agent_retention sample_agent = Inr (5 * minute)"
    "retentionNamespaces (mem_agents sample_agent) sample_agent w = Inr [''shop'']"
    "normalizeNamespaces (ag_WatchNamespaces (aa_Spec sample_agent)) = [''shop'']"
    by (simp_all add: agent_retention_def sample_agent_def ParseIncidentRetention_def retentionNamespaces_def
        normalizeNamespaces_def dedup_trimmed.simps)
qed

section \<open>Properties\<close>

text \<open>C27.
  Retention deletes only reports that are due: in a namespace of the agent, of this agent, and
  resolved (or never initialised) for longer than the retention period. When it succeeds it
  has deleted all of them; when a request fails midway, the reports still stored are otherwise
  untouched.
\<close>

theorem cleanup_exact:
  assumes "agent_store A ok reports" "ok w"
    and "agent_retention agent = Inr d" "retentionNamespaces A agent w = Inr nss"
    and "cleanupResolvedIncidents A now agent w = (res, w')"
  shows "ok w' \<and> (\<exists>D \<subseteq> due_reports agent now d nss (set (reports w)).
    set (reports w') = set (reports w) - D \<and> (res = None \<longrightarrow> D = due_reports agent now d nss (set (reports w))))"
  by (rule agent_store.cleanup_effect [OF assms])

theorem cleanup_exact_witness:
  "\<exists>r. report_phase r = ''Resolved'' \<and>
     mw_reports (snd (cleanupResolvedIncidents (mem_agents sample_agent) (9000000000 + 6 * minute) sample_agent
       ((rp_world mem_one)\<lparr>mw_reports := [r]\<rparr>))) = []"
proof -
  obtain r0 where r0: "mw_reports (rp_world mem_one) = [r0]" "report_ns r0 = ''shop''" "sp_AgentRef (ir_Spec r0) = ''agent''"
    by (rule mem_one_created) (simp add: created_report_def new_report_def sample_input_def Let_def)
  define r where "r = resolved_report 8000000000 ''done'' r0"
  let ?w = "(rp_world mem_one)\<lparr>mw_reports := [r]\<rparr>" and ?now = "9000000000 + 6 * minute"
  have r: "report_phase r = ''Resolved''" "EffectiveResolvedTime (ir_Status r) = Some 8000000000" "report_ns r = ''shop''"
    "sp_AgentRef (ir_Spec r) = ''agent''"
    using r0 by (simp_all add: r_def resolved_report_def with_status_def MarkResolved_def Let_def EffectiveResolvedTime_def
        stored_status_def stored_time_ptr_def stored_time_def)
  then have sel: "expired sample_agent ?now (5 * minute) r"
    by (simp add: expired_def belongsToAgent_def sample_agent_def shouldPruneIncidentReport_def time_is_zero_def time_sub_def
        minute_def second_def max_int64_def min_int64_def)
  have "fst (cleanupResolvedIncidents (mem_agents sample_agent) ?now sample_agent ?w) = None"
    using sel r by (simp add: cleanupResolvedIncidents_def sample_agent_env)
      (simp add: mem_agents_def mem_client_sel matches_selector_def mem_delete_def lookup_report_def)
  then obtain w' where run: "cleanupResolvedIncidents (mem_agents sample_agent) ?now sample_agent ?w = (None, w')"
    by (metis prod.collapse)
  have "mem_inv ?w" by (simp add: mem_inv_def keys_distinct_def)
  from cleanup_exact [OF mem_agent_store this sample_agent_env(1,2) run] sel r show ?thesis
    by (intro exI [of _ r]) (auto simp: run due_reports_def expired_def)
qed

text \<open>C28.
  The orphan check resolves, with its reason and nothing else, reports of the agent that are not
  resolved and one of whose affected pods is not found: one missing pod is enough, whatever the
  others do. When it succeeds it has resolved all of them, and no other report is touched.
\<close>

theorem orphans_resolved:
  assumes "agent_store A ok reports" "ok w"
    and "retentionNamespaces A agent w = Inr nss" "resolveOrphanedIncidents A now agent w = (res, w')"
  shows "ok w' \<and> (\<exists>D \<subseteq> orphan_reports A agent w nss (set (reports w)).
    set (reports w') = (set (reports w) - D) \<union> resolved_report now orphan_reason ` D \<and>
    (res = None \<longrightarrow> D = orphan_reports A agent w nss (set (reports w))))"
  by (rule agent_store.orphan_effect [OF assms])

theorem orphans_resolved_witness:
  "\<exists>r. report_phase r = ''Detecting'' \<and>
     set (mw_reports (snd (resolveOrphanedIncidents (mem_agents sample_agent) 9000000000 sample_agent
       ((rp_world mem_one)\<lparr>mw_pods := \<lambda>ns name. None\<rparr>)))) = {resolved_report 9000000000 orphan_reason r}"
proof -
  obtain name where one: "mw_reports (rp_world mem_one) = [created_report mem_env sample_input (Fingerprint sample_input) name 0]"
    by (rule mem_one_created)
  define r where "r = created_report mem_env sample_input (Fingerprint sample_input) name 0"
  have r: "report_ns r = ''shop''" "sp_AgentRef (ir_Spec r) = ''agent''" "report_phase r = ''Detecting''"
    "st_AffectedResources (ir_Status r) = [mk_affected ''v1'' ''Pod'' ''shop'' ''web-1'' []]"
    by (simp_all add: r_def created_report_def new_report_def new_status_def sample_input_def Let_def)
  let ?w = "(rp_world mem_one)\<lparr>mw_pods := \<lambda>ns name. None\<rparr>" and ?A = "mem_agents sample_agent"
  have sel: "orphaned ?A sample_agent ?w r"
    using r by (simp add: orphaned_def pod_gone_def belongsToAgent_def sample_agent_def mem_agents_def mem_client_def
        or_not_found_def mk_affected_def)
  have log: "observe_client mem_client obs w = w\<lparr>mw_log := mw_log w @ obs\<rparr>" for obs and w :: mem_world
    by (induction obs arbitrary: w) (simp_all add: observe_client_def mem_client_sel)
  have "fst (resolveOrphanedIncidents ?A 9000000000 sample_agent ?w) = None"
    using sel r(1) by (simp add: resolveOrphanedIncidents_def sample_agent_env)
      (simp add: mem_agents_def mem_client_sel matches_selector_def one [folded r_def] resolve_orphan_def case_prod_unfold Let_def log
        lookup_report_def mem_put_def patch_result_def)
  then obtain w' where run: "resolveOrphanedIncidents ?A 9000000000 sample_agent ?w = (None, w')"
    by (metis prod.collapse)
  have "mem_inv ?w" using mem_one_ok(1) by (simp add: mem_inv_def)
  from orphans_resolved [OF mem_agent_store this sample_agent_env(2) run] sel r show ?thesis
    by (intro exI [of _ r]) (auto simp: run orphan_reports_def orphaned_def one [folded r_def])
qed

text \<open>No call removes a handler from an informer.\<close>

definition handlers_kept :: "'w agent_state \<Rightarrow> 'w agent_state \<Rightarrow> bool" where
  "handlers_kept st st' \<longleftrightarrow> (\<exists>hs. as_handlers st' = hs @ as_handlers st)"

lemma handlers_kept_same [simp]: "as_handlers st' = as_handlers st \<Longrightarrow> handlers_kept st st'"
  by (simp add: handlers_kept_def)

lemma set_world_handlers [simp]: "as_handlers (set_world w st) = as_handlers st"
  by (simp add: set_world_def)

lemma stop_handlers [simp]: "as_handlers (stopCollectors key st) = as_handlers st"
  by (simp add: stopCollectors_def cancel_context_def split: option.splits)

lemma ensure_handlers: "ensureCollectorsRunning A agent st = (res, st') \<Longrightarrow> handlers_kept st st'"
  by (erule ensureCollectors_state) (auto simp: handlers_kept_def)

text \<open>C29.
  Reconciling an agent neither leaks nor shares a collector context: every live context belongs to
  exactly one agent. With an emitter and a cache set, once an agent is reconciled without error the
  context registered for it is that of collectors for exactly its namespaces, and finalizing an agent
  cancels its context. The event handlers that collectors have added to the informers are all still
  there afterwards, those of cancelled contexts too: cancelling ends the scans of a collector, not
  its handlers.
\<close>

theorem agent_Reconcile_collectors:
  assumes "collectors_ok st" "agent_Reconcile A now req st = (rq, after, err, st')" "av_emitter A" "av_cache A"
  shows "collectors_ok st' \<and> (case av_get_agent A (as_world st) (fst req) (snd req) of
      Inl e \<Rightarrow> st' = st
    | Inr agent \<Rightarrow>
        (aa_Deleting agent \<and> rcaAgentFinalizer \<in> set (aa_Finalizers agent) \<longrightarrow> as_registry st' req = None) \<and>
        (0 < after \<longrightarrow> map_option snd (as_registry st' (agent_key agent))
           = Some (normalizeNamespaces (ag_WatchNamespaces (aa_Spec agent))))) \<and>
    handlers_kept st st'"
proof (cases "av_get_agent A (as_world st) (fst req) (snd req)")
  case (Inl e)
  then show ?thesis using assms by (cases e) (simp_all add: agent_Reconcile_def)
next
  case (Inr agent)
  consider (finalize) "aa_Deleting agent" | (mark) "\<not> aa_Deleting agent" "rcaAgentFinalizer \<notin> set (aa_Finalizers agent)"
    | (secrets) msg where "\<not> aa_Deleting agent" "rcaAgentFinalizer \<in> set (aa_Finalizers agent)"
        "validateReferencedSecrets A agent (as_world st) = Some msg"
    | (run) "\<not> aa_Deleting agent" "run_agent A now agent st = (rq, after, err, st')"
    using assms(2) Inr by (auto simp: agent_Reconcile_def split: if_splits option.splits)
  then show ?thesis
  proof cases
    case finalize
    then show ?thesis
      using assms(1,2) Inr stop_ok(1) [OF assms(1), of req]
      by (auto simp: agent_Reconcile_def finalize_agent_def Let_def split: if_splits option.splits prod.splits)
  next
    case run
    then obtain o1 s1 w where e: "ensureCollectorsRunning A agent st = (o1, s1)" "st' = set_world w s1" "err = None \<Longrightarrow> o1 = None"
      by (blast elim: run_agent_registry)
    have "err = None" if "0 < after"
      using that run(2) by (auto simp: run_agent_def split: option.splits prod.splits)
    moreover have "handlers_kept st st'" using ensure_handlers [OF e(1)] e(2) by (simp add: handlers_kept_def)
    ultimately show ?thesis
      using run(1) e Inr ensureCollectors_ok [OF assms(1) e(1)] ensureCollectors_running [OF _ assms(3,4)]
      by auto
  qed (use assms(1,2) Inr in \<open>auto simp: agent_Reconcile_def split: option.splits prod.splits\<close>)
qed

theorem agent_Reconcile_collectors_witness:
  "map_option snd (as_registry (snd (snd (snd (agent_Reconcile (mem_agents sample_agent) 9000000000 (agent_key sample_agent)
     \<lparr>as_world = rp_world mem_empty, as_registry = Map.empty, as_live = [], as_next = 0, as_handlers = []\<rparr>)))) (agent_key sample_agent))
     = Some [''shop'']"
proof -
  let ?A = "mem_agents sample_agent" and ?st = "\<lparr>as_world = rp_world mem_empty, as_registry = Map.empty, as_live = [], as_next = 0, as_handlers = []\<rparr>"
  have get: "av_get_agent ?A w (fst (agent_key sample_agent)) (snd (agent_key sample_agent)) = Inr sample_agent" for w
    by (simp add: mem_agents_def)
  obtain st1 where st1: "ensureCollectorsRunning ?A sample_agent ?st = (None, st1)" "as_world st1 = rp_world mem_empty"
    by (simp add: ensureCollectorsRunning_def mem_agents_def startOptionalCollectors_def optional_collectors_def stopCollectors_def sample_agent_env(3) Let_def)
  have m: "maintain_reports ?A 9000000000 sample_agent (rp_world mem_empty) = (None, rp_world mem_empty)"
  proof -
    have l: "k_list_reports (av_client ?A) (rp_world mem_empty) n s = Inr []" for n s
      by (simp add: mem_agents_def mem_client_sel mem_empty_def)
    have "resolveOrphanedIncidents ?A 9000000000 sample_agent (rp_world mem_empty) = (None, rp_world mem_empty)"
      "cleanupResolvedIncidents ?A 9000000000 sample_agent (rp_world mem_empty) = (None, rp_world mem_empty)"
      "pruneStaleIncidentGraphs ?A 9000000000 sample_agent (rp_world mem_empty) = (None, rp_world mem_empty)"
      by (simp_all add: resolveOrphanedIncidents_def cleanupResolvedIncidents_def pruneStaleIncidentGraphs_def sample_agent_env l Let_def)
    then show ?thesis by (simp add: maintain_reports_def)
  qed
  have "set_conditions ?A sample_agent conds w = (None, w)" if "length conds = 2" for conds w
    using that by (auto simp: set_conditions_def setCondition_def Let_def mem_agents_def numeral_2_eq_2 length_Suc_conv)
  then have "fst (snd (run_agent ?A 9000000000 sample_agent ?st)) = minute"
    using st1 m by (simp add: run_agent_def)
  moreover have run: "agent_Reconcile ?A 9000000000 (agent_key sample_agent) ?st = run_agent ?A 9000000000 sample_agent ?st"
    unfolding agent_Reconcile_def get
    by (simp add: validateReferencedSecrets_def referencedSecretRefs_def sample_agent_def)
  moreover have "collectors_ok ?st" by (simp add: collectors_ok_def contexts_def)
  moreover obtain rq after err st' where ans: "run_agent ?A 9000000000 sample_agent ?st = (rq, after, err, st')"
    by (metis prod.collapse)
  moreover have "av_emitter ?A" "av_cache ?A" by (simp_all add: mem_agents_def)
  ultimately show ?thesis
    using agent_Reconcile_collectors [of ?st ?A 9000000000 "agent_key sample_agent" rq after err st'] get
    by (simp add: sample_agent_env(3) minute_def second_def)
qed

end
