(* ===== verification/Patterns.thy ===== *)
theory Patterns
  imports Rule_Engine "HOL-Library.AList"
begin

text \<open>
  Pattern mining for automatic correlation rules (\<open>internal/autodetect/\<close>: \<open>config.go\<close>,
  \<open>pattern.go\<close>, \<open>accumulator.go\<close>). Ranging over a Go map visits its keys in an order that is
  not specified: wherever the code does so, the parameter \<open>order\<close> arranges the keys, and no
  result below depends on it beyond being a rearrangement.
\<close>

record config =
  cf_Enabled :: bool
  cf_AnalysisInterval :: duration
  cf_MinOccurrences :: int
  cf_MinTimeSpan :: duration
  cf_MaxAutoRules :: int
  cf_ExpiryDuration :: duration
  cf_AutoRulePriority :: int

definition DefaultConfig :: config where
  "DefaultConfig = \<lparr>cf_Enabled = False, cf_AnalysisInterval = 60 * second, cf_MinOccurrences = 5,
     cf_MinTimeSpan = 10 * minute, cf_MaxAutoRules = 20, cf_ExpiryDuration = hour, cf_AutoRulePriority = 30\<rparr>"

section \<open>Pairs of event types\<close>

record event_pair =
  ep_TriggerType :: string
  ep_ConditionType :: string
  ep_Scope :: string

definition NormalizePair :: "event_pair \<Rightarrow> event_pair" where
  "NormalizePair pair =
     (if ep_ConditionType pair < ep_TriggerType pair
      then pair\<lparr>ep_TriggerType := ep_ConditionType pair, ep_ConditionType := ep_TriggerType pair\<rparr>
      else pair)"

definition pair_Key :: "event_pair \<Rightarrow> string" where
  "pair_Key p = ep_TriggerType p @ '':'' @ ep_ConditionType p @ '':'' @ ep_Scope p"

definition nodeEventTypes :: "string list" where
  "nodeEventTypes = [''NodeNotReady'', ''NodePressure'', ''PodEvicted'']"

definition workloadEventTypes :: "string list" where
  "workloadEventTypes = [''StalledRollout'', ''StalledStatefulSet'', ''StalledDaemonSet'', ''JobFailed'', ''CronJobFailed'']"

definition IsNodeEventType :: "string \<Rightarrow> bool" where
  "IsNodeEventType et \<longleftrightarrow> et \<in> set nodeEventTypes"

definition IsWorkloadEventType :: "string \<Rightarrow> bool" where
  "IsWorkloadEventType et \<longleftrightarrow> et \<in> set workloadEventTypes"

definition IsPodEventType :: "string \<Rightarrow> bool" where
  "IsPodEventType et \<longleftrightarrow> \<not> IsNodeEventType et \<and> \<not> IsWorkloadEventType et"

definition IsValidScopePair :: "event_pair \<Rightarrow> bool" where
  "IsValidScopePair pair =
     (if ep_Scope pair = ''samePod'' then IsPodEventType (ep_TriggerType pair) \<and> IsPodEventType (ep_ConditionType pair)
      else if ep_Scope pair = ''sameNode'' then IsNodeEventType (ep_TriggerType pair) \<and> IsNodeEventType (ep_ConditionType pair)
      else if ep_Scope pair = ''sameNamespace'' then
        IsWorkloadEventType (ep_TriggerType pair) \<and> IsWorkloadEventType (ep_ConditionType pair)
      else False)"

section \<open>Mining\<close>

record base_entry =
  bn_base :: base_event
  bn_eventType :: string
  bn_index :: nat

definition mining_entries :: "entry list \<Rightarrow> base_entry list" where
  "mining_entries entries =
     map (\<lambda>(i, en). \<lparr>bn_base = ExtractBase (en_Event en), bn_eventType = event_type (en_Event en), bn_index = i\<rparr>)
       (filter (\<lambda>(i, en). event_type (en_Event en) \<noteq> ''PodHealthy'' \<and> event_type (en_Event en) \<noteq> ''PodDeleted'')
          (enumerate 0 entries))"

text \<open>The map from keys to the entries appended under them, in the order the map is ranged over.\<close>

definition group_entries ::
    "(string list \<Rightarrow> string list) \<Rightarrow> (base_entry \<Rightarrow> bool) \<Rightarrow> (base_entry \<Rightarrow> string) \<Rightarrow> base_entry list \<Rightarrow>
       (string \<times> base_entry list) list" where
  "group_entries order sel key es =
     map (\<lambda>k. (k, filter (\<lambda>e. sel e \<and> key e = k) es)) (order (remdups (map key (filter sel es))))"

fun type_pairs :: "string \<Rightarrow> string list \<Rightarrow> event_pair list" where
  "type_pairs scope [] = []"
| "type_pairs scope (t # ts) =
     map (\<lambda>u. \<lparr>ep_TriggerType = t, ep_ConditionType = u, ep_Scope = scope\<rparr>) ts @ type_pairs scope ts"

type_synonym mined = "string set \<times> event_pair list"

definition emit_pair :: "event_pair \<Rightarrow> mined \<Rightarrow> mined" where
  "emit_pair pair st = (case st of (seen, out) \<Rightarrow>
     if pair_Key pair \<in> seen then (seen, out) else (insert (pair_Key pair) seen, out @ [pair]))"

definition group_types :: "base_entry list \<Rightarrow> string list" where
  "group_types grp = sort (remdups (map bn_eventType grp))"

definition emit_group :: "string \<Rightarrow> base_entry list \<Rightarrow> mined \<Rightarrow> mined" where
  "emit_group scope grp st =
     (let types = group_types grp
      in if length types < 2 then st else fold emit_pair (type_pairs scope types) st)"

definition emitPairs :: "(string \<times> base_entry list) list \<Rightarrow> string \<Rightarrow> mined \<Rightarrow> mined" where
  "emitPairs groups scope st = fold (\<lambda>(k, grp). emit_group scope grp) groups st"

definition pod_groups :: "(string list \<Rightarrow> string list) \<Rightarrow> base_entry list \<Rightarrow> (string \<times> base_entry list) list" where
  "pod_groups order es = group_entries order
     (\<lambda>e. IsPodEventType (bn_eventType e) \<and> be_Namespace (bn_base e) \<noteq> [] \<and> be_PodName (bn_base e) \<noteq> [])
     (\<lambda>e. be_Namespace (bn_base e) @ '':'' @ be_PodName (bn_base e)) es"

definition node_groups :: "(string list \<Rightarrow> string list) \<Rightarrow> base_entry list \<Rightarrow> (string \<times> base_entry list) list" where
  "node_groups order es = group_entries order
     (\<lambda>e. bn_eventType e \<in> set nodeEventTypes \<and> be_NodeName (bn_base e) \<noteq> []) (\<lambda>e. be_NodeName (bn_base e)) es"

definition namespace_groups :: "(string list \<Rightarrow> string list) \<Rightarrow> base_entry list \<Rightarrow> (string \<times> base_entry list) list" where
  "namespace_groups order es = group_entries order
     (\<lambda>e. bn_eventType e \<in> set workloadEventTypes \<and> be_Namespace (bn_base e) \<noteq> []) (\<lambda>e. be_Namespace (bn_base e)) es"

definition MinePatterns :: "(string list \<Rightarrow> string list) \<Rightarrow> entry list \<Rightarrow> event_pair list" where
  "MinePatterns order entries =
     (let filtered = mining_entries entries;
          st = emitPairs (pod_groups order filtered) ''samePod'' ({}, []);
          st = emitPairs (node_groups order filtered) ''sameNode'' st;
          st = emitPairs (namespace_groups order filtered) ''sameNamespace'' st
      in snd st)"

text \<open>\<open>RuleName\<close>: lower case, hyphens for underscores, at most 63 bytes, no hyphen at the end.\<close>

definition RuleName :: "event_pair \<Rightarrow> string" where
  "RuleName pair =
     (let name = ''auto-'' @ to_lower (ep_TriggerType pair) @ ''-'' @ to_lower (ep_ConditionType pair) @ ''-'' @
                 to_lower (ep_Scope pair);
          name = map (\<lambda>c. if c = CHR ''_'' then CHR ''-'' else c) name;
          name = (if length name > 63 then take 63 name else name)
      in trim_right (\<lambda>c. c = CHR ''-'') name)"

section \<open>The accumulator\<close>

record pattern_record =
  pr_Pair :: event_pair
  pr_FirstSeen :: gotime
  pr_LastSeen :: gotime
  pr_Occurrences :: int
  pr_RuleName :: string

text \<open>The map of patterns as an association list; each record is the one its pointer points to.\<close>

type_synonym accumulator = "(string \<times> pattern_record) list"

definition observe_pair :: "gotime \<Rightarrow> event_pair \<Rightarrow> accumulator \<Rightarrow> accumulator" where
  "observe_pair now pair acc =
     (let r = (case map_of acc (pair_Key pair) of
                 None \<Rightarrow> \<lparr>pr_Pair = pair, pr_FirstSeen = now, pr_LastSeen = 0, pr_Occurrences = 0, pr_RuleName = []\<rparr>
               | Some r \<Rightarrow> r)
      in AList.update (pair_Key pair) (r\<lparr>pr_LastSeen := now, pr_Occurrences := pr_Occurrences r + 1\<rparr>) acc)"

definition Record :: "gotime \<Rightarrow> event_pair list \<Rightarrow> accumulator \<Rightarrow> accumulator" where
  "Record now pairs acc =
     snd (fold (\<lambda>pair (seen, acc). if pair_Key pair \<in> seen then (seen, acc)
                                   else (insert (pair_Key pair) seen, observe_pair now pair acc)) pairs ({}, acc))"

definition pattern_ready :: "config \<Rightarrow> pattern_record \<Rightarrow> bool" where
  "pattern_ready cfg r \<longleftrightarrow>
     \<not> pr_Occurrences r < cf_MinOccurrences cfg \<and> \<not> time_sub (pr_LastSeen r) (pr_FirstSeen r) < cf_MinTimeSpan cfg"

definition ReadyPatterns ::
    "(string list \<Rightarrow> string list) \<Rightarrow> config \<Rightarrow> accumulator \<Rightarrow> (string \<times> pattern_record) list" where
  "ReadyPatterns order cfg acc =
     filter (\<lambda>(k, r). pattern_ready cfg r) (List.map_filter (\<lambda>k. map_option (Pair k) (map_of acc k)) (order (map fst acc)))"

definition Seed :: "pattern_record \<Rightarrow> accumulator \<Rightarrow> accumulator" where
  "Seed r acc =
     (let r = r\<lparr>pr_Pair := NormalizePair (pr_Pair r)\<rparr>
      in if map_of acc (pair_Key (pr_Pair r)) = None then AList.update (pair_Key (pr_Pair r)) r acc else acc)"

section \<open>Mining is exact\<close>

definition rearranges :: "(string list \<Rightarrow> string list) \<Rightarrow> bool" where
  "rearranges order \<longleftrightarrow> (\<forall>ks. set (order ks) = set ks)"

lemma emit_pair_fst: "fst (emit_pair p st) = insert (pair_Key p) (fst st)"
  by (auto simp: emit_pair_def split: prod.splits)

text \<open>The accumulated state: the keys seen are those of the pairs emitted, and no pair twice.\<close>

definition mined_ok :: "mined \<Rightarrow> bool" where
  "mined_ok st \<longleftrightarrow> fst st = pair_Key ` set (snd st) \<and> distinct (map pair_Key (snd st))"

lemma emit_pair_ok: "mined_ok st \<Longrightarrow> mined_ok (emit_pair p st)"
  by (auto simp: mined_ok_def emit_pair_def split: prod.splits)

lemma fold_emit_ok: "mined_ok st \<Longrightarrow> mined_ok (fold emit_pair ps st)"
  by (induction ps arbitrary: st) (simp_all add: emit_pair_ok)

lemma fold_emit_fst: "fst (fold emit_pair ps st) = fst st \<union> pair_Key ` set ps"
  by (induction ps arbitrary: st) (auto simp: emit_pair_fst)

lemma fold_emit_sub: "set (snd (fold emit_pair ps st)) \<subseteq> set (snd st) \<union> set ps"
proof (induction ps arbitrary: st)
  case (Cons p ps)
  have "set (snd (emit_pair p st)) \<subseteq> insert p (set (snd st))" by (auto simp: emit_pair_def split: prod.splits)
  with Cons [of "emit_pair p st"] show ?case by auto
qed simp

text \<open>\<open>emitPairs\<close> is emission of the pairs of every group in turn.\<close>

lemma emit_group_eq: "emit_group scope grp st = fold emit_pair (type_pairs scope (group_types grp)) st"
proof (cases "length (group_types grp) < 2")
  case True
  then have "type_pairs scope (group_types grp) = []" by (cases "group_types grp" rule: remdups_adj.cases) auto
  with True show ?thesis by (simp add: emit_group_def)
qed (simp add: emit_group_def)

lemma emitPairs_eq:
  "emitPairs groups scope st = fold emit_pair (concat (map (\<lambda>(k, g). type_pairs scope (group_types g)) groups)) st"
  unfolding emitPairs_def by (induction groups arbitrary: st) (auto simp: emit_group_eq)

lemma type_pairs_set:
  "sorted ts \<Longrightarrow> distinct ts \<Longrightarrow> p \<in> set (type_pairs scope ts) \<longleftrightarrow>
     ep_Scope p = scope \<and> ep_TriggerType p \<in> set ts \<and> ep_ConditionType p \<in> set ts \<and> ep_TriggerType p < ep_ConditionType p"
proof (induction ts)
  case (Cons t ts)
  have "p \<in> (\<lambda>u. \<lparr>ep_TriggerType = t, ep_ConditionType = u, ep_Scope = scope\<rparr>) ` set ts \<longleftrightarrow>
      ep_TriggerType p = t \<and> ep_ConditionType p \<in> set ts \<and> ep_Scope p = scope"
    by (cases p) (auto simp: image_iff)
  then show ?case using Cons by (auto simp: less_le)
qed simp

lemma group_pairs:
  assumes "rearranges order"
  shows "p \<in> set (concat (map (\<lambda>(k, g). type_pairs scope (group_types g)) (group_entries order sel key es))) \<longleftrightarrow>
    ep_Scope p = scope \<and> ep_TriggerType p < ep_ConditionType p \<and>
    (\<exists>a \<in> set es. \<exists>b \<in> set es. sel a \<and> sel b \<and> key a = key b \<and> bn_eventType a = ep_TriggerType p \<and> bn_eventType b = ep_ConditionType p)"
proof -
  have order: "set (order ks) = set ks" for ks using assms by (simp add: rearranges_def)
  have "p \<in> set (type_pairs scope (group_types g)) \<longleftrightarrow> ep_Scope p = scope \<and> ep_TriggerType p < ep_ConditionType p \<and>
      (\<exists>a \<in> set g. bn_eventType a = ep_TriggerType p) \<and> (\<exists>b \<in> set g. bn_eventType b = ep_ConditionType p)" for g
    by (subst type_pairs_set) (auto simp: group_types_def image_iff eq_commute [of "bn_eventType _"])
  then show ?thesis by (auto simp: group_entries_def order image_iff; metis)
qed

lemma event_type_plain: "CHR '':'' \<notin> set (event_type e)" "CHR ''-'' \<notin> set (event_type e)" "CHR ''_'' \<notin> set (event_type e)"
  by (cases e; simp add: event_type_def)+

lemma pair_Key_inj:
  assumes "pair_Key p = pair_Key q" "\<And>s. s \<in> {ep_TriggerType p, ep_ConditionType p, ep_Scope p, ep_TriggerType q, ep_ConditionType q, ep_Scope q} \<Longrightarrow> CHR '':'' \<notin> set s"
  shows "p = q"
proof -
  have "str_join [CHR '':''] [ep_TriggerType p, ep_ConditionType p, ep_Scope p] = str_join [CHR '':''] [ep_TriggerType q, ep_ConditionType q, ep_Scope q]"
    using assms(1) by (simp add: pair_Key_def)
  then have "[ep_TriggerType p, ep_ConditionType p, ep_Scope p] = [ep_TriggerType q, ep_ConditionType q, ep_Scope q]"
    by (rule str_join_inject) (use assms(2) in auto)
  then show ?thesis by (cases p; cases q) simp
qed

text \<open>Emission of pairs with different keys emits them all.\<close>

lemma fold_emit_set:
  assumes "inj_on pair_Key (set (snd st) \<union> set ps)" "mined_ok st"
  shows "set (snd (fold emit_pair ps st)) = set (snd st) \<union> set ps"
proof
  let ?st = "fold emit_pair ps st"
  show sub: "set (snd ?st) \<subseteq> set (snd st) \<union> set ps" by (rule fold_emit_sub)
  have "pair_Key ` set (snd ?st) = pair_Key ` (set (snd st) \<union> set ps)"
    using fold_emit_ok [OF assms(2)] fold_emit_fst [of ps st] assms(2) by (auto simp: mined_ok_def)
  then show "set (snd st) \<union> set ps \<subseteq> set (snd ?st)"
    using inj_on_image_eq_iff [OF assms(1) sub order_refl] by simp
qed

text \<open>
  What mining is for: two recorded events of the types of the pair, in the relation that the
  scope of a rule asks for.
\<close>

definition cooccurring :: "entry list \<Rightarrow> event_pair \<Rightarrow> bool" where
  "cooccurring entries p \<longleftrightarrow>
     (\<exists>a \<in> set entries. \<exists>b \<in> set entries.
        event_type (en_Event a) = ep_TriggerType p \<and> event_type (en_Event b) = ep_ConditionType p \<and>
        scopeMatches (en_Event a) (en_Event b) (ep_Scope p) \<and>
        (ep_Scope p = ''samePod'' \<longrightarrow> be_Namespace (ExtractBase (en_Event a)) \<noteq> []))"

text \<open>All pairs that mining emits, in the order of emission.\<close>

definition scope_pairs :: "(string list \<Rightarrow> string list) \<Rightarrow> base_entry list \<Rightarrow> event_pair list" where
  "scope_pairs order es = (let pairs = \<lambda>scope groups. concat (map (\<lambda>(k, g). type_pairs scope (group_types g)) groups)
     in pairs ''samePod'' (pod_groups order es) @ pairs ''sameNode'' (node_groups order es) @
        pairs ''sameNamespace'' (namespace_groups order es))"

lemma MinePatterns_eq: "MinePatterns order entries = snd (fold emit_pair (scope_pairs order (mining_entries entries)) ({}, []))"
  by (simp add: MinePatterns_def scope_pairs_def emitPairs_eq Let_def)

lemma lifecycle_type: "event_type e \<noteq> ''PodHealthy'' \<and> event_type e \<noteq> ''PodDeleted'' \<longleftrightarrow> \<not> is_lifecycle_event e"
  by (cases e) (simp_all add: event_type_def is_lifecycle_event_def)

lemma mining_entries_ex:
  "(\<exists>e \<in> set (mining_entries entries). P (bn_base e) (bn_eventType e)) \<longleftrightarrow>
     (\<exists>en \<in> set entries. \<not> is_lifecycle_event (en_Event en) \<and> P (ExtractBase (en_Event en)) (event_type (en_Event en)))"
proof -
  have "snd ` set (enumerate 0 entries) = set entries" by (metis list.set_map map_snd_enumerate)
  then have "en \<in> set entries \<longleftrightarrow> (\<exists>i. (i, en) \<in> set (enumerate 0 entries))" for en by (force simp: image_iff)
  then show ?thesis by (auto simp: mining_entries_def lifecycle_type [symmetric]) blast+
qed

lemma mining_entries_ex2:
  "(\<exists>a \<in> set (mining_entries entries). \<exists>b \<in> set (mining_entries entries). P (bn_base a) (bn_eventType a) (bn_base b) (bn_eventType b)) \<longleftrightarrow>
     (\<exists>a \<in> set entries. \<exists>b \<in> set entries. \<not> is_lifecycle_event (en_Event a) \<and> \<not> is_lifecycle_event (en_Event b) \<and>
        P (ExtractBase (en_Event a)) (event_type (en_Event a)) (ExtractBase (en_Event b)) (event_type (en_Event b)))"
  by (subst mining_entries_ex, subst mining_entries_ex) blast

lemma colon_key:
  "CHR '':'' \<notin> set a \<Longrightarrow> CHR '':'' \<notin> set c \<Longrightarrow> a @ CHR '':'' # b = c @ CHR '':'' # d \<longleftrightarrow> a = c \<and> b = d"
  by (auto simp: append_eq_append_conv2 append_eq_Cons_conv Cons_eq_append_conv)

lemma scope_group_pairs:
  assumes "rearranges order" and colon: "\<forall>en \<in> set entries. CHR '':'' \<notin> set (be_Namespace (ExtractBase (en_Event en)))"
  defines "pairs \<equiv> \<lambda>scope groups. set (concat (map (\<lambda>(k, g). type_pairs scope (group_types g)) groups))"
    and "good \<equiv> \<lambda>scope p. ep_Scope p = scope \<and> IsValidScopePair p \<and> ep_TriggerType p < ep_ConditionType p \<and> cooccurring entries p"
  shows "p \<in> pairs ''samePod'' (pod_groups order (mining_entries entries)) \<longleftrightarrow> good ''samePod'' p"
    and "p \<in> pairs ''sameNode'' (node_groups order (mining_entries entries)) \<longleftrightarrow> good ''sameNode'' p"
    and "p \<in> pairs ''sameNamespace'' (namespace_groups order (mining_entries entries)) \<longleftrightarrow> good ''sameNamespace'' p"
proof -
  have life: "\<not> is_lifecycle_event e" if "be_Namespace (ExtractBase e) \<noteq> [] \<or> be_NodeName (ExtractBase e) \<noteq> []" for e
    using that by (auto simp: ExtractBase_lifecycle zero_base_def)
  have ns: "be_Namespace (ExtractBase (en_Event a)) @ CHR '':'' # x = be_Namespace (ExtractBase (en_Event b)) @ CHR '':'' # y \<longleftrightarrow>
      be_Namespace (ExtractBase (en_Event a)) = be_Namespace (ExtractBase (en_Event b)) \<and> x = y"
    if "a \<in> set entries" "b \<in> set entries" for a b x y
    using that colon colon_key by simp
  show "p \<in> pairs ''samePod'' (pod_groups order (mining_entries entries)) \<longleftrightarrow> good ''samePod'' p"
    unfolding pairs_def good_def pod_groups_def group_pairs [OF assms(1)] cooccurring_def
    by (subst mining_entries_ex2 [where P = "\<lambda>ba ta bb tb. (IsPodEventType ta \<and> be_Namespace ba \<noteq> [] \<and> be_PodName ba \<noteq> []) \<and>
          (IsPodEventType tb \<and> be_Namespace bb \<noteq> [] \<and> be_PodName bb \<noteq> []) \<and>
          be_Namespace ba @ '':'' @ be_PodName ba = be_Namespace bb @ '':'' @ be_PodName bb \<and>
          ta = ep_TriggerType p \<and> tb = ep_ConditionType p"])
      (auto simp: ns IsValidScopePair_def scopeMatches_def Let_def dest: life; metis life)
  show "p \<in> pairs ''sameNode'' (node_groups order (mining_entries entries)) \<longleftrightarrow> good ''sameNode'' p"
    unfolding pairs_def good_def node_groups_def group_pairs [OF assms(1)] cooccurring_def
    by (subst mining_entries_ex2 [where P = "\<lambda>ba ta bb tb. (ta \<in> set nodeEventTypes \<and> be_NodeName ba \<noteq> []) \<and>
          (tb \<in> set nodeEventTypes \<and> be_NodeName bb \<noteq> []) \<and> be_NodeName ba = be_NodeName bb \<and>
          ta = ep_TriggerType p \<and> tb = ep_ConditionType p"])
      (auto simp: IsValidScopePair_def IsNodeEventType_def scopeMatches_def Let_def dest: life; metis life)
  show "p \<in> pairs ''sameNamespace'' (namespace_groups order (mining_entries entries)) \<longleftrightarrow> good ''sameNamespace'' p"
    unfolding pairs_def good_def namespace_groups_def group_pairs [OF assms(1)] cooccurring_def
    by (subst mining_entries_ex2 [where P = "\<lambda>ba ta bb tb. (ta \<in> set workloadEventTypes \<and> be_Namespace ba \<noteq> []) \<and>
          (tb \<in> set workloadEventTypes \<and> be_Namespace bb \<noteq> []) \<and> be_Namespace ba = be_Namespace bb \<and>
          ta = ep_TriggerType p \<and> tb = ep_ConditionType p"])
      (auto simp: IsValidScopePair_def IsWorkloadEventType_def scopeMatches_def Let_def dest: life; metis life)
qed

lemma scope_pairs_set:
  assumes "rearranges order" "\<forall>en \<in> set entries. CHR '':'' \<notin> set (be_Namespace (ExtractBase (en_Event en)))"
  shows "p \<in> set (scope_pairs order (mining_entries entries)) \<longleftrightarrow>
    IsValidScopePair p \<and> ep_TriggerType p < ep_ConditionType p \<and> cooccurring entries p"
  using scope_group_pairs [OF assms, of p] unfolding scope_pairs_def Let_def set_append Un_iff
  by (auto simp: IsValidScopePair_def split: if_splits)

lemma scope_pairs_key_inj: "inj_on pair_Key {p. IsValidScopePair p \<and> cooccurring entries p}"
proof (rule inj_onI)
  fix p q
  assume "p \<in> {p. IsValidScopePair p \<and> cooccurring entries p}" "q \<in> {p. IsValidScopePair p \<and> cooccurring entries p}"
    and "pair_Key p = pair_Key q"
  moreover have "CHR '':'' \<notin> set (ep_TriggerType p) \<and> CHR '':'' \<notin> set (ep_ConditionType p)" if "cooccurring entries p" for p
    using that event_type_plain(1) unfolding cooccurring_def by metis
  moreover have "CHR '':'' \<notin> set (ep_Scope p)" if "IsValidScopePair p" for p
    using that by (auto simp: IsValidScopePair_def split: if_splits)
  ultimately show "p = q" by (intro pair_Key_inj) auto
qed

lemma MinePatterns_distinct: "distinct (MinePatterns order entries)"
  using fold_emit_ok [of "({}, [])" "scope_pairs order (mining_entries entries)"] distinct_map
  by (auto simp: MinePatterns_eq mined_ok_def)

lemma MinePatterns_set:
  assumes "rearranges order" "\<forall>en \<in> set entries. CHR '':'' \<notin> set (be_Namespace (ExtractBase (en_Event en)))"
  shows "set (MinePatterns order entries) =
    {p. IsValidScopePair p \<and> ep_TriggerType p < ep_ConditionType p \<and> cooccurring entries p}"
proof -
  let ?ps = "scope_pairs order (mining_entries entries)"
  have ps: "set ?ps = {p. IsValidScopePair p \<and> ep_TriggerType p < ep_ConditionType p \<and> cooccurring entries p}"
    using scope_pairs_set [OF assms] by blast
  have "inj_on pair_Key (set ?ps)" unfolding ps by (rule inj_on_subset [OF scope_pairs_key_inj]) auto
  then have "set (MinePatterns order entries) = set ?ps"
    using fold_emit_set [of "({}, [])" ?ps] by (simp add: MinePatterns_eq mined_ok_def)
  then show ?thesis using ps by simp
qed

section \<open>Names of rules\<close>

text \<open>The name before it is cut; for event types it is never cut and needs no replacement.\<close>

definition plain_pair :: "event_pair \<Rightarrow> bool" where
  "plain_pair p \<longleftrightarrow> IsKnownEventType (ep_TriggerType p) \<and> IsKnownEventType (ep_ConditionType p) \<and> IsValidScopePair p"

lemma to_lower_plain: "c \<in> {CHR ''-'', CHR ''_''} \<Longrightarrow> c \<in> set (to_lower t) \<longleftrightarrow> c \<in> set t"
proof -
  assume c: "c \<in> {CHR ''-'', CHR ''_''}"
  have "c = lower_char x \<longleftrightarrow> c = x" for x
  proof (cases "is_upper x")
    case True
    then have "byte_of x + 32 < 256" "97 \<le> byte_of x + 32" by (auto simp: is_upper_def)
    then have "97 \<le> byte_of (lower_char x)" using True by (simp add: lower_char_def)
    moreover have "byte_of c < 97" "\<not> is_upper c" using c by (auto simp: is_upper_def)
    ultimately show ?thesis using True by (metis not_le)
  qed (simp add: lower_char_def)
  then show ?thesis by (auto simp: to_lower_def image_iff)
qed

lemma known_type_facts: "IsKnownEventType t \<Longrightarrow> length t \<le> 20 \<and> CHR ''-'' \<notin> set (to_lower t) \<and> CHR ''_'' \<notin> set (to_lower t)"
proof -
  have "list_all (\<lambda>t. length t \<le> 20 \<and> CHR ''-'' \<notin> set t \<and> CHR ''_'' \<notin> set t) valid_event_types" by code_simp
  then show "IsKnownEventType t \<Longrightarrow> length t \<le> 20 \<and> CHR ''-'' \<notin> set (to_lower t) \<and> CHR ''_'' \<notin> set (to_lower t)"
    by (simp add: list_all_iff IsKnownEventType_def to_lower_plain)
qed

lemma scope_facts: "IsValidScopePair p \<Longrightarrow> length (ep_Scope p) \<le> 13 \<and> CHR ''-'' \<notin> set (to_lower (ep_Scope p)) \<and>
    CHR ''_'' \<notin> set (to_lower (ep_Scope p)) \<and> ep_Scope p \<in> {''samePod'', ''sameNode'', ''sameNamespace''} \<and> ep_Scope p \<noteq> []"
  by (auto simp: IsValidScopePair_def to_lower_plain split: if_splits)

lemma trim_right_id: "s \<noteq> [] \<Longrightarrow> \<not> p (last s) \<Longrightarrow> trim_right p s = s"
  by (simp add: trim_right_def dropWhile_hd hd_rev)

lemma RuleName_plain:
  assumes "plain_pair p"
  shows "RuleName p = str_join ''-'' [''auto'', to_lower (ep_TriggerType p), to_lower (ep_ConditionType p), to_lower (ep_Scope p)]"
proof -
  let ?n = "''auto-'' @ to_lower (ep_TriggerType p) @ ''-'' @ to_lower (ep_ConditionType p) @ ''-'' @ to_lower (ep_Scope p)"
  have f: "length (ep_TriggerType p) \<le> 20" "length (ep_ConditionType p) \<le> 20" "length (ep_Scope p) \<le> 13"
      "CHR ''_'' \<notin> set ?n" "CHR ''-'' \<notin> set (to_lower (ep_Scope p))" "to_lower (ep_Scope p) \<noteq> []"
    using assms known_type_facts scope_facts by (auto simp: plain_pair_def to_lower_def)
  then have len: "length ?n \<le> 63" by simp
  have "map (\<lambda>c. if c = CHR ''_'' then CHR ''-'' else c) ?n = ?n" using f(4) by (intro map_idI) auto
  moreover have "last ?n \<noteq> CHR ''-''" using f(5,6) last_in_set [OF f(6)] by (metis append_is_Nil_conv last_appendR)
  then have "trim_right (\<lambda>c. c = CHR ''-'') ?n = ?n" by (intro trim_right_id) simp_all
  ultimately show ?thesis using len by (simp add: RuleName_def Let_def)
qed

lemma to_lower_types: "IsKnownEventType t \<Longrightarrow> IsKnownEventType u \<Longrightarrow> to_lower t = to_lower u \<Longrightarrow> t = u"
proof -
  have "distinct (map to_lower valid_event_types)" by code_simp
  then show "IsKnownEventType t \<Longrightarrow> IsKnownEventType u \<Longrightarrow> to_lower t = to_lower u \<Longrightarrow> t = u"
    by (auto simp: distinct_map IsKnownEventType_def dest: inj_onD)
qed

lemma to_lower_scopes:
  assumes "s \<in> {''samePod'', ''sameNode'', ''sameNamespace''}" "u \<in> {''samePod'', ''sameNode'', ''sameNamespace''}" "to_lower s = to_lower u"
  shows "s = u"
proof -
  have "distinct (map to_lower [''samePod'', ''sameNode'', ''sameNamespace''])" by code_simp
  then have "inj_on to_lower (set [''samePod'', ''sameNode'', ''sameNamespace''])" by (simp only: distinct_map)
  with assms show ?thesis by (auto dest: inj_onD)
qed

lemma RuleName_inj:
  assumes "plain_pair p" "plain_pair q" "RuleName p = RuleName q"
  shows "p = q"
proof -
  let ?parts = "\<lambda>p. [''auto'', to_lower (ep_TriggerType p), to_lower (ep_ConditionType p), to_lower (ep_Scope p)]"
  have plain: "CHR ''-'' \<notin> set x" if "x \<in> set (?parts p)" "plain_pair p" for x p
    using that known_type_facts scope_facts by (auto simp: plain_pair_def)
  have "str_join ''-'' (?parts p) = str_join ''-'' (?parts q)"
    using assms RuleName_plain by metis
  then have "?parts p = ?parts q"
    by (rule str_join_inject) (use plain assms(1,2) in blast)+
  then have low: "to_lower (ep_TriggerType p) = to_lower (ep_TriggerType q)"
    "to_lower (ep_ConditionType p) = to_lower (ep_ConditionType q)" "to_lower (ep_Scope p) = to_lower (ep_Scope q)" by simp_all
  have known: "IsKnownEventType (ep_TriggerType p)" "IsKnownEventType (ep_ConditionType p)" "IsValidScopePair p"
    "IsKnownEventType (ep_TriggerType q)" "IsKnownEventType (ep_ConditionType q)" "IsValidScopePair q"
    using assms(1,2) by (simp_all add: plain_pair_def)
  have "ep_TriggerType p = ep_TriggerType q" by (rule to_lower_types [OF known(1,4) low(1)])
  moreover have "ep_ConditionType p = ep_ConditionType q" by (rule to_lower_types [OF known(2,5) low(2)])
  moreover have "ep_Scope p = ep_Scope q"
    by (rule to_lower_scopes [OF _ _ low(3)]) (use scope_facts known(3,6) in blast)+
  ultimately show ?thesis by (intro event_pair.equality) simp_all
qed

section \<open>Counting\<close>

lemma observe_pair_map:
  "map_of (observe_pair now pair acc) k =
     (if k = pair_Key pair then Some (case map_of acc k of
        None \<Rightarrow> \<lparr>pr_Pair = pair, pr_FirstSeen = now, pr_LastSeen = now, pr_Occurrences = 1, pr_RuleName = []\<rparr>
      | Some r \<Rightarrow> r\<lparr>pr_LastSeen := now, pr_Occurrences := pr_Occurrences r + 1\<rparr>)
      else map_of acc k)"
  by (auto simp: observe_pair_def Let_def update_conv' split: option.splits)

lemma Record_step:
  "fold (\<lambda>pair (seen, acc). if pair_Key pair \<in> seen then (seen, acc)
          else (insert (pair_Key pair) seen, observe_pair now pair acc)) pairs (seen, acc) = (seen', acc') \<Longrightarrow>
   map_of acc' k = (case find (\<lambda>p. pair_Key p = k) pairs of
      None \<Rightarrow> map_of acc k | Some p \<Rightarrow> if k \<in> seen then map_of acc k else map_of (observe_pair now p acc) k)"
proof (induction pairs arbitrary: seen acc)
  case (Cons p pairs)
  then show ?case
    by (cases "pair_Key p \<in> seen") (auto simp: observe_pair_map split: option.splits dest!: Cons.IH dest: find_SomeD)
qed simp

section \<open>Properties\<close>

text \<open>C34.
  Mining is exact and its result does not depend on the order in which maps are ranged over: from a
  window it returns, each once, precisely the pairs of event types in lexicographic order that lie
  on one level (pod, node or workload) and for which the window holds two events in the relation
  of the scope.
\<close>

theorem MinePatterns_exact:
  assumes "rearranges order" "\<forall>en \<in> set entries. CHR '':'' \<notin> set (be_Namespace (ExtractBase (en_Event en)))"
  shows "distinct (MinePatterns order entries) \<and> set (MinePatterns order entries) =
    {p. IsValidScopePair p \<and> ep_TriggerType p < ep_ConditionType p \<and> cooccurring entries p}"
  using MinePatterns_set [OF assms] MinePatterns_distinct by blast

definition sample_window :: "entry list" where
  "sample_window = (let b = zero_base\<lparr>be_Namespace := ''shop'', be_PodName := ''web-1''\<rparr>
     in [\<lparr>en_Event = OOMKilledEvent b ''app'' 137 ''OOMKilled'', en_AddedAt = 1\<rparr>,
         \<lparr>en_Event = CrashLoopBackOffEvent b ''app'' 5 3 137 [] [], en_AddedAt = 2\<rparr>])"

definition sample_pair :: event_pair where
  "sample_pair = \<lparr>ep_TriggerType = ''CrashLoopBackOff'', ep_ConditionType = ''OOMKilled'', ep_Scope = ''samePod''\<rparr>"

lemma sample_window_plain:
  "\<forall>en \<in> set sample_window. CHR '':'' \<notin> set (be_Namespace (ExtractBase (en_Event en)))" "rearranges rev"
  by (simp_all add: sample_window_def Let_def ExtractBase_def rearranges_def)

lemma sample_cooccurs:
  "cooccurring sample_window sample_pair" "ep_TriggerType sample_pair < ep_ConditionType sample_pair" "IsValidScopePair sample_pair"
proof -
  show "cooccurring sample_window sample_pair"
    by (auto simp: cooccurring_def sample_window_def sample_pair_def Let_def event_type_def ExtractBase_def scopeMatches_def)
  show "ep_TriggerType sample_pair < ep_ConditionType sample_pair" by code_simp
  show "IsValidScopePair sample_pair" by code_simp
qed

lemma sample_mined: "sample_pair \<in> set (MinePatterns rev sample_window)"
  using MinePatterns_set [OF sample_window_plain(2,1)] sample_cooccurs by blast

theorem MinePatterns_exact_witness: "sample_pair \<in> set (MinePatterns rev sample_window)"
  using MinePatterns_exact [OF sample_window_plain(2,1)] sample_cooccurs by blast

text \<open>One tick counts a pattern once, however often its pair is listed: the first observation starts a
  record without a rule, a later one moves the last time and adds one, and a pattern that was not
  observed keeps its record.
\<close>

theorem Record_counts:
  "map_of (Record now pairs acc) k =
     (case find (\<lambda>p. pair_Key p = k) pairs of
        None \<Rightarrow> map_of acc k
      | Some p \<Rightarrow>
          Some (case map_of acc k of
                  None \<Rightarrow> \<lparr>pr_Pair = p, pr_FirstSeen = now, pr_LastSeen = now, pr_Occurrences = 1, pr_RuleName = []\<rparr>
                | Some r \<Rightarrow> r\<lparr>pr_LastSeen := now, pr_Occurrences := pr_Occurrences r + 1\<rparr>))"
  using Record_step [OF prod.collapse [symmetric], where seen = "{}"]
  by (auto simp: Record_def observe_pair_map split: option.splits dest: find_SomeD)

end
