(* ===== verification/Admission.thy ===== *)
theory Admission
  imports Rule_Engine
begin

text \<open>
  The validating webhook of correlation rules
  (\<open>internal/webhook/rcacorrelationrule_webhook.go\<close>): what is rejected, with the reason, and
  what an admitted rule is good for. The rule engine compiles the same conditions later, so
  admission and loading must agree; that is proved at the end.
\<close>

definition validSeverities :: "string list" where
  "validSeverities = [''P1'', ''P2'', ''P3'', ''P4'']"

definition validAttributeOps :: "string list" where
  "validAttributeOps = ['''', ''Equals'', ''NotEquals'', ''Contains'', ''NotContains'', ''Regex'', ''Exists'',
     ''NotExists'', ''Gte'', ''Lte'', ''Gt'', ''Lt'']"

definition validScopes :: "string list" where
  "validScopes = [''samePod'', ''sameNode'', ''sameNamespace'', ''sameTrace'', ''any'']"

text \<open>The reasons of a rejection, with the indices of the condition and the attribute.\<close>

datatype rule_rejection =
    BadPriority
  | UnknownTrigger string
  | BadSeverity string
  | UnknownConditionType nat string
  | BadScope nat string
  | EmptyKey nat nat
  | BadOp nat nat string
  | EmptyValue nat nat string
  | BadRegex nat nat
  | NotNumeric nat nat string string

definition validate_match ::
    "('re, 'tm, 'fl) go_lib \<Rightarrow> nat \<Rightarrow> nat \<Rightarrow> attribute_match \<Rightarrow> rule_rejection option" where
  "validate_match L ci i m =
     (if am_Key m = [] then Some (EmptyKey ci i)
      else if am_Op m \<notin> set validAttributeOps then Some (BadOp ci i (am_Op m))
      else if am_Op m = ''Regex'' then
        (if am_Value m = [] then Some (EmptyValue ci i (am_Op m))
         else if lib_regexp_compile L (am_Value m) = None then Some (BadRegex ci i) else None)
      else if am_Op m \<in> set numeric_ops then
        (if am_Value m = [] then Some (EmptyValue ci i (am_Op m))
         else if lib_parse_float L (am_Value m) = None then Some (NotNumeric ci i (am_Value m) (am_Op m)) else None)
      else None)"

fun validate_from ::
    "('re, 'tm, 'fl) go_lib \<Rightarrow> nat \<Rightarrow> nat \<Rightarrow> attribute_match list \<Rightarrow> rule_rejection option" where
  "validate_from L ci i [] = None"
| "validate_from L ci i (m # ms) =
     (case validate_match L ci i m of Some e \<Rightarrow> Some e | None \<Rightarrow> validate_from L ci (i + 1) ms)"

definition validateAttributeMatches ::
    "('re, 'tm, 'fl) go_lib \<Rightarrow> nat \<Rightarrow> attribute_match list \<Rightarrow> rule_rejection option" where
  "validateAttributeMatches L conditionIndex matches = validate_from L conditionIndex 0 matches"

fun validate_conditions ::
    "('re, 'tm, 'fl) go_lib \<Rightarrow> nat \<Rightarrow> rule_condition list \<Rightarrow> rule_rejection option" where
  "validate_conditions L i [] = None"
| "validate_conditions L i (cond # conds) =
     (if \<not> IsKnownEventType (rc_EventType cond) then Some (UnknownConditionType i (rc_EventType cond))
      else if rc_Scope cond \<notin> set validScopes then Some (BadScope i (rc_Scope cond))
      else case validateAttributeMatches L i (rc_Attributes cond) of
             Some e \<Rightarrow> Some e
           | None \<Rightarrow> validate_conditions L (i + 1) conds)"

definition validateRule :: "('re, 'tm, 'fl) go_lib \<Rightarrow> correlation_rule \<Rightarrow> rule_rejection option" where
  "validateRule L rule =
     (let spec = ru_Spec rule
      in if rs_Priority spec < 1 then Some BadPriority
         else if \<not> IsKnownEventType (rs_TriggerEventType spec) then Some (UnknownTrigger (rs_TriggerEventType spec))
         else if rf_Severity (rs_Fires spec) \<notin> set validSeverities then Some (BadSeverity (rf_Severity (rs_Fires spec)))
         else validate_conditions L 0 (rs_Conditions spec))"

text \<open>\<open>ValidateCreate\<close> and \<open>ValidateUpdate\<close> are \<open>validateRule\<close>; \<open>ValidateDelete\<close> admits.\<close>

datatype rule_request = CreateRule correlation_rule | UpdateRule correlation_rule correlation_rule | DeleteRule correlation_rule

definition admit_rule :: "('re, 'tm, 'fl) go_lib \<Rightarrow> rule_request \<Rightarrow> rule_rejection option" where
  "admit_rule L req = (case req of
     CreateRule rule \<Rightarrow> validateRule L rule
   | UpdateRule old rule \<Rightarrow> validateRule L rule
   | DeleteRule rule \<Rightarrow> None)"

section \<open>Admitted conditions compile\<close>

lemma map_all_Some: "(\<forall>x \<in> set xs. f x \<noteq> None) \<longleftrightarrow> (\<exists>ys. map_all f xs = Some ys)"
  by (induction xs) (auto split: option.splits)

lemma validate_from_None:
  "validate_from L ci i ms = None \<Longrightarrow> m \<in> set ms \<Longrightarrow> \<exists>j. validate_match L ci j m = None"
  by (induction ms arbitrary: i) (auto split: option.splits)

lemma validate_match_compiles: "validate_match L ci i m = None \<Longrightarrow> compile_attribute L m \<noteq> None"
  by (auto simp: validate_match_def compile_attribute_def normalizeAttributeOp_def numeric_ops_def Let_def
      split: if_splits option.splits)

lemma validate_conditions_None:
  "validate_conditions L i conds = None \<Longrightarrow> cond \<in> set conds \<Longrightarrow>
     IsKnownEventType (rc_EventType cond) \<and> rc_Scope cond \<in> set validScopes \<and>
     compile_condition L cond \<noteq> None"
proof (induction conds arbitrary: i)
  case (Cons c conds)
  have "compile_condition L c \<noteq> None" if "validateAttributeMatches L i (rc_Attributes c) = None"
  proof -
    have "compile_attribute L m \<noteq> None" if "m \<in> set (rc_Attributes c)" for m
      using validate_from_None \<open>validateAttributeMatches L i (rc_Attributes c) = None\<close> that validate_match_compiles
      unfolding validateAttributeMatches_def by metis
    then obtain ys where "compileAttributeMatches L (rc_Attributes c) = Some ys"
      using map_all_Some [of "rc_Attributes c" "compile_attribute L"] unfolding compileAttributeMatches_def by blast
    then show ?thesis by (simp add: compile_condition_def)
  qed
  then show ?case using Cons by (auto split: if_splits option.splits)
qed simp

text \<open>C31.
  Admission and loading agree: a rule that the webhook admits is loaded by the rule engine exactly
  when its summary template parses, because all its conditions compile; its trigger and
  condition types are event types that exist, and it fires with one of the four severities. The
  template is the one part that admission does not look at.
\<close>

theorem admitted_rule_loads:
  assumes "admit_rule L req = None" and "req = CreateRule rule \<or> req = UpdateRule old rule"
  shows "(load_rule L rule = None \<longleftrightarrow>
       lib_template_parse L (om_Name (ru_Meta rule)) (rf_Summary (rs_Fires (ru_Spec rule))) = None)
    \<and> IsKnownEventType (rs_TriggerEventType (ru_Spec rule))
    \<and> rf_Severity (rs_Fires (ru_Spec rule)) \<in> {''P1'', ''P2'', ''P3'', ''P4''}
    \<and> list_all (\<lambda>c. IsKnownEventType (rc_EventType c) \<and> rc_Scope c \<in> set validScopes) (rs_Conditions (ru_Spec rule))"
proof -
  have ok: "validateRule L rule = None" using assms by (auto simp: admit_rule_def)
  then have conds: "validate_conditions L 0 (rs_Conditions (ru_Spec rule)) = None"
    and trig: "IsKnownEventType (rs_TriggerEventType (ru_Spec rule))"
    and sev: "rf_Severity (rs_Fires (ru_Spec rule)) \<in> set validSeverities"
    by (auto simp: validateRule_def Let_def split: if_splits)
  note each = validate_conditions_None [OF conds]
  obtain cs where "compileConditions L (rs_Conditions (ru_Spec rule)) = Some cs"
    using each map_all_Some [of "rs_Conditions (ru_Spec rule)" "compile_condition L"]
    unfolding compileConditions_def by blast
  then show ?thesis
    using trig sev each by (auto simp: load_rule_def validSeverities_def list_all_iff split: option.splits)
qed

theorem admitted_rule_loads_witness:
  "load_rule sample_lib (sample_rule ''evictions'' 10 ''P2'') \<noteq> None"
proof -
  have "admit_rule sample_lib (CreateRule (sample_rule ''evictions'' 10 ''P2'')) = None"
    by (simp add: admit_rule_def validateRule_def sample_rule_def IsKnownEventType_def valid_event_types_def
        validSeverities_def)
  from admitted_rule_loads [OF this] show ?thesis by (simp add: sample_lib_def)
qed

end
