(* ===== verification/Detector.thy ===== *)
theory Detector
  imports Patterns Admission Reporter
begin

text \<open>
  Automatic correlation rules (\<open>internal/autodetect/creator.go\<close>, \<open>detector.go\<close>): the creator
  writes, refreshes and expires the rules of recurring patterns, and the detector runs it once
  per tick over the correlation buffer. Formatting and parsing of timestamps is a parameter, as is
  the order in which maps are ranged over.
\<close>

definition LabelAutoGenerated :: string where
  "LabelAutoGenerated = ''rca.rca-operator.tech/auto-generated''"

definition AnnotationPatternKey :: string where
  "AnnotationPatternKey = ''rca.rca-operator.tech/pattern-key''"

definition AnnotationOccurrences :: string where
  "AnnotationOccurrences = ''rca.rca-operator.tech/occurrences''"

definition AnnotationFirstSeen :: string where
  "AnnotationFirstSeen = ''rca.rca-operator.tech/first-seen''"

definition AnnotationRuleLastSeen :: string where
  "AnnotationRuleLastSeen = ''rca.rca-operator.tech/last-seen''"

record 'w detect_env =
  dv_client :: "'w rule_client"
  dv_config :: config
  dv_format :: "gotime \<Rightarrow> string"
  dv_parse :: "string \<Rightarrow> gotime option"
  dv_order :: "string list \<Rightarrow> string list"

datatype creator_error = ListFailed kerr | CreateFailed string kerr | UpdateFailed string kerr

abbreviation rule_name :: "correlation_rule \<Rightarrow> string" where
  "rule_name r \<equiv> om_Name (ru_Meta r)"

abbreviation rule_annotation :: "correlation_rule \<Rightarrow> string \<Rightarrow> string" where
  "rule_annotation r \<equiv> map_get (om_Annotations (ru_Meta r))"

section \<open>The creator\<close>

text \<open>\<open>severityMap\<close>: a later mapping of a type replaces an earlier one.\<close>

definition severityMap :: "string \<Rightarrow> string" where
  "severityMap et = map_get (fold (\<lambda>m n. n(sm_EventType m \<mapsto> sm_Severity m)) DefaultMappings Map.empty) et"

definition higher_severity :: "string \<Rightarrow> string \<Rightarrow> string" where
  "higher_severity a b = (if severity_rank a \<ge> severity_rank b then a else b)"

definition resolveSeverity :: "event_pair \<Rightarrow> string" where
  "resolveSeverity pair = higher_severity (severityMap (ep_TriggerType pair)) (severityMap (ep_ConditionType pair))"

definition buildAutoSummary :: "event_pair \<Rightarrow> string" where
  "buildAutoSummary pair =
     ''Auto-detected: '' @ ep_TriggerType pair @ '' correlated with '' @ ep_ConditionType pair @
     (if ep_Scope pair = ''sameNode'' then '' on same node''
      else if ep_Scope pair = ''sameNamespace'' then '' in same namespace''
      else '' on same pod'')"

definition pairFromRule :: "correlation_rule \<Rightarrow> event_pair option" where
  "pairFromRule rule = (case rs_Conditions (ru_Spec rule) of
     [] \<Rightarrow> None
   | c # _ \<Rightarrow> Some (NormalizePair \<lparr>ep_TriggerType = rs_TriggerEventType (ru_Spec rule),
                                  ep_ConditionType = rc_EventType c, ep_Scope = rc_Scope c\<rparr>))"

definition listAutoRules :: "'w detect_env \<Rightarrow> 'w \<Rightarrow> kerr + correlation_rule list" where
  "listAutoRules D w = rk_list (dv_client D) w (Some (LabelAutoGenerated, ''true''))"

definition CountAutoRules :: "'w detect_env \<Rightarrow> 'w \<Rightarrow> kerr + int" where
  "CountAutoRules D w = (case listAutoRules D w of Inl err \<Rightarrow> Inl err | Inr rules \<Rightarrow> Inr (int (length rules)))"

definition is_auto :: "correlation_rule \<Rightarrow> bool" where
  "is_auto r \<longleftrightarrow> map_get (om_Labels (ru_Meta r)) LabelAutoGenerated = ''true''"

definition covers_pair :: "event_pair \<Rightarrow> correlation_rule \<Rightarrow> bool" where
  "covers_pair pair rule \<longleftrightarrow>
     \<not> is_auto rule \<and> rs_TriggerEventType (ru_Spec rule) = ep_TriggerType pair \<and>
     list_ex (\<lambda>c. rc_EventType c = ep_ConditionType pair \<and> rc_Scope c = ep_Scope pair) (rs_Conditions (ru_Spec rule))"

text \<open>A failed list counts as no conflict.\<close>

definition userRuleExists :: "'w detect_env \<Rightarrow> event_pair \<Rightarrow> 'w \<Rightarrow> bool" where
  "userRuleExists D pair w = (case rk_list (dv_client D) w None of
     Inl err \<Rightarrow> False | Inr rules \<Rightarrow> list_ex (covers_pair pair) rules)"

definition auto_rule :: "'w detect_env \<Rightarrow> gotime \<Rightarrow> string \<Rightarrow> pattern_record \<Rightarrow> correlation_rule" where
  "auto_rule D now name r =
     \<lparr>ru_Meta = \<lparr>om_Name = name, om_GenerateName = [], om_Namespace = [],
        om_Labels = [LabelAutoGenerated \<mapsto> ''true''],
        om_Annotations = [AnnotationPatternKey \<mapsto> pair_Key (pr_Pair r), AnnotationOccurrences \<mapsto> itoa (pr_Occurrences r),
          AnnotationFirstSeen \<mapsto> dv_format D (pr_FirstSeen r), AnnotationRuleLastSeen \<mapsto> dv_format D now],
        om_CreationTimestamp = 0\<rparr>,
      ru_Spec = \<lparr>rs_Priority = cf_AutoRulePriority (dv_config D), rs_AgentSelector = None, rs_TriggerEventType = ep_TriggerType (pr_Pair r),
        rs_Conditions = [\<lparr>rc_EventType = ep_ConditionType (pr_Pair r), rc_Scope = ep_Scope (pr_Pair r), rc_Negate = False,
          rc_Attributes = []\<rparr>],
        rs_Fires = \<lparr>rf_IncidentType = ep_TriggerType (pr_Pair r) @ ''-'' @ ep_ConditionType (pr_Pair r),
          rf_Severity = resolveSeverity (pr_Pair r), rf_Summary = buildAutoSummary (pr_Pair r), rf_Resource = [], rf_Scope = []\<rparr>\<rparr>\<rparr>"

text \<open>The record is updated through its pointer: the operations return it.\<close>

definition createRule ::
    "'w detect_env \<Rightarrow> gotime \<Rightarrow> string \<Rightarrow> pattern_record \<Rightarrow> 'w \<Rightarrow> creator_error option \<times> pattern_record \<times> 'w" where
  "createRule D now name r w = (case rk_create (dv_client D) w (auto_rule D now name r) of
     (Some err, w) \<Rightarrow> (Some (CreateFailed name err), r, w)
   | (None, w) \<Rightarrow> (None, r\<lparr>pr_RuleName := name\<rparr>, w))"

definition refreshed_rule :: "'w detect_env \<Rightarrow> gotime \<Rightarrow> correlation_rule \<Rightarrow> pattern_record \<Rightarrow> correlation_rule" where
  "refreshed_rule D now rule r =
     rule\<lparr>ru_Meta := (ru_Meta rule)\<lparr>om_Annotations := (om_Annotations (ru_Meta rule))
            (AnnotationPatternKey \<mapsto> pair_Key (pr_Pair r), AnnotationOccurrences \<mapsto> itoa (pr_Occurrences r),
             AnnotationRuleLastSeen \<mapsto> dv_format D now)\<rparr>,
          ru_Spec := (ru_Spec rule)\<lparr>rs_Fires := (rs_Fires (ru_Spec rule))\<lparr>rf_Summary := buildAutoSummary (pr_Pair r)\<rparr>\<rparr>\<rparr>"

definition updateAnnotations ::
    "'w detect_env \<Rightarrow> gotime \<Rightarrow> correlation_rule \<Rightarrow> pattern_record \<Rightarrow> 'w \<Rightarrow> creator_error option \<times> 'w" where
  "updateAnnotations D now rule r w = (case rk_update (dv_client D) w (refreshed_rule D now rule r) of
     (Some err, w) \<Rightarrow> (Some (UpdateFailed (rule_name rule) err), w)
   | (None, w) \<Rightarrow> (None, w))"

definition EnsureRule ::
    "'w detect_env \<Rightarrow> gotime \<Rightarrow> pattern_record \<Rightarrow> 'w \<Rightarrow> creator_error option \<times> pattern_record \<times> 'w" where
  "EnsureRule D now r w =
     (let r = r\<lparr>pr_Pair := NormalizePair (pr_Pair r)\<rparr>
      in if \<not> IsValidScopePair (pr_Pair r) then (None, r, w)
         else let name = RuleName (pr_Pair r)
         in case CountAutoRules D w of
              Inl err \<Rightarrow> (Some (ListFailed err), r, w)
            | Inr count \<Rightarrow>
                if count \<ge> cf_MaxAutoRules (dv_config D) \<and> pr_RuleName r = [] then (None, r, w)
                else if userRuleExists D (pr_Pair r) w then (None, r, w)
                else case rk_get (dv_client D) w name of
                       Inr existing \<Rightarrow> (case updateAnnotations D now existing r w of (err, w) \<Rightarrow> (err, r, w))
                     | Inl err \<Rightarrow> createRule D now name r w)"

text \<open>Delete the rules chosen, in turn; a failed deletion is only logged.\<close>

definition delete_rules :: "'w detect_env \<Rightarrow> correlation_rule list \<Rightarrow> 'w \<Rightarrow> 'w" where
  "delete_rules D rules w = fold (\<lambda>rule w. snd (rk_delete (dv_client D) w (rule_name rule))) rules w"

definition stale_rule :: "'w detect_env \<Rightarrow> gotime \<Rightarrow> correlation_rule \<Rightarrow> bool" where
  "stale_rule D now rule =
     (let lastSeen = (case dv_parse D (rule_annotation rule AnnotationRuleLastSeen) of
                        None \<Rightarrow> om_CreationTimestamp (ru_Meta rule) | Some t \<Rightarrow> t)
      in cf_ExpiryDuration (dv_config D) < time_sub now lastSeen)"

definition expires :: "'w detect_env \<Rightarrow> gotime \<Rightarrow> correlation_rule \<Rightarrow> bool" where
  "expires D now rule =
     (case pairFromRule rule of
        Some pair \<Rightarrow> if \<not> IsValidScopePair pair then True else stale_rule D now rule
      | None \<Rightarrow> stale_rule D now rule)"

definition ExpireStaleRules :: "'w detect_env \<Rightarrow> gotime \<Rightarrow> 'w \<Rightarrow> kerr option \<times> 'w" where
  "ExpireStaleRules D now w = (case listAutoRules D w of
     Inl err \<Rightarrow> (Some err, w)
   | Inr rules \<Rightarrow> (None, delete_rules D (filter (expires D now) rules) w))"

definition CleanupInvalidRules :: "'w detect_env \<Rightarrow> 'w \<Rightarrow> kerr option \<times> 'w" where
  "CleanupInvalidRules D w = (case listAutoRules D w of
     Inl err \<Rightarrow> (Some err, w)
   | Inr rules \<Rightarrow> (None, delete_rules D (filter (\<lambda>rule. case pairFromRule rule of
         None \<Rightarrow> True | Some pair \<Rightarrow> \<not> IsValidScopePair pair) rules) w))"

text \<open>The number \<open>strconv.Atoi\<close> returns beside its error, which the caller drops: 0 for a text that is no
  number, the nearest int64 for one out of range. \<open>uint_scan\<close> is the loop of \<open>ParseUint\<close>, which stops at
  the first digit that exceeds 64 bits.\<close>

fun uint_scan :: "nat \<Rightarrow> string \<Rightarrow> nat option" where
  "uint_scan n [] = Some n"
| "uint_scan n (c # cs) =
     (if \<not> is_digit c then None
      else let n = 10 * n + (byte_of c - 48) in if 2 ^ 64 \<le> n then Some (2 ^ 64 - 1) else uint_scan n cs)"

definition atoi_value :: "string \<Rightarrow> int" where
  "atoi_value s =
     (let (neg, ds) = (case s of [] \<Rightarrow> (False, [])
                       | c # cs \<Rightarrow> if c = CHR ''-'' then (True, cs)
                                   else if c = CHR ''+'' then (False, cs) else (False, s))
      in if ds = [] then 0
         else case uint_scan 0 ds of None \<Rightarrow> 0
              | Some un \<Rightarrow> if \<not> neg \<and> 2 ^ 63 \<le> un then max_int64
                           else if neg \<and> 2 ^ 63 < un then min_int64
                           else if neg then - int un else int un)"

lemma foldl_digits_ge: "n \<le> foldl (\<lambda>v c. 10 * v + (byte_of c - 48)) (n :: nat) ds"
proof (induction ds arbitrary: n)
  case (Cons c ds)
  have "n \<le> 10 * n + (byte_of c - 48)" by simp
  also have "\<dots> \<le> foldl (\<lambda>v c. 10 * v + (byte_of c - 48)) (10 * n + (byte_of c - 48)) ds" by (rule Cons)
  finally show ?case by simp
qed simp

lemma uint_scan_small:
  assumes "list_all is_digit ds" "foldl (\<lambda>v c. 10 * v + (byte_of c - 48)) n ds < 2 ^ 64"
  shows "uint_scan n ds = Some (foldl (\<lambda>v c. 10 * v + (byte_of c - 48)) n ds)"
  using assms
proof (induction ds arbitrary: n)
  case (Cons c ds)
  have "10 * n + (byte_of c - 48) < 2 ^ 64"
    using foldl_digits_ge [of "10 * n + (byte_of c - 48)" ds] Cons.prems(2) by simp
  then show ?case using Cons by (simp add: Let_def)
qed simp

lemma atoi_value_atoi:
  assumes "atoi s = Some n"
  shows "atoi_value s = n"
proof -
  obtain neg ds where p: "(case s of [] \<Rightarrow> (False, [])
      | c # cs \<Rightarrow> if c = CHR ''-'' then (True, cs) else if c = CHR ''+'' then (False, cs) else (False, s)) = (neg, ds)"
    by fastforce
  have ds: "ds \<noteq> []" "list_all is_digit ds" "in_int64 (if neg then - int (digits_val ds) else int (digits_val ds))"
    "n = (if neg then - int (digits_val ds) else int (digits_val ds))"
    using assms unfolding atoi_def p by (auto simp: Let_def split: if_splits)
  then have b: "\<not> neg \<Longrightarrow> digits_val ds < 2 ^ 63" "neg \<Longrightarrow> digits_val ds \<le> 2 ^ 63"
    by (simp_all add: in_int64_def min_int64_def max_int64_def)
  then have "digits_val ds < 2 ^ 64" by (cases neg) simp_all
  then have "uint_scan 0 ds = Some (digits_val ds)"
    using uint_scan_small [OF ds(2), of 0] by (simp add: digits_val_def)
  then show ?thesis using ds b unfolding atoi_value_def p by (cases neg) (simp_all add: not_less not_le)
qed
text \<open>What the detector itself writes is read back as it was.\<close>

lemma atoi_value_itoa: "in_int64 n \<Longrightarrow> atoi_value (itoa n) = n"
  by (rule atoi_value_atoi) simp

text \<open>An unparsable time counts as the zero time.\<close>

definition record_of_rule :: "'w detect_env \<Rightarrow> correlation_rule \<Rightarrow> pattern_record" where
  "record_of_rule D rule =
     (let t = (\<lambda>k. case dv_parse D (rule_annotation rule k) of None \<Rightarrow> 0 | Some t \<Rightarrow> t);
          pair = \<lparr>ep_TriggerType = rs_TriggerEventType (ru_Spec rule), ep_ConditionType = [], ep_Scope = ''samePod''\<rparr>;
          pair = (case rs_Conditions (ru_Spec rule) of [] \<Rightarrow> pair
                  | c # _ \<Rightarrow> pair\<lparr>ep_ConditionType := rc_EventType c, ep_Scope := rc_Scope c\<rparr>)
      in \<lparr>pr_Pair = NormalizePair pair, pr_FirstSeen = t AnnotationFirstSeen, pr_LastSeen = t AnnotationRuleLastSeen,
          pr_Occurrences = atoi_value (rule_annotation rule AnnotationOccurrences),
          pr_RuleName = rule_name rule\<rparr>)"

definition merge_record :: "pattern_record \<Rightarrow> accumulator \<Rightarrow> accumulator" where
  "merge_record r records = (case map_of records (pair_Key (pr_Pair r)) of
     Some e \<Rightarrow> AList.update (pair_Key (pr_Pair r))
       (e\<lparr>pr_Occurrences := max (pr_Occurrences e) (pr_Occurrences r),
          pr_FirstSeen := (if time_before (pr_FirstSeen r) (pr_FirstSeen e) then pr_FirstSeen r else pr_FirstSeen e),
          pr_LastSeen := (if time_after (pr_LastSeen r) (pr_LastSeen e) then pr_LastSeen r else pr_LastSeen e)\<rparr>) records
   | None \<Rightarrow> AList.update (pair_Key (pr_Pair r)) r records)"

definition LoadExisting :: "'w detect_env \<Rightarrow> 'w \<Rightarrow> kerr + accumulator" where
  "LoadExisting D w = (case listAutoRules D w of
     Inl err \<Rightarrow> Inl err
   | Inr rules \<Rightarrow>
       Inr (fold (\<lambda>rule records.
              if rule_annotation rule AnnotationPatternKey = [] \<or> \<not> IsValidScopePair (pr_Pair (record_of_rule D rule)) then records
              else merge_record (record_of_rule D rule) records) rules []))"

section \<open>The detector\<close>

record detector =
  dt_buffer :: buffer
  dt_accumulator :: accumulator
  dt_seeded :: bool

definition NewDetector :: "buffer \<Rightarrow> detector" where
  "NewDetector buf = \<lparr>dt_buffer = buf, dt_accumulator = [], dt_seeded = False\<rparr>"

definition seedFromExisting :: "'w detect_env \<Rightarrow> 'w \<Rightarrow> detector \<Rightarrow> detector" where
  "seedFromExisting D w d = (case LoadExisting D w of
     Inl err \<Rightarrow> d
   | Inr records \<Rightarrow>
       d\<lparr>dt_accumulator := fold (\<lambda>k acc. case map_of records k of None \<Rightarrow> acc | Some r \<Rightarrow> Seed r acc)
           (dv_order D (map fst records)) (dt_accumulator d)\<rparr>)"

text \<open>The rules of the ready patterns, each record stored back as its pointer would; errors are logged.\<close>

definition ensure_rules ::
    "'w detect_env \<Rightarrow> gotime \<Rightarrow> (string \<times> pattern_record) list \<Rightarrow> accumulator \<times> 'w \<Rightarrow> accumulator \<times> 'w" where
  "ensure_rules D now ready st =
     fold (\<lambda>(k, r) (acc, w). case EnsureRule D now r w of (err, r', w') \<Rightarrow> (AList.update k r' acc, w')) ready st"

definition tick :: "'w detect_env \<Rightarrow> gotime \<Rightarrow> detector \<Rightarrow> 'w \<Rightarrow> detector \<times> 'w" where
  "tick D now d w =
     (let d = (if dt_seeded d then d else (seedFromExisting D w d)\<lparr>dt_seeded := True\<rparr>);
          (entries, buf) = Snapshot now (dt_buffer d);
          d = d\<lparr>dt_buffer := buf\<rparr>
      in if entries = [] then (d, w)
         else let acc = Record now (MinePatterns (dv_order D) entries) (dt_accumulator d);
                  (acc, w) = ensure_rules D now (ReadyPatterns (dv_order D) (dv_config D) acc) (acc, w)
              in (d\<lparr>dt_accumulator := acc\<rparr>, snd (ExpireStaleRules D now w)))"

definition detector_Start :: "'w detect_env \<Rightarrow> 'w \<Rightarrow> 'w" where
  "detector_Start D w = snd (CleanupInvalidRules D w)"

section \<open>The store of rules\<close>

definition rule_selected :: "(string \<times> string) option \<Rightarrow> correlation_rule \<Rightarrow> bool" where
  "rule_selected sel r = (case sel of None \<Rightarrow> True | Some (k, v) \<Rightarrow> om_Labels (ru_Meta r) k = Some v)"

text \<open>
  The API server on rules: names are unique, lists and reads answer with stored rules, a write
  touches the rule of its name only, and a failed write leaves the store alone.
\<close>

locale rule_store =
  fixes K :: "'w rule_client" and inv :: "'w \<Rightarrow> bool" and rules :: "'w \<Rightarrow> correlation_rule list"
  assumes rule_names: "inv w \<Longrightarrow> inj_on rule_name (set (rules w))"
    and list_rules: "inv w \<Longrightarrow> rk_list K w sel = Inr items \<Longrightarrow>
          distinct items \<and> set items = {r \<in> set (rules w). rule_selected sel r}"
    and get_rule: "inv w \<Longrightarrow> rk_get K w name = Inr r \<Longrightarrow> r \<in> set (rules w) \<and> rule_name r = name"
    and create_rule: "inv w \<Longrightarrow> rk_create K w r = (None, w') \<Longrightarrow>
          inv w' \<and> (\<exists>ts. set (rules w') = insert (r\<lparr>ru_Meta := (ru_Meta r)\<lparr>om_CreationTimestamp := ts\<rparr>\<rparr>) (set (rules w)))"
    and update_rule: "inv w \<Longrightarrow> rk_update K w r = (None, w') \<Longrightarrow> rule_name r \<in> rule_name ` set (rules w) \<Longrightarrow>
          inv w' \<and> set (rules w') = insert r {x \<in> set (rules w). rule_name x \<noteq> rule_name r}"
    and delete_rule: "inv w \<Longrightarrow> rk_delete K w name = (None, w') \<Longrightarrow>
          inv w' \<and> set (rules w') = {x \<in> set (rules w). rule_name x \<noteq> name}"
    and create_rule_failed: "inv w \<Longrightarrow> rk_create K w r = (Some e, w') \<Longrightarrow> inv w' \<and> rules w' = rules w"
    and update_rule_failed: "inv w \<Longrightarrow> rk_update K w r = (Some e, w') \<Longrightarrow> inv w' \<and> rules w' = rules w"
    and delete_rule_failed: "inv w \<Longrightarrow> rk_delete K w name = (Some e, w') \<Longrightarrow> inv w' \<and> rules w' = rules w"

definition auto_rules :: "correlation_rule list \<Rightarrow> correlation_rule set" where
  "auto_rules rs = {r \<in> set rs. is_auto r}"

lemma is_auto_selected: "is_auto r \<longleftrightarrow> rule_selected (Some (LabelAutoGenerated, ''true'')) r"
  by (auto simp: is_auto_def rule_selected_def map_get_def split: option.splits)

lemma refreshed_rule_simps [simp]:
  "rule_name (refreshed_rule D now rule r) = rule_name rule" "is_auto (refreshed_rule D now rule r) = is_auto rule"
  by (simp_all add: refreshed_rule_def is_auto_def)

lemma auto_rule_simps [simp]:
  "rule_name (auto_rule D now name r) = name" "is_auto (auto_rule D now name r)"
  by (simp_all add: auto_rule_def is_auto_def)

lemma RuleName_prefix: "has_prefix (RuleName p) ''auto''"
proof -
  let ?n = "''auto-'' @ to_lower (ep_TriggerType p) @ ''-'' @ to_lower (ep_ConditionType p) @ ''-'' @ to_lower (ep_Scope p)"
  define m where "m = take 63 (map (\<lambda>c. if c = CHR ''_'' then CHR ''-'' else c) ?n)"
  have m: "RuleName p = trim_right (\<lambda>c. c = CHR ''-'') m" by (auto simp: RuleName_def m_def Let_def)
  obtain v where v: "m = ''auto'' @ v" by (simp add: m_def)
  have "trim_right q (a @ v) = a @ trim_right q v \<or> trim_right q (a @ v) = trim_right q a" for q and a v :: string
    by (auto simp: trim_right_def dropWhile_append)
  moreover have "trim_right (\<lambda>c. c = CHR ''-'') ''auto'' = ''auto''" by (rule trim_right_id) simp_all
  ultimately show ?thesis unfolding m v has_prefix_def by (metis append_Nil2 take_all append_eq_conv_conj)
qed

text \<open>The effect of \<open>EnsureRule\<close>: nothing, one refreshed rule, or one new rule below the cap.\<close>

locale detector_store = rule_store "dv_client D" inv rules
  for D :: "'w detect_env" and inv :: "'w \<Rightarrow> bool" and rules :: "'w \<Rightarrow> correlation_rule list"
begin

lemma auto_list: "inv w \<Longrightarrow> listAutoRules D w = Inr items \<Longrightarrow> distinct items \<and> set items = auto_rules (rules w)"
  using list_rules [of w "Some (LabelAutoGenerated, ''true'')" items]
  by (auto simp: listAutoRules_def auto_rules_def is_auto_selected)

lemma count_auto: "inv w \<Longrightarrow> CountAutoRules D w = Inr n \<Longrightarrow> n = int (card (auto_rules (rules w)))"
  using auto_list distinct_card by (fastforce simp: CountAutoRules_def split: sum.splits)

text \<open>\<open>refreshes n w w'\<close>: the rule named \<open>n\<close> was replaced; \<open>creates w w'\<close>: a generated rule was added.\<close>

definition refreshes :: "string \<Rightarrow> 'w \<Rightarrow> 'w \<Rightarrow> bool" where
  "refreshes n w w' \<longleftrightarrow> (\<exists>x \<in> set (rules w). \<exists>x'. rule_name x = n \<and> rule_name x' = n \<and> is_auto x' = is_auto x \<and>
     set (rules w') = insert x' {y \<in> set (rules w). rule_name y \<noteq> n})"

definition creates :: "'w \<Rightarrow> 'w \<Rightarrow> bool" where
  "creates w w' \<longleftrightarrow> (\<exists>x. is_auto x \<and> set (rules w') = insert x (set (rules w)))"

lemma update_effect:
  assumes "inv w" "rk_get (dv_client D) w n = Inr x" "updateAnnotations D now x r w = (err, w')"
  shows "inv w' \<and> (set (rules w') = set (rules w) \<or> refreshes n w w')"
proof -
  have x: "x \<in> set (rules w)" "rule_name x = n" using get_rule [OF assms(1,2)] by simp_all
  obtain o1 w1 where u: "rk_update (dv_client D) w (refreshed_rule D now x r) = (o1, w1)" by force
  then have w1: "w' = w1" using assms(3) by (auto simp: updateAnnotations_def split: option.splits)
  show ?thesis
  proof (cases o1)
    case None
    have "inv w1 \<and> set (rules w1) = insert (refreshed_rule D now x r) {y \<in> set (rules w). rule_name y \<noteq> n}"
      using update_rule [OF assms(1) u [unfolded None]] x by auto
    then have "inv w1" "refreshes n w w1"
      unfolding refreshes_def using x by (auto intro!: bexI [of _ x] exI [of _ "refreshed_rule D now x r"])
    then show ?thesis using w1 by simp
  next
    case (Some e)
    then show ?thesis using update_rule_failed [OF assms(1) u [unfolded Some]] w1 by simp
  qed
qed

lemma create_effect:
  assumes "inv w" "createRule D now n r w = (err, r', w')"
  shows "inv w' \<and> (set (rules w') = set (rules w) \<or> creates w w')"
proof -
  obtain o1 w1 where c: "rk_create (dv_client D) w (auto_rule D now n r) = (o1, w1)" by force
  then have w1: "w' = w1" using assms(2) by (auto simp: createRule_def split: option.splits)
  show ?thesis
  proof (cases o1)
    case None
    let ?x = "\<lambda>ts. (auto_rule D now n r)\<lparr>ru_Meta := (ru_Meta (auto_rule D now n r))\<lparr>om_CreationTimestamp := ts\<rparr>\<rparr>"
    have "is_auto (?x ts)" for ts by (simp add: is_auto_def auto_rule_def)
    then show ?thesis using create_rule [OF assms(1) c [unfolded None]] w1 unfolding creates_def by blast
  next
    case (Some e)
    then show ?thesis using create_rule_failed [OF assms(1) c [unfolded Some]] w1 by simp
  qed
qed

lemma ensure_effect:
  assumes "inv w" "EnsureRule D now r w = (err, r', w')"
  shows "inv w' \<and> (set (rules w') = set (rules w) \<or> refreshes (RuleName (NormalizePair (pr_Pair r))) w w' \<or>
    creates w w' \<and> (int (card (auto_rules (rules w))) < cf_MaxAutoRules (dv_config D) \<or> pr_RuleName r \<noteq> []))"
proof (cases "w' = w")
  case True
  then show ?thesis using assms(1) by simp
next
  case False
  let ?r = "r\<lparr>pr_Pair := NormalizePair (pr_Pair r)\<rparr>" and ?n = "RuleName (NormalizePair (pr_Pair r))"
  obtain count where c: "CountAutoRules D w = Inr count" "count < cf_MaxAutoRules (dv_config D) \<or> pr_RuleName r \<noteq> []"
    using assms(2) False by (auto simp: EnsureRule_def Let_def split: if_splits sum.splits)
  have cap: "int (card (auto_rules (rules w))) < cf_MaxAutoRules (dv_config D) \<or> pr_RuleName r \<noteq> []"
    using c count_auto [OF assms(1)] by simp
  show ?thesis
  proof (cases "rk_get (dv_client D) w ?n")
    case (Inr x)
    then have "updateAnnotations D now x ?r w = (err, w')"
      using assms(2) False by (auto simp: EnsureRule_def Let_def split: if_splits sum.splits prod.splits)
    from update_effect [OF assms(1) Inr this] show ?thesis by blast
  next
    case (Inl e)
    then have "createRule D now ?n ?r w = (err, r', w')"
      using assms(2) False by (auto simp: EnsureRule_def Let_def split: if_splits sum.splits prod.splits)
    from create_effect [OF assms(1) this] cap show ?thesis by blast
  qed
qed

text \<open>No operation of the detector touches a rule that is not generated and whose name is not one of its own.\<close>

definition keeps_user :: "correlation_rule \<Rightarrow> 'w \<Rightarrow> bool" where
  "keeps_user u w \<longleftrightarrow> inv w \<and> u \<in> set (rules w)"

lemma ensure_keeps:
  assumes "keeps_user u w" "\<not> has_prefix (rule_name u) ''auto''" "EnsureRule D now r w = (err, r', w')"
  shows "keeps_user u w'"
proof -
  have "rule_name u \<noteq> RuleName (NormalizePair (pr_Pair r))" using assms(2) RuleName_prefix by metis
  with ensure_effect [OF _ assms(3)] assms(1) show ?thesis
    unfolding keeps_user_def refreshes_def creates_def by auto
qed

lemma ensure_rules_keeps:
  "keeps_user u (snd st) \<Longrightarrow> \<not> has_prefix (rule_name u) ''auto'' \<Longrightarrow> keeps_user u (snd (ensure_rules D now ready st))"
  unfolding ensure_rules_def
proof (induction ready arbitrary: st)
  case (Cons kr ready)
  obtain k r where kr: "kr = (k, r)" by force
  obtain acc w where st: "st = (acc, w)" by force
  obtain err r' w' where e: "EnsureRule D now r w = (err, r', w')" by (metis prod.collapse)
  have "keeps_user u w'" using ensure_keeps [OF _ Cons.prems(2) e] Cons.prems(1) st by simp
  then show ?case using Cons.IH [of "(AList.update k r' acc, w')"] Cons.prems(2) kr st e by simp
qed simp

lemma delete_keeps:
  assumes "keeps_user u w" "rule_name u \<notin> rule_name ` set rs"
  shows "keeps_user u (delete_rules D rs w)"
  using assms unfolding delete_rules_def
proof (induction rs arbitrary: w)
  case (Cons x rs)
  obtain o1 w1 where d: "rk_delete (dv_client D) w (rule_name x) = (o1, w1)" by force
  have "keeps_user u w1"
    using Cons.prems delete_rule [of w "rule_name x" w1] delete_rule_failed [of w "rule_name x" _ w1] d
    by (cases o1) (auto simp: keeps_user_def)
  then show ?case using Cons.IH [of w1] Cons.prems(2) d by simp
qed simp

lemma auto_names:
  assumes "keeps_user u w" "\<not> is_auto u" "set rs \<subseteq> auto_rules (rules w)"
  shows "rule_name u \<notin> rule_name ` set rs"
proof
  assume "rule_name u \<in> rule_name ` set rs"
  then obtain x where "x \<in> set (rules w)" "is_auto x" "rule_name u = rule_name x" using assms(3) by (auto simp: auto_rules_def)
  then show False using assms(1,2) inj_onD [OF rule_names] unfolding keeps_user_def by metis
qed

lemma delete_auto_keeps:
  assumes "keeps_user u w" "\<not> is_auto u" "listAutoRules D w = Inr items"
  shows "keeps_user u (delete_rules D (filter P items) w)"
proof (rule delete_keeps [OF assms(1)], rule auto_names [OF assms(1,2)])
  show "set (filter P items) \<subseteq> auto_rules (rules w)"
    using auto_list [OF _ assms(3)] assms(1) by (auto simp: keeps_user_def)
qed

lemma expire_keeps: "keeps_user u w \<Longrightarrow> \<not> is_auto u \<Longrightarrow> keeps_user u (snd (ExpireStaleRules D now w))"
  by (cases "listAutoRules D w") (simp_all add: ExpireStaleRules_def delete_auto_keeps)

lemma cleanup_keeps: "keeps_user u w \<Longrightarrow> \<not> is_auto u \<Longrightarrow> keeps_user u (snd (CleanupInvalidRules D w))"
  by (cases "listAutoRules D w") (simp_all add: CleanupInvalidRules_def delete_auto_keeps)

lemma tick_keeps:
  assumes "keeps_user u w" "\<not> is_auto u" "\<not> has_prefix (rule_name u) ''auto''"
  shows "keeps_user u (snd (tick D now d w))"
proof (cases "snd (tick D now d w) = w")
  case True
  then show ?thesis using assms(1) by simp
next
  case False
  then obtain ready acc where "snd (tick D now d w) = snd (ExpireStaleRules D now (snd (ensure_rules D now ready (acc, w))))"
    by (auto simp: tick_def Let_def case_prod_unfold split: if_splits)
  then show ?thesis using expire_keeps [OF ensure_rules_keeps [OF _ assms(3)] assms(2)] assms(1) by simp
qed

lemma ensure_cap:
  assumes "inv w" "pr_RuleName r = []" "EnsureRule D now r w = (err, r', w')"
  shows "int (card (auto_rules (rules w'))) \<le> max (int (card (auto_rules (rules w)))) (cf_MaxAutoRules (dv_config D))"
proof -
  have fin: "finite (auto_rules (rules w))" by (simp add: auto_rules_def)
  consider (same) "set (rules w') = set (rules w)" | (refresh) n where "refreshes n w w'"
    | (new) "creates w w'" "int (card (auto_rules (rules w))) < cf_MaxAutoRules (dv_config D)"
    using ensure_effect [OF assms(1,3)] assms(2) by blast
  then show ?thesis
  proof cases
    case same
    then show ?thesis by (simp add: auto_rules_def)
  next
    case refresh
    then obtain x x' where x: "x \<in> set (rules w)" "rule_name x = n" "rule_name x' = n" "is_auto x' = is_auto x"
      "set (rules w') = insert x' {y \<in> set (rules w). rule_name y \<noteq> n}" by (auto simp: refreshes_def)
    have "rule_name y = n \<longleftrightarrow> y = x" if "y \<in> set (rules w)" for y
      using inj_onD [OF rule_names [OF assms(1)] _ that x(1)] x(2) by auto
    then have "set (rules w') = insert x' (set (rules w) - {x})" using x(5) by auto
    then have "auto_rules (rules w') = (if is_auto x then insert x' (auto_rules (rules w) - {x}) else auto_rules (rules w))"
      using x(1,4) by (auto simp: auto_rules_def)
    moreover have "card (insert x' (auto_rules (rules w) - {x})) \<le> card (auto_rules (rules w))" if "is_auto x"
    proof -
      have "x \<in> auto_rules (rules w)" using x(1) that by (simp add: auto_rules_def)
      then have "card (auto_rules (rules w) - {x}) + 1 = card (auto_rules (rules w))"
        using card_Suc_Diff1 [OF fin] by simp
      then show ?thesis using card_insert_le_m1 [of "card (auto_rules (rules w))" "auto_rules (rules w) - {x}" x'] by simp
    qed
    ultimately show ?thesis by auto
  next
    case new
    then obtain x where "auto_rules (rules w') = insert x (auto_rules (rules w))" by (auto simp: creates_def auto_rules_def)
    then show ?thesis using new(2) card_insert_if [OF fin, of x] by auto
  qed
qed

end

section \<open>The rule of a mined pattern\<close>

lemma severityMap_known: "\<not> is_lifecycle_event e \<Longrightarrow> severityMap (event_type e) \<in> set validSeverities"
  by (cases e) (simp_all add: event_type_def is_lifecycle_event_def severityMap_def DefaultMappings_def mk_mapping_def validSeverities_def)

lemma cooccurring_types:
  assumes "IsValidScopePair p" "cooccurring entries p"
  shows "IsKnownEventType (ep_TriggerType p) \<and> IsKnownEventType (ep_ConditionType p) \<and> resolveSeverity p \<in> set validSeverities"
proof -
  obtain a b :: entry where ab: "event_type (en_Event a) = ep_TriggerType p" "event_type (en_Event b) = ep_ConditionType p"
    "scopeMatches (en_Event a) (en_Event b) (ep_Scope p)"
    using assms(2) unfolding cooccurring_def by blast
  have "ep_Scope p \<in> {''samePod'', ''sameNode'', ''sameNamespace''}" using scope_facts [OF assms(1)] by blast
  then have "\<not> is_lifecycle_event (en_Event a) \<and> \<not> is_lifecycle_event (en_Event b)"
    using ab(3) by (auto simp: scopeMatches_def Let_def ExtractBase_lifecycle zero_base_def)
  then have "severityMap (ep_TriggerType p) \<in> set validSeverities" "severityMap (ep_ConditionType p) \<in> set validSeverities"
    using severityMap_known ab(1,2) by metis+
  then show ?thesis
    using event_type_known ab(1,2) by (auto simp: resolveSeverity_def higher_severity_def) (metis event_type_known)+
qed

lemma auto_rule_load:
  "load_rule L (auto_rule D now name r) = map_option (\<lambda>tmpl.
     \<lparr>lr_name = name, lr_priority = cf_AutoRulePriority (dv_config D), lr_trigger = ep_TriggerType (pr_Pair r),
      lr_conditions = [\<lparr>lc_eventType = ep_ConditionType (pr_Pair r), lc_scope = ep_Scope (pr_Pair r), lc_negate = False, lc_attributes = []\<rparr>],
      lr_fires = rs_Fires (ru_Spec (auto_rule D now name r)), lr_tmpl = tmpl\<rparr>)
    (lib_template_parse L name (buildAutoSummary (pr_Pair r)))"
  by (simp add: load_rule_def auto_rule_def compileConditions_def compile_condition_def compileAttributeMatches_def split: option.splits)

section \<open>An in-memory store of rules\<close>

definition mem_rules :: "correlation_rule list rule_client" where
  "mem_rules = \<lparr>rk_list = (\<lambda>w sel. Inr (filter (rule_selected sel) w)),
     rk_get = (\<lambda>w name. case find (\<lambda>r. rule_name r = name) w of None \<Rightarrow> Inl NotFound | Some r \<Rightarrow> Inr r),
     rk_create = (\<lambda>w r. if rule_name r \<in> rule_name ` set w then (Some (KubeError ''already exists''), w) else (None, r # w)),
     rk_update = (\<lambda>w r. if rule_name r \<in> rule_name ` set w then (None, r # filter (\<lambda>x. rule_name x \<noteq> rule_name r) w) else (Some NotFound, w)),
     rk_delete = (\<lambda>w name. if name \<in> rule_name ` set w then (None, filter (\<lambda>x. rule_name x \<noteq> name) w) else (Some NotFound, w))\<rparr>"

definition sample_detect :: "correlation_rule list detect_env" where
  "sample_detect = \<lparr>dv_client = mem_rules, dv_config = DefaultConfig\<lparr>cf_MinOccurrences := 1, cf_MinTimeSpan := 0\<rparr>,
     dv_format = itoa, dv_parse = atoi, dv_order = rev\<rparr>"

interpretation mem_detector: detector_store sample_detect "\<lambda>w. distinct (map rule_name w)" "\<lambda>w. w"
proof (intro detector_store.intro, unfold_locales, goal_cases)
  case (2 w sel items)
  then show ?case by (auto simp: sample_detect_def mem_rules_def distinct_map)
next
  case (4 w r w')
  then have "set w' = insert (r\<lparr>ru_Meta := (ru_Meta r)\<lparr>om_CreationTimestamp := om_CreationTimestamp (ru_Meta r)\<rparr>\<rparr>) (set w)"
    "distinct (map rule_name w')" by (auto simp: sample_detect_def mem_rules_def split: if_splits)
  then show ?case by blast
qed (auto simp: sample_detect_def mem_rules_def distinct_map distinct_map_filter find_Some_iff split: if_splits option.splits intro: inj_on_subset)

lemma mem_detector_store: "rule_store (dv_client sample_detect) (\<lambda>w. distinct (map rule_name w)) (\<lambda>w. w)"
  by (rule mem_detector.rule_store_axioms)

section \<open>Properties\<close>

text \<open>C32.
  The rule written for a mined pattern is one the operator can use: the admission webhook accepts
  it as long as the configured priority is positive, the rule engine loads it when its summary
  parses as a template, and it fires on an event of the very window the pattern was mined from.
\<close>

theorem mined_rule_works:
  assumes "rearranges order" "\<forall>en \<in> set entries. CHR '':'' \<notin> set (be_Namespace (ExtractBase (en_Event en)))"
    and "pr_Pair r \<in> set (MinePatterns order entries)" "1 \<le> cf_AutoRulePriority (dv_config D)"
    and "lib_template_parse L name (buildAutoSummary (pr_Pair r)) = Some tmpl"
  shows "validateRule L (auto_rule D now name r) = None \<and>
    (\<exists>rule. load_rule L (auto_rule D now name r) = Some rule \<and> (\<exists>en \<in> set entries. loaded_fires L rule (en_Event en) entries))"
proof -
  let ?p = "pr_Pair r"
  have p: "IsValidScopePair ?p" "cooccurring entries ?p" using assms(3) MinePatterns_set [OF assms(1,2)] by blast+
  have scope: "ep_Scope ?p \<in> set validScopes" using scope_facts [OF p(1)] by (auto simp: validScopes_def)
  have "validateRule L (auto_rule D now name r) = None"
    using cooccurring_types [OF p] scope assms(4)
    by (simp add: validateRule_def auto_rule_def validateAttributeMatches_def Let_def)
  moreover obtain a b where "a \<in> set entries" "b \<in> set entries" "event_type (en_Event a) = ep_TriggerType ?p"
    "event_type (en_Event b) = ep_ConditionType ?p" "scopeMatches (en_Event a) (en_Event b) (ep_Scope ?p)"
    using p(2) unfolding cooccurring_def by blast
  ultimately show ?thesis
    using assms(5) by (auto simp: auto_rule_load loaded_fires_def list_ex_iff condition_entry_def attributesMatch_def Let_def)
qed

theorem mined_rule_works_witness:
  "\<exists>rule. load_rule sample_lib (auto_rule sample_detect 5 ''auto-rule''
      \<lparr>pr_Pair = sample_pair, pr_FirstSeen = 1, pr_LastSeen = 5, pr_Occurrences = 6, pr_RuleName = []\<rparr>) = Some rule \<and>
    list_ex (\<lambda>en. loaded_fires sample_lib rule (en_Event en) sample_window) sample_window"
proof -
  let ?r = "\<lparr>pr_Pair = sample_pair, pr_FirstSeen = 1, pr_LastSeen = 5, pr_Occurrences = 6, pr_RuleName = []\<rparr>"
  have "pr_Pair ?r \<in> set (MinePatterns rev sample_window)" using sample_mined by simp
  moreover have "1 \<le> cf_AutoRulePriority (dv_config sample_detect)" by (simp add: sample_detect_def DefaultConfig_def)
  moreover have "lib_template_parse sample_lib n t = Some t" for n t by (simp add: sample_lib_def)
  ultimately show ?thesis
    using mined_rule_works [OF sample_window_plain(2,1), of ?r sample_detect sample_lib "''auto-rule''" _ 5] by (auto simp: list_ex_iff)
qed

text \<open>C33.
  The detector leaves the rules of users alone: a rule that does not carry the label of generated
  rules and whose name does not start with \<open>auto\<close> is stored unchanged after a tick, and after
  the cleanup at start, whatever requests fail. Without the condition on the name this would be
  wrong: a user's rule that has the name of a pattern is refreshed as if it were generated.
\<close>

theorem tick_keeps_user_rules:
  assumes "rule_store (dv_client D) ok rules" "ok w" "u \<in> set (rules w)"
    and "\<not> is_auto u" "\<not> has_prefix (rule_name u) ''auto''"
  shows "u \<in> set (rules (snd (tick D now d w))) \<and> u \<in> set (rules (detector_Start D w))"
proof -
  have store: "detector_store D ok rules" using assms(1) by (simp add: detector_store_def)
  have "detector_store.keeps_user ok rules u w" using assms(2,3) by (simp add: detector_store.keeps_user_def [OF store])
  then show ?thesis
    using detector_store.tick_keeps [OF store _ assms(4,5)] detector_store.cleanup_keeps [OF store _ assms(4)]
    by (simp add: detector_store.keeps_user_def [OF store] detector_Start_def)
qed

theorem tick_keeps_user_rules_witness:
  "sample_rule ''mine'' 100 ''P1'' \<in> set (snd (tick sample_detect 5
     (NewDetector (fold (\<lambda>en. buf_Add 2 (en_Event en)) sample_window (NewBuffer minute))) [sample_rule ''mine'' 100 ''P1'']))"
  using tick_keeps_user_rules [OF mem_detector_store, of "[sample_rule ''mine'' 100 ''P1'']" "sample_rule ''mine'' 100 ''P1''"]
  by (simp add: is_auto_def sample_rule_def has_prefix_def)

text \<open>A pattern without a rule cannot take the number of generated rules beyond the configured
  maximum: after \<open>EnsureRule\<close> there are at most as many as before or as the maximum allows. (A
  pattern whose record still names a rule is exempt, also when that rule has expired.)
\<close>

theorem EnsureRule_cap:
  assumes "rule_store (dv_client D) ok rules" "ok w" "pr_RuleName r = []" "EnsureRule D now r w = (err, r', w')"
  shows "int (card (auto_rules (rules w'))) \<le> max (int (card (auto_rules (rules w)))) (cf_MaxAutoRules (dv_config D))"
proof -
  have "detector_store D ok rules" using assms(1) by (simp add: detector_store_def)
  from detector_store.ensure_cap [OF this assms(2-4)] show ?thesis .
qed

theorem EnsureRule_cap_witness:
  "int (card (auto_rules (snd (snd (EnsureRule sample_detect 5
     \<lparr>pr_Pair = sample_pair, pr_FirstSeen = 1, pr_LastSeen = 5, pr_Occurrences = 6, pr_RuleName = []\<rparr> []))))) \<le> 20"
proof -
  have "cf_MaxAutoRules (dv_config sample_detect) = 20" by (simp add: sample_detect_def DefaultConfig_def)
  then show ?thesis
    using EnsureRule_cap [OF mem_detector_store, of "[]" "\<lparr>pr_Pair = sample_pair, pr_FirstSeen = 1, pr_LastSeen = 5, pr_Occurrences = 6, pr_RuleName = []\<rparr>" 5]
    by (simp add: prod_eq_iff auto_rules_def)
qed

end
