(* ===== verification/Watch_Workloads.thy ===== *)
theory Watch_Workloads
  imports Kube Events
begin

text \<open>
  The watchers of nodes and workload controllers (\<open>internal/watcher/\<close>: \<open>node_watcher.go\<close>,
  \<open>deployment_watcher.go\<close>, \<open>statefulset_watcher.go\<close>, \<open>daemonset_watcher.go\<close>,
  \<open>job_watcher.go\<close>, \<open>cronjob_watcher.go\<close>). A handler takes the object the informer hands it and
  the watcher's memory, and answers with the events it emits and the memory after it. The
  memory is an alert gate: it keeps an event from being emitted again for the same episode. The
  locale \<open>alert_gate\<close> states that contract once.
\<close>

section \<open>What the watchers share\<close>

record watch_condition =
  wc_Type :: string
  wc_Status :: string
  wc_Reason :: string
  wc_Message :: string
  wc_LastTransitionTime :: gotime

record watch_config =
  wt_AgentName :: string
  wt_WatchNamespaces :: "string list"
  wt_ScanInterval :: duration

definition NewWatchConfig :: "watch_config \<Rightarrow> watch_config" where
  "NewWatchConfig cfg = (if wt_ScanInterval cfg \<le> 0 then cfg\<lparr>wt_ScanInterval := 30 * second\<rparr> else cfg)"

definition toNamespaceSet :: "string list \<Rightarrow> string set" where
  "toNamespaceSet namespaces = set (filter (\<lambda>ns. ns \<noteq> []) namespaces)"

definition shouldWatchNamespace :: "string list \<Rightarrow> string \<Rightarrow> bool" where
  "shouldWatchNamespace namespaces ns \<longleftrightarrow> toNamespaceSet namespaces = {} \<or> ns \<in> toNamespaceSet namespaces"

definition event_at :: "watch_condition \<Rightarrow> gotime \<Rightarrow> gotime" where
  "event_at cond now = (if time_is_zero (wc_LastTransitionTime cond) then now else wc_LastTransitionTime cond)"

definition workload_base :: "gotime \<Rightarrow> string \<Rightarrow> string \<Rightarrow> string \<Rightarrow> base_event" where
  "workload_base at agent ns name = zero_base\<lparr>be_At := at, be_AgentName := agent, be_Namespace := ns, be_PodName := name\<rparr>"

text \<open>A handler over the items of a list, in order; a list that fails is skipped.\<close>

fun watch_all :: "('o \<Rightarrow> 's \<Rightarrow> correlator_event list \<times> 's) \<Rightarrow> 'o list \<Rightarrow> 's \<Rightarrow> correlator_event list \<times> 's" where
  "watch_all handle [] s = ([], s)"
| "watch_all handle (x # xs) s =
     (let (es, s) = handle x s; (es', s) = watch_all handle xs s in (es @ es', s))"

definition scan_list ::
    "('o \<Rightarrow> 's \<Rightarrow> correlator_event list \<times> 's) \<Rightarrow> (kerr + 'o list) \<Rightarrow> 's \<Rightarrow> correlator_event list \<times> 's" where
  "scan_list handle items s = (case items of Inl err \<Rightarrow> ([], s) | Inr xs \<Rightarrow> watch_all handle xs s)"

text \<open>The gate of the rollout watchers: per object the generation an event was emitted for.\<close>

type_synonym stalled_gate = "string \<rightharpoonup> int"

definition markStalledAlerted :: "string \<Rightarrow> int \<Rightarrow> stalled_gate \<Rightarrow> bool \<times> stalled_gate" where
  "markStalledAlerted uid generation m = (if m uid = Some generation then (False, m) else (True, m(uid \<mapsto> generation)))"

definition clearStalledAlerted :: "string \<Rightarrow> stalled_gate \<Rightarrow> stalled_gate" where
  "clearStalledAlerted uid m = m(uid := None)"

section \<open>Deployments\<close>

record watched_deployment =
  wd_Name :: string
  wd_Namespace :: string
  wd_UID :: string
  wd_Replicas :: "int option"
  wd_ObservedGeneration :: int
  wd_ReadyReplicas :: int
  wd_Conditions :: "watch_condition list"

definition deploymentProgressingCondition :: "watched_deployment \<Rightarrow> watch_condition option" where
  "deploymentProgressingCondition dep = find (\<lambda>c. wc_Type c = ''Progressing'') (wd_Conditions dep)"

definition deploymentDesiredReplicas :: "watched_deployment \<Rightarrow> int" where
  "deploymentDesiredReplicas dep = (case wd_Replicas dep of Some n \<Rightarrow> n | None \<Rightarrow> 1)"

definition detectStalledRollout ::
    "watch_config \<Rightarrow> gotime \<Rightarrow> watched_deployment \<Rightarrow> stalled_gate \<Rightarrow> correlator_event list \<times> stalled_gate" where
  "detectStalledRollout cfg now dep m = (case deploymentProgressingCondition dep of
     None \<Rightarrow> ([], m)
   | Some cond \<Rightarrow>
       if wc_Status cond = ''True'' then ([], clearStalledAlerted (wd_UID dep) m)
       else if wc_Status cond \<noteq> ''False'' \<or> wc_Reason cond \<noteq> ''ProgressDeadlineExceeded'' then ([], m)
       else case markStalledAlerted (wd_UID dep) (wd_ObservedGeneration dep) m of
              (False, m) \<Rightarrow> ([], m)
            | (True, m) \<Rightarrow>
                ([StalledRolloutEvent (workload_base (event_at cond now) (wt_AgentName cfg) (wd_Namespace dep) (wd_Name dep))
                    (wd_Name dep) (wd_ObservedGeneration dep) (deploymentDesiredReplicas dep) (wd_ReadyReplicas dep)
                    ''ProgressDeadlineExceeded'' (wc_Message cond)], m))"

text \<open>\<open>onDeploymentAdd\<close> and \<open>onDeploymentUpdate\<close>: the old object is not looked at.\<close>

definition onDeployment ::
    "watch_config \<Rightarrow> gotime \<Rightarrow> watched_deployment \<Rightarrow> stalled_gate \<Rightarrow> correlator_event list \<times> stalled_gate" where
  "onDeployment cfg now dep m =
     (if \<not> shouldWatchNamespace (wt_WatchNamespaces cfg) (wd_Namespace dep) then ([], m) else detectStalledRollout cfg now dep m)"

definition scanDeployments where
  "scanDeployments cfg now items m = scan_list (onDeployment cfg now) items m"

section \<open>Stateful sets and daemon sets\<close>

record watched_stateful_set = stateful_set +
  ws_Name :: string
  ws_Namespace :: string
  ws_UID :: string
  ws_ReadyReplicas :: int
  ws_ObservedGeneration :: int

definition rollout_message :: "string \<Rightarrow> string \<Rightarrow> string \<Rightarrow> int \<Rightarrow> int \<Rightarrow> int \<Rightarrow> string" where
  "rollout_message kind ns name updated desired ready =
     kind @ '' '' @ ns @ ''/'' @ name @ '' rollout stalled: '' @ itoa updated @ ''/'' @ itoa desired @ '' updated, '' @
     itoa ready @ '' ready''"

definition statefulSetDesiredReplicas :: "watched_stateful_set \<Rightarrow> int" where
  "statefulSetDesiredReplicas sts = (case sts_Replicas sts of Some n \<Rightarrow> n | None \<Rightarrow> 1)"

definition sts_detectStalled ::
    "watch_config \<Rightarrow> gotime \<Rightarrow> watched_stateful_set \<Rightarrow> stalled_gate \<Rightarrow> correlator_event list \<times> stalled_gate" where
  "sts_detectStalled cfg now sts m =
     (if sts_UpdateRevision sts = sts_CurrentRevision sts then ([], clearStalledAlerted (ws_UID sts) m)
      else let desired = statefulSetDesiredReplicas sts
      in if sts_UpdatedReplicas sts \<ge> desired then ([], m)
         else case markStalledAlerted (ws_UID sts) (ws_ObservedGeneration sts) m of
                (False, m) \<Rightarrow> ([], m)
              | (True, m) \<Rightarrow>
                  ([StalledStatefulSetEvent (workload_base now (wt_AgentName cfg) (ws_Namespace sts) (ws_Name sts))
                      (ws_Name sts) (ws_ObservedGeneration sts) desired (ws_ReadyReplicas sts) (sts_UpdatedReplicas sts)
                      ''RolloutStalled''
                      (rollout_message ''StatefulSet'' (ws_Namespace sts) (ws_Name sts) (sts_UpdatedReplicas sts) desired
                         (ws_ReadyReplicas sts))], m))"

definition onStatefulSet ::
    "watch_config \<Rightarrow> gotime \<Rightarrow> watched_stateful_set \<Rightarrow> stalled_gate \<Rightarrow> correlator_event list \<times> stalled_gate" where
  "onStatefulSet cfg now sts m =
     (if \<not> shouldWatchNamespace (wt_WatchNamespaces cfg) (ws_Namespace sts) then ([], m) else sts_detectStalled cfg now sts m)"

definition scanStatefulSets where
  "scanStatefulSets cfg now items m = scan_list (onStatefulSet cfg now) items m"

record watched_daemon_set = daemon_set +
  wm_Name :: string
  wm_Namespace :: string
  wm_UID :: string
  wm_NumberReady :: int
  wm_ObservedGeneration :: int

definition ds_detectStalled ::
    "watch_config \<Rightarrow> gotime \<Rightarrow> watched_daemon_set \<Rightarrow> stalled_gate \<Rightarrow> correlator_event list \<times> stalled_gate" where
  "ds_detectStalled cfg now ds m =
     (let desired = ds_DesiredNumberScheduled ds
      in if desired = 0 then ([], m)
         else if wm_NumberReady ds \<ge> desired \<and> ds_UpdatedNumberScheduled ds \<ge> desired then ([], clearStalledAlerted (wm_UID ds) m)
         else if ds_UpdatedNumberScheduled ds \<ge> desired then ([], m)
         else case markStalledAlerted (wm_UID ds) (wm_ObservedGeneration ds) m of
                (False, m) \<Rightarrow> ([], m)
              | (True, m) \<Rightarrow>
                  ([StalledDaemonSetEvent (workload_base now (wt_AgentName cfg) (wm_Namespace ds) (wm_Name ds))
                      (wm_Name ds) (wm_ObservedGeneration ds) desired (wm_NumberReady ds) (ds_UpdatedNumberScheduled ds)
                      ''RolloutStalled''
                      (rollout_message ''DaemonSet'' (wm_Namespace ds) (wm_Name ds) (ds_UpdatedNumberScheduled ds) desired
                         (wm_NumberReady ds))], m))"

definition onDaemonSet ::
    "watch_config \<Rightarrow> gotime \<Rightarrow> watched_daemon_set \<Rightarrow> stalled_gate \<Rightarrow> correlator_event list \<times> stalled_gate" where
  "onDaemonSet cfg now ds m =
     (if \<not> shouldWatchNamespace (wt_WatchNamespaces cfg) (wm_Namespace ds) then ([], m) else ds_detectStalled cfg now ds m)"

definition scanDaemonSets where
  "scanDaemonSets cfg now items m = scan_list (onDaemonSet cfg now) items m"

section \<open>Jobs and cron jobs\<close>

record watched_job =
  wj_Name :: string
  wj_Namespace :: string
  wj_UID :: string
  wj_OwnerUIDs :: "string list"
  wj_Conditions :: "watch_condition list"

type_synonym fail_gate = "string set"

definition markFailAlerted :: "string \<Rightarrow> fail_gate \<Rightarrow> bool \<times> fail_gate" where
  "markFailAlerted uid m = (if uid \<in> m then (False, m) else (True, insert uid m))"

definition jobFailedCondition :: "watched_job \<Rightarrow> watch_condition option" where
  "jobFailedCondition job = find (\<lambda>c. wc_Type c = ''Failed'' \<and> wc_Status c = ''True'') (wj_Conditions job)"

definition detectFailed :: "watch_config \<Rightarrow> gotime \<Rightarrow> watched_job \<Rightarrow> fail_gate \<Rightarrow> correlator_event list \<times> fail_gate" where
  "detectFailed cfg now job m = (case jobFailedCondition job of
     None \<Rightarrow> ([], m)
   | Some cond \<Rightarrow>
       (case markFailAlerted (wj_UID job) m of
          (False, m) \<Rightarrow> ([], m)
        | (True, m) \<Rightarrow>
            ([JobFailedEvent (workload_base (event_at cond now) (wt_AgentName cfg) (wj_Namespace job) (wj_Name job))
                (wj_Name job) (wc_Reason cond) (wc_Message cond)], m)))"

definition onJob :: "watch_config \<Rightarrow> gotime \<Rightarrow> watched_job \<Rightarrow> fail_gate \<Rightarrow> correlator_event list \<times> fail_gate" where
  "onJob cfg now job m =
     (if \<not> shouldWatchNamespace (wt_WatchNamespaces cfg) (wj_Namespace job) then ([], m) else detectFailed cfg now job m)"

definition scanJobs where
  "scanJobs cfg now items m = scan_list (onJob cfg now) items m"

record watched_cron_job =
  wk_Name :: string
  wk_Namespace :: string
  wk_UID :: string

definition isOwnedByCronJob :: "watched_job \<Rightarrow> string \<Rightarrow> bool" where
  "isOwnedByCronJob job uid \<longleftrightarrow> uid \<in> set (wj_OwnerUIDs job)"

definition cron_child ::
    "watch_config \<Rightarrow> gotime \<Rightarrow> watched_cron_job \<Rightarrow> watched_job \<Rightarrow> fail_gate \<Rightarrow> correlator_event list \<times> fail_gate" where
  "cron_child cfg now cj job m =
     (if \<not> isOwnedByCronJob job (wk_UID cj) then ([], m)
      else case jobFailedCondition job of
             None \<Rightarrow> ([], m)
           | Some cond \<Rightarrow>
               (case markFailAlerted (wj_UID job) m of
                  (False, m) \<Rightarrow> ([], m)
                | (True, m) \<Rightarrow>
                    ([CronJobFailedEvent (workload_base (event_at cond now) (wt_AgentName cfg) (wk_Namespace cj) (wk_Name cj))
                        (wk_Name cj) (wj_Name job) (wc_Reason cond)
                        (''CronJob '' @ wk_Namespace cj @ ''/'' @ wk_Name cj @ '' child job '' @ wj_Name job @ '' failed: '' @ wc_Message cond)],
                     m)))"

text \<open>\<open>list_jobs\<close> answers the list of the jobs of a namespace.\<close>

definition checkCronJobFailures where
  "checkCronJobFailures cfg now list_jobs cj m = scan_list (cron_child cfg now cj) (list_jobs (wk_Namespace cj)) m"

definition scanCronJobs ::
    "watch_config \<Rightarrow> gotime \<Rightarrow> (string \<Rightarrow> kerr + watched_job list) \<Rightarrow> (kerr + watched_cron_job list) \<Rightarrow> fail_gate \<Rightarrow>
       correlator_event list \<times> fail_gate" where
  "scanCronJobs cfg now list_jobs items m =
     scan_list (\<lambda>cj m. if \<not> shouldWatchNamespace (wt_WatchNamespaces cfg) (wk_Namespace cj) then ([], m)
                       else checkCronJobFailures cfg now list_jobs cj m) items m"

section \<open>Nodes\<close>

record node_config =
  nf_AgentName :: string
  nf_IncidentNamespace :: string
  nf_ScanInterval :: duration

definition NewNodeConfig :: "node_config \<Rightarrow> node_config" where
  "NewNodeConfig cfg =
     (let cfg = (if nf_ScanInterval cfg \<le> 0 then cfg\<lparr>nf_ScanInterval := 30 * second\<rparr> else cfg)
      in if nf_IncidentNamespace cfg = [] then cfg\<lparr>nf_IncidentNamespace := ''default''\<rparr> else cfg)"

record watched_node =
  wn_Name :: string
  wn_UID :: string
  wn_Conditions :: "watch_condition list"

type_synonym node_gate = "string set"

definition markAlerted :: "string \<Rightarrow> node_gate \<Rightarrow> bool \<times> node_gate" where
  "markAlerted key m = (if key \<in> m then (False, m) else (True, insert key m))"

definition clearAlerted :: "string \<Rightarrow> node_gate \<Rightarrow> node_gate" where
  "clearAlerted key m = m - {key}"

definition nodeAlertKey :: "string \<Rightarrow> string \<Rightarrow> string" where
  "nodeAlertKey uid conditionType = uid @ '':'' @ conditionType"

definition node_base :: "node_config \<Rightarrow> gotime \<Rightarrow> watched_node \<Rightarrow> base_event" where
  "node_base cfg at node =
     zero_base\<lparr>be_At := at, be_AgentName := nf_AgentName cfg, be_Namespace := nf_IncidentNamespace cfg, be_NodeName := wn_Name node\<rparr>"

definition handleReadyCondition where
  "handleReadyCondition cfg now node cond m =
     (let key = nodeAlertKey (wn_UID node) ''NotReady''
      in if wc_Status cond = ''True'' then ([], clearAlerted key m)
         else case markAlerted key m of
                (False, m) \<Rightarrow> ([], m)
              | (True, m) \<Rightarrow> ([NodeNotReadyEvent (node_base cfg (event_at cond now) node) (wc_Reason cond) (wc_Message cond)], m))"

definition handlePressureCondition where
  "handlePressureCondition cfg now node cond pressureType m =
     (let key = nodeAlertKey (wn_UID node) pressureType
      in if wc_Status cond \<noteq> ''True'' then ([], clearAlerted key m)
         else case markAlerted key m of
                (False, m) \<Rightarrow> ([], m)
              | (True, m) \<Rightarrow> ([NodePressureEvent (node_base cfg (event_at cond now) node) pressureType (wc_Message cond)], m))"

definition node_condition ::
    "node_config \<Rightarrow> gotime \<Rightarrow> watched_node \<Rightarrow> watch_condition \<Rightarrow> node_gate \<Rightarrow> correlator_event list \<times> node_gate" where
  "node_condition cfg now node cond m =
     (if wc_Type cond = ''Ready'' then handleReadyCondition cfg now node cond m
      else if wc_Type cond \<in> {''DiskPressure'', ''MemoryPressure'', ''PIDPressure''}
           then handlePressureCondition cfg now node cond (wc_Type cond) m
      else ([], m))"

definition checkConditions ::
    "node_config \<Rightarrow> gotime \<Rightarrow> watched_node \<Rightarrow> node_gate \<Rightarrow> correlator_event list \<times> node_gate" where
  "checkConditions cfg now node m = watch_all (node_condition cfg now node) (wn_Conditions node) m"

definition scanNodes where
  "scanNodes cfg now items m = scan_list (checkConditions cfg now) items m"

section \<open>The contract of an alert gate\<close>

text \<open>
  A handler looks at an object and sees a fault (of some generation), a recovery, or neither. It
  emits exactly when it sees a fault that its memory does not hold for the object, and
  remembers what it saw last.
\<close>

datatype 'g sighting = Faulty 'g | Recovered | Unclear

fun remember :: "'g sighting \<Rightarrow> 'k \<Rightarrow> ('k \<rightharpoonup> 'g) \<Rightarrow> ('k \<rightharpoonup> 'g)" where
  "remember (Faulty g) k h = h(k \<mapsto> g)"
| "remember Recovered k h = h(k := None)"
| "remember Unclear k h = h"

locale alert_gate =
  fixes handle :: "'o \<Rightarrow> 's \<Rightarrow> correlator_event list \<times> 's"
    and key :: "'o \<Rightarrow> 'k" and sight :: "'o \<Rightarrow> 'g sighting" and held :: "'s \<Rightarrow> 'k \<rightharpoonup> 'g"
  assumes emits: "fst (handle x s) \<noteq> [] \<longleftrightarrow> (\<exists>g. sight x = Faulty g \<and> held s (key x) \<noteq> Some g)"
    and one_event: "length (fst (handle x s)) \<le> 1"
    and memory: "held (snd (handle x s)) = remember (sight x) (key x) (held s)"
begin

text \<open>The state before the \<open>i\<close>-th object of a sequence, and whether that object makes an event.\<close>

definition before :: "'o list \<Rightarrow> nat \<Rightarrow> 's \<Rightarrow> 's" where
  "before xs i s = snd (watch_all handle (take i xs) s)"

definition emits_at :: "'o list \<Rightarrow> nat \<Rightarrow> 's \<Rightarrow> bool" where
  "emits_at xs i s \<longleftrightarrow> fst (handle (xs ! i) (before xs i s)) \<noteq> []"

lemma watch_all_append:
  "snd (watch_all handle (xs @ ys) s) = snd (watch_all handle ys (snd (watch_all handle xs s)))"
  by (induction xs arbitrary: s) (simp_all add: case_prod_unfold Let_def)

lemma before_Suc: "i < length xs \<Longrightarrow> before xs (Suc i) s = snd (handle (xs ! i) (before xs i s))"
  by (simp add: before_def take_Suc_conv_app_nth watch_all_append case_prod_unfold Let_def)

text \<open>The fault that the memory holds: seen at \<open>j\<close>, and neither recovered nor replaced since.\<close>

definition ongoing :: "'o list \<Rightarrow> nat \<Rightarrow> nat \<Rightarrow> 'k \<Rightarrow> 'g \<Rightarrow> bool" where
  "ongoing xs j i k g \<longleftrightarrow> j < i \<and> key (xs ! j) = k \<and> sight (xs ! j) = Faulty g \<and>
     (\<forall>l. j < l \<and> l < i \<and> key (xs ! l) = k \<longrightarrow> sight (xs ! l) = Unclear)"

lemma held_before:
  assumes "held s = Map.empty" "i \<le> length xs"
  shows "held (before xs i s) k = Some g \<longleftrightarrow> (\<exists>j. ongoing xs j i k g)"
  using assms(2)
proof (induction i)
  case 0
  then show ?case by (simp add: before_def assms(1) ongoing_def)
next
  case (Suc i)
  have h: "held (before xs (Suc i) s) k = remember (sight (xs ! i)) (key (xs ! i)) (held (before xs i s)) k"
    using Suc.prems by (simp add: before_Suc memory)
  have old: "ongoing xs j (Suc i) k g \<longleftrightarrow> ongoing xs j i k g \<and> (key (xs ! i) = k \<longrightarrow> sight (xs ! i) = Unclear)" if "j \<noteq> i" for j
    using that by (auto simp: ongoing_def less_Suc_eq)
  have new: "ongoing xs i (Suc i) k g \<longleftrightarrow> key (xs ! i) = k \<and> sight (xs ! i) = Faulty g"
    by (auto simp: ongoing_def)
  have "(\<exists>j. ongoing xs j (Suc i) k g) \<longleftrightarrow>
      key (xs ! i) = k \<and> sight (xs ! i) = Faulty g \<or>
      (\<exists>j. ongoing xs j i k g) \<and> (key (xs ! i) = k \<longrightarrow> sight (xs ! i) = Unclear)"
    using old new by (metis less_irrefl ongoing_def)
  then show ?case using h Suc by (cases "sight (xs ! i)") auto
qed

lemma emits_at_iff:
  assumes "held s = Map.empty" "i < length xs"
  shows "emits_at xs i s \<longleftrightarrow> (\<exists>g. sight (xs ! i) = Faulty g \<and> \<not> (\<exists>j. ongoing xs j i (key (xs ! i)) g))"
  using held_before [OF assms(1), of i xs] assms(2) by (auto simp: emits_at_def emits)

end

text \<open>
  What a gated watcher promises: of any sequence of objects, one event for each object seen with a
  fault, unless an earlier sight of it showed the fault of the same generation and it was not seen
  recovered or with another fault since; and nothing else.
\<close>

definition alerts_once :: "('o \<Rightarrow> 's \<Rightarrow> correlator_event list \<times> 's) \<Rightarrow> ('o \<Rightarrow> 'k) \<Rightarrow> ('o \<Rightarrow> 'g sighting) \<Rightarrow> 's \<Rightarrow> bool" where
  "alerts_once handle key sight s \<longleftrightarrow> (\<forall>xs i. i < length xs \<longrightarrow>
     length (fst (handle (xs ! i) (snd (watch_all handle (take i xs) s)))) =
       (if \<exists>g. sight (xs ! i) = Faulty g \<and>
             \<not> (\<exists>j < i. key (xs ! j) = key (xs ! i) \<and> sight (xs ! j) = Faulty g \<and>
                  (\<forall>l. j < l \<and> l < i \<and> key (xs ! l) = key (xs ! i) \<longrightarrow> sight (xs ! l) = Unclear))
        then 1 else 0))"

context alert_gate
begin

lemma gate_alerts_once:
  assumes "held s = Map.empty"
  shows "alerts_once handle key sight s"
  unfolding alerts_once_def
proof (intro allI impI)
  fix xs :: "'o list" and i
  assume i: "i < length xs"
  let ?es = "fst (handle (xs ! i) (before xs i s))"
  have "length ?es = (if ?es \<noteq> [] then 1 else 0)" using one_event [of "xs ! i" "before xs i s"] by (cases ?es) auto
  then show "length (fst (handle (xs ! i) (snd (watch_all handle (take i xs) s)))) =
      (if \<exists>g. sight (xs ! i) = Faulty g \<and>
             \<not> (\<exists>j < i. key (xs ! j) = key (xs ! i) \<and> sight (xs ! j) = Faulty g \<and>
                  (\<forall>l. j < l \<and> l < i \<and> key (xs ! l) = key (xs ! i) \<longrightarrow> sight (xs ! l) = Unclear))
        then 1 else 0)"
    using emits_at_iff [OF assms i] unfolding emits_at_def before_def ongoing_def by presburger
qed

end

text \<open>A handler restricted to the watched namespaces is again a gate.\<close>

definition watched_sight :: "bool \<Rightarrow> 'g sighting \<Rightarrow> 'g sighting" where
  "watched_sight b x = (if b then x else Unclear)"

definition rollout_sight :: "watched_deployment \<Rightarrow> int sighting" where
  "rollout_sight dep = (case deploymentProgressingCondition dep of
     None \<Rightarrow> Unclear
   | Some cond \<Rightarrow> if wc_Status cond = ''True'' then Recovered
                  else if wc_Status cond = ''False'' \<and> wc_Reason cond = ''ProgressDeadlineExceeded'' then Faulty (wd_ObservedGeneration dep)
                  else Unclear)"

text \<open>The common shape of a gated handler, and that it keeps the contract.\<close>

fun gate_answer :: "'g sighting \<Rightarrow> 'k \<Rightarrow> correlator_event \<Rightarrow> ('k \<rightharpoonup> 'g) \<Rightarrow> correlator_event list \<times> ('k \<rightharpoonup> 'g)" where
  "gate_answer (Faulty g) k e h = (if h k = Some g then ([], h) else ([e], h(k \<mapsto> g)))"
| "gate_answer Recovered k e h = ([], h(k := None))"
| "gate_answer Unclear k e h = ([], h)"

lemma gate_answer_facts:
  "fst (gate_answer x k e h) \<noteq> [] \<longleftrightarrow> (\<exists>g. x = Faulty g \<and> h k \<noteq> Some g)"
  "length (fst (gate_answer x k e h)) \<le> Suc 0" "snd (gate_answer x k e h) = remember x k h"
  by (cases x; auto)+

lemma alert_gateI:
  assumes "\<And>x s. fst (handle x s) = fst (gate_answer (sight x) (key x) (ev x) (held s))"
    and "\<And>x s. held (snd (handle x s)) = snd (gate_answer (sight x) (key x) (ev x) (held s))"
  shows "alert_gate handle key sight held"
  by unfold_locales (simp_all add: assms gate_answer_facts del: gate_answer.simps)

definition rollout_event :: "watch_config \<Rightarrow> gotime \<Rightarrow> watched_deployment \<Rightarrow> correlator_event" where
  "rollout_event cfg now dep = (let cond = the (deploymentProgressingCondition dep)
     in StalledRolloutEvent (workload_base (event_at cond now) (wt_AgentName cfg) (wd_Namespace dep) (wd_Name dep))
          (wd_Name dep) (wd_ObservedGeneration dep) (deploymentDesiredReplicas dep) (wd_ReadyReplicas dep)
          ''ProgressDeadlineExceeded'' (wc_Message cond))"

lemma onDeployment_gate:
  "onDeployment cfg now dep m =
     gate_answer (watched_sight (shouldWatchNamespace (wt_WatchNamespaces cfg) (wd_Namespace dep)) (rollout_sight dep)) (wd_UID dep)
       (rollout_event cfg now dep) m"
  by (cases "deploymentProgressingCondition dep")
    (simp_all add: onDeployment_def detectStalledRollout_def watched_sight_def rollout_sight_def markStalledAlerted_def
      clearStalledAlerted_def rollout_event_def Let_def)

interpretation deployments: alert_gate "\<lambda>(now, dep). onDeployment cfg now dep" "\<lambda>(now, dep). wd_UID dep"
  "\<lambda>(now, dep). watched_sight (shouldWatchNamespace (wt_WatchNamespaces cfg) (wd_Namespace dep)) (rollout_sight dep)" "\<lambda>m. m"
  for cfg
  by (rule alert_gateI [where ev = "\<lambda>(now, dep). rollout_event cfg now dep"]) (simp_all add: onDeployment_gate case_prod_unfold)

definition sts_sight :: "watched_stateful_set \<Rightarrow> int sighting" where
  "sts_sight sts = (if sts_UpdateRevision sts = sts_CurrentRevision sts then Recovered
     else if sts_UpdatedReplicas sts \<ge> statefulSetDesiredReplicas sts then Unclear else Faulty (ws_ObservedGeneration sts))"

definition sts_event :: "watch_config \<Rightarrow> gotime \<Rightarrow> watched_stateful_set \<Rightarrow> correlator_event" where
  "sts_event cfg now sts = (let desired = statefulSetDesiredReplicas sts
     in StalledStatefulSetEvent (workload_base now (wt_AgentName cfg) (ws_Namespace sts) (ws_Name sts))
          (ws_Name sts) (ws_ObservedGeneration sts) desired (ws_ReadyReplicas sts) (sts_UpdatedReplicas sts) ''RolloutStalled''
          (rollout_message ''StatefulSet'' (ws_Namespace sts) (ws_Name sts) (sts_UpdatedReplicas sts) desired (ws_ReadyReplicas sts)))"

lemma onStatefulSet_gate:
  "onStatefulSet cfg now sts m =
     gate_answer (watched_sight (shouldWatchNamespace (wt_WatchNamespaces cfg) (ws_Namespace sts)) (sts_sight sts)) (ws_UID sts)
       (sts_event cfg now sts) m"
  by (simp add: onStatefulSet_def sts_detectStalled_def watched_sight_def sts_sight_def markStalledAlerted_def
      clearStalledAlerted_def sts_event_def Let_def)

interpretation stateful_sets: alert_gate "\<lambda>(now, sts). onStatefulSet cfg now sts" "\<lambda>(now, sts). ws_UID sts"
  "\<lambda>(now, sts). watched_sight (shouldWatchNamespace (wt_WatchNamespaces cfg) (ws_Namespace sts)) (sts_sight sts)" "\<lambda>m. m"
  for cfg
  by (rule alert_gateI [where ev = "\<lambda>(now, sts). sts_event cfg now sts"]) (simp_all add: onStatefulSet_gate case_prod_unfold)

definition ds_sight :: "watched_daemon_set \<Rightarrow> int sighting" where
  "ds_sight ds = (let desired = ds_DesiredNumberScheduled ds
     in if desired = 0 then Unclear
        else if ds_UpdatedNumberScheduled ds < desired then Faulty (wm_ObservedGeneration ds)
        else if wm_NumberReady ds \<ge> desired then Recovered else Unclear)"

definition ds_event :: "watch_config \<Rightarrow> gotime \<Rightarrow> watched_daemon_set \<Rightarrow> correlator_event" where
  "ds_event cfg now ds = (let desired = ds_DesiredNumberScheduled ds
     in StalledDaemonSetEvent (workload_base now (wt_AgentName cfg) (wm_Namespace ds) (wm_Name ds))
          (wm_Name ds) (wm_ObservedGeneration ds) desired (wm_NumberReady ds) (ds_UpdatedNumberScheduled ds) ''RolloutStalled''
          (rollout_message ''DaemonSet'' (wm_Namespace ds) (wm_Name ds) (ds_UpdatedNumberScheduled ds) desired (wm_NumberReady ds)))"

lemma onDaemonSet_gate:
  "onDaemonSet cfg now ds m =
     gate_answer (watched_sight (shouldWatchNamespace (wt_WatchNamespaces cfg) (wm_Namespace ds)) (ds_sight ds)) (wm_UID ds)
       (ds_event cfg now ds) m"
  by (simp add: onDaemonSet_def ds_detectStalled_def watched_sight_def ds_sight_def markStalledAlerted_def
      clearStalledAlerted_def ds_event_def Let_def)

interpretation daemon_sets: alert_gate "\<lambda>(now, ds). onDaemonSet cfg now ds" "\<lambda>(now, ds). wm_UID ds"
  "\<lambda>(now, ds). watched_sight (shouldWatchNamespace (wt_WatchNamespaces cfg) (wm_Namespace ds)) (ds_sight ds)" "\<lambda>m. m"
  for cfg
  by (rule alert_gateI [where ev = "\<lambda>(now, ds). ds_event cfg now ds"]) (simp_all add: onDaemonSet_gate case_prod_unfold)

text \<open>The gates without a generation hold \<open>()\<close>; a failed job is never seen to recover.\<close>

definition unit_gate :: "string set \<Rightarrow> string \<rightharpoonup> unit" where
  "unit_gate m k = (if k \<in> m then Some () else None)"

lemma unit_gate_simps [simp]:
  "unit_gate (insert k m) = (unit_gate m)(k \<mapsto> ())" "unit_gate (m - {k}) = (unit_gate m)(k := None)"
  "unit_gate m k = Some () \<longleftrightarrow> k \<in> m" "unit_gate {} = Map.empty"
  by (auto simp: unit_gate_def fun_eq_iff)

definition job_sight :: "watched_job \<Rightarrow> unit sighting" where
  "job_sight job = (case jobFailedCondition job of None \<Rightarrow> Unclear | Some _ \<Rightarrow> Faulty ())"

definition job_event :: "watch_config \<Rightarrow> gotime \<Rightarrow> watched_job \<Rightarrow> correlator_event" where
  "job_event cfg now job = (let cond = the (jobFailedCondition job)
     in JobFailedEvent (workload_base (event_at cond now) (wt_AgentName cfg) (wj_Namespace job) (wj_Name job))
          (wj_Name job) (wc_Reason cond) (wc_Message cond))"

lemma onJob_gate:
  "(fst (onJob cfg now job m), unit_gate (snd (onJob cfg now job m))) =
     gate_answer (watched_sight (shouldWatchNamespace (wt_WatchNamespaces cfg) (wj_Namespace job)) (job_sight job)) (wj_UID job)
       (job_event cfg now job) (unit_gate m)"
  by (cases "jobFailedCondition job")
    (simp_all add: onJob_def detectFailed_def watched_sight_def job_sight_def job_event_def markFailAlerted_def Let_def)

interpretation jobs: alert_gate "\<lambda>(now, job). onJob cfg now job" "\<lambda>(now, job). wj_UID job"
  "\<lambda>(now, job). watched_sight (shouldWatchNamespace (wt_WatchNamespaces cfg) (wj_Namespace job)) (job_sight job)" unit_gate
  for cfg
  by (rule alert_gateI [where ev = "\<lambda>(now, job). job_event cfg now job"]) (simp_all add: onJob_gate [symmetric] case_prod_unfold)

definition node_sight :: "watch_condition \<Rightarrow> unit sighting" where
  "node_sight cond =
     (if wc_Type cond = ''Ready'' then (if wc_Status cond = ''True'' then Recovered else Faulty ())
      else if wc_Type cond \<in> {''DiskPressure'', ''MemoryPressure'', ''PIDPressure''}
           then (if wc_Status cond = ''True'' then Faulty () else Recovered)
      else Unclear)"

definition condition_key :: "watched_node \<Rightarrow> watch_condition \<Rightarrow> string" where
  "condition_key node cond = nodeAlertKey (wn_UID node) (if wc_Type cond = ''Ready'' then ''NotReady'' else wc_Type cond)"

definition condition_event :: "node_config \<Rightarrow> gotime \<Rightarrow> watched_node \<Rightarrow> watch_condition \<Rightarrow> correlator_event" where
  "condition_event cfg now node cond =
     (if wc_Type cond = ''Ready'' then NodeNotReadyEvent (node_base cfg (event_at cond now) node) (wc_Reason cond) (wc_Message cond)
      else NodePressureEvent (node_base cfg (event_at cond now) node) (wc_Type cond) (wc_Message cond))"

lemma node_condition_gate:
  "(fst (node_condition cfg now node cond m), unit_gate (snd (node_condition cfg now node cond m))) =
     gate_answer (node_sight cond) (condition_key node cond) (condition_event cfg now node cond) (unit_gate m)"
proof -
  consider "wc_Type cond = ''Ready''" | "wc_Type cond \<noteq> ''Ready''" "wc_Type cond \<in> {''DiskPressure'', ''MemoryPressure'', ''PIDPressure''}"
    | "wc_Type cond \<noteq> ''Ready''" "wc_Type cond \<notin> {''DiskPressure'', ''MemoryPressure'', ''PIDPressure''}" by blast
  then show ?thesis
    by cases (simp_all only: node_condition_def handleReadyCondition_def handlePressureCondition_def node_sight_def condition_key_def
        condition_event_def markAlerted_def clearAlerted_def Let_def if_True if_False simp_thms, simp_all)
qed

interpretation node_conditions: alert_gate "\<lambda>(now, node, cond). node_condition cfg now node cond"
  "\<lambda>(now, node, cond). condition_key node cond" "\<lambda>(now, node, cond). node_sight cond" unit_gate
  for cfg
  by (rule alert_gateI [where ev = "\<lambda>(now, node, cond). condition_event cfg now node cond"])
    (simp_all add: node_condition_gate [symmetric] case_prod_unfold)

section \<open>Properties\<close>

text \<open>
  The watchers of deployments, stateful sets, daemon sets, jobs and node conditions alert once per
  episode: whatever sequence of objects the informer and the scans deliver, an object makes an
  event exactly when it is in a watched namespace and shows a fault that was not already reported
  for it at this generation without a recovery in between.
\<close>

theorem watchers_alert_once:
  "alerts_once (\<lambda>(now, dep). onDeployment cfg now dep) (\<lambda>(now, dep). wd_UID dep)
     (\<lambda>(now, dep). watched_sight (shouldWatchNamespace (wt_WatchNamespaces cfg) (wd_Namespace dep)) (rollout_sight dep)) Map.empty \<and>
   alerts_once (\<lambda>(now, sts). onStatefulSet cfg now sts) (\<lambda>(now, sts). ws_UID sts)
     (\<lambda>(now, sts). watched_sight (shouldWatchNamespace (wt_WatchNamespaces cfg) (ws_Namespace sts)) (sts_sight sts)) Map.empty \<and>
   alerts_once (\<lambda>(now, ds). onDaemonSet cfg now ds) (\<lambda>(now, ds). wm_UID ds)
     (\<lambda>(now, ds). watched_sight (shouldWatchNamespace (wt_WatchNamespaces cfg) (wm_Namespace ds)) (ds_sight ds)) Map.empty \<and>
   alerts_once (\<lambda>(now, job). onJob cfg now job) (\<lambda>(now, job). wj_UID job)
     (\<lambda>(now, job). watched_sight (shouldWatchNamespace (wt_WatchNamespaces cfg) (wj_Namespace job)) (job_sight job)) {} \<and>
   alerts_once (\<lambda>(now, node, cond). node_condition ncfg now node cond) (\<lambda>(now, node, cond). condition_key node cond)
     (\<lambda>(now, node, cond). node_sight cond) {}"
  by (intro conjI deployments.gate_alerts_once stateful_sets.gate_alerts_once daemon_sets.gate_alerts_once
      jobs.gate_alerts_once node_conditions.gate_alerts_once) simp_all

end
