(* ===== verification/Watch_Pods.thy ===== *)
theory Watch_Pods
  imports Watch_Workloads
begin

text \<open>
  The pod watcher (\<open>internal/watcher/pod_watcher.go\<close>): detection of crash loops, out-of-memory
  kills and image-pull failures by comparing a pod with its previous version, and of pending
  pods, overdue terminations and recovered pods by memory of its own. A handler answers with the
  events it emits, in order, and the memory after it.
\<close>

record container_terminated =
  tm_ExitCode :: int
  tm_Reason :: string

record container_waiting =
  cw_Reason :: string
  cw_Message :: string

record container_status =
  cn_Name :: string
  cn_RestartCount :: int
  cn_Waiting :: "container_waiting option"
  cn_Running :: bool
  cn_Terminated :: "container_terminated option"
  cn_LastTerminated :: "container_terminated option"

record watched_pod =
  wp_Name :: string
  wp_Namespace :: string
  wp_UID :: string
  wp_NodeName :: string
  wp_CreationTimestamp :: gotime
  wp_DeletionTimestamp :: "gotime option"
  wp_DeletionGracePeriodSeconds :: "int option"
  wp_Phase :: string
  wp_Conditions :: "watch_condition list"
  wp_ContainerStatuses :: "container_status list"
  wp_InitContainerStatuses :: "container_status list"

record pod_config =
  pc_AgentName :: string
  pc_CrashLoopRestartThreshold :: int
  pc_PendingTimeout :: duration
  pc_PendingScanInterval :: duration
  pc_ReadyStabilityWindow :: duration
  pc_WatchNamespaces :: "string list"

record pod_watcher =
  pw_pendingAlerted :: "string set"
  pw_graceAlerted :: "string set"
  pw_readySince :: "string \<rightharpoonup> gotime"
  pw_healthyAlerted :: "string set"

definition NewPodConfig :: "pod_config \<Rightarrow> pod_config" where
  "NewPodConfig cfg =
     (let cfg = (if pc_CrashLoopRestartThreshold cfg \<le> 0 then cfg\<lparr>pc_CrashLoopRestartThreshold := 3\<rparr> else cfg);
          cfg = (if pc_PendingTimeout cfg \<le> 0 then cfg\<lparr>pc_PendingTimeout := 5 * minute\<rparr> else cfg);
          cfg = (if pc_PendingScanInterval cfg \<le> 0 then cfg\<lparr>pc_PendingScanInterval := 30 * second\<rparr> else cfg)
      in if pc_ReadyStabilityWindow cfg \<le> 0 then cfg\<lparr>pc_ReadyStabilityWindow := 60 * second\<rparr> else cfg)"

definition NewPodWatcher :: pod_watcher where
  "NewPodWatcher = \<lparr>pw_pendingAlerted = {}, pw_graceAlerted = {}, pw_readySince = Map.empty, pw_healthyAlerted = {}\<rparr>"

section \<open>Helpers\<close>

definition statusByContainer :: "watched_pod option \<Rightarrow> string \<rightharpoonup> container_status" where
  "statusByContainer pod = (case pod of None \<Rightarrow> Map.empty
     | Some p \<Rightarrow> map_of (rev (map (\<lambda>s. (cn_Name s, s)) (wp_ContainerStatuses p))))"

definition baseEventFromPod :: "watched_pod \<Rightarrow> string \<Rightarrow> gotime \<Rightarrow> base_event" where
  "baseEventFromPod pod agentName at = \<lparr>be_At = at, be_AgentName = agentName, be_Namespace = wp_Namespace pod,
     be_PodName = wp_Name pod, be_PodUID = wp_UID pod, be_NodeName = wp_NodeName pod\<rparr>"

definition isWatchedPodReady :: "watched_pod option \<Rightarrow> bool" where
  "isWatchedPodReady pod = (case pod of None \<Rightarrow> False
     | Some p \<Rightarrow> wp_Phase p = ''Running'' \<and>
         (case find (\<lambda>c. wc_Type c = ''Ready'') (wp_Conditions p) of None \<Rightarrow> False | Some c \<Rightarrow> wc_Status c = ''True''))"

text \<open>The loop leaves at the first \<open>Ready\<close> condition, whatever it says.\<close>

definition podReadySince :: "watched_pod \<Rightarrow> gotime \<Rightarrow> gotime" where
  "podReadySince pod fallback = (case find (\<lambda>c. wc_Type c = ''Ready'') (wp_Conditions pod) of
     None \<Rightarrow> fallback
   | Some c \<Rightarrow> if wc_Status c \<noteq> ''True'' \<or> time_is_zero (wc_LastTransitionTime c) then fallback else wc_LastTransitionTime c)"

definition lastTerminatedState :: "container_status \<Rightarrow> container_terminated option" where
  "lastTerminatedState status = (case cn_LastTerminated status of Some t \<Rightarrow> Some t | None \<Rightarrow> cn_Terminated status)"

definition classifyExitCode :: "int \<Rightarrow> string \<times> string" where
  "classifyExitCode code =
     (if code = 1 then (''GeneralError'', ''General application error'')
      else if code = 2 then (''ShellMisuse'', ''Misuse of shell builtins'')
      else if code = 126 then (''PermissionDenied'', ''Command invoked cannot execute'')
      else if code = 127 then (''CommandNotFound'', ''Command not found'')
      else if code = 130 then (''Interrupted'', ''Script terminated by Control-C'')
      else if code = 134 then (''Abort'', ''Process aborted (SIGABRT)'')
      else if code = 139 then (''SegmentationFault'', ''Segmentation fault (SIGSEGV)'')
      else if code = 143 then (''Terminated'', ''Terminated by SIGTERM'')
      else if code = 255 then (''OutOfRange'', ''Exit status out of range'')
      else (''NonZeroExit'', ''Unclassified non-zero exit code''))"

definition classifiedExitInfo :: "container_status \<Rightarrow> (int \<times> string \<times> string \<times> string) option" where
  "classifiedExitInfo status = (case lastTerminatedState status of
     None \<Rightarrow> None
   | Some t \<Rightarrow> if tm_ExitCode t = 0 \<or> tm_Reason t = ''OOMKilled'' then None
               else let (category, description) = classifyExitCode (tm_ExitCode t)
                    in Some (tm_ExitCode t, tm_Reason t, category, description))"

definition gracePeriodSeconds :: "watched_pod \<Rightarrow> int" where
  "gracePeriodSeconds pod = (case wp_DeletionGracePeriodSeconds pod of Some n \<Rightarrow> if n > 0 then n else 30 | None \<Rightarrow> 30)"

definition hasRunningContainers :: "watched_pod \<Rightarrow> bool" where
  "hasRunningContainers pod \<longleftrightarrow> list_ex cn_Running (wp_InitContainerStatuses pod) \<or> list_ex cn_Running (wp_ContainerStatuses pod)"

definition image_pull_reason :: "string \<Rightarrow> bool" where
  "image_pull_reason reason \<longleftrightarrow> reason = ''ImagePullBackOff'' \<or> reason = ''ErrImagePull''"

definition hasImagePullFailure :: "watched_pod \<Rightarrow> bool" where
  "hasImagePullFailure pod \<longleftrightarrow>
     list_ex (\<lambda>s. case cn_Waiting s of None \<Rightarrow> False | Some w \<Rightarrow> image_pull_reason (cw_Reason w))
       (wp_ContainerStatuses pod @ wp_InitContainerStatuses pod)"

section \<open>Failures seen by comparison\<close>

definition waits_for :: "container_status \<Rightarrow> string \<Rightarrow> bool" where
  "waits_for status reason = (case cn_Waiting status of None \<Rightarrow> False | Some w \<Rightarrow> cw_Reason w = reason)"

definition crash_status :: "pod_config \<Rightarrow> (string \<rightharpoonup> container_status) \<Rightarrow> container_status \<Rightarrow> bool" where
  "crash_status cfg olds status =
     (if \<not> waits_for status ''CrashLoopBackOff'' then False
      else if cn_RestartCount status < pc_CrashLoopRestartThreshold cfg then False
      else case olds (cn_Name status) of
             None \<Rightarrow> True
           | Some old \<Rightarrow> \<not> (waits_for old ''CrashLoopBackOff'' \<and> cn_RestartCount status \<le> cn_RestartCount old))"

definition detectCrashLoop :: "pod_config \<Rightarrow> gotime \<Rightarrow> watched_pod option \<Rightarrow> watched_pod \<Rightarrow> correlator_event list" where
  "detectCrashLoop cfg now oldPod newPod =
     map (\<lambda>status. let (exitCode, category, description) =
              (case classifiedExitInfo status of None \<Rightarrow> (0, [], []) | Some (c, _, cat, desc) \<Rightarrow> (c, cat, desc))
            in CrashLoopBackOffEvent (baseEventFromPod newPod (pc_AgentName cfg) now) (cn_Name status) (cn_RestartCount status)
                 (pc_CrashLoopRestartThreshold cfg) exitCode category description)
       (filter (crash_status cfg (statusByContainer oldPod)) (wp_ContainerStatuses newPod))"

definition oom_status :: "(string \<rightharpoonup> container_status) \<Rightarrow> container_status \<Rightarrow> container_terminated option" where
  "oom_status olds status = (case lastTerminatedState status of
     None \<Rightarrow> None
   | Some t \<Rightarrow> if tm_Reason t \<noteq> ''OOMKilled'' then None
               else case olds (cn_Name status) of
                      None \<Rightarrow> Some t
                    | Some old \<Rightarrow> if cn_RestartCount status \<le> cn_RestartCount old then None else Some t)"

definition detectOOMKilled :: "pod_config \<Rightarrow> gotime \<Rightarrow> watched_pod option \<Rightarrow> watched_pod \<Rightarrow> correlator_event list" where
  "detectOOMKilled cfg now oldPod newPod =
     List.map_filter (\<lambda>status. map_option (\<lambda>t. OOMKilledEvent (baseEventFromPod newPod (pc_AgentName cfg) now) (cn_Name status)
         (tm_ExitCode t) (tm_Reason t)) (oom_status (statusByContainer oldPod) status)) (wp_ContainerStatuses newPod)"

definition pull_status :: "(string \<rightharpoonup> container_status) \<Rightarrow> container_status \<Rightarrow> container_waiting option" where
  "pull_status olds status = (case cn_Waiting status of
     None \<Rightarrow> None
   | Some w \<Rightarrow> if \<not> image_pull_reason (cw_Reason w) then None
               else case olds (cn_Name status) of
                      None \<Rightarrow> Some w
                    | Some old \<Rightarrow> if waits_for old (cw_Reason w) then None else Some w)"

definition detectImagePullBackOff :: "pod_config \<Rightarrow> gotime \<Rightarrow> watched_pod option \<Rightarrow> watched_pod \<Rightarrow> correlator_event list" where
  "detectImagePullBackOff cfg now oldPod newPod =
     List.map_filter (\<lambda>status. map_option (\<lambda>w. ImagePullBackOffEvent (baseEventFromPod newPod (pc_AgentName cfg) now) (cn_Name status)
         (cw_Reason w) (cw_Message w)) (pull_status (statusByContainer oldPod) status)) (wp_ContainerStatuses newPod)"

section \<open>Failures and recoveries seen with memory\<close>

definition detectGracePeriodViolation ::
    "pod_config \<Rightarrow> gotime \<Rightarrow> watched_pod \<Rightarrow> pod_watcher \<Rightarrow> correlator_event list \<times> pod_watcher" where
  "detectGracePeriodViolation cfg now pod s = (case wp_DeletionTimestamp pod of
     None \<Rightarrow> ([], s\<lparr>pw_graceAlerted := pw_graceAlerted s - {wp_UID pod}\<rparr>)
   | Some deletion \<Rightarrow>
       (let graceSeconds = gracePeriodSeconds pod;
            deadline = deletion + wrap64 (graceSeconds * second)
        in if \<not> time_after now deadline \<or> \<not> hasRunningContainers pod then ([], s)
           else if wp_UID pod \<in> pw_graceAlerted s then ([], s)
           else ([GracePeriodViolationEvent (baseEventFromPod pod (pc_AgentName cfg) now) graceSeconds (time_sub now deadline)],
                 s\<lparr>pw_graceAlerted := insert (wp_UID pod) (pw_graceAlerted s)\<rparr>)))"

definition trackReadyState ::
    "pod_config \<Rightarrow> gotime \<Rightarrow> watched_pod option \<Rightarrow> watched_pod \<Rightarrow> pod_watcher \<Rightarrow> correlator_event list \<times> pod_watcher" where
  "trackReadyState cfg now oldPod newPod s =
     (let uid = wp_UID newPod
      in if \<not> isWatchedPodReady (Some newPod) then
           ([], s\<lparr>pw_readySince := (pw_readySince s)(uid := None), pw_healthyAlerted := pw_healthyAlerted s - {uid}\<rparr>)
         else
           (let readyTransition = podReadySince newPod now;
                restart = s\<lparr>pw_readySince := (pw_readySince s)(uid \<mapsto> readyTransition), pw_healthyAlerted := pw_healthyAlerted s - {uid}\<rparr>;
                (since, s) = (case pw_readySince s uid of
                   None \<Rightarrow> (readyTransition, restart)
                 | Some since \<Rightarrow> if oldPod \<noteq> None \<and> \<not> isWatchedPodReady oldPod then (readyTransition, restart) else (since, s))
            in if uid \<in> pw_healthyAlerted s then ([], s)
               else if time_sub now since < pc_ReadyStabilityWindow cfg then ([], s)
               else ([PodHealthyEvent (baseEventFromPod newPod (pc_AgentName cfg) now)],
                     s\<lparr>pw_healthyAlerted := insert uid (pw_healthyAlerted s)\<rparr>)))"

definition updatePendingState :: "watched_pod \<Rightarrow> pod_watcher \<Rightarrow> pod_watcher" where
  "updatePendingState pod s =
     (if wp_Phase pod \<noteq> ''Pending'' then s\<lparr>pw_pendingAlerted := pw_pendingAlerted s - {wp_UID pod}\<rparr> else s)"

definition pending_pod ::
    "pod_config \<Rightarrow> gotime \<Rightarrow> watched_pod \<Rightarrow> pod_watcher \<Rightarrow> correlator_event list \<times> pod_watcher" where
  "pending_pod cfg now pod s =
     (if \<not> shouldWatchNamespace (pc_WatchNamespaces cfg) (wp_Namespace pod) then ([], s)
      else if wp_Phase pod \<noteq> ''Pending'' then ([], s\<lparr>pw_pendingAlerted := pw_pendingAlerted s - {wp_UID pod}\<rparr>)
      else if hasImagePullFailure pod then ([], s)
      else let pendingFor = time_sub now (wp_CreationTimestamp pod)
      in if pendingFor < pc_PendingTimeout cfg then ([], s)
         else if wp_UID pod \<in> pw_pendingAlerted s then ([], s)
         else ([PodPendingTooLongEvent (baseEventFromPod pod (pc_AgentName cfg) now) pendingFor (pc_PendingTimeout cfg)],
               s\<lparr>pw_pendingAlerted := insert (wp_UID pod) (pw_pendingAlerted s)\<rparr>))"

section \<open>Handlers and scans\<close>

text \<open>\<open>onPodAdd\<close> has no old pod, \<open>onPodUpdate\<close> has one.\<close>

definition onPod ::
    "pod_config \<Rightarrow> gotime \<Rightarrow> watched_pod option \<Rightarrow> watched_pod \<Rightarrow> pod_watcher \<Rightarrow> correlator_event list \<times> pod_watcher" where
  "onPod cfg now oldPod newPod s =
     (if \<not> shouldWatchNamespace (pc_WatchNamespaces cfg) (wp_Namespace newPod) then ([], s)
      else let (healthy, s) = trackReadyState cfg now oldPod newPod s;
               (grace, s) = detectGracePeriodViolation cfg now newPod s
           in (healthy @ detectImagePullBackOff cfg now oldPod newPod @ detectCrashLoop cfg now oldPod newPod @
               detectOOMKilled cfg now oldPod newPod @ grace, updatePendingState newPod s))"

definition onPodDelete :: "pod_config \<Rightarrow> gotime \<Rightarrow> watched_pod \<Rightarrow> pod_watcher \<Rightarrow> correlator_event list \<times> pod_watcher" where
  "onPodDelete cfg now pod s =
     (if shouldWatchNamespace (pc_WatchNamespaces cfg) (wp_Namespace pod)
      then [PodDeletedEvent (baseEventFromPod pod (pc_AgentName cfg) now)] else [],
      s\<lparr>pw_pendingAlerted := pw_pendingAlerted s - {wp_UID pod}, pw_graceAlerted := pw_graceAlerted s - {wp_UID pod},
        pw_readySince := (pw_readySince s)(wp_UID pod := None), pw_healthyAlerted := pw_healthyAlerted s - {wp_UID pod}\<rparr>)"

definition scanPendingPods where
  "scanPendingPods cfg now items s = scan_list (pending_pod cfg now) items s"

definition in_watched where
  "in_watched cfg handle pod s =
     (if \<not> shouldWatchNamespace (pc_WatchNamespaces cfg) (wp_Namespace pod) then ([], s) else handle pod s)"

definition scanGracePeriodViolations where
  "scanGracePeriodViolations cfg now items s = scan_list (in_watched cfg (detectGracePeriodViolation cfg now)) items s"

definition scanReadyPods where
  "scanReadyPods cfg now items s = scan_list (in_watched cfg (trackReadyState cfg now None)) items s"

definition current_signals ::
    "pod_config \<Rightarrow> gotime \<Rightarrow> watched_pod \<Rightarrow> pod_watcher \<Rightarrow> correlator_event list \<times> pod_watcher" where
  "current_signals cfg now pod s =
     (let (grace, s) = detectGracePeriodViolation cfg now pod s;
          (healthy, s) = trackReadyState cfg now None pod s
      in (detectImagePullBackOff cfg now None pod @ detectCrashLoop cfg now None pod @ detectOOMKilled cfg now None pod @
          grace @ healthy, s))"

definition scanCurrentFailureSignals where
  "scanCurrentFailureSignals cfg now items s = scan_list (in_watched cfg (current_signals cfg now)) items s"

section \<open>Gates of the pod watcher\<close>

definition pending_sight :: "pod_config \<Rightarrow> gotime \<Rightarrow> watched_pod \<Rightarrow> unit sighting" where
  "pending_sight cfg now pod =
     (if wp_Phase pod \<noteq> ''Pending'' then Recovered
      else if hasImagePullFailure pod \<or> time_sub now (wp_CreationTimestamp pod) < pc_PendingTimeout cfg then Unclear
      else Faulty ())"

definition pending_event :: "pod_config \<Rightarrow> gotime \<Rightarrow> watched_pod \<Rightarrow> correlator_event" where
  "pending_event cfg now pod = PodPendingTooLongEvent (baseEventFromPod pod (pc_AgentName cfg) now)
     (time_sub now (wp_CreationTimestamp pod)) (pc_PendingTimeout cfg)"

lemma pending_pod_gate:
  "(fst (pending_pod cfg now pod s), unit_gate (pw_pendingAlerted (snd (pending_pod cfg now pod s)))) =
     gate_answer (watched_sight (shouldWatchNamespace (pc_WatchNamespaces cfg) (wp_Namespace pod)) (pending_sight cfg now pod)) (wp_UID pod)
       (pending_event cfg now pod) (unit_gate (pw_pendingAlerted s))"
  by (simp add: pending_pod_def watched_sight_def pending_sight_def pending_event_def Let_def)

interpretation pending: alert_gate "\<lambda>(now, pod). pending_pod cfg now pod" "\<lambda>(now, pod). wp_UID pod"
  "\<lambda>(now, pod). watched_sight (shouldWatchNamespace (pc_WatchNamespaces cfg) (wp_Namespace pod)) (pending_sight cfg now pod)"
  "\<lambda>s. unit_gate (pw_pendingAlerted s)"
  for cfg
  by (rule alert_gateI [where ev = "\<lambda>(now, pod). pending_event cfg now pod"])
    (simp_all add: pending_pod_gate [symmetric] case_prod_unfold)

definition grace_sight :: "gotime \<Rightarrow> watched_pod \<Rightarrow> unit sighting" where
  "grace_sight now pod = (case wp_DeletionTimestamp pod of
     None \<Rightarrow> Recovered
   | Some deletion \<Rightarrow> if deletion + wrap64 (gracePeriodSeconds pod * second) < now \<and> hasRunningContainers pod then Faulty () else Unclear)"

definition grace_event :: "pod_config \<Rightarrow> gotime \<Rightarrow> watched_pod \<Rightarrow> correlator_event" where
  "grace_event cfg now pod = GracePeriodViolationEvent (baseEventFromPod pod (pc_AgentName cfg) now) (gracePeriodSeconds pod)
     (time_sub now (the (wp_DeletionTimestamp pod) + wrap64 (gracePeriodSeconds pod * second)))"

lemma grace_gate:
  "(fst (detectGracePeriodViolation cfg now pod s), unit_gate (pw_graceAlerted (snd (detectGracePeriodViolation cfg now pod s)))) =
     gate_answer (grace_sight now pod) (wp_UID pod) (grace_event cfg now pod) (unit_gate (pw_graceAlerted s))"
  by (cases "wp_DeletionTimestamp pod")
    (simp_all add: detectGracePeriodViolation_def grace_sight_def grace_event_def time_after_def Let_def)

interpretation grace: alert_gate "\<lambda>(now, pod). detectGracePeriodViolation cfg now pod" "\<lambda>(now, pod). wp_UID pod"
  "\<lambda>(now, pod). grace_sight now pod" "\<lambda>s. unit_gate (pw_graceAlerted s)"
  for cfg
  by (rule alert_gateI [where ev = "\<lambda>(now, pod). grace_event cfg now pod"])
    (simp_all add: grace_gate [symmetric] case_prod_unfold)

section \<open>Recovered pods\<close>

text \<open>\<open>not_ready_seen x u\<close>: the observation \<open>x\<close> shows the pod \<open>u\<close>, now or before, as not ready.\<close>

definition not_ready_seen :: "gotime \<times> watched_pod option \<times> watched_pod \<Rightarrow> string \<Rightarrow> bool" where
  "not_ready_seen x u = (case x of (now, oldPod, newPod) \<Rightarrow>
     wp_UID newPod = u \<and> (\<not> isWatchedPodReady (Some newPod) \<or> oldPod \<noteq> None \<and> \<not> isWatchedPodReady oldPod))"

abbreviation track :: "pod_config \<Rightarrow> gotime \<times> watched_pod option \<times> watched_pod \<Rightarrow> pod_watcher \<Rightarrow> correlator_event list \<times> pod_watcher" where
  "track cfg \<equiv> \<lambda>(now, oldPod, newPod). trackReadyState cfg now oldPod newPod"

definition announced_ready :: "pod_watcher \<Rightarrow> string \<Rightarrow> bool" where
  "announced_ready s u \<longleftrightarrow> u \<in> pw_healthyAlerted s \<and> pw_readySince s u \<noteq> None"

lemma track_announces:
  assumes "fst (track cfg x s) \<noteq> []"
  shows "announced_ready (snd (track cfg x s)) (wp_UID (snd (snd x)))"
  using assms by (cases x) (auto simp: trackReadyState_def announced_ready_def Let_def split: option.splits if_splits)

lemma track_keeps:
  assumes "announced_ready s u" "\<not> not_ready_seen x u"
  shows "announced_ready (snd (track cfg x s)) u" and "wp_UID (snd (snd x)) = u \<Longrightarrow> fst (track cfg x s) = []"
  using assms by (cases x; auto simp: trackReadyState_def announced_ready_def not_ready_seen_def Let_def split: option.splits if_splits)+

lemma track_all_keeps:
  assumes "announced_ready s u" "\<forall>x \<in> set xs. \<not> not_ready_seen x u"
  shows "announced_ready (snd (watch_all (track cfg) xs s)) u"
  using assms
proof (induction xs arbitrary: s)
  case (Cons x xs)
  have "announced_ready (snd (track cfg x s)) u" using track_keeps(1) [of s u x cfg] Cons.prems by simp
  from Cons.IH [OF this] Cons.prems(2) show ?case by (simp add: case_prod_unfold Let_def)
qed simp

section \<open>Properties\<close>

text \<open>A pod that is pending for too long, and a pod whose containers run past the grace period of its
  deletion, is reported once per episode: again only after it was seen out of the pending phase,
  or without a deletion timestamp.
\<close>

theorem pod_alerts_once:
  "alerts_once (\<lambda>(now, pod). pending_pod cfg now pod) (\<lambda>(now, pod). wp_UID pod)
     (\<lambda>(now, pod). watched_sight (shouldWatchNamespace (pc_WatchNamespaces cfg) (wp_Namespace pod)) (pending_sight cfg now pod)) NewPodWatcher \<and>
   alerts_once (\<lambda>(now, pod). detectGracePeriodViolation cfg now pod) (\<lambda>(now, pod). wp_UID pod)
     (\<lambda>(now, pod). grace_sight now pod) NewPodWatcher"
  by (intro conjI pending.gate_alerts_once grace.gate_alerts_once) (simp_all add: NewPodWatcher_def)

text \<open>A pod is announced as healthy only while it is ready, and, once announced, not again before it was
  seen not ready: of a sequence of observations, an event of the last one after an event for
  the same pod at the first one means that an observation in between, or the last one itself, shows
  the pod as not ready.
\<close>

theorem pod_healthy_once:
  assumes "fst (track cfg x s) \<noteq> []" "fst (track cfg y (snd (watch_all (track cfg) (x # xs) s))) \<noteq> []"
    and "wp_UID (snd (snd y)) = wp_UID (snd (snd x))"
  shows "isWatchedPodReady (Some (snd (snd x))) \<and> isWatchedPodReady (Some (snd (snd y))) \<and>
    list_ex (\<lambda>z. not_ready_seen z (wp_UID (snd (snd x)))) (xs @ [y])"
proof -
  have ready: "isWatchedPodReady (Some (snd (snd z)))" if "fst (track cfg z t) \<noteq> []" for z t
    using that by (cases z) (auto simp: trackReadyState_def Let_def split: if_splits)
  let ?u = "wp_UID (snd (snd x))" and ?s = "snd (track cfg x s)"
  have run: "snd (watch_all (track cfg) (x # xs) s) = snd (watch_all (track cfg) xs ?s)" by (simp add: case_prod_unfold Let_def)
  have "\<exists>z \<in> set (xs @ [y]). not_ready_seen z ?u"
  proof (rule ccontr)
    assume none: "\<not> (\<exists>z \<in> set (xs @ [y]). not_ready_seen z ?u)"
    then have "announced_ready (snd (watch_all (track cfg) xs ?s)) ?u"
      using track_all_keeps [OF track_announces [OF assms(1)]] by simp
    then show False using track_keeps(2) [of _ ?u y cfg] none assms(2,3) run by simp
  qed
  then show ?thesis using ready [OF assms(1)] ready [OF assms(2)] by (auto simp: list_ex_iff)
qed

definition sample_pod :: "string \<Rightarrow> watched_pod" where
  "sample_pod ready = \<lparr>wp_Name = ''web-1'', wp_Namespace = ''shop'', wp_UID = ''u1'', wp_NodeName = ''n1'', wp_CreationTimestamp = 1,
     wp_DeletionTimestamp = None, wp_DeletionGracePeriodSeconds = None, wp_Phase = ''Running'',
     wp_Conditions = [\<lparr>wc_Type = ''Ready'', wc_Status = ready, wc_Reason = [], wc_Message = [], wc_LastTransitionTime = 1\<rparr>],
     wp_ContainerStatuses = [], wp_InitContainerStatuses = []\<rparr>"

definition sample_pod_config :: pod_config where
  "sample_pod_config = \<lparr>pc_AgentName = ''agent'', pc_CrashLoopRestartThreshold = 3, pc_PendingTimeout = 5 * minute,
     pc_PendingScanInterval = 30 * second, pc_ReadyStabilityWindow = 60 * second, pc_WatchNamespaces = []\<rparr>"

theorem pod_healthy_once_witness:
  "list_ex (\<lambda>z. not_ready_seen z ''u1'')
     ([(3 * minute, Some (sample_pod ''True''), sample_pod ''False'')] @ [(4 * minute, None, sample_pod ''True'')])"
proof -
  let ?x = "(2 * minute, None, sample_pod ''True'')" and ?z = "(3 * minute, Some (sample_pod ''True''), sample_pod ''False'')"
    and ?y = "(4 * minute, None, sample_pod ''True'')"
  have "fst (track sample_pod_config ?x NewPodWatcher) \<noteq> []"
    "fst (track sample_pod_config ?y (snd (watch_all (track sample_pod_config) [?x, ?z] NewPodWatcher))) \<noteq> []"
    by (simp_all add: trackReadyState_def NewPodWatcher_def sample_pod_def sample_pod_config_def isWatchedPodReady_def podReadySince_def
        time_is_zero_def time_sub_def minute_def second_def max_int64_def min_int64_def Let_def)
  from pod_healthy_once [OF this] show ?thesis by (simp add: sample_pod_def)
qed

end
