(* ===== verification/Watch_Events.thy ===== *)
theory Watch_Events
  imports Watch_Workloads Dedup
begin

text \<open>
  The watcher of the Kubernetes event stream (\<open>internal/watcher/event_watcher.go\<close>): it turns
  events about out-of-memory kills, evictions, failed probes and nodes into signals, at most one
  per key and window. The memory is swept from time to time.
\<close>

record kube_event =
  kv_Namespace :: string
  kv_Reason :: string
  kv_Message :: string
  kv_Kind :: string
  kv_Name :: string
  kv_UID :: string
  kv_Host :: string
  kv_EventTime :: gotime
  kv_LastTimestamp :: gotime
  kv_FirstTimestamp :: gotime

record event_config =
  ec_AgentName :: string
  ec_WatchNamespaces :: "string list"
  ec_DedupWindow :: duration
  ec_DedupSweepInterval :: duration

definition NewEventConfig :: "event_config \<Rightarrow> event_config" where
  "NewEventConfig cfg =
     (let cfg = (if ec_DedupWindow cfg \<le> 0 then cfg\<lparr>ec_DedupWindow := 2 * minute\<rparr> else cfg)
      in if ec_DedupSweepInterval cfg \<le> 0 then cfg\<lparr>ec_DedupSweepInterval := 10 * minute\<rparr> else cfg)"

type_synonym dedup_seen = "string \<rightharpoonup> gotime"

definition dedupKey :: "string \<Rightarrow> string \<Rightarrow> string \<Rightarrow> string" where
  "dedupKey ns uid reason = ns @ ''/'' @ uid @ ''/'' @ reason"

definition eventTimestamp :: "kube_event \<Rightarrow> gotime \<Rightarrow> gotime" where
  "eventTimestamp ev fallback =
     (if \<not> time_is_zero (kv_EventTime ev) then kv_EventTime ev
      else if \<not> time_is_zero (kv_LastTimestamp ev) then kv_LastTimestamp ev
      else if \<not> time_is_zero (kv_FirstTimestamp ev) then kv_FirstTimestamp ev
      else fallback)"

definition parseProbeType :: "string \<Rightarrow> string" where
  "parseProbeType message =
     (let msg = to_lower message
      in if has_prefix msg ''liveness'' then ''Liveness''
         else if has_prefix msg ''readiness'' then ''Readiness''
         else if has_prefix msg ''startup'' then ''Startup''
         else ''Unknown'')"

definition shouldEmit :: "duration \<Rightarrow> gotime \<Rightarrow> string \<Rightarrow> dedup_seen \<Rightarrow> bool \<times> dedup_seen" where
  "shouldEmit window now key m = (case m key of
     Some lastAt \<Rightarrow> if time_sub now lastAt < window then (False, m) else (True, m(key \<mapsto> now))
   | None \<Rightarrow> (True, m(key \<mapsto> now)))"

definition event_base :: "event_config \<Rightarrow> gotime \<Rightarrow> kube_event \<Rightarrow> base_event" where
  "event_base cfg now ev = \<lparr>be_At = eventTimestamp ev now, be_AgentName = ec_AgentName cfg, be_Namespace = kv_Namespace ev,
     be_PodName = kv_Name ev, be_PodUID = kv_UID ev, be_NodeName = kv_Host ev\<rparr>"

text \<open>\<open>emit_once\<close>: the event, unless its key was let through within the window.\<close>

definition emit_once ::
    "event_config \<Rightarrow> gotime \<Rightarrow> string \<Rightarrow> correlator_event \<Rightarrow> dedup_seen \<Rightarrow> correlator_event list \<times> dedup_seen" where
  "emit_once cfg now key event m = (case shouldEmit (ec_DedupWindow cfg) now key m of
     (False, m) \<Rightarrow> ([], m) | (True, m) \<Rightarrow> ([event], m))"

definition handleOOMKilling where
  "handleOOMKilling cfg now ev m =
     (if kv_Kind ev \<noteq> ''Pod'' then ([], m)
      else emit_once cfg now (dedupKey (kv_Namespace ev) (kv_UID ev) (kv_Reason ev))
             (OOMKilledEvent (event_base cfg now ev) [] 0 (kv_Reason ev)) m)"

definition handleEviction where
  "handleEviction cfg now ev m =
     (if kv_Kind ev \<noteq> ''Pod'' then ([], m)
      else emit_once cfg now (dedupKey (kv_Namespace ev) (kv_UID ev) (kv_Reason ev))
             (PodEvictedEvent (event_base cfg now ev) (kv_Reason ev) (kv_Message ev)) m)"

definition handleProbeFailure where
  "handleProbeFailure cfg now ev m =
     (if kv_Kind ev \<noteq> ''Pod'' then ([], m)
      else let probeType = parseProbeType (kv_Message ev)
      in emit_once cfg now (dedupKey (kv_Namespace ev) (kv_UID ev) (kv_Reason ev @ ''/'' @ probeType))
           (ProbeFailureEvent (event_base cfg now ev) probeType (kv_Message ev)) m)"

definition handleNodeNotReady where
  "handleNodeNotReady cfg now ev m =
     (if kv_Kind ev \<noteq> ''Node'' then ([], m)
      else emit_once cfg now (dedupKey (kv_Namespace ev) (kv_UID ev) (kv_Reason ev))
             (NodeNotReadyEvent (zero_base\<lparr>be_At := eventTimestamp ev now, be_AgentName := ec_AgentName cfg,
                be_Namespace := kv_Namespace ev, be_NodeName := kv_Name ev\<rparr>) (kv_Reason ev) (kv_Message ev)) m)"

definition route :: "event_config \<Rightarrow> gotime \<Rightarrow> kube_event \<Rightarrow> dedup_seen \<Rightarrow> correlator_event list \<times> dedup_seen" where
  "route cfg now ev m =
     (if kv_Reason ev = ''OOMKilling'' then handleOOMKilling cfg now ev m
      else if kv_Reason ev = ''Evicted'' then handleEviction cfg now ev m
      else if kv_Reason ev = ''Unhealthy'' then handleProbeFailure cfg now ev m
      else if kv_Reason ev = ''NodeNotReady'' \<or> kv_Reason ev = ''NodeConditionChanged'' then handleNodeNotReady cfg now ev m
      else ([], m))"

text \<open>\<open>onEventAdd\<close> and \<open>onEventUpdate\<close> do the same.\<close>

definition onEvent :: "event_config \<Rightarrow> gotime \<Rightarrow> kube_event \<Rightarrow> dedup_seen \<Rightarrow> correlator_event list \<times> dedup_seen" where
  "onEvent cfg now ev m =
     (if \<not> shouldWatchNamespace (ec_WatchNamespaces cfg) (kv_Namespace ev) then ([], m) else route cfg now ev m)"

text \<open>The replay at start skips events older than the lookback of five minutes.\<close>

definition events_bootstrapScan where
  "events_bootstrapScan cfg now items m =
     scan_list (\<lambda>ev m. if \<not> shouldWatchNamespace (ec_WatchNamespaces cfg) (kv_Namespace ev) then ([], m)
                       else if time_before (eventTimestamp ev now) (now - 5 * minute) then ([], m)
                       else route cfg now ev m) items m"

definition sweepDedupMap :: "duration \<Rightarrow> gotime \<Rightarrow> dedup_seen \<Rightarrow> dedup_seen" where
  "sweepDedupMap window now m = (\<lambda>k. case m k of None \<Rightarrow> None
     | Some lastSeen \<Rightarrow> if time_before lastSeen (now + wrap64 (- 2 * window)) then None else Some lastSeen)"

section \<open>Windows with sweeps\<close>

text \<open>A check with a window whose memory is swept in between: a sweep forgets old entries only.\<close>

fun swept_run ::
    "(gotime \<Rightarrow> 'k \<Rightarrow> 's \<Rightarrow> bool \<times> 's) \<Rightarrow> (gotime \<Rightarrow> 's \<Rightarrow> 's) \<Rightarrow> (gotime \<times> 'k option) list \<Rightarrow> 's \<Rightarrow> (gotime \<times> 'k) list" where
  "swept_run check sweep [] s = []"
| "swept_run check sweep ((now, None) # xs) s = swept_run check sweep xs (sweep now s)"
| "swept_run check sweep ((now, Some k) # xs) s =
     (if fst (check now k s) then [] else [(now, k)]) @ swept_run check sweep xs (snd (check now k s))"

lemma set_swept_run: "(t, k) \<in> set (swept_run check sweep xs s) \<Longrightarrow> t \<in> fst ` set xs"
  by (induction check sweep xs s rule: swept_run.induct) (auto split: if_splits)

locale swept_dedup = window_dedup check seen window inv tracked
  for check :: "gotime \<Rightarrow> 'k \<Rightarrow> 's \<Rightarrow> bool \<times> 's" and seen :: "'s \<Rightarrow> 'k \<rightharpoonup> gotime" and window :: duration
    and inv :: "'s \<Rightarrow> bool" and tracked :: "'k \<Rightarrow> bool" +
  fixes sweep :: "gotime \<Rightarrow> 's \<Rightarrow> 's"
  assumes inv_sweep: "inv s \<Longrightarrow> inv (sweep now s)"
    and sweep_keeps: "inv s \<Longrightarrow> seen s k = Some t \<Longrightarrow> time_sub now t < window \<Longrightarrow> seen (sweep now s) k = Some t"
    and all_tracked: "tracked k"
begin

lemma swept_after_record:
  assumes "inv s" "seen s k = Some t0" "sorted (map fst xs)" "(t, k) \<in> set (swept_run check sweep xs s)"
  shows "window \<le> time_sub t t0"
  using assms
proof (induction xs arbitrary: s)
  case (Cons x xs)
  obtain now c where x: "x = (now, c)" by (cases x)
  have t: "now \<le> t" using set_swept_run [OF Cons.prems(4)] Cons.prems(3) by (auto simp: x)
  have late: ?case if "window \<le> time_sub now t0" using that time_sub_mono [OF t, of t0] by linarith
  show ?case
  proof (cases c)
    case None
    show ?thesis
    proof (cases "time_sub now t0 < window")
      case True
      then show ?thesis
        using Cons.IH [OF inv_sweep [OF Cons.prems(1)] sweep_keeps [OF Cons.prems(1,2) True]] Cons.prems(3,4) by (simp add: x None)
    qed (simp add: late)
  next
    case (Some j)
    let ?s = "snd (check now j s)"
    consider "seen ?s k = Some t0" "j = k \<longrightarrow> fst (check now j s)" | "window \<le> time_sub now t0"
      using record_step [where j = j and now = now, OF Cons.prems(1) all_tracked Cons.prems(2) all_tracked] by blast
    then show ?thesis
    proof cases
      case 1
      then have "(t, k) \<in> set (swept_run check sweep xs ?s)" using Cons.prems(4) by (auto simp: x Some split: if_splits)
      then show ?thesis using Cons.IH [OF inv_check [OF Cons.prems(1)] 1(1)] Cons.prems(3) by (simp add: x)
    qed (rule late)
  qed
qed simp

lemma swept_spaced:
  "inv s \<Longrightarrow> sorted (map fst xs) \<Longrightarrow> spaced window snd (swept_run check sweep xs s)"
proof (induction xs arbitrary: s)
  case (Cons x xs)
  obtain now c where x: "x = (now, c)" by (cases x)
  show ?case
  proof (cases c)
    case None
    then show ?thesis using Cons.IH [OF inv_sweep [OF Cons.prems(1)]] Cons.prems(2) by (simp add: x)
  next
    case (Some j)
    let ?s = "snd (check now j s)"
    have IH: "spaced window snd (swept_run check sweep xs ?s)" and xs: "sorted (map fst xs)"
      using Cons.IH [OF inv_check [OF Cons.prems(1)]] Cons.prems(2) by (simp_all add: x)
    show ?thesis
    proof (cases "fst (check now j s)")
      case False
      have "window \<le> time_sub t now" if "(t, j) \<in> set (swept_run check sweep xs ?s)" for t
        by (rule swept_after_record [OF inv_check [OF Cons.prems(1)] accept_records [OF Cons.prems(1) all_tracked False] xs that])
      then show ?thesis using IH False by (auto simp: x Some spaced_def)
    qed (use IH in \<open>simp add: x Some\<close>)
  qed
qed (simp add: spaced_def)

end

text \<open>The event watcher keeps the contract: its check answers the other way round.\<close>

definition suppresses :: "duration \<Rightarrow> gotime \<Rightarrow> string \<Rightarrow> dedup_seen \<Rightarrow> bool \<times> dedup_seen" where
  "suppresses window now key m = (\<not> fst (shouldEmit window now key m), snd (shouldEmit window now key m))"

definition event_window :: "duration \<Rightarrow> bool" where
  "event_window w \<longleftrightarrow> 0 < w \<and> 2 * w \<le> max_int64"

lemma swept_is_old: "event_window w \<Longrightarrow> time_before t (now + wrap64 (- 2 * w)) \<Longrightarrow> w \<le> time_sub now t"
proof -
  assume w: "event_window w" and "time_before t (now + wrap64 (- 2 * w))"
  then have "wrap64 (- 2 * w) = - 2 * w" by (intro wrap64_id) (simp add: event_window_def in_int64_def max_int64_def min_int64_def)
  then have "2 * w < now - t" using \<open>time_before t _\<close> by (simp add: time_before_def)
  then show ?thesis using w by (auto simp: time_sub_def event_window_def max_int64_def min_int64_def)
qed

interpretation event_stream: swept_dedup "suppresses w" "\<lambda>m. m" w "\<lambda>_. event_window w" "\<lambda>_. True" "sweepDedupMap w" for w
proof (unfold_locales, goal_cases)
  case (8 s k t now)
  then show ?case using swept_is_old [of w t now] by (auto simp: sweepDedupMap_def)
qed (auto simp: suppresses_def shouldEmit_def split: option.splits if_splits)

section \<open>Runs of the watcher\<close>

definition event_key :: "event_config \<Rightarrow> kube_event \<Rightarrow> string option" where
  "event_key cfg ev =
     (if \<not> shouldWatchNamespace (ec_WatchNamespaces cfg) (kv_Namespace ev) then None
      else if kv_Reason ev \<in> {''OOMKilling'', ''Evicted''} then
        (if kv_Kind ev = ''Pod'' then Some (dedupKey (kv_Namespace ev) (kv_UID ev) (kv_Reason ev)) else None)
      else if kv_Reason ev = ''Unhealthy'' then
        (if kv_Kind ev = ''Pod'' then Some (dedupKey (kv_Namespace ev) (kv_UID ev) (kv_Reason ev @ ''/'' @ parseProbeType (kv_Message ev))) else None)
      else if kv_Reason ev \<in> {''NodeNotReady'', ''NodeConditionChanged''} then
        (if kv_Kind ev = ''Node'' then Some (dedupKey (kv_Namespace ev) (kv_UID ev) (kv_Reason ev)) else None)
      else None)"

lemma emit_once_facts:
  "fst (emit_once cfg now key e m) = (if fst (suppresses (ec_DedupWindow cfg) now key m) then [] else [e])"
  "snd (emit_once cfg now key e m) = snd (suppresses (ec_DedupWindow cfg) now key m)"
  by (cases "shouldEmit (ec_DedupWindow cfg) now key m"; cases "fst (shouldEmit (ec_DedupWindow cfg) now key m)";
      simp add: emit_once_def suppresses_def)+

lemma onEvent_key:
  "event_key cfg ev = None \<Longrightarrow> onEvent cfg now ev m = ([], m)"
  "event_key cfg ev = Some k \<Longrightarrow> \<exists>e. onEvent cfg now ev m = emit_once cfg now k e m"
  unfolding event_key_def onEvent_def route_def handleOOMKilling_def handleEviction_def handleProbeFailure_def handleNodeNotReady_def Let_def
  by (auto split: if_splits)

text \<open>A run: events and sweeps with their times; the log of the events that were let through.\<close>

fun watch_log :: "event_config \<Rightarrow> (gotime \<times> kube_event option) list \<Rightarrow> dedup_seen \<Rightarrow> (gotime \<times> kube_event) list" where
  "watch_log cfg [] m = []"
| "watch_log cfg ((now, None) # xs) m = watch_log cfg xs (sweepDedupMap (ec_DedupWindow cfg) now m)"
| "watch_log cfg ((now, Some ev) # xs) m =
     (if fst (onEvent cfg now ev m) = [] then [] else [(now, ev)]) @ watch_log cfg xs (snd (onEvent cfg now ev m))"

definition key_ops :: "event_config \<Rightarrow> (gotime \<times> kube_event option) list \<Rightarrow> (gotime \<times> string option) list" where
  "key_ops cfg = List.map_filter (\<lambda>(t, x). case x of None \<Rightarrow> Some (t, None) | Some ev \<Rightarrow> map_option (\<lambda>k. (t, Some k)) (event_key cfg ev))"

lemma watch_log_keys:
  "map (\<lambda>(t, ev). (t, the (event_key cfg ev))) (watch_log cfg xs m) =
     swept_run (suppresses (ec_DedupWindow cfg)) (sweepDedupMap (ec_DedupWindow cfg)) (key_ops cfg xs) m"
proof (induction cfg xs m rule: watch_log.induct)
  case (3 cfg now ev xs m)
  show ?case
  proof (cases "event_key cfg ev")
    case None
    then show ?thesis using 3 by (simp add: onEvent_key(1) key_ops_def List.map_filter_simps)
  next
    case (Some k)
    then obtain e where "onEvent cfg now ev m = emit_once cfg now k e m" using onEvent_key(2) by blast
    then show ?thesis using 3 Some by (simp add: emit_once_facts key_ops_def List.map_filter_simps)
  qed
qed (simp_all add: key_ops_def List.map_filter_simps)

lemma key_ops_sorted: "sorted (map fst xs) \<Longrightarrow> sorted (map fst (key_ops cfg xs))"
proof -
  have "fst ` set (key_ops cfg xs) \<subseteq> fst ` set xs" for xs
    by (induction xs) (auto simp: key_ops_def List.map_filter_simps split: option.splits prod.splits)
  then show "sorted (map fst xs) \<Longrightarrow> sorted (map fst (key_ops cfg xs))"
    by (induction xs) (fastforce simp: key_ops_def List.map_filter_simps split: option.splits prod.splits)+
qed

section \<open>Properties\<close>

text \<open>The watcher of the event stream lets two events about the same object, reason and probe type
  through only a window apart, whatever events arrive and however often the memory is swept in
  between, as long as times do not run backwards and twice the window fits a Go duration.
\<close>

theorem event_watcher_spaced:
  assumes "event_window (ec_DedupWindow cfg)" "sorted (map fst xs)"
  shows "spaced (ec_DedupWindow cfg) (\<lambda>te. the (event_key cfg (snd te))) (watch_log cfg xs Map.empty)"
proof -
  have "spaced (ec_DedupWindow cfg) snd (map (\<lambda>(t, ev). (t, the (event_key cfg ev))) (watch_log cfg xs Map.empty))"
    unfolding watch_log_keys by (rule event_stream.swept_spaced [OF assms(1) key_ops_sorted [OF assms(2)]])
  then show ?thesis by (simp add: spaced_def sorted_wrt_map case_prod_unfold)
qed

definition sample_eviction :: kube_event where
  "sample_eviction = \<lparr>kv_Namespace = ''shop'', kv_Reason = ''Evicted'', kv_Message = ''low memory'', kv_Kind = ''Pod'', kv_Name = ''web-1'',
     kv_UID = ''u1'', kv_Host = ''n1'', kv_EventTime = 0, kv_LastTimestamp = 0, kv_FirstTimestamp = 0\<rparr>"

definition sample_event_config :: event_config where
  "sample_event_config = \<lparr>ec_AgentName = ''agent'', ec_WatchNamespaces = [], ec_DedupWindow = 2 * minute, ec_DedupSweepInterval = 10 * minute\<rparr>"

theorem event_watcher_spaced_witness:
  "spaced (2 * minute) (\<lambda>te. the (event_key sample_event_config (snd te)))
     (watch_log sample_event_config [(minute, Some sample_eviction), (2 * minute, Some sample_eviction), (2 * minute, None),
        (4 * minute, Some sample_eviction)] Map.empty) \<and>
   map fst (watch_log sample_event_config [(minute, Some sample_eviction), (2 * minute, Some sample_eviction), (2 * minute, None),
        (4 * minute, Some sample_eviction)] Map.empty) = [minute, 4 * minute]"
proof
  let ?xs = "[(minute, Some sample_eviction), (2 * minute, Some sample_eviction), (2 * minute, None), (4 * minute, Some sample_eviction)]"
  have "ec_DedupWindow sample_event_config = 2 * minute" by (simp add: sample_event_config_def)
  then show "spaced (2 * minute) (\<lambda>te. the (event_key sample_event_config (snd te))) (watch_log sample_event_config ?xs Map.empty)"
    using event_watcher_spaced [of sample_event_config ?xs] by (simp add: event_window_def minute_def max_int64_def)
  show "map fst (watch_log sample_event_config ?xs Map.empty) = [minute, 4 * minute]"
    by (simp add: sample_event_config_def onEvent_def shouldWatchNamespace_def toNamespaceSet_def route_def sample_eviction_def
        handleEviction_def emit_once_def shouldEmit_def sweepDedupMap_def time_before_def time_sub_def wrap64_def dedupKey_def
        minute_def max_int64_def min_int64_def)
qed

end
