(* ===== verification/Go_Text.thy ===== *)
theory Go_Text
  imports Prelude "HOL-Library.Multiset"
begin

text \<open>
  More of the packages \<open>strings\<close> and \<open>sort\<close>, for the components that present the incidents:
  upper case, \<open>EqualFold\<close>, suffixes, \<open>TrimPrefix\<close>, \<open>Cut\<close> with both parts, \<open>Fields\<close>, and the
  lemmas on stable sorting by a key that make the order of a Go map irrelevant. As in the prelude the rune-level
  functions are given for ASCII bytes.
\<close>

definition upper_char :: "char \<Rightarrow> char" where
  "upper_char c = (if is_lower c then char_of (byte_of c - 32) else c)"

definition to_upper :: "string \<Rightarrow> string" where
  "to_upper s = map upper_char s"

definition equal_fold :: "string \<Rightarrow> string \<Rightarrow> bool" where
  "equal_fold a b \<longleftrightarrow> to_lower a = to_lower b"

definition has_suffix :: "string \<Rightarrow> string \<Rightarrow> bool" where
  "has_suffix s p \<longleftrightarrow> has_prefix (rev s) (rev p)"

definition trim_prefix :: "string \<Rightarrow> string \<Rightarrow> string" where
  "trim_prefix s p = (if has_prefix s p then drop (length p) s else s)"

definition cut2 :: "string \<Rightarrow> string \<Rightarrow> (string \<times> string) option" where
  "cut2 s sep = map_option (\<lambda>before. (before, drop (length before + length sep) s)) (str_cut s sep)"

definition str_words :: "string \<Rightarrow> string list" where
  "str_words s = str_fields is_space s"

lemma trim_prefix_append [simp]: "trim_prefix (p @ s) p = s"
  by (simp add: trim_prefix_def)

lemma in_set_map_filter: "y \<in> set (List.map_filter f xs) \<longleftrightarrow> (\<exists>x \<in> set xs. f x = Some y)"
  by (induction xs) (auto simp: map_filter_simps split: option.split)

text \<open>Sorting by an injective key forgets the order of its input.\<close>

lemma sort_key_perm:
  assumes "mset xs = mset ys" "inj_on f (set xs)"
  shows "sort_key f xs = sort_key f ys"
  using assms by (intro sort_key_inj_key_eq) simp_all

end
