(* ===== verification/Engine.thy ===== *)
theory Engine
  imports Consumer Go_Text
begin

text \<open>
  The incident engine's wiring: the registry of rule engine factories and how one is chosen
  (\<open>internal/engine/engine.go\<close>), the factory of the CRD rule engine
  (\<open>internal/rulengine/factory.go\<close>) and the controller that reloads its rules
  (\<open>internal/controller/rcacorrelationrule_controller.go\<close>). Running the engine is running the
  consumer, in the theory \<open>Consumer\<close>.
\<close>

section \<open>Factories\<close>

record 'e factory =
  fa_Name :: string
  fa_Priority :: int
  fa_Supports :: "string \<Rightarrow> bool"
  fa_Build :: "duration \<Rightarrow> string + 'e"

text \<open>A nil factory and a second factory of a name panic (\<open>None\<close>).\<close>

definition RegisterRuleEngineFactory :: "'e factory option \<Rightarrow> 'e factory list \<Rightarrow> 'e factory list option" where
  "RegisterRuleEngineFactory factory fs = (case factory of None \<Rightarrow> None
     | Some f \<Rightarrow> if list_ex (\<lambda>g. equal_fold (fa_Name g) (fa_Name f)) fs then None else Some (fs @ [f]))"

definition factory_order :: "'e factory \<Rightarrow> int \<times> string" where
  "factory_order f = (- fa_Priority f, to_lower (fa_Name f))"

definition registeredRuleEngineFactories :: "'e factory list \<Rightarrow> 'e factory list" where
  "registeredRuleEngineFactories fs = sort_key factory_order fs"

section \<open>Options\<close>

record 'e engine_options =
  eo_correlationWindow :: duration
  eo_preferredRuleName :: string
  eo_resolvedRuleEngine :: "'e option"

definition default_options :: "'e engine_options" where
  "default_options = \<lparr>eo_correlationWindow = 5 * minute, eo_preferredRuleName = [], eo_resolvedRuleEngine = None\<rparr>"

definition WithCorrelationWindow :: "duration \<Rightarrow> 'e engine_options \<Rightarrow> 'e engine_options" where
  "WithCorrelationWindow window opts = (if 0 < window then opts\<lparr>eo_correlationWindow := window\<rparr> else opts)"

definition WithRuleEngine :: "'e option \<Rightarrow> 'e engine_options \<Rightarrow> 'e engine_options" where
  "WithRuleEngine e opts = opts\<lparr>eo_resolvedRuleEngine := e\<rparr>"

definition WithRuleEngineName :: "string \<Rightarrow> 'e engine_options \<Rightarrow> 'e engine_options" where
  "WithRuleEngineName name opts = opts\<lparr>eo_preferredRuleName := trim_space name\<rparr>"

datatype engine_error = BuildEngine string string | NoMatch string | NoEngine

fun resolve_from :: "'e engine_options \<Rightarrow> 'e factory list \<Rightarrow> engine_error + 'e" where
  "resolve_from opts [] = Inl (if eo_preferredRuleName opts \<noteq> [] then NoMatch (eo_preferredRuleName opts) else NoEngine)"
| "resolve_from opts (f # fs) =
     (if \<not> fa_Supports f (eo_preferredRuleName opts) then resolve_from opts fs
      else case fa_Build f (eo_correlationWindow opts) of
             Inl err \<Rightarrow> Inl (BuildEngine (fa_Name f) err) | Inr e \<Rightarrow> Inr e)"

definition resolveRuleEngine :: "'e engine_options \<Rightarrow> 'e factory list \<Rightarrow> engine_error + 'e" where
  "resolveRuleEngine opts fs = (case eo_resolvedRuleEngine opts of Some e \<Rightarrow> Inr e
     | None \<Rightarrow> resolve_from opts (registeredRuleEngineFactories fs))"

definition NewIncidentEngine ::
    "('e engine_options \<Rightarrow> 'e engine_options) list \<Rightarrow> 'e factory list \<Rightarrow> 'w \<Rightarrow> engine_error + ('w, 'e) consumer" where
  "NewIncidentEngine opts fs w = (case resolveRuleEngine (fold (\<lambda>opt o'. opt o') opts default_options) fs of
     Inl err \<Rightarrow> Inl err | Inr e \<Rightarrow> Inr (NewConsumer w (Some e)))"

section \<open>The CRD engine\<close>

text \<open>\<open>Build\<close> loads the rules and keeps the engine when that fails. It is the \<open>fa_Build\<close> of the CRD
  factory; the engine it built is what the controller reloads.\<close>

definition crd_Build ::
    "('re, 'tm, 'fl) go_lib \<Rightarrow> 'w rule_client \<Rightarrow> 'w \<Rightarrow> duration \<Rightarrow> string + ('re, 'tm, 'fl) crd_engine" where
  "crd_Build L K w window = Inr (snd (LoadRules L K w (NewCRDRuleEngine window)))"

definition crd_factory :: "('re, 'tm, 'fl) go_lib \<Rightarrow> 'w rule_client \<Rightarrow> 'w \<Rightarrow> ('re, 'tm, 'fl) crd_engine factory" where
  "crd_factory L K w = \<lparr>fa_Name = ''crd'', fa_Priority = 200,
     fa_Supports = (\<lambda>name. name = [] \<or> equal_fold name ''crd''), fa_Build = crd_Build L K w\<rparr>"

definition rule_Reconcile ::
    "('re, 'tm, 'fl) go_lib \<Rightarrow> 'w rule_client \<Rightarrow> 'w \<Rightarrow> ('re, 'tm, 'fl) crd_engine option
      \<Rightarrow> kerr option \<times> ('re, 'tm, 'fl) crd_engine option" where
  "rule_Reconcile L K w engine = (case engine of None \<Rightarrow> (None, None)
     | Some e \<Rightarrow> let (err, e) = LoadRules L K w e in (err, Some e))"

section \<open>Lemmas\<close>

definition names_distinct :: "'e factory list \<Rightarrow> bool" where
  "names_distinct fs \<longleftrightarrow> distinct (map (\<lambda>f. to_lower (fa_Name f)) fs)"

lemma register_distinct: "names_distinct fs \<Longrightarrow> RegisterRuleEngineFactory f fs = Some fs' \<Longrightarrow> names_distinct fs'"
  by (cases f) (force simp: RegisterRuleEngineFactory_def names_distinct_def equal_fold_def list_ex_iff split: if_splits)+

lemma factory_order_inj: "names_distinct fs \<Longrightarrow> inj_on factory_order (set fs)"
  by (auto simp: inj_on_def factory_order_def names_distinct_def distinct_map)

lemma resolve_from_find:
  "resolve_from opts fs = (case find (\<lambda>f. fa_Supports f (eo_preferredRuleName opts)) fs of
     None \<Rightarrow> Inl (if eo_preferredRuleName opts \<noteq> [] then NoMatch (eo_preferredRuleName opts) else NoEngine)
   | Some f \<Rightarrow> (case fa_Build f (eo_correlationWindow opts) of Inl err \<Rightarrow> Inl (BuildEngine (fa_Name f) err) | Inr e \<Rightarrow> Inr e))"
  by (induction fs) auto

text \<open>The rules of an engine after a reconciliation: those of the API server that compile, or the
  old ones when they cannot be listed. The buffered signals are kept.\<close>

lemma rule_Reconcile_rules:
  assumes "rule_Reconcile L K w (Some e) = (err, Some e')"
  shows "ce_buf e' = ce_buf e \<and>
    (case rk_list K w None of Inl _ \<Rightarrow> err \<noteq> None \<and> e' = e
     | Inr items \<Rightarrow> err = None \<and> ce_rules e' = sort_key loaded_key (List.map_filter (load_rule L) items))"
  using assms by (auto simp: rule_Reconcile_def LoadRules_def split: sum.splits)

text \<open>An engine whose rules could not be loaded at startup is used without rules.\<close>

lemma crd_Build_without_rules:
  "rk_list K w None = Inl err \<Longrightarrow> crd_Build L K w window = Inr (NewCRDRuleEngine window)"
  by (simp add: crd_Build_def LoadRules_def)

section \<open>Properties\<close>

text \<open>Which rule engine is used does not depend on the order in which the factories were registered;
  it is built by a factory that supports the request, and no factory that does has a higher
  priority. Names are distinct up to case, which registration ensures.
\<close>

theorem engine_choice:
  assumes "names_distinct fs" "mset gs = mset fs"
  shows "resolveRuleEngine opts gs = resolveRuleEngine opts fs \<and>
    (eo_resolvedRuleEngine opts = None \<and> resolveRuleEngine opts fs = Inr e \<longrightarrow>
       (\<exists>f \<in> set fs. fa_Supports f (eo_preferredRuleName opts) \<and> fa_Build f (eo_correlationWindow opts) = Inr e \<and>
          (\<forall>g \<in> set fs. fa_Supports g (eo_preferredRuleName opts) \<longrightarrow> fa_Priority g \<le> fa_Priority f)))"
proof -
  have "registeredRuleEngineFactories gs = registeredRuleEngineFactories fs"
    unfolding registeredRuleEngineFactories_def
    by (rule sort_key_perm [symmetric]) (use assms factory_order_inj in auto)
  then have same: "resolveRuleEngine opts gs = resolveRuleEngine opts fs"
    by (auto simp: resolveRuleEngine_def split: option.split)
  let ?P = "\<lambda>f. fa_Supports f (eo_preferredRuleName opts)"
  have "\<exists>f \<in> set fs. ?P f \<and> fa_Build f (eo_correlationWindow opts) = Inr e \<and> (\<forall>g \<in> set fs. ?P g \<longrightarrow> fa_Priority g \<le> fa_Priority f)"
    if none: "eo_resolvedRuleEngine opts = None" and e: "resolveRuleEngine opts fs = Inr e"
  proof -
    obtain f where f: "find ?P (sort_key factory_order fs) = Some f" "fa_Build f (eo_correlationWindow opts) = Inr e"
      using none e by (auto simp: resolveRuleEngine_def registeredRuleEngineFactories_def resolve_from_find split: option.splits sum.splits)
    have "factory_order f \<le> factory_order g" if "g \<in> set fs" "?P g" for g
      using find_sorted_key_min [OF _ f(1), of factory_order g] that by simp
    then show ?thesis using find_SomeD [OF f(1)] f(2) by (fastforce simp: factory_order_def)
  qed
  then show ?thesis using same by blast
qed

definition plain_factory :: "string \<Rightarrow> int \<Rightarrow> nat \<Rightarrow> nat factory" where
  "plain_factory name priority e = \<lparr>fa_Name = name, fa_Priority = priority, fa_Supports = (\<lambda>n. n = []), fa_Build = (\<lambda>_. Inr e)\<rparr>"

theorem engine_choice_witness:
  "resolveRuleEngine default_options [plain_factory ''b'' 100 1, plain_factory ''a'' 200 2] =
   resolveRuleEngine default_options [plain_factory ''a'' 200 2, plain_factory ''b'' 100 1]"
proof -
  have "names_distinct [plain_factory ''a'' 200 2, plain_factory ''b'' 100 1]"
    by (simp add: names_distinct_def plain_factory_def to_lower_def lower_char_def is_upper_def)
  moreover have "mset [plain_factory ''b'' 100 1, plain_factory ''a'' 200 2] = mset [plain_factory ''a'' 200 2, plain_factory ''b'' 100 1]"
    by simp
  ultimately show ?thesis using engine_choice [THEN conjunct1] by blast
qed

end
