(* ===== verification/Otel_Ingest.thy ===== *)
theory Otel_Ingest
  imports Dedup Go_Text
begin

text \<open>
  The OTLP receiver of \<open>internal/otelingest\<close>: redaction (\<open>redact.go\<close>), the configuration and its
  defaults (\<open>config.go\<close>), the translation of spans and log records into signals
  (\<open>translator.go\<close>) and the two HTTP handlers with their size limits (\<open>server.go\<close>). The
  translator emits its events in the order of the lists given here.

  Parameters (the record \<open>ingest_env\<close>) are what the package imports: regular expressions, SHA-256,
  the formatting of floats, the iteration order of Go maps, gzip, media types, and the decoding and
  encoding of OTLP messages.
\<close>

section \<open>OTLP messages\<close>

text \<open>\<open>AnyValue\<close>; \<open>None\<close> stands for a nil pointer. A float64 is of the parameter type \<open>'fl\<close>. The number of
  a list of keys and values tells its occurrences in a message apart: each is turned into text once,
  by one iteration over a map, and two iterations over equal maps may take different orders.\<close>

datatype 'fl otlp_value =
    OString string
  | OBool bool
  | OInt int
  | ODouble 'fl
  | OBytes string
  | OArray "'fl otlp_value option list"
  | OKvlist nat "(string \<times> 'fl otlp_value option) option list"
  | OUnset

type_synonym 'fl key_values = "(string \<times> 'fl otlp_value option) option list"

datatype status_code = CodeUnset | CodeOk | CodeError | CodeOther
datatype span_kind = KindClient | KindServer | KindInternal | KindProducer | KindConsumer | KindOther

record 'fl otlp_event =
  oe_TimeUnixNano :: int
  oe_Name :: string
  oe_Attributes :: "'fl key_values"

text \<open>The times are uint64; \<open>os_Status\<close> is the code and the message.\<close>

record 'fl otlp_span =
  os_TraceId :: string
  os_SpanId :: string
  os_ParentSpanId :: string
  os_Name :: string
  os_Kind :: span_kind
  os_StartTimeUnixNano :: int
  os_EndTimeUnixNano :: int
  os_Attributes :: "'fl key_values"
  os_Events :: "'fl otlp_event list"
  os_Status :: "(status_code \<times> string) option"

record 'fl otlp_record =
  ol_TimeUnixNano :: int
  ol_SeverityNumber :: int
  ol_SeverityText :: string
  ol_Body :: "'fl otlp_value option"
  ol_Attributes :: "'fl key_values"
  ol_TraceId :: string
  ol_SpanId :: string

text \<open>A resource with its attributes (or no resource), and the spans or records of each scope.\<close>

type_synonym ('fl, 'a) resource_batch = "'fl key_values option \<times> 'a list list"

section \<open>Configuration\<close>

record trace_filters =
  tf_StatusCodeERROR :: bool
  tf_HTTPStatusGte :: int
  tf_LatencyP99Ms :: int

record log_filters =
  lf_MinSeverity :: string
  lf_MaxSignalsPerRequest :: int

record 're ingest_config =
  ic_BindAddress :: string
  ic_ReadTimeout :: duration
  ic_WriteTimeout :: duration
  ic_MaxRequestBytes :: int
  ic_AgentName :: string
  ic_TraceFilters :: trace_filters
  ic_LogFilters :: log_filters
  ic_Redaction :: "'re option list"

definition ingest_DefaultConfig :: "'re ingest_config" where
  "ingest_DefaultConfig = \<lparr>ic_BindAddress = '':4319'', ic_ReadTimeout = 10 * second, ic_WriteTimeout = 10 * second,
     ic_MaxRequestBytes = 16 * 1024 * 1024, ic_AgentName = ''otelingest'',
     ic_TraceFilters = \<lparr>tf_StatusCodeERROR = True, tf_HTTPStatusGte = 500, tf_LatencyP99Ms = 5000\<rparr>,
     ic_LogFilters = \<lparr>lf_MinSeverity = ''WARN'', lf_MaxSignalsPerRequest = 256\<rparr>, ic_Redaction = []\<rparr>"

definition applyConfigDefaults :: "'re ingest_config \<Rightarrow> 're ingest_config" where
  "applyConfigDefaults cfg =
     (let d = ingest_DefaultConfig :: 're ingest_config;
          cfg = (if ic_BindAddress cfg = [] then cfg\<lparr>ic_BindAddress := ic_BindAddress d\<rparr> else cfg);
          cfg = (if ic_ReadTimeout cfg = 0 then cfg\<lparr>ic_ReadTimeout := ic_ReadTimeout d\<rparr> else cfg);
          cfg = (if ic_WriteTimeout cfg = 0 then cfg\<lparr>ic_WriteTimeout := ic_WriteTimeout d\<rparr> else cfg);
          cfg = (if ic_MaxRequestBytes cfg = 0 then cfg\<lparr>ic_MaxRequestBytes := ic_MaxRequestBytes d\<rparr> else cfg)
      in if ic_AgentName cfg = [] then cfg\<lparr>ic_AgentName := ic_AgentName d\<rparr> else cfg)"

section \<open>The environment\<close>

datatype gunzip_answer = GzipRejected string | GzipStream string "string option"

record ('fl, 're) ingest_env =
  ie_replace :: "'re \<Rightarrow> string \<Rightarrow> string \<Rightarrow> string"
  ie_compile :: "string \<Rightarrow> string + 're"
  ie_sha256 :: "string \<Rightarrow> string"
  ie_float :: "'fl \<Rightarrow> string"
  ie_range :: "nat \<Rightarrow> attr_map \<Rightarrow> string list"
  ie_gunzip :: "string \<Rightarrow> gunzip_answer"
  ie_media_type :: "string \<Rightarrow> string option"
  ie_decode_traces :: "bool \<Rightarrow> string \<Rightarrow> string + ('fl, 'fl otlp_span) resource_batch list"
  ie_decode_logs :: "bool \<Rightarrow> string \<Rightarrow> string + ('fl, 'fl otlp_record) resource_batch list"
  ie_empty_response :: "bool \<Rightarrow> string option"

text \<open>\<open>CompileRedaction\<close>: the patterns that compile, and the errors of the others.\<close>

fun CompileRedaction :: "('fl, 're) ingest_env \<Rightarrow> string list \<Rightarrow> 're option list \<times> string list" where
  "CompileRedaction E [] = ([], [])"
| "CompileRedaction E (p # ps) =
     (let (out, errs) = CompileRedaction E ps
      in if p = [] then (out, errs)
         else case ie_compile E p of Inl err \<Rightarrow> (out, err # errs) | Inr re \<Rightarrow> (Some re # out, errs))"

abbreviation redactedToken :: string where "redactedToken \<equiv> ''[REDACTED]''"

definition redact :: "('fl, 're) ingest_env \<Rightarrow> 're option list \<Rightarrow> string \<Rightarrow> string" where
  "redact E patterns s =
     (if s = [] \<or> patterns = [] then s
      else fold (\<lambda>re out. case re of None \<Rightarrow> out | Some re \<Rightarrow> ie_replace E re out redactedToken) patterns s)"

definition bodyHash :: "('fl, 're) ingest_env \<Rightarrow> string \<Rightarrow> string" where
  "bodyHash E body = hex_string (take 8 (ie_sha256 E body))"

section \<open>Conversions\<close>

definition kv_map :: "(string \<times> string) option list \<Rightarrow> attr_map" where
  "kv_map kvs = fold (\<lambda>kv out. case kv of None \<Rightarrow> out
     | Some (k, v) \<Rightarrow> if k = [] then out else out(k \<mapsto> v)) kvs Map.empty"

fun any_string :: "('fl, 're) ingest_env \<Rightarrow> 'fl otlp_value \<Rightarrow> string" where
  "any_string E (OString s) = s"
| "any_string E (OBool b) = (if b then ''true'' else ''false'')"
| "any_string E (OInt n) = itoa n"
| "any_string E (ODouble x) = ie_float E x"
| "any_string E (OBytes b) = hex_string b"
| "any_string E (OArray vs) =
     ''['' @ str_join '','' (map (\<lambda>v. case v of None \<Rightarrow> [] | Some v \<Rightarrow> any_string E v) vs) @ '']''"
| "any_string E (OKvlist n kvs) =
     (let m = kv_map (map (\<lambda>kv. case kv of None \<Rightarrow> None
                | Some (k, v) \<Rightarrow> Some (k, case v of None \<Rightarrow> [] | Some v \<Rightarrow> any_string E v)) kvs)
      in ''{'' @ str_join '','' (map (\<lambda>k. k @ ''='' @ map_get m k) (ie_range E n m)) @ ''}'')"
| "any_string E OUnset = []"

text \<open>So the texts of two equal bodies can differ, and with them the hashes that deduplicate them.\<close>

lemma kvlist_order_shows:
  assumes "ie_range E 0 = (\<lambda>m. [''a'', ''b''])" "ie_range E 1 = (\<lambda>m. [''b'', ''a''])"
  defines "body \<equiv> \<lambda>n. OKvlist n [Some (''a'', Some (OString ''1'')), Some (''b'', Some (OString ''2''))]"
  shows "any_string E (body 0) = ''{a=1,b=2}'' \<and> any_string E (body 1) = ''{b=2,a=1}''"
  using assms by (simp add: kv_map_def map_get_def)

definition anyValueToString :: "('fl, 're) ingest_env \<Rightarrow> 'fl otlp_value option \<Rightarrow> string" where
  "anyValueToString E v = (case v of None \<Rightarrow> [] | Some v \<Rightarrow> any_string E v)"

definition keyValuesToMap :: "('fl, 're) ingest_env \<Rightarrow> 'fl key_values \<Rightarrow> attr_map" where
  "keyValuesToMap E kvs = kv_map (map (map_option (map_prod id (anyValueToString E))) kvs)"

definition resourceAttrs :: "('fl, 're) ingest_env \<Rightarrow> 'fl key_values option \<Rightarrow> attr_map" where
  "resourceAttrs E r = (case r of None \<Rightarrow> Map.empty | Some kvs \<Rightarrow> keyValuesToMap E kvs)"

definition statusCodeText :: "(status_code \<times> string) option \<Rightarrow> string" where
  "statusCodeText s = (case s of Some (CodeOk, _) \<Rightarrow> ''STATUS_CODE_OK''
     | Some (CodeError, _) \<Rightarrow> ''STATUS_CODE_ERROR'' | _ \<Rightarrow> ''STATUS_CODE_UNSET'')"

definition spanKindText :: "span_kind \<Rightarrow> string" where
  "spanKindText k = (case k of KindClient \<Rightarrow> ''CLIENT'' | KindServer \<Rightarrow> ''SERVER'' | KindInternal \<Rightarrow> ''INTERNAL''
     | KindProducer \<Rightarrow> ''PRODUCER'' | KindConsumer \<Rightarrow> ''CONSUMER'' | KindOther \<Rightarrow> ''UNSPECIFIED'')"

definition severityNumberForText :: "string \<Rightarrow> int" where
  "severityNumberForText text =
     (let t = to_upper (trim_space text)
      in if t = ''TRACE'' then 1 else if t = ''DEBUG'' then 5 else if t = ''INFO'' then 9
         else if t = ''WARN'' \<or> t = ''WARNING'' then 13 else if t = ''ERROR'' then 17
         else if t = ''FATAL'' then 21 else 0)"

definition severityTextFromNumber :: "int \<Rightarrow> string \<Rightarrow> string" where
  "severityTextFromNumber num given =
     (if given \<noteq> [] then given
      else if 21 \<le> num then ''FATAL'' else if 17 \<le> num then ''ERROR'' else if 13 \<le> num then ''WARN''
      else if 9 \<le> num then ''INFO'' else if 5 \<le> num then ''DEBUG'' else if 1 \<le> num then ''TRACE'' else [])"

definition hexBytes :: "string \<Rightarrow> string" where
  "hexBytes b = (if b = [] then [] else hex_string b)"

text \<open>Nanoseconds from Go's zero time to the Unix epoch.\<close>

definition unix_epoch :: gotime where
  "unix_epoch = 62135596800 * second"

definition unixNanoToTime :: "int \<Rightarrow> gotime \<Rightarrow> gotime" where
  "unixNanoToTime ns fallback = (if ns = 0 then fallback else unix_epoch + wrap64 ns)"

section \<open>Translation\<close>

definition baseFromResource :: "'re ingest_config \<Rightarrow> attr_map \<Rightarrow> base_event" where
  "baseFromResource cfg ra = \<lparr>be_At = 0, be_AgentName = ic_AgentName cfg,
     be_Namespace = map_get ra ''k8s.namespace.name'', be_PodName = map_get ra ''k8s.pod.name'',
     be_PodUID = map_get ra ''k8s.pod.uid'', be_NodeName = map_get ra ''k8s.node.name''\<rparr>"

definition shouldEmitErrorSpan :: "'re ingest_config \<Rightarrow> string \<Rightarrow> attr_map \<Rightarrow> bool" where
  "shouldEmitErrorSpan cfg statusCode attrs \<longleftrightarrow>
     tf_StatusCodeERROR (ic_TraceFilters cfg) \<and> statusCode = ''STATUS_CODE_ERROR'' \<or>
     0 < tf_HTTPStatusGte (ic_TraceFilters cfg) \<and>
     list_ex (\<lambda>k. case attrs k of None \<Rightarrow> False
       | Some v \<Rightarrow> (case atoi v of None \<Rightarrow> False | Some n \<Rightarrow> tf_HTTPStatusGte (ic_TraceFilters cfg) \<le> n))
       [''http.status_code'', ''http.response.status_code'']"

definition span_duration :: "'fl otlp_span \<Rightarrow> int" where
  "span_duration span = (if os_StartTimeUnixNano span < os_EndTimeUnixNano span
     then wrap64 (os_EndTimeUnixNano span - os_StartTimeUnixNano span) else 0)"

definition redact_key :: "('fl, 're) ingest_env \<Rightarrow> 're option list \<Rightarrow> string \<Rightarrow> attr_map \<Rightarrow> attr_map" where
  "redact_key E patterns k m = (case m k of None \<Rightarrow> m | Some v \<Rightarrow> m(k \<mapsto> redact E patterns v))"

definition span_event_signal ::
    "('fl, 're) ingest_env \<Rightarrow> 're ingest_config \<Rightarrow> base_event \<Rightarrow> 'fl otlp_span \<Rightarrow> attr_map \<Rightarrow> gotime \<Rightarrow> 'fl otlp_event
      \<Rightarrow> correlator_event" where
  "span_event_signal E cfg base span resAttrs endTime se =
     (let seAttrs = redact_key E (ic_Redaction cfg) ''exception.stacktrace''
            (redact_key E (ic_Redaction cfg) ''exception.message'' (keyValuesToMap E (oe_Attributes se)));
          eventTime = unixNanoToTime (oe_TimeUnixNano se) endTime
      in OTelSpanEventEvent (base\<lparr>be_At := eventTime\<rparr>) (hexBytes (os_TraceId span)) (hexBytes (os_SpanId span))
           (map_get resAttrs ''service.name'') (oe_Name se) eventTime seAttrs resAttrs)"

definition latency_threshold :: "'re ingest_config \<Rightarrow> int" where
  "latency_threshold cfg = wrap64 (tf_LatencyP99Ms (ic_TraceFilters cfg) * 1000000)"

definition translateSpan ::
    "('fl, 're) ingest_env \<Rightarrow> 're ingest_config \<Rightarrow> gotime \<Rightarrow> 'fl otlp_span \<Rightarrow> attr_map \<Rightarrow> base_event
      \<Rightarrow> correlator_event list" where
  "translateSpan E cfg now span resAttrs base =
     (let attrs = keyValuesToMap E (os_Attributes span);
          durationNs = span_duration span;
          statusCode = statusCodeText (os_Status span);
          statusMsg = redact E (ic_Redaction cfg) (case os_Status span of None \<Rightarrow> [] | Some (_, m) \<Rightarrow> m);
          traceID = hexBytes (os_TraceId span);
          spanID = hexBytes (os_SpanId span);
          parentSpanID = hexBytes (os_ParentSpanId span);
          serviceName = map_get resAttrs ''service.name'';
          startTime = unixNanoToTime (os_StartTimeUnixNano span) now;
          endTime = unixNanoToTime (os_EndTimeUnixNano span) now;
          base = base\<lparr>be_At := endTime\<rparr>;
          threshold = latency_threshold cfg
      in (if shouldEmitErrorSpan cfg statusCode attrs
          then [OTelSpanErrorEvent base traceID spanID parentSpanID serviceName (os_Name span)
                  (spanKindText (os_Kind span)) statusCode statusMsg durationNs startTime endTime attrs resAttrs]
          else []) @
         (if 0 < tf_LatencyP99Ms (ic_TraceFilters cfg) \<and> threshold \<le> durationNs
          then [OTelSpanLatencySpikeEvent base traceID spanID parentSpanID serviceName (os_Name span)
                  durationNs threshold startTime endTime attrs resAttrs]
          else []) @
         map (span_event_signal E cfg base span resAttrs endTime) (os_Events span))"

definition TranslateResourceSpans ::
    "('fl, 're) ingest_env \<Rightarrow> 're ingest_config \<Rightarrow> gotime \<Rightarrow> ('fl, 'fl otlp_span) resource_batch list
      \<Rightarrow> correlator_event list" where
  "TranslateResourceSpans E cfg now rss = concat (map (\<lambda>(res, scopes).
     let resAttrs = resourceAttrs E res; base = baseFromResource cfg resAttrs
     in concat (map (\<lambda>spans. concat (map (\<lambda>span. translateSpan E cfg now span resAttrs base) spans)) scopes)) rss)"

definition severity_passes :: "'re ingest_config \<Rightarrow> 'fl otlp_record \<Rightarrow> bool" where
  "severity_passes cfg rec \<longleftrightarrow>
     (let minSevNum = severityNumberForText (lf_MinSeverity (ic_LogFilters cfg))
      in \<not> (0 < minSevNum \<and> ol_SeverityNumber rec < minSevNum))"

definition log_event ::
    "('fl, 're) ingest_env \<Rightarrow> 're ingest_config \<Rightarrow> gotime \<Rightarrow> attr_map \<Rightarrow> 'fl otlp_record \<Rightarrow> correlator_event" where
  "log_event E cfg now resAttrs rec =
     (let redactedBody = redact E (ic_Redaction cfg) (anyValueToString E (ol_Body rec));
          base = (baseFromResource cfg resAttrs)\<lparr>be_At := unixNanoToTime (ol_TimeUnixNano rec) now\<rparr>
      in OTelLogMatchEvent base (hexBytes (ol_TraceId rec)) (hexBytes (ol_SpanId rec))
           (map_get resAttrs ''service.name'') (severityTextFromNumber (ol_SeverityNumber rec) (ol_SeverityText rec))
           (ol_SeverityNumber rec) redactedBody (bodyHash E redactedBody) (keyValuesToMap E (ol_Attributes rec)) resAttrs)"

text \<open>The loops of \<open>TranslateResourceLogs\<close>, with the events emitted so far and the keys seen; the
  flag says that the loops were left by the return at the cap.\<close>

type_synonym log_state = "bool \<times> string set \<times> correlator_event list"

definition log_cap_reached :: "'re ingest_config \<Rightarrow> correlator_event list \<Rightarrow> bool" where
  "log_cap_reached cfg out \<longleftrightarrow> 0 < lf_MaxSignalsPerRequest (ic_LogFilters cfg) \<and>
     lf_MaxSignalsPerRequest (ic_LogFilters cfg) \<le> int (length out)"

fun log_records ::
    "('fl, 're) ingest_env \<Rightarrow> 're ingest_config \<Rightarrow> gotime \<Rightarrow> attr_map \<Rightarrow> 'fl otlp_record list \<Rightarrow> log_state \<Rightarrow> log_state" where
  "log_records E cfg now resAttrs [] st = st"
| "log_records E cfg now resAttrs (rec # recs) (stop, seen, out) =
     (if stop then (stop, seen, out)
      else if \<not> severity_passes cfg rec then log_records E cfg now resAttrs recs (stop, seen, out)
      else let evt = log_event E cfg now resAttrs rec; key = DedupKey evt
           in if key \<in> seen then log_records E cfg now resAttrs recs (stop, seen, out)
              else let out = out @ [evt]
                   in log_records E cfg now resAttrs recs (log_cap_reached cfg out, insert key seen, out))"

definition log_scopes ::
    "('fl, 're) ingest_env \<Rightarrow> 're ingest_config \<Rightarrow> gotime \<Rightarrow> ('fl, 'fl otlp_record) resource_batch \<Rightarrow> log_state \<Rightarrow> log_state" where
  "log_scopes E cfg now rl st = fold (log_records E cfg now (resourceAttrs E (fst rl))) (snd rl) st"

definition TranslateResourceLogs ::
    "('fl, 're) ingest_env \<Rightarrow> 're ingest_config \<Rightarrow> gotime \<Rightarrow> ('fl, 'fl otlp_record) resource_batch list
      \<Rightarrow> correlator_event list" where
  "TranslateResourceLogs E cfg now rls = snd (snd (fold (log_scopes E cfg now) rls (False, {}, [])))"

section \<open>Requests\<close>

datatype ingest_error = Oversized | OtherError string

definition error_text :: "ingest_error \<Rightarrow> string" where
  "error_text err = (case err of Oversized \<Rightarrow> ''request exceeds configured max size'' | OtherError t \<Rightarrow> t)"

text \<open>A request: the bytes of its body and, after them, the error of reading it, if any.\<close>

record ingest_request =
  rq_Method :: string
  rq_ContentType :: string
  rq_ContentEncoding :: string
  rq_Body :: "string \<times> string option"

record ingest_response =
  rs_Status :: nat
  rs_ContentType :: string
  rs_Body :: string

definition http_Error :: "string \<Rightarrow> nat \<Rightarrow> ingest_response" where
  "http_Error text status = \<lparr>rs_Status = status, rs_ContentType = ''text/plain; charset=utf-8'', rs_Body = text @ [CHR 0x0A]\<rparr>"

text \<open>\<open>io.ReadAll\<close> of an \<open>io.LimitReader\<close>: at most \<open>n\<close> bytes, none when \<open>n\<close> is not positive; the
  error of the stream is met only when the limit leaves bytes to ask for.\<close>

definition read_all_limited :: "int \<Rightarrow> string \<Rightarrow> string option \<Rightarrow> string + string" where
  "read_all_limited n bytes err =
     (if n \<le> int (length bytes) then Inr (take (nat n) bytes)
      else case err of None \<Rightarrow> Inr bytes | Some e \<Rightarrow> Inl e)"

definition decodeContentEncoding ::
    "('fl, 're) ingest_env \<Rightarrow> string \<Rightarrow> string \<Rightarrow> int \<Rightarrow> ingest_error + string" where
  "decodeContentEncoding E contentEncoding body limit =
     (let encoding = to_lower (trim_space contentEncoding)
      in if encoding = [] \<or> encoding = ''identity'' then Inr body
         else if encoding = ''gzip'' then
           (case ie_gunzip E body of
              GzipRejected err \<Rightarrow> Inl (OtherError err)
            | GzipStream bytes err \<Rightarrow>
                (case read_all_limited (wrap64 (limit + 1)) bytes err of
                   Inl e \<Rightarrow> Inl (OtherError e)
                 | Inr decoded \<Rightarrow> if limit < int (length decoded) then Inl Oversized else Inr decoded))
         else Inl (OtherError (''unsupported content encoding: '' @ contentEncoding)))"

definition readLimited :: "('fl, 're) ingest_env \<Rightarrow> ingest_request \<Rightarrow> int \<Rightarrow> ingest_error + string" where
  "readLimited E r limit =
     (let limit = (if limit \<le> 0 then 16 * 1024 * 1024 else limit); (bytes, err) = rq_Body r
      in if limit < int (length bytes) then Inl Oversized
         else case err of Some e \<Rightarrow> Inl (OtherError e)
              | None \<Rightarrow> decodeContentEncoding E (rq_ContentEncoding r) bytes limit)"

definition statusForError :: "ingest_error \<Rightarrow> nat" where
  "statusForError err = (case err of Oversized \<Rightarrow> 413 | OtherError _ \<Rightarrow> 400)"

definition isJSONContentType :: "('fl, 're) ingest_env \<Rightarrow> string \<Rightarrow> bool" where
  "isJSONContentType E contentType = (case ie_media_type E contentType of
     Some mediaType \<Rightarrow> mediaType = ''application/json''
   | None \<Rightarrow> equal_fold (trim_space contentType) ''application/json'')"

definition writeOTLPResponse :: "('fl, 're) ingest_env \<Rightarrow> string \<Rightarrow> ingest_response" where
  "writeOTLPResponse E reqContentType =
     (let json = isJSONContentType E reqContentType
      in case ie_empty_response E json of
           None \<Rightarrow> http_Error ''encode error'' 500
         | Some data \<Rightarrow> \<lparr>rs_Status = 200,
             rs_ContentType = (if json then ''application/json'' else ''application/x-protobuf''), rs_Body = data\<rparr>)"

text \<open>\<open>decodeOTLP\<close> picks the decoder by the content type. The emitter is threaded through.\<close>

definition emit_each :: "gotime \<Rightarrow> correlator_event list \<Rightarrow> emitter \<Rightarrow> emitter" where
  "emit_each now events em = fold (Emit now) events em"

definition handleTraces ::
    "('fl, 're) ingest_env \<Rightarrow> 're ingest_config \<Rightarrow> gotime \<Rightarrow> ingest_request \<Rightarrow> emitter \<Rightarrow> ingest_response \<times> emitter" where
  "handleTraces E cfg now r em =
     (if rq_Method r \<noteq> ''POST'' then (http_Error ''method not allowed'' 405, em)
      else case readLimited E r (ic_MaxRequestBytes cfg) of
        Inl err \<Rightarrow> (http_Error (error_text err) (statusForError err), em)
      | Inr body \<Rightarrow>
          (case ie_decode_traces E (isJSONContentType E (rq_ContentType r)) body of
             Inl err \<Rightarrow> (http_Error (''bad request: '' @ err) 400, em)
           | Inr rss \<Rightarrow> (writeOTLPResponse E (rq_ContentType r), emit_each now (TranslateResourceSpans E cfg now rss) em)))"

definition handleLogs ::
    "('fl, 're) ingest_env \<Rightarrow> 're ingest_config \<Rightarrow> gotime \<Rightarrow> ingest_request \<Rightarrow> emitter \<Rightarrow> ingest_response \<times> emitter" where
  "handleLogs E cfg now r em =
     (if rq_Method r \<noteq> ''POST'' then (http_Error ''method not allowed'' 405, em)
      else case readLimited E r (ic_MaxRequestBytes cfg) of
        Inl err \<Rightarrow> (http_Error (error_text err) (statusForError err), em)
      | Inr body \<Rightarrow>
          (case ie_decode_logs E (isJSONContentType E (rq_ContentType r)) body of
             Inl err \<Rightarrow> (http_Error (''bad request: '' @ err) 400, em)
           | Inr rls \<Rightarrow> (writeOTLPResponse E (rq_ContentType r), emit_each now (TranslateResourceLogs E cfg now rls) em)))"

section \<open>What a batch of logs amounts to\<close>

fun keep_new :: "('a \<Rightarrow> 'k) \<Rightarrow> 'k set \<Rightarrow> 'a list \<Rightarrow> 'a list" where
  "keep_new f seen [] = []"
| "keep_new f seen (x # xs) =
     (if f x \<in> seen then keep_new f seen xs else x # keep_new f (insert (f x) seen) xs)"

lemma keep_new_distinct:
  "distinct (map f (keep_new f seen xs)) \<and> f ` set (keep_new f seen xs) = f ` set xs - seen"
  by (induction f seen xs rule: keep_new.induct) auto

lemma keep_new_set: "set (keep_new f seen xs) \<subseteq> set xs"
  by (induction f seen xs rule: keep_new.induct) auto

definition candidates :: "('fl, 're) ingest_env \<Rightarrow> 're ingest_config \<Rightarrow> gotime \<Rightarrow> ('fl, 'fl otlp_record) resource_batch list
    \<Rightarrow> correlator_event list" where
  "candidates E cfg now rls = concat (map (\<lambda>rl.
     map (log_event E cfg now (resourceAttrs E (fst rl))) (filter (severity_passes cfg) (concat (snd rl)))) rls)"

definition log_capped :: "'re ingest_config \<Rightarrow> 'a list \<Rightarrow> 'a list" where
  "log_capped cfg xs = (let n = lf_MaxSignalsPerRequest (ic_LogFilters cfg) in if 0 < n then take (nat n) xs else xs)"

fun log_steps :: "'re ingest_config \<Rightarrow> correlator_event list \<Rightarrow> log_state \<Rightarrow> log_state" where
  "log_steps cfg [] st = st"
| "log_steps cfg (e # es) (stop, seen, out) =
     (if stop then (stop, seen, out)
      else if DedupKey e \<in> seen then log_steps cfg es (stop, seen, out)
      else log_steps cfg es (log_cap_reached cfg (out @ [e]), insert (DedupKey e) seen, out @ [e]))"

lemma log_steps_stop [simp]: "log_steps cfg es (True, seen, out) = (True, seen, out)"
  by (cases es) simp_all

lemma log_steps_append: "log_steps cfg (es @ fs) st = log_steps cfg fs (log_steps cfg es st)"
proof (induction cfg es st rule: log_steps.induct)
  case (2 cfg e es stop seen out)
  then show ?case by (cases stop) simp_all
qed simp

lemma log_records_steps:
  "log_records E cfg now ra recs st = log_steps cfg (map (log_event E cfg now ra) (filter (severity_passes cfg) recs)) st"
proof (induction E cfg now ra recs st rule: log_records.induct)
  case (2 E cfg now ra rec recs stop seen out)
  then show ?case by (cases stop) (simp_all add: Let_def)
qed simp

lemma log_scopes_steps:
  "log_scopes E cfg now rl st =
     log_steps cfg (map (log_event E cfg now (resourceAttrs E (fst rl))) (filter (severity_passes cfg) (concat (snd rl)))) st"
proof -
  have "fold (log_records E cfg now ra) scopes st =
      log_steps cfg (map (log_event E cfg now ra) (filter (severity_passes cfg) (concat scopes))) st" for ra scopes
    by (induction scopes arbitrary: st) (simp_all add: log_records_steps log_steps_append)
  then show ?thesis by (simp add: log_scopes_def)
qed

lemma translate_logs_steps:
  "TranslateResourceLogs E cfg now rls = snd (snd (log_steps cfg (candidates E cfg now rls) (False, {}, [])))"
proof -
  have "fold (log_scopes E cfg now) rls st = log_steps cfg (candidates E cfg now rls) st" for st
    by (induction rls arbitrary: st) (simp_all add: candidates_def log_scopes_steps log_steps_append)
  then show ?thesis by (simp add: TranslateResourceLogs_def)
qed

lemma log_steps_capped:
  "\<not> log_cap_reached cfg out \<Longrightarrow>
     snd (snd (log_steps cfg es (False, seen, out))) = log_capped cfg (out @ keep_new DedupKey seen es)"
proof (induction es arbitrary: seen out)
  case Nil
  then show ?case by (auto simp: log_cap_reached_def log_capped_def Let_def)
next
  case (Cons e es)
  show ?case
  proof (cases "DedupKey e \<notin> seen \<and> log_cap_reached cfg (out @ [e])")
    case True
    then have "0 < lf_MaxSignalsPerRequest (ic_LogFilters cfg)"
      "nat (lf_MaxSignalsPerRequest (ic_LogFilters cfg)) = Suc (length out)"
      using Cons.prems by (auto simp: log_cap_reached_def)
    then show ?thesis using True by (simp add: log_capped_def)
  qed (use Cons in auto)
qed

lemma log_capped_sub: "set (log_capped cfg xs) \<subseteq> set xs" "distinct (map f xs) \<Longrightarrow> distinct (map f (log_capped cfg xs))"
  by (auto simp: log_capped_def Let_def take_map [symmetric] dest: in_set_takeD)

section \<open>Lemmas\<close>

lemma Emit_queue: "length (em_queue (Emit now e em)) \<le> Suc (length (em_queue em))"
  by (simp add: Emit_def shouldDropDuplicate_def Let_def split: option.split)

lemma emit_each_queue: "length (em_queue (emit_each now es em)) \<le> length (em_queue em) + length es"
proof (induction es arbitrary: em)
  case (Cons e es)
  show ?case using Cons [of "Emit now e em"] Emit_queue [of now e em] by (simp add: emit_each_def)
qed (simp add: emit_each_def)

lemma log_capped_length: "0 < lf_MaxSignalsPerRequest (ic_LogFilters cfg) \<Longrightarrow>
    int (length (log_capped cfg xs)) \<le> lf_MaxSignalsPerRequest (ic_LogFilters cfg)"
  by (simp add: log_capped_def Let_def)

lemma translate_logs_spec: "TranslateResourceLogs E cfg now rls = log_capped cfg (keep_new DedupKey {} (candidates E cfg now rls))"
  unfolding translate_logs_steps
  using log_steps_capped [of cfg "[]" "candidates E cfg now rls" "{}"] by (simp add: log_cap_reached_def)

text \<open>A record that gives its severity only as text counts as number 0 and is dropped by every
  minimum severity, whatever the text says.\<close>

lemma text_severity_dropped:
  "ol_SeverityNumber rec = 0 \<Longrightarrow> severityNumberForText (lf_MinSeverity (ic_LogFilters cfg)) \<noteq> 0 \<Longrightarrow>
     \<not> severity_passes cfg rec"
  by (auto simp: severity_passes_def severityNumberForText_def Let_def split: if_splits)

text \<open>Which signals a span gives, for thresholds and durations an int64 can hold: the error signal by
  the status or an HTTP code, the latency signal by the true duration, one signal per span event.\<close>

lemma span_signals:
  assumes "in_int64 (tf_LatencyP99Ms (ic_TraceFilters cfg) * 1000000)"
    and "in_int64 (os_EndTimeUnixNano span - os_StartTimeUnixNano span)"
  shows "map event_type (translateSpan E cfg now span ra base) =
    (if shouldEmitErrorSpan cfg (statusCodeText (os_Status span)) (keyValuesToMap E (os_Attributes span))
     then [''OTelSpanError''] else []) @
    (if 0 < tf_LatencyP99Ms (ic_TraceFilters cfg) \<and>
        tf_LatencyP99Ms (ic_TraceFilters cfg) * 1000000 \<le> os_EndTimeUnixNano span - os_StartTimeUnixNano span
     then [''OTelSpanLatencySpike''] else []) @
    replicate (length (os_Events span)) ''OTelSpanEvent''"
proof -
  have "map event_type (map (span_event_signal E cfg b span ra t) ses) = replicate (length ses) ''OTelSpanEvent''" for b t and ses
    by (induction ses) (simp_all add: span_event_signal_def Let_def event_type_def)
  then show ?thesis using assms
    by (simp add: translateSpan_def Let_def event_type_def latency_threshold_def span_duration_def)
qed

definition body_limit :: "int \<Rightarrow> int" where
  "body_limit n = (if n \<le> 0 then 16 * 1024 * 1024 else n)"

definition is_gzip :: "ingest_request \<Rightarrow> bool" where
  "is_gzip r \<longleftrightarrow> to_lower (trim_space (rq_ContentEncoding r)) = ''gzip''"

definition gunzipped :: "('fl, 're) ingest_env \<Rightarrow> string \<Rightarrow> string" where
  "gunzipped E body = (case ie_gunzip E body of GzipRejected _ \<Rightarrow> [] | GzipStream bytes _ \<Rightarrow> bytes)"

lemma readLimited_length:
  assumes "readLimited E r n = Inr body"
  shows "int (length body) \<le> body_limit n"
  using assms by (auto simp: readLimited_def Let_def body_limit_def decodeContentEncoding_def
      split: prod.splits if_splits option.splits gunzip_answer.splits sum.splits)

lemma readLimited_oversized: "body_limit n < int (length (fst (rq_Body r))) \<Longrightarrow> readLimited E r n = Inl Oversized"
  by (auto simp: readLimited_def Let_def body_limit_def split: prod.split)

lemma readLimited_gzip_bomb:
  assumes "is_gzip r" "body_limit n < max_int64" "snd (rq_Body r) = None"
    "body_limit n < int (length (gunzipped E (fst (rq_Body r))))"
  shows "readLimited E r n = Inl Oversized"
proof -
  obtain bytes err where gz: "ie_gunzip E (fst (rq_Body r)) = GzipStream bytes err" "body_limit n < int (length bytes)"
    using assms(4) by (auto simp: gunzipped_def body_limit_def split: gunzip_answer.splits if_splits)
  have limit: "0 < body_limit n" by (simp add: body_limit_def)
  then have "wrap64 (body_limit n + 1) = body_limit n + 1"
    using assms(2) by (intro wrap64_id) (simp add: in_int64_def min_int64_def)
  then have "read_all_limited (wrap64 (body_limit n + 1)) bytes err = Inr (take (nat (body_limit n + 1)) bytes)"
    using gz by (simp add: read_all_limited_def)
  then have "decodeContentEncoding E (rq_ContentEncoding r) (fst (rq_Body r)) (body_limit n) = Inl Oversized"
    using assms(1) gz limit by (simp add: decodeContentEncoding_def Let_def is_gzip_def)
  then show ?thesis using assms(3) by (auto simp: readLimited_def Let_def body_limit_def split: prod.split)
qed

lemma handleLogs_emits:
  assumes "0 < lf_MaxSignalsPerRequest (ic_LogFilters cfg)"
  shows "int (length (em_queue (snd (handleLogs E cfg now r em)))) \<le>
    int (length (em_queue em)) + lf_MaxSignalsPerRequest (ic_LogFilters cfg)"
proof -
  have "int (length (em_queue (emit_each now (TranslateResourceLogs E cfg now rls) em)))
      \<le> int (length (em_queue em)) + lf_MaxSignalsPerRequest (ic_LogFilters cfg)" for rls
    using emit_each_queue [of now "TranslateResourceLogs E cfg now rls" em]
      log_capped_length [OF assms, of "keep_new DedupKey {} (candidates E cfg now rls)"]
    by (simp add: translate_logs_spec)
  then show ?thesis using assms by (auto simp: handleLogs_def split: sum.split)
qed

lemma handleLogs_refused:
  "rs_Status (fst (handleLogs E cfg now r em)) \<in> {400, 405, 413} \<longrightarrow> snd (handleLogs E cfg now r em) = em"
  by (auto simp: handleLogs_def writeOTLPResponse_def Let_def http_Error_def split: sum.splits option.splits if_splits)

lemma handleLogs_oversized:
  "rq_Method r = ''POST'' \<Longrightarrow> readLimited E r (ic_MaxRequestBytes cfg) = Inl Oversized \<Longrightarrow>
     rs_Status (fst (handleLogs E cfg now r em)) = 413"
  by (simp add: handleLogs_def statusForError_def http_Error_def)

lemma handleTraces_refused:
  "rs_Status (fst (handleTraces E cfg now r em)) \<in> {400, 405, 413} \<longrightarrow> snd (handleTraces E cfg now r em) = em"
  by (auto simp: handleTraces_def writeOTLPResponse_def Let_def http_Error_def split: sum.splits option.splits if_splits)

lemma handleTraces_oversized:
  "rq_Method r = ''POST'' \<Longrightarrow> readLimited E r (ic_MaxRequestBytes cfg) = Inl Oversized \<Longrightarrow>
     rs_Status (fst (handleTraces E cfg now r em)) = 413"
  by (simp add: handleTraces_def statusForError_def http_Error_def)

section \<open>Properties\<close>

text \<open>C17.
  However the records of a request are spread over resources and scopes, the translator emits the
  records that pass the severity filter, each as its redacted event, the first of each dedup key
  only, in order, and no more than the cap: the nested loops with their set of seen keys and the
  return in the middle compute exactly that. So the keys emitted are distinct, and with no cap
  reached none of the passing records goes unrepresented.
\<close>

theorem logs_translated:
  "TranslateResourceLogs E cfg now rls = log_capped cfg (keep_new DedupKey {} (candidates E cfg now rls)) \<and>
   distinct (map DedupKey (TranslateResourceLogs E cfg now rls)) \<and>
   (lf_MaxSignalsPerRequest (ic_LogFilters cfg) \<le> 0 \<longrightarrow>
      DedupKey ` set (TranslateResourceLogs E cfg now rls) = DedupKey ` set (candidates E cfg now rls))"
proof -
  have "distinct (map DedupKey (log_capped cfg (keep_new DedupKey {} (candidates E cfg now rls))))"
    by (intro log_capped_sub) (simp add: keep_new_distinct)
  then show ?thesis by (simp add: translate_logs_spec log_capped_def keep_new_distinct)
qed

text \<open>C35.
  For both handlers of the receiver: a request answered with 400, 405 or 413 puts nothing on the
  channel; what is decoded is never longer than the configured limit (16 MiB when it is not
  positive); a \<open>POST\<close> whose body as sent is longer than the limit is answered with 413, and so is a
  \<open>POST\<close> of a gzip body that was read without error and decompresses to more than the limit, unless
  the limit is the largest int64. A log request puts at most \<open>MaxSignalsPerRequest\<close> signals on the
  channel when that is positive; for trace requests the source has no such cap.
\<close>

theorem ingest_bounded:
  "let limit = body_limit (ic_MaxRequestBytes cfg); cap = lf_MaxSignalsPerRequest (ic_LogFilters cfg) in
    (\<forall>answer \<in> {handleLogs E cfg now r em, handleTraces E cfg now r em}.
      (rs_Status (fst answer) \<in> {400, 405, 413} \<longrightarrow> snd answer = em) \<and>
      (rq_Method r = ''POST'' \<and> limit < int (length (fst (rq_Body r))) \<longrightarrow> rs_Status (fst answer) = 413) \<and>
      (rq_Method r = ''POST'' \<and> is_gzip r \<and> limit < max_int64 \<and> snd (rq_Body r) = None \<and>
         limit < int (length (gunzipped E (fst (rq_Body r)))) \<longrightarrow> rs_Status (fst answer) = 413)) \<and>
    (\<forall>body. readLimited E r (ic_MaxRequestBytes cfg) = Inr body \<longrightarrow> int (length body) \<le> limit) \<and>
    (0 < cap \<longrightarrow> int (length (em_queue (snd (handleLogs E cfg now r em)))) \<le> int (length (em_queue em)) + cap)"
  using handleLogs_emits [of cfg E now r em] readLimited_length [of E r "ic_MaxRequestBytes cfg"]
    readLimited_oversized [of "ic_MaxRequestBytes cfg" r E] readLimited_gzip_bomb [of r "ic_MaxRequestBytes cfg" E]
  by (simp add: Let_def handleLogs_refused handleLogs_oversized handleTraces_refused handleTraces_oversized)

definition plain_env :: "(unit, unit) ingest_env" where
  "plain_env = \<lparr>ie_replace = (\<lambda>re s token. s), ie_compile = (\<lambda>s. Inr ()), ie_sha256 = id, ie_float = (\<lambda>_. ''0''),
     ie_range = (\<lambda>n m. []), ie_gunzip = (\<lambda>s. GzipStream (replicate 20000000 (CHR ''x'')) None), ie_media_type = Some,
     ie_decode_traces = (\<lambda>json s. Inr []), ie_decode_logs = (\<lambda>json s. Inr []), ie_empty_response = (\<lambda>json. Some [])\<rparr>"

definition error_record :: "unit otlp_record" where
  "error_record = \<lparr>ol_TimeUnixNano = 7, ol_SeverityNumber = 17, ol_SeverityText = [], ol_Body = Some (OString ''disk full''),
     ol_Attributes = [], ol_TraceId = [], ol_SpanId = []\<rparr>"

definition uncapped :: "unit ingest_config" where
  "uncapped = ingest_DefaultConfig\<lparr>ic_LogFilters := \<lparr>lf_MinSeverity = ''WARN'', lf_MaxSignalsPerRequest = 0\<rparr>\<rparr>"

theorem logs_translated_witness:
  "length (TranslateResourceLogs plain_env uncapped 5 [(None, [[error_record], [error_record]])]) = 1 \<and>
   DedupKey ` set (TranslateResourceLogs plain_env uncapped 5 [(None, [[error_record], [error_record]])]) =
     {DedupKey (log_event plain_env uncapped 5 (resourceAttrs plain_env None) error_record)}"
proof -
  have "severity_passes uncapped error_record"
    by (simp add: severity_passes_def uncapped_def error_record_def severityNumberForText_def) code_simp
  then have "candidates plain_env uncapped 5 [(None, [[error_record], [error_record]])] =
      [log_event plain_env uncapped 5 (resourceAttrs plain_env None) error_record,
       log_event plain_env uncapped 5 (resourceAttrs plain_env None) error_record]"
    by (simp add: candidates_def)
  moreover have "lf_MaxSignalsPerRequest (ic_LogFilters uncapped) = 0" by (simp add: uncapped_def)
  ultimately show ?thesis
    using logs_translated [of plain_env uncapped 5 "[(None, [[error_record], [error_record]])]"]
    by (simp add: log_capped_def Let_def)
qed

theorem ingest_bounded_witness:
  "rs_Status (fst (handleLogs plain_env ingest_DefaultConfig 5
     \<lparr>rq_Method = ''POST'', rq_ContentType = ''application/json'', rq_ContentEncoding = ''gzip'', rq_Body = (''z'', None)\<rparr>
     (NewChannelEventEmitter 3))) = 413"
proof -
  let ?r = "\<lparr>rq_Method = ''POST'', rq_ContentType = ''application/json'', rq_ContentEncoding = ''gzip'', rq_Body = (''z'', None)\<rparr>"
  have "is_gzip ?r" unfolding is_gzip_def by simp code_simp
  then show ?thesis
    using ingest_bounded [of "ingest_DefaultConfig :: unit ingest_config" plain_env 5 ?r "NewChannelEventEmitter 3"]
    by (simp add: ingest_DefaultConfig_def plain_env_def gunzipped_def body_limit_def max_int64_def Let_def)
qed

end
