(* ===== verification/Json.thy ===== *)
theory Json
  imports Prelude
begin

text \<open>
  The part of \<open>encoding/json\<close> the operator uses for writing: JSON values, and their compact text
  as \<open>json.Marshal\<close> produces it. A Go string is encoded byte by byte: valid UTF-8 is copied,
  an invalid byte becomes the replacement rune, control characters and the HTML characters are
  escaped. A struct is an object with its fields in order, a map an object with sorted keys, a
  nil slice the value null.
\<close>

datatype json = JNull | JBool bool | JInt int | JString string | JArray "json list"
  | JObject "(string \<times> json) list"

type_synonym 'a slice = "'a list option"

definition elems :: "'a slice \<Rightarrow> 'a list" where
  "elems s = (case s of None \<Rightarrow> [] | Some xs \<Rightarrow> xs)"

text \<open>A slice grown by \<open>append\<close> from nil.\<close>

definition appended :: "'a list \<Rightarrow> 'a slice" where
  "appended xs = (if xs = [] then None else Some xs)"

section \<open>Strings\<close>

definition is_cont :: "nat \<Rightarrow> nat \<Rightarrow> nat list \<Rightarrow> nat \<Rightarrow> bool" where
  "is_cont lo hi bs i \<longleftrightarrow> i < length bs \<and> lo \<le> bs ! i \<and> bs ! i \<le> hi"

text \<open>The size of the UTF-8 sequence at the start, or 0 when there is none.\<close>

definition utf8_size :: "nat list \<Rightarrow> nat" where
  "utf8_size bs = (case bs of [] \<Rightarrow> 0
   | b # _ \<Rightarrow>
       (let tail = is_cont 128 191 bs
        in if b < 128 then 1
           else if 194 \<le> b \<and> b \<le> 223 then (if tail 1 then 2 else 0)
           else if 224 \<le> b \<and> b \<le> 239 then
             (if is_cont (if b = 224 then 160 else 128) (if b = 237 then 159 else 191) bs 1 \<and> tail 2 then 3 else 0)
           else if 240 \<le> b \<and> b \<le> 244 then
             (if is_cont (if b = 240 then 144 else 128) (if b = 244 then 143 else 191) bs 1 \<and> tail 2 \<and> tail 3
              then 4 else 0)
           else 0))"

abbreviation backslash :: char where "backslash \<equiv> CHR 0x5C"
abbreviation quote_mark :: char where "quote_mark \<equiv> CHR 0x22"

definition json_ascii :: "char \<Rightarrow> string" where
  "json_ascii c =
     (let b = byte_of c
      in if b = 34 \<or> b = 92 then [backslash, c]
         else if b = 8 then [backslash, CHR ''b'']
         else if b = 12 then [backslash, CHR ''f'']
         else if b = 10 then [backslash, CHR ''n'']
         else if b = 13 then [backslash, CHR ''r'']
         else if b = 9 then [backslash, CHR ''t'']
         else if b < 32 \<or> b = 38 \<or> b = 60 \<or> b = 62
           then [backslash, CHR ''u'', CHR ''0'', CHR ''0'', hex_digit (b div 16), hex_digit (b mod 16)]
         else [c])"

fun json_bytes :: "string \<Rightarrow> string" where
  "json_bytes [] = []"
| "json_bytes (c # cs) =
     (let n = utf8_size (map of_char (c # cs))
      in if n = 0 then backslash # ''ufffd'' @ json_bytes cs
         else if n = 1 then json_ascii c @ json_bytes cs
         else let rune = c # take (n - 1) cs
              in (if rune = [CHR 0xE2, CHR 0x80, CHR 0xA8] then backslash # ''u2028''
                  else if rune = [CHR 0xE2, CHR 0x80, CHR 0xA9] then backslash # ''u2029''
                  else rune) @ json_bytes (drop (n - 1) cs))"

definition json_string :: "string \<Rightarrow> string" where
  "json_string s = quote_mark # json_bytes s @ [quote_mark]"

section \<open>Values\<close>

fun json_text :: "json \<Rightarrow> string" where
  "json_text JNull = ''null''"
| "json_text (JBool b) = (if b then ''true'' else ''false'')"
| "json_text (JInt n) = itoa n"
| "json_text (JString s) = json_string s"
| "json_text (JArray vs) = ''['' @ str_join '','' (map json_text vs) @ '']''"
| "json_text (JObject fs) =
     ''{'' @ str_join '','' (map (\<lambda>(k, v). json_string k @ '':'' @ json_text v) fs) @ ''}''"

definition json_slice :: "('a \<Rightarrow> json) \<Rightarrow> 'a slice \<Rightarrow> json" where
  "json_slice f s = (case s of None \<Rightarrow> JNull | Some xs \<Rightarrow> JArray (map f xs))"

text \<open>A string field with \<open>omitempty\<close>.\<close>

definition json_omit :: "string \<Rightarrow> string \<Rightarrow> (string \<times> json) list" where
  "json_omit k s = (if s = [] then [] else [(k, JString s)])"

lemma elems_simps [simp]: "elems None = []" "elems (Some xs) = xs" "elems (appended xs) = xs"
  by (simp_all add: elems_def appended_def)

end
