(* ===== verification/Notify.thy ===== *)
theory Notify
  imports Json Lifecycle Agent_Spec
begin

text \<open>
  The notification dispatcher of \<open>internal/notify/dispatcher.go\<close>: which agent's channels a report
  is announced on, the Slack and PagerDuty messages as the JSON texts posted, and the order and
  error behaviour of the requests. The API server reads, the HTTP transport, the validity of a
  URL and RFC 3339 formatting are the environment \<open>E\<close>. The last section joins the dispatcher to
  the lifecycle controller, which takes it as its notifier.
\<close>

datatype secret_error = SecretGet kerr | SecretMissing string string string

datatype notify_error = ListAgents kerr | LoadSecret string secret_error | BuildRequestFailed string
  | RequestFailed string | Returned string nat string

datatype post_answer = PostFailed | PostStatus nat string

record 'w notify_env =
  nv_list_agents :: "'w \<Rightarrow> kerr + rca_agent list"
  nv_get_secret :: "'w \<Rightarrow> string \<Rightarrow> string \<Rightarrow> kerr + (string \<rightharpoonup> string)"
  nv_post :: "'w \<Rightarrow> string \<Rightarrow> string \<Rightarrow> post_answer \<times> 'w"
  nv_valid_url :: "string \<Rightarrow> bool"
  nv_rfc3339 :: "gotime \<Rightarrow> string"

abbreviation pagerDutyEventsURL :: string where
  "pagerDutyEventsURL \<equiv> ''https://events.pagerduty.com/v2/enqueue''"

section \<open>Messages\<close>

definition notificationSummary :: "incident_report \<Rightarrow> string" where
  "notificationSummary r =
     (if st_Summary (ir_Status r) \<noteq> [] then st_Summary (ir_Status r)
      else if st_Timeline (ir_Status r) \<noteq> [] then tl_Event (last (st_Timeline (ir_Status r)))
      else sp_IncidentType (ir_Spec r) @ '' incident in '' @ report_ns r)"

definition notificationSource :: "'w notify_env \<Rightarrow> incident_report \<Rightarrow> string" where
  "notificationSource E r =
     (let self = report_ns r @ ''/'' @ report_name r;
          own = (case EffectiveStartTime (ir_Status r) of None \<Rightarrow> self | Some t \<Rightarrow> self @ ''@'' @ nv_rfc3339 E t)
      in case sc_ResourceRef (sp_Scope (ir_Spec r)) of
           None \<Rightarrow> own
         | Some ref \<Rightarrow>
             if or_Name ref = [] then own
             else if or_Namespace ref \<noteq> [] then or_Namespace ref @ ''/'' @ or_Name ref else or_Name ref)"

definition slackMessage :: "incident_report \<Rightarrow> slack_config \<Rightarrow> string \<Rightarrow> string" where
  "slackMessage r cfg action =
     (let state = (if action = ''resolve'' then ''RESOLVED'' else ''TRIGGERED'');
          mention = (if action \<noteq> ''resolve'' \<and> st_Severity (ir_Status r) = ''P1'' \<and> sl_MentionOnP1 cfg \<noteq> []
                     then sl_MentionOnP1 cfg @ '' '' else [])
      in mention @ ''['' @ st_Severity (ir_Status r) @ ''] '' @ state @ '' '' @ sp_IncidentType (ir_Spec r) @
         '' in '' @ report_ns r @ '' for '' @ sp_AgentRef (ir_Spec r) @ [CHR 0x0A] @ notificationSummary r)"

definition page_rank :: "string \<Rightarrow> nat" where
  "page_rank s = (if s = ''P1'' then 4 else if s = ''P2'' then 3 else if s = ''P3'' then 2 else if s = ''P4'' then 1 else 0)"

definition shouldPage :: "pagerduty_config \<Rightarrow> string \<Rightarrow> bool" where
  "shouldPage cfg severity \<longleftrightarrow>
     page_rank (if pd_Severity cfg = [] then ''P2'' else pd_Severity cfg) \<le> page_rank severity"

definition pagerDutyAction :: "string \<Rightarrow> string" where
  "pagerDutyAction action = (if action = ''resolve'' then ''resolve'' else ''trigger'')"

definition pagerDutySeverity :: "string \<Rightarrow> string" where
  "pagerDutySeverity s = (if s = ''P1'' then ''critical'' else if s = ''P2'' then ''error''
     else if s = ''P3'' then ''warning'' else ''info'')"

definition slack_body :: "incident_report \<Rightarrow> slack_config \<Rightarrow> string \<Rightarrow> string" where
  "slack_body r cfg action = json_text (JObject [(''text'', JString (slackMessage r cfg action))])"

text \<open>Maps are marshalled with sorted keys.\<close>

definition pagerduty_payload :: "'w notify_env \<Rightarrow> incident_report \<Rightarrow> json" where
  "pagerduty_payload E r = JObject
     [(''class'', JString (report_phase r)), (''component'', JString (sp_IncidentType (ir_Spec r))),
      (''group'', JString (report_ns r)), (''severity'', JString (pagerDutySeverity (st_Severity (ir_Status r)))),
      (''source'', JString (notificationSource E r)), (''summary'', JString (notificationSummary r))]"

definition pagerduty_body :: "'w notify_env \<Rightarrow> incident_report \<Rightarrow> string \<Rightarrow> string \<Rightarrow> string" where
  "pagerduty_body E r routingKey action = json_text (JObject
     ([(''dedup_key'', JString (sp_Fingerprint (ir_Spec r))), (''event_action'', JString (pagerDutyAction action))] @
      (if action \<noteq> ''resolve'' then [(''payload'', pagerduty_payload E r)] else []) @
      [(''routing_key'', JString routingKey)]))"

section \<open>Requests\<close>

definition secretValue :: "'w notify_env \<Rightarrow> 'w \<Rightarrow> string \<Rightarrow> string \<Rightarrow> string \<Rightarrow> secret_error + string" where
  "secretValue E w ns name key = (case nv_get_secret E w ns name of
     Inl err \<Rightarrow> Inl (SecretGet err)
   | Inr data \<Rightarrow> (case data key of
       None \<Rightarrow> Inl (SecretMissing ns name key)
     | Some v \<Rightarrow> if v = [] then Inl (SecretMissing ns name key) else Inr (trim_space v)))"

definition postJSON :: "'w notify_env \<Rightarrow> string \<Rightarrow> string \<Rightarrow> string \<Rightarrow> 'w \<Rightarrow> notify_error option \<times> 'w" where
  "postJSON E url body service w =
     (if \<not> nv_valid_url E url then (Some (BuildRequestFailed service), w)
      else case nv_post E w url body of
        (PostFailed, w) \<Rightarrow> (Some (RequestFailed service), w)
      | (PostStatus status answer, w) \<Rightarrow>
          (if 400 \<le> status then Some (Returned service status (trim_space (take 2048 answer))) else None, w))"

definition sendSlack ::
    "'w notify_env \<Rightarrow> rca_agent \<Rightarrow> incident_report \<Rightarrow> slack_config \<Rightarrow> string \<Rightarrow> 'w \<Rightarrow> notify_error option \<times> 'w" where
  "sendSlack E agent r cfg action w =
     (case secretValue E w (aa_Namespace agent) (sl_WebhookSecretRef cfg) ''webhookURL'' of
        Inl err \<Rightarrow> (Some (LoadSecret ''Slack'' err), w)
      | Inr url \<Rightarrow> postJSON E url (slack_body r cfg action) ''Slack'' w)"

definition sendPagerDuty ::
    "'w notify_env \<Rightarrow> rca_agent \<Rightarrow> incident_report \<Rightarrow> pagerduty_config \<Rightarrow> string \<Rightarrow> 'w \<Rightarrow> notify_error option \<times> 'w" where
  "sendPagerDuty E agent r cfg action w =
     (case secretValue E w (aa_Namespace agent) (pd_SecretRef cfg) ''apiKey'' of
        Inl err \<Rightarrow> (Some (LoadSecret ''PagerDuty'' err), w)
      | Inr key \<Rightarrow> postJSON E pagerDutyEventsURL (pagerduty_body E r key action) ''PagerDuty'' w)"

definition findAgent :: "'w notify_env \<Rightarrow> 'w \<Rightarrow> incident_report \<Rightarrow> notify_error + rca_agent option" where
  "findAgent E w r =
     (if sp_AgentRef (ir_Spec r) = [] then Inr None
      else case nv_list_agents E w of
        Inl err \<Rightarrow> Inl (ListAgents err)
      | Inr agents \<Rightarrow>
          (let candidates = filter (\<lambda>a. aa_Name a = sp_AgentRef (ir_Spec r)) agents
           in case candidates of
                [] \<Rightarrow> Inr None
              | [a] \<Rightarrow> Inr (Some a)
              | a # _ \<Rightarrow>
                  (case find (\<lambda>a. aa_Namespace a = report_ns r \<or> ag_WatchNamespaces (aa_Spec a) = [] \<or>
                                  report_ns r \<in> set (ag_WatchNamespaces (aa_Spec a))) candidates of
                     Some b \<Rightarrow> Inr (Some b) | None \<Rightarrow> Inr (Some a))))"

definition send_page ::
    "'w notify_env \<Rightarrow> rca_agent \<Rightarrow> incident_report \<Rightarrow> notifications_config \<Rightarrow> string \<Rightarrow> 'w \<Rightarrow> notify_error option \<times> 'w" where
  "send_page E agent r n action w = (case nc_PagerDuty n of
     None \<Rightarrow> (None, w)
   | Some cfg \<Rightarrow> if shouldPage cfg (st_Severity (ir_Status r)) then sendPagerDuty E agent r cfg action w else (None, w))"

definition NotifyIncident :: "'w notify_env \<Rightarrow> incident_report \<Rightarrow> string \<Rightarrow> 'w \<Rightarrow> notify_error option \<times> 'w" where
  "NotifyIncident E r action w = (case findAgent E w r of
     Inl err \<Rightarrow> (Some err, w)
   | Inr None \<Rightarrow> (None, w)
   | Inr (Some agent) \<Rightarrow>
       (case ag_Notifications (aa_Spec agent) of
          None \<Rightarrow> (None, w)
        | Some n \<Rightarrow>
            (case (case nc_Slack n of None \<Rightarrow> (None, w) | Some cfg \<Rightarrow> sendSlack E agent r cfg action w) of
               (Some err, w) \<Rightarrow> (Some err, w)
             | (None, w) \<Rightarrow> send_page E agent r n action w)))"

section \<open>What is announced\<close>

text \<open>The messages a report calls for, in order: service, where to (or why not), text.\<close>

type_synonym message = "string \<times> (secret_error + string) \<times> string"

definition slack_messages :: "'w notify_env \<Rightarrow> 'w \<Rightarrow> rca_agent \<Rightarrow> incident_report \<Rightarrow> notifications_config \<Rightarrow> string \<Rightarrow> message list" where
  "slack_messages E w agent r n action = (case nc_Slack n of None \<Rightarrow> []
   | Some cfg \<Rightarrow> [(''Slack'', secretValue E w (aa_Namespace agent) (sl_WebhookSecretRef cfg) ''webhookURL'', slack_body r cfg action)])"

definition page_messages :: "'w notify_env \<Rightarrow> 'w \<Rightarrow> rca_agent \<Rightarrow> incident_report \<Rightarrow> notifications_config \<Rightarrow> string \<Rightarrow> message list" where
  "page_messages E w agent r n action = (case nc_PagerDuty n of None \<Rightarrow> []
   | Some cfg \<Rightarrow>
       if \<not> shouldPage cfg (st_Severity (ir_Status r)) then []
       else (case secretValue E w (aa_Namespace agent) (pd_SecretRef cfg) ''apiKey'' of
               Inl err \<Rightarrow> [(''PagerDuty'', Inl err, [])]
             | Inr key \<Rightarrow> [(''PagerDuty'', Inr pagerDutyEventsURL, pagerduty_body E r key action)]))"

definition messages :: "'w notify_env \<Rightarrow> 'w \<Rightarrow> incident_report \<Rightarrow> string \<Rightarrow> message list" where
  "messages E w r action = (case findAgent E w r of
     Inr (Some agent) \<Rightarrow>
       (case ag_Notifications (aa_Spec agent) of None \<Rightarrow> []
        | Some n \<Rightarrow> slack_messages E w agent r n action @ page_messages E w agent r n action)
   | _ \<Rightarrow> [])"

fun post_each :: "'w notify_env \<Rightarrow> message list \<Rightarrow> 'w \<Rightarrow> notify_error option \<times> 'w" where
  "post_each E [] w = (None, w)"
| "post_each E ((service, Inl err, body) # ms) w = (Some (LoadSecret service err), w)"
| "post_each E ((service, Inr url, body) # ms) w =
     (case postJSON E url body service w of (Some err, w) \<Rightarrow> (Some err, w) | (None, w) \<Rightarrow> post_each E ms w)"

text \<open>The requests a list of messages amounts to: those with a destination that is a URL.\<close>

definition delivered :: "'w notify_env \<Rightarrow> message list \<Rightarrow> (string \<times> string) list" where
  "delivered E ms = List.map_filter (\<lambda>(service, dest, body). case dest of
     Inl _ \<Rightarrow> None | Inr url \<Rightarrow> if nv_valid_url E url then Some (url, body) else None) ms"

text \<open>What becomes of a message in a world, the world after a list of requests, and the first message of
  a list that fails when they are sent one after the other: all before it are answered with success.\<close>

definition message_error :: "'w notify_env \<Rightarrow> 'w \<Rightarrow> message \<Rightarrow> notify_error option" where
  "message_error E w m = (case m of
     (service, Inl err, body) \<Rightarrow> Some (LoadSecret service err)
   | (service, Inr url, body) \<Rightarrow>
       if \<not> nv_valid_url E url then Some (BuildRequestFailed service)
       else case fst (nv_post E w url body) of
         PostFailed \<Rightarrow> Some (RequestFailed service)
       | PostStatus status answer \<Rightarrow>
           if 400 \<le> status then Some (Returned service status (trim_space (take 2048 answer))) else None)"

definition after_requests :: "'w notify_env \<Rightarrow> (string \<times> string) list \<Rightarrow> 'w \<Rightarrow> 'w" where
  "after_requests E reqs w = fold (\<lambda>(url, body) w. snd (nv_post E w url body)) reqs w"

definition first_failure :: "'w notify_env \<Rightarrow> message list \<Rightarrow> 'w \<Rightarrow> nat \<Rightarrow> bool" where
  "first_failure E ms w k \<longleftrightarrow> k \<le> length ms
     \<and> (\<forall>i < k. message_error E (after_requests E (delivered E (take i ms)) w) (ms ! i) = None)
     \<and> (k < length ms \<longrightarrow> message_error E (after_requests E (delivered E (take k ms)) w) (ms ! k) \<noteq> None)"

lemma postJSON_message:
  "fst (postJSON E url body s w) = message_error E w (s, Inr url, body)"
  "snd (postJSON E url body s w) = after_requests E (delivered E [(s, Inr url, body)]) w"
  by (simp_all add: postJSON_def message_error_def delivered_def after_requests_def map_filter_simps split: prod.split post_answer.split)

lemma delivered_Cons: "delivered E (m # ms) = delivered E [m] @ delivered E ms"
  by (simp add: delivered_def map_filter_def)

lemma after_requests_append: "after_requests E (xs @ ys) w = after_requests E ys (after_requests E xs w)"
  by (simp add: after_requests_def)

lemma no_requests [simp]: "delivered E [] = []" "after_requests E [] w = w"
  by (simp_all add: delivered_def after_requests_def map_filter_simps)

lemma first_failure_Suc:
  assumes "first_failure E ms (after_requests E (delivered E [m]) w) k" "message_error E w m = None"
  shows "first_failure E (m # ms) w (Suc k)"
  using assms
  by (auto simp: first_failure_def less_Suc_eq_0_disj delivered_Cons [of _ m "take _ _"] after_requests_append)

lemma post_each_first_failure:
  "\<exists>k. first_failure E ms w k \<and> snd (post_each E ms w) = after_requests E (delivered E (take (Suc k) ms)) w \<and>
     fst (post_each E ms w) =
       (if k < length ms then message_error E (after_requests E (delivered E (take k ms)) w) (ms ! k) else None)"
proof (induction ms arbitrary: w)
  case (Cons m ms)
  obtain s dest body where m: "m = (s, dest, body)" by (cases m)
  note d = delivered_Cons [of E m "take _ ms"]
  show ?case
  proof (cases "message_error E w m")
    case None
    then obtain url where u: "dest = Inr url" by (cases dest) (auto simp: m message_error_def)
    obtain k where k: "first_failure E ms (after_requests E (delivered E [m]) w) k"
      "snd (post_each E ms (after_requests E (delivered E [m]) w)) =
         after_requests E (delivered E (take (Suc k) ms)) (after_requests E (delivered E [m]) w)"
      "fst (post_each E ms (after_requests E (delivered E [m]) w)) =
       (if k < length ms then message_error E (after_requests E (delivered E (take k ms)) (after_requests E (delivered E [m]) w)) (ms ! k) else None)"
      using Cons by blast
    have "post_each E (m # ms) w = post_each E ms (after_requests E (delivered E [m]) w)"
      using postJSON_message [of E url body s w] None by (cases "postJSON E url body s w") (simp add: m u)
    with k first_failure_Suc [OF k(1) None] show ?thesis
      by (intro exI [of _ "Suc k"]) (simp add: d after_requests_append)
  next
    case (Some err)
    have "first_failure E (m # ms) w 0" using Some by (simp add: first_failure_def)
    moreover have "post_each E (m # ms) w = (Some err, after_requests E (delivered E [m]) w)"
    proof (cases dest)
      case (Inl e)
      then show ?thesis using Some by (simp add: m message_error_def delivered_def after_requests_def map_filter_simps)
    next
      case (Inr url)
      then show ?thesis using postJSON_message [of E url body s w] Some by (cases "postJSON E url body s w") (simp add: m)
    qed
    ultimately show ?thesis using Some by (intro exI [of _ 0]) simp
  qed
qed (simp add: first_failure_def)

text \<open>The transport as the dispatcher relies on it: a post is the only thing that leaves a trace,
  and it changes neither agents nor secrets.\<close>

locale outbox =
  fixes E :: "'w notify_env" and posts :: "'w \<Rightarrow> (string \<times> string) list"
  assumes posted: "posts (snd (nv_post E w url body)) = posts w @ [(url, body)]"
    and agents_kept: "nv_list_agents E (snd (nv_post E w url body)) = nv_list_agents E w"
    and secrets_kept: "nv_get_secret E (snd (nv_post E w url body)) = nv_get_secret E w"
begin

lemma postJSON_world:
  "posts (snd (postJSON E url body s w)) = posts w @ (if nv_valid_url E url then [(url, body)] else [])"
  "nv_list_agents E (snd (postJSON E url body s w)) = nv_list_agents E w"
  "nv_get_secret E (snd (postJSON E url body s w)) = nv_get_secret E w"
  using posted [of w url body] agents_kept [of w url body] secrets_kept [of w url body]
  by (auto simp: postJSON_def split: prod.split post_answer.split)

lemma secretValue_kept: "secretValue E (snd (postJSON E url body s w)) = secretValue E w"
  by (simp add: fun_eq_iff secretValue_def postJSON_world)

lemma NotifyIncident_messages:
  "NotifyIncident E r action w =
     (case findAgent E w r of Inl err \<Rightarrow> (Some err, w) | Inr _ \<Rightarrow> post_each E (messages E w r action) w)"
proof -
  have page: "send_page E a r n action w' = post_each E (page_messages E w a r n action) w'"
    if "secretValue E w' = secretValue E w" for a n w'
    using that by (auto simp: send_page_def page_messages_def sendPagerDuty_def split: option.split sum.split prod.split)
  have "(case (case nc_Slack n of None \<Rightarrow> (None, w) | Some cfg \<Rightarrow> sendSlack E a r cfg action w) of
               (Some err, w) \<Rightarrow> (Some err, w) | (None, w) \<Rightarrow> send_page E a r n action w) =
      post_each E (slack_messages E w a r n action @ page_messages E w a r n action) w" for a n
  proof (cases "nc_Slack n")
    case (Some cfg)
    show ?thesis
    proof (cases "secretValue E w (aa_Namespace a) (sl_WebhookSecretRef cfg) ''webhookURL''")
      case (Inr url)
      then show ?thesis using Some page secretValue_kept [of url "slack_body r cfg action" "''Slack''" w]
        by (auto simp: sendSlack_def slack_messages_def split: prod.split option.split)
    qed (simp add: Some sendSlack_def slack_messages_def)
  qed (simp add: slack_messages_def page)
  then show ?thesis by (simp add: NotifyIncident_def messages_def split: sum.split option.split)
qed

lemma after_requests_posts: "posts (after_requests E reqs w) = posts w @ reqs"
  by (induction reqs arbitrary: w) (auto simp: after_requests_def posted)

end

section \<open>With the lifecycle controller\<close>

text \<open>The dispatcher as the notifier of the report controller: an error is passed on as such.\<close>

definition notifier_of :: "'w notify_env \<Rightarrow> incident_report \<Rightarrow> string \<Rightarrow> 'w \<Rightarrow> kerr option \<times> 'w" where
  "notifier_of E r action w = map_prod (map_option (\<lambda>_. KubeError ''notification failed'')) id (NotifyIncident E r action w)"

text \<open>A report whose page is due and cannot be sent, although its Slack message can: the report,
  the agent and its channels, and where the Slack message goes.\<close>

definition page_blocked :: "'w notify_env \<Rightarrow> 'w \<Rightarrow> incident_report \<Rightarrow> string \<Rightarrow> string \<Rightarrow> bool" where
  "page_blocked E w r url body \<longleftrightarrow>
     (\<exists>err. messages E w r ''trigger'' = [(''Slack'', Inr url, body), (''PagerDuty'', Inl err, [])]) \<and> nv_valid_url E url"

text \<open>The world after a reconciliation.\<close>

definition reconciled :: "'w rec_env \<Rightarrow> gotime \<Rightarrow> string \<times> string \<Rightarrow> 'w \<Rightarrow> 'w" where
  "reconciled C now key w = snd (snd (Reconcile C now key w))"

text \<open>The situation in which every reconciliation repeats itself.\<close>

definition announcing :: "'w notify_env \<Rightarrow> 'w rec_env \<Rightarrow> incident_report \<Rightarrow> string \<Rightarrow> string \<Rightarrow> 'w \<Rightarrow> bool" where
  "announcing E C r url body w \<longleftrightarrow> k_get_report (rv_client C) w (report_ns r) (report_name r) = Inr r \<and>
     report_phase r = ''Active'' \<and> \<not> st_Notified (ir_Status r) \<and> page_blocked E w r url body"

locale notifying = outbox E posts for E :: "'w notify_env" and posts :: "'w \<Rightarrow> (string \<times> string) list" +
  fixes C :: "'w rec_env"
  assumes reports_kept: "k_get_report (rv_client C) (snd (nv_post E w url body)) = k_get_report (rv_client C) w"
    and dispatcher: "rv_notifier C = Some (notifier_of E)"
    and no_graph: "rv_graph C = None"
begin

lemma messages_kept: "messages E (snd (nv_post E w url body)) r action = messages E w r action"
proof -
  have secret: "secretValue E (snd (nv_post E w url body)) = secretValue E w"
    by (simp add: fun_eq_iff secretValue_def secrets_kept)
  have agent: "findAgent E (snd (nv_post E w url body)) r = findAgent E w r" by (simp add: findAgent_def agents_kept)
  show ?thesis unfolding messages_def agent slack_messages_def page_messages_def secret by (rule refl)
qed

lemma announcing_step:
  assumes "announcing E C r url body w" "\<exists>status answer. fst (nv_post E w url body) = PostStatus status answer \<and> status < 400"
  shows "fst (snd (Reconcile C now (report_key r) w)) = Some (rec_fail ''notify open incident'' r (KubeError ''notification failed''))"
    and "reconciled C now (report_key r) w = snd (nv_post E w url body)"
proof -
  obtain err where ms: "messages E w r ''trigger'' = [(''Slack'', Inr url, body), (''PagerDuty'', Inl err, [])]"
    and url: "nv_valid_url E url" using assms(1) by (auto simp: announcing_def page_blocked_def)
  obtain status answer w' where p: "nv_post E w url body = (PostStatus status answer, w')" "status < 400"
    using assms(2) by (metis prod.collapse)
  have "\<not> isl (findAgent E w r)" using ms by (auto simp: messages_def split: sum.splits)
  then have "NotifyIncident E r ''trigger'' w = (Some (LoadSecret ''PagerDuty'' err), w')"
    using url p by (auto simp: NotifyIncident_messages ms postJSON_def split: sum.split)
  then have "sendOpenNotifications C r w = (Inl (rec_fail ''notify open incident'' r (KubeError ''notification failed'')), w')"
    by (simp add: sendOpenNotifications_def dispatcher notifier_of_def)
  then have "Reconcile C now (report_key r) w =
      (0, Some (rec_fail ''notify open incident'' r (KubeError ''notification failed'')), w')"
    using assms(1) by (simp add: announcing_def Reconcile_def reconcileActive_def with_graph_def ensureIncidentGraph_def
        buildIncidentGraph_def no_graph active_body_def)
  then show "fst (snd (Reconcile C now (report_key r) w)) = Some (rec_fail ''notify open incident'' r (KubeError ''notification failed''))"
    "reconciled C now (report_key r) w = snd (nv_post E w url body)" by (simp_all add: p reconciled_def)
qed

lemma announcing_kept: "announcing E C r url body w \<Longrightarrow> announcing E C r url body (snd (nv_post E w url body))"
  by (simp add: announcing_def page_blocked_def messages_kept reports_kept)

lemma announcing_repeats:
  assumes "announcing E C r url body w"
    and "\<And>w. \<exists>status answer. fst (nv_post E w url body) = PostStatus status answer \<and> status < 400"
  shows "posts ((reconciled C now (report_key r) ^^ n) w) = posts w @ replicate n (url, body) \<and>
    announcing E C r url body ((reconciled C now (report_key r) ^^ n) w)"
proof (induction n)
  case (Suc n)
  then show ?case using announcing_step(2) [OF _ assms(2)] announcing_kept
    by (simp add: posted replicate_append_same)
qed (simp add: assms(1))

end

section \<open>A transport in memory\<close>

text \<open>Posts are kept in the log of the in-memory cluster. One agent has both channels; the secret of
  the second is missing.\<close>

definition post_event :: "observation \<Rightarrow> (string \<times> string) option" where
  "post_event ob = (case ob of KubeEvent type reason action note \<Rightarrow>
     if type = ''POST'' then Some (reason, note) else None | _ \<Rightarrow> None)"

definition mem_posts :: "mem_world \<Rightarrow> (string \<times> string) list" where
  "mem_posts w = List.map_filter post_event (mw_log w)"

definition mem_notify :: "rca_agent list \<Rightarrow> (string \<Rightarrow> string \<Rightarrow> kerr + (string \<rightharpoonup> string)) \<Rightarrow> mem_world notify_env" where
  "mem_notify agents secrets = \<lparr>nv_list_agents = (\<lambda>w. Inr agents), nv_get_secret = (\<lambda>w. secrets),
     nv_post = (\<lambda>w url body. (PostStatus 200 ''ok'', w\<lparr>mw_log := mw_log w @ [KubeEvent ''POST'' url ''post'' body]\<rparr>)),
     nv_valid_url = (\<lambda>url. url \<noteq> []), nv_rfc3339 = itoa\<rparr>"

definition mem_dispatch :: "mem_world notify_env \<Rightarrow> mem_world rec_env" where
  "mem_dispatch E = mem_rec\<lparr>rv_notifier := Some (notifier_of E)\<rparr>"

interpretation mem_mail: outbox "mem_notify agents secrets" mem_posts for agents secrets
  by unfold_locales (simp_all add: mem_notify_def mem_posts_def map_filter_def post_event_def)

interpretation mem_mail: notifying "mem_notify agents secrets" mem_posts "mem_dispatch (mem_notify agents secrets)"
  for agents secrets
  by unfold_locales (simp_all add: mem_notify_def mem_dispatch_def mem_rec_def mem_client_sel fun_eq_iff)

definition pager_agent :: rca_agent where
  "pager_agent = \<lparr>aa_Name = ''agent'', aa_Namespace = ''rca'', aa_Deleting = False, aa_Finalizers = [],
     aa_Generation = 1,
     aa_Spec = \<lparr>ag_WatchNamespaces = [''shop''],
       ag_Notifications = Some \<lparr>nc_Slack = Some \<lparr>sl_WebhookSecretRef = ''slack'', sl_Channel = ''ops'', sl_MentionOnP1 = []\<rparr>,
                                nc_PagerDuty = Some \<lparr>pd_SecretRef = ''pager'', pd_Severity = []\<rparr>\<rparr>,
       ag_IncidentRetention = ''5m'', ag_IncidentRetentionDays = 0, ag_OTel = None\<rparr>,
     aa_Conditions = []\<rparr>"

definition one_secret :: "string \<Rightarrow> string \<Rightarrow> kerr + (string \<rightharpoonup> string)" where
  "one_secret ns name = (if name = ''slack'' then Inr [''webhookURL'' \<mapsto> ''https://hooks''] else Inl NotFound)"

definition active_report :: incident_report where
  "active_report = (let r = new_report mem_env sample_input ''f'' ''h'' in
     r\<lparr>ir_Meta := (ir_Meta r)\<lparr>om_Name := ''crash''\<rparr>, ir_Status := (new_status sample_input)\<lparr>st_Phase := ''Active''\<rparr>\<rparr>)"

definition active_world :: mem_world where
  "active_world = (rp_world mem_empty)\<lparr>mw_reports := [active_report]\<rparr>"

abbreviation pager_env :: "mem_world notify_env" where
  "pager_env \<equiv> mem_notify [pager_agent] one_secret"

abbreviation active_slack :: string where
  "active_slack \<equiv> slack_body active_report \<lparr>sl_WebhookSecretRef = ''slack'', sl_Channel = ''ops'', sl_MentionOnP1 = []\<rparr> ''trigger''"

lemma active_messages:
  "messages pager_env w active_report ''trigger'' =
     [(''Slack'', Inr ''https://hooks'', active_slack), (''PagerDuty'', Inl (SecretGet NotFound), [])]"
proof -
  have r: "sp_AgentRef (ir_Spec active_report) = ''agent''" "st_Severity (ir_Status active_report) = ''P2''"
    by (simp_all add: active_report_def new_report_def new_status_def sample_input_def Let_def)
  have "trim_space ''https://hooks'' = ''https://hooks''" by code_simp
  then have s: "secretValue pager_env w ns ''slack'' ''webhookURL'' = Inr ''https://hooks''"
      "secretValue pager_env w ns ''pager'' key = Inl (SecretGet NotFound)" for ns key
    by (simp_all add: secretValue_def mem_notify_def one_secret_def)
  have agent: "aa_Name pager_agent = ''agent''" "aa_Namespace pager_agent = ''rca''"
    "ag_Notifications (aa_Spec pager_agent) =
       Some \<lparr>nc_Slack = Some \<lparr>sl_WebhookSecretRef = ''slack'', sl_Channel = ''ops'', sl_MentionOnP1 = []\<rparr>,
             nc_PagerDuty = Some \<lparr>pd_SecretRef = ''pager'', pd_Severity = []\<rparr>\<rparr>"
    by (simp_all add: pager_agent_def)
  then have "findAgent pager_env w active_report = Inr (Some pager_agent)"
    by (simp add: findAgent_def mem_notify_def r)
  then show ?thesis by (simp add: messages_def agent slack_messages_def page_messages_def s shouldPage_def r)
qed

lemma active_announcing:
  "announcing pager_env (mem_dispatch pager_env) active_report ''https://hooks'' active_slack active_world"
proof -
  have "report_phase active_report = ''Active''" "\<not> st_Notified (ir_Status active_report)"
    by (simp_all add: active_report_def new_report_def new_status_def sample_input_def Let_def)
  then show ?thesis
    by (simp add: announcing_def page_blocked_def active_messages mem_dispatch_def mem_rec_def mem_client_sel active_world_def
        lookup_report_def or_not_found_def) (simp add: mem_notify_def)
qed

section \<open>Properties\<close>

text \<open>C15.
  For every transport whose only trace is the list of requests made, and whose requests change neither
  the agents nor the secrets: when the agents cannot be listed the dispatcher sends nothing and answers
  with that error; otherwise it works through the messages the channels of the agent call for, in order
  and addressed as the secrets say, up to and including the first that fails, whose secret is missing,
  whose URL is invalid, whose request fails or is answered with a status of 400 or more. The requests
  made are exactly those, and the answer is the error of that message, or none when all succeeded.
\<close>

theorem notify_posts:
  assumes "outbox E posts"
  shows "case findAgent E w r of
      Inl err \<Rightarrow> NotifyIncident E r action w = (Some err, w)
    | Inr _ \<Rightarrow> (\<exists>k. first_failure E (messages E w r action) w k
        \<and> posts (snd (NotifyIncident E r action w)) = posts w @ delivered E (take (Suc k) (messages E w r action))
        \<and> fst (NotifyIncident E r action w) = (if k < length (messages E w r action)
             then message_error E (after_requests E (delivered E (take k (messages E w r action))) w) (messages E w r action ! k)
             else None))"
  using post_each_first_failure [of E "messages E w r action" w] outbox.NotifyIncident_messages [OF assms, of r action w]
    outbox.after_requests_posts [OF assms] by (auto split: sum.split)

theorem notify_posts_witness:
  "\<exists>k. first_failure pager_env (messages pager_env active_world active_report ''trigger'') active_world k \<and>
     mem_posts (snd (NotifyIncident pager_env active_report ''trigger'' active_world)) =
     mem_posts active_world @ delivered pager_env (take (Suc k) (messages pager_env active_world active_report ''trigger''))"
proof -
  have "\<not> isl (findAgent pager_env active_world active_report)"
    using active_messages [of active_world] by (auto simp: messages_def split: sum.splits)
  with notify_posts [where E = pager_env and posts = mem_posts and w = active_world and r = active_report and action = "''trigger''", OF mem_mail.outbox_axioms]
  show ?thesis by (auto split: sum.splits)
qed

text \<open>
  With the dispatcher as the controller's notifier, an active report that is not yet marked as
  announced, whose page is due and whose PagerDuty secret cannot be loaded, is announced on Slack
  again by every reconciliation: each one posts the Slack message, fails, and leaves the report as
  it was. So \<open>n\<close> reconciliations post the same message \<open>n\<close> times.
\<close>

theorem slack_repeats:
  assumes "notifying E posts C" "announcing E C r url body w"
    and "\<And>w. \<exists>status answer. fst (nv_post E w url body) = PostStatus status answer \<and> status < 400"
  shows "posts ((reconciled C now (report_key r) ^^ n) w) = posts w @ replicate n (url, body) \<and>
    announcing E C r url body ((reconciled C now (report_key r) ^^ n) w)"
  by (rule notifying.announcing_repeats [OF assms])

theorem slack_repeats_witness:
  "mem_posts ((reconciled (mem_dispatch pager_env) 6000000000 (report_key active_report) ^^ 3) active_world) =
     replicate 3 (''https://hooks'', active_slack)"
proof -
  have "mem_posts active_world = []" by (simp add: mem_posts_def active_world_def mem_empty_def map_filter_simps)
  moreover have "\<exists>status answer. fst (nv_post pager_env w url body) = PostStatus status answer \<and> status < 400" for w url body
    by (simp add: mem_notify_def)
  ultimately show ?thesis
    using slack_repeats [OF mem_mail.notifying_axioms active_announcing, of 3 6000000000] by simp
qed

end
