(* ===== verification/Json_Cache.thy ===== *)
theory Json_Cache
  imports Prelude
begin

text \<open>
  The response cache of the dashboard (\<open>internal/dashboard/cache.go\<close>), as a machine of atomic
  steps: the sections between lock and unlock, the end of a build, the closing of a call and the
  waking of those who wait for it. Requests run concurrently; a run is any sequence of steps.
  \<open>cs_log\<close> is a ghost history of the builds, read by the properties only. SHA-256 is a parameter.
\<close>

text \<open>A build answers with an error or a body; a request with an error or the body and its ETag.\<close>

type_synonym answer = "string + string \<times> string"

record cache_entry =
  ce_body :: string
  ce_etag :: string
  ce_at :: gotime

text \<open>The call a request leads: under construction, published (the lock released, the call not yet
  closed), or ended by a panic in the build.\<close>

datatype lead_phase = Building | Published | Panicked

datatype caller = Idle | Leading lead_phase string nat | Waiting string nat | Answered string answer

record cache_state =
  cs_entries :: "string \<rightharpoonup> cache_entry"
  cs_inflight :: "string \<rightharpoonup> nat"
  cs_ttl :: duration
  cs_result :: "nat \<rightharpoonup> answer"
  cs_closed :: "nat \<Rightarrow> bool"
  cs_next :: nat
  cs_callers :: "nat \<Rightarrow> caller"
  cs_now :: gotime
  cs_log :: "(string \<times> answer) list"

definition newJSONCache :: "duration \<Rightarrow> gotime \<Rightarrow> cache_state" where
  "newJSONCache ttl now = \<lparr>cs_entries = Map.empty, cs_inflight = Map.empty, cs_ttl = ttl, cs_result = Map.empty,
     cs_closed = (\<lambda>_. False), cs_next = 0, cs_callers = (\<lambda>_. Idle), cs_now = now, cs_log = []\<rparr>"

definition etag_of :: "(string \<Rightarrow> string) \<Rightarrow> string \<Rightarrow> string" where
  "etag_of sha256 body = [CHR 0x22] @ hex_string (take 16 (sha256 body)) @ [CHR 0x22]"

text \<open>The result of a build, marshalling included: without a cache it is answered as it is.\<close>

definition built :: "(string \<Rightarrow> string) \<Rightarrow> string + string \<Rightarrow> answer" where
  "built sha256 outcome = (case outcome of Inl err \<Rightarrow> Inl err | Inr body \<Rightarrow> Inr (body, etag_of sha256 body))"

section \<open>Steps\<close>

datatype cache_action =
    Tick duration
  | FetchWithTTL nat string duration
  | BuildReturns nat "string + string"
  | BuildPanics nat
  | CloseCall nat
  | Wake nat
  | Return nat
  | Invalidate string

definition set_caller :: "nat \<Rightarrow> caller \<Rightarrow> cache_state \<Rightarrow> cache_state" where
  "set_caller t c st = st\<lparr>cs_callers := (cs_callers st)(t := c)\<rparr>"

definition fresh_entry :: "cache_state \<Rightarrow> string \<Rightarrow> duration \<Rightarrow> cache_entry option" where
  "fresh_entry st key ttl = (case cs_entries st key of None \<Rightarrow> None
     | Some e \<Rightarrow> if time_sub (cs_now st) (ce_at e) < ttl then Some e else None)"

text \<open>The first locked section of \<open>FetchWithTTL\<close>.\<close>

definition fetch :: "nat \<Rightarrow> string \<Rightarrow> duration \<Rightarrow> cache_state \<Rightarrow> cache_state" where
  "fetch t key ttl st =
     (let ttl = (if ttl \<le> 0 then cs_ttl st else ttl)
      in case fresh_entry st key ttl of
           Some e \<Rightarrow> set_caller t (Answered key (Inr (ce_body e, ce_etag e))) st
         | None \<Rightarrow>
             (case cs_inflight st key of
                Some c \<Rightarrow> set_caller t (Waiting key c) st
              | None \<Rightarrow> set_caller t (Leading Building key (cs_next st))
                  (st\<lparr>cs_inflight := (cs_inflight st)(key \<mapsto> cs_next st), cs_next := Suc (cs_next st)\<rparr>)))"

text \<open>The build has returned: its result is in the call, and the second locked section runs.\<close>

definition publish :: "nat \<Rightarrow> string \<Rightarrow> nat \<Rightarrow> answer \<Rightarrow> cache_state \<Rightarrow> cache_state" where
  "publish t key c r st = set_caller t (Leading Published key c)
     (st\<lparr>cs_result := (cs_result st)(c \<mapsto> r), cs_log := cs_log st @ [(key, r)],
         cs_inflight := (cs_inflight st)(key := None),
         cs_entries := (case r of Inl _ \<Rightarrow> cs_entries st
           | Inr (body, etag) \<Rightarrow> (cs_entries st)(key \<mapsto> \<lparr>ce_body = body, ce_etag = etag, ce_at = cs_now st\<rparr>))\<rparr>)"

definition cache_step :: "(string \<Rightarrow> string) \<Rightarrow> cache_action \<Rightarrow> cache_state \<Rightarrow> cache_state option" where
  "cache_step sha256 a st = (case a of
     Tick d \<Rightarrow> if 0 \<le> d then Some (st\<lparr>cs_now := cs_now st + d\<rparr>) else None
   | FetchWithTTL t key ttl \<Rightarrow> (case cs_callers st t of Idle \<Rightarrow> Some (fetch t key ttl st) | _ \<Rightarrow> None)
   | BuildReturns t outcome \<Rightarrow> (case cs_callers st t of
       Leading Building key c \<Rightarrow> Some (publish t key c (built sha256 outcome) st) | _ \<Rightarrow> None)
   | BuildPanics t \<Rightarrow> (case cs_callers st t of
       Leading Building key c \<Rightarrow> Some (set_caller t (Leading Panicked key c) st) | _ \<Rightarrow> None)
   | CloseCall t \<Rightarrow> (case cs_callers st t of
       Leading Published key c \<Rightarrow> (case cs_result st c of None \<Rightarrow> None
         | Some r \<Rightarrow> Some (set_caller t (Answered key r) (st\<lparr>cs_closed := (cs_closed st)(c := True)\<rparr>))) | _ \<Rightarrow> None)
   | Wake t \<Rightarrow> (case cs_callers st t of
       Waiting key c \<Rightarrow> if cs_closed st c then (case cs_result st c of None \<Rightarrow> None
         | Some r \<Rightarrow> Some (set_caller t (Answered key r) st)) else None | _ \<Rightarrow> None)
   | Return t \<Rightarrow> (case cs_callers st t of Answered key r \<Rightarrow> Some (set_caller t Idle st) | _ \<Rightarrow> None)
   | Invalidate key \<Rightarrow> Some (st\<lparr>cs_entries := (cs_entries st)(key := None)\<rparr>))"

fun cache_run :: "(string \<Rightarrow> string) \<Rightarrow> cache_action list \<Rightarrow> cache_state \<Rightarrow> cache_state option" where
  "cache_run sha256 [] st = Some st"
| "cache_run sha256 (a # as) st = (case cache_step sha256 a st of None \<Rightarrow> None | Some st \<Rightarrow> cache_run sha256 as st)"

inductive cache_reach :: "(string \<Rightarrow> string) \<Rightarrow> duration \<Rightarrow> cache_state \<Rightarrow> bool" for sha256 ttl where
  init: "cache_reach sha256 ttl (newJSONCache ttl now)"
| step: "cache_reach sha256 ttl st \<Longrightarrow> cache_step sha256 a st = Some st' \<Longrightarrow> cache_reach sha256 ttl st'"

section \<open>The invariant\<close>

text \<open>An answer for a key is one a build for that key has given.\<close>

abbreviation logged :: "cache_state \<Rightarrow> string \<Rightarrow> answer \<Rightarrow> bool" where
  "logged st key r \<equiv> (key, r) \<in> set (cs_log st)"

definition lead_ok :: "cache_state \<Rightarrow> lead_phase \<Rightarrow> string \<Rightarrow> nat \<Rightarrow> bool" where
  "lead_ok st p key c \<longleftrightarrow> c < cs_next st \<and> \<not> cs_closed st c \<and>
     (if p = Published then (\<exists>r. cs_result st c = Some r \<and> logged st key r)
      else cs_inflight st key = Some c \<and> cs_result st c = None)"

definition wait_ok :: "cache_state \<Rightarrow> string \<Rightarrow> nat \<Rightarrow> bool" where
  "wait_ok st key c \<longleftrightarrow> c < cs_next st \<and>
     ((\<exists>t p. cs_callers st t = Leading p key c) \<or> cs_closed st c \<and> (\<exists>r. cs_result st c = Some r \<and> logged st key r))"

definition caller_ok :: "cache_state \<Rightarrow> caller \<Rightarrow> bool" where
  "caller_ok st x = (case x of Idle \<Rightarrow> True | Leading p key c \<Rightarrow> lead_ok st p key c
     | Waiting key c \<Rightarrow> wait_ok st key c | Answered key r \<Rightarrow> logged st key r)"

definition one_leader :: "cache_state \<Rightarrow> bool" where
  "one_leader st \<longleftrightarrow> (\<forall>t u p q k l c. cs_callers st t = Leading p k c \<longrightarrow> cs_callers st u = Leading q l c \<longrightarrow> t = u)"

definition inflight_ok :: "cache_state \<Rightarrow> bool" where
  "inflight_ok st \<longleftrightarrow> (\<forall>key c. cs_inflight st key = Some c \<longrightarrow>
     (\<exists>t p. cs_callers st t = Leading p key c \<and> p \<noteq> Published))"

definition entries_ok :: "cache_state \<Rightarrow> bool" where
  "entries_ok st \<longleftrightarrow> (\<forall>key e. cs_entries st key = Some e \<longrightarrow> logged st key (Inr (ce_body e, ce_etag e)) \<and> ce_at e \<le> cs_now st)"

definition calls_ok :: "cache_state \<Rightarrow> bool" where
  "calls_ok st \<longleftrightarrow> (\<forall>c. (cs_closed st c \<or> cs_result st c \<noteq> None) \<longrightarrow> c < cs_next st)"

definition cache_ok :: "cache_state \<Rightarrow> bool" where
  "cache_ok st \<longleftrightarrow> (\<forall>t. caller_ok st (cs_callers st t)) \<and> one_leader st \<and> inflight_ok st \<and> entries_ok st \<and> calls_ok st"

lemmas cache_ok_defs = cache_ok_def caller_ok_def lead_ok_def wait_ok_def one_leader_def inflight_ok_def entries_ok_def calls_ok_def

lemma new_ok: "cache_ok (newJSONCache ttl now)"
  by (simp add: cache_ok_defs newJSONCache_def)

lemma set_caller_simps [simp]:
  "cs_callers (set_caller t x st) = (cs_callers st)(t := x)" "cs_entries (set_caller t x st) = cs_entries st"
  "cs_inflight (set_caller t x st) = cs_inflight st" "cs_result (set_caller t x st) = cs_result st"
  "cs_closed (set_caller t x st) = cs_closed st" "cs_next (set_caller t x st) = cs_next st"
  "cs_now (set_caller t x st) = cs_now st" "cs_log (set_caller t x st) = cs_log st" "cs_ttl (set_caller t x st) = cs_ttl st"
  by (simp_all add: set_caller_def)

text \<open>A caller that leads nothing may change into one that leads nothing and is in order.\<close>

lemma set_caller_ok:
  assumes "cache_ok st" "caller_ok st x" "\<And>p k c. cs_callers st t \<noteq> Leading p k c" "\<And>p k c. x \<noteq> Leading p k c"
  shows "cache_ok (set_caller t x st)"
proof -
  have lead: "((cs_callers st)(t := x)) u = Leading p k c \<longleftrightarrow> cs_callers st u = Leading p k c" for u p k c
    using assms(3,4) by auto
  have "caller_ok (set_caller t x st) y = caller_ok st y" for y
    by (cases y) (simp_all only: caller_ok_def caller.case lead_ok_def wait_ok_def lead set_caller_simps)
  then show ?thesis using assms(1,2) unfolding cache_ok_def one_leader_def inflight_ok_def set_caller_simps lead
    by (auto simp: entries_ok_def calls_ok_def)
qed

lemma cache_okD:
  assumes "cache_ok st"
  shows "cs_callers st t = Leading p k c \<Longrightarrow> lead_ok st p k c" "cs_callers st t = Waiting k c \<Longrightarrow> wait_ok st k c"
    "cs_callers st t = Answered k r \<Longrightarrow> logged st k r"
    "cs_callers st t = Leading p k c \<Longrightarrow> cs_callers st u = Leading q l c \<Longrightarrow> t = u"
    "cs_inflight st k = Some c \<Longrightarrow> \<exists>t p. cs_callers st t = Leading p k c \<and> p \<noteq> Published"
    "cs_entries st k = Some e \<Longrightarrow> logged st k (Inr (ce_body e, ce_etag e)) \<and> ce_at e \<le> cs_now st"
    "cs_closed st c \<or> cs_result st c \<noteq> None \<Longrightarrow> c < cs_next st"
proof -
  have callers: "\<And>t. caller_ok st (cs_callers st t)" using assms by (simp add: cache_ok_def)
  show "cs_callers st t = Leading p k c \<Longrightarrow> lead_ok st p k c" "cs_callers st t = Waiting k c \<Longrightarrow> wait_ok st k c"
    "cs_callers st t = Answered k r \<Longrightarrow> logged st k r"
    using callers [of t] by (simp_all add: caller_ok_def)
  show "cs_callers st t = Leading p k c \<Longrightarrow> cs_callers st u = Leading q l c \<Longrightarrow> t = u"
    using assms unfolding cache_ok_def one_leader_def by blast
  show "cs_inflight st k = Some c \<Longrightarrow> \<exists>t p. cs_callers st t = Leading p k c \<and> p \<noteq> Published"
    using assms unfolding cache_ok_def inflight_ok_def by blast
  show "cs_entries st k = Some e \<Longrightarrow> logged st k (Inr (ce_body e, ce_etag e)) \<and> ce_at e \<le> cs_now st"
    using assms unfolding cache_ok_def entries_ok_def by blast
  show "cs_closed st c \<or> cs_result st c \<noteq> None \<Longrightarrow> c < cs_next st"
    using assms unfolding cache_ok_def calls_ok_def by blast
qed

lemma cache_okI:
  assumes "\<And>t p k c. cs_callers st t = Leading p k c \<Longrightarrow> lead_ok st p k c"
    and "\<And>t k c. cs_callers st t = Waiting k c \<Longrightarrow> wait_ok st k c"
    and "\<And>t k r. cs_callers st t = Answered k r \<Longrightarrow> logged st k r"
    and "\<And>t u p q k l c. cs_callers st t = Leading p k c \<Longrightarrow> cs_callers st u = Leading q l c \<Longrightarrow> t = u"
    and "\<And>k c. cs_inflight st k = Some c \<Longrightarrow> \<exists>t p. cs_callers st t = Leading p k c \<and> p \<noteq> Published"
    and "\<And>k e. cs_entries st k = Some e \<Longrightarrow> logged st k (Inr (ce_body e, ce_etag e)) \<and> ce_at e \<le> cs_now st"
    and "\<And>c. cs_closed st c \<or> cs_result st c \<noteq> None \<Longrightarrow> c < cs_next st"
  shows "cache_ok st"
proof -
  have "caller_ok st (cs_callers st t)" for t
    using assms(1-3) [of t] by (auto simp: caller_ok_def split: caller.split)
  then show ?thesis using assms(4-7) unfolding cache_ok_def one_leader_def inflight_ok_def entries_ok_def calls_ok_def by blast
qed

lemma wait_ok_mono:
  assumes "wait_ok st k c" "cs_next st \<le> cs_next st'" "set (cs_log st) \<subseteq> set (cs_log st')"
    and "\<And>t p. cs_callers st t = Leading p k c \<Longrightarrow> \<exists>q. cs_callers st' t = Leading q k c"
    and "cs_closed st c \<Longrightarrow> cs_closed st' c \<and> cs_result st' c = cs_result st c"
  shows "wait_ok st' k c"
proof -
  have "c < cs_next st'" using assms(1,2) by (simp add: wait_ok_def)
  moreover consider t p where "cs_callers st t = Leading p k c" | r where "cs_closed st c" "cs_result st c = Some r" "logged st k r"
    using assms(1) by (auto simp: wait_ok_def)
  then have "(\<exists>t p. cs_callers st' t = Leading p k c) \<or> cs_closed st' c \<and> (\<exists>r. cs_result st' c = Some r \<and> logged st' k r)"
  proof cases
    case 1
    then show ?thesis using assms(4) by blast
  next
    case 2
    then show ?thesis using assms(3,5) by auto
  qed
  ultimately show ?thesis by (simp add: wait_ok_def)
qed

lemma fetch_ok:
  assumes "cache_ok st" "cs_callers st t = Idle"
  shows "cache_ok (fetch t key ttl st)"
proof -
  note D = cache_okD [OF assms(1)]
  consider (hit) e where "fetch t key ttl st = set_caller t (Answered key (Inr (ce_body e, ce_etag e))) st" "cs_entries st key = Some e"
    | (join) c where "fetch t key ttl st = set_caller t (Waiting key c) st" "cs_inflight st key = Some c"
    | (lead) "fetch t key ttl st = set_caller t (Leading Building key (cs_next st))
        (st\<lparr>cs_inflight := (cs_inflight st)(key \<mapsto> cs_next st), cs_next := Suc (cs_next st)\<rparr>)" "cs_inflight st key = None"
    by (force simp: fetch_def Let_def fresh_entry_def split: option.splits if_splits)
  then show ?thesis
  proof cases
    case hit
    then show ?thesis using assms D(6) by (auto intro!: set_caller_ok simp: caller_ok_def)
  next
    case join
    then have "caller_ok st (Waiting key c)" using D(5,1) by (fastforce simp: caller_ok_def wait_ok_def lead_ok_def)
    then show ?thesis using assms join by (auto intro!: set_caller_ok)
  next
    case lead
    let ?st = "st\<lparr>cs_inflight := (cs_inflight st)(key \<mapsto> cs_next st), cs_next := Suc (cs_next st)\<rparr>"
    have new: "cs_callers st u \<noteq> Leading p k (cs_next st)" "\<not> cs_closed st (cs_next st)" "cs_result st (cs_next st) = None" for u p k
      using D(1) [of u p k "cs_next st"] D(7) [of "cs_next st"] by (auto simp: lead_ok_def simp del: not_None_eq)
    have old: "lead_ok ?st p k c" if "lead_ok st p k c" for p k c
      using that lead(2) by (auto simp: lead_ok_def split: if_splits)
    show ?thesis unfolding lead
    proof (rule cache_okI, goal_cases)
      case (1 u p k c)
      then show ?case using D(1) old new by (fastforce simp: lead_ok_def split: if_splits)
    next
      case (2 u k c)
      then have "wait_ok st k c" using D(2) by (auto split: if_splits)
      then show ?case by (rule wait_ok_mono) (use assms(2) in auto)
    next
      case (5 k c)
      show ?case
      proof (cases "k = key")
        case False
        then have "cs_inflight st k = Some c" using 5 by simp
        then obtain u p where "cs_callers st u = Leading p k c" "p \<noteq> Published" using D(5) by blast
        then show ?thesis using assms(2) by (intro exI [of _ u]) auto
      qed (use 5 in auto)
    next
      case (3 u k r)
      then show ?case using D(3) [of u k r] by (auto split: if_splits)
    next
      case (4 u v p q k l c)
      then show ?case using D(4) [of u p k c v q l] new by (auto split: if_splits)
    next
      case (6 k e)
      then show ?case using D(6) [of k e] by auto
    next
      case (7 c)
      then show ?case using D(7) [of c] by auto
    qed
  qed
qed

lemma publish_ok:
  assumes "cache_ok st" "cs_callers st t = Leading Building key c"
  shows "cache_ok (publish t key c r st)"
proof -
  note D = cache_okD [OF assms(1)]
  have lead: "lead_ok st Building key c" using D(1) assms(2) .
  have mine: "u = t \<and> p = Building \<and> k = key" if "cs_callers st u = Leading p k c" for u p k
    using D(4) [OF that assms(2)] that assms(2) by auto
  have sim: "cs_closed (publish t key c r st) = cs_closed st" "cs_next (publish t key c r st) = cs_next st"
    "cs_now (publish t key c r st) = cs_now st" "cs_log (publish t key c r st) = cs_log st @ [(key, r)]"
    "cs_result (publish t key c r st) = (cs_result st)(c \<mapsto> r)"
    "cs_inflight (publish t key c r st) = (cs_inflight st)(key := None)"
    "cs_callers (publish t key c r st) = (cs_callers st)(t := Leading Published key c)"
    by (simp_all add: publish_def)
  show ?thesis
  proof (rule cache_okI, goal_cases)
    case (1 u p k d)
    show ?case
    proof (cases "u = t")
      case True
      then have "p = Published" "k = key" "d = c" using 1 by (simp_all add: sim)
      then show ?thesis using lead by (simp add: sim lead_ok_def)
    next
      case False
      then have u: "cs_callers st u = Leading p k d" "d \<noteq> c" using 1 mine by (auto simp: sim)
      then have "p \<noteq> Published \<Longrightarrow> k \<noteq> key" using D(1) [OF u(1)] lead by (auto simp: lead_ok_def)
      then show ?thesis using D(1) [OF u(1)] u(2) by (auto simp: lead_ok_def sim)
    qed
  next
    case (2 u k d)
    then have "wait_ok st k d" using D(2) by (auto simp: sim split: if_splits)
    then show ?case
    proof (rule wait_ok_mono, goal_cases)
      case (3 v p)
      show ?case
      proof (cases "v = t")
        case True
        then have "k = key" "d = c" using 3 assms(2) by simp_all
        then show ?thesis using True by (simp add: sim)
      qed (use 3 in \<open>simp add: sim\<close>)
    qed (use lead in \<open>auto simp: sim lead_ok_def\<close>)
  next
    case (3 u k x)
    then show ?case using D(3) [of u k x] by (auto simp: sim split: if_splits)
  next
    case (4 u v p q k l d)
    then show ?case using D(4) mine by (auto simp: sim split: if_splits)
  next
    case (5 k d)
    then have "cs_inflight st k = Some d" "k \<noteq> key" by (auto simp: sim split: if_splits)
    then obtain u p where u: "cs_callers st u = Leading p k d" "p \<noteq> Published" "k \<noteq> key" using D(5) by blast
    then have "u \<noteq> t" using assms(2) by auto
    then show ?case using u by (intro exI [of _ u] exI [of _ p]) (simp add: sim)
  next
    case (6 k e)
    then show ?case using D(6) by (auto simp: publish_def split: sum.splits if_splits)
  next
    case (7 d)
    then show ?case using D(7) lead by (auto simp: sim lead_ok_def split: if_splits)
  qed
qed

lemma panic_ok:
  assumes "cache_ok st" "cs_callers st t = Leading Building key c"
  shows "cache_ok (set_caller t (Leading Panicked key c) st)"
proof -
  note D = cache_okD [OF assms(1)]
  have lead: "lead_ok st Panicked key c" using D(1) [OF assms(2)] by (simp add: lead_ok_def)
  have leads: "\<exists>p'. ((cs_callers st)(t := Leading Panicked key c)) u = Leading p' k d \<and> (p \<noteq> Published \<longrightarrow> p' \<noteq> Published)"
    if "cs_callers st u = Leading p k d" for u p k d
    using that assms(2) by auto
  show ?thesis
  proof (rule cache_okI, goal_cases)
    case (1 u p k d)
    then show ?case using D(1) [of u p k d] lead by (auto simp: lead_ok_def split: if_splits)
  next
    case (2 u k d)
    then have "wait_ok st k d" using D(2) by (auto split: if_splits)
    then show ?case by (rule wait_ok_mono) (use assms(2) in auto)
  next
    case (5 k d)
    then show ?case using D(5) [of k d] leads unfolding set_caller_simps by blast
  qed (use D assms(2) in \<open>auto split: if_splits\<close>)
qed

lemma close_ok:
  assumes "cache_ok st" "cs_callers st t = Leading Published key c" "cs_result st c = Some r"
  shows "cache_ok (set_caller t (Answered key r) (st\<lparr>cs_closed := (cs_closed st)(c := True)\<rparr>))"
proof -
  note D = cache_okD [OF assms(1)]
  have lead: "c < cs_next st" "logged st key r" "\<not> cs_closed st c" using D(1) [OF assms(2)] assms(3) by (auto simp: lead_ok_def)
  have mine: "u = t \<and> p = Published \<and> k = key" if "cs_callers st u = Leading p k c" for u p k
    using D(4) [OF that assms(2)] that assms(2) by auto
  show ?thesis
  proof (rule cache_okI, goal_cases)
    case (1 u p k d)
    then have u: "cs_callers st u = Leading p k d" "u \<noteq> t" by (auto split: if_splits)
    then have "d \<noteq> c" using mine by blast
    then show ?case using D(1) [OF u(1)] by (auto simp: lead_ok_def)
  next
    case (2 u k d)
    then have w: "wait_ok st k d" using D(2) by (auto split: if_splits)
    show ?case
    proof (cases "d = c")
      case True
      then have "k = key" using w lead(3) mine by (auto simp: wait_ok_def)
      then show ?thesis using True lead assms(3) by (simp add: wait_ok_def)
    next
      case False
      from w show ?thesis by (rule wait_ok_mono) (use False assms(2) in auto)
    qed
  next
    case (5 k d)
    then have "cs_inflight st k = Some d" by simp
    then obtain u p where u: "cs_callers st u = Leading p k d" "p \<noteq> Published" using D(5) by blast
    then have "u \<noteq> t" using assms(2) by auto
    then show ?case using u by auto
  qed (use D lead in \<open>auto split: if_splits\<close>)
qed

lemma cache_step_ok:
  assumes "cache_ok st" "cache_step sha256 a st = Some st'"
  shows "cache_ok st'"
proof (cases a)
  case (Tick d)
  then have st': "st' = st\<lparr>cs_now := cs_now st + d\<rparr>" "0 \<le> d" using assms(2) by (auto simp: cache_step_def split: if_splits)
  have "caller_ok st' x = caller_ok st x" for x by (simp add: st' caller_ok_def lead_ok_def wait_ok_def split: caller.split)
  then show ?thesis using assms(1) st'(2) unfolding cache_ok_def
    by (fastforce simp: st'(1) one_leader_def inflight_ok_def entries_ok_def calls_ok_def)
next
  case (Invalidate key)
  then have st': "st' = st\<lparr>cs_entries := (cs_entries st)(key := None)\<rparr>" using assms(2) by (simp add: cache_step_def)
  have "caller_ok st' x = caller_ok st x" for x by (simp add: st' caller_ok_def lead_ok_def wait_ok_def split: caller.split)
  then show ?thesis using assms(1) unfolding cache_ok_def
    by (simp add: st' one_leader_def inflight_ok_def entries_ok_def calls_ok_def)
next
  case (Wake t)
  then obtain key c r where w: "cs_callers st t = Waiting key c" "cs_closed st c" "cs_result st c = Some r"
    "st' = set_caller t (Answered key r) st"
    using assms(2) by (auto simp: cache_step_def split: caller.splits if_splits option.splits)
  then have "logged st key r" using cache_okD(1,2) [OF assms(1)] by (fastforce simp: wait_ok_def lead_ok_def)
  then show ?thesis using w assms(1) by (auto intro!: set_caller_ok simp: caller_ok_def)
next
  case (Return t)
  then show ?thesis using assms
    by (auto intro!: set_caller_ok simp: cache_step_def caller_ok_def split: caller.splits)
qed (use assms fetch_ok publish_ok panic_ok close_ok in
      \<open>auto simp: cache_step_def split: caller.splits lead_phase.splits option.splits\<close>)

lemma cache_reach_ok: "cache_reach sha256 ttl st \<Longrightarrow> cache_ok st"
  by (induction rule: cache_reach.induct) (auto intro: new_ok cache_step_ok)

section \<open>Answers\<close>

lemma log_etags:
  "cache_reach sha256 ttl st \<Longrightarrow> logged st key (Inr (body, etag)) \<Longrightarrow> etag = etag_of sha256 body"
proof (induction rule: cache_reach.induct)
  case (step st a st')
  have "cs_log st' = cs_log st \<or> (\<exists>key outcome. cs_log st' = cs_log st @ [(key, built sha256 outcome)])"
    using step.hyps(2)
    by (cases a) (auto simp: cache_step_def fetch_def Let_def publish_def
        split: if_splits caller.splits lead_phase.splits option.splits)
  then consider "logged st key (Inr (body, etag))" | outcome where "built sha256 outcome = Inr (body, etag)"
    using step.prems by auto
  then show ?case by cases (use step.IH in \<open>auto simp: built_def split: sum.splits\<close>)
qed (simp add: newJSONCache_def)

text \<open>A call whose build panicked stays open, and those who wait for it stay waiting.\<close>

lemma panicked_step:
  assumes "cache_ok st" "cs_callers st u = Leading Panicked key c" "cache_step sha256 a st = Some st'"
  shows "cs_callers st' u = Leading Panicked key c \<and> (cs_callers st t = Waiting key c \<longrightarrow> cs_callers st' t = Waiting key c)"
proof -
  have open_call: "\<not> cs_closed st c" using cache_okD(1) [OF assms(1,2)] by (simp add: lead_ok_def)
  show ?thesis
  proof (cases a)
    case (Wake v)
    then show ?thesis using assms(2,3) open_call
      by (auto simp: cache_step_def split: if_splits caller.splits option.splits)
  qed (use assms(2,3) in \<open>auto simp: cache_step_def fetch_def Let_def publish_def
      split: if_splits caller.splits lead_phase.splits option.splits\<close>)
qed

lemma panicked_run:
  assumes "cache_ok st" "cs_callers st u = Leading Panicked key c" "cache_run sha256 as st = Some st'"
  shows "cs_callers st' u = Leading Panicked key c \<and> cs_inflight st' key = Some c \<and>
    (cs_callers st t = Waiting key c \<longrightarrow> cs_callers st' t = Waiting key c)"
  using assms
proof (induction as arbitrary: st)
  case Nil
  then show ?case using cache_okD(1) [OF Nil(1,2)] by (auto simp: lead_ok_def)
next
  case (Cons a as)
  then obtain st1 where st1: "cache_step sha256 a st = Some st1" "cache_run sha256 as st1 = Some st'"
    by (auto split: option.splits)
  then show ?case
    using Cons.IH [OF cache_step_ok [OF Cons.prems(1) st1(1)]] panicked_step [OF Cons.prems(1,2) st1(1)] by blast
qed

text \<open>Once the call is closed, one step answers; a published call needs one more, a build two.\<close>

lemma closed_wakes:
  assumes "cs_callers st t = Waiting key c" "cs_closed st c" "cs_result st c = Some r"
  shows "\<exists>st'. cache_run sha256 [Wake t] st = Some st' \<and> cs_callers st' t = Answered key r"
  using assms by (simp add: cache_step_def)

lemma published_wakes:
  assumes "cs_callers st t = Waiting key c" "cs_callers st u = Leading Published key c" "cs_result st c = Some r"
  shows "\<exists>st'. cache_run sha256 [CloseCall u, Wake t] st = Some st' \<and> cs_callers st' t = Answered key r"
  using assms by (auto simp: cache_step_def)

lemma building_wakes:
  assumes "cs_callers st t = Waiting key c" "cs_callers st u = Leading Building key c"
  shows "\<exists>st'. cache_run sha256 [BuildReturns u outcome, CloseCall u, Wake t] st = Some st' \<and>
    cs_callers st' t = Answered key (built sha256 outcome)"
  using assms by (auto simp: cache_step_def publish_def)

section \<open>Properties\<close>

text \<open>C16.
  In every reachable state of the cache, however requests interleave: two requests that build the
  same key are the same request; every answer given for a key, from the cache, from one's own build
  or from another's, is the result of a build for that key; and its ETag is that of its body.
\<close>

theorem cache_single_flight:
  assumes "cache_reach sha256 ttl st"
  shows "(\<forall>t u key c d. cs_callers st t = Leading Building key c \<and> cs_callers st u = Leading Building key d \<longrightarrow> t = u) \<and>
    (\<forall>t key r. cs_callers st t = Answered key r \<longrightarrow> logged st key r) \<and>
    (\<forall>t key body etag. cs_callers st t = Answered key (Inr (body, etag)) \<longrightarrow> etag = etag_of sha256 body)"
proof -
  note D = cache_okD [OF cache_reach_ok [OF assms]]
  have "t = u" if "cs_callers st t = Leading Building key c" "cs_callers st u = Leading Building key d" for t u key c d
    using D(1) [OF that(1)] D(1) [OF that(2)] D(4) that by (auto simp: lead_ok_def)
  then show ?thesis using D(3) log_etags [OF assms] by blast
qed

text \<open>C40.
  A request that waits for another's build can always be answered in at most three further steps
  (the build returns, its call is closed, the request wakes), unless that build has panicked. In
  that case it is never answered, by no sequence of steps: the key stays marked as being built, so
  all those who wait for it wait forever.
\<close>

theorem cache_waiters:
  assumes "cache_reach sha256 ttl st" "cs_callers st t = Waiting key c"
  shows "if \<exists>u. cs_callers st u = Leading Panicked key c
    then (\<forall>as st'. cache_run sha256 as st = Some st' \<longrightarrow> cs_callers st' t = Waiting key c \<and> cs_inflight st' key = Some c)
    else (\<exists>as st' r. length as \<le> 3 \<and> cache_run sha256 as st = Some st' \<and> cs_callers st' t = Answered key r)"
proof (cases "\<exists>u. cs_callers st u = Leading Panicked key c")
  case True
  then obtain u where "cs_callers st u = Leading Panicked key c" ..
  then show ?thesis unfolding if_P [OF True]
    using panicked_run [OF cache_reach_ok [OF assms(1)]] assms(2) by blast
next
  case False
  note D = cache_okD [OF cache_reach_ok [OF assms(1)]]
  consider r where "cs_closed st c" "cs_result st c = Some r" | u r where "cs_callers st u = Leading Published key c" "cs_result st c = Some r"
    | u where "cs_callers st u = Leading Building key c"
  proof -
    consider "\<exists>r. cs_closed st c \<and> cs_result st c = Some r" | u p where "cs_callers st u = Leading p key c"
      using D(2) [OF assms(2)] by (auto simp: wait_ok_def)
    then show thesis
    proof cases
      case (2 u p)
      then show thesis using that(2,3) False D(1) [OF 2] by (cases p) (auto simp: lead_ok_def)
    qed (use that(1) in blast)
  qed
  then have "\<exists>as st' r. length as \<le> 3 \<and> cache_run sha256 as st = Some st' \<and> cs_callers st' t = Answered key r"
  proof cases
    case 1
    obtain st' where "cache_run sha256 [Wake t] st = Some st'" "cs_callers st' t = Answered key r"
      using closed_wakes [OF assms(2) 1] by blast
    then show ?thesis by (intro exI [of _ "[Wake t]"] exI) auto
  next
    case 2
    obtain st' where "cache_run sha256 [CloseCall u, Wake t] st = Some st'" "cs_callers st' t = Answered key r"
      using published_wakes [OF assms(2) 2] by blast
    then show ?thesis by (intro exI [of _ "[CloseCall u, Wake t]"] exI) auto
  next
    case 3
    obtain st' where "cache_run sha256 [BuildReturns u (Inl []), CloseCall u, Wake t] st = Some st'"
      "cs_callers st' t = Answered key (built sha256 (Inl []))"
      using building_wakes [OF assms(2) 3] by blast
    then show ?thesis by (intro exI [of _ "[BuildReturns u (Inl []), CloseCall u, Wake t]"] exI) auto
  qed
  then show ?thesis unfolding if_not_P [OF False] .
qed

lemma run_reach: "cache_reach sha256 ttl st \<Longrightarrow> cache_run sha256 as st = Some st' \<Longrightarrow> cache_reach sha256 ttl st'"
  by (induction as arbitrary: st) (auto split: option.splits intro: cache_reach.step)

text \<open>Two requests for one key; the build of the first panics.\<close>

definition panicked_state :: cache_state where
  "panicked_state = set_caller 0 (Leading Panicked ''k'' 0) (set_caller 1 (Waiting ''k'' 0) (set_caller 0 (Leading Building ''k'' 0)
     ((newJSONCache 3 5)\<lparr>cs_inflight := [''k'' \<mapsto> 0], cs_next := 1\<rparr>)))"

lemma panicked_reach: "cache_reach id 3 panicked_state"
proof (rule run_reach [OF cache_reach.init])
  show "cache_run id [FetchWithTTL 0 ''k'' 0, FetchWithTTL 1 ''k'' 0, BuildPanics 0] (newJSONCache 3 5) = Some panicked_state"
    by (simp add: panicked_state_def newJSONCache_def cache_step_def fetch_def fresh_entry_def set_caller_def)
qed

theorem cache_single_flight_witness:
  "\<exists>st. cache_reach id 3 st \<and> cs_callers st 0 = Answered ''k'' (Inr (''v'', etag_of id ''v'')) \<and> logged st ''k'' (Inr (''v'', etag_of id ''v''))"
proof -
  let ?as = "[FetchWithTTL 0 ''k'' 0, BuildReturns 0 (Inr ''v''), CloseCall 0]"
  obtain st where run: "cache_run id ?as (newJSONCache 3 5) = Some st" and ans: "cs_callers st 0 = Answered ''k'' (Inr (''v'', etag_of id ''v''))"
    by (simp add: newJSONCache_def cache_step_def fetch_def fresh_entry_def set_caller_def publish_def built_def)
  have reach: "cache_reach id 3 st" using run_reach [OF cache_reach.init run] .
  then show ?thesis using cache_single_flight [OF reach] ans by blast
qed

theorem cache_waiters_witness:
  "\<exists>st'. cache_run id [Tick 60, FetchWithTTL 2 ''k'' 0] panicked_state = Some st' \<and>
     cs_callers st' 1 = Waiting ''k'' 0 \<and> cs_inflight st' ''k'' = Some 0"
proof -
  have "cs_callers panicked_state 1 = Waiting ''k'' 0" "cs_callers panicked_state 0 = Leading Panicked ''k'' 0"
    by (simp_all add: panicked_state_def)
  then have "\<forall>as st'. cache_run id as panicked_state = Some st' \<longrightarrow>
      cs_callers st' 1 = Waiting ''k'' 0 \<and> cs_inflight st' ''k'' = Some 0"
    using cache_waiters [OF panicked_reach, of 1 "''k''" 0] by (metis (no_types, lifting))
  moreover obtain st' where "cache_run id [Tick 60, FetchWithTTL 2 ''k'' 0] panicked_state = Some st'"
    by (simp add: panicked_state_def newJSONCache_def cache_step_def fetch_def fresh_entry_def set_caller_def)
  ultimately show ?thesis by blast
qed

end
