(* ===== verification/Jaeger.thy ===== *)
theory Jaeger
  imports Prelude
begin

text \<open>
  The trace store client of \<open>internal/jaeger/client.go\<close>. A tag value is what \<open>encoding/json\<close>
  decodes into an \<open>any\<close>; a number is a float64, whose type \<open>'fl\<close> is a parameter, as are the HTTP
  transport, \<open>url.JoinPath\<close> and the decoder of the body.
\<close>

datatype 'fl any_value = AnyString string | AnyBool bool | AnyFloat 'fl | AnyOther

record span_reference =
  sr_RefType :: string
  sr_SpanID :: string

record 'fl jaeger_tag =
  jt_Key :: string
  jt_Value :: "'fl any_value"

record 'fl jaeger_span =
  js_SpanID :: string
  js_OperationName :: string
  js_References :: "span_reference list"
  js_StartTime :: int
  js_Duration :: int
  js_ProcessID :: string
  js_Tags :: "'fl jaeger_tag list"
  js_Logs :: "string list"

record 'fl jaeger_process =
  jp_ServiceName :: string
  jp_Tags :: "'fl jaeger_tag list"

record 'fl jaeger_trace =
  tr_Spans :: "'fl jaeger_span list"
  tr_Processes :: "string \<rightharpoonup> 'fl jaeger_process"

record dependency =
  dp_Parent :: string
  dp_Child :: string
  dp_CallCount :: int

section \<open>Requests\<close>

datatype jaeger_error = BuildUrl | BuildRequest | Canceled | FetchFailed | UnexpectedStatus nat | ReadBody | DecodeBody

text \<open>What the transport answers: an error (with whether the context was cancelled), or a status
  with a body, which may fail to be read.\<close>

datatype http_answer = TransportError bool | HttpResponse nat "string option"

record 'fl jaeger_client =
  jc_baseURL :: string
  jc_join :: "string \<Rightarrow> string list \<Rightarrow> string option"
  jc_valid_url :: "string \<Rightarrow> bool"
  jc_do :: "string \<Rightarrow> duration \<Rightarrow> http_answer"
  jc_decode_traces :: "string \<Rightarrow> 'fl jaeger_trace list option"
  jc_decode_envelope :: "string \<Rightarrow> dependency list option option"
  jc_decode_list :: "string \<Rightarrow> dependency list option"

definition DefaultTimeout :: duration where "DefaultTimeout = 3000000000"
definition DashboardTraceTimeout :: duration where "DashboardTraceTimeout = 15000000000"
definition DashboardDependencyTimeout :: duration where "DashboardDependencyTimeout = 30000000000"

definition New_baseURL :: "string \<Rightarrow> string" where
  "New_baseURL baseURL = trim_right (\<lambda>c. c = CHR ''/'') baseURL"

text \<open>The common tail of both requests: \<open>None\<close> is a missing answer.\<close>

definition read_response :: "bool \<Rightarrow> http_answer \<Rightarrow> jaeger_error + string option" where
  "read_response tolerate answer = (case answer of
     TransportError canceled \<Rightarrow> if canceled then Inl Canceled else if tolerate then Inr None else Inl FetchFailed
   | HttpResponse status body \<Rightarrow>
       if status = 404 then Inr None
       else if status < 200 \<or> 300 \<le> status then Inl (UnexpectedStatus status)
       else case body of None \<Rightarrow> Inl ReadBody | Some b \<Rightarrow> Inr (Some b))"

definition getTrace :: "'fl jaeger_client option \<Rightarrow> string \<Rightarrow> duration \<Rightarrow> bool \<Rightarrow> jaeger_error + 'fl jaeger_trace option" where
  "getTrace client traceID timeout tolerate = (case client of
     None \<Rightarrow> Inr None
   | Some c \<Rightarrow>
       if jc_baseURL c = [] \<or> traceID = [] then Inr None
       else case jc_join c (jc_baseURL c) [''api'', ''traces'', traceID] of
         None \<Rightarrow> Inl BuildUrl
       | Some endpoint \<Rightarrow>
           if \<not> jc_valid_url c endpoint then Inl BuildRequest
           else case read_response tolerate (jc_do c endpoint timeout) of
             Inl err \<Rightarrow> Inl err
           | Inr None \<Rightarrow> Inr None
           | Inr (Some body) \<Rightarrow>
               (case jc_decode_traces c body of
                  None \<Rightarrow> Inl DecodeBody
                | Some [] \<Rightarrow> Inr None
                | Some (t # _) \<Rightarrow> Inr (Some t)))"

definition GetTrace :: "'fl jaeger_client option \<Rightarrow> string \<Rightarrow> jaeger_error + 'fl jaeger_trace option" where
  "GetTrace client traceID = getTrace client traceID DefaultTimeout True"

definition GetTraceForDashboard :: "'fl jaeger_client option \<Rightarrow> string \<Rightarrow> jaeger_error + 'fl jaeger_trace option" where
  "GetTraceForDashboard client traceID = getTrace client traceID DashboardTraceTimeout False"

definition decodeDependencies :: "'fl jaeger_client \<Rightarrow> string \<Rightarrow> dependency list option" where
  "decodeDependencies c body = (case jc_decode_envelope c body of
     Some (Some deps) \<Rightarrow> Some deps
   | _ \<Rightarrow> jc_decode_list c body)"

text \<open>\<open>UnixMilli\<close> and \<open>Milliseconds\<close> as decimal query parameters; \<open>now\<close> is the time of the call.\<close>

definition unix_milli :: "gotime \<Rightarrow> int" where
  "unix_milli t = (t - 62135596800000000000) div 1000000"

definition dependency_query :: "gotime \<Rightarrow> duration \<Rightarrow> string" where
  "dependency_query endTs lookback =
     ''endTs='' @ itoa (unix_milli endTs) @ ''&lookback='' @ itoa (lookback div 1000000)"

definition GetDependencies ::
    "'fl jaeger_client option \<Rightarrow> gotime \<Rightarrow> duration \<Rightarrow> gotime \<Rightarrow> jaeger_error + dependency list" where
  "GetDependencies client now lookback0 endTs0 = (case client of
     None \<Rightarrow> Inr []
   | Some c \<Rightarrow>
       if jc_baseURL c = [] then Inr []
       else
         let lookback = (if lookback0 \<le> 0 then hour else lookback0);
             endTs = (if time_is_zero endTs0 then now else endTs0)
         in case jc_join c (jc_baseURL c) [''api'', ''dependencies''] of
              None \<Rightarrow> Inl BuildUrl
            | Some endpoint \<Rightarrow>
                let url = endpoint @ ''?'' @ dependency_query endTs lookback
                in if \<not> jc_valid_url c url then Inl BuildRequest
                   else case read_response False (jc_do c url DashboardDependencyTimeout) of
                     Inl err \<Rightarrow> Inl err
                   | Inr None \<Rightarrow> Inr []
                   | Inr (Some body) \<Rightarrow>
                       (case decodeDependencies c body of None \<Rightarrow> Inl DecodeBody | Some deps \<Rightarrow> Inr deps))"

section \<open>Misses and errors\<close>

text \<open>The graph builder's lookup fails only on a cancelled context, an unexpected status, or a body
  that cannot be read or decoded; a transport error is a miss. The dashboard's lookup reports it.\<close>

lemma GetTrace_tolerates:
  assumes "jc_join c (jc_baseURL c) [''api'', ''traces'', t] = Some u" "jc_valid_url c u" "jc_baseURL c \<noteq> []" "t \<noteq> []"
    and "jc_do c u DefaultTimeout = TransportError False" "jc_do c u DashboardTraceTimeout = TransportError False"
  shows "GetTrace (Some c) t = Inr None" "GetTraceForDashboard (Some c) t = Inl FetchFailed"
  using assms by (simp_all add: GetTrace_def GetTraceForDashboard_def getTrace_def read_response_def)

end
