(* ===== verification/Incident_Graph.thy ===== *)
theory Incident_Graph
  imports Json Jaeger Lifecycle Buffer
begin

text \<open>
  The incident topology graph of \<open>internal/correlator/graph/graph.go\<close>: nodes for the incident, the
  resources it affects, services, spans and pods, built from the report, from the events of its
  trace in the correlation buffer and from the trace store, then cut to the size limit of the
  status field. The buffer and the trace store are optional, as in the source. Marshalling a
  graph cannot fail (it holds only strings, integers and booleans), so the error results of
  \<open>truncate\<close> and \<open>Build\<close> that come from it do not occur.
\<close>

definition MaxGraphBytes :: nat where "MaxGraphBytes = 64 * 1024"

record graph_node =
  gn_ID :: string
  gn_Kind :: string
  gn_Name :: string
  gn_Namespace :: string
  gn_Label :: string
  gn_IsRoot :: bool
  gn_BlastRadius :: int

record graph_edge =
  ge_From :: string
  ge_To :: string
  ge_Kind :: string
  ge_Count :: int

record incident_graph =
  ig_Nodes :: "graph_node slice"
  ig_Edges :: "graph_edge slice"
  ig_Truncated :: bool
  ig_Meta :: "(string \<times> string) list"

definition plain_node :: "string \<Rightarrow> string \<Rightarrow> string \<Rightarrow> string \<Rightarrow> string \<Rightarrow> graph_node" where
  "plain_node i kind name ns label = \<lparr>gn_ID = i, gn_Kind = kind, gn_Name = name, gn_Namespace = ns,
     gn_Label = label, gn_IsRoot = False, gn_BlastRadius = 0\<rparr>"

definition plain_edge :: "string \<Rightarrow> string \<Rightarrow> string \<Rightarrow> graph_edge" where
  "plain_edge a b kind = \<lparr>ge_From = a, ge_To = b, ge_Kind = kind, ge_Count = 0\<rparr>"

section \<open>JSON form\<close>

definition node_json :: "graph_node \<Rightarrow> json" where
  "node_json n = JObject
     ([(''id'', JString (gn_ID n)), (''kind'', JString (gn_Kind n)), (''name'', JString (gn_Name n))] @
      json_omit ''namespace'' (gn_Namespace n) @ json_omit ''label'' (gn_Label n) @
      (if gn_IsRoot n then [(''isRoot'', JBool True)] else []) @ [(''blastRadius'', JInt (gn_BlastRadius n))])"

definition edge_json :: "graph_edge \<Rightarrow> json" where
  "edge_json e = JObject
     ([(''from'', JString (ge_From e)), (''to'', JString (ge_To e)), (''kind'', JString (ge_Kind e))] @
      (if ge_Count e = 0 then [] else [(''count'', JInt (ge_Count e))]))"

definition graph_json :: "incident_graph \<Rightarrow> json" where
  "graph_json g = JObject
     ([(''nodes'', json_slice node_json (ig_Nodes g)), (''edges'', json_slice edge_json (ig_Edges g))] @
      (if ig_Truncated g then [(''truncated'', JBool True)] else []) @
      (if ig_Meta g = [] then [] else [(''meta'', JObject (map (\<lambda>(k, v). (k, JString v)) (ig_Meta g)))]))"

definition marshal_graph :: "incident_graph \<Rightarrow> string" where
  "marshal_graph g = json_text (graph_json g)"

section \<open>The node set\<close>

record node_set =
  ns_order :: "string list"
  ns_byID :: "string \<rightharpoonup> graph_node"

definition newNodeSet :: node_set where
  "newNodeSet = \<lparr>ns_order = [], ns_byID = Map.empty\<rparr>"

text \<open>The gaps of an existing node are filled from the new one.\<close>

definition fill_node :: "graph_node \<Rightarrow> graph_node \<Rightarrow> graph_node" where
  "fill_node old n = old\<lparr>
     gn_Namespace := (if gn_Namespace old = [] then gn_Namespace n else gn_Namespace old),
     gn_Name := (if gn_Name old = [] then gn_Name n else gn_Name old),
     gn_Label := (if gn_Label old = [] then gn_Label n else gn_Label old)\<rparr>"

definition ns_add :: "graph_node \<Rightarrow> node_set \<Rightarrow> bool \<times> node_set" where
  "ns_add n s = (case ns_byID s (gn_ID n) of
     Some existing \<Rightarrow> (False, s\<lparr>ns_byID := (ns_byID s)(gn_ID n \<mapsto> fill_node existing n)\<rparr>)
   | None \<Rightarrow> (True, s\<lparr>ns_byID := (ns_byID s)(gn_ID n \<mapsto> n), ns_order := ns_order s @ [gn_ID n]\<rparr>))"

abbreviation ns_put :: "graph_node \<Rightarrow> node_set \<Rightarrow> node_set" where
  "ns_put n s \<equiv> snd (ns_add n s)"

definition ns_sorted :: "node_set \<Rightarrow> graph_node list" where
  "ns_sorted s = List.map_filter (ns_byID s) (ns_order s)"

definition k8sNodeID :: "string \<Rightarrow> string \<Rightarrow> string \<Rightarrow> string" where
  "k8sNodeID kind namespace name =
     ''k8s:'' @ kind @ '':'' @ (if namespace \<noteq> [] then namespace @ ''/'' else []) @ name"

definition svcID :: "string \<Rightarrow> string" where
  "svcID name = ''svc:'' @ name"

definition mergeNamespaceHint :: "string \<Rightarrow> string \<Rightarrow> string" where
  "mergeNamespaceHint current nxt =
     (if current = [] then nxt else if nxt = [] \<or> current = nxt then current else [])"

definition asString :: "'fl any_value \<Rightarrow> string" where
  "asString v = (case v of AnyString s \<Rightarrow> s | _ \<Rightarrow> [])"

section \<open>Enrichment from the buffer\<close>

type_synonym draft = "node_set \<times> graph_edge list"

definition k8s_node :: "string \<Rightarrow> string \<Rightarrow> string \<Rightarrow> graph_node" where
  "k8s_node kind ns name = plain_node (k8sNodeID kind ns name) kind name ns name"

text \<open>The service name, span id, pod name and namespace an event of the trace contributes.\<close>

definition event_identity :: "correlator_event \<Rightarrow> (string \<times> string \<times> string \<times> string) option" where
  "event_identity e =
     (let b = ev_base e in case e of
       OTelSpanErrorEvent _ _ s _ svc _ _ _ _ _ _ _ _ _ \<Rightarrow> Some (svc, s, be_PodName b, be_Namespace b)
     | OTelSpanLatencySpikeEvent _ _ s _ svc _ _ _ _ _ _ _ \<Rightarrow> Some (svc, s, be_PodName b, be_Namespace b)
     | OTelLogMatchEvent _ _ _ svc _ _ _ _ _ _ \<Rightarrow> Some (svc, [], be_PodName b, be_Namespace b)
     | OTelSpanEventEvent _ _ s svc _ _ _ _ \<Rightarrow> Some (svc, s, be_PodName b, be_Namespace b)
     | _ \<Rightarrow> None)"

definition add_event_pod :: "string \<Rightarrow> string \<Rightarrow> string \<Rightarrow> string \<Rightarrow> draft \<Rightarrow> draft" where
  "add_event_pod rootID svc pod ns d =
     (let (nodes, edges) = d; podID = k8sNodeID ''Pod'' ns pod;
          (fresh, nodes) = ns_add (k8s_node ''Pod'' ns pod) nodes
      in (nodes, edges @ (if fresh then [plain_edge rootID podID ''affects''] else []) @
                 [plain_edge (svcID svc) podID ''runs_on'']))"

definition add_event_service :: "string \<Rightarrow> string \<Rightarrow> string \<Rightarrow> string \<Rightarrow> draft \<Rightarrow> draft" where
  "add_event_service rootID svc pod ns d =
     (if svc = [] then d
      else let (nodes, edges) = d;
               nodes = ns_put (plain_node (svcID svc) ''Service'' svc ns svc) nodes;
               edges = edges @ [plain_edge rootID (svcID svc) ''affects'']
           in if pod = [] then (nodes, edges) else add_event_pod rootID svc pod ns (nodes, edges))"

definition add_event_span :: "string \<Rightarrow> string \<Rightarrow> draft \<Rightarrow> draft" where
  "add_event_span svc span d =
     (let (nodes, edges) = d
      in if span = [] then d
         else (ns_put (plain_node (''span:'' @ span) ''Span'' span []
                 (if svc = [] then span else svc @ '' ('' @ span @ '')'')) nodes, edges))"

definition enrichFromEvent :: "string \<Rightarrow> correlator_event \<Rightarrow> draft \<Rightarrow> draft" where
  "enrichFromEvent rootID e d = (case event_identity e of
     None \<Rightarrow> d
   | Some (svc, span, pod, ns) \<Rightarrow> add_event_span svc span (add_event_service rootID svc pod ns d))"

section \<open>Enrichment from the trace store\<close>

text \<open>The last value of a tag wins, as in the loop over the tags.\<close>

definition tag_string :: "string \<Rightarrow> 'fl jaeger_tag list \<Rightarrow> string" where
  "tag_string k tags = fold (\<lambda>t acc. if jt_Key t = k then asString (jt_Value t) else acc) tags []"

definition span_service :: "'fl jaeger_trace \<Rightarrow> 'fl jaeger_span \<Rightarrow> string" where
  "span_service trace sp = (case tr_Processes trace (js_ProcessID sp) of None \<Rightarrow> [] | Some p \<Rightarrow> jp_ServiceName p)"

text \<open>One span: its service node, the namespace hint of the service, and the pod it runs on. The
  draft is kept with the map of hints.\<close>

definition jaeger_span_step ::
    "'fl jaeger_trace \<Rightarrow> 'fl jaeger_span \<Rightarrow> draft \<times> (string \<Rightarrow> string) \<Rightarrow> draft \<times> (string \<Rightarrow> string)" where
  "jaeger_span_step trace sp st =
     (let ((nodes, edges), hints) = st; svc = span_service trace sp
      in if svc = [] then st
         else let nodes = ns_put (plain_node (svcID svc) ''Service'' svc [] svc) nodes;
                  pod = tag_string ''k8s.pod.name'' (js_Tags sp);
                  ns = tag_string ''k8s.namespace.name'' (js_Tags sp);
                  hints = (if ns = [] then hints else hints(svc := mergeNamespaceHint (hints svc) ns));
                  nodes = ns_put (plain_node (svcID svc) ''Service'' svc (hints svc) svc) nodes
              in if pod = [] then ((nodes, edges), hints)
                 else ((ns_put (k8s_node ''Pod'' ns pod) nodes,
                        edges @ [plain_edge (svcID svc) (k8sNodeID ''Pod'' ns pod) ''runs_on'']), hints))"

definition spanService :: "'fl jaeger_trace \<Rightarrow> string \<Rightarrow> string" where
  "spanService trace = fold (\<lambda>sp m. m(js_SpanID sp := span_service trace sp)) (tr_Spans trace) (\<lambda>_. [])"

definition call_edges :: "'fl jaeger_trace \<Rightarrow> 'fl jaeger_span \<Rightarrow> graph_edge list" where
  "call_edges trace sp =
     (let child = spanService trace (js_SpanID sp)
      in List.map_filter (\<lambda>ref. let parent = spanService trace (sr_SpanID ref)
           in if parent = [] \<or> child = [] \<or> parent = child then None
              else Some (plain_edge (svcID parent) (svcID child) ''calls'')) (js_References sp))"

definition enrichFromJaeger :: "'fl jaeger_trace \<Rightarrow> draft \<Rightarrow> draft" where
  "enrichFromJaeger trace d =
     (let ((nodes, edges), _) = fold (jaeger_span_step trace) (tr_Spans trace) (d, \<lambda>_. [])
      in (nodes, edges @ concat (map (call_edges trace) (tr_Spans trace))))"

section \<open>Size limit\<close>

fun dedupEdges_from :: "graph_edge set \<Rightarrow> graph_edge list \<Rightarrow> graph_edge list" where
  "dedupEdges_from seen [] = []"
| "dedupEdges_from seen (e # es) =
     (if e \<in> seen then dedupEdges_from seen es else e # dedupEdges_from (insert e seen) es)"

definition dedupEdges :: "graph_edge list \<Rightarrow> graph_edge list" where
  "dedupEdges es = dedupEdges_from {} es"

definition edge_degree :: "graph_edge list \<Rightarrow> string \<Rightarrow> int" where
  "edge_degree es i = int (length (filter (\<lambda>e. ge_To e = i) es)) + int (length (filter (\<lambda>e. ge_From e = i) es))"

definition blast_node :: "graph_edge list \<Rightarrow> graph_node \<Rightarrow> graph_node" where
  "blast_node es n =
     (let r = edge_degree es (gn_ID n) in n\<lparr>gn_BlastRadius := (if gn_IsRoot n \<and> r = 0 then 1 else r)\<rparr>)"

definition computeBlastRadius :: "incident_graph \<Rightarrow> incident_graph" where
  "computeBlastRadius g = g\<lparr>ig_Nodes := map_option (map (blast_node (elems (ig_Edges g)))) (ig_Nodes g)\<rparr>"

definition filter_graph :: "incident_graph \<Rightarrow> string set \<Rightarrow> incident_graph" where
  "filter_graph g dropped = \<lparr>
     ig_Nodes = appended (filter (\<lambda>n. gn_ID n \<notin> dropped) (elems (ig_Nodes g))),
     ig_Edges = appended (filter (\<lambda>e. ge_From e \<notin> dropped \<and> ge_To e \<notin> dropped) (elems (ig_Edges g))),
     ig_Truncated = False, ig_Meta = ig_Meta g\<rparr>"

definition rootID :: "incident_graph \<Rightarrow> string" where
  "rootID g = (case find gn_IsRoot (elems (ig_Nodes g)) of None \<Rightarrow> [] | Some n \<Rightarrow> gn_ID n)"

definition highestBlastRadiusID :: "incident_graph \<Rightarrow> string" where
  "highestBlastRadiusID g = fst (fold (\<lambda>n (best, weight).
     if weight < gn_BlastRadius n \<or> gn_BlastRadius n = weight \<and> gn_ID n < best
     then (gn_ID n, gn_BlastRadius n) else (best, weight)) (elems (ig_Nodes g)) ([], -1))"

definition nodeIDSetExcept :: "incident_graph \<Rightarrow> string \<Rightarrow> string set" where
  "nodeIDSetExcept g i = {j \<in> set (map gn_ID (elems (ig_Nodes g))). j \<noteq> i}"

definition ranked_ids :: "incident_graph \<Rightarrow> string list" where
  "ranked_ids g = map snd (sort (map (\<lambda>n. (gn_BlastRadius n, gn_ID n))
     (filter (\<lambda>n. \<not> gn_IsRoot n) (elems (ig_Nodes g)))))"

fun drop_until :: "incident_graph \<Rightarrow> nat \<Rightarrow> string set \<Rightarrow> string list \<Rightarrow> incident_graph option" where
  "drop_until g maxBytes dropped [] = None"
| "drop_until g maxBytes dropped (i # ids) =
     (let trimmed = filter_graph g (insert i dropped)
      in if length (marshal_graph trimmed) \<le> maxBytes then Some (trimmed\<lparr>ig_Truncated := True\<rparr>)
         else drop_until g maxBytes (insert i dropped) ids)"

definition truncate_graph :: "incident_graph \<Rightarrow> nat \<Rightarrow> incident_graph" where
  "truncate_graph g maxBytes =
     (if length (marshal_graph g) \<le> maxBytes then g
      else case drop_until g maxBytes {} (ranked_ids g) of
        Some t \<Rightarrow> t
      | None \<Rightarrow>
          let root = (if rootID g = [] then highestBlastRadiusID g else rootID g)
          in (filter_graph g (nodeIDSetExcept g root))\<lparr>ig_Truncated := True\<rparr>)"

section \<open>Build\<close>

definition incident_id :: "incident_report \<Rightarrow> string" where
  "incident_id r = ''incident:'' @ report_ns r @ ''/'' @ report_name r"

definition root_node :: "incident_report \<Rightarrow> graph_node" where
  "root_node r = (plain_node (incident_id r) ''Incident'' (report_name r) (report_ns r)
     (st_IncidentType (ir_Status r)))\<lparr>gn_IsRoot := True\<rparr>"

definition add_affected :: "string \<Rightarrow> affected_resource \<Rightarrow> draft \<Rightarrow> draft" where
  "add_affected root res d =
     (let (nodes, edges) = d
      in (ns_put (k8s_node (ar_Kind res) (ar_Namespace res) (ar_Name res)) nodes,
          edges @ [plain_edge root (k8sNodeID (ar_Kind res) (ar_Namespace res) (ar_Name res)) ''affects'']))"

definition add_resource_ref :: "string \<Rightarrow> object_ref option \<Rightarrow> draft \<Rightarrow> draft" where
  "add_resource_ref root ref d = (case ref of
     None \<Rightarrow> d
   | Some ref \<Rightarrow>
       if or_Name ref = [] then d
       else let (nodes, edges) = d;
                (fresh, nodes) = ns_add (k8s_node (or_Kind ref) (or_Namespace ref) (or_Name ref)) nodes
            in (nodes, if fresh then edges @
                  [plain_edge root (k8sNodeID (or_Kind ref) (or_Namespace ref) (or_Name ref)) ''affects''] else edges))"

definition add_workload_ref :: "affected_resource list \<Rightarrow> object_ref option \<Rightarrow> draft \<Rightarrow> draft" where
  "add_workload_ref affected ref d = (case ref of
     None \<Rightarrow> d
   | Some ref \<Rightarrow>
       if or_Name ref = [] then d
       else let (nodes, edges) = d; wl = k8sNodeID (or_Kind ref) (or_Namespace ref) (or_Name ref);
                owned = filter (\<lambda>r. ar_Kind r = ''Pod'' \<and> ar_Namespace r = or_Namespace ref) affected
            in (ns_put (k8s_node (or_Kind ref) (or_Namespace ref) (or_Name ref)) nodes,
                edges @ map (\<lambda>r. plain_edge wl (k8sNodeID (ar_Kind r) (ar_Namespace r) (ar_Name r)) ''owns'') owned))"

definition report_draft :: "incident_report \<Rightarrow> draft" where
  "report_draft r =
     (let root = incident_id r; affected = st_AffectedResources (ir_Status r); scope = sp_Scope (ir_Spec r);
          d = (ns_put (root_node r) newNodeSet, []);
          d = fold (add_affected root) affected d;
          d = add_resource_ref root (sc_ResourceRef scope) d
      in add_workload_ref affected (sc_WorkloadRef scope) d)"

record 'fl graph_builder =
  gb_buffer :: "(string \<Rightarrow> entry list) option"
  gb_jaeger :: "(string \<Rightarrow> jaeger_error + 'fl jaeger_trace option) option"

definition buffer_draft :: "'fl graph_builder \<Rightarrow> incident_report \<Rightarrow> string \<Rightarrow> draft \<Rightarrow> draft" where
  "buffer_draft B r traceID d = (case gb_buffer B of
     Some snapshot \<Rightarrow>
       if traceID = [] then d
       else fold (\<lambda>en. enrichFromEvent (incident_id r) (en_Event en)) (snapshot traceID) d
   | None \<Rightarrow> d)"

definition jaeger_draft :: "'fl graph_builder \<Rightarrow> string \<Rightarrow> draft \<Rightarrow> draft" where
  "jaeger_draft B traceID d = (case gb_jaeger B of
     Some get \<Rightarrow>
       if traceID = [] then d
       else (case get traceID of Inr (Some trace) \<Rightarrow> enrichFromJaeger trace d | _ \<Rightarrow> d)
   | None \<Rightarrow> d)"

definition build_draft :: "'fl graph_builder \<Rightarrow> incident_report \<Rightarrow> draft" where
  "build_draft B r =
     (let traceID = report_annotation r ''rca.rca-operator.tech/trace-id''
      in jaeger_draft B traceID (buffer_draft B r traceID (report_draft r)))"

definition draft_graph :: "string \<Rightarrow> draft \<Rightarrow> incident_graph" where
  "draft_graph traceID d =
     (let (nodes, edges) = d
      in computeBlastRadius \<lparr>ig_Nodes = Some (ns_sorted nodes), ig_Edges = Some (dedupEdges edges),
           ig_Truncated = False, ig_Meta = (if traceID = [] then [] else [(''traceID'', traceID)])\<rparr>)"

definition graph_Build :: "'fl graph_builder \<Rightarrow> incident_report \<Rightarrow> incident_graph" where
  "graph_Build B r =
     truncate_graph (draft_graph (report_annotation r ''rca.rca-operator.tech/trace-id'') (build_draft B r)) MaxGraphBytes"

section \<open>Drafts are graphs\<close>

text \<open>The invariant of the node set and of a draft: node_ids are listed once and name their node, exactly
  the node of the incident is marked as root, and every edge joins two nodes.\<close>

definition node_ids :: "node_set \<Rightarrow> string set" where
  "node_ids s = dom (ns_byID s)"

definition ns_ok :: "string \<Rightarrow> node_set \<Rightarrow> bool" where
  "ns_ok root s \<longleftrightarrow> distinct (ns_order s) \<and> set (ns_order s) = node_ids s \<and> root \<in> node_ids s \<and>
     (\<forall>i n. ns_byID s i = Some n \<longrightarrow> gn_ID n = i \<and> (gn_IsRoot n \<longleftrightarrow> i = root))"

definition draft_ok :: "string \<Rightarrow> draft \<Rightarrow> bool" where
  "draft_ok root d \<longleftrightarrow> ns_ok root (fst d) \<and>
     (\<forall>e \<in> set (snd d). ge_From e \<in> node_ids (fst d) \<and> ge_To e \<in> node_ids (fst d))"

definition graph_ok :: "string \<Rightarrow> incident_graph \<Rightarrow> bool" where
  "graph_ok root g \<longleftrightarrow>
     (let ids = map gn_ID (elems (ig_Nodes g))
      in distinct ids \<and> root \<in> set ids \<and> list_all (\<lambda>n. gn_IsRoot n \<longleftrightarrow> gn_ID n = root) (elems (ig_Nodes g)) \<and>
         list_all (\<lambda>e. ge_From e \<in> set ids \<and> ge_To e \<in> set ids) (elems (ig_Edges g)))"

lemma plain_simps [simp]:
  "gn_ID (plain_node i k n ns l) = i" "gn_IsRoot (plain_node i k n ns l) = False"
  "gn_ID (k8s_node k ns n) = k8sNodeID k ns n" "gn_IsRoot (k8s_node k ns n) = False"
  "ge_From (plain_edge a b k) = a" "ge_To (plain_edge a b k) = b"
  "gn_ID (fill_node m m') = gn_ID m" "gn_IsRoot (fill_node m m') = gn_IsRoot m"
  by (simp_all add: plain_node_def plain_edge_def fill_node_def k8s_node_def)

lemma root_apart [simp]:
  "k8sNodeID k ns n \<noteq> incident_id r" "svcID s \<noteq> incident_id r" "''span:'' @ s \<noteq> incident_id r"
  "incident_id r \<noteq> []"
  by (simp_all add: k8sNodeID_def svcID_def incident_id_def)

lemma node_ids_put [simp]: "node_ids (ns_put n s) = insert (gn_ID n) (node_ids s)"
  by (simp add: node_ids_def ns_add_def split: option.splits)

lemma ns_put_ok: "ns_ok root s \<Longrightarrow> gn_ID n \<noteq> root \<Longrightarrow> \<not> gn_IsRoot n \<Longrightarrow> ns_ok root (ns_put n s)"
  by (auto simp: ns_ok_def node_ids_def ns_add_def split: option.splits)

lemma draft_put:
  "draft_ok root (s, es) \<Longrightarrow> gn_ID n \<noteq> root \<Longrightarrow> \<not> gn_IsRoot n \<Longrightarrow> draft_ok root (ns_put n s, es)"
  by (simp add: draft_ok_def ns_put_ok)

lemma draft_edges:
  "draft_ok root (s, es) \<Longrightarrow> (\<And>e. e \<in> set es' \<Longrightarrow> ge_From e \<in> node_ids s \<and> ge_To e \<in> node_ids s) \<Longrightarrow>
     draft_ok root (s, es @ es')"
  unfolding draft_ok_def by auto

lemma draft_root: "draft_ok root d \<Longrightarrow> root \<in> node_ids (fst d)"
  by (simp add: draft_ok_def ns_ok_def)

lemmas draft_intros = draft_put draft_edges

lemma add_affected_ok: "draft_ok (incident_id r) d \<Longrightarrow> draft_ok (incident_id r) (add_affected (incident_id r) res d)"
  using draft_root [of "incident_id r" d]
  by (cases d) (auto simp: add_affected_def intro!: draft_intros)

lemma add_affected_dom:
  "node_ids (fst (fold (add_affected root) rs d)) =
     (\<lambda>r. k8sNodeID (ar_Kind r) (ar_Namespace r) (ar_Name r)) ` set rs \<union> node_ids (fst d)"
  by (induction rs arbitrary: d) (auto simp: add_affected_def split: prod.splits)

text \<open>A node added with the edge that makes it reachable when it is new.\<close>

lemma ns_add_pair: "ns_add n s = (fresh, s') \<Longrightarrow> s' = ns_put n s"
  by simp

lemma draft_fresh:
  assumes "draft_ok root (s, es)" "gn_ID n \<noteq> root" "\<not> gn_IsRoot n" "ns_add n s = (fresh, s')"
  shows "draft_ok root (s', es @ (if fresh then [plain_edge root (gn_ID n) k] else []))"
  unfolding ns_add_pair [OF assms(4)] using assms(1-3) draft_root [OF assms(1)] by (auto intro!: draft_intros)

lemma add_resource_ref_ok:
  assumes "draft_ok (incident_id r) d"
  shows "draft_ok (incident_id r) (add_resource_ref (incident_id r) ref d)"
proof (cases "\<exists>x. ref = Some x \<and> or_Name x \<noteq> []")
  case True
  then obtain x where x: "ref = Some x" "or_Name x \<noteq> []" by blast
  obtain s es where d: "d = (s, es)" by fastforce
  obtain fresh s' where a: "ns_add (k8s_node (or_Kind x) (or_Namespace x) (or_Name x)) s = (fresh, s')" by fastforce
  show ?thesis using draft_fresh [OF assms [unfolded d] _ _ a, of "''affects''"] x a d
    by (auto simp: add_resource_ref_def split: if_splits)
next
  case False
  then show ?thesis using assms by (auto simp: add_resource_ref_def split: option.split)
qed

lemma add_resource_ref_dom: "node_ids (fst d) \<subseteq> node_ids (fst (add_resource_ref root ref d))"
  by (cases d) (auto simp: add_resource_ref_def node_ids_def ns_add_def split: option.splits)

lemma add_workload_ref_ok:
  assumes "draft_ok (incident_id r) d"
    and "\<And>x. x \<in> set rs \<Longrightarrow> k8sNodeID (ar_Kind x) (ar_Namespace x) (ar_Name x) \<in> node_ids (fst d)"
  shows "draft_ok (incident_id r) (add_workload_ref rs ref d)"
proof (cases "\<exists>x. ref = Some x \<and> or_Name x \<noteq> []")
  case True
  then obtain x where x: "ref = Some x" "or_Name x \<noteq> []" by blast
  obtain s es where d: "d = (s, es)" by fastforce
  have "draft_ok (incident_id r) (ns_put (k8s_node (or_Kind x) (or_Namespace x) (or_Name x)) s, es)"
    using assms(1) d by (auto intro!: draft_put)
  then show ?thesis using x d assms(2) by (auto simp: add_workload_ref_def intro!: draft_edges) metis
next
  case False
  then show ?thesis using assms by (auto simp: add_workload_ref_def split: option.split)
qed

lemma report_draft_ok: "draft_ok (incident_id r) (report_draft r)"
proof -
  let ?root = "incident_id r" let ?rs = "st_AffectedResources (ir_Status r)"
  let ?d0 = "(ns_put (root_node r) newNodeSet, [])"
  let ?d1 = "fold (add_affected ?root) ?rs ?d0"
  have "draft_ok ?root ?d0"
    by (auto simp: draft_ok_def ns_ok_def node_ids_def ns_add_def newNodeSet_def root_node_def)
  then have d1: "draft_ok ?root ?d1"
    by (intro fold_invariant [of _ "\<lambda>_. True" "draft_ok ?root"]) (simp_all add: add_affected_ok)
  have "(\<lambda>x. k8sNodeID (ar_Kind x) (ar_Namespace x) (ar_Name x)) ` set ?rs \<subseteq> node_ids (fst (add_resource_ref ?root ref ?d1))" for ref
    using add_resource_ref_dom [of ?d1] by (auto simp: add_affected_dom)
  then show ?thesis unfolding report_draft_def Let_def
    by (intro add_workload_ref_ok add_resource_ref_ok d1) blast
qed

lemma add_event_pod_ok:
  assumes "draft_ok (incident_id r) (s, es)" "svcID svc \<in> node_ids s"
  shows "draft_ok (incident_id r) (add_event_pod (incident_id r) svc pod ns (s, es))"
proof -
  obtain fresh s' where a: "ns_add (k8s_node ''Pod'' ns pod) s = (fresh, s')" by fastforce
  note s' = ns_add_pair [OF a]
  have "draft_ok (incident_id r) (s', es @ (if fresh then [plain_edge (incident_id r) (k8sNodeID ''Pod'' ns pod) ''affects''] else []))"
    using draft_fresh [OF assms(1) _ _ a, of "''affects''"] by (cases fresh) simp_all
  then have "draft_ok (incident_id r) (s', (es @ (if fresh then [plain_edge (incident_id r) (k8sNodeID ''Pod'' ns pod) ''affects''] else [])) @
      [plain_edge (svcID svc) (k8sNodeID ''Pod'' ns pod) ''runs_on''])"
    by (rule draft_edges) (use assms(2) s' in auto)
  then show ?thesis by (simp add: add_event_pod_def a Let_def)
qed

lemma add_event_service_ok:
  assumes "draft_ok (incident_id r) d"
  shows "draft_ok (incident_id r) (add_event_service (incident_id r) svc pod ns d)"
proof (cases d)
  case (Pair s es)
  let ?s = "ns_put (plain_node (svcID svc) ''Service'' svc ns svc) s"
  let ?es = "es @ [plain_edge (incident_id r) (svcID svc) ''affects'']"
  have "draft_ok (incident_id r) (?s, ?es)"
    using assms Pair draft_root [OF assms] by (auto intro!: draft_intros)
  then show ?thesis using assms Pair add_event_pod_ok [of r ?s ?es svc pod ns]
    by (simp add: add_event_service_def Let_def)
qed

lemma enrichFromEvent_ok:
  assumes "draft_ok (incident_id r) d"
  shows "draft_ok (incident_id r) (enrichFromEvent (incident_id r) e d)"
proof -
  have span: "draft_ok (incident_id r) (add_event_span svc sp d')" if "draft_ok (incident_id r) d'" for svc sp d'
    using that root_apart(3) [of sp r] unfolding add_event_span_def by (cases d') (auto intro!: draft_put simp del: append.simps)
  then show ?thesis unfolding enrichFromEvent_def using assms
    by (auto split: option.split intro!: span add_event_service_ok)
qed

text \<open>The trace store: after the spans, every service of a span is a node.\<close>

lemma jaeger_span_step_ok:
  assumes "draft_ok (incident_id r) (fst st)"
  shows "draft_ok (incident_id r) (fst (jaeger_span_step trace sp st)) \<and>
    node_ids (fst (fst st)) \<subseteq> node_ids (fst (fst (jaeger_span_step trace sp st))) \<and>
    (span_service trace sp \<noteq> [] \<longrightarrow> svcID (span_service trace sp) \<in> node_ids (fst (fst (jaeger_span_step trace sp st))))"
proof -
  obtain s es hints where st: "st = ((s, es), hints)" by (metis surj_pair)
  then have ok: "draft_ok (incident_id r) (s, es)" using assms by simp
  show ?thesis unfolding jaeger_span_step_def st
    by (auto simp: Let_def ok intro!: draft_put draft_edges)
qed

lemma jaeger_spans_ok:
  assumes "draft_ok (incident_id r) (fst st)"
  shows "draft_ok (incident_id r) (fst (fold (jaeger_span_step trace) sps st)) \<and>
    node_ids (fst (fst st)) \<subseteq> node_ids (fst (fst (fold (jaeger_span_step trace) sps st))) \<and>
    (\<forall>sp \<in> set sps. span_service trace sp \<noteq> [] \<longrightarrow>
       svcID (span_service trace sp) \<in> node_ids (fst (fst (fold (jaeger_span_step trace) sps st))))"
  using assms
proof (induction sps arbitrary: st)
  case (Cons sp sps)
  note one = jaeger_span_step_ok [OF Cons.prems, of trace sp]
  note rest = Cons.IH [OF conjunct1 [OF one]]
  show ?case using one rest by simp blast
qed simp

lemma spanService_source:
  assumes "spanService trace i \<noteq> []"
  shows "\<exists>sp \<in> set (tr_Spans trace). spanService trace i = span_service trace sp"
proof -
  let ?step = "\<lambda>sp m. m(js_SpanID sp := span_service trace sp)"
  have "fold ?step sps m i = m i \<or> (\<exists>sp \<in> set sps. fold ?step sps m i = span_service trace sp)" for sps m
  proof (induction sps arbitrary: m)
    case (Cons sp sps)
    show ?case using Cons [of "?step sp m"] by (cases "i = js_SpanID sp") auto
  qed simp
  from this [of "tr_Spans trace" "\<lambda>_. []"] show ?thesis using assms unfolding spanService_def by auto
qed

lemma call_edges_services:
  assumes "e \<in> set (call_edges trace sp)"
  shows "\<exists>a b. e = plain_edge (svcID a) (svcID b) ''calls'' \<and> a \<noteq> [] \<and> b \<noteq> [] \<and>
    a \<in> span_service trace ` set (tr_Spans trace) \<and> b \<in> span_service trace ` set (tr_Spans trace)"
proof -
  obtain ref where ref: "ref \<in> set (js_References sp)" "spanService trace (sr_SpanID ref) \<noteq> []" "spanService trace (js_SpanID sp) \<noteq> []"
    "e = plain_edge (svcID (spanService trace (sr_SpanID ref))) (svcID (spanService trace (js_SpanID sp))) ''calls''"
    using assms by (auto simp: call_edges_def map_filter_def Let_def split: if_splits)
  then show ?thesis using spanService_source [OF ref(2)] spanService_source [OF ref(3)] by blast
qed

lemma enrichFromJaeger_ok:
  assumes "draft_ok (incident_id r) d"
  shows "draft_ok (incident_id r) (enrichFromJaeger trace d)"
proof -
  define st where "st = fold (jaeger_span_step trace) (tr_Spans trace) (d, \<lambda>_. [])"
  note ok = jaeger_spans_ok [of r "(d, \<lambda>_. [])" trace "tr_Spans trace", folded st_def]
  have "draft_ok (incident_id r) (fst (fst st), snd (fst st) @ concat (map (call_edges trace) (tr_Spans trace)))"
    using ok assms by (intro draft_edges) (auto dest!: call_edges_services)
  then show ?thesis unfolding enrichFromJaeger_def st_def [symmetric] by (simp add: case_prod_beta Let_def)
qed

lemma build_draft_ok: "draft_ok (incident_id r) (build_draft B r)"
proof -
  have "draft_ok (incident_id r) (buffer_draft B r t (report_draft r))" for t
    unfolding buffer_draft_def
    by (auto split: option.split simp: report_draft_ok
        intro!: fold_invariant [of _ "\<lambda>_. True" "draft_ok (incident_id r)"] enrichFromEvent_ok)
  then show ?thesis unfolding build_draft_def Let_def jaeger_draft_def
    by (auto split: option.split sum.split intro: enrichFromJaeger_ok)
qed

section \<open>From the draft to the graph\<close>

lemma set_dedupEdges [simp]: "set (dedupEdges es) = set es"
proof -
  have "set (dedupEdges_from seen es) = set es - seen" for seen
    by (induction es arbitrary: seen) auto
  then show ?thesis by (simp add: dedupEdges_def)
qed

lemma ns_sorted_nodes:
  assumes "ns_ok root s"
  shows "map gn_ID (ns_sorted s) = ns_order s" "list_all (\<lambda>n. gn_IsRoot n \<longleftrightarrow> gn_ID n = root) (ns_sorted s)"
proof -
  have "map gn_ID (List.map_filter (ns_byID s) xs) = xs \<and>
      list_all (\<lambda>n. gn_IsRoot n \<longleftrightarrow> gn_ID n = root) (List.map_filter (ns_byID s) xs)" if "set xs \<subseteq> node_ids s" for xs
    using that assms by (induction xs) (auto simp: ns_ok_def node_ids_def map_filter_simps)
  moreover have "set (ns_order s) \<subseteq> node_ids s" using assms by (simp add: ns_ok_def)
  ultimately show "map gn_ID (ns_sorted s) = ns_order s" "list_all (\<lambda>n. gn_IsRoot n \<longleftrightarrow> gn_ID n = root) (ns_sorted s)"
    unfolding ns_sorted_def by blast+
qed

lemma blast_node_simps [simp]: "gn_ID (blast_node es n) = gn_ID n" "gn_IsRoot (blast_node es n) = gn_IsRoot n"
  by (simp_all add: blast_node_def Let_def)

lemma map_ID_blast [simp]: "map gn_ID (map (blast_node es) ns) = map gn_ID ns"
  by simp

lemma draft_graph_ok:
  assumes "draft_ok root d"
  shows "graph_ok root (draft_graph t d)"
proof -
  obtain s es where d: "d = (s, es)" by fastforce
  then have ns: "ns_ok root s" using assms by (simp add: draft_ok_def)
  define N where "N = map (blast_node (dedupEdges es)) (ns_sorted s)"
  have node_ids: "map gn_ID N = ns_order s" unfolding N_def map_ID_blast by (rule ns_sorted_nodes(1) [OF ns])
  have root: "list_all (\<lambda>n. gn_IsRoot n \<longleftrightarrow> gn_ID n = root) N"
    using ns_sorted_nodes(2) [OF ns] by (simp add: N_def list_all_iff)
  have "set (ns_order s) = node_ids s" "distinct (ns_order s)" "root \<in> node_ids s" using ns by (simp_all add: ns_ok_def)
  moreover have "list_all (\<lambda>e. ge_From e \<in> node_ids s \<and> ge_To e \<in> node_ids s) (dedupEdges es)"
    using assms d by (simp add: draft_ok_def list_all_iff)
  moreover have "draft_graph t d = \<lparr>ig_Nodes = Some N, ig_Edges = Some (dedupEdges es), ig_Truncated = False,
      ig_Meta = (if t = [] then [] else [(''traceID'', t)])\<rparr>"
    by (simp add: d draft_graph_def computeBlastRadius_def N_def)
  ultimately show ?thesis using root by (simp add: graph_ok_def node_ids del: set_map)
qed

lemma filter_graph_ok:
  assumes "graph_ok root g" "root \<notin> dropped"
  shows "graph_ok root (filter_graph g dropped)"
  using assms by (auto simp: graph_ok_def filter_graph_def Let_def list_all_iff distinct_map intro: inj_on_subset)

lemma truncated_ok [simp]: "graph_ok root (g\<lparr>ig_Truncated := b\<rparr>) = graph_ok root g"
  by (simp add: graph_ok_def)

lemma set_ranked_ids: "set (ranked_ids g) = gn_ID ` {n \<in> set (elems (ig_Nodes g)). \<not> gn_IsRoot n}"
  by (force simp: ranked_ids_def)

text \<open>Every answer of the loop is the graph without a prefix of the ranking, the shortest that fits.\<close>

lemma drop_until_Some:
  "drop_until g m dropped js = Some t \<Longrightarrow>
     \<exists>k. 0 < k \<and> k \<le> length js \<and> t = (filter_graph g (dropped \<union> set (take k js)))\<lparr>ig_Truncated := True\<rparr> \<and>
       length (marshal_graph (filter_graph g (dropped \<union> set (take k js)))) \<le> m \<and>
       (\<forall>j. 0 < j \<and> j < k \<longrightarrow> m < length (marshal_graph (filter_graph g (dropped \<union> set (take j js)))))"
proof (induction js arbitrary: dropped)
  case (Cons i js)
  show ?case
  proof (cases "length (marshal_graph (filter_graph g (insert i dropped))) \<le> m")
    case True
    then show ?thesis using Cons.prems by (intro exI [of _ 1]) (auto simp: Let_def)
  next
    case False
    then have "drop_until g m (insert i dropped) js = Some t" using Cons.prems by (simp add: Let_def)
    from Cons.IH [OF this] obtain k where
      k: "0 < k \<and> k \<le> length js \<and> t = (filter_graph g (insert i dropped \<union> set (take k js)))\<lparr>ig_Truncated := True\<rparr> \<and>
        length (marshal_graph (filter_graph g (insert i dropped \<union> set (take k js)))) \<le> m \<and>
        (\<forall>j. 0 < j \<and> j < k \<longrightarrow> m < length (marshal_graph (filter_graph g (insert i dropped \<union> set (take j js)))))" ..
    have "m < length (marshal_graph (filter_graph g (dropped \<union> set (take j (i # js)))))" if "0 < j" "j < Suc k" for j
    proof (cases "j = 1")
      case False
      then have "0 < j - 1 \<and> j - 1 < k" "take j (i # js) = i # take (j - 1) js" using that by (auto simp: take_Cons')
      then show ?thesis using k by simp
    qed (use False in simp)
    then show ?thesis using k by (intro exI [of _ "Suc k"]) simp
  qed
qed simp

lemma drop_until_None:
  "drop_until g m dropped js = None \<Longrightarrow> 0 < k \<Longrightarrow> k \<le> length js \<Longrightarrow>
     m < length (marshal_graph (filter_graph g (dropped \<union> set (take k js))))"
proof (induction js arbitrary: dropped k)
  case (Cons i js)
  then have "m < length (marshal_graph (filter_graph g (insert i dropped)))" "drop_until g m (insert i dropped) js = None"
    by (auto simp: Let_def split: if_splits)
  then show ?case using Cons.IH [of "insert i dropped" "k - 1"] Cons.prems(2,3)
    by (cases "k = 1") (auto simp: take_Cons' Un_commute)
qed simp

lemma except_root: "graph_ok root g \<Longrightarrow> nodeIDSetExcept g root = set (ranked_ids g)"
  by (force simp: graph_ok_def nodeIDSetExcept_def set_ranked_ids Let_def list_all_iff)

lemma rootID_graph: "graph_ok root g \<Longrightarrow> rootID g = root"
  by (auto simp: graph_ok_def rootID_def Let_def list_all_iff find_None_iff split: option.split dest!: find_SomeD)

text \<open>Truncation drops a prefix of the ranking: nothing when the graph fits, else the shortest
  that makes it fit before the mark is set, else everything but the root.\<close>

lemma truncate_prefix:
  assumes "graph_ok root g" "root \<noteq> []" "m < length (marshal_graph g)"
  obtains k where "k \<le> length (ranked_ids g)"
    "truncate_graph g m = (filter_graph g (set (take k (ranked_ids g))))\<lparr>ig_Truncated := True\<rparr>"
    "length (marshal_graph (filter_graph g (set (take k (ranked_ids g))))) \<le> m \<or> k = length (ranked_ids g)"
    "\<And>j. 0 < j \<Longrightarrow> j < k \<Longrightarrow> m < length (marshal_graph (filter_graph g (set (take j (ranked_ids g)))))"
proof (cases "drop_until g m {} (ranked_ids g)")
  case None
  then have t: "truncate_graph g m = (filter_graph g (set (ranked_ids g)))\<lparr>ig_Truncated := True\<rparr>"
    using assms(2,3) by (simp add: truncate_graph_def rootID_graph [OF assms(1)] except_root [OF assms(1)])
  show ?thesis by (rule that [of "length (ranked_ids g)"]) (use t drop_until_None [OF None] in auto)
next
  case (Some t)
  then have "truncate_graph g m = t" using assms(3) by (simp add: truncate_graph_def)
  then show ?thesis using drop_until_Some [OF Some] that by auto
qed

lemma truncate_graph_ok:
  assumes "graph_ok root g" "root \<noteq> []"
  shows "graph_ok root (truncate_graph g m)"
proof (cases "length (marshal_graph g) \<le> m")
  case False
  then obtain k where k: "truncate_graph g m = (filter_graph g (set (take k (ranked_ids g))))\<lparr>ig_Truncated := True\<rparr>"
    using truncate_prefix [OF assms] by (metis not_less)
  have "root \<notin> set (ranked_ids g)" using assms(1) by (auto simp: set_ranked_ids graph_ok_def Let_def list_all_iff)
  then show ?thesis unfolding k using filter_graph_ok [OF assms(1)] by (auto dest: in_set_takeD)
qed (simp add: truncate_graph_def assms)

section \<open>Size\<close>

lemma truncated_field: "json_string ''truncated'' = quote_mark # ''truncated'' @ [quote_mark]"
  by code_simp

lemma marshal_truncated:
  "\<not> ig_Truncated g \<Longrightarrow> length (marshal_graph (g\<lparr>ig_Truncated := True\<rparr>)) = length (marshal_graph g) + 17"
  by (simp add: marshal_graph_def graph_json_def truncated_field)

lemma filter_not_truncated [simp]: "\<not> ig_Truncated (filter_graph g dropped)"
  by (simp add: filter_graph_def)

lemma root_alone:
  assumes "graph_ok root g"
  shows "map gn_ID (elems (ig_Nodes (filter_graph g (set (ranked_ids g))))) = [root]"
proof -
  let ?ns = "elems (ig_Nodes g)"
  have keep: "gn_ID n \<notin> set (ranked_ids g) \<longleftrightarrow> gn_ID n = root" if "n \<in> set ?ns" for n
    using that assms except_root [OF assms] by (auto simp: nodeIDSetExcept_def)
  have "map gn_ID (filter (\<lambda>n. gn_ID n = root) ?ns) = filter (\<lambda>i. i = root) (map gn_ID ?ns)" by (simp add: filter_map comp_def)
  moreover have "filter (\<lambda>i. i = root) xs = [root]" if "distinct xs" "root \<in> set xs" for xs
    using that by (induction xs) (auto simp: filter_empty_conv)
  moreover have "filter (\<lambda>n. gn_ID n \<notin> set (ranked_ids g)) ?ns = filter (\<lambda>n. gn_ID n = root) ?ns"
    using keep by (intro filter_cong) auto
  ultimately show ?thesis using assms by (simp add: filter_graph_def graph_ok_def Let_def)
qed

lemma ranked_heavier:
  assumes "graph_ok root g" "n \<in> set (elems (ig_Nodes g))" "gn_ID n \<notin> set (take k (ranked_ids g))" "\<not> gn_IsRoot n"
    and "m \<in> set (elems (ig_Nodes g))" "gn_ID m \<in> set (take k (ranked_ids g))"
  shows "gn_BlastRadius m \<le> gn_BlastRadius n"
proof -
  define ks where "ks = sort (map (\<lambda>n. (gn_BlastRadius n, gn_ID n)) (filter (\<lambda>n. \<not> gn_IsRoot n) (elems (ig_Nodes g))))"
  have node_ids: "ranked_ids g = map snd ks" by (simp add: ranked_ids_def ks_def)
  have inj: "x = y" if "x \<in> set (elems (ig_Nodes g))" "y \<in> set (elems (ig_Nodes g))" "gn_ID x = gn_ID y" for x y
    using that assms(1) by (auto simp: graph_ok_def Let_def distinct_map dest: inj_onD)
  obtain b where "(b, gn_ID m) \<in> set (take k ks)" using assms(6) node_ids by (auto simp: take_map)
  moreover then have "(b, gn_ID m) \<in> set ks" by (rule in_set_takeD)
  then have "b = gn_BlastRadius m" using inj assms(5) by (auto simp: ks_def)
  moreover have "(gn_BlastRadius n, gn_ID n) \<in> set ks" using assms(2,4) by (auto simp: ks_def)
  then have "(gn_BlastRadius n, gn_ID n) \<in> set (take k ks) \<or> (gn_BlastRadius n, gn_ID n) \<in> set (drop k ks)"
    unfolding set_append [symmetric] Un_iff [symmetric] append_take_drop_id .
  then have "(gn_BlastRadius n, gn_ID n) \<in> set (drop k ks)"
    using assms(3) node_ids by (force simp: take_map)
  moreover have "sorted (take k ks @ drop k ks)" by (simp add: ks_def)
  ultimately have "(gn_BlastRadius m, gn_ID m) \<le> (gn_BlastRadius n, gn_ID n)" unfolding sorted_append by blast
  then show ?thesis by (auto simp: less_eq_prod_def)
qed

lemma graph_Build_wf: "graph_ok (incident_id r) (graph_Build B r)"
  unfolding graph_Build_def by (intro truncate_graph_ok draft_graph_ok build_draft_ok) simp

section \<open>Properties\<close>

text \<open>C14.
  Whatever report, buffer and trace store answer, the graph the builder returns is well formed:
  node ids are distinct, the incident is a node and the only one marked as root, and every edge
  joins two nodes of the graph. Truncation included: no edge is left dangling.
\<close>

theorem graph_Build_ok: "graph_ok (incident_id r) (graph_Build B r)"
  by (rule graph_Build_wf)

lemma truncate_cut:
  assumes "graph_ok root g" "root \<noteq> []" "m < length (marshal_graph g)"
  shows "\<exists>k \<le> length (ranked_ids g). let t = truncate_graph g m; cut = set (take k (ranked_ids g)) in
     t = (filter_graph g cut)\<lparr>ig_Truncated := True\<rparr> \<and>
     list_all (\<lambda>j. m < length (marshal_graph (filter_graph g (set (take j (ranked_ids g)))))) [1..<k] \<and>
     list_all (\<lambda>a. list_all (\<lambda>b. gn_BlastRadius a \<le> gn_BlastRadius b)
         (filter (\<lambda>b. gn_ID b \<notin> cut \<and> \<not> gn_IsRoot b) (elems (ig_Nodes g))))
       (filter (\<lambda>a. gn_ID a \<in> cut) (elems (ig_Nodes g))) \<and>
     (length (marshal_graph t) \<le> m + 17 \<or> map gn_ID (elems (ig_Nodes t)) = [root])"
proof -
  obtain k where k: "k \<le> length (ranked_ids g)"
    "truncate_graph g m = (filter_graph g (set (take k (ranked_ids g))))\<lparr>ig_Truncated := True\<rparr>"
    "length (marshal_graph (filter_graph g (set (take k (ranked_ids g))))) \<le> m \<or> k = length (ranked_ids g)"
    "\<And>j. 0 < j \<Longrightarrow> j < k \<Longrightarrow> m < length (marshal_graph (filter_graph g (set (take j (ranked_ids g)))))"
    by (rule truncate_prefix [OF assms]) (rule that)
  have "length (marshal_graph (truncate_graph g m)) \<le> m + 17 \<or> map gn_ID (elems (ig_Nodes (truncate_graph g m))) = [root]"
    using k(3) root_alone [OF assms(1)] unfolding k(2) by (auto simp: marshal_truncated)
  moreover have "gn_BlastRadius a \<le> gn_BlastRadius b" if "a \<in> set (elems (ig_Nodes g))" "gn_ID a \<in> set (take k (ranked_ids g))"
      "b \<in> set (elems (ig_Nodes g))" "gn_ID b \<notin> set (take k (ranked_ids g))" "\<not> gn_IsRoot b" for a b
    using ranked_heavier [OF assms(1)] that by blast
  ultimately show ?thesis using k by (intro exI [of _ k] conjI) (simp_all add: Let_def list_all_iff)
qed

text \<open>
  A graph beyond 64 KiB is cut by a prefix of the ranking by blast radius, the shortest after
  which the text fits: no shorter prefix would do, and no node is dropped while a lighter one
  that is not the incident stays. The result may exceed the limit by the seventeen bytes of the
  truncation mark, which is set after measuring, unless only the incident is left.
\<close>

theorem graph_Build_cut:
  "let g = draft_graph (report_annotation r ''rca.rca-operator.tech/trace-id'') (build_draft B r); t = graph_Build B r in
   length (marshal_graph g) \<le> MaxGraphBytes \<and> t = g \<or>
   (\<exists>k \<le> length (ranked_ids g). let cut = set (take k (ranked_ids g)) in
     t = (filter_graph g cut)\<lparr>ig_Truncated := True\<rparr> \<and>
     list_all (\<lambda>j. MaxGraphBytes < length (marshal_graph (filter_graph g (set (take j (ranked_ids g)))))) [1..<k] \<and>
     list_all (\<lambda>a. list_all (\<lambda>b. gn_BlastRadius a \<le> gn_BlastRadius b)
         (filter (\<lambda>b. gn_ID b \<notin> cut \<and> \<not> gn_IsRoot b) (elems (ig_Nodes g))))
       (filter (\<lambda>a. gn_ID a \<in> cut) (elems (ig_Nodes g))) \<and>
     (length (marshal_graph t) \<le> MaxGraphBytes + 17 \<or> map gn_ID (elems (ig_Nodes t)) = [incident_id r]))"
proof -
  define g where "g = draft_graph (report_annotation r ''rca.rca-operator.tech/trace-id'') (build_draft B r)"
  have ok: "graph_ok (incident_id r) g" unfolding g_def by (intro draft_graph_ok build_draft_ok)
  have t: "graph_Build B r = truncate_graph g MaxGraphBytes" by (simp add: graph_Build_def g_def)
  show ?thesis unfolding g_def [symmetric] Let_def t
    using truncate_cut [OF ok, of MaxGraphBytes]
    by (cases "length (marshal_graph g) \<le> MaxGraphBytes") (simp_all add: truncate_graph_def [of g MaxGraphBytes] Let_def)
qed

text \<open>The overshoot happens: a cut graph longer than the limit, with more than the incident left.\<close>

definition overshoot_graph :: incident_graph where
  "overshoot_graph = \<lparr>ig_Nodes = Some [(plain_node ''r'' [] [] [] [])\<lparr>gn_IsRoot := True\<rparr>, plain_node ''a'' [] [] [] [],
      (plain_node ''b'' [] [] [] [])\<lparr>gn_BlastRadius := 1\<rparr>],
     ig_Edges = None, ig_Truncated = False, ig_Meta = []\<rparr>"

lemma truncate_overshoots:
  "let t = truncate_graph overshoot_graph 140 in 140 < length (marshal_graph t) \<and> length (elems (ig_Nodes t)) = 2"
  by code_simp

section \<open>The controller's graph\<close>

text \<open>The builder as the lifecycle controller takes it: its answer always has a node, so the text
  stored on the report is that of the graph.\<close>

definition graph_answer_of :: "'fl graph_builder \<Rightarrow> incident_report \<Rightarrow> 'w \<Rightarrow> graph_answer" where
  "graph_answer_of B r w = BuiltGraph (length (elems (ig_Nodes (graph_Build B r)))) (Some (marshal_graph (graph_Build B r)))"

lemma controller_graph:
  "buildIncidentGraph (C\<lparr>rv_graph := Some (graph_answer_of B)\<rparr>) r w = Some (marshal_graph (graph_Build B r))"
  using graph_Build_wf [of r B] by (auto simp: buildIncidentGraph_def graph_answer_of_def graph_ok_def Let_def)

end
