(* ===== verification/Incident_List.thy ===== *)
theory Incident_List
  imports Reporter Agent_Spec Incident_Graph Go_Text Json_Cache
begin

text \<open>
  The incident list, statistics, rules and timeline of the dashboard
  (\<open>internal/dashboard/server.go\<close>). The API server is read through the environment \<open>D\<close>; decoding
  a stored graph, the text of an age and the iteration order of Go maps are parameters of it too.
\<close>

record dash_env =
  dv_reports :: "string \<Rightarrow> kerr + incident_report list"
  dv_get_report :: "string \<Rightarrow> string \<Rightarrow> kerr + incident_report"
  dv_agents :: "kerr + rca_agent list"
  dv_rules :: "kerr + correlation_rule list"
  dv_selector :: "(string \<rightharpoonup> string) \<Rightarrow> (string \<times> string) list"
  dv_unmarshal :: "string \<Rightarrow> incident_graph option"
  dv_age :: "gotime \<Rightarrow> string"
  dv_range :: "string list \<Rightarrow> string list"

section \<open>Incidents\<close>

record incident_response =
  ix_Name :: string
  ix_Namespace :: string
  ix_Fingerprint :: string
  ix_PodName :: string
  ix_Severity :: string
  ix_Phase :: string
  ix_IncidentType :: string
  ix_Summary :: string
  ix_Reason :: string
  ix_Message :: string
  ix_Notified :: bool
  ix_FirstObservedAt :: "gotime option"
  ix_ActiveAt :: "gotime option"
  ix_LastObservedAt :: "gotime option"
  ix_ResolvedAt :: "gotime option"
  ix_SignalCount :: int
  ix_Scope :: incident_scope
  ix_AffectedResources :: "affected_resource list"
  ix_CorrelatedSignals :: "string list"
  ix_Timeline :: "timeline_event list"
  ix_AgentRef :: string
  ix_LastSeen :: string
  ix_TraceID :: string
  ix_TraceIDs :: "string list"
  ix_FiredRule :: string
  ix_HasTopology :: bool

text \<open>\<open>parseTraceIDCSV\<close> is a copy of the reporter's function.\<close>

definition collectTraceIDs :: "(string \<rightharpoonup> string) \<Rightarrow> string list" where
  "collectTraceIDs annotations =
     (let ids = parseTraceIDCSV (map_get annotations AnnotationTraceIDs);
          single = trim_space (map_get annotations AnnotationTraceID)
      in if single \<noteq> [] \<and> single \<notin> set ids then ids @ [single] else ids)"

definition hasRenderableIncidentTopology :: "dash_env \<Rightarrow> incident_report \<Rightarrow> bool" where
  "hasRenderableIncidentTopology D item = (case st_IncidentGraph (ir_Status item) of None \<Rightarrow> False
   | Some raw \<Rightarrow> if raw = [] then False
       else (case dv_unmarshal D raw of None \<Rightarrow> False
             | Some g \<Rightarrow>
                 let services = remdups (map gn_ID (filter (\<lambda>n. gn_Kind n = ''Service'' \<and> gn_ID n \<noteq> []) (elems (ig_Nodes g))))
                 in 2 \<le> length services \<and>
                    list_ex (\<lambda>e. ge_Kind e = ''calls'' \<and> ge_From e \<noteq> ge_To e \<and>
                       ge_From e \<in> set services \<and> ge_To e \<in> set services) (elems (ig_Edges g))))"

definition toIncidentResponse :: "dash_env \<Rightarrow> incident_report \<Rightarrow> incident_response" where
  "toIncidentResponse D item =
     (let st = ir_Status item; traceIDs = collectTraceIDs (om_Annotations (ir_Meta item));
          traceID = trim_space (report_annotation item AnnotationTraceID)
      in \<lparr>ix_Name = report_name item, ix_Namespace = report_ns item, ix_Fingerprint = reportFingerprint item,
          ix_PodName = report_label item LabelPodName, ix_Severity = st_Severity st, ix_Phase = st_Phase st,
          ix_IncidentType = sp_IncidentType (ir_Spec item), ix_Summary = st_Summary st, ix_Reason = st_Reason st,
          ix_Message = st_Message st, ix_Notified = st_Notified st,
          ix_FirstObservedAt = (case EffectiveStartTime st of Some t \<Rightarrow> Some t | None \<Rightarrow> st_FirstObservedAt st),
          ix_ActiveAt = st_ActiveAt st, ix_LastObservedAt = st_LastObservedAt st, ix_ResolvedAt = EffectiveResolvedTime st,
          ix_SignalCount = st_SignalCount st, ix_Scope = sp_Scope (ir_Spec item),
          ix_AffectedResources = st_AffectedResources st, ix_CorrelatedSignals = st_CorrelatedSignals st,
          ix_Timeline = st_Timeline st, ix_AgentRef = sp_AgentRef (ir_Spec item),
          ix_LastSeen = report_annotation item AnnotationLastSeen,
          ix_TraceID = (if traceID = [] \<and> traceIDs \<noteq> [] then last traceIDs else traceID), ix_TraceIDs = traceIDs,
          ix_FiredRule = trim_space (report_annotation item AnnotationFiredRule),
          ix_HasTopology = hasRenderableIncidentTopology D item\<rparr>)"

section \<open>Selection and order\<close>

definition parsePositiveInt :: "string \<Rightarrow> int \<Rightarrow> int" where
  "parsePositiveInt raw fallback = (if raw = [] then fallback
     else case atoi raw of None \<Rightarrow> fallback | Some n \<Rightarrow> if n < 0 then fallback else n)"

definition dash_severityRank :: "string \<Rightarrow> int" where
  "dash_severityRank severity = (if severity = ''P1'' then 4 else if severity = ''P2'' then 3 else if severity = ''P3'' then 2 else 1)"

definition incidentTimestamp :: "incident_response \<Rightarrow> gotime" where
  "incidentTimestamp item = (case ix_FirstObservedAt item of Some t \<Rightarrow> t
     | None \<Rightarrow> (case ix_ResolvedAt item of Some t \<Rightarrow> t | None \<Rightarrow> 0))"

definition sortIncidentResponses :: "string \<Rightarrow> incident_response list \<Rightarrow> incident_response list" where
  "sortIncidentResponses sortBy items =
     (if sortBy = ''oldest'' then sort_key incidentTimestamp items
      else if sortBy = ''severity'' then sort_key (\<lambda>i. (- dash_severityRank (ix_Severity i), - incidentTimestamp i)) items
      else sort_key (\<lambda>i. - incidentTimestamp i) items)"

definition matchesIncidentQuery :: "incident_report \<Rightarrow> string \<Rightarrow> bool" where
  "matchesIncidentQuery item query \<longleftrightarrow>
     list_ex (\<lambda>field. str_contains (to_lower field) query)
       ([report_name item, report_ns item, sp_AgentRef (ir_Spec item), sp_IncidentType (ir_Spec item),
         st_Summary (ir_Status item), st_Message (ir_Status item), st_Reason (ir_Status item)] @
        concat (map (\<lambda>r. [ar_Kind r, ar_Name r, ar_Namespace r]) (st_AffectedResources (ir_Status item))))"

section \<open>Duplicates of OTel incidents\<close>

definition isLowerAlnum :: "string \<Rightarrow> bool" where
  "isLowerAlnum value \<longleftrightarrow> list_all (\<lambda>r. is_lower r \<or> is_digit r) value \<and> value \<noteq> []"

definition looksLikeKubernetesPodSuffix :: "string \<Rightarrow> bool" where
  "looksLikeKubernetesPodSuffix value \<longleftrightarrow> length value = 5 \<and> isLowerAlnum value"

definition dash_looksLikeReplicaSetHash :: "string \<Rightarrow> bool" where
  "dash_looksLikeReplicaSetHash value \<longleftrightarrow> 8 \<le> length value \<and> length value \<le> 10 \<and> isLowerAlnum value"

definition normalizeOTelTargetName :: "string \<Rightarrow> string \<Rightarrow> string" where
  "normalizeOTelTargetName kind name =
     (if kind \<noteq> ''Pod'' then name
      else let parts = str_split (CHR ''-'') name; n = length parts
           in if n < 3 then name
              else if \<not> looksLikeKubernetesPodSuffix (parts ! (n - 1)) \<or> \<not> dash_looksLikeReplicaSetHash (parts ! (n - 2)) then name
              else str_join ''-'' (take (n - 2) parts))"

abbreviation first_nonempty :: "string \<Rightarrow> string \<Rightarrow> string" where
  "first_nonempty a b \<equiv> (if a = [] then b else a)"

definition otel_target :: "string \<Rightarrow> string \<Rightarrow> string \<Rightarrow> string" where
  "otel_target ns kind name = str_join ''/'' [ns, ''otel-target'', normalizeOTelTargetName kind name]"

definition named_ref :: "object_ref option \<Rightarrow> object_ref option" where
  "named_ref ref = (case ref of None \<Rightarrow> None | Some r \<Rightarrow> if or_Name r = [] then None else Some r)"

definition incidentScopeKey :: "incident_response \<Rightarrow> string" where
  "incidentScopeKey item =
     (let sc = ix_Scope item;
          ref = (case named_ref (sc_WorkloadRef sc) of Some r \<Rightarrow> Some r | None \<Rightarrow> named_ref (sc_ResourceRef sc))
      in case ref of
           Some r \<Rightarrow> otel_target (first_nonempty (or_Namespace r) (first_nonempty (sc_Namespace sc) (ix_Namespace item)))
                       (or_Kind r) (or_Name r)
         | None \<Rightarrow>
             (case find (\<lambda>res. ar_Name res \<noteq> [] \<and> ar_Kind res \<in> {''Deployment'', ''StatefulSet'', ''DaemonSet'', ''ReplicaSet'',
                     ''Job'', ''CronJob'', ''Service'', ''Pod''}) (ix_AffectedResources item) of
                None \<Rightarrow> []
              | Some res \<Rightarrow> otel_target (first_nonempty (ar_Namespace res) (ix_Namespace item)) (ar_Kind res) (ar_Name res)))"

definition duplicateOTelIncidentKey :: "incident_response \<Rightarrow> string" where
  "duplicateOTelIncidentKey item =
     (if \<not> IsOTelIncidentType (ix_IncidentType item) then []
      else let key = incidentScopeKey item
           in if key \<noteq> [] then key
              else if ix_Fingerprint item \<noteq> [] then ix_Namespace item @ ''/fingerprint/'' @ ix_Fingerprint item else [])"

definition incidentResponseLastTime :: "incident_response \<Rightarrow> gotime" where
  "incidentResponseLastTime item =
     (case ix_LastObservedAt item of Some t \<Rightarrow> t | None \<Rightarrow>
       (case ix_ActiveAt item of Some t \<Rightarrow> t | None \<Rightarrow>
         (case ix_FirstObservedAt item of Some t \<Rightarrow> t | None \<Rightarrow>
           (case ix_ResolvedAt item of Some t \<Rightarrow> t | None \<Rightarrow> 0))))"

definition preferIncidentListItem :: "incident_response \<Rightarrow> incident_response \<Rightarrow> bool" where
  "preferIncidentListItem candidate current =
     (let candidateOpen = (ix_Phase candidate \<noteq> ''Resolved''); currentOpen = (ix_Phase current \<noteq> ''Resolved'');
          cs = dash_severityRank (ix_Severity candidate); rs = dash_severityRank (ix_Severity current)
      in if candidateOpen \<noteq> currentOpen then candidateOpen
         else if cs \<noteq> rs then rs < cs
         else time_after (incidentResponseLastTime candidate) (incidentResponseLastTime current))"

text \<open>The loop of \<open>collapseDuplicateOTelIncidents\<close>, with its map from keys to places.\<close>

definition collapse_step ::
    "incident_response \<Rightarrow> incident_response list \<times> (string \<rightharpoonup> nat) \<Rightarrow> incident_response list \<times> (string \<rightharpoonup> nat)" where
  "collapse_step item acc =
     (let (out, indexByKey) = acc; key = duplicateOTelIncidentKey item
      in if key = [] then (out @ [item], indexByKey)
         else case indexByKey key of
                Some idx \<Rightarrow> (if preferIncidentListItem item (out ! idx) then out[idx := item] else out, indexByKey)
              | None \<Rightarrow> (out @ [item], indexByKey(key \<mapsto> length out)))"

definition collapseDuplicateOTelIncidents :: "incident_response list \<Rightarrow> incident_response list" where
  "collapseDuplicateOTelIncidents items =
     (if length items \<le> 1 then items else fst (fold collapse_step items ([], Map.empty)))"

section \<open>The list of incidents\<close>

record incident_query =
  iq_namespace :: string
  iq_phase :: string
  iq_severity :: string
  iq_type :: string
  iq_query :: string
  iq_limit :: string
  iq_offset :: string
  iq_sort :: string

text \<open>The text searched for, and the key under which the page is cached.\<close>

definition query_text :: "incident_query \<Rightarrow> string" where
  "query_text q = to_lower (trim_space (iq_query q))"

definition query_sort :: "incident_query \<Rightarrow> string" where
  "query_sort q = (if iq_sort q = [] then ''newest'' else iq_sort q)"

definition incidents_key :: "incident_query \<Rightarrow> string" where
  "incidents_key q = ''incidents|'' @ iq_namespace q @ ''|'' @ iq_phase q @ ''|'' @ iq_severity q @ ''|'' @ iq_type q @
     ''|'' @ query_text q @ ''|'' @ query_sort q @ ''|l='' @ itoa (parsePositiveInt (iq_limit q) 500) @
     ''|o='' @ itoa (parsePositiveInt (iq_offset q) 0)"

text \<open>The slice shown: \<open>None\<close> is the panic of a slice expression out of bounds.\<close>

definition incident_page :: "int \<Rightarrow> int \<Rightarrow> 'a list \<Rightarrow> 'a list option" where
  "incident_page limit offset result =
     (let n = int (length result);
          offset = (if n < offset then n else offset);
          stop = (if 0 < limit \<and> wrap64 (offset + limit) < n then wrap64 (offset + limit) else n)
      in if 0 \<le> offset \<and> offset \<le> stop then Some (take (nat (stop - offset)) (drop (nat offset) result)) else None)"

definition incident_selected :: "incident_query \<Rightarrow> incident_report \<Rightarrow> bool" where
  "incident_selected q item \<longleftrightarrow>
     \<not> (iq_phase q \<noteq> [] \<and> st_Phase (ir_Status item) \<noteq> iq_phase q) \<and>
     \<not> (iq_severity q \<noteq> [] \<and> st_Severity (ir_Status item) \<noteq> iq_severity q) \<and>
     \<not> (iq_type q \<noteq> [] \<and> sp_IncidentType (ir_Spec item) \<noteq> iq_type q) \<and>
     \<not> (query_text q \<noteq> [] \<and> \<not> matchesIncidentQuery item (query_text q))"

datatype 'a build_answer = BuildFailed kerr | BuildPanic | BuildDone 'a

definition incidents_build :: "dash_env \<Rightarrow> incident_query \<Rightarrow> incident_response list build_answer" where
  "incidents_build D q = (case dv_reports D (iq_namespace q) of
     Inl err \<Rightarrow> BuildFailed err
   | Inr items \<Rightarrow>
       (let result = map (toIncidentResponse D) (filter (incident_selected q) items);
            result = collapseDuplicateOTelIncidents (sortIncidentResponses (query_sort q) result)
        in case incident_page (parsePositiveInt (iq_limit q) 500) (parsePositiveInt (iq_offset q) 0) result of
             None \<Rightarrow> BuildPanic | Some page \<Rightarrow> BuildDone page))"

section \<open>Statistics\<close>

record namespace_stats =
  nst_Active :: nat
  nst_Monitored :: bool

record agent_info =
  ai_Name :: string
  ai_WatchNamespaces :: "string list"
  ai_Healthy :: bool

record stats_response =
  sr_Active :: nat
  sr_Detecting :: nat
  sr_Resolved :: nat
  sr_Namespaces :: "string \<rightharpoonup> namespace_stats"
  sr_Agents :: "agent_info list"

definition stats_namespace :: "incident_report \<Rightarrow> (string \<rightharpoonup> namespace_stats) \<Rightarrow> (string \<rightharpoonup> namespace_stats)" where
  "stats_namespace item m =
     (let ns = report_ns item; entry = (case m ns of Some e \<Rightarrow> e | None \<Rightarrow> \<lparr>nst_Active = 0, nst_Monitored = False\<rparr>)
      in if report_phase item = ''Active'' \<or> report_phase item = ''Detecting''
         then m(ns \<mapsto> entry\<lparr>nst_Active := Suc (nst_Active entry)\<rparr>)
         else if m ns = None then m(ns \<mapsto> \<lparr>nst_Active = 0, nst_Monitored = False\<rparr>) else m)"

definition mark_monitored :: "string \<Rightarrow> (string \<rightharpoonup> namespace_stats) \<Rightarrow> (string \<rightharpoonup> namespace_stats)" where
  "mark_monitored ns m = (let entry = (case m ns of Some e \<Rightarrow> e | None \<Rightarrow> \<lparr>nst_Active = 0, nst_Monitored = False\<rparr>)
     in m(ns \<mapsto> entry\<lparr>nst_Monitored := True\<rparr>))"

definition agent_health :: "rca_agent \<Rightarrow> bool" where
  "agent_health a = (case find (\<lambda>c. ac_Type c = ''Available'') (aa_Conditions a) of None \<Rightarrow> True | Some c \<Rightarrow> ac_Status c = ''True'')"

text \<open>Agents are listed once per name, the last of a name giving the details. The namespaces of the
  agents are marked twice by the code, to the same effect.\<close>

definition stats_of :: "dash_env \<Rightarrow> incident_report list \<Rightarrow> rca_agent list \<Rightarrow> stats_response" where
  "stats_of D items agents =
     (let count = (\<lambda>p. length (filter (\<lambda>i. report_phase i = p) items));
          names = remdups (filter (\<lambda>n. n \<noteq> []) (map (\<lambda>i. sp_AgentRef (ir_Spec i)) items) @ map aa_Name agents);
          agentMap = fold (\<lambda>a m. m(aa_Name a \<mapsto> a)) agents Map.empty;
          watched = concat (map (\<lambda>a. ag_WatchNamespaces (aa_Spec a)) agents)
      in \<lparr>sr_Active = count ''Active'', sr_Detecting = count ''Detecting'', sr_Resolved = count ''Resolved'',
          sr_Namespaces = fold mark_monitored watched (fold mark_monitored watched (fold stats_namespace items Map.empty)),
          sr_Agents = map (\<lambda>name. case agentMap name of
              None \<Rightarrow> \<lparr>ai_Name = name, ai_WatchNamespaces = [], ai_Healthy = True\<rparr>
            | Some a \<Rightarrow> \<lparr>ai_Name = name, ai_WatchNamespaces = ag_WatchNamespaces (aa_Spec a), ai_Healthy = agent_health a\<rparr>)
            (dv_range D names)\<rparr>)"

definition computeStats :: "dash_env \<Rightarrow> kerr + stats_response" where
  "computeStats D = (case dv_reports D [] of Inl err \<Rightarrow> Inl err
   | Inr items \<Rightarrow> Inr (stats_of D items (case dv_agents D of Inl _ \<Rightarrow> [] | Inr agents \<Rightarrow> agents)))"

section \<open>Rules\<close>

record rule_response =
  rr_Name :: string
  rr_Priority :: int
  rr_TriggerEvent :: string
  rr_Conditions :: "string list"
  rr_FiresType :: string
  rr_FiresSeverity :: string
  rr_AgentSelector :: string
  rr_Age :: string
  rr_AutoGenerated :: bool

definition rule_row :: "dash_env \<Rightarrow> correlation_rule \<Rightarrow> rule_response" where
  "rule_row D rule =
     (let sp = ru_Spec rule; parts = (case rs_AgentSelector sp of None \<Rightarrow> []
            | Some sel \<Rightarrow> map (\<lambda>(k, v). k @ ''='' @ v) (dv_selector D (lsel_MatchLabels sel)))
      in \<lparr>rr_Name = om_Name (ru_Meta rule), rr_Priority = rs_Priority sp, rr_TriggerEvent = rs_TriggerEventType sp,
          rr_Conditions = map (\<lambda>c. (if rc_Negate c then ''NOT '' else []) @ rc_EventType c @ '' on '' @ rc_Scope c) (rs_Conditions sp),
          rr_FiresType = rf_IncidentType (rs_Fires sp), rr_FiresSeverity = rf_Severity (rs_Fires sp),
          rr_AgentSelector = (if parts = [] then ''all'' else str_join '','' parts),
          rr_Age = dv_age D (om_CreationTimestamp (ru_Meta rule)),
          rr_AutoGenerated = (map_get (om_Labels (ru_Meta rule)) ''rca.rca-operator.tech/auto-generated'' = ''true'')\<rparr>)"

definition computeRules :: "dash_env \<Rightarrow> kerr + rule_response list" where
  "computeRules D = (case dv_rules D of Inl err \<Rightarrow> Inl err
     | Inr rules \<Rightarrow> Inr (sort_key (\<lambda>r. - rr_Priority r) (map (rule_row D) rules)))"

section \<open>Timeline\<close>

record timeline_row =
  tw_Time :: gotime
  tw_Event :: string
  tw_Phase :: string
  tw_IncidentName :: string
  tw_Namespace :: string

definition timeline_rows :: "incident_report \<Rightarrow> timeline_row list" where
  "timeline_rows item =
     (let st = ir_Status item;
          row = (\<lambda>phase event t. \<lparr>tw_Time = t, tw_Event = event, tw_Phase = phase, tw_IncidentName = report_name item,
                   tw_Namespace = report_ns item\<rparr>);
          opt = (\<lambda>phase event t. case t of None \<Rightarrow> [] | Some t \<Rightarrow> [row phase event t])
      in map (\<lambda>te. row (st_Phase st) (tl_Event te) (tl_Time te)) (st_Timeline st) @
         opt ''Detecting'' ''Incident detected'' (st_FirstObservedAt st) @
         opt ''Active'' ''Incident activated'' (st_ActiveAt st) @
         opt ''Resolved'' ''Incident resolved'' (EffectiveResolvedTime st))"

definition same_row :: "timeline_row \<Rightarrow> timeline_row \<Rightarrow> bool" where
  "same_row a b \<longleftrightarrow> tw_Time a = tw_Time b \<and> tw_Event a = tw_Event b \<and> tw_IncidentName a = tw_IncidentName b"

fun dedup_rows :: "timeline_row \<Rightarrow> timeline_row list \<Rightarrow> timeline_row list" where
  "dedup_rows prev [] = [prev]"
| "dedup_rows prev (e # es) = (if same_row e prev then dedup_rows prev es else prev # dedup_rows e es)"

definition timeline_of :: "string \<Rightarrow> incident_report list \<Rightarrow> timeline_row list" where
  "timeline_of fingerprint items =
     (let entries = sort_key tw_Time (concat (map timeline_rows (filter (\<lambda>i. sp_Fingerprint (ir_Spec i) = fingerprint) items)))
      in case entries of [] \<Rightarrow> [] | e # es \<Rightarrow> dedup_rows e es)"

datatype 'a http_reply = HttpError string nat | HttpOk 'a

definition handleTimeline :: "dash_env \<Rightarrow> string \<Rightarrow> string \<Rightarrow> timeline_row list http_reply" where
  "handleTimeline D method fingerprint =
     (if method \<noteq> ''GET'' then HttpError ''method not allowed'' 405
      else if fingerprint = [] then HttpError ''fingerprint query parameter is required'' 400
      else case dv_reports D [] of Inl _ \<Rightarrow> HttpError ''failed to list incidents'' 500
           | Inr items \<Rightarrow> HttpOk (timeline_of fingerprint items))"

section \<open>The representative of a group\<close>

text \<open>What is preferred: open before resolved, then the severity, then the last time.\<close>

definition list_rank :: "incident_response \<Rightarrow> bool \<times> int \<times> gotime" where
  "list_rank i = (ix_Phase i \<noteq> ''Resolved'', dash_severityRank (ix_Severity i), incidentResponseLastTime i)"

lemma prefer_rank: "preferIncidentListItem a b \<longleftrightarrow> list_rank b < list_rank a"
  by (auto simp: preferIncidentListItem_def list_rank_def time_after_def Let_def less_prod_def')

abbreviation dup_key :: "incident_response \<Rightarrow> string" where
  "dup_key \<equiv> duplicateOTelIncidentKey"

definition collapse_ok :: "incident_response list \<Rightarrow> incident_response list \<Rightarrow> (string \<rightharpoonup> nat) \<Rightarrow> bool" where
  "collapse_ok done out idx \<longleftrightarrow>
     (\<forall>k i. idx k = Some i \<longrightarrow> k \<noteq> [] \<and> i < length out \<and> dup_key (out ! i) = k) \<and>
     (\<forall>i < length out. dup_key (out ! i) \<noteq> [] \<longrightarrow> idx (dup_key (out ! i)) = Some i) \<and>
     filter (\<lambda>x. dup_key x = []) out = filter (\<lambda>x. dup_key x = []) done \<and> set out \<subseteq> set done \<and>
     (\<forall>x \<in> set done. dup_key x \<noteq> [] \<longrightarrow> (\<exists>i. idx (dup_key x) = Some i \<and> list_rank x \<le> list_rank (out ! i)))"

lemma filter_update_same:
  assumes "i < length xs" "\<not> P (xs ! i)" "\<not> P x"
  shows "filter P (xs[i := x]) = filter P xs"
proof -
  have "filter P xs = filter P (take i xs @ xs ! i # drop (Suc i) xs)" using assms(1) by (simp add: id_take_nth_drop [symmetric])
  then show ?thesis using assms by (simp add: upd_conv_take_nth_drop)
qed

lemma collapse_okD:
  assumes "collapse_ok done out idx"
  shows "idx k = Some i \<Longrightarrow> k \<noteq> [] \<and> i < length out \<and> dup_key (out ! i) = k"
    "i < length out \<Longrightarrow> dup_key (out ! i) \<noteq> [] \<Longrightarrow> idx (dup_key (out ! i)) = Some i"
    "filter (\<lambda>x. dup_key x = []) out = filter (\<lambda>x. dup_key x = []) done" "set out \<subseteq> set done"
    "y \<in> set done \<Longrightarrow> dup_key y \<noteq> [] \<Longrightarrow> \<exists>i. idx (dup_key y) = Some i \<and> list_rank y \<le> list_rank (out ! i)"
  using assms unfolding collapse_ok_def by blast+

lemma collapse_okI:
  assumes "\<And>k i. idx k = Some i \<Longrightarrow> k \<noteq> [] \<and> i < length out \<and> dup_key (out ! i) = k"
    and "\<And>i. i < length out \<Longrightarrow> dup_key (out ! i) \<noteq> [] \<Longrightarrow> idx (dup_key (out ! i)) = Some i"
    and "filter (\<lambda>x. dup_key x = []) out = filter (\<lambda>x. dup_key x = []) done" "set out \<subseteq> set done"
    and "\<And>y. y \<in> set done \<Longrightarrow> dup_key y \<noteq> [] \<Longrightarrow> \<exists>i. idx (dup_key y) = Some i \<and> list_rank y \<le> list_rank (out ! i)"
  shows "collapse_ok done out idx"
  using assms unfolding collapse_ok_def by blast

lemma collapse_plain:
  assumes "collapse_ok done out idx" "dup_key x = []"
  shows "collapse_ok (done @ [x]) (out @ [x]) idx"
proof (rule collapse_okI, goal_cases)
  case (1 k i)
  then show ?case using collapse_okD(1) [OF assms(1), of k i] by (auto simp: nth_append)
next
  case (2 i)
  then show ?case using collapse_okD(2) [OF assms(1)] assms(2) by (auto simp: nth_append less_Suc_eq split: if_splits)
next
  case (5 y)
  then obtain i where "idx (dup_key y) = Some i" "list_rank y \<le> list_rank (out ! i)"
    using collapse_okD(5) [OF assms(1), of y] assms(2) by auto
  then show ?case using collapse_okD(1) [OF assms(1)] by (auto simp: nth_append)
qed (use collapse_okD(3,4) [OF assms(1)] in auto)

lemma collapse_new:
  assumes "collapse_ok done out idx" "dup_key x \<noteq> []" "idx (dup_key x) = None"
  shows "collapse_ok (done @ [x]) (out @ [x]) (idx(dup_key x \<mapsto> length out))"
proof (rule collapse_okI, goal_cases)
  case (1 k i)
  then show ?case using collapse_okD(1) [OF assms(1), of k i] assms(2) by (auto simp: nth_append split: if_splits)
next
  case (2 i)
  show ?case
  proof (cases "i < length out")
    case True
    then have "idx (dup_key (out ! i)) = Some i" using collapse_okD(2) [OF assms(1)] 2 by (simp add: nth_append)
    then show ?thesis using True assms(3) by (auto simp: nth_append)
  qed (use 2 in \<open>auto simp: nth_append\<close>)
next
  case (5 y)
  show ?case
  proof (cases "dup_key y = dup_key x")
    case True
    then have "y = x" using 5 collapse_okD(5) [OF assms(1), of y] assms(3) by auto
    then show ?thesis by simp
  next
    case False
    then obtain i where "idx (dup_key y) = Some i" "list_rank y \<le> list_rank (out ! i)"
      using 5 collapse_okD(5) [OF assms(1), of y] by auto
    then show ?thesis using False collapse_okD(1) [OF assms(1)] by (auto simp: nth_append)
  qed
qed (use collapse_okD(3,4) [OF assms(1)] assms(2) in auto)

lemma collapse_better:
  assumes "collapse_ok done out idx" "idx (dup_key x) = Some i" "list_rank (out ! i) < list_rank x"
  shows "collapse_ok (done @ [x]) (out[i := x]) idx"
proof -
  have i: "i < length out" "dup_key (out ! i) = dup_key x" "dup_key x \<noteq> []"
    using collapse_okD(1) [OF assms(1,2)] by auto
  have keys: "dup_key (out[i := x] ! j) = dup_key (out ! j)" if "j < length out" for j
    using i that by (auto simp: nth_list_update)
  show ?thesis
  proof (rule collapse_okI, goal_cases)
    case (1 k j)
    then show ?case using collapse_okD(1) [OF assms(1), of k j] keys by auto
  next
    case (2 j)
    then show ?case using collapse_okD(2) [OF assms(1), of j] keys by auto
  next
    case 3
    then show ?case using collapse_okD(3) [OF assms(1)] i by (simp add: filter_update_same)
  next
    case 4
    then show ?case using collapse_okD(4) [OF assms(1)] set_update_subset_insert [of out i x] by auto
  next
    case (5 y)
    show ?case
    proof (cases "dup_key y = dup_key x")
      case True
      then have "list_rank y \<le> list_rank x" using 5 collapse_okD(5) [OF assms(1), of y] assms(2,3) by auto
      then show ?thesis using True assms(2) i(1) by auto
    next
      case False
      then obtain j where j: "idx (dup_key y) = Some j" "list_rank y \<le> list_rank (out ! j)"
        using 5 collapse_okD(5) [OF assms(1), of y] by auto
      then have "j \<noteq> i" using collapse_okD(1) [OF assms(1) j(1)] i(2) False by auto
      then show ?thesis using j by simp
    qed
  qed
qed

lemma collapse_worse:
  assumes "collapse_ok done out idx" "idx (dup_key x) = Some i" "list_rank x \<le> list_rank (out ! i)"
  shows "collapse_ok (done @ [x]) out idx"
proof (rule collapse_okI, goal_cases)
  case (5 y)
  then show ?case using collapse_okD(5) [OF assms(1), of y] assms(2,3) by auto
qed (use collapse_okD(1-4) [OF assms(1)] collapse_okD(1) [OF assms(1,2)] in auto)

lemma collapse_step_ok:
  assumes "collapse_ok done out idx" "collapse_step x (out, idx) = (out', idx')"
  shows "collapse_ok (done @ [x]) out' idx'"
proof (cases "dup_key x = []")
  case True
  then show ?thesis using collapse_plain [OF assms(1) True] assms(2) by (auto simp: collapse_step_def)
next
  case False
  show ?thesis
  proof (cases "idx (dup_key x)")
    case None
    then show ?thesis using collapse_new [OF assms(1) False] False assms(2) by (simp add: collapse_step_def)
  next
    case (Some i)
    then have "(out', idx') = (if list_rank (out ! i) < list_rank x then out[i := x] else out, idx)"
      using assms(2) False by (simp add: collapse_step_def prefer_rank)
    then show ?thesis using collapse_better [OF assms(1) Some] collapse_worse [OF assms(1) Some]
      by (cases "list_rank (out ! i) < list_rank x") simp_all
  qed
qed

lemma collapse_fold_ok:
  "collapse_ok done out idx \<Longrightarrow> fold collapse_step xs (out, idx) = (out', idx') \<Longrightarrow> collapse_ok (done @ xs) out' idx'"
proof (induction xs arbitrary: "done" out idx)
  case (Cons x xs)
  obtain out1 idx1 where s: "collapse_step x (out, idx) = (out1, idx1)" by fastforce
  show ?case using Cons.IH [OF collapse_step_ok [OF Cons.prems(1) s]] Cons.prems(2) s by simp
qed simp

lemma distinct_filter_nth:
  "(\<And>i j. i < length ys \<Longrightarrow> j < length ys \<Longrightarrow> P (ys ! i) \<Longrightarrow> ys ! i = ys ! j \<Longrightarrow> i = j) \<Longrightarrow> distinct (filter P ys)"
proof (induction ys)
  case (Cons y ys)
  have "y \<notin> set ys" if "P y"
    using Cons.prems [of 0 "Suc _"] that by (fastforce simp: in_set_conv_nth)
  moreover have "distinct (filter P ys)" using Cons.IH Cons.prems [of "Suc _" "Suc _"] by simp
  ultimately show ?case by simp
qed simp

lemma collapse_ok_spec:
  assumes "collapse_ok xs out idx"
  shows "filter (\<lambda>i. dup_key i = []) out = filter (\<lambda>i. dup_key i = []) xs \<and>
    distinct (filter (\<lambda>k. k \<noteq> []) (map dup_key out)) \<and> set out \<subseteq> set xs \<and>
    (\<forall>x \<in> set xs. dup_key x \<noteq> [] \<longrightarrow> (\<exists>y \<in> set out. dup_key y = dup_key x \<and> list_rank x \<le> list_rank y))"
proof (intro conjI ballI impI)
  have idx: "idx (dup_key (out ! i)) = Some i" if "i < length out" "dup_key (out ! i) \<noteq> []" for i
    using assms that unfolding collapse_ok_def by blast
  show "distinct (filter (\<lambda>k. k \<noteq> []) (map dup_key out))"
    by (rule distinct_filter_nth) (use idx in \<open>metis length_map nth_map option.inject\<close>)
  fix x assume "x \<in> set xs" "dup_key x \<noteq> []"
  then obtain i where i: "idx (dup_key x) = Some i" "list_rank x \<le> list_rank (out ! i)"
    using assms unfolding collapse_ok_def by blast
  then have "i < length out" "dup_key (out ! i) = dup_key x" using assms unfolding collapse_ok_def by blast+
  then show "\<exists>y \<in> set out. dup_key y = dup_key x \<and> list_rank x \<le> list_rank y" using i by (auto intro!: bexI [of _ "out ! i"])
qed (use assms in \<open>unfold collapse_ok_def, blast+\<close>)

section \<open>Further lemmas\<close>

text \<open>How many incidents of a namespace count as active.\<close>

lemma stats_namespace_active:
  "(case fold stats_namespace items m ns of None \<Rightarrow> 0 | Some e \<Rightarrow> nst_Active e) =
     (case m ns of None \<Rightarrow> 0 | Some e \<Rightarrow> nst_Active e) +
     length (filter (\<lambda>i. report_ns i = ns \<and> (report_phase i = ''Active'' \<or> report_phase i = ''Detecting'')) items)"
proof (induction items arbitrary: m)
  case (Cons i items)
  have "(case stats_namespace i m ns of None \<Rightarrow> 0 | Some e \<Rightarrow> nst_Active e) =
      (case m ns of None \<Rightarrow> 0 | Some e \<Rightarrow> nst_Active e) +
      (if report_ns i = ns \<and> (report_phase i = ''Active'' \<or> report_phase i = ''Detecting'') then 1 else 0)"
    by (auto simp: stats_namespace_def Let_def split: option.splits)
  then show ?case using Cons [of "stats_namespace i m"] by simp
qed simp

lemma mark_monitored_active:
  "(case fold mark_monitored nss m ns of None \<Rightarrow> 0 | Some e \<Rightarrow> nst_Active e) = (case m ns of None \<Rightarrow> 0 | Some e \<Rightarrow> nst_Active e)"
proof (induction nss arbitrary: m)
  case (Cons n nss)
  have "(case mark_monitored n m ns of None \<Rightarrow> 0 | Some e \<Rightarrow> nst_Active e) = (case m ns of None \<Rightarrow> 0 | Some e \<Rightarrow> nst_Active e)"
    by (auto simp: mark_monitored_def Let_def split: option.splits)
  then show ?case using Cons [of "mark_monitored n m"] by simp
qed simp

lemma stats_active:
  "(case sr_Namespaces (stats_of D items agents) ns of None \<Rightarrow> 0 | Some e \<Rightarrow> nst_Active e) =
     length (filter (\<lambda>i. report_ns i = ns \<and> (report_phase i = ''Active'' \<or> report_phase i = ''Detecting'')) items)"
  by (simp add: stats_of_def Let_def mark_monitored_active stats_namespace_active)

text \<open>Rows of a timeline with the same time and text are merged only when no other row of that
  time stands between them.\<close>

lemma timeline_repeats:
  defines "row \<equiv> \<lambda>e. \<lparr>tw_Time = 5, tw_Event = e, tw_Phase = ''Active'', tw_IncidentName = ''i'', tw_Namespace = ''n''\<rparr>"
  shows "dedup_rows (row ''a'') [row ''a'', row ''b''] = [row ''a'', row ''b'']"
    and "dedup_rows (row ''a'') [row ''b'', row ''a''] = [row ''a'', row ''b'', row ''a'']"
  by (simp_all add: row_def same_row_def)

text \<open>Two queries with different answers can share a cache key.\<close>

lemma incidents_key_shared:
  defines "q \<equiv> \<lparr>iq_namespace = [], iq_phase = [], iq_severity = [], iq_type = ''a|b'', iq_query = ''c'', iq_limit = [], iq_offset = [], iq_sort = []\<rparr>"
    and "q' \<equiv> \<lparr>iq_namespace = [], iq_phase = [], iq_severity = [], iq_type = ''a'', iq_query = ''b|c'', iq_limit = [], iq_offset = [], iq_sort = []\<rparr>"
  assumes "sp_IncidentType (ir_Spec r) = ''a''" "st_Summary (ir_Status r) = ''b|c''"
  shows "incidents_key q = incidents_key q'" "\<not> incident_selected q r" "incident_selected q' r"
proof -
  have sought: "query_text q = ''c''" "query_text q' = ''b|c''" by (unfold query_text_def q_def q'_def) (simp, code_simp)+
  then show "incidents_key q = incidents_key q'" by (simp add: incidents_key_def query_sort_def q_def q'_def)
  show "\<not> incident_selected q r" using assms(3) by (simp add: incident_selected_def q_def)
  have "str_contains (to_lower ''b|c'') ''b|c''" by code_simp
  then have "matchesIncidentQuery r ''b|c''" using assms(4) by (simp add: matchesIncidentQuery_def)
  then show "incident_selected q' r" using assms(3) sought by (simp add: incident_selected_def q'_def)
qed

lemma wrap64_over:
  assumes "max_int64 < x" "x \<le> 2 * max_int64"
  shows "wrap64 x = x - 2 ^ 64"
proof -
  have "(x + 9223372036854775808) mod 18446744073709551616 = (x - 9223372036854775808 + 18446744073709551616) mod 18446744073709551616"
    by (simp add: algebra_simps)
  also have "\<dots> = (x - 9223372036854775808) mod 18446744073709551616" by (rule mod_add_self2)
  also have "\<dots> = x - 9223372036854775808" using assms by (intro mod_pos_pos_trivial) (simp_all add: max_int64_def)
  finally show ?thesis by (simp add: wrap64_def)
qed

section \<open>Properties\<close>

text \<open>C18.
  Collapsing the list keeps every incident that is not an OTel duplicate, in order, invents none,
  and keeps exactly one incident per duplicate key: one that is preferred at least as much as every
  other of its group (an open one over resolved ones, then the higher severity, then the later).
\<close>

theorem collapse_exact:
  "filter (\<lambda>i. dup_key i = []) (collapseDuplicateOTelIncidents xs) = filter (\<lambda>i. dup_key i = []) xs \<and>
   distinct (filter (\<lambda>k. k \<noteq> []) (map dup_key (collapseDuplicateOTelIncidents xs))) \<and>
   set (collapseDuplicateOTelIncidents xs) \<subseteq> set xs \<and>
   (\<forall>x \<in> set xs. dup_key x \<noteq> [] \<longrightarrow>
      (\<exists>y \<in> set (collapseDuplicateOTelIncidents xs). dup_key y = dup_key x \<and> list_rank x \<le> list_rank y))"
proof (cases "length xs \<le> 1")
  case True
  then have "xs = [] \<or> (\<exists>x. xs = [x])" by (cases xs) auto
  then show ?thesis by (auto simp: collapseDuplicateOTelIncidents_def)
next
  case False
  obtain out idx where f: "fold collapse_step xs ([], Map.empty) = (out, idx)" by fastforce
  have "collapse_ok [] [] Map.empty" by (simp add: collapse_ok_def)
  from collapse_ok_spec [OF collapse_fold_ok [OF this f]] show ?thesis
    using False f by (simp add: collapseDuplicateOTelIncidents_def)
qed

definition log_incident :: "string \<Rightarrow> string \<Rightarrow> incident_response" where
  "log_incident name severity = \<lparr>ix_Name = name, ix_Namespace = ''shop'', ix_Fingerprint = ''f'', ix_PodName = [], ix_Severity = severity,
     ix_Phase = ''Active'', ix_IncidentType = ''OTelLogMatch'', ix_Summary = [], ix_Reason = [], ix_Message = [], ix_Notified = False,
     ix_FirstObservedAt = None, ix_ActiveAt = None, ix_LastObservedAt = None, ix_ResolvedAt = None, ix_SignalCount = 1,
     ix_Scope = \<lparr>sc_Level = [], sc_Namespace = [], sc_WorkloadRef = None, sc_ResourceRef = None\<rparr>, ix_AffectedResources = [],
     ix_CorrelatedSignals = [], ix_Timeline = [], ix_AgentRef = [], ix_LastSeen = [], ix_TraceID = [], ix_TraceIDs = [],
     ix_FiredRule = [], ix_HasTopology = False\<rparr>"

theorem collapse_exact_witness:
  "\<exists>y \<in> set (collapseDuplicateOTelIncidents [log_incident ''a'' ''P3'', log_incident ''b'' ''P1'']).
     dup_key y = ''shop/fingerprint/f'' \<and> ix_Severity y = ''P1''"
proof -
  have "IsOTelIncidentType ''OTelLogMatch''" by code_simp
  then have key: "dup_key (log_incident n s) = ''shop/fingerprint/f''" for n s
    by (simp add: duplicateOTelIncidentKey_def log_incident_def incidentScopeKey_def named_ref_def)
  have "log_incident ''b'' ''P1'' \<in> set [log_incident ''a'' ''P3'', log_incident ''b'' ''P1'']" by simp
  then obtain y where y: "y \<in> set (collapseDuplicateOTelIncidents [log_incident ''a'' ''P3'', log_incident ''b'' ''P1''])"
      "dup_key y = ''shop/fingerprint/f''" "list_rank (log_incident ''b'' ''P1'') \<le> list_rank y"
    using collapse_exact [of "[log_incident ''a'' ''P3'', log_incident ''b'' ''P1'']"] key by fastforce
  moreover have "y = log_incident ''a'' ''P3'' \<or> y = log_incident ''b'' ''P1''"
    using collapse_exact [of "[log_incident ''a'' ''P3'', log_incident ''b'' ''P1'']"] y(1) by auto
  moreover have "\<not> list_rank (log_incident ''b'' ''P1'') \<le> list_rank (log_incident ''a'' ''P3'')"
    by (simp add: list_rank_def log_incident_def dash_severityRank_def less_eq_prod_def)
  ultimately show ?thesis by (metis (no_types, lifting) incident_response.select_convs(5) log_incident_def)
qed

lemma parsePositiveInt_range:
  assumes "0 \<le> def" "def \<le> max_int64"
  shows "0 \<le> parsePositiveInt s def \<and> parsePositiveInt s def \<le> max_int64"
  using assms atoi_in_range [of s] by (auto simp: parsePositiveInt_def in_int64_def split: option.split)

text \<open>C39.
  The page of the incident list for any texts of the query parameters \<open>limit\<close> and \<open>offset\<close>, one that is
  empty, no number or negative reading as 500 and 0: a limit of 0 gives everything from the offset
  on; any other gives the window of \<open>limit\<close> incidents from the offset. An offset beyond the list
  is first set to its length. Exactly when the limit is positive and its sum with the offset so
  clamped exceeds an int64 the slice expression is out of bounds and the handler panics. (The list
  has fewer than \<open>2 ^ 63\<close> incidents.)
\<close>

theorem incident_paging:
  fixes xs :: "'a list"
  assumes "int (length xs) \<le> max_int64"
  shows "let limit = parsePositiveInt limitText 500; offset = parsePositiveInt offsetText 0 in
    incident_page limit offset xs =
      (if limit = 0 then Some (drop (nat offset) xs)
       else if max_int64 < min offset (int (length xs)) + limit then None
       else Some (take (nat limit) (drop (nat offset) xs)))"
proof -
  define limit where "limit = parsePositiveInt limitText 500"
  define offset where "offset = parsePositiveInt offsetText 0"
  have r: "0 \<le> limit" "limit \<le> max_int64" "0 \<le> offset"
    using parsePositiveInt_range [of 500 limitText] parsePositiveInt_range [of 0 offsetText]
    by (simp_all add: limit_def offset_def max_int64_def)
  let ?n = "int (length xs)" and ?o = "min offset (int (length xs))"
  have o: "(if ?n < offset then ?n else offset) = ?o" by (simp add: min_def)
  have drop: "drop (nat ?o) xs = drop (nat offset) xs" using r(3) by (simp add: min_def)
  consider (all) "limit = 0" | (window) "0 < limit" "?o + limit \<le> max_int64" | (overflow) "0 < limit" "max_int64 < ?o + limit"
    using r(1) by linarith
  then have "incident_page limit offset xs = (if limit = 0 then Some (drop (nat offset) xs)
      else if max_int64 < ?o + limit then None else Some (take (nat limit) (drop (nat offset) xs)))"
  proof cases
    case all
    then show ?thesis using r(3) unfolding incident_page_def Let_def o by (simp add: drop min_def nat_diff_distrib)
  next
    case window
    then have "wrap64 (?o + limit) = ?o + limit" using r(3) by (intro wrap64_id) (simp add: in_int64_def min_int64_def)
    then show ?thesis using window r(3) unfolding incident_page_def Let_def o
      by (auto simp: drop min_def nat_diff_distrib take_all nat_add_distrib split: if_splits)
  next
    case overflow
    then have "wrap64 (?o + limit) = ?o + limit - 2 ^ 64"
      using r assms by (intro wrap64_over) (simp_all add: max_int64_def min_def)
    then show ?thesis using overflow r assms unfolding incident_page_def Let_def o by (simp add: max_int64_def min_def split: if_splits)
  qed
  then show ?thesis by (simp add: limit_def offset_def)
qed

theorem incident_paging_witness:
  "incident_page (parsePositiveInt ''2'' 500) (parsePositiveInt ''1'' 0) ''abcd'' = Some ''bc'' \<and>
   incident_page (parsePositiveInt ''0'' 500) (parsePositiveInt ''1'' 0) ''abcd'' = Some ''bcd'' \<and>
   incident_page (parsePositiveInt ''9223372036854775807'' 500) (parsePositiveInt ''1'' 0) ''abcd'' = None"
proof -
  have p: "parsePositiveInt ''2'' 500 = 2" "parsePositiveInt ''1'' 0 = 1" "parsePositiveInt ''0'' 500 = 0"
    by (simp_all add: parsePositiveInt_def atoi_def digits_val_def is_digit_def in_int64_def min_int64_def max_int64_def Let_def)
  have m: "parsePositiveInt ''9223372036854775807'' 500 = max_int64"
    by (simp add: parsePositiveInt_def atoi_def digits_val_def is_digit_def in_int64_def min_int64_def max_int64_def Let_def)
  show ?thesis
    using incident_paging [of "''abcd''" "''2''" "''1''"] incident_paging [of "''abcd''" "''0''" "''1''"]
      incident_paging [of "''abcd''" "''9223372036854775807''" "''1''"]
    by (simp add: p m max_int64_def Let_def)
qed

end
