(* ===== verification/Trace_Summary.thy ===== *)
theory Trace_Summary
  imports Incident_List Buffer "HOL-Library.Signed_Division"
begin

text \<open>
  The trace and error summary of the dashboard (\<open>internal/dashboard/handlers_trace_summary.go\<close>):
  the counts per service from the live buffer or, when it holds no OTel signal, from recent OTel
  incidents. A map from services to their counts is a list of pairs in order of first use; Go
  iterates it in any order, and \<open>services_any_order\<close> shows that the order does not matter.
\<close>

definition defaultTraceSummaryLookback :: duration where "defaultTraceSummaryLookback = 15 * minute"
definition maxTraceSummaryLookback :: duration where "maxTraceSummaryLookback = hour"
definition maxTraceSummaryServices :: nat where "maxTraceSummaryServices = 8"

record trace_agg =
  ta_errors :: int
  ta_slow :: int
  ta_other :: int
  ta_durNs :: "int list"

definition zero_agg :: trace_agg where
  "zero_agg = \<lparr>ta_errors = 0, ta_slow = 0, ta_other = 0, ta_durNs = []\<rparr>"

record service_summary =
  sy_Name :: string
  sy_Errors :: int
  sy_SpanPct :: int
  sy_ErrorPct :: int
  sy_SlowPct :: int
  sy_LatencyMs :: "int option"

record trace_summary =
  tm_Source :: string
  tm_WindowSeconds :: int
  tm_ErrorTraces :: nat
  tm_AvgCriticalPathMs :: "int option"
  tm_ServicesWithErrors :: nat
  tm_Services :: "service_summary list"

section \<open>Counting\<close>

fun agg_update :: "string \<Rightarrow> (trace_agg \<Rightarrow> trace_agg) \<Rightarrow> (string \<times> trace_agg) list \<Rightarrow> (string \<times> trace_agg) list" where
  "agg_update svc f [] = [(svc, f zero_agg)]"
| "agg_update svc f ((k, a) # m) = (if k = svc then (k, f a) # m else (k, a) # agg_update svc f m)"

definition pctOf :: "int \<Rightarrow> int \<Rightarrow> int" where
  "pctOf n tot = (if tot \<le> 0 then 0 else (n * 100 + tot div 2) div tot)"

definition avgNs :: "int list \<Rightarrow> int" where
  "avgNs xs = (if xs = [] then 0 else fold (\<lambda>x sum. wrap64 (sum + x)) xs 0 sdiv int (length xs))"

definition add_kind :: "string \<Rightarrow> trace_agg \<Rightarrow> trace_agg" where
  "add_kind kind a =
     (if kind = ''error'' then a\<lparr>ta_errors := ta_errors a + 1\<rparr>
      else if kind = ''slow'' then a\<lparr>ta_slow := ta_slow a + 1\<rparr>
      else a\<lparr>ta_other := ta_other a + 1\<rparr>)"

text \<open>What a signal of the buffer contributes: service, trace, duration, kind.\<close>

definition signal_facts :: "correlator_event \<Rightarrow> (string \<times> string \<times> int \<times> string) option" where
  "signal_facts e = (case e of
     OTelSpanErrorEvent _ t _ _ svc _ _ _ _ d _ _ _ _ \<Rightarrow> Some (svc, t, d, ''error'')
   | OTelSpanLatencySpikeEvent _ t _ _ svc _ d _ _ _ _ _ \<Rightarrow> Some (svc, t, d, ''slow'')
   | OTelLogMatchEvent _ t _ svc _ _ _ _ _ _ \<Rightarrow> Some (svc, t, 0, [])
   | OTelSpanEventEvent _ t _ svc _ _ _ _ \<Rightarrow> Some (svc, t, 0, [])
   | _ \<Rightarrow> None)"

type_synonym summary_state = "(string \<times> trace_agg) list \<times> string list \<times> int list"

definition count_signal :: "correlator_event \<Rightarrow> summary_state \<Rightarrow> summary_state" where
  "count_signal e st = (case signal_facts e of None \<Rightarrow> st
   | Some (svc, tid, dur, kind) \<Rightarrow>
       (let (bySvc, traceSet, allDur) = st; svc = (if svc = [] then ''unknown'' else svc);
            add = (\<lambda>a. let a = add_kind kind a in if 0 < dur then a\<lparr>ta_durNs := ta_durNs a @ [dur]\<rparr> else a)
        in (agg_update svc add bySvc, if kind \<noteq> [] \<and> tid \<noteq> [] then List.insert tid traceSet else traceSet,
            if 0 < dur then allDur @ [dur] else allDur)))"

section \<open>The wire shape\<close>

definition service_row :: "bool \<Rightarrow> string \<times> trace_agg \<Rightarrow> service_summary option" where
  "service_row withLatency na =
     (let (name, a) = na; tot = ta_errors a + ta_slow a + ta_other a
      in if tot = 0 then None
         else let ep = pctOf (ta_errors a) tot; sp = pctOf (ta_slow a) tot
              in Some \<lparr>sy_Name = name, sy_Errors = ta_errors a + ta_slow a, sy_SpanPct = max (100 - ep - sp) 0,
                       sy_ErrorPct = ep, sy_SlowPct = sp,
                       sy_LatencyMs = (if withLatency \<and> ta_durNs a \<noteq> [] then Some (avgNs (ta_durNs a) sdiv 1000000) else None)\<rparr>)"

definition row_order :: "service_summary \<Rightarrow> int \<times> string" where
  "row_order s = (- sy_Errors s, sy_Name s)"

definition buildTraceServices :: "(string \<times> trace_agg) list \<Rightarrow> bool \<Rightarrow> trace_summary" where
  "buildTraceServices bySvc withLatency =
     (let out = List.map_filter (service_row withLatency) bySvc
      in \<lparr>tm_Source = [], tm_WindowSeconds = 0, tm_ErrorTraces = 0, tm_AvgCriticalPathMs = None,
          tm_ServicesWithErrors = length (filter (\<lambda>s. 0 < sy_Errors s) out),
          tm_Services = take maxTraceSummaryServices (sort_key row_order out)\<rparr>)"

section \<open>Sources\<close>

text \<open>From the buffer at time \<open>now\<close>; \<open>None\<close> when the window holds no OTel signal.\<close>

definition effective_window :: "duration \<Rightarrow> buffer \<Rightarrow> duration" where
  "effective_window lookback b = (if 0 < Window b \<and> Window b < lookback then Window b else lookback)"

definition window_signals :: "gotime \<Rightarrow> duration \<Rightarrow> buffer \<Rightarrow> correlator_event list" where
  "window_signals now lookback b =
     (let cutoff = now - effective_window lookback b
      in map en_Event (filter (\<lambda>e. \<not> time_before (en_AddedAt e) cutoff) (fst (Snapshot now b))))"

definition traceSummaryFromBuffer :: "gotime \<Rightarrow> duration \<Rightarrow> buffer \<Rightarrow> trace_summary option \<times> buffer" where
  "traceSummaryFromBuffer now lookback b =
     (let (bySvc, traceSet, allDur) = fold count_signal (window_signals now lookback b) ([], [], [])
      in (if bySvc = [] then None
          else Some ((buildTraceServices bySvc True)\<lparr>tm_Source := ''live'', tm_WindowSeconds := effective_window lookback b sdiv second,
                 tm_ErrorTraces := length traceSet,
                 tm_AvgCriticalPathMs := (if allDur \<noteq> [] then Some (avgNs allDur sdiv 1000000) else None)\<rparr>),
          snd (Snapshot now b)))"

definition otelIncidentTime :: "incident_report \<Rightarrow> gotime" where
  "otelIncidentTime it =
     (case st_LastObservedAt (ir_Status it) of Some t \<Rightarrow> t | None \<Rightarrow>
       (case st_ActiveAt (ir_Status it) of Some t \<Rightarrow> t | None \<Rightarrow>
         (case st_FirstObservedAt (ir_Status it) of Some t \<Rightarrow> t | None \<Rightarrow> 0)))"

definition otelIncidentService :: "incident_report \<Rightarrow> string" where
  "otelIncidentService it =
     (let sc = sp_Scope (ir_Spec it); rs = st_AffectedResources (ir_Status it)
      in case named_ref (sc_WorkloadRef sc) of Some r \<Rightarrow> or_Name r
         | None \<Rightarrow> (case named_ref (sc_ResourceRef sc) of Some r \<Rightarrow> or_Name r
           | None \<Rightarrow> (case find (\<lambda>r. ar_Kind r \<in> {''Service'', ''Deployment'', ''StatefulSet'', ''DaemonSet'', ''ReplicaSet''} \<and>
                               ar_Name r \<noteq> []) rs of Some r \<Rightarrow> ar_Name r
             | None \<Rightarrow> (case find (\<lambda>r. ar_Name r \<noteq> []) rs of Some r \<Rightarrow> ar_Name r | None \<Rightarrow> []))))"

definition classifyOTelIncidentType :: "string \<Rightarrow> string" where
  "classifyOTelIncidentType t =
     (let lt = to_lower t
      in if str_contains lt ''latency'' \<or> str_contains lt ''slow'' then ''slow''
         else if str_contains lt ''log'' then ''log'' else ''error'')"

definition count_incident :: "incident_report \<Rightarrow> (string \<times> trace_agg) list \<times> string list \<Rightarrow> (string \<times> trace_agg) list \<times> string list" where
  "count_incident it st =
     (let (bySvc, traceSet) = st; svc = otelIncidentService it;
          svc = (if svc = [] then report_ns it else svc); svc = (if svc = [] then ''unknown'' else svc)
      in (agg_update svc (add_kind (classifyOTelIncidentType (sp_IncidentType (ir_Spec it)))) bySvc,
          fold List.insert (filter (\<lambda>tid. tid \<noteq> []) (collectTraceIDs (om_Annotations (ir_Meta it)))) traceSet))"

definition recent_otel :: "gotime \<Rightarrow> duration \<Rightarrow> incident_report list \<Rightarrow> incident_report list" where
  "recent_otel now lookback items = filter (\<lambda>it. IsOTelIncidentType (sp_IncidentType (ir_Spec it)) \<and>
     \<not> (time_is_zero (otelIncidentTime it) \<or> time_before (otelIncidentTime it) (now - lookback))) items"

definition traceSummaryFromIncidents :: "gotime \<Rightarrow> duration \<Rightarrow> incident_report list \<Rightarrow> trace_summary" where
  "traceSummaryFromIncidents now lookback items =
     (let (bySvc, traceSet) = fold count_incident (recent_otel now lookback items) ([], [])
      in (buildTraceServices bySvc False)\<lparr>tm_Source := ''incidents'', tm_WindowSeconds := lookback sdiv second,
           tm_ErrorTraces := length traceSet\<rparr>)"

definition computeTraceSummary :: "dash_env \<Rightarrow> gotime \<Rightarrow> duration \<Rightarrow> buffer option \<Rightarrow> (kerr + trace_summary) \<times> buffer option" where
  "computeTraceSummary D now lookback b =
     (let incidents = (case dv_reports D [] of Inl err \<Rightarrow> Inl err | Inr items \<Rightarrow> Inr (traceSummaryFromIncidents now lookback items))
      in case b of None \<Rightarrow> (incidents, None)
         | Some b \<Rightarrow> (case traceSummaryFromBuffer now lookback b of
             (Some resp, b) \<Rightarrow> (Inr resp, Some b) | (None, b) \<Rightarrow> (incidents, Some b)))"

text \<open>The \<open>lookback\<close> parameter of the request, read by \<open>time.ParseDuration\<close>.\<close>

definition summary_lookback :: "(string \<Rightarrow> duration option) \<Rightarrow> string \<Rightarrow> duration" where
  "summary_lookback parse v = (if v = [] then defaultTraceSummaryLookback
     else case parse v of None \<Rightarrow> defaultTraceSummaryLookback
          | Some d \<Rightarrow> if 0 < d \<and> d \<le> maxTraceSummaryLookback then d else defaultTraceSummaryLookback)"

section \<open>Lemmas\<close>

lemma service_row_name: "service_row l (n, a) = Some s \<Longrightarrow> sy_Name s = n"
  by (auto simp: service_row_def Let_def split: if_splits)

lemma services_any_order:
  assumes "mset xs = mset ys" "distinct (map fst xs)"
  shows "buildTraceServices xs l = buildTraceServices ys l"
proof -
  let ?f = "List.map_filter (service_row l)"
  have ms: "mset (?f xs) = mset (?f ys)"
    using assms(1) by (simp add: List.map_filter_def mset_map mset_filter)
  have "inj_on sy_Name (set (?f xs))"
  proof (rule inj_onI)
    fix s s' assume "s \<in> set (?f xs)" "s' \<in> set (?f xs)" and eq: "sy_Name s = sy_Name s'"
    then obtain n a n' a' where x: "(n, a) \<in> set xs" "service_row l (n, a) = Some s" "(n', a') \<in> set xs" "service_row l (n', a') = Some s'"
      by (auto simp: in_set_map_filter)
    then have "n = n'" using eq service_row_name by metis
    then have "a = a'" using x(1,3) assms(2) by (metis eq_key_imp_eq_value)
    then show "s = s'" using x(2,4) \<open>n = n'\<close> by simp
  qed
  then have "inj_on row_order (set (?f xs))" by (auto simp: inj_on_def row_order_def)
  then have "sort_key row_order (?f xs) = sort_key row_order (?f ys)" using ms by (intro sort_key_perm)
  moreover have "length (filter (\<lambda>s. 0 < sy_Errors s) (?f xs)) = length (filter (\<lambda>s. 0 < sy_Errors s) (?f ys))"
    using ms by (metis mset_filter size_mset)
  ultimately show ?thesis by (simp add: buildTraceServices_def Let_def)
qed

text \<open>No counter is negative.\<close>

definition counts_ok :: "(string \<times> trace_agg) list \<Rightarrow> bool" where
  "counts_ok m \<longleftrightarrow> distinct (map fst m) \<and> list_all (\<lambda>(n, a). 0 \<le> ta_errors a \<and> 0 \<le> ta_slow a \<and> 0 \<le> ta_other a) m"

lemma agg_update_keys: "set (map fst (agg_update svc f m)) = insert svc (set (map fst m))"
  by (induction svc f m rule: agg_update.induct) auto

lemma agg_update_ok:
  assumes "counts_ok m" "\<And>a. 0 \<le> ta_errors a \<and> 0 \<le> ta_slow a \<and> 0 \<le> ta_other a \<Longrightarrow>
    0 \<le> ta_errors (f a) \<and> 0 \<le> ta_slow (f a) \<and> 0 \<le> ta_other (f a)"
  shows "counts_ok (agg_update svc f m)"
  using assms(1)
proof (induction m)
  case Nil
  then show ?case using assms(2) [of zero_agg] by (simp add: counts_ok_def zero_agg_def)
next
  case (Cons ka m)
  obtain k a where ka: "ka = (k, a)" by (cases ka)
  have ok: "counts_ok m" "k \<notin> set (map fst m)" "0 \<le> ta_errors a \<and> 0 \<le> ta_slow a \<and> 0 \<le> ta_other a"
    using Cons.prems by (auto simp: ka counts_ok_def)
  have "k \<notin> set (map fst (agg_update svc f m))" if "k \<noteq> svc" using ok(2) that unfolding agg_update_keys by blast
  then show ?case using Cons.IH [OF ok(1)] ok assms(2) [OF ok(3)] by (cases "k = svc") (simp_all add: ka counts_ok_def)
qed

lemma count_signal_ok: "counts_ok (fst st) \<Longrightarrow> counts_ok (fst (count_signal e st))"
  by (cases st) (auto simp: count_signal_def Let_def add_kind_def intro!: agg_update_ok split: option.split)

lemma count_incident_ok: "counts_ok (fst st) \<Longrightarrow> counts_ok (fst (count_incident i st))"
  by (cases st) (auto simp: count_incident_def Let_def add_kind_def intro!: agg_update_ok)

lemma fold_counts_ok:
  assumes "\<And>x st. counts_ok (fst st) \<Longrightarrow> counts_ok (fst (f x st))" "counts_ok (fst st)"
  shows "counts_ok (fst (fold f xs st))"
  using assms(2) by (induction xs arbitrary: st) (simp_all add: assms(1))

lemma pct_bounds:
  assumes "0 < t" "0 \<le> n"
  shows "n * 100 - t < t * pctOf n t" and "2 * (t * pctOf n t) \<le> 2 * (n * 100) + t"
proof -
  let ?x = "n * 100 + t div 2"
  have p: "pctOf n t = ?x div t" using assms(1) by (simp add: pctOf_def)
  have "t * (?x div t) = ?x - ?x mod t" by (rule minus_mod_eq_mult_div [symmetric])
  moreover have "0 \<le> ?x mod t" "?x mod t < t" using assms(1) by (rule pos_mod_sign, rule pos_mod_bound)
  moreover have "0 \<le> t div 2" "2 * (t div 2) \<le> t" using assms(1) by simp_all
  ultimately show "n * 100 - t < t * pctOf n t" "2 * (t * pctOf n t) \<le> 2 * (n * 100) + t"
    unfolding p by linarith+
qed

lemma pct_sum:
  assumes "0 < t" "0 \<le> e" "0 \<le> s" "e + s \<le> t"
  shows "pctOf e t + pctOf s t \<le> 101"
proof -
  have "2 * (t * (pctOf e t + pctOf s t)) \<le> 2 * (e * 100) + t + (2 * (s * 100) + t)"
    using pct_bounds(2) [OF assms(1,2)] pct_bounds(2) [OF assms(1,3)] by (simp add: algebra_simps)
  also have "\<dots> \<le> 2 * (t * 101)" using assms(4) by simp
  finally have "t * (pctOf e t + pctOf s t) \<le> t * 101" by simp
  then show ?thesis using assms(1) by (simp add: mult_le_cancel_left_pos)
qed

lemma pct_nonneg: "0 \<le> n \<Longrightarrow> 0 \<le> pctOf n t"
  by (simp add: pctOf_def pos_imp_zdiv_nonneg_iff)

lemma service_row_bounds:
  assumes "service_row l (n, a) = Some s" "0 \<le> ta_errors a" "0 \<le> ta_slow a" "0 \<le> ta_other a"
  shows "100 \<le> sy_SpanPct s + sy_ErrorPct s + sy_SlowPct s \<and> sy_SpanPct s + sy_ErrorPct s + sy_SlowPct s \<le> 101 \<and>
    0 \<le> sy_SpanPct s \<and> 0 \<le> sy_ErrorPct s \<and> 0 \<le> sy_SlowPct s"
  using assms pct_sum [of "ta_errors a + ta_slow a + ta_other a" "ta_errors a" "ta_slow a"] pct_nonneg
  by (auto simp: service_row_def Let_def split: if_splits)

lemma incident_counts:
  "\<exists>m. counts_ok m \<and> tm_Services (traceSummaryFromIncidents now lookback items) = tm_Services (buildTraceServices m False)"
proof (intro exI conjI)
  show "counts_ok (fst (fold count_incident (recent_otel now lookback items) ([], [])))"
    using count_incident_ok by (intro fold_counts_ok) (auto simp: counts_ok_def)
qed (simp add: traceSummaryFromIncidents_def Let_def case_prod_unfold)

lemma buffer_counts:
  assumes "traceSummaryFromBuffer now lookback b = (Some r, b')"
  shows "\<exists>m. counts_ok m \<and> tm_Services r = tm_Services (buildTraceServices m True)"
proof (intro exI conjI)
  show "counts_ok (fst (fold count_signal (window_signals now lookback b) ([], [], [])))"
    using count_signal_ok by (intro fold_counts_ok) (auto simp: counts_ok_def)
qed (use assms in \<open>auto simp: traceSummaryFromBuffer_def Let_def case_prod_unfold split: if_splits\<close>)

section \<open>Properties\<close>

text \<open>Whatever the signals of the buffer or the incidents: the summary lists at most eight services,
  those with the most problems first and by name, and the three shares of each service are not
  negative and sum to 100 or, by rounding, to 101.
\<close>

theorem summary_rows:
  assumes "fst (computeTraceSummary D now lookback b) = Inr resp"
  shows "length (tm_Services resp) \<le> 8 \<and> sorted (map row_order (tm_Services resp)) \<and>
    list_all (\<lambda>s. sy_SpanPct s + sy_ErrorPct s + sy_SlowPct s \<in> {100, 101} \<and>
      0 \<le> sy_SpanPct s \<and> 0 \<le> sy_ErrorPct s \<and> 0 \<le> sy_SlowPct s) (tm_Services resp)"
proof -
  have rows: "length (tm_Services (buildTraceServices m l)) \<le> 8 \<and> sorted (map row_order (tm_Services (buildTraceServices m l))) \<and>
      list_all (\<lambda>s. sy_SpanPct s + sy_ErrorPct s + sy_SlowPct s \<in> {100, 101} \<and>
        0 \<le> sy_SpanPct s \<and> 0 \<le> sy_ErrorPct s \<and> 0 \<le> sy_SlowPct s) (tm_Services (buildTraceServices m l))"
    if "counts_ok m" for m l
  proof -
    let ?P = "\<lambda>s. sy_SpanPct s + sy_ErrorPct s + sy_SlowPct s \<in> {100, 101} \<and> 0 \<le> sy_SpanPct s \<and> 0 \<le> sy_ErrorPct s \<and> 0 \<le> sy_SlowPct s"
    have "?P s" if "s \<in> set (List.map_filter (service_row l) m)" for s
      using that \<open>counts_ok m\<close> service_row_bounds [of l _ _ s] by (fastforce simp: in_set_map_filter counts_ok_def list_all_iff)
    moreover have "set (tm_Services (buildTraceServices m l)) \<subseteq> set (List.map_filter (service_row l) m)"
      using set_take_subset [of 8 "sort_key row_order (List.map_filter (service_row l) m)"]
      by (simp add: buildTraceServices_def Let_def maxTraceSummaryServices_def)
    ultimately have "\<forall>s \<in> set (tm_Services (buildTraceServices m l)). ?P s" by blast
    moreover have "sorted (map row_order (take 8 (sort_key row_order xs)))" for xs
      by (simp add: take_map [symmetric] sorted_wrt_take)
    ultimately show ?thesis by (simp add: list_all_iff buildTraceServices_def Let_def maxTraceSummaryServices_def)
  qed
  have "\<exists>m l. counts_ok m \<and> tm_Services resp = tm_Services (buildTraceServices m l)"
  proof (cases "\<exists>x. b = Some x \<and> fst (traceSummaryFromBuffer now lookback x) \<noteq> None")
    case True
    then obtain x r b' where x: "b = Some x" "traceSummaryFromBuffer now lookback x = (Some r, b')" by (metis not_None_eq prod.collapse)
    then have "resp = r" using assms by (simp add: computeTraceSummary_def Let_def)
    then show ?thesis using buffer_counts [OF x(2)] by blast
  next
    case False
    then obtain items where "resp = traceSummaryFromIncidents now lookback items"
      using assms by (auto simp: computeTraceSummary_def Let_def split: option.splits sum.splits prod.splits)
    then show ?thesis using incident_counts by blast
  qed
  then show ?thesis using rows by fastforce
qed

theorem summary_rows_witness:
  "list_all (\<lambda>s. sy_SpanPct s + sy_ErrorPct s + sy_SlowPct s \<in> {100, 101} \<and>
      0 \<le> sy_SpanPct s \<and> 0 \<le> sy_ErrorPct s \<and> 0 \<le> sy_SlowPct s) (tm_Services (traceSummaryFromIncidents 0 minute []))"
proof -
  let ?D = "\<lparr>dv_reports = (\<lambda>_. Inr []), dv_get_report = (\<lambda>_ _. Inl NotFound), dv_agents = Inr [], dv_rules = Inr [],
    dv_selector = (\<lambda>_. []), dv_unmarshal = (\<lambda>_. None), dv_age = (\<lambda>_. []), dv_range = id\<rparr>"
  have "fst (computeTraceSummary ?D 0 minute None) = Inr (traceSummaryFromIncidents 0 minute [])" by (simp add: computeTraceSummary_def)
  from conjunct2 [OF conjunct2 [OF summary_rows [OF this]]] show ?thesis .
qed

text \<open>One error and seven slow spans: 13 and 88.\<close>

lemma shares_exceed_hundred: "pctOf 1 8 + pctOf 7 8 = 101"
  by (simp add: pctOf_def)

end
