(* ===== verification/Report_View.thy ===== *)
theory Report_View
  imports Incident_List
begin

text \<open>
  The printable reports of the dashboard (\<open>internal/dashboard/report.go\<close>): the view models that
  are handed to the HTML templates. The formatting of a time is the parameter \<open>fmt\<close> (with its
  layout); templates are not modelled. A float number of hours is truncated as the integer quotient, which
  differs from the float's only within a nanosecond of a full hour, after half a year.
\<close>

definition maxClusterReportRows :: nat where "maxClusterReportRows = 200"

record report_meta =
  rm_Title :: string
  rm_Heading :: string
  rm_GeneratedAt :: string
  rm_DownloadName :: string

record signal_view =
  sg_Text :: string
  sg_Count :: nat

record timeline_view =
  tv_Time :: string
  tv_Rel :: string
  tv_Event :: string

record incident_view =
  iv_Meta :: report_meta
  iv_Name :: string
  iv_Namespace :: string
  iv_Title :: string
  iv_Severity :: string
  iv_SeverityLabel :: string
  iv_Phase :: string
  iv_IncidentType :: string
  iv_Summary :: string
  iv_Message :: string
  iv_Reason :: string
  iv_FiredRule :: string
  iv_AgentRef :: string
  iv_PodName :: string
  iv_SignalCount :: int
  iv_Notified :: bool
  iv_FirstObservedAt :: string
  iv_ActiveAt :: string
  iv_LastObservedAt :: string
  iv_ResolvedAt :: string
  iv_Duration :: string
  iv_Resources :: "(string \<times> string \<times> string) list"
  iv_Signals :: "signal_view list"
  iv_SignalsUnique :: nat
  iv_SignalsTotal :: nat
  iv_Timeline :: "timeline_view list"
  iv_TraceIDs :: "string list"

record agent_view =
  av_Name :: string
  av_Healthy :: bool
  av_Namespaces :: "string list"

record row_view =
  rw_Severity :: string
  rw_Phase :: string
  rw_IncidentType :: string
  rw_Title :: string
  rw_Namespace :: string
  rw_FirstObservedAt :: string
  rw_ts :: gotime

record cluster_view =
  cv_Meta :: report_meta
  cv_Active :: nat
  cv_Detecting :: nat
  cv_Resolved :: nat
  cv_Total :: nat
  cv_P1 :: nat
  cv_P2 :: nat
  cv_P3 :: nat
  cv_POther :: nat
  cv_AgentCount :: nat
  cv_NamespaceCount :: nat
  cv_Agents :: "agent_view list"
  cv_Incidents :: "row_view list"
  cv_IncidentTotal :: nat
  cv_Capped :: bool

section \<open>Text\<close>

definition isEmptyKeyFragment :: "string \<Rightarrow> bool" where
  "isEmptyKeyFragment tok =
     (if \<not> has_suffix tok ''='' then False
      else let key = butlast tok; ident = (\<lambda>r. r = CHR ''_'' \<or> is_upper r \<or> is_lower r)
           in case key of [] \<Rightarrow> False
              | c # cs \<Rightarrow> ident c \<and> list_all (\<lambda>r. ident r \<or> r = CHR ''.'' \<or> r = CHR ''-'' \<or> is_digit r) cs)"

definition cleanSignalGo :: "string \<Rightarrow> string" where
  "cleanSignalGo s = str_join '' '' (filter (\<lambda>f. \<not> isEmptyKeyFragment f) (str_words s))"

text \<open>The em dash is three bytes of UTF-8.\<close>

abbreviation em_dash :: string where "em_dash \<equiv> [CHR 0xE2, CHR 0x80, CHR 0x94]"

definition incidentTitleGo :: "incident_response \<Rightarrow> string" where
  "incidentTitleGo base =
     (let pod = trim_space (ix_PodName base)
      in if pod \<noteq> [] \<and> \<not> equal_fold pod ''unknown'' then pod
         else case find (\<lambda>r. ar_Name r \<noteq> []) (ix_AffectedResources base) of
                Some r \<Rightarrow> ar_Name r
              | None \<Rightarrow> if ix_IncidentType base \<noteq> [] then ix_IncidentType base
                        else if ix_Name base \<noteq> [] then ix_Name base else em_dash)"

text \<open>\<open>groupSignals\<close>: the texts in order of first use and how often each occurs.\<close>

definition count_text :: "string \<Rightarrow> string list \<times> (string \<Rightarrow> nat) \<times> nat \<Rightarrow> string list \<times> (string \<Rightarrow> nat) \<times> nat" where
  "count_text s st =
     (let (order, counts, tot) = st; c = cleanSignalGo s
      in if c = [] then st
         else (if counts c = 0 then order @ [c] else order, counts(c := Suc (counts c)), Suc tot))"

definition signal_order :: "signal_view \<Rightarrow> int \<times> string" where
  "signal_order g = (- int (sg_Count g), sg_Text g)"

definition groupSignals :: "string list \<Rightarrow> signal_view list \<times> nat \<times> nat" where
  "groupSignals raw =
     (let (order, counts, tot) = fold count_text raw ([], (\<lambda>_. 0), 0)
      in (sort_key signal_order (map (\<lambda>t. \<lparr>sg_Text = t, sg_Count = counts t\<rparr>) order), length order, tot))"

definition severityLabel :: "string \<Rightarrow> string" where
  "severityLabel sev = (if sev = ''P1'' then ''Critical'' else if sev = ''P2'' then ''High'' else if sev = ''P3'' then ''Medium'' else [])"

definition fmtTime :: "(string \<Rightarrow> gotime \<Rightarrow> string) \<Rightarrow> gotime option \<Rightarrow> string" where
  "fmtTime fmt t = (case t of None \<Rightarrow> [] | Some t \<Rightarrow> if time_is_zero t then [] else fmt ''2006-01-02 15:04:05 UTC'' t)"

definition day :: duration where "day = 24 * hour"

definition relTimeGo :: "gotime option \<Rightarrow> gotime \<Rightarrow> string" where
  "relTimeGo t now = (case t of None \<Rightarrow> [] | Some t \<Rightarrow>
     if time_is_zero t then []
     else let d = max (time_sub now t) 0
          in if d < minute then itoa (d div second) @ ''s ago''
             else if d < hour then itoa (d div minute) @ ''m ago''
             else if d < day then itoa (d div hour) @ ''h ago''
             else itoa (d div hour div 24) @ ''d ago'')"

definition humanDuration :: "duration \<Rightarrow> string" where
  "humanDuration d =
     (if d < minute then itoa (d div second) @ ''s''
      else if d < hour then itoa (d div minute) @ ''m '' @ itoa (d div second mod 60) @ ''s''
      else if d < day then itoa (d div hour) @ ''h '' @ itoa (d div minute mod 60) @ ''m''
      else itoa (d div hour div 24) @ ''d '' @ itoa (d div hour mod 24) @ ''h'')"

definition incidentDuration :: "incident_response \<Rightarrow> gotime \<Rightarrow> string" where
  "incidentDuration base now =
     (case (case ix_ActiveAt base of Some t \<Rightarrow> Some t | None \<Rightarrow> ix_FirstObservedAt base) of
        None \<Rightarrow> []
      | Some start \<Rightarrow>
          let stop = (case ix_ResolvedAt base of Some t \<Rightarrow> t | None \<Rightarrow> now) in humanDuration (max (time_sub stop start) 0))"

definition safe_file_char :: "char \<Rightarrow> bool" where
  "safe_file_char r \<longleftrightarrow> is_lower r \<or> is_upper r \<or> is_digit r \<or> r = CHR ''-'' \<or> r = CHR ''_'' \<or> r = CHR ''.''"

definition sanitizeFilePart :: "string \<Rightarrow> string" where
  "sanitizeFilePart s = (let b = map (\<lambda>r. if safe_file_char r then r else CHR ''-'') s in if b = [] then ''report'' else b)"

definition incidentDownloadName :: "(string \<Rightarrow> gotime \<Rightarrow> string) \<Rightarrow> string \<Rightarrow> string \<Rightarrow> gotime \<Rightarrow> string" where
  "incidentDownloadName fmt ns name now =
     ''rca-incident-'' @ sanitizeFilePart ns @ ''-'' @ sanitizeFilePart name @ ''-'' @ fmt ''20060102-150405'' now @ ''.html''"

definition clusterDownloadName :: "(string \<Rightarrow> gotime \<Rightarrow> string) \<Rightarrow> gotime \<Rightarrow> string" where
  "clusterDownloadName fmt now = ''rca-cluster-report-'' @ fmt ''20060102-150405'' now @ ''.html''"

section \<open>Views\<close>

definition buildIncidentReportView ::
    "dash_env \<Rightarrow> (string \<Rightarrow> gotime \<Rightarrow> string) \<Rightarrow> incident_report \<Rightarrow> gotime \<Rightarrow> incident_view" where
  "buildIncidentReportView D fmt item now =
     (let base = toIncidentResponse D item; (signals, unique, tot) = groupSignals (ix_CorrelatedSignals base);
          summary = cleanSignalGo (ix_Summary base); msg = cleanSignalGo (ix_Message base)
      in \<lparr>iv_Meta = \<lparr>rm_Title = ''RCA Incident Report '' @ em_dash @ '' '' @ report_name item, rm_Heading = ''Incident Report'',
                     rm_GeneratedAt = fmtTime fmt (Some now), rm_DownloadName = incidentDownloadName fmt (report_ns item) (report_name item) now\<rparr>,
          iv_Name = ix_Name base, iv_Namespace = ix_Namespace base, iv_Title = incidentTitleGo base,
          iv_Severity = ix_Severity base, iv_SeverityLabel = severityLabel (ix_Severity base), iv_Phase = ix_Phase base,
          iv_IncidentType = ix_IncidentType base, iv_Summary = summary,
          iv_Message = (if msg \<noteq> [] \<and> msg \<noteq> summary then msg else []),
          iv_Reason = ix_Reason base, iv_FiredRule = ix_FiredRule base, iv_AgentRef = ix_AgentRef base,
          iv_PodName = ix_PodName base, iv_SignalCount = ix_SignalCount base, iv_Notified = ix_Notified base,
          iv_FirstObservedAt = fmtTime fmt (ix_FirstObservedAt base), iv_ActiveAt = fmtTime fmt (ix_ActiveAt base),
          iv_LastObservedAt = fmtTime fmt (ix_LastObservedAt base), iv_ResolvedAt = fmtTime fmt (ix_ResolvedAt base),
          iv_Duration = incidentDuration base now,
          iv_Resources = map (\<lambda>r. (ar_Kind r, ar_Name r, ar_Namespace r)) (ix_AffectedResources base),
          iv_Signals = signals, iv_SignalsUnique = unique, iv_SignalsTotal = tot,
          iv_Timeline = map (\<lambda>e. \<lparr>tv_Time = fmtTime fmt (Some (tl_Time e)), tv_Rel = relTimeGo (Some (tl_Time e)) now,
              tv_Event = cleanSignalGo (tl_Event e)\<rparr>) (sort_key tl_Time (ix_Timeline base)),
          iv_TraceIDs = collectTraceIDs (om_Annotations (ir_Meta item))\<rparr>)"

definition incident_row :: "(string \<Rightarrow> gotime \<Rightarrow> string) \<Rightarrow> incident_response \<Rightarrow> row_view" where
  "incident_row fmt base = \<lparr>rw_Severity = ix_Severity base, rw_Phase = ix_Phase base, rw_IncidentType = ix_IncidentType base,
     rw_Title = incidentTitleGo base, rw_Namespace = ix_Namespace base,
     rw_FirstObservedAt = fmtTime fmt (ix_FirstObservedAt base), rw_ts = incidentTimestamp base\<rparr>"

definition row_rank :: "row_view \<Rightarrow> int \<times> int" where
  "row_rank r = (- dash_severityRank (rw_Severity r), - rw_ts r)"

definition buildClusterReportView ::
    "dash_env \<Rightarrow> (string \<Rightarrow> gotime \<Rightarrow> string) \<Rightarrow> stats_response \<Rightarrow> incident_report list \<Rightarrow> gotime \<Rightarrow> cluster_view" where
  "buildClusterReportView D fmt stats items now =
     (let bases = map (toIncidentResponse D) items; live = filter (\<lambda>b. ix_Phase b \<noteq> ''Resolved'') bases;
          count = (\<lambda>s. length (filter (\<lambda>b. ix_Severity b = s) live));
          rows = sort_key row_rank (map (incident_row fmt) bases);
          over = maxClusterReportRows < length rows
      in \<lparr>cv_Meta = \<lparr>rm_Title = ''RCA Cluster Report'', rm_Heading = ''Cluster Report'',
                     rm_GeneratedAt = fmtTime fmt (Some now), rm_DownloadName = clusterDownloadName fmt now\<rparr>,
          cv_Active = sr_Active stats, cv_Detecting = sr_Detecting stats, cv_Resolved = sr_Resolved stats,
          cv_Total = sr_Active stats + sr_Detecting stats + sr_Resolved stats,
          cv_P1 = count ''P1'', cv_P2 = count ''P2'', cv_P3 = count ''P3'',
          cv_POther = length (filter (\<lambda>b. ix_Severity b \<notin> {''P1'', ''P2'', ''P3''}) live),
          cv_AgentCount = length (sr_Agents stats), cv_NamespaceCount = card (dom (sr_Namespaces stats)),
          cv_Agents = sort_key av_Name (map (\<lambda>a. \<lparr>av_Name = ai_Name a, av_Healthy = ai_Healthy a,
              av_Namespaces = ai_WatchNamespaces a\<rparr>) (sr_Agents stats)),
          cv_Incidents = (if over then take maxClusterReportRows rows else rows),
          cv_IncidentTotal = length rows, cv_Capped = over\<rparr>)"

section \<open>Lemmas\<close>

definition cleaned :: "string list \<Rightarrow> string list" where
  "cleaned raw = filter (\<lambda>c. c \<noteq> []) (map cleanSignalGo raw)"

lemma count_text_fold:
  "fold count_text raw (order, counts, tot) = (order', counts', tot') \<Longrightarrow>
     set order = {c. counts c \<noteq> 0} \<Longrightarrow> distinct order \<Longrightarrow>
     (\<forall>c. counts' c = counts c + count_list (cleaned raw) c) \<and> tot' = tot + length (cleaned raw) \<and>
     set order' = {c. counts' c \<noteq> 0} \<and> distinct order'"
proof (induction raw arbitrary: order counts tot)
  case (Cons s raw)
  show ?case
  proof (cases "cleanSignalGo s = []")
    case True
    then have "count_text s (order, counts, tot) = (order, counts, tot)" "cleaned (s # raw) = cleaned raw"
      by (simp_all add: count_text_def cleaned_def)
    then have "fold count_text raw (order, counts, tot) = (order', counts', tot')" "cleaned (s # raw) = cleaned raw"
      using Cons.prems(1) by simp_all
    then show ?thesis using Cons.IH [OF _ Cons.prems(2,3)] by simp
  next
    case False
    let ?c = "cleanSignalGo s"
    let ?order = "if counts ?c = 0 then order @ [?c] else order"
    have "set ?order = {c. (counts(?c := Suc (counts ?c))) c \<noteq> 0}" "distinct ?order" using Cons.prems(2,3) by auto
    note IH = Cons.IH [OF _ this]
    have "count_text s (order, counts, tot) = (?order, counts(?c := Suc (counts ?c)), Suc tot)"
      "cleaned (s # raw) = ?c # cleaned raw" using False by (simp_all add: count_text_def cleaned_def Let_def)
    then have "fold count_text raw (?order, counts(?c := Suc (counts ?c)), Suc tot) = (order', counts', tot')"
      and cl: "cleaned (s # raw) = ?c # cleaned raw" using Cons.prems(1) by simp_all
    from IH [OF this(1)] show ?thesis unfolding cl by (auto split: if_splits)
  qed
qed (simp add: cleaned_def)

lemma sanitizeFilePart_safe: "sanitizeFilePart s \<noteq> [] \<and> list_all safe_file_char (sanitizeFilePart s)"
proof -
  have "list_all safe_file_char ''report''" by (simp add: safe_file_char_def is_lower_def)
  then show ?thesis by (auto simp: sanitizeFilePart_def Let_def list_all_iff safe_file_char_def [of "CHR ''-''"])
qed

text \<open>The counts per severity add up to the incidents that are not resolved.\<close>

lemma cluster_severities:
  "let v = buildClusterReportView D fmt stats items now
   in cv_P1 v + cv_P2 v + cv_P3 v + cv_POther v = length (filter (\<lambda>i. report_phase i \<noteq> ''Resolved'') items)"
proof -
  have "length (filter (\<lambda>b. ix_Severity b = ''P1'') bs) + length (filter (\<lambda>b. ix_Severity b = ''P2'') bs) +
      length (filter (\<lambda>b. ix_Severity b = ''P3'') bs) + length (filter (\<lambda>b. ix_Severity b \<notin> {''P1'', ''P2'', ''P3''}) bs) = length bs" for bs
    by (induction bs) auto
  note sum = this
  have "length (filter (\<lambda>b. ix_Phase b \<noteq> ''Resolved'') (map (toIncidentResponse D) items)) =
      length (filter (\<lambda>i. report_phase i \<noteq> ''Resolved'') items)"
    by (simp add: filter_map comp_def toIncidentResponse_def Let_def)
  then show ?thesis unfolding buildClusterReportView_def Let_def cluster_view.select_convs sum .
qed

section \<open>Properties\<close>

text \<open>The signals of a report are grouped without loss: every text appears once, with the number of raw
  signals that clean to it (those that clean to nothing are left out), the groups are ordered by
  frequency and then text, and the two totals are the number of groups and of signals counted.
\<close>

theorem group_signals_exact:
  assumes "groupSignals raw = (groups, unique, tot)"
  shows "distinct (map sg_Text groups) \<and> set (map sg_Text groups) = set (cleaned raw) \<and>
    list_all (\<lambda>g. sg_Count g = count_list (cleaned raw) (sg_Text g)) groups \<and>
    sorted (map signal_order groups) \<and> unique = length groups \<and> tot = length (cleaned raw)"
proof -
  obtain order counts t where f: "fold count_text raw ([], (\<lambda>_. 0), 0) = (order, counts, t)" by (metis prod_cases3)
  note spec = count_text_fold [OF f, simplified]
  let ?gs = "map (\<lambda>t. \<lparr>sg_Text = t, sg_Count = counts t\<rparr>) order"
  have g: "groups = sort_key signal_order ?gs" "unique = length order" "tot = t" using assms f by (simp_all add: groupSignals_def)
  have "map sg_Text ?gs = order" by (simp add: comp_def)
  then have ms: "mset (map sg_Text groups) = mset order" unfolding g mset_map mset_sort by (metis mset_map)
  have texts: "distinct (map sg_Text groups)" "set (map sg_Text groups) = set order"
    using mset_eq_imp_distinct_iff [OF ms] mset_eq_setD [OF ms] spec by auto
  moreover have "set order = set (cleaned raw)" using spec by (simp add: set_eq_iff count_list_0_iff flip: neq0_conv)
  moreover have "list_all (\<lambda>g. sg_Count g = count_list (cleaned raw) (sg_Text g)) groups" using spec by (auto simp: g list_all_iff)
  ultimately show ?thesis using spec by (simp add: g)
qed

theorem group_signals_exact_witness:
  "\<exists>groups unique tot. groupSignals [''a b'', ''a  b'', ''c''] = (groups, unique, tot) \<and> distinct (map sg_Text groups)"
proof -
  obtain groups unique tot where "groupSignals [''a b'', ''a  b'', ''c''] = (groups, unique, tot)" by (metis prod_cases3)
  with group_signals_exact [OF this] show ?thesis by blast
qed

end
