(* ===== verification/Trace_View.thy ===== *)
theory Trace_View
  imports Jaeger Go_Text Otel_Ingest "HOL-Library.Signed_Division"
begin

text \<open>
  The trace page of the dashboard (\<open>internal/dashboard/handlers_trace.go\<close>): how a trace of the
  store becomes the summary the page shows. Floats are of the parameter type \<open>'fl\<close>, with the
  operations on them in \<open>float_ops\<close>.
\<close>

record 'fl float_ops =
  fo_integral :: "'fl \<Rightarrow> int option"
  fo_format :: "'fl \<Rightarrow> string"
  fo_percent :: "int \<Rightarrow> int \<Rightarrow> 'fl"
  fo_zero :: 'fl

definition maxSpansReturned :: nat where
  "maxSpansReturned = 500"

record trace_span =
  ts_SpanID :: string
  ts_ParentSpanID :: string
  ts_Service :: string
  ts_Operation :: string
  ts_StartOffsetUs :: int
  ts_DurationUs :: int
  ts_Depth :: int
  ts_Kind :: string
  ts_IsError :: bool
  ts_StatusCode :: string
  ts_HTTPMethod :: string
  ts_HTTPURL :: string
  ts_DBStatement :: string
  ts_DBSystem :: string
  ts_PeerService :: string
  ts_PodName :: string
  ts_PodNamespace :: string
  ts_NodeName :: string
  ts_ContainerName :: string
  ts_ExceptionType :: string
  ts_ExceptionMsg :: string
  ts_Tags :: "string \<rightharpoonup> string"

record 'fl service_stat =
  sv_Service :: string
  sv_SpanCount :: nat
  sv_TotalDurUs :: int
  sv_PercentOfTrace :: 'fl

record 'fl trace_response =
  tr_TraceID :: string
  tr_StartTime :: gotime
  tr_DurationMicros :: int
  tr_SpanCount :: nat
  tr_ServiceCount :: nat
  tr_Status :: string
  tr_RootService :: string
  tr_RootOperation :: string
  tr_CriticalPathMs :: int
  tr_SpansShown :: "trace_span list"
  tr_ErrorSpans :: "string list"
  tr_ServiceBreakdown :: "'fl service_stat list"
  tr_Truncated :: bool

section \<open>Values and tags\<close>

definition looksLikeTraceID :: "string \<Rightarrow> bool" where
  "looksLikeTraceID s \<longleftrightarrow> \<not> (length s < 8 \<or> 64 < length s) \<and>
     list_all (\<lambda>r. is_digit r \<or> 97 \<le> byte_of r \<and> byte_of r \<le> 102 \<or> 65 \<le> byte_of r \<and> byte_of r \<le> 70) s"

definition isHTTPError :: "string \<Rightarrow> bool" where
  "isHTTPError code \<longleftrightarrow> (case code of [] \<Rightarrow> False | c # _ \<Rightarrow> c = CHR ''4'' \<or> c = CHR ''5'')"

definition stringValue :: "'fl float_ops \<Rightarrow> 'fl any_value \<Rightarrow> string" where
  "stringValue F v = (case v of AnyString t \<Rightarrow> t | AnyBool t \<Rightarrow> (if t then ''true'' else ''false'')
     | AnyFloat t \<Rightarrow> (case fo_integral F t of Some n \<Rightarrow> itoa n | None \<Rightarrow> fo_format F t)
     | AnyOther \<Rightarrow> [])"

text \<open>The ellipsis is three bytes of UTF-8.\<close>

definition truncate_text :: "string \<Rightarrow> nat \<Rightarrow> string" where
  "truncate_text s n = (if length s \<le> n then s else take n s @ [CHR 0xE2, CHR 0x80, CHR 0xA6])"

definition jsonStringValue :: "string \<Rightarrow> string \<Rightarrow> string" where
  "jsonStringValue s key =
     (case cut2 s ([CHR 0x22] @ key @ [CHR 0x22]) of None \<Rightarrow> []
      | Some (_, rest) \<Rightarrow>
          (case cut2 rest ([CHR 0x22] @ ''value'' @ [CHR 0x22]) of None \<Rightarrow> []
           | Some (before, after) \<Rightarrow>
               if 80 < length before then []
               else (case cut2 after [CHR 0x22] of None \<Rightarrow> []
                     | Some (_, after) \<Rightarrow> (case cut2 after [CHR 0x22] of None \<Rightarrow> [] | Some (val, _) \<Rightarrow> val))))"

definition parentOf :: "'fl jaeger_span \<Rightarrow> string" where
  "parentOf sp = (case find (\<lambda>ref. sr_RefType ref = ''CHILD_OF'' \<or> sr_RefType ref = ''FOLLOWS_FROM'') (js_References sp) of
     None \<Rightarrow> [] | Some ref \<Rightarrow> sr_SpanID ref)"

definition serviceFor :: "'fl jaeger_span \<Rightarrow> (string \<rightharpoonup> 'fl jaeger_process) \<Rightarrow> string" where
  "serviceFor sp processes = (case processes (js_ProcessID sp) of Some p \<Rightarrow> jp_ServiceName p | None \<Rightarrow> [])"

text \<open>One tag of \<open>extractTags\<close>: the span and the free tags collected so far, with their number.\<close>

definition free_tag :: "string \<Rightarrow> string \<Rightarrow> trace_span \<times> string list \<Rightarrow> trace_span \<times> string list" where
  "free_tag k v acc = (let (ts, keys) = acc
     in if v \<noteq> [] \<and> length keys < 16
        then (ts\<lparr>ts_Tags := (ts_Tags ts)(k \<mapsto> truncate_text v 160)\<rparr>, List.insert k keys) else acc)"

definition extract_tag :: "'fl float_ops \<Rightarrow> 'fl jaeger_tag \<Rightarrow> trace_span \<times> string list \<Rightarrow> trace_span \<times> string list" where
  "extract_tag F kv acc =
     (let k = jt_Key kv; v = stringValue F (jt_Value kv); (ts, keys) = acc;
          failed = (\<lambda>b ts. if b then ts\<lparr>ts_IsError := True\<rparr> else ts)
      in if k = ''span.kind'' then (ts\<lparr>ts_Kind := to_upper v\<rparr>, keys)
         else if k = ''error'' then (failed (v = ''true'') ts, keys)
         else if k = ''otel.status_code'' then
           (let ts = failed (equal_fold v ''ERROR'') ts in (if v \<noteq> [] then ts\<lparr>ts_StatusCode := v\<rparr> else ts, keys))
         else if k \<in> {''http.method'', ''http.request.method''} then (ts\<lparr>ts_HTTPMethod := v\<rparr>, keys)
         else if k \<in> {''http.url'', ''url.full'', ''http.target''} then
           (if ts_HTTPURL ts = [] then ts\<lparr>ts_HTTPURL := v\<rparr> else ts, keys)
         else if k \<in> {''http.status_code'', ''http.response.status_code''} then
           (failed (isHTTPError v) (ts\<lparr>ts_StatusCode := v\<rparr>), keys)
         else if k = ''rpc.grpc.status_code'' then
           (failed (v \<noteq> ''0'' \<and> v \<noteq> []) (ts\<lparr>ts_StatusCode := ''grpc:'' @ v\<rparr>), keys)
         else if k = ''db.statement'' then (ts\<lparr>ts_DBStatement := truncate_text v 200\<rparr>, keys)
         else if k = ''db.system'' then (ts\<lparr>ts_DBSystem := v\<rparr>, keys)
         else if k = ''peer.service'' then (ts\<lparr>ts_PeerService := v\<rparr>, keys)
         else if k = ''k8s.pod.name'' then (ts\<lparr>ts_PodName := v\<rparr>, keys)
         else if k = ''k8s.namespace.name'' then (ts\<lparr>ts_PodNamespace := v\<rparr>, keys)
         else if k = ''k8s.node.name'' then (ts\<lparr>ts_NodeName := v\<rparr>, keys)
         else if k = ''k8s.container.name'' then (ts\<lparr>ts_ContainerName := v\<rparr>, keys)
         else free_tag k v acc)"

definition extractTags :: "'fl float_ops \<Rightarrow> 'fl jaeger_span \<Rightarrow> trace_span \<Rightarrow> trace_span" where
  "extractTags F sp ts = fst (fold (extract_tag F) (js_Tags sp) (ts, []))"

definition process_tag :: "'fl float_ops \<Rightarrow> 'fl jaeger_tag \<Rightarrow> trace_span \<Rightarrow> trace_span" where
  "process_tag F kv ts =
     (let k = jt_Key kv; v = stringValue F (jt_Value kv)
      in if k = ''k8s.pod.name'' then (if ts_PodName ts = [] then ts\<lparr>ts_PodName := v\<rparr> else ts)
         else if k = ''k8s.namespace.name'' then (if ts_PodNamespace ts = [] then ts\<lparr>ts_PodNamespace := v\<rparr> else ts)
         else if k = ''k8s.node.name'' then (if ts_NodeName ts = [] then ts\<lparr>ts_NodeName := v\<rparr> else ts)
         else if k = ''k8s.container.name'' then (if ts_ContainerName ts = [] then ts\<lparr>ts_ContainerName := v\<rparr> else ts)
         else ts)"

definition extractProcessTags :: "'fl float_ops \<Rightarrow> 'fl jaeger_process option \<Rightarrow> trace_span \<Rightarrow> trace_span" where
  "extractProcessTags F p ts = (case p of None \<Rightarrow> ts | Some p \<Rightarrow> fold (process_tag F) (jp_Tags p) ts)"

definition log_exception :: "string \<Rightarrow> trace_span \<Rightarrow> trace_span" where
  "log_exception s ts =
     (let v = jsonStringValue s ''exception.type'';
          ts = (if v \<noteq> [] \<and> ts_ExceptionType ts = [] then ts\<lparr>ts_ExceptionType := v, ts_IsError := True\<rparr> else ts);
          m = jsonStringValue s ''exception.message''
      in if m \<noteq> [] \<and> ts_ExceptionMsg ts = []
         then ts\<lparr>ts_ExceptionMsg := truncate_text m 240, ts_IsError := True\<rparr> else ts)"

primrec extract_logs :: "string list \<Rightarrow> trace_span \<Rightarrow> trace_span" where
  "extract_logs [] ts = ts"
| "extract_logs (s # logs) ts =
     (if \<not> str_contains s ''exception.'' then extract_logs logs ts
      else if ts_ExceptionType (log_exception s ts) \<noteq> [] \<and> ts_ExceptionMsg (log_exception s ts) \<noteq> []
      then log_exception s ts else extract_logs logs (log_exception s ts))"

definition extractErrorEvents :: "'fl jaeger_span \<Rightarrow> trace_span \<Rightarrow> trace_span" where
  "extractErrorEvents sp ts = extract_logs (js_Logs sp) ts"

section \<open>Tree and intervals\<close>

text \<open>The index of the spans: the last span of an id.\<close>

definition span_index :: "'fl jaeger_span list \<Rightarrow> string \<rightharpoonup> 'fl jaeger_span" where
  "span_index spans = fold (\<lambda>sp idx. idx(js_SpanID sp \<mapsto> sp)) spans Map.empty"

function spanDepth :: "'fl jaeger_span \<Rightarrow> (string \<rightharpoonup> 'fl jaeger_span) \<Rightarrow> int \<Rightarrow> int" where
  "spanDepth sp idx guard =
     (if 64 < guard then guard
      else let p = parentOf sp
           in if p = [] then 0
              else case idx p of None \<Rightarrow> 0 | Some parent \<Rightarrow> 1 + spanDepth parent idx (guard + 1))"
  by pat_completeness auto
termination
  by (relation "measure (\<lambda>(sp, idx, guard). nat (65 - guard))") auto

declare spanDepth.simps [simp del]

fun merge_into :: "int \<times> int \<Rightarrow> (int \<times> int) list \<Rightarrow> (int \<times> int) list" where
  "merge_into cur [] = [cur]"
| "merge_into cur (iv # ivs) =
     (if fst iv \<le> snd cur then merge_into (fst cur, if snd cur < snd iv then snd iv else snd cur) ivs
      else cur # merge_into iv ivs)"

text \<open>\<open>sort.Slice\<close> leaves the order of equal starts open; the stable order stands for it, and
  \<open>merge_any_order\<close> shows that the merged length is the same for every other.\<close>

definition mergeIntervals :: "(int \<times> int) list \<Rightarrow> (int \<times> int) list" where
  "mergeIntervals ivs = (if length ivs \<le> 1 then ivs
     else case sort_key fst ivs of [] \<Rightarrow> [] | iv # rest \<Rightarrow> merge_into iv rest)"

text \<open>The walk of \<open>criticalPathMicros\<close>: the fuel is 129 minus the depth. The children of a span
  are the indexed spans that name it as their parent.\<close>

definition path_children :: "string list \<Rightarrow> (string \<rightharpoonup> 'fl jaeger_span) \<Rightarrow> string \<Rightarrow> string list" where
  "path_children ids idx p = (if p = [] then []
     else filter (\<lambda>c. case idx c of None \<Rightarrow> False | Some sp \<Rightarrow> parentOf sp = p) ids)"

fun path_walk :: "nat \<Rightarrow> string list \<Rightarrow> (string \<rightharpoonup> 'fl jaeger_span) \<Rightarrow> string \<Rightarrow> int" where
  "path_walk 0 ids idx sid = 0"
| "path_walk (Suc n) ids idx sid = (case idx sid of None \<Rightarrow> 0
     | Some sp \<Rightarrow> wrap64 (js_Duration sp +
         fold (\<lambda>ch m. let d = path_walk n ids idx ch in if m < d then d else m) (path_children ids idx sid) 0))"

definition criticalPathMicros :: "string \<Rightarrow> string list \<Rightarrow> (string \<rightharpoonup> 'fl jaeger_span) \<Rightarrow> int" where
  "criticalPathMicros rootID ids idx = path_walk 129 ids idx rootID"

section \<open>The response\<close>

definition min_start :: "'fl jaeger_span list \<Rightarrow> int" where
  "min_start spans = fold (\<lambda>sp m. if js_StartTime sp < m then js_StartTime sp else m) spans (js_StartTime (hd spans))"

definition span_end :: "'fl jaeger_span \<Rightarrow> int" where
  "span_end sp = wrap64 (js_StartTime sp + js_Duration sp)"

definition max_end :: "'fl jaeger_span list \<Rightarrow> int" where
  "max_end spans = fold (\<lambda>sp m. if m < span_end sp then span_end sp else m) spans 0"

definition blank_span :: trace_span where
  "blank_span = \<lparr>ts_SpanID = [], ts_ParentSpanID = [], ts_Service = [], ts_Operation = [], ts_StartOffsetUs = 0,
     ts_DurationUs = 0, ts_Depth = 0, ts_Kind = [], ts_IsError = False, ts_StatusCode = [], ts_HTTPMethod = [],
     ts_HTTPURL = [], ts_DBStatement = [], ts_DBSystem = [], ts_PeerService = [], ts_PodName = [], ts_PodNamespace = [],
     ts_NodeName = [], ts_ContainerName = [], ts_ExceptionType = [], ts_ExceptionMsg = [], ts_Tags = Map.empty\<rparr>"

definition trace_span_of :: "'fl float_ops \<Rightarrow> 'fl jaeger_trace \<Rightarrow> 'fl jaeger_span \<Rightarrow> trace_span" where
  "trace_span_of F t sp = extractErrorEvents sp (extractProcessTags F (tr_Processes t (js_ProcessID sp)) (extractTags F sp
     (blank_span\<lparr>ts_SpanID := js_SpanID sp, ts_ParentSpanID := parentOf sp, ts_Service := serviceFor sp (tr_Processes t),
        ts_Operation := js_OperationName sp, ts_StartOffsetUs := wrap64 (js_StartTime sp - min_start (tr_Spans t)),
        ts_DurationUs := js_Duration sp, ts_Depth := spanDepth sp (span_index (tr_Spans t)) 0\<rparr>)))"

definition span_order :: "trace_span \<Rightarrow> int \<times> int" where
  "span_order ts = (ts_StartOffsetUs ts, ts_Depth ts)"

text \<open>The root: its sid, start, service and operation.\<close>

definition root_step :: "(string \<rightharpoonup> 'fl jaeger_process) \<Rightarrow> 'fl jaeger_span \<Rightarrow> string \<times> int \<times> string \<times> string
    \<Rightarrow> string \<times> int \<times> string \<times> string" where
  "root_step processes sp root = (let (rootID, rootStart, _) = root
     in if rootID = [] \<or> parentOf sp = [] \<and> js_StartTime sp \<le> rootStart
        then (if parentOf sp = [] then (js_SpanID sp, js_StartTime sp, serviceFor sp processes, js_OperationName sp) else root)
        else root)"

definition cap_spans :: "string list \<Rightarrow> trace_span list \<Rightarrow> trace_span list" where
  "cap_spans errorSpans out =
     (let errs = filter (\<lambda>sp. ts_SpanID sp \<in> set errorSpans) out;
          rest = sort_key (\<lambda>sp. - ts_DurationUs sp) (filter (\<lambda>sp. ts_SpanID sp \<notin> set errorSpans) out);
          room = maxSpansReturned - length errs
      in sort_key span_order (errs @ take room rest))"

definition total_of :: "(int \<times> int) list \<Rightarrow> int" where
  "total_of merged = fold (\<lambda>m total. wrap64 (total + wrap64 (snd m - fst m))) merged 0"

definition service_stat_of :: "'fl float_ops \<Rightarrow> 'fl jaeger_trace \<Rightarrow> int \<Rightarrow> string \<Rightarrow> 'fl service_stat" where
  "service_stat_of F t totalDur svc =
     (let own = filter (\<lambda>sp. serviceFor sp (tr_Processes t) = svc) (tr_Spans t);
          merged = mergeIntervals (map (\<lambda>sp. (js_StartTime sp, span_end sp)) own);
          total = total_of merged
      in \<lparr>sv_Service = svc, sv_SpanCount = length own, sv_TotalDurUs = total,
          sv_PercentOfTrace = (if 0 < totalDur then fo_percent F total totalDur else fo_zero F)\<rparr>)"

definition blank_response :: "'fl float_ops \<Rightarrow> string \<Rightarrow> 'fl trace_response" where
  "blank_response F sid = \<lparr>tr_TraceID = sid, tr_StartTime = 0, tr_DurationMicros = 0, tr_SpanCount = 0, tr_ServiceCount = 0,
     tr_Status = ''ok'', tr_RootService = [], tr_RootOperation = [], tr_CriticalPathMs = 0, tr_SpansShown = [],
     tr_ErrorSpans = [], tr_ServiceBreakdown = [], tr_Truncated = False\<rparr>"

definition trace_spans :: "'fl float_ops \<Rightarrow> 'fl jaeger_trace \<Rightarrow> trace_span list" where
  "trace_spans F t = map (trace_span_of F t) (tr_Spans t)"

definition error_ids :: "'fl float_ops \<Rightarrow> 'fl jaeger_trace \<Rightarrow> string list" where
  "error_ids F t = map ts_SpanID (filter ts_IsError (trace_spans F t))"

definition buildTraceResponse :: "'fl float_ops \<Rightarrow> string \<Rightarrow> 'fl jaeger_trace option \<Rightarrow> 'fl trace_response" where
  "buildTraceResponse F sid trace = (case trace of None \<Rightarrow> blank_response F sid
   | Some t \<Rightarrow>
       if tr_Spans t = [] then blank_response F sid
       else
         let spans = tr_Spans t; start = min_start spans; totalDur = wrap64 (max_end spans - start);
             out = sort_key span_order (trace_spans F t);
             errorSpans = error_ids F t;
             (rootID, _, rootService, rootOperation) = fold (root_step (tr_Processes t)) spans ([], 0, [], []);
             svcs = sort (remdups (map (\<lambda>sp. serviceFor sp (tr_Processes t)) spans));
             over = maxSpansReturned < length out
         in \<lparr>tr_TraceID = sid, tr_StartTime = unix_epoch + start * 1000, tr_DurationMicros = totalDur,
             tr_SpanCount = length spans, tr_ServiceCount = length svcs,
             tr_Status = (if errorSpans \<noteq> [] then ''error'' else ''ok''),
             tr_RootService = rootService, tr_RootOperation = rootOperation,
             tr_CriticalPathMs = (if rootID \<noteq> []
               then criticalPathMicros rootID (remdups (map js_SpanID spans)) (span_index spans) sdiv 1000 else 0),
             tr_SpansShown = (if over then cap_spans errorSpans out else out), tr_ErrorSpans = errorSpans,
             tr_ServiceBreakdown = sort_key (\<lambda>st. - sv_TotalDurUs st) (map (service_stat_of F t totalDur) svcs),
             tr_Truncated = over\<rparr>)"

section \<open>Merged intervals\<close>

abbreviation proper :: "int \<times> int \<Rightarrow> bool" where
  "proper iv \<equiv> fst iv \<le> snd iv"

text \<open>The instants (microseconds) some interval covers.\<close>

definition active_in :: "(int \<times> int) list \<Rightarrow> int set" where
  "active_in ivs = (\<Union>iv \<in> set ivs. {fst iv..<snd iv})"

definition apart :: "(int \<times> int) list \<Rightarrow> bool" where
  "apart ivs \<longleftrightarrow> sorted_wrt (\<lambda>x y. snd x < fst y) ivs \<and> list_all proper ivs"

lemma active_in_simps [simp]: "active_in [] = {}" "active_in (iv # ivs) = {fst iv..<snd iv} \<union> active_in ivs"
  by (simp_all add: active_in_def)

lemma merge_into_apart:
  assumes "sorted (map fst (cur # ivs))" "list_all proper (cur # ivs)"
  shows "apart (merge_into cur ivs) \<and> active_in (merge_into cur ivs) = active_in (cur # ivs) \<and>
    list_all (\<lambda>iv. fst cur \<le> fst iv) (merge_into cur ivs)"
  using assms
proof (induction cur ivs rule: merge_into.induct)
  case (2 cur iv ivs)
  show ?case
  proof (cases "fst iv \<le> snd cur")
    case True
    let ?cur = "(fst cur, if snd cur < snd iv then snd iv else snd cur)"
    have "sorted (map fst (?cur # ivs))" "list_all proper (?cur # ivs)" using 2(3,4) by auto
    note IH = 2(1) [OF True this]
    have "{fst cur..<snd cur} \<union> {fst iv..<snd iv} = {fst ?cur..<snd ?cur}"
      using True 2(3) by auto
    then have "active_in (cur # iv # ivs) = active_in (?cur # ivs)" by (simp only: active_in_simps Un_assoc [symmetric])
    with IH show ?thesis by (simp only: merge_into.simps True if_True fst_conv)
  next
    case False
    have "sorted (map fst (iv # ivs))" "list_all proper (iv # ivs)" using 2(3,4) by auto
    note IH = 2(2) [OF False this]
    have "list_all (\<lambda>x. snd cur < fst x) (merge_into iv ivs)" using IH False by (fastforce simp: list_all_iff)
    with IH show ?thesis using False 2(3,4) by (fastforce simp: apart_def list_all_iff)
  qed
qed (simp add: apart_def)

lemma apart_total: "apart ivs \<Longrightarrow> (\<Sum>iv\<leftarrow>ivs. snd iv - fst iv) = int (card (active_in ivs))"
proof (induction ivs)
  case (Cons iv ivs)
  have "active_in ivs \<subseteq> {snd iv..}" using Cons.prems by (fastforce simp: apart_def active_in_def)
  then have "{fst iv..<snd iv} \<inter> active_in ivs = {}" by auto
  moreover have "finite (active_in ivs)" by (simp add: active_in_def)
  ultimately show ?case using Cons by (simp add: apart_def card_Un_disjoint)
qed simp

lemma merge_any_order:
  assumes "sorted (map fst (cur # ivs))" "list_all proper (cur # ivs)"
  shows "(\<Sum>iv\<leftarrow>merge_into cur ivs. snd iv - fst iv) = int (card (active_in (cur # ivs)))"
  using merge_into_apart [OF assms] apart_total by fastforce

lemma active_in_set: "set xs = set ys \<Longrightarrow> active_in xs = active_in ys"
  by (simp add: active_in_def)

lemma mergeIntervals_apart:
  assumes "list_all proper ivs"
  shows "apart (mergeIntervals ivs) \<and> active_in (mergeIntervals ivs) = active_in ivs"
proof (cases "length ivs \<le> 1")
  case True
  then have "ivs = [] \<or> (\<exists>iv. ivs = [iv])" by (cases ivs) auto
  then show ?thesis using assms by (auto simp: mergeIntervals_def apart_def)
next
  case False
  then obtain cur rest where s: "sort_key fst ivs = cur # rest"
    by (cases "sort_key fst ivs") (auto dest: arg_cong [where f = length])
  have "sorted (map fst (cur # rest))" by (metis s sorted_sort_key)
  moreover have set: "set (cur # rest) = set ivs" by (metis s set_sort)
  moreover have "list_all proper (cur # rest)" using assms set by (simp only: list_all_iff)
  ultimately show ?thesis
    using merge_into_apart [of cur rest] active_in_set [OF set] False by (simp add: mergeIntervals_def s)
qed

lemma total_no_wrap:
  assumes "apart ivs" "(\<Sum>iv\<leftarrow>ivs. snd iv - fst iv) \<le> max_int64"
  shows "total_of ivs = (\<Sum>iv\<leftarrow>ivs. snd iv - fst iv)"
proof -
  have "fold (\<lambda>m total. wrap64 (total + wrap64 (snd m - fst m))) ivs t = t + (\<Sum>iv\<leftarrow>ivs. snd iv - fst iv)"
    if "apart ivs" "0 \<le> t" "t + (\<Sum>iv\<leftarrow>ivs. snd iv - fst iv) \<le> max_int64" for t and ivs :: "(int \<times> int) list"
    using that
  proof (induction ivs arbitrary: t)
    case (Cons iv ivs)
    have ap: "apart ivs" using Cons.prems(1) by (simp add: apart_def)
    have nonneg: "0 \<le> (\<Sum>iv\<leftarrow>ivs. snd iv - fst iv)" by (simp add: apart_total [OF ap])
    have le: "fst iv \<le> snd iv" using Cons.prems(1) by (simp add: apart_def)
    have "in_int64 (snd iv - fst iv)" "in_int64 (t + (snd iv - fst iv))"
      using Cons.prems(2,3) nonneg le by (auto simp: in_int64_def min_int64_def)
    then show ?case using Cons.IH [OF ap, of "t + (snd iv - fst iv)"] Cons.prems(2,3) le by simp
  qed simp
  from this [OF assms(1), of 0] show ?thesis using assms(2) by (simp add: total_of_def)
qed

section \<open>Extent of a trace\<close>

lemma running_max:
  fixes f :: "'a \<Rightarrow> int"
  shows "m \<le> fold (\<lambda>x m. if m < f x then f x else m) xs m \<and>
    (\<forall>x \<in> set xs. f x \<le> fold (\<lambda>x m. if m < f x then f x else m) xs m) \<and>
    fold (\<lambda>x m. if m < f x then f x else m) xs m \<in> insert m (f ` set xs)"
proof (induction xs arbitrary: m)
  case (Cons a xs)
  show ?case using Cons.IH [of "if m < f a then f a else m"] by (auto split: if_splits)
qed simp

lemma running_min:
  fixes f :: "'a \<Rightarrow> int"
  shows "fold (\<lambda>x m. if f x < m then f x else m) xs m \<le> m \<and>
    (\<forall>x \<in> set xs. fold (\<lambda>x m. if f x < m then f x else m) xs m \<le> f x) \<and>
    fold (\<lambda>x m. if f x < m then f x else m) xs m \<in> insert m (f ` set xs)"
proof (induction xs arbitrary: m)
  case (Cons a xs)
  show ?case using Cons.IH [of "if f a < m then f a else m"] by (auto split: if_splits)
qed simp

text \<open>Traces as the store gives them: no negative starts or durations, ends that fit an int64.\<close>

definition well_timed :: "'fl jaeger_trace \<Rightarrow> bool" where
  "well_timed t \<longleftrightarrow> (\<forall>sp \<in> set (tr_Spans t). 0 \<le> js_StartTime sp \<and> 0 \<le> js_Duration sp \<and>
     js_StartTime sp + js_Duration sp \<le> max_int64)"

lemma span_end_exact: "well_timed t \<Longrightarrow> sp \<in> set (tr_Spans t) \<Longrightarrow> span_end sp = js_StartTime sp + js_Duration sp"
  unfolding span_end_def by (intro wrap64_id) (auto simp: well_timed_def in_int64_def min_int64_def)

lemma min_start_le: "sp \<in> set spans \<Longrightarrow> min_start spans \<le> js_StartTime sp"
  using running_min [where f = js_StartTime and xs = spans] by (simp add: min_start_def)

lemma max_end_ge: "sp \<in> set spans \<Longrightarrow> span_end sp \<le> max_end spans"
  using running_max [where f = span_end and xs = spans] by (simp add: max_end_def)

lemma service_total:
  assumes "well_timed t"
  shows "sv_TotalDurUs (service_stat_of F t d svc) = int (card {us. \<exists>sp \<in> set (tr_Spans t).
      serviceFor sp (tr_Processes t) = svc \<and> js_StartTime sp \<le> us \<and> us < js_StartTime sp + js_Duration sp})"
    and "tr_Spans t \<noteq> [] \<Longrightarrow>
      sv_TotalDurUs (service_stat_of F t d svc) \<le> wrap64 (max_end (tr_Spans t) - min_start (tr_Spans t))"
proof -
  let ?own = "filter (\<lambda>sp. serviceFor sp (tr_Processes t) = svc) (tr_Spans t)"
  let ?ivs = "map (\<lambda>sp. (js_StartTime sp, span_end sp)) ?own"
  let ?span = "{min_start (tr_Spans t)..<max_end (tr_Spans t)}"
  have ends: "span_end sp = js_StartTime sp + js_Duration sp" if "sp \<in> set (tr_Spans t)" for sp
    using span_end_exact [OF assms that] .
  have "list_all proper ?ivs" using assms ends by (auto simp: list_all_iff well_timed_def)
  note merged = mergeIntervals_apart [OF this]
  have active: "active_in ?ivs = {us. \<exists>sp \<in> set (tr_Spans t). serviceFor sp (tr_Processes t) = svc \<and>
      js_StartTime sp \<le> us \<and> us < js_StartTime sp + js_Duration sp}"
    using ends by (auto simp: active_in_def)
  have sub: "active_in ?ivs \<subseteq> ?span"
    using min_start_le [of _ "tr_Spans t"] max_end_ge [of _ "tr_Spans t"]
    by (fastforce simp: active_in_def)
  have start: "0 \<le> min_start (tr_Spans t)" "max_end (tr_Spans t) \<le> max_int64" if "tr_Spans t \<noteq> []"
    using running_min [where f = js_StartTime and xs = "tr_Spans t" and m = "js_StartTime (hd (tr_Spans t))"]
      running_max [where f = span_end and xs = "tr_Spans t" and m = 0] assms that ends
    by (force simp: min_start_def max_end_def well_timed_def max_int64_def)+
  have len: "int (card (active_in ?ivs)) \<le> max 0 (max_end (tr_Spans t) - min_start (tr_Spans t))"
    using card_mono [OF _ sub] by simp
  have "int (card (active_in ?ivs)) \<le> max_int64"
  proof (cases "tr_Spans t = []")
    case False
    then show ?thesis using len start by (simp add: max_int64_def)
  qed (simp add: max_int64_def)
  then have total: "total_of (mergeIntervals ?ivs) = int (card (active_in ?ivs))"
    using total_no_wrap [OF conjunct1 [OF merged]] apart_total [OF conjunct1 [OF merged]] conjunct2 [OF merged] by simp
  then show "sv_TotalDurUs (service_stat_of F t d svc) = int (card {us. \<exists>sp \<in> set (tr_Spans t).
      serviceFor sp (tr_Processes t) = svc \<and> js_StartTime sp \<le> us \<and> us < js_StartTime sp + js_Duration sp})"
    by (simp add: service_stat_of_def Let_def active)
  show "sv_TotalDurUs (service_stat_of F t d svc) \<le> wrap64 (max_end (tr_Spans t) - min_start (tr_Spans t))"
    if ne: "tr_Spans t \<noteq> []"
  proof -
    have h: "hd (tr_Spans t) \<in> set (tr_Spans t)" using ne by simp
    have "min_start (tr_Spans t) \<le> js_StartTime (hd (tr_Spans t))" "0 \<le> js_Duration (hd (tr_Spans t))"
      "js_StartTime (hd (tr_Spans t)) + js_Duration (hd (tr_Spans t)) \<le> max_end (tr_Spans t)"
      using min_start_le [OF h] max_end_ge [OF h] ends [OF h] assms h by (auto simp: well_timed_def)
    then have "min_start (tr_Spans t) \<le> max_end (tr_Spans t)" by linarith
    then have "wrap64 (max_end (tr_Spans t) - min_start (tr_Spans t)) = max_end (tr_Spans t) - min_start (tr_Spans t)"
      using start [OF ne] by (intro wrap64_id) (simp add: in_int64_def min_int64_def max_int64_def)
    then show ?thesis using len total \<open>min_start (tr_Spans t) \<le> max_end (tr_Spans t)\<close> by (simp add: service_stat_of_def Let_def)
  qed
qed

section \<open>Depth\<close>

text \<open>A span has \<open>n\<close> ancestors in the index.\<close>

primrec ancestors :: "nat \<Rightarrow> (string \<rightharpoonup> 'fl jaeger_span) \<Rightarrow> 'fl jaeger_span \<Rightarrow> bool" where
  "ancestors 0 idx sp \<longleftrightarrow> True"
| "ancestors (Suc n) idx sp \<longleftrightarrow> parentOf sp \<noteq> [] \<and>
     (case idx (parentOf sp) of None \<Rightarrow> False | Some p \<Rightarrow> ancestors n idx p)"

lemma spanDepth_exact:
  assumes "ancestors d idx sp" "\<not> ancestors (Suc d) idx sp" "guard + int d \<le> 64"
  shows "spanDepth sp idx guard = int d"
  using assms
proof (induction d arbitrary: sp guard)
  case (Suc d)
  then obtain p where p: "parentOf sp \<noteq> []" "idx (parentOf sp) = Some p" "ancestors d idx p" "\<not> ancestors (Suc d) idx p"
    by (auto split: option.splits)
  then show ?case using Suc.IH [of p "guard + 1"] Suc.prems(3) by (subst spanDepth.simps) (simp add: Let_def)
next
  case 0
  then show ?case by (subst spanDepth.simps) (auto simp: Let_def split: option.splits)
qed

lemma spanDepth_guarded:
  assumes "ancestors k idx sp" "guard + int k = 65"
  shows "spanDepth sp idx guard = int k + 65"
  using assms
proof (induction k arbitrary: sp guard)
  case (Suc k)
  then obtain p where p: "parentOf sp \<noteq> []" "idx (parentOf sp) = Some p" "ancestors k idx p"
    by (auto split: option.splits)
  then show ?case using Suc.IH [of p "guard + 1"] Suc.prems(2) by (subst spanDepth.simps) (simp add: Let_def)
next
  case 0
  then show ?case by (subst spanDepth.simps) simp
qed

section \<open>Critical path\<close>

text \<open>A chain of spans below \<open>sid\<close>, each a child of the one before, and the sum of its durations.\<close>

fun chain :: "(string \<rightharpoonup> 'fl jaeger_span) \<Rightarrow> string \<Rightarrow> string list \<Rightarrow> bool" where
  "chain idx sid [] \<longleftrightarrow> idx sid \<noteq> None"
| "chain idx sid (c # cs) \<longleftrightarrow> idx sid \<noteq> None \<and> sid \<noteq> [] \<and>
     (case idx c of None \<Rightarrow> False | Some sp \<Rightarrow> parentOf sp = sid) \<and> chain idx c cs"

definition chain_time :: "(string \<rightharpoonup> 'fl jaeger_span) \<Rightarrow> string list \<Rightarrow> int" where
  "chain_time idx ids = (\<Sum>i\<leftarrow>ids. case idx i of None \<Rightarrow> 0 | Some sp \<Rightarrow> js_Duration sp)"

lemma path_children_iff: "c \<in> set (path_children ids idx p) \<longleftrightarrow>
    p \<noteq> [] \<and> c \<in> set ids \<and> (case idx c of None \<Rightarrow> False | Some sp \<Rightarrow> parentOf sp = p)"
  by (auto simp: path_children_def)

lemma path_walk_step:
  assumes "idx sid = Some sp" "0 \<le> js_Duration sp" "js_Duration sp \<le> D" "int (Suc n) * D \<le> max_int64" "0 \<le> D"
    and bounds: "\<And>c. 0 \<le> path_walk n ids idx c \<and> path_walk n ids idx c \<le> int n * D"
  shows "path_walk (Suc n) ids idx sid = js_Duration sp +
      fold (\<lambda>ch m. if m < path_walk n ids idx ch then path_walk n ids idx ch else m) (path_children ids idx sid) 0"
    and "0 \<le> path_walk (Suc n) ids idx sid \<and> path_walk (Suc n) ids idx sid \<le> int (Suc n) * D"
proof -
  define m where "m = fold (\<lambda>ch m. if m < path_walk n ids idx ch then path_walk n ids idx ch else m) (path_children ids idx sid) 0"
  have "m \<in> insert 0 (path_walk n ids idx ` set (path_children ids idx sid))"
    unfolding m_def using running_max [where f = "path_walk n ids idx" and m = 0] by blast
  then have m: "0 \<le> m" "m \<le> int n * D" using bounds assms(5) by auto
  then have d: "0 \<le> js_Duration sp + m" "js_Duration sp + m \<le> int (Suc n) * D"
    using assms(2,3) by (simp_all add: algebra_simps)
  then have "wrap64 (js_Duration sp + m) = js_Duration sp + m"
    using assms(4) by (intro wrap64_id) (simp add: in_int64_def min_int64_def)
  then have "path_walk (Suc n) ids idx sid = js_Duration sp + m" using assms(1) by (simp add: m_def Let_def)
  then show "path_walk (Suc n) ids idx sid = js_Duration sp +
      fold (\<lambda>ch m. if m < path_walk n ids idx ch then path_walk n ids idx ch else m) (path_children ids idx sid) 0"
    "0 \<le> path_walk (Suc n) ids idx sid \<and> path_walk (Suc n) ids idx sid \<le> int (Suc n) * D"
    using d by (simp_all add: m_def)
qed

lemma path_walk_bounds:
  assumes "\<And>i sp. idx i = Some sp \<Longrightarrow> 0 \<le> js_Duration sp \<and> js_Duration sp \<le> D" "int n * D \<le> max_int64" "0 \<le> D"
  shows "0 \<le> path_walk n ids idx sid \<and> path_walk n ids idx sid \<le> int n * D"
  using assms(2)
proof (induction n arbitrary: sid)
  case (Suc n)
  show ?case
  proof (cases "idx sid")
    case (Some sp)
    have "int n * D \<le> max_int64" using Suc.prems assms(3) by (simp add: algebra_simps)
    then show ?thesis using path_walk_step(2) [of idx sid sp D n ids] Some assms(1) [OF Some] assms(3) Suc by blast
  qed (use assms(3) in simp)
qed simp

lemma path_walk_longest:
  assumes "\<And>i sp. idx i = Some sp \<Longrightarrow> 0 \<le> js_Duration sp \<and> js_Duration sp \<le> D" "int (Suc n) * D \<le> max_int64" "0 \<le> D"
    and "idx sid \<noteq> None" "set ids = dom idx"
  shows "(\<exists>cs. chain idx sid cs \<and> length cs \<le> n \<and> path_walk (Suc n) ids idx sid = chain_time idx (sid # cs)) \<and>
    (\<forall>cs. chain idx sid cs \<and> length cs \<le> n \<longrightarrow> chain_time idx (sid # cs) \<le> path_walk (Suc n) ids idx sid)"
  using assms(2,4)
proof (induction n arbitrary: sid)
  case 0
  then obtain sp where sp: "idx sid = Some sp" by blast
  have "fold (\<lambda>ch m. if m < path_walk 0 ids idx ch then path_walk 0 ids idx ch else m) (path_children ids idx sid) 0 = 0"
    using running_max [where f = "path_walk 0 ids idx" and xs = "path_children ids idx sid" and m = 0] by force
  then have "path_walk (Suc 0) ids idx sid = js_Duration sp"
    using path_walk_step(1) [of idx sid sp D 0 ids] sp assms(1) [OF sp] assms(3) 0(1) by (simp del: path_walk.simps(2))
  then show ?case using sp by (auto simp: chain_time_def intro!: exI [of _ "[]"])
next
  case (Suc n)
  obtain sp where sp: "idx sid = Some sp" using Suc.prems(2) by blast
  define m where "m = fold (\<lambda>ch m. if m < path_walk (Suc n) ids idx ch then path_walk (Suc n) ids idx ch else m)
    (path_children ids idx sid) 0"
  have less: "int (Suc n) * D \<le> max_int64" using Suc.prems(1) assms(3) by (simp add: algebra_simps)
  have "0 \<le> path_walk (Suc n) ids idx c \<and> path_walk (Suc n) ids idx c \<le> int (Suc n) * D" for c
    using path_walk_bounds [of idx D "Suc n" ids c] assms(1,3) less by blast
  then have walk: "path_walk (Suc (Suc n)) ids idx sid = js_Duration sp + m" unfolding m_def
    using path_walk_step(1) [of idx sid sp D "Suc n" ids] sp assms(1) [OF sp] Suc.prems(1) assms(3) by blast
  have kids: "chain idx sid (c # cs) \<longleftrightarrow> c \<in> set (path_children ids idx sid) \<and> chain idx c cs" for c cs
    using sp assms(5) by (auto simp: path_children_iff split: option.splits)
  have "m \<in> insert 0 (path_walk (Suc n) ids idx ` set (path_children ids idx sid))"
    unfolding m_def using running_max [where f = "path_walk (Suc n) ids idx" and m = 0] by blast
  then have "\<exists>cs. chain idx sid cs \<and> length cs \<le> Suc n \<and> m = chain_time idx cs"
  proof (elim insertE imageE)
    assume "m = 0" then show ?thesis using sp by (auto simp: chain_time_def intro!: exI [of _ "[]"])
  next
    fix c assume c: "m = path_walk (Suc n) ids idx c" "c \<in> set (path_children ids idx sid)"
    then have "idx c \<noteq> None" by (auto simp: path_children_iff split: option.splits)
    then obtain cs where "chain idx c cs" "length cs \<le> n" "m = chain_time idx (c # cs)" using Suc.IH [OF less] c(1) by auto
    then show ?thesis using kids [of c cs] c(2) by (intro exI [of _ "c # cs"]) simp
  qed
  moreover have "chain_time idx cs \<le> m" if "chain idx sid cs" "length cs \<le> Suc n" for cs
  proof (cases cs)
    case Nil
    then show ?thesis using running_max [where f = "path_walk (Suc n) ids idx" and m = 0] by (simp add: m_def chain_time_def)
  next
    case (Cons c ds)
    then have c: "c \<in> set (path_children ids idx sid)" "chain idx c ds" "length ds \<le> n" using that kids by auto
    then have "idx c \<noteq> None" by (auto simp: path_children_iff split: option.splits)
    then have "chain_time idx cs \<le> path_walk (Suc n) ids idx c" using Suc.IH [OF less] c Cons by blast
    also have "\<dots> \<le> m" unfolding m_def using running_max [where f = "path_walk (Suc n) ids idx" and m = 0] c(1) by blast
    finally show ?thesis .
  qed
  ultimately show ?case using walk sp by (simp add: chain_time_def)
qed

section \<open>The cap\<close>

lemma cap_spans_kept:
  fixes out errorSpans
  defines "shown \<equiv> cap_spans errorSpans out" and "errs \<equiv> filter (\<lambda>sp. ts_SpanID sp \<in> set errorSpans) out"
  shows "set errs \<subseteq> set shown" "set shown \<subseteq> set out" "sorted (map span_order shown)"
    "length shown \<le> max maxSpansReturned (length errs)"
    "ts \<in> set out - set shown \<Longrightarrow> ts' \<in> set shown - set errs \<Longrightarrow> ts_DurationUs ts \<le> ts_DurationUs ts'"
proof -
  define rest where "rest = sort_key (\<lambda>sp. - ts_DurationUs sp) (filter (\<lambda>sp. ts_SpanID sp \<notin> set errorSpans) out)"
  define room where "room = maxSpansReturned - length errs"
  have shown: "shown = sort_key span_order (errs @ take room rest)"
    by (simp add: shown_def cap_spans_def Let_def errs_def rest_def room_def)
  have parts: "set out = set errs \<union> set (take room rest) \<union> set (drop room rest)"
    using set_append [of "take room rest" "drop room rest"] by (auto simp: errs_def rest_def)
  then show "set errs \<subseteq> set shown" "set shown \<subseteq> set out" "sorted (map span_order shown)" by (auto simp: shown)
  show "length shown \<le> max maxSpansReturned (length errs)" by (auto simp: shown room_def)
  have "sorted (map (\<lambda>sp. - ts_DurationUs sp) (take room rest @ drop room rest))" by (simp add: rest_def)
  then show "ts \<in> set out - set shown \<Longrightarrow> ts' \<in> set shown - set errs \<Longrightarrow> ts_DurationUs ts \<le> ts_DurationUs ts'"
    using parts by (auto simp: shown sorted_append simp del: append_take_drop_id)
qed

lemma span_index_dom: "dom (span_index spans) = js_SpanID ` set spans"
proof -
  have "dom (fold (\<lambda>sp idx. idx(js_SpanID sp \<mapsto> sp)) spans idx) = js_SpanID ` set spans \<union> dom idx" for idx :: "string \<rightharpoonup> 'a jaeger_span"
    by (induction spans arbitrary: idx) auto
  then show ?thesis by (simp add: span_index_def)
qed

lemma span_index_span: "span_index spans i = Some sp \<Longrightarrow> sp \<in> set spans \<and> js_SpanID sp = i"
proof -
  have "fold (\<lambda>sp idx. idx(js_SpanID sp \<mapsto> sp)) spans idx i = Some sp \<Longrightarrow>
      sp \<in> set spans \<and> js_SpanID sp = i \<or> idx i = Some sp" for idx
  proof (induction spans arbitrary: idx)
    case (Cons a spans)
    then show ?case using Cons.IH [of "idx(js_SpanID a \<mapsto> a)"] by (auto split: if_splits)
  qed simp
  then show "span_index spans i = Some sp \<Longrightarrow> sp \<in> set spans \<and> js_SpanID sp = i" by (auto simp: span_index_def)
qed

lemma response_shown:
  "tr_Spans t \<noteq> [] \<Longrightarrow> tr_SpansShown (buildTraceResponse F sid (Some t)) =
     (if maxSpansReturned < length (tr_Spans t) then cap_spans (error_ids F t) (sort_key span_order (trace_spans F t))
      else sort_key span_order (trace_spans F t))"
  by (simp add: buildTraceResponse_def Let_def case_prod_unfold trace_spans_def)

text \<open>With more error spans than the cap, all of them are shown and the response still says that
  it was cut.\<close>

lemma errors_exceed_cap:
  assumes "list_all ts_IsError (trace_spans F t)" "maxSpansReturned < length (tr_Spans t)"
  shows "length (tr_SpansShown (buildTraceResponse F sid (Some t))) = length (tr_Spans t)"
    and "tr_Truncated (buildTraceResponse F sid (Some t))"
proof -
  have ids: "ts_SpanID ts \<in> set (error_ids F t)" if "ts \<in> set (trace_spans F t)" for ts
    using assms(1) that by (force simp: error_ids_def list_all_iff)
  then have "filter (\<lambda>ts. ts_SpanID ts \<in> set (error_ids F t)) (sort_key span_order (trace_spans F t)) =
      sort_key span_order (trace_spans F t)"
    "filter (\<lambda>ts. ts_SpanID ts \<notin> set (error_ids F t)) (sort_key span_order (trace_spans F t)) = []"
    by (simp_all add: filter_id_conv filter_empty_conv)
  moreover have "tr_Spans t \<noteq> []" using assms(2) by auto
  ultimately show "length (tr_SpansShown (buildTraceResponse F sid (Some t))) = length (tr_Spans t)"
    using assms(2) by (simp add: response_shown cap_spans_def trace_spans_def)
  show "tr_Truncated (buildTraceResponse F sid (Some t))"
    using assms(2) by (auto simp: buildTraceResponse_def Let_def case_prod_unfold trace_spans_def)
qed

text \<open>A trace of two spans, the second a failed child of the first.\<close>

definition two_spans :: "unit jaeger_trace" where
  "two_spans = \<lparr>tr_Spans =
     [\<lparr>js_SpanID = ''a'', js_OperationName = ''GET /'', js_References = [], js_StartTime = 10, js_Duration = 100,
        js_ProcessID = ''p1'', js_Tags = [], js_Logs = []\<rparr>,
      \<lparr>js_SpanID = ''b'', js_OperationName = ''SELECT'', js_References = [\<lparr>sr_RefType = ''CHILD_OF'', sr_SpanID = ''a''\<rparr>],
        js_StartTime = 20, js_Duration = 50, js_ProcessID = ''p1'',
        js_Tags = [\<lparr>jt_Key = ''error'', jt_Value = AnyBool True\<rparr>], js_Logs = []\<rparr>],
     tr_Processes = [''p1'' \<mapsto> \<lparr>jp_ServiceName = ''shop'', jp_Tags = []\<rparr>]\<rparr>"

definition unit_floats :: "unit float_ops" where
  "unit_floats = \<lparr>fo_integral = (\<lambda>_. None), fo_format = (\<lambda>_. []), fo_percent = (\<lambda>_ _. ()), fo_zero = ()\<rparr>"

lemma two_spans_timed: "well_timed two_spans"
  by (simp add: well_timed_def two_spans_def max_int64_def)

section \<open>Properties\<close>

text \<open>C37.
  The time the trace page attributes to a service is the number of microseconds during which at
  least one of its spans is running: merging the intervals neither counts a moment twice nor loses
  one, in int64 arithmetic, and the time of a service never exceeds that of the trace. This holds
  for traces without negative times whose ends fit an int64.
\<close>

theorem service_time_exact:
  assumes "well_timed t" "st \<in> set (tr_ServiceBreakdown (buildTraceResponse F sid (Some t)))"
  shows "sv_TotalDurUs st = int (card {us. \<exists>sp \<in> set (tr_Spans t). serviceFor sp (tr_Processes t) = sv_Service st \<and>
      js_StartTime sp \<le> us \<and> us < js_StartTime sp + js_Duration sp}) \<and>
    sv_TotalDurUs st \<le> tr_DurationMicros (buildTraceResponse F sid (Some t))"
proof -
  have ne: "tr_Spans t \<noteq> []" using assms(2) by (auto simp: buildTraceResponse_def blank_response_def split: if_splits)
  have dur: "tr_DurationMicros (buildTraceResponse F sid (Some t)) = wrap64 (max_end (tr_Spans t) - min_start (tr_Spans t))"
    using ne by (simp add: buildTraceResponse_def Let_def case_prod_unfold)
  obtain svc where st: "st = service_stat_of F t (wrap64 (max_end (tr_Spans t) - min_start (tr_Spans t))) svc"
    using assms(2) ne by (auto simp: buildTraceResponse_def Let_def case_prod_unfold)
  then have svc: "sv_Service st = svc" by (simp add: service_stat_of_def Let_def)
  show ?thesis
    unfolding svc dur unfolding st using service_total(1) [OF assms(1)] service_total(2) [OF assms(1) ne] by blast
qed

theorem service_time_exact_witness:
  "\<exists>st. st \<in> set (tr_ServiceBreakdown (buildTraceResponse unit_floats ''t'' (Some two_spans))) \<and>
     sv_TotalDurUs st = int (card {us. \<exists>sp \<in> set (tr_Spans two_spans).
       serviceFor sp (tr_Processes two_spans) = sv_Service st \<and> js_StartTime sp \<le> us \<and> us < js_StartTime sp + js_Duration sp})"
proof -
  let ?bd = "tr_ServiceBreakdown (buildTraceResponse unit_floats ''t'' (Some two_spans))"
  have "set ?bd \<noteq> {}" by (simp add: buildTraceResponse_def Let_def case_prod_unfold two_spans_def)
  then obtain st where "st \<in> set ?bd" by (metis ex_in_conv)
  then show ?thesis using service_time_exact [OF two_spans_timed] by blast
qed

text \<open>Whatever the trace, the page lists its spans in order of start and depth and drops none of the
  spans flagged as errors; it shows at most 500 spans, or all those with the id of an error span
  when they are more; and a span is dropped only in favour of spans at least as long or erroneous.
\<close>

theorem trace_spans_kept:
  assumes "tr_Spans t \<noteq> []" "shown = tr_SpansShown (buildTraceResponse F sid (Some t))"
  shows "sorted (map span_order shown) \<and> set shown \<subseteq> set (trace_spans F t) \<and>
    (\<forall>ts \<in> set (trace_spans F t). ts_IsError ts \<longrightarrow> ts \<in> set shown) \<and>
    length shown \<le> max 500 (length (filter (\<lambda>ts. ts_SpanID ts \<in> set (error_ids F t)) (trace_spans F t))) \<and>
    (\<forall>ts \<in> set (trace_spans F t) - set shown. \<forall>ts' \<in> set shown.
       ts_SpanID ts' \<in> set (error_ids F t) \<or> ts_DurationUs ts \<le> ts_DurationUs ts')"
proof -
  have flagged: "ts_SpanID ts \<in> set (error_ids F t)" if "ts \<in> set (trace_spans F t)" "ts_IsError ts" for ts
    using that by (force simp: error_ids_def)
  let ?out = "sort_key span_order (trace_spans F t)"
  have len: "length (filter P ?out) = length (filter P (trace_spans F t))" for P
    by (metis mset_filter mset_sort size_mset)
  note kept = cap_spans_kept [where errorSpans = "error_ids F t" and out = ?out]
  show ?thesis
  proof (cases "maxSpansReturned < length (tr_Spans t)")
    case True
    then have shown: "shown = cap_spans (error_ids F t) ?out" using assms by (simp add: response_shown)
    show ?thesis unfolding shown using kept flagged by (fastforce simp: len maxSpansReturned_def)
  next
    case False
    then have shown: "shown = ?out" using assms by (simp add: response_shown)
    show ?thesis unfolding shown using False by (simp add: maxSpansReturned_def trace_spans_def)
  qed
qed

theorem trace_spans_kept_witness:
  "sorted (map span_order (tr_SpansShown (buildTraceResponse unit_floats ''t'' (Some two_spans))))"
proof -
  have "tr_Spans two_spans \<noteq> []" by (simp add: two_spans_def)
  from trace_spans_kept [OF this refl] show ?thesis by blast
qed

text \<open>The depth shown for a span is its number of ancestors, as long as that is at most 64; a span with
  more ancestors (or on a cycle) is shown at depth 130, not at the guard's bound.
\<close>

theorem span_depth:
  "(\<forall>d \<le> 64. ancestors d idx sp \<and> \<not> ancestors (Suc d) idx sp \<longrightarrow> spanDepth sp idx 0 = int d) \<and>
   (ancestors 65 idx sp \<longrightarrow> spanDepth sp idx 0 = 130)"
  using spanDepth_exact [of _ idx sp 0] spanDepth_guarded [of 65 idx sp 0] by simp

theorem span_depth_witness:
  "spanDepth (hd (tr_Spans two_spans)) (span_index (tr_Spans two_spans)) 0 = 0 \<and>
   (let loop = \<lparr>js_SpanID = ''a'', js_OperationName = [], js_References = [\<lparr>sr_RefType = ''CHILD_OF'', sr_SpanID = ''a''\<rparr>],
      js_StartTime = 0, js_Duration = 1, js_ProcessID = [], js_Tags = [], js_Logs = []\<rparr> :: unit jaeger_span
    in spanDepth loop (span_index [loop]) 0 = 130)"
proof -
  let ?loop = "\<lparr>js_SpanID = ''a'', js_OperationName = [], js_References = [\<lparr>sr_RefType = ''CHILD_OF'', sr_SpanID = ''a''\<rparr>],
      js_StartTime = 0, js_Duration = 1, js_ProcessID = [], js_Tags = [], js_Logs = []\<rparr> :: unit jaeger_span"
  have "ancestors n (span_index [?loop]) ?loop" for n
    by (induction n) (simp_all add: parentOf_def span_index_def)
  moreover have "\<not> ancestors (Suc 0) (span_index (tr_Spans two_spans)) (hd (tr_Spans two_spans))"
    by (simp add: two_spans_def parentOf_def)
  ultimately show ?thesis
    using span_depth [of "span_index [?loop]" ?loop] span_depth [of "span_index (tr_Spans two_spans)" "hd (tr_Spans two_spans)"]
    by (auto simp: Let_def)
qed

text \<open>Below depth 128 nothing is counted: in a trace of spans of duration 1 with a chain of 130 spans the
  critical path is shorter than the chain.\<close>

lemma critical_path_cut:
  assumes "\<And>i sp. idx i = Some sp \<Longrightarrow> js_Duration sp = 1" "chain idx root cs" "length cs = 129"
  shows "criticalPathMicros root ids idx < chain_time idx (root # cs)"
proof -
  have "chain idx i xs \<Longrightarrow> chain_time idx (i # xs) = int (length xs) + 1" for i xs
    using assms(1) by (induction xs arbitrary: i) (auto simp: chain_time_def split: option.splits)
  then have "chain_time idx (root # cs) = 130" using assms(2,3) by simp
  moreover have "path_walk 129 ids idx root \<le> int 129 * 1"
    by (rule conjunct2 [OF path_walk_bounds]) (use assms(1) in \<open>auto simp: max_int64_def\<close>)
  ultimately show ?thesis by (simp add: criticalPathMicros_def del: path_walk.simps)
qed

text \<open>C38.
  The critical path the dashboard computes is the largest sum of durations over the chains of parent
  and child from the root that have at most 129 spans: one such chain attains it and none exceeds
  it. So it is the longest chain of the trace when no chain has more than 129 spans, and can be less
  in a deeper trace (\<open>critical_path_cut\<close>), where the source cuts the walk. The root is a span of the
  trace; durations are not negative and small enough for 129 of them to fit an int64.
\<close>

theorem critical_path_longest:
  assumes "\<forall>sp \<in> set spans. 0 \<le> js_Duration sp \<and> js_Duration sp \<le> max_int64 div 129" "root \<in> js_SpanID ` set spans"
  shows "(\<exists>cs. chain (span_index spans) root cs \<and> length cs \<le> 128 \<and>
      criticalPathMicros root (remdups (map js_SpanID spans)) (span_index spans) = chain_time (span_index spans) (root # cs)) \<and>
    (\<forall>cs. chain (span_index spans) root cs \<and> length cs \<le> 128 \<longrightarrow>
      chain_time (span_index spans) (root # cs) \<le> criticalPathMicros root (remdups (map js_SpanID spans)) (span_index spans))"
proof -
  have "set (remdups (map js_SpanID spans)) = dom (span_index spans)" by (simp add: span_index_dom)
  moreover have "span_index spans root \<noteq> None" using assms(2) span_index_dom [of spans] by blast
  moreover have "Suc 128 = 129" by simp
  ultimately show ?thesis
    using path_walk_longest [of "span_index spans" "max_int64 div 129" 128 root "remdups (map js_SpanID spans)"]
      assms(1) span_index_span [of spans] unfolding criticalPathMicros_def
    by (simp add: max_int64_def del: path_walk.simps chain.simps)
qed

theorem critical_path_longest_witness:
  "\<exists>cs. criticalPathMicros ''a'' (remdups (map js_SpanID (tr_Spans two_spans))) (span_index (tr_Spans two_spans)) =
     chain_time (span_index (tr_Spans two_spans)) (''a'' # cs)"
proof -
  have "\<forall>sp \<in> set (tr_Spans two_spans). 0 \<le> js_Duration sp \<and> js_Duration sp \<le> max_int64 div 129"
    "''a'' \<in> js_SpanID ` set (tr_Spans two_spans)" by (simp_all add: two_spans_def max_int64_def)
  from conjunct1 [OF critical_path_longest [OF this]] show ?thesis by blast
qed

end
