(* ===== verification/Cluster_Graph.thy ===== *)
theory Cluster_Graph
  imports Incident_Graph Go_Text
begin

text \<open>
  The cluster-wide topology (\<open>internal/correlator/graph/cluster.go\<close>): nodes for machines,
  deployments, pods and services with a status colour overlaid from the open incidents, edges for
  scheduling and ownership. The five list requests are the parameter \<open>K\<close>. Nil and empty slices
  are not distinguished here.
\<close>

record listed_node =
  ln_Name :: string
  ln_Conditions :: "kcondition list"

record listed_deployment =
  ld_Name :: string
  ld_Namespace :: string
  ld_SpecReplicas :: "int option"
  ld_Replicas :: int
  ld_ReadyReplicas :: int

text \<open>Owner references as kind and name, container statuses as readiness and restart count.\<close>

record listed_pod =
  lp_Name :: string
  lp_Namespace :: string
  lp_NodeName :: string
  lp_Phase :: string
  lp_Owners :: "(string \<times> string) list"
  lp_Containers :: "(bool \<times> int) list"

record listed_service =
  ls_Name :: string
  ls_Namespace :: string

record topology_lists =
  tp_deployments :: "kerr + listed_deployment list"
  tp_pods :: "kerr + listed_pod list"
  tp_nodes :: "kerr + listed_node list"
  tp_services :: "kerr + listed_service list"
  tp_incidents :: "kerr + incident_report list"

record cluster_node = graph_node +
  cl_Status :: string

record cluster_graph =
  cg_Nodes :: "cluster_node list"
  cg_Edges :: "graph_edge list"
  cg_Meta :: "(string \<times> string) list"

definition cluster_node_of :: "string \<Rightarrow> string \<Rightarrow> string \<Rightarrow> string \<Rightarrow> string \<Rightarrow> cluster_node" where
  "cluster_node_of i kind name ns status = \<lparr>gn_ID = i, gn_Kind = kind, gn_Name = name, gn_Namespace = ns,
     gn_Label = name, gn_IsRoot = False, gn_BlastRadius = 0, cl_Status = status\<rparr>"

section \<open>Status colours\<close>

definition severityToStatus :: "string \<Rightarrow> string" where
  "severityToStatus sev = (if to_upper sev \<in> {''P1'', ''P2'', ''CRITICAL''} then ''critical'' else ''warning'')"

definition status_rank :: "string \<Rightarrow> nat" where
  "status_rank s = (if s = ''critical'' then 3 else if s = ''warning'' then 2 else if s = ''healthy'' then 1 else 0)"

definition pickWorse :: "string \<Rightarrow> string \<Rightarrow> string" where
  "pickWorse a b = (if status_rank b \<le> status_rank a then a else b)"

definition nodeReadinessStatus :: "kcondition list \<Rightarrow> string" where
  "nodeReadinessStatus conds = (case find (\<lambda>c. kc_Type c = ''Ready'') conds of
     None \<Rightarrow> ''warning'' | Some c \<Rightarrow> if kc_Status c = ''True'' then ''healthy'' else ''critical'')"

definition deploymentStatus :: "listed_deployment \<Rightarrow> string" where
  "deploymentStatus d = (case ld_SpecReplicas d of
     None \<Rightarrow> ''healthy''
   | Some n \<Rightarrow> if ld_Replicas d = 0 \<and> 0 < n then ''critical''
               else if ld_ReadyReplicas d < n then ''warning'' else ''healthy'')"

definition podStatus :: "listed_pod \<Rightarrow> string" where
  "podStatus p =
     (if lp_Phase p = ''Failed'' then ''critical''
      else if lp_Phase p = ''Running'' then
        (if list_ex (\<lambda>(ready, restarts). \<not> ready \<or> 5 < restarts) (lp_Containers p) then ''warning'' else ''healthy'')
      else ''warning'')"

section \<open>The incident overlay\<close>

record incident_overlay =
  ov_pod :: "string \<Rightarrow> string"
  ov_dep :: "string \<Rightarrow> string"
  ov_node :: "string \<Rightarrow> string"
  ov_ns :: "string \<Rightarrow> string"

definition is_closed_phase :: "incident_report \<Rightarrow> bool" where
  "is_closed_phase inc \<longleftrightarrow> to_lower (report_phase inc) \<in> {''resolved'', ''closed''}"

definition worsen :: "string \<Rightarrow> string \<Rightarrow> (string \<Rightarrow> string) \<Rightarrow> (string \<Rightarrow> string)" where
  "worsen k status m = m(k := pickWorse (m k) status)"

definition overlay_resource :: "incident_report \<Rightarrow> affected_resource \<Rightarrow> incident_overlay \<Rightarrow> incident_overlay" where
  "overlay_resource inc r o1 =
     (let status = severityToStatus (st_Severity (ir_Status inc)); key = report_ns inc @ ''/'' @ ar_Name r
      in if ar_Kind r = ''Pod'' then o1\<lparr>ov_pod := worsen key status (ov_pod o1)\<rparr>
         else if ar_Kind r = ''Deployment'' then o1\<lparr>ov_dep := worsen key status (ov_dep o1)\<rparr>
         else if ar_Kind r = ''Node'' then o1\<lparr>ov_node := worsen (ar_Name r) status (ov_node o1)\<rparr>
         else if ar_Kind r = ''Namespace'' then o1\<lparr>ov_ns := worsen (ar_Name r) status (ov_ns o1)\<rparr>
         else o1)"

definition overlay_incident :: "incident_report \<Rightarrow> incident_overlay \<Rightarrow> incident_overlay" where
  "overlay_incident inc o1 =
     (if is_closed_phase inc then o1 else fold (overlay_resource inc) (st_AffectedResources (ir_Status inc)) o1)"

definition buildIncidentOverlay :: "incident_report list \<Rightarrow> incident_overlay" where
  "buildIncidentOverlay incs = fold overlay_incident incs
     \<lparr>ov_pod = (\<lambda>_. []), ov_dep = (\<lambda>_. []), ov_node = (\<lambda>_. []), ov_ns = (\<lambda>_. [])\<rparr>"

definition overlaid :: "string \<Rightarrow> string \<Rightarrow> string" where
  "overlaid v status = (if v \<noteq> [] then pickWorse status v else status)"

section \<open>Nodes and edges\<close>

definition systemNamespaces :: "string list" where
  "systemNamespaces = [''kube-system'', ''kube-public'', ''kube-node-lease'', ''local-path-storage'']"

definition in_system :: "string \<Rightarrow> bool" where
  "in_system ns \<longleftrightarrow> ns \<in> set systemNamespaces"

definition machine_node :: "incident_overlay \<Rightarrow> listed_node \<Rightarrow> cluster_node" where
  "machine_node o1 n = cluster_node_of (''node:'' @ ln_Name n) ''Node'' (ln_Name n) []
     (overlaid (ov_node o1 (ln_Name n)) (nodeReadinessStatus (ln_Conditions n)))"

definition appendNodeNodes :: "incident_overlay \<Rightarrow> listed_node list \<Rightarrow> cluster_node list" where
  "appendNodeNodes o1 nodes = map (machine_node o1) nodes"

abbreviation dep_key :: "listed_deployment \<Rightarrow> string" where
  "dep_key d \<equiv> ld_Namespace d @ ''/'' @ ld_Name d"

definition deployment_node :: "incident_overlay \<Rightarrow> listed_deployment \<Rightarrow> cluster_node" where
  "deployment_node o1 d = cluster_node_of (''deploy:'' @ dep_key d) ''Deployment'' (ld_Name d) (ld_Namespace d)
     (overlaid (ov_ns o1 (ld_Namespace d)) (overlaid (ov_dep o1 (dep_key d)) (deploymentStatus d)))"

definition appendDeploymentNodes :: "incident_overlay \<Rightarrow> listed_deployment list \<Rightarrow> cluster_node list" where
  "appendDeploymentNodes o1 deps = map (deployment_node o1) (filter (\<lambda>d. \<not> in_system (ld_Namespace d)) deps)"

text \<open>The first deployment of the namespace whose name and a dash start the name of an owning
  replica set; owners in order.\<close>

definition deploymentOwnerFromPod :: "listed_pod \<Rightarrow> listed_deployment list \<Rightarrow> string" where
  "deploymentOwnerFromPod p deps =
     (case List.map_filter (\<lambda>(kind, name). if kind \<noteq> ''ReplicaSet'' then None
         else find (\<lambda>d. ld_Namespace d = lp_Namespace p \<and> has_prefix name (ld_Name d @ ''-'')) deps) (lp_Owners p)
      of [] \<Rightarrow> [] | d # _ \<Rightarrow> ld_Name d)"

definition rollup_edge :: "listed_pod \<Rightarrow> string \<Rightarrow> graph_edge" where
  "rollup_edge p owner = plain_edge (''deploy:'' @ lp_Namespace p @ ''/'' @ owner) (''node:'' @ lp_NodeName p) ''scheduled_on''"

text \<open>\<open>seenDepNode\<close> is kept as the set of joined keys.\<close>

definition rollupDepNodeEdge ::
    "listed_pod \<Rightarrow> string \<Rightarrow> string set \<times> graph_edge list \<Rightarrow> string set \<times> graph_edge list" where
  "rollupDepNodeEdge p owner st =
     (let (seen, edges) = st; e = rollup_edge p owner; k = ge_From e @ ''->'' @ ge_To e
      in if owner = [] \<or> lp_NodeName p = [] \<or> k \<in> seen then st else (insert k seen, edges @ [e]))"

abbreviation pod_key :: "listed_pod \<Rightarrow> string" where
  "pod_key p \<equiv> lp_Namespace p @ ''/'' @ lp_Name p"

definition pod_node :: "incident_overlay \<Rightarrow> listed_pod \<Rightarrow> cluster_node" where
  "pod_node o1 p = cluster_node_of (''pod:'' @ pod_key p) ''Pod'' (lp_Name p) (lp_Namespace p)
     (overlaid (ov_pod o1 (pod_key p)) (podStatus p))"

definition pod_edges :: "listed_deployment list \<Rightarrow> listed_pod \<Rightarrow> graph_edge list" where
  "pod_edges deps p =
     (let owner = deploymentOwnerFromPod p deps; i = ''pod:'' @ pod_key p
      in (if lp_NodeName p \<noteq> [] then [plain_edge i (''node:'' @ lp_NodeName p) ''scheduled_on''] else []) @
         (if owner \<noteq> [] then [plain_edge (''deploy:'' @ lp_Namespace p @ ''/'' @ owner) i ''owns''] else []))"

definition appendPodNodesAndEdges ::
    "incident_overlay \<Rightarrow> listed_deployment list \<Rightarrow> bool \<Rightarrow> listed_pod list \<Rightarrow> cluster_node list \<times> graph_edge list" where
  "appendPodNodesAndEdges o1 deps summary pods =
     (let ps = filter (\<lambda>p. \<not> in_system (lp_Namespace p)) pods
      in if summary then ([], snd (fold (\<lambda>p. rollupDepNodeEdge p (deploymentOwnerFromPod p deps)) ps ({}, [])))
         else (map (pod_node o1) ps, concat (map (pod_edges deps) ps)))"

definition appendServiceNodes :: "listed_service list \<Rightarrow> cluster_node list" where
  "appendServiceNodes svcs = map (\<lambda>s. cluster_node_of (''svc:'' @ ls_Namespace s @ ''/'' @ ls_Name s) ''Service'' (ls_Name s)
     (ls_Namespace s) ''healthy'') (filter (\<lambda>s. \<not> in_system (ls_Namespace s)) svcs)"

section \<open>Build\<close>

datatype topology_error = ListError string kerr

definition listAll ::
    "topology_lists \<Rightarrow> topology_error + listed_deployment list \<times> listed_pod list \<times> listed_node list \<times> listed_service list \<times> incident_report list" where
  "listAll K = (case tp_deployments K of
     Inl e \<Rightarrow> Inl (ListError ''list deployments'' e)
   | Inr deps \<Rightarrow> (case tp_pods K of
       Inl e \<Rightarrow> Inl (ListError ''list pods'' e)
     | Inr pods \<Rightarrow> (case tp_nodes K of
         Inl e \<Rightarrow> Inl (ListError ''list nodes'' e)
       | Inr nodes \<Rightarrow> (case tp_services K of
           Inl e \<Rightarrow> Inl (ListError ''list services'' e)
         | Inr svcs \<Rightarrow> Inr (deps, pods, nodes, svcs, case tp_incidents K of Inl _ \<Rightarrow> [] | Inr incs \<Rightarrow> incs)))))"

definition edge_key :: "graph_edge \<Rightarrow> string \<times> string" where
  "edge_key e = (ge_From e, ge_To e)"

definition BuildWithOptions :: "topology_lists \<Rightarrow> bool \<Rightarrow> topology_error + cluster_graph" where
  "BuildWithOptions K summary = (case listAll K of
     Inl e \<Rightarrow> Inl e
   | Inr (deps, pods, nodes, svcs, incs) \<Rightarrow>
       (let o1 = buildIncidentOverlay incs;
            (podNodes, edges) = appendPodNodesAndEdges o1 deps summary pods;
            all = sort_key gn_ID (appendNodeNodes o1 nodes @ appendDeploymentNodes o1 deps @ podNodes @
                    (if summary then [] else appendServiceNodes svcs));
            edges = sort_key edge_key edges
        in Inr \<lparr>cg_Nodes = all, cg_Edges = edges,
             cg_Meta = [(''edges'', itoa (int (length edges))), (''nodes'', itoa (int (length all)))]\<rparr>))"

definition cluster_Build :: "topology_lists \<Rightarrow> topology_error + cluster_graph" where
  "cluster_Build K = BuildWithOptions K False"

section \<open>Colours are maxima\<close>

text \<open>\<open>pickWorse\<close> takes the status of higher rank, so a fold of it takes the worst.\<close>

lemma status_rank_pickWorse [simp]: "status_rank (pickWorse a b) = max (status_rank a) (status_rank b)"
  by (simp add: pickWorse_def)

lemma status_rank_overlaid: "status_rank (overlaid v s) = max (status_rank s) (status_rank v)"
  by (simp add: overlaid_def) (simp add: status_rank_def)

text \<open>The resources an open incident lists under a kind, with its colour.\<close>

definition marks :: "(incident_report \<Rightarrow> affected_resource \<Rightarrow> bool) \<Rightarrow> incident_report list \<Rightarrow> nat list" where
  "marks p incs = map (\<lambda>inc. status_rank (severityToStatus (st_Severity (ir_Status inc))))
     (filter (\<lambda>inc. \<not> is_closed_phase inc \<and> list_ex (p inc) (st_AffectedResources (ir_Status inc))) incs)"

definition worst :: "nat list \<Rightarrow> nat" where
  "worst xs = foldr max xs 0"

lemma worst_simps [simp]: "worst [] = 0" "worst (x # xs) = max x (worst xs)"
  by (simp_all add: worst_def)

abbreviation incident_rank :: "incident_report \<Rightarrow> nat" where
  "incident_rank inc \<equiv> status_rank (severityToStatus (st_Severity (ir_Status inc)))"

text \<open>One map of the overlay, read at one key: an affected resource that matches raises it to the
  colour of its incident, any other leaves it.\<close>

locale overlay_field =
  fixes look :: "incident_overlay \<Rightarrow> nat" and matches :: "incident_report \<Rightarrow> affected_resource \<Rightarrow> bool"
  assumes empty: "look \<lparr>ov_pod = (\<lambda>_. []), ov_dep = (\<lambda>_. []), ov_node = (\<lambda>_. []), ov_ns = (\<lambda>_. [])\<rparr> = 0"
    and resource: "look (overlay_resource inc r o1) = max (look o1) (if matches inc r then incident_rank inc else 0)"
begin

lemma resources:
  "look (fold (overlay_resource inc) rs o1) = max (look o1) (if list_ex (matches inc) rs then incident_rank inc else 0)"
  by (induction rs arbitrary: o1) (simp_all add: resource max.assoc)

lemma incidents: "look (fold overlay_incident incs o1) = max (look o1) (worst (marks matches incs))"
  by (induction incs arbitrary: o1) (simp_all add: overlay_incident_def resources marks_def max.assoc)

lemma overlay: "look (buildIncidentOverlay incs) = worst (marks matches incs)"
  by (simp add: buildIncidentOverlay_def incidents empty)

end

definition names_pod :: "string \<Rightarrow> incident_report \<Rightarrow> affected_resource \<Rightarrow> bool" where
  "names_pod k inc r \<longleftrightarrow> ar_Kind r = ''Pod'' \<and> report_ns inc @ ''/'' @ ar_Name r = k"

definition names_deployment :: "string \<Rightarrow> incident_report \<Rightarrow> affected_resource \<Rightarrow> bool" where
  "names_deployment k inc r \<longleftrightarrow> ar_Kind r = ''Deployment'' \<and> report_ns inc @ ''/'' @ ar_Name r = k"

definition names_object :: "string \<Rightarrow> string \<Rightarrow> incident_report \<Rightarrow> affected_resource \<Rightarrow> bool" where
  "names_object kind k inc r \<longleftrightarrow> ar_Kind r = kind \<and> ar_Name r = k"

lemmas overlay_defs = overlay_resource_def worsen_def names_pod_def names_deployment_def names_object_def Let_def

lemma status_rank_Nil [simp]: "status_rank [] = 0"
  by (simp add: status_rank_def)

interpretation pod_overlay: overlay_field "\<lambda>o1. status_rank (ov_pod o1 k)" "names_pod k" for k
  by unfold_locales (simp_all add: overlay_defs)

interpretation dep_overlay: overlay_field "\<lambda>o1. status_rank (ov_dep o1 k)" "names_deployment k" for k
  by unfold_locales (simp_all add: overlay_defs)

interpretation node_overlay: overlay_field "\<lambda>o1. status_rank (ov_node o1 k)" "names_object ''Node'' k" for k
  by unfold_locales (simp_all add: overlay_defs)

interpretation ns_overlay: overlay_field "\<lambda>o1. status_rank (ov_ns o1 k)" "names_object ''Namespace'' k" for k
  by unfold_locales (simp_all add: overlay_defs)

lemma cluster_node_simps [simp]:
  "gn_ID (cluster_node_of i k n ns s) = i" "cl_Status (cluster_node_of i k n ns s) = s"
  by (simp_all add: cluster_node_of_def)

section \<open>Properties\<close>

text \<open>In the detailed topology every machine, and every deployment and pod outside the system
  namespaces, has a node whose colour is the worst of its own condition and of the colours of the open
  incidents that name it; a deployment also takes the colour of its namespace.
\<close>

theorem cluster_colours:
  assumes "listAll K = Inr (deps, pods, nodes, svcs, incs)" "BuildWithOptions K False = Inr g"
  shows "list_all (\<lambda>n. list_ex (\<lambda>v. gn_ID v = ''node:'' @ ln_Name n \<and> status_rank (cl_Status v) =
        max (status_rank (nodeReadinessStatus (ln_Conditions n))) (worst (marks (names_object ''Node'' (ln_Name n)) incs)))
        (cg_Nodes g)) nodes \<and>
    list_all (\<lambda>d. list_ex (\<lambda>v. gn_ID v = ''deploy:'' @ dep_key d \<and> status_rank (cl_Status v) =
        max (max (status_rank (deploymentStatus d)) (worst (marks (names_deployment (dep_key d)) incs)))
            (worst (marks (names_object ''Namespace'' (ld_Namespace d)) incs)))
        (cg_Nodes g)) (filter (\<lambda>d. \<not> in_system (ld_Namespace d)) deps) \<and>
    list_all (\<lambda>p. list_ex (\<lambda>v. gn_ID v = ''pod:'' @ pod_key p \<and> status_rank (cl_Status v) =
        max (status_rank (podStatus p)) (worst (marks (names_pod (pod_key p)) incs)))
        (cg_Nodes g)) (filter (\<lambda>p. \<not> in_system (lp_Namespace p)) pods)"
proof -
  let ?o = "buildIncidentOverlay incs"
  have nodes: "set (cg_Nodes g) = set (appendNodeNodes ?o nodes) \<union> set (appendDeploymentNodes ?o deps) \<union>
      pod_node ?o ` {p \<in> set pods. \<not> in_system (lp_Namespace p)} \<union> set (appendServiceNodes svcs)"
    using assms by (auto simp: BuildWithOptions_def appendPodNodesAndEdges_def Let_def)
  have "\<exists>v \<in> set (cg_Nodes g). gn_ID v = ''node:'' @ ln_Name n \<and> status_rank (cl_Status v) =
      max (status_rank (nodeReadinessStatus (ln_Conditions n))) (worst (marks (names_object ''Node'' (ln_Name n)) incs))"
    if "n \<in> set nodes" for n
  proof (rule bexI [of _ "machine_node ?o n"])
    show "machine_node ?o n \<in> set (cg_Nodes g)" using that by (simp add: nodes appendNodeNodes_def)
  qed (simp add: machine_node_def status_rank_overlaid node_overlay.overlay)
  moreover have "\<exists>v \<in> set (cg_Nodes g). gn_ID v = ''deploy:'' @ dep_key d \<and> status_rank (cl_Status v) =
      max (max (status_rank (deploymentStatus d)) (worst (marks (names_deployment (dep_key d)) incs)))
          (worst (marks (names_object ''Namespace'' (ld_Namespace d)) incs))"
    if "d \<in> set deps" "\<not> in_system (ld_Namespace d)" for d
  proof (rule bexI [of _ "deployment_node ?o d"])
    show "deployment_node ?o d \<in> set (cg_Nodes g)" using that by (simp add: nodes appendDeploymentNodes_def)
  qed (simp add: deployment_node_def status_rank_overlaid dep_overlay.overlay ns_overlay.overlay)
  moreover have "\<exists>v \<in> set (cg_Nodes g). gn_ID v = ''pod:'' @ pod_key p \<and> status_rank (cl_Status v) =
      max (status_rank (podStatus p)) (worst (marks (names_pod (pod_key p)) incs))"
    if "p \<in> set pods" "\<not> in_system (lp_Namespace p)" for p
  proof (rule bexI [of _ "pod_node ?o p"])
    show "pod_node ?o p \<in> set (cg_Nodes g)" using that by (simp add: nodes)
  qed (simp add: pod_node_def status_rank_overlaid pod_overlay.overlay)
  ultimately show ?thesis by (simp add: list_all_iff list_ex_iff)
qed

definition shop_incident :: incident_report where
  "shop_incident = \<lparr>ir_Meta = \<lparr>om_Name = ''inc'', om_GenerateName = [], om_Namespace = ''shop'', om_Labels = Map.empty,
       om_Annotations = Map.empty, om_CreationTimestamp = 0\<rparr>,
     ir_Spec = \<lparr>sp_AgentRef = ''agent'', sp_Fingerprint = [], sp_IncidentType = ''StalledRollout'', sp_Scope = zero_scope\<rparr>,
     ir_Status = zero_status\<lparr>st_Phase := ''Active'', st_Severity := ''P2'',
       st_AffectedResources := [\<lparr>ar_APIVersion = [], ar_Kind = ''Deployment'', ar_Name = ''web'', ar_Namespace = ''shop'', ar_UID = []\<rparr>]\<rparr>\<rparr>"

definition shop_deployment :: listed_deployment where
  "shop_deployment = \<lparr>ld_Name = ''web'', ld_Namespace = ''shop'', ld_SpecReplicas = Some 2, ld_Replicas = 2, ld_ReadyReplicas = 2\<rparr>"

definition shop_lists :: topology_lists where
  "shop_lists = \<lparr>tp_deployments = Inr [shop_deployment], tp_pods = Inr [], tp_nodes = Inr [], tp_services = Inr [],
     tp_incidents = Inr [shop_incident]\<rparr>"

theorem cluster_colours_witness:
  "deploymentStatus shop_deployment = ''healthy'' \<and>
   list_ex (\<lambda>v. gn_ID v = ''deploy:shop/web'' \<and> status_rank (cl_Status v) = 3) (cg_Nodes (projr (BuildWithOptions shop_lists False)))"
proof -
  have l: "listAll shop_lists = Inr ([shop_deployment], [], [], [], [shop_incident])" by (simp add: listAll_def shop_lists_def)
  have b: "BuildWithOptions shop_lists False = Inr (projr (BuildWithOptions shop_lists False))"
    by (simp add: BuildWithOptions_def l appendPodNodesAndEdges_def Let_def)
  have "dep_key shop_deployment = ''shop/web''" "\<not> in_system (ld_Namespace shop_deployment)"
    "deploymentStatus shop_deployment = ''healthy''"
    "worst (marks (names_deployment ''shop/web'') [shop_incident]) = 3" by code_simp+
  moreover have "worst (marks (names_object ''Namespace'' ''shop'') [shop_incident]) = 0" "ld_Namespace shop_deployment = ''shop''"
    "status_rank ''healthy'' = 1" by code_simp+
  ultimately show ?thesis using cluster_colours [OF l b] by simp
qed

section \<open>Edges\<close>

text \<open>An edge starts at a node of the graph, and an ownership edge ends at one: the owner is a
  listed deployment of the pod's namespace.\<close>

lemma deploymentOwner_listed:
  assumes "deploymentOwnerFromPod p deps \<noteq> []"
  shows "\<exists>d \<in> set deps. ld_Namespace d = lp_Namespace p \<and> ld_Name d = deploymentOwnerFromPod p deps"
proof -
  let ?f = "\<lambda>(kind, name). if kind \<noteq> ''ReplicaSet'' then None
         else find (\<lambda>d. ld_Namespace d = lp_Namespace p \<and> has_prefix name (ld_Name d @ ''-'')) deps"
  obtain d ds where ds: "List.map_filter ?f (lp_Owners p) = d # ds"
    using assms by (auto simp: deploymentOwnerFromPod_def split: list.splits)
  then have "d \<in> set (List.map_filter ?f (lp_Owners p))" by simp
  then obtain kind name where "?f (kind, name) = Some d" by (auto simp: map_filter_def)
  then have "d \<in> set deps" "ld_Namespace d = lp_Namespace p" by (auto split: if_splits dest: find_SomeD)
  then show ?thesis using ds by (auto simp: deploymentOwnerFromPod_def)
qed

lemma rollup_edges:
  "e \<in> set (snd (fold (\<lambda>p. rollupDepNodeEdge p (own p)) ps st)) \<Longrightarrow>
     e \<in> set (snd st) \<or> (\<exists>p \<in> set ps. own p \<noteq> [] \<and> e = rollup_edge p (own p))"
proof (induction ps arbitrary: st)
  case (Cons p ps)
  from Cons.IH [of "rollupDepNodeEdge p (own p) st"] Cons.prems show ?case
    by (auto simp: rollupDepNodeEdge_def Let_def split: prod.splits if_splits)
qed simp

lemma cluster_edges_joined:
  assumes "BuildWithOptions K summary = Inr g" "e \<in> set (cg_Edges g)"
  shows "ge_From e \<in> gn_ID ` set (cg_Nodes g)" "ge_Kind e = ''owns'' \<Longrightarrow> ge_To e \<in> gn_ID ` set (cg_Nodes g)"
proof -
  obtain deps pods nodes svcs incs where l: "listAll K = Inr (deps, pods, nodes, svcs, incs)"
    using assms(1) by (auto simp: BuildWithOptions_def split: sum.splits)
  let ?o = "buildIncidentOverlay incs" let ?ps = "filter (\<lambda>p. \<not> in_system (lp_Namespace p)) pods"
  have deploy: "''deploy:'' @ lp_Namespace p @ ''/'' @ deploymentOwnerFromPod p deps \<in> gn_ID ` set (cg_Nodes g)"
    if "deploymentOwnerFromPod p deps \<noteq> []" "p \<in> set ?ps" for p
  proof -
    note owner = that
    obtain d where "d \<in> set deps" "ld_Namespace d = lp_Namespace p" "ld_Name d = deploymentOwnerFromPod p deps"
      using deploymentOwner_listed [OF owner(1)] by blast
    then have dep: "d \<in> set (filter (\<lambda>d. \<not> in_system (ld_Namespace d)) deps)"
      and i: "gn_ID (deployment_node ?o d) = ''deploy:'' @ lp_Namespace p @ ''/'' @ deploymentOwnerFromPod p deps"
      using owner(2) by (simp_all add: deployment_node_def)
    have "deployment_node ?o d \<in> set (appendDeploymentNodes ?o deps)" unfolding appendDeploymentNodes_def set_map using dep by (rule imageI)
    then have "deployment_node ?o d \<in> set (cg_Nodes g)"
      using assms(1) l by (auto simp: BuildWithOptions_def Let_def split: prod.splits)
    then show ?thesis unfolding i [symmetric] by (rule imageI)
  qed
  have pod: "''pod:'' @ pod_key p \<in> gn_ID ` set (cg_Nodes g)" if "\<not> summary" "p \<in> set ?ps" for p
  proof -
    have "pod_node ?o p \<in> set (cg_Nodes g)" using assms(1) that l by (auto simp: BuildWithOptions_def Let_def appendPodNodesAndEdges_def)
    then show ?thesis by (metis cluster_node_simps(1) imageI pod_node_def)
  qed
  consider p where "summary" "p \<in> set ?ps" "deploymentOwnerFromPod p deps \<noteq> []" "e = rollup_edge p (deploymentOwnerFromPod p deps)"
    | p where "\<not> summary" "p \<in> set ?ps" "e \<in> set (pod_edges deps p)"
    using assms l rollup_edges [of e "\<lambda>p. deploymentOwnerFromPod p deps" ?ps "({}, [])"]
    by (cases summary) (auto simp: BuildWithOptions_def Let_def appendPodNodesAndEdges_def)
  then show "ge_From e \<in> gn_ID ` set (cg_Nodes g)" "ge_Kind e = ''owns'' \<Longrightarrow> ge_To e \<in> gn_ID ` set (cg_Nodes g)"
    using deploy pod by (cases; auto simp: rollup_edge_def pod_edges_def plain_edge_def Let_def split: if_splits)+
qed

text \<open>The owner is found by prefix, so a deployment whose name extends another's loses its pods to it.\<close>

lemma owner_by_prefix:
  "deploymentOwnerFromPod \<lparr>lp_Name = ''p'', lp_Namespace = ''shop'', lp_NodeName = [], lp_Phase = ''Running'',
       lp_Owners = [(''ReplicaSet'', ''web-api-6d4cf56db6'')], lp_Containers = []\<rparr>
     [shop_deployment, shop_deployment\<lparr>ld_Name := ''web-api''\<rparr>] = ''web''"
  by code_simp

end
