(* ===== verification/Service_Graph.thy ===== *)
theory Service_Graph
  imports Cluster_Graph "HOL-Library.Signed_Division"
begin

text \<open>
  The service dependency graph of \<open>internal/correlator/graph/service.go\<close>: services and call counts
  from the trace store's dependencies, with the topology of the open incidents as a fallback when
  that is sparse. Call counts are gathered in a Go map keyed by the two ids joined with a NUL
  byte; a map is kept here as an association list, and \<open>order\<close> is the order in which a range
  over it visits the entries. The decoder of a stored incident graph is a parameter.
\<close>

section \<open>Call counts\<close>

fun bump :: "string \<Rightarrow> int \<Rightarrow> (string \<times> int) list \<Rightarrow> (string \<times> int) list" where
  "bump k c [] = [(k, wrap64 c)]"
| "bump k c ((k', n) # m) = (if k' = k then (k', wrap64 (n + c)) # m else (k', n) # bump k c m)"

abbreviation nul :: char where "nul \<equiv> CHR 0x00"

definition count_key :: "string \<Rightarrow> string \<Rightarrow> string" where
  "count_key a b = a @ [nul] @ b"

definition count_edge :: "string \<times> int \<Rightarrow> graph_edge option" where
  "count_edge kc = (case str_split nul (fst kc) of
     [a, b] \<Rightarrow> Some \<lparr>ge_From = a, ge_To = b, ge_Kind = ''calls'', ge_Count = snd kc\<rparr>
   | _ \<Rightarrow> None)"

type_synonym range_order = "(string \<times> int) list \<Rightarrow> (string \<times> int) list"

abbreviation is_call :: "graph_edge \<Rightarrow> bool" where
  "is_call e \<equiv> ge_Kind e = ''calls''"

definition call_counts :: "graph_edge list \<Rightarrow> (string \<times> int) list" where
  "call_counts es = fold (\<lambda>e. bump (count_key (ge_From e) (ge_To e)) (ge_Count e)) (filter is_call es) []"

definition edge_kind_key :: "graph_edge \<Rightarrow> string \<times> string \<times> string" where
  "edge_kind_key e = (ge_From e, ge_To e, ge_Kind e)"

definition dedupeCallEdges :: "range_order \<Rightarrow> graph_edge list \<Rightarrow> graph_edge list" where
  "dedupeCallEdges order edges =
     sort_key edge_kind_key (List.map_filter count_edge (order (call_counts edges)) @ filter (\<lambda>e. \<not> is_call e) edges)"

section \<open>Fallback from the incident graphs\<close>

definition service_of_node :: "graph_node \<Rightarrow> string" where
  "service_of_node n =
     (let name = trim_space (gn_Name n)
      in if name = [] \<and> has_prefix (gn_ID n) ''service:'' then trim_prefix (gn_ID n) ''service:'' else name)"

definition service_nodes :: "incident_graph \<Rightarrow> (string \<times> string) list" where
  "service_nodes ig = List.map_filter (\<lambda>n.
     if gn_Kind n \<noteq> ''Service'' \<or> service_of_node n = [] then None else Some (gn_ID n, service_of_node n)) (elems (ig_Nodes ig))"

definition service_id :: "string \<Rightarrow> string" where
  "service_id name = ''service:'' @ name"

definition fallback_edge :: "(string \<rightharpoonup> string) \<Rightarrow> graph_edge \<Rightarrow> (string \<times> int) list \<Rightarrow> (string \<times> int) list" where
  "fallback_edge idToService e m =
     (if ge_Kind e \<noteq> ''calls'' then m
      else case (idToService (ge_From e), idToService (ge_To e)) of
        (Some a, Some b) \<Rightarrow>
          if a = [] \<or> b = [] \<or> a = b then m
          else bump (count_key (service_id a) (service_id b)) (if ge_Count e \<le> 0 then 1 else ge_Count e) m
      | _ \<Rightarrow> m)"

definition fallback_incident ::
    "(string \<Rightarrow> incident_graph option) \<Rightarrow> incident_report \<Rightarrow> string list \<times> (string \<times> int) list \<Rightarrow> string list \<times> (string \<times> int) list" where
  "fallback_incident decode inc st =
     (if is_closed_phase inc then st
      else case st_IncidentGraph (ir_Status inc) of
        None \<Rightarrow> st
      | Some raw \<Rightarrow>
          if raw = [] then st
          else case decode raw of
            None \<Rightarrow> st
          | Some ig \<Rightarrow>
              (let (services, counts) = st; ns = service_nodes ig; idToService = map_of (rev ns)
               in (services @ map snd ns, fold (fallback_edge idToService) (elems (ig_Edges ig)) counts)))"

definition buildIncidentServiceFallback ::
    "range_order \<Rightarrow> (string \<Rightarrow> incident_graph option) \<Rightarrow> incident_report list \<Rightarrow> string list \<times> graph_edge list" where
  "buildIncidentServiceFallback order decode incs =
     (let (services, counts) = fold (fallback_incident decode) incs ([], [])
      in (sort (remdups services), sort_key edge_key (List.map_filter count_edge (order counts))))"

section \<open>Namespaces and colours of services\<close>

definition lookup_service :: "listed_service \<Rightarrow> (string \<rightharpoonup> string) \<Rightarrow> (string \<rightharpoonup> string)" where
  "lookup_service svc out =
     (if ls_Name svc = [] \<or> ls_Namespace svc = [] \<or> in_system (ls_Namespace svc) then out
      else case out (ls_Name svc) of
        None \<Rightarrow> out(ls_Name svc \<mapsto> ls_Namespace svc)
      | Some existing \<Rightarrow> if existing \<noteq> ls_Namespace svc then out(ls_Name svc \<mapsto> []) else out)"

definition buildServiceNamespaceLookup :: "listed_service list \<Rightarrow> (string \<rightharpoonup> string)" where
  "buildServiceNamespaceLookup svcs = fold lookup_service svcs Map.empty"

definition resolveServiceNamespace :: "string \<Rightarrow> (string \<rightharpoonup> string) \<Rightarrow> string" where
  "resolveServiceNamespace serviceName lookup =
     (if map_get lookup serviceName \<noteq> [] then map_get lookup serviceName
      else let base = takeWhile (\<lambda>c. c \<noteq> CHR ''.'') serviceName
           in map_get lookup (if base = [] then serviceName else base))"

definition overlay_kinds :: "string list" where
  "overlay_kinds = [''Service'', ''Deployment'', ''StatefulSet'', ''DaemonSet'', ''ReplicaSet'', ''Pod'']"

definition overlay_service :: "incident_report \<Rightarrow> (string \<Rightarrow> string) \<Rightarrow> (string \<Rightarrow> string)" where
  "overlay_service inc m =
     (if is_closed_phase inc then m
      else fold (\<lambda>r m. if ar_Name r \<noteq> [] \<and> ar_Kind r \<in> set overlay_kinds
                       then worsen (ar_Name r) (severityToStatus (st_Severity (ir_Status inc))) m else m)
             (st_AffectedResources (ir_Status inc)) m)"

definition buildServiceOverlay :: "incident_report list \<Rightarrow> string \<Rightarrow> string" where
  "buildServiceOverlay incs = fold overlay_service incs (\<lambda>_. [])"

section \<open>Build\<close>

type_synonym service_draft = "string set \<times> cluster_node list"

definition service_node :: "(string \<Rightarrow> string) \<Rightarrow> (string \<rightharpoonup> string) \<Rightarrow> string \<Rightarrow> cluster_node" where
  "service_node status lookup name = cluster_node_of (service_id name) ''Service'' name
     (resolveServiceNamespace name lookup) (if status name = [] then ''healthy'' else status name)"

definition addService :: "(string \<Rightarrow> cluster_node) \<Rightarrow> string \<Rightarrow> service_draft \<Rightarrow> service_draft" where
  "addService mk name d =
     (let (seen, nodes) = d in if name = [] \<or> name \<in> seen then d else (insert name seen, nodes @ [mk name]))"

definition add_dependency ::
    "(string \<Rightarrow> cluster_node) \<Rightarrow> dependency \<Rightarrow> service_draft \<times> graph_edge list \<Rightarrow> service_draft \<times> graph_edge list" where
  "add_dependency mk d st =
     (let (draft, edges) = st; draft = addService mk (dp_Child d) (addService mk (dp_Parent d) draft)
      in (draft, if dp_Parent d = [] \<or> dp_Child d = [] then edges
                 else edges @ [\<lparr>ge_From = service_id (dp_Parent d), ge_To = service_id (dp_Child d),
                                ge_Kind = ''calls'', ge_Count = dp_CallCount d\<rparr>]))"

definition serviceGraphSparse :: "cluster_node list \<Rightarrow> graph_edge list \<Rightarrow> bool" where
  "serviceGraphSparse nodes edges \<longleftrightarrow> length nodes \<le> 1 \<or> \<not> list_ex (\<lambda>e. is_call e \<and> ge_From e \<noteq> ge_To e) edges"

definition add_fallback_edge ::
    "(string \<Rightarrow> cluster_node) \<Rightarrow> graph_edge \<Rightarrow> service_draft \<times> graph_edge list \<Rightarrow> service_draft \<times> graph_edge list" where
  "add_fallback_edge mk e st =
     (let (draft, edges) = st
      in (addService mk (trim_prefix (ge_To e) ''service:'') (addService mk (trim_prefix (ge_From e) ''service:'') draft),
          edges @ [e]))"

definition service_draft_of ::
    "range_order \<Rightarrow> (string \<Rightarrow> incident_graph option) \<Rightarrow> (jaeger_error + dependency list) option \<Rightarrow> incident_report list \<Rightarrow>
       listed_service list \<Rightarrow> string \<times> cluster_node list \<times> graph_edge list" where
  "service_draft_of order decode jaeger incs svcs =
     (let mk = service_node (buildServiceOverlay incs) (buildServiceNamespaceLookup svcs);
          (source, deps) = (case jaeger of None \<Rightarrow> (''unavailable'', [])
             | Some (Inl _) \<Rightarrow> (''jaeger-error'', []) | Some (Inr ds) \<Rightarrow> (''jaeger'', ds));
          (names, fallback) = buildIncidentServiceFallback order decode incs;
          ((seen, nodes), edges) = fold (add_dependency mk) deps (({}, []), [])
      in if serviceGraphSparse nodes edges \<and> (names \<noteq> [] \<or> fallback \<noteq> [])
         then let ((seen, nodes), edges) = fold (add_fallback_edge mk) fallback (fold (addService mk) names (seen, nodes), edges)
              in (if source = ''jaeger'' then ''jaeger+incident-fallback'' else ''incident-graph'', nodes, edges)
         else (source, nodes, edges))"

text \<open>The whole seconds of the lookback: a conversion to an integer truncates.\<close>

definition service_Build ::
    "range_order \<Rightarrow> (string \<Rightarrow> incident_graph option) \<Rightarrow> (jaeger_error + dependency list) option \<Rightarrow> incident_report list \<Rightarrow>
       listed_service list \<Rightarrow> duration \<Rightarrow> cluster_graph" where
  "service_Build order decode jaeger incs svcs lookback =
     (let (source, nodes, edges) = service_draft_of order decode jaeger incs svcs;
          nodes = sort_key gn_ID nodes; edges = sort_key edge_key (dedupeCallEdges order edges)
      in \<lparr>cg_Nodes = nodes, cg_Edges = edges,
          cg_Meta = [(''edges'', itoa (int (length edges))), (''lookbackSeconds'', itoa (lookback sdiv second)),
                     (''nodes'', itoa (int (length nodes))), (''source'', source)]\<rparr>)"

section \<open>Counting\<close>

lemma wrap64_add [simp]: "wrap64 (wrap64 a + b) = wrap64 (a + b)"
proof -
  have "wrap64 (wrap64 a + b) = ((a + 9223372036854775808) mod 18446744073709551616 + b) mod 18446744073709551616 - 9223372036854775808"
    by (simp add: wrap64_def)
  also have "\<dots> = (a + 9223372036854775808 + b) mod 18446744073709551616 - 9223372036854775808"
    by (simp only: mod_add_left_eq)
  finally show ?thesis by (simp add: wrap64_def ac_simps)
qed

lemma map_of_bump:
  "map_of (bump k c m) x =
     (if x = k then Some (wrap64 ((case map_of m k of None \<Rightarrow> 0 | Some n \<Rightarrow> n) + c)) else map_of m x)"
  by (induction m) auto

lemma fst_bump [simp]: "fst ` set (bump k c m) = insert k (fst ` set m)"
  by (induction k c m rule: bump.induct) (simp_all add: insert_commute)

lemma distinct_bump: "distinct (map fst m) \<Longrightarrow> distinct (map fst (bump k c m))"
proof (induction m)
  case (Cons a m)
  then show ?case using fst_bump [of k c m] by (cases a) auto
qed simp

abbreviation call_key :: "graph_edge \<Rightarrow> string" where
  "call_key e \<equiv> count_key (ge_From e) (ge_To e)"

definition calls_of :: "string \<Rightarrow> graph_edge list \<Rightarrow> graph_edge list" where
  "calls_of k es = filter (\<lambda>e. is_call e \<and> call_key e = k) es"

lemma call_counts_snoc:
  "call_counts (es @ [e]) = (if is_call e then bump (call_key e) (ge_Count e) (call_counts es) else call_counts es)"
  by (simp add: call_counts_def)

lemma distinct_call_counts: "distinct (map fst (call_counts es))"
  by (induction es rule: rev_induct) (simp_all add: call_counts_snoc distinct_bump, simp add: call_counts_def)

lemma call_counts_total:
  "map_of (call_counts es) k =
     (if calls_of k es = [] then None else Some (wrap64 (sum_list (map ge_Count (calls_of k es)))))"
proof (induction es rule: rev_induct)
  case (snoc e es)
  then show ?case by (auto simp: call_counts_snoc map_of_bump calls_of_def)
qed (simp add: call_counts_def calls_of_def)

lemma split_two: "str_split nul k = [a, b] \<longleftrightarrow> k = count_key a b \<and> nul \<notin> set a \<and> nul \<notin> set b"
proof
  assume "str_split nul k = [a, b]"
  then show "k = count_key a b \<and> nul \<notin> set a \<and> nul \<notin> set b"
    using str_join_split [of nul k] str_split_parts [of _ nul k] by (auto simp: count_key_def)
qed (simp add: count_key_def str_split_at str_split_no_sep)

lemma count_edge_Some:
  "count_edge (k, n) = Some e \<longleftrightarrow>
     k = call_key e \<and> nul \<notin> set (ge_From e) \<and> nul \<notin> set (ge_To e) \<and> is_call e \<and> ge_Count e = n"
proof -
  have "count_edge (k, n) = Some e \<longleftrightarrow> str_split nul k = [ge_From e, ge_To e] \<and> is_call e \<and> ge_Count e = n"
    by (cases e) (auto simp: count_edge_def split: list.splits)
  then show ?thesis unfolding split_two by blast
qed

lemma set_count_edges:
  assumes "mset ys = mset xs"
  shows "e \<in> set (List.map_filter count_edge ys) \<longleftrightarrow>
    (call_key e, ge_Count e) \<in> set xs \<and> nul \<notin> set (ge_From e) \<and> nul \<notin> set (ge_To e) \<and> is_call e"
proof -
  have "set ys = set xs" using assms by (rule mset_eq_setD)
  then have "e \<in> set (List.map_filter count_edge ys) \<longleftrightarrow> (\<exists>k n. (k, n) \<in> set xs \<and> count_edge (k, n) = Some e)"
    unfolding in_set_map_filter by auto
  then show ?thesis unfolding count_edge_Some by blast
qed

text \<open>What the counting keeps: per pair of ids without a NUL byte one edge, with the wrapped total.\<close>

lemma call_counts_edges:
  assumes "mset ys = mset (call_counts es)"
  shows "e \<in> set (List.map_filter count_edge ys) \<longleftrightarrow>
    calls_of (call_key e) es \<noteq> [] \<and> ge_Count e = wrap64 (sum_list (map ge_Count (calls_of (call_key e) es))) \<and>
    nul \<notin> set (ge_From e) \<and> nul \<notin> set (ge_To e) \<and> is_call e"
proof -
  let ?t = "wrap64 (sum_list (map ge_Count (calls_of (call_key e) es)))"
  have "(call_key e, ge_Count e) \<in> set (call_counts es) \<longleftrightarrow> map_of (call_counts es) (call_key e) = Some (ge_Count e)"
    by (rule map_of_eq_Some_iff [OF distinct_call_counts, symmetric])
  also have "\<dots> \<longleftrightarrow> calls_of (call_key e) es \<noteq> [] \<and> ge_Count e = ?t" by (auto simp: call_counts_total)
  finally show ?thesis unfolding set_count_edges [OF assms] by blast
qed

lemma count_edges_inj:
  assumes "distinct (map fst xs)" "mset ys = mset xs"
  shows "inj_on edge_key (set (List.map_filter count_edge ys))"
proof (rule inj_onI)
  fix a b
  assume "a \<in> set (List.map_filter count_edge ys)" "b \<in> set (List.map_filter count_edge ys)" "edge_key a = edge_key b"
  then have "(call_key a, ge_Count a) \<in> set xs" "(call_key a, ge_Count b) \<in> set xs" "is_call a" "is_call b"
      "ge_From a = ge_From b" "ge_To a = ge_To b"
    unfolding set_count_edges [OF assms(2)] by (simp_all add: edge_key_def)
  moreover from this(1,2) have "ge_Count a = ge_Count b" by (rule eq_key_imp_eq_value [OF assms(1)])
  ultimately show "a = b" by simp
qed

lemma map_filter_perm: "mset ys = mset xs \<Longrightarrow> mset (List.map_filter f ys) = mset (List.map_filter f xs)"
  by (simp add: map_filter_def mset_filter flip: mset_map) (metis mset_filter mset_map)

section \<open>The draft\<close>

lemma service_id_inj [simp]: "service_id a = service_id b \<longleftrightarrow> a = b"
  by (simp add: service_id_def)

lemma trim_service_id [simp]: "trim_prefix (service_id a) ''service:'' = a"
  unfolding service_id_def by (rule trim_prefix_append)

definition services_ok :: "service_draft \<Rightarrow> bool" where
  "services_ok d \<longleftrightarrow> gn_ID ` set (snd d) = service_id ` fst d \<and> distinct (map gn_ID (snd d))"

definition calls_within :: "string set \<Rightarrow> graph_edge list \<Rightarrow> bool" where
  "calls_within seen es \<longleftrightarrow> (\<forall>e \<in> set es. is_call e \<and> ge_From e \<in> service_id ` seen \<and> ge_To e \<in> service_id ` seen)"

definition service_state_ok :: "service_draft \<times> graph_edge list \<Rightarrow> bool" where
  "service_state_ok st \<longleftrightarrow> services_ok (fst st) \<and> calls_within (fst (fst st)) (snd st)"

text \<open>What the draft needs of the node of a service: its id.\<close>

locale service_maker =
  fixes mk :: "string \<Rightarrow> cluster_node"
  assumes mk [simp]: "gn_ID (mk name) = service_id name"
begin

lemma addService_seen: "fst (addService mk name d) = (if name = [] then fst d else insert name (fst d))"
  by (cases d) (auto simp: addService_def)

lemma addService_ok: "services_ok d \<Longrightarrow> services_ok (addService mk name d)"
  by (cases d) (auto simp: addService_def services_ok_def)

lemma addServices_ok: "services_ok d \<Longrightarrow> services_ok (fold (addService mk) names d)"
  by (induction names arbitrary: d) (simp_all add: addService_ok)

lemma addServices_seen: "fst d \<subseteq> fst (fold (addService mk) names d)"
proof (induction names arbitrary: d)
  case (Cons n ns)
  show ?case using Cons [of "addService mk n d"] by (auto simp: addService_seen split: if_splits)
qed simp

lemma add_dependency_ok: "service_state_ok st \<Longrightarrow> service_state_ok (add_dependency mk d st)"
  by (cases st) (auto simp: service_state_ok_def add_dependency_def calls_within_def Let_def addService_ok addService_seen)

lemma add_fallback_ok:
  assumes "service_state_ok st" "is_call e" "ge_From e = service_id a" "ge_To e = service_id b" "a \<noteq> []" "b \<noteq> []"
  shows "service_state_ok (add_fallback_edge mk e st)"
  using assms by (cases st) (auto simp: service_state_ok_def add_fallback_edge_def calls_within_def addService_ok addService_seen)

lemma add_dependencies_ok: "service_state_ok st \<Longrightarrow> service_state_ok (fold (add_dependency mk) deps st)"
  by (induction deps arbitrary: st) (simp_all add: add_dependency_ok)

lemma add_fallbacks_ok:
  assumes "service_state_ok st"
    and "\<And>e. e \<in> set es \<Longrightarrow> is_call e \<and> (\<exists>a b. ge_From e = service_id a \<and> ge_To e = service_id b \<and> a \<noteq> [] \<and> b \<noteq> [])"
  shows "service_state_ok (fold (add_fallback_edge mk) es st)"
  using assms
proof (induction es arbitrary: st)
  case (Cons e es)
  then obtain a b where "is_call e" "ge_From e = service_id a" "ge_To e = service_id b" "a \<noteq> []" "b \<noteq> []" by (meson list.set_intros(1))
  then have "service_state_ok (add_fallback_edge mk e st)" using Cons.prems(1) by (intro add_fallback_ok)
  then show ?case using Cons by simp
qed simp

lemma services_then_fallbacks:
  assumes "service_state_ok (d, edges)"
    and "\<And>e. e \<in> set es \<Longrightarrow> is_call e \<and> (\<exists>a b. ge_From e = service_id a \<and> ge_To e = service_id b \<and> a \<noteq> [] \<and> b \<noteq> [])"
  shows "service_state_ok (fold (add_fallback_edge mk) es (fold (addService mk) names d, edges))"
proof (rule add_fallbacks_ok)
  show "service_state_ok (fold (addService mk) names d, edges)"
    using assms(1) addServices_seen [of d names] by (fastforce simp: service_state_ok_def addServices_ok calls_within_def)
qed (rule assms(2))

end

interpretation services: service_maker "service_node status lookup" for status lookup
  by unfold_locales (simp add: service_node_def)

section \<open>The fallback\<close>

definition service_keys :: "(string \<times> int) list \<Rightarrow> bool" where
  "service_keys m \<longleftrightarrow> distinct (map fst m) \<and>
     (\<forall>k \<in> fst ` set m. \<exists>a b. a \<noteq> [] \<and> b \<noteq> [] \<and> k = count_key (service_id a) (service_id b))"

lemma service_keys_bump:
  assumes "service_keys m" "a \<noteq> []" "b \<noteq> []"
  shows "service_keys (bump (count_key (service_id a) (service_id b)) c m)"
  using assms distinct_bump unfolding service_keys_def fst_bump ball_simps by blast

lemma fallback_edge_keys: "service_keys m \<Longrightarrow> service_keys (fallback_edge lookup e m)"
  by (auto simp: fallback_edge_def service_keys_bump split: option.split)

lemma fallback_keys: "service_keys (snd (fold (fallback_incident decode) incs st))" if "service_keys (snd st)" for st
  using that
proof (induction incs arbitrary: st)
  case (Cons inc incs)
  have "service_keys (fold (fallback_edge ids) es m)" if "service_keys m" for ids es m
    using that by (induction es arbitrary: m) (simp_all add: fallback_edge_keys)
  then have "service_keys (snd (fallback_incident decode inc st))"
    using Cons.prems by (auto simp: fallback_incident_def Let_def split: option.split prod.split)
  then show ?case using Cons.IH by simp
qed simp

lemma count_key_unique:
  assumes "count_key x y = count_key a b" "nul \<notin> set x" "nul \<notin> set y"
  shows "a = x \<and> b = y"
proof -
  have "str_split nul (count_key a b) = [x, y]" using assms split_two [of "count_key x y" x y] by simp
  then have *: "str_split nul a @ str_split nul b = [x, y]" by (simp add: count_key_def str_split_at)
  then have "length (str_split nul a) + length (str_split nul b) = 2" by (metis length_append length_Cons list.size(3) numeral_2_eq_2)
  then have "length (str_split nul a) = 1"
    using str_split_nonempty [of nul a] str_split_nonempty [of nul b] by (cases "str_split nul a"; cases "str_split nul b") auto
  then have "str_split nul a = [x]" "str_split nul b = [y]" using * by (auto simp: length_Suc_conv)
  then show ?thesis using str_join_split [of nul a] str_join_split [of nul b] by simp
qed

definition fallback_counts :: "(string \<Rightarrow> incident_graph option) \<Rightarrow> incident_report list \<Rightarrow> (string \<times> int) list" where
  "fallback_counts decode incs = snd (fold (fallback_incident decode) incs ([], []))"

lemma fallback_counts_ok: "service_keys (fallback_counts decode incs)"
  unfolding fallback_counts_def by (rule fallback_keys) (simp add: service_keys_def)

lemma fallback_edges:
  assumes "mset ys = mset (fallback_counts decode incs)" "e \<in> set (List.map_filter count_edge ys)"
  shows "is_call e \<and> (\<exists>a b. ge_From e = service_id a \<and> ge_To e = service_id b \<and> a \<noteq> [] \<and> b \<noteq> [])"
proof -
  have e: "(call_key e, ge_Count e) \<in> set (fallback_counts decode incs)" "nul \<notin> set (ge_From e)" "nul \<notin> set (ge_To e)" "is_call e"
    using assms(2) unfolding set_count_edges [OF assms(1)] by blast+
  then obtain a b where "a \<noteq> []" "b \<noteq> []" "call_key e = count_key (service_id a) (service_id b)"
    using fallback_counts_ok [of decode incs] unfolding service_keys_def by force
  then show ?thesis using count_key_unique e(2-4) by metis
qed

lemma fallback_order:
  assumes "\<And>xs. mset (order xs) = mset xs"
  shows "buildIncidentServiceFallback order decode incs = buildIncidentServiceFallback (\<lambda>xs. xs) decode incs"
proof -
  let ?c = "fallback_counts decode incs"
  have "sort_key edge_key (List.map_filter count_edge (order ?c)) = sort_key edge_key (List.map_filter count_edge ?c)"
    using fallback_counts_ok [of decode incs] assms
    by (intro sort_key_perm map_filter_perm count_edges_inj [of ?c]) (simp_all add: service_keys_def)
  then show ?thesis by (simp add: buildIncidentServiceFallback_def fallback_counts_def case_prod_beta)
qed

lemma service_draft_order:
  assumes "\<And>xs. mset (order xs) = mset xs"
  shows "service_draft_of order decode jaeger incs svcs = service_draft_of (\<lambda>xs. xs) decode jaeger incs svcs"
  unfolding service_draft_of_def fallback_order [OF assms] ..

lemma service_draft_ok:
  assumes "service_draft_of (\<lambda>xs. xs) decode jaeger incs svcs = (source, nodes, edges)"
  obtains seen where "service_state_ok ((seen, nodes), edges)"
proof -
  define mk where "mk = service_node (buildServiceOverlay incs) (buildServiceNamespaceLookup svcs)"
  obtain src deps where sd: "(case jaeger of None \<Rightarrow> (''unavailable'', [])
             | Some (Inl _) \<Rightarrow> (''jaeger-error'', []) | Some (Inr ds) \<Rightarrow> (''jaeger'', ds)) = (src, deps)" by fastforce
  obtain names fb where fb: "buildIncidentServiceFallback (\<lambda>xs. xs) decode incs = (names, fb)" by fastforce
  obtain seen0 n0 e0 where st: "fold (add_dependency mk) deps (({}, []), []) = ((seen0, n0), e0)" by (metis surj_pair)
  have ok: "service_state_ok ((seen0, n0), e0)"
    unfolding st [symmetric] mk_def
    by (rule services.add_dependencies_ok) (simp add: service_state_ok_def services_ok_def calls_within_def)
  have "is_call e \<and> (\<exists>a b. ge_From e = service_id a \<and> ge_To e = service_id b \<and> a \<noteq> [] \<and> b \<noteq> [])" if "e \<in> set fb" for e
    using that fb fallback_edges [of "fallback_counts decode incs" decode incs e]
    by (auto simp: buildIncidentServiceFallback_def fallback_counts_def case_prod_beta)
  then have more: "service_state_ok (fold (add_fallback_edge mk) fb (fold (addService mk) names (seen0, n0), e0))"
    unfolding mk_def by (rule services.services_then_fallbacks [OF ok])
  have "nodes = n0 \<and> edges = e0 \<or>
      (\<exists>seen. fold (add_fallback_edge mk) fb (fold (addService mk) names (seen0, n0), e0) = ((seen, nodes), edges))"
    using assms unfolding service_draft_of_def Let_def mk_def [symmetric] sd fb
    by (auto simp: st split: if_splits prod.splits)
  then show ?thesis using that ok more by metis
qed

lemma dedupe_calls:
  assumes "\<And>xs. mset (order xs) = mset xs" "list_all is_call edges"
  shows "dedupeCallEdges order edges = sort_key edge_kind_key (List.map_filter count_edge (call_counts edges))"
    and "inj_on edge_key (set (dedupeCallEdges order edges))" "distinct (dedupeCallEdges order edges)"
proof -
  let ?c = "call_counts edges"
  have calls: "filter (\<lambda>e. \<not> is_call e) edges = []" using assms(2) by (simp add: list_all_iff filter_empty_conv)
  have inj: "inj_on edge_key (set (List.map_filter count_edge (order ?c)))"
    using count_edges_inj [OF distinct_call_counts assms(1)] .
  then have "inj_on edge_kind_key (set (List.map_filter count_edge (order ?c)))"
    by (auto simp: inj_on_def edge_kind_key_def edge_key_def)
  then show eq: "dedupeCallEdges order edges = sort_key edge_kind_key (List.map_filter count_edge ?c)"
    unfolding dedupeCallEdges_def calls append_Nil2 using assms(1) by (intro sort_key_perm map_filter_perm)
  show "inj_on edge_key (set (dedupeCallEdges order edges))"
    using inj by (simp add: dedupeCallEdges_def calls)
  have "distinct (List.map_filter count_edge m)" if "distinct (map fst m)" for m
    using that
  proof (induction m)
    case (Cons kn m)
    have "e \<notin> set (List.map_filter count_edge m)" if "count_edge kn = Some e" for e
      using Cons.prems that set_count_edges [of m m e] count_edge_Some [of "fst kn" "snd kn" e] by force
    then show ?case using Cons by (auto simp: map_filter_simps split: option.split)
  qed (simp add: map_filter_simps)
  then show "distinct (dedupeCallEdges order edges)" unfolding eq using distinct_call_counts by simp
qed

section \<open>Properties\<close>

text \<open>C36.
  The service graph does not depend on the order in which Go visits its maps. Its node ids are
  distinct and sorted, it has one edge per pair of services, both ends of which are nodes, and the
  count of an edge is the 64-bit total of the calls drafted between them (from the trace store and, when
  that is sparse, from the open incidents); no drafted pair is lost unless a name holds a NUL byte.
\<close>

theorem service_graph_exact:
  assumes "\<And>xs. mset (order xs) = mset xs"
  shows "let (source, nodes, edges) = service_draft_of (\<lambda>xs. xs) decode jaeger incs svcs;
             g = service_Build order decode jaeger incs svcs lookback
    in g = service_Build (\<lambda>xs. xs) decode jaeger incs svcs lookback \<and>
       sorted (map gn_ID (cg_Nodes g)) \<and> distinct (map gn_ID (cg_Nodes g)) \<and> distinct (map edge_key (cg_Edges g)) \<and>
       list_all (\<lambda>e. ge_From e \<in> gn_ID ` set (cg_Nodes g) \<and> ge_To e \<in> gn_ID ` set (cg_Nodes g) \<and>
           ge_Count e = wrap64 (sum_list (map ge_Count (calls_of (call_key e) edges)))) (cg_Edges g) \<and>
       list_all (\<lambda>e. nul \<in> set (ge_From e) \<or> nul \<in> set (ge_To e) \<or>
           list_ex (\<lambda>f. edge_key f = edge_key e) (cg_Edges g)) edges"
proof -
  obtain source nodes edges where d: "service_draft_of (\<lambda>xs. xs) decode jaeger incs svcs = (source, nodes, edges)"
    using prod_cases3 by blast
  obtain seen where ok: "service_state_ok ((seen, nodes), edges)" using service_draft_ok [OF d] by blast
  then have ids: "gn_ID ` set nodes = service_id ` seen" "distinct (map gn_ID nodes)"
    and within: "\<And>e. e \<in> set edges \<Longrightarrow> is_call e \<and> ge_From e \<in> service_id ` seen \<and> ge_To e \<in> service_id ` seen"
    by (simp_all add: service_state_ok_def services_ok_def calls_within_def)
  have calls: "list_all is_call edges" using within by (simp add: list_all_iff)
  define g where "g = service_Build order decode jaeger incs svcs lookback"
  let ?E = "dedupeCallEdges order edges"
  note dd = dedupe_calls [OF assms calls]
  have g: "cg_Nodes g = sort_key gn_ID nodes" "cg_Edges g = sort_key edge_key ?E"
    by (simp_all add: g_def service_Build_def service_draft_order [OF assms] d Let_def)
  have same: "g = service_Build (\<lambda>xs. xs) decode jaeger incs svcs lookback"
    using dd(1) dedupe_calls(1) [OF _ calls, of "\<lambda>xs. xs"]
    by (simp add: g_def service_Build_def service_draft_order [OF assms] d Let_def)
  have mem: "e \<in> set ?E \<longleftrightarrow> calls_of (call_key e) edges \<noteq> [] \<and>
      ge_Count e = wrap64 (sum_list (map ge_Count (calls_of (call_key e) edges))) \<and>
      nul \<notin> set (ge_From e) \<and> nul \<notin> set (ge_To e) \<and> is_call e" for e
    unfolding dd(1) set_sort by (rule call_counts_edges) simp
  have ends: "ge_From e \<in> service_id ` seen \<and> ge_To e \<in> service_id ` seen" if "e \<in> set ?E" for e
  proof -
    note e = that
    obtain c where "c \<in> set edges" "call_key c = call_key e" using e unfolding mem calls_of_def filter_empty_conv by blast
    then show ?thesis using within [of c] e count_key_unique [of "ge_From e" "ge_To e" "ge_From c" "ge_To c"] unfolding mem by auto
  qed
  have kept: "\<exists>f \<in> set ?E. edge_key f = edge_key e" if "e \<in> set edges" "nul \<notin> set (ge_From e)" "nul \<notin> set (ge_To e)" for e
  proof -
    have "calls_of (call_key e) edges \<noteq> []" using that within unfolding calls_of_def filter_empty_conv by blast
    then have "e\<lparr>ge_Count := wrap64 (sum_list (map ge_Count (calls_of (call_key e) edges)))\<rparr> \<in> set ?E"
      using that within unfolding mem by simp
    then show ?thesis by (rule bexI [rotated]) (simp add: edge_key_def)
  qed
  have "distinct (map edge_key ?E)" using dd(2,3) by (simp add: distinct_map)
  then have one: "distinct (map edge_key (cg_Edges g))" using g(2) by (simp add: distinct_map)
  have E: "set (cg_Edges g) = set ?E" and N: "gn_ID ` set (cg_Nodes g) = service_id ` seen" using g ids by simp_all
  have "list_all (\<lambda>e. ge_From e \<in> gn_ID ` set (cg_Nodes g) \<and> ge_To e \<in> gn_ID ` set (cg_Nodes g) \<and>
           ge_Count e = wrap64 (sum_list (map ge_Count (calls_of (call_key e) edges)))) (cg_Edges g)"
    unfolding list_all_iff E N using ends mem by blast
  moreover have "list_all (\<lambda>e. nul \<in> set (ge_From e) \<or> nul \<in> set (ge_To e) \<or>
           list_ex (\<lambda>f. edge_key f = edge_key e) (cg_Edges g)) edges"
    unfolding list_all_iff list_ex_iff E using kept by blast
  moreover have "sorted (map gn_ID (cg_Nodes g))" "distinct (map gn_ID (cg_Nodes g))"
    using g(1) ids(2) by (simp_all add: distinct_map)
  ultimately show ?thesis unfolding d Let_def prod.case g_def [symmetric] using same one by blast
qed

theorem service_graph_exact_witness:
  "map ge_Count (cg_Edges (service_Build rev (\<lambda>_. None)
     (Some (Inr [\<lparr>dp_Parent = ''a'', dp_Child = ''b'', dp_CallCount = 3\<rparr>, \<lparr>dp_Parent = ''a'', dp_Child = ''b'', dp_CallCount = 4\<rparr>]))
     [] [] hour)) = [7]"
proof -
  let ?ds = "[\<lparr>dp_Parent = ''a'', dp_Child = ''b'', dp_CallCount = 3\<rparr>, \<lparr>dp_Parent = ''a'', dp_Child = ''b'', dp_CallCount = 4\<rparr>]"
  have "service_Build rev (\<lambda>_. None) (Some (Inr ?ds)) [] [] hour = service_Build (\<lambda>xs. xs) (\<lambda>_. None) (Some (Inr ?ds)) [] [] hour"
    using service_graph_exact [of rev "\<lambda>_. None" "Some (Inr ?ds)" "[]" "[]" hour] by (simp add: Let_def case_prod_beta)
  moreover have "map ge_Count (cg_Edges (service_Build (\<lambda>xs. xs) (\<lambda>_. None) (Some (Inr ?ds)) [] [] hour)) = [7]" by code_simp
  ultimately show ?thesis by simp
qed

end
