(* ===== verification/Dashboard_Api.thy ===== *)
theory Dashboard_Api
  imports Trace_Summary Report_View Trace_View Json Agent_Spec Service_Graph
begin

text \<open>
  The HTTP handlers of the dashboard (\<open>internal/dashboard/server.go\<close>,
  \<open>handlers_extra.go\<close>, \<open>handlers_trace.go\<close>, \<open>report.go\<close>): what each request is answered with, as
  a status and, on success, the value that is encoded. The single-flight cache in front of some of
  them is the theory \<open>Json_Cache\<close>; the Kubernetes reads of this part are the environment \<open>A\<close>.
\<close>

section \<open>Cached answers\<close>

definition defaultCacheTTL :: duration where "defaultCacheTTL = 3 * second"

record http_page =
  hp_Status :: nat
  hp_Headers :: "(string \<times> string) list"
  hp_Body :: string

definition writeCachedJSON :: "string \<Rightarrow> string \<Rightarrow> string \<Rightarrow> http_page" where
  "writeCachedJSON ifNoneMatch body etag =
     (let secs = defaultCacheTTL div second;
          headers = (if etag \<noteq> [] then [(''ETag'', etag)] else []) @
            [(''Cache-Control'', if 0 < secs then ''private, max-age='' @ itoa secs else ''no-store'')]
      in if etag \<noteq> [] \<and> ifNoneMatch = etag then \<lparr>hp_Status = 304, hp_Headers = headers, hp_Body = []\<rparr>
         else \<lparr>hp_Status = 200, hp_Headers = headers @ [(''Content-Type'', ''application/json'')],
               hp_Body = body @ (if body = [] \<or> last body \<noteq> CHR 0x0A then [CHR 0x0A] else [])\<rparr>)"

definition handleIncidents :: "dash_env \<Rightarrow> string \<Rightarrow> incident_query \<Rightarrow> incident_response list http_reply option" where
  "handleIncidents D method q =
     (if method \<noteq> ''GET'' then Some (HttpError ''method not allowed'' 405)
      else case incidents_build D q of BuildPanic \<Rightarrow> None
           | BuildFailed _ \<Rightarrow> Some (HttpError ''failed to list incidents'' 500)
           | BuildDone page \<Rightarrow> Some (HttpOk page))"

definition handleStats :: "dash_env \<Rightarrow> string \<Rightarrow> stats_response http_reply" where
  "handleStats D method =
     (if method \<noteq> ''GET'' then HttpError ''method not allowed'' 405
      else case computeStats D of Inl _ \<Rightarrow> HttpError ''failed to list incidents'' 500 | Inr s \<Rightarrow> HttpOk s)"

definition handleRules :: "dash_env \<Rightarrow> string \<Rightarrow> rule_response list http_reply" where
  "handleRules D method =
     (if method \<noteq> ''GET'' then HttpError ''method not allowed'' 405
      else case computeRules D of Inl _ \<Rightarrow> HttpError ''failed to list rules'' 500 | Inr rs \<Rightarrow> HttpOk rs)"

section \<open>One incident\<close>

datatype incident_reply = DetailError string nat | DetailNoContent | DetailGraph string
  | DetailReport incident_view | DetailIncident incident_response string "string list" string

definition writeIncidentGraph :: "incident_report \<Rightarrow> incident_reply" where
  "writeIncidentGraph item = (case st_IncidentGraph (ir_Status item) of None \<Rightarrow> DetailNoContent
     | Some raw \<Rightarrow> if raw = [] then DetailNoContent else DetailGraph raw)"

definition incident_detail :: "dash_env \<Rightarrow> incident_report \<Rightarrow> incident_reply" where
  "incident_detail D item =
     (let traceIDs = collectTraceIDs (om_Annotations (ir_Meta item));
          traceID = report_annotation item AnnotationTraceID
      in DetailIncident (toIncidentResponse D item)
           (if traceID = [] \<and> traceIDs \<noteq> [] then last traceIDs else traceID) traceIDs (report_annotation item AnnotationFiredRule))"

definition handleIncidentDetail ::
    "dash_env \<Rightarrow> (string \<Rightarrow> gotime \<Rightarrow> string) \<Rightarrow> gotime \<Rightarrow> string \<Rightarrow> string \<Rightarrow> incident_reply" where
  "handleIncidentDetail D fmt now method path =
     (if method \<noteq> ''GET'' then DetailError ''method not allowed'' 405
      else let parts = str_split (CHR ''/'') (trim_prefix path ''/api/incidents/'')
           in case parts of
                ns # name # sub \<Rightarrow>
                  if ns = [] \<or> name = [] then DetailError ''path must be /api/incidents/{namespace}/{name}[/graph]'' 400
                  else (case dv_get_report D ns name of
                          Inl _ \<Rightarrow> DetailError ''incident not found'' 404
                        | Inr item \<Rightarrow>
                            (case sub of [] \<Rightarrow> incident_detail D item
                             | s # _ \<Rightarrow>
                                 if s = ''graph'' then writeIncidentGraph item
                                 else if s = ''report'' then DetailReport (buildIncidentReportView D fmt item now)
                                 else DetailError ''unknown sub-resource; expected /graph or /report'' 404))
              | _ \<Rightarrow> DetailError ''path must be /api/incidents/{namespace}/{name}[/graph]'' 400)"

definition handleClusterReport ::
    "dash_env \<Rightarrow> (string \<Rightarrow> gotime \<Rightarrow> string) \<Rightarrow> gotime \<Rightarrow> string \<Rightarrow> cluster_view http_reply" where
  "handleClusterReport D fmt now method =
     (if method \<noteq> ''GET'' then HttpError ''method not allowed'' 405
      else case dv_reports D [] of Inl _ \<Rightarrow> HttpError ''failed to list incidents'' 500
           | Inr items \<Rightarrow> (case computeStats D of Inl _ \<Rightarrow> HttpError ''failed to compute stats'' 500
               | Inr stats \<Rightarrow> HttpOk (buildClusterReportView D fmt stats items now)))"

text \<open>The trace page: the store's client is configured or not, and answers with an error, no trace
  or a trace.\<close>

definition handleTrace ::
    "'fl float_ops \<Rightarrow> (string \<Rightarrow> unit + 'fl jaeger_trace option) option \<Rightarrow> string \<Rightarrow> string \<Rightarrow> 'fl trace_response http_reply" where
  "handleTrace F jc method path =
     (if method \<noteq> ''GET'' then HttpError ''method not allowed'' 405
      else case jc of None \<Rightarrow> HttpError ''trace lookup not configured'' 503
           | Some get \<Rightarrow>
               (let tid = trim_cut (\<lambda>c. c = CHR ''/'') (trim_prefix path ''/api/traces/'')
                in if tid = [] \<or> \<not> looksLikeTraceID tid then HttpError ''invalid trace id'' 400
                   else case get tid of Inl _ \<Rightarrow> HttpError ''failed to fetch trace'' 502
                        | Inr t \<Rightarrow> HttpOk (buildTraceResponse F tid t)))"

definition handleTraceSummary ::
    "dash_env \<Rightarrow> (string \<Rightarrow> duration option) \<Rightarrow> gotime \<Rightarrow> buffer option \<Rightarrow> string \<Rightarrow> string \<Rightarrow> trace_summary http_reply \<times> buffer option" where
  "handleTraceSummary D parse now b method lookback =
     (if method \<noteq> ''GET'' then (HttpError ''method not allowed'' 405, b)
      else case computeTraceSummary D now (summary_lookback parse lookback) b of
        (Inl _, b) \<Rightarrow> (HttpError ''failed to compute trace summary'' 500, b) | (Inr r, b) \<Rightarrow> (HttpOk r, b))"

definition service_lookback :: "(string \<Rightarrow> duration option) \<Rightarrow> string \<Rightarrow> duration" where
  "service_lookback parse v = (if v = [] then 24 * hour
     else case parse v of None \<Rightarrow> 24 * hour | Some d \<Rightarrow> if 0 < d \<and> d \<le> 7 * 24 * hour then d else 24 * hour)"

text \<open>The two graph pages.\<close>

definition handleTopology :: "topology_lists \<Rightarrow> string \<Rightarrow> string \<Rightarrow> cluster_graph http_reply" where
  "handleTopology T method view =
     (if method \<noteq> ''GET'' then HttpError ''method not allowed'' 405
      else case BuildWithOptions T (view \<noteq> ''detail'') of
             Inl _ \<Rightarrow> HttpError ''failed to build topology'' 500 | Inr g \<Rightarrow> HttpOk g)"

text \<open>\<open>incs\<close> and \<open>svcs\<close> are the lists read from the cluster, empty when the read fails.\<close>

definition handleServiceGraph ::
    "range_order \<Rightarrow> (string \<Rightarrow> incident_graph option) \<Rightarrow> (duration \<Rightarrow> jaeger_error + dependency list) option \<Rightarrow> incident_report list
      \<Rightarrow> listed_service list \<Rightarrow> (string \<Rightarrow> duration option) \<Rightarrow> string \<Rightarrow> string \<Rightarrow> cluster_graph http_reply" where
  "handleServiceGraph order decode jc incs svcs parse method lookback =
     (if method \<noteq> ''GET'' then HttpError ''method not allowed'' 405
      else let d = service_lookback parse lookback
           in HttpOk (service_Build order decode (map_option (\<lambda>get. get d) jc) incs svcs d))"

section \<open>Resources\<close>

definition ageString :: "gotime \<Rightarrow> gotime \<Rightarrow> string" where
  "ageString now t =
     (if time_is_zero t then []
      else let d = time_sub now t
           in if d < minute then itoa (d sdiv second) @ ''s''
              else if d < hour then itoa (d div minute) @ ''m''
              else if d < day then itoa (d div hour) @ ''h''
              else itoa (d div day) @ ''d'')"

record api_event =
  kv_LastTimestamp :: gotime
  kv_EventTime :: gotime
  kv_Type :: string
  kv_Reason :: string
  kv_Message :: string
  kv_Component :: string

record pod_facts =
  pf_Name :: string
  pf_Created :: gotime
  pf_Phase :: string
  pf_NodeName :: string
  pf_Restarts :: "int list"
  pf_Owners :: "(string \<times> string) list"

record deployment_facts =
  df_Created :: gotime
  df_Replicas :: "int option"
  df_Current :: int
  df_Ready :: int

record api_env =
  ap_pod :: "string \<Rightarrow> string \<Rightarrow> kerr + pod_facts"
  ap_deployment :: "string \<Rightarrow> string \<Rightarrow> kerr + deployment_facts"
  ap_node :: "string \<Rightarrow> kerr + gotime \<times> kcondition list"
  ap_service :: "string \<Rightarrow> string \<Rightarrow> kerr + gotime \<times> string"
  ap_pods :: "string \<Rightarrow> kerr + pod_facts list"
  ap_deployments :: "string \<Rightarrow> kerr + string list"
  ap_events :: "(string \<Rightarrow> string \<Rightarrow> kerr + api_event list) option"
  ap_first_pod :: "string \<Rightarrow> string \<Rightarrow> string option"
  ap_logs :: "string \<Rightarrow> string \<Rightarrow> string \<Rightarrow> int \<Rightarrow> int \<Rightarrow> string option"

record event_entry =
  et_Time :: gotime
  et_Type :: string
  et_Reason :: string
  et_Message :: string
  et_Source :: string

record resource_response =
  rp_Kind :: string
  rp_Namespace :: string
  rp_Name :: string
  rp_Age :: string
  rp_DesiredReplicas :: int
  rp_CurrentReplicas :: int
  rp_ReadyReplicas :: int
  rp_RestartCount :: int
  rp_Phase :: string
  rp_NodeName :: string
  rp_OpenIncidents :: "incident_response list"
  rp_RecentEvents :: "event_entry list"
  rp_NodeReady :: "bool option"

definition service_kind :: "string \<Rightarrow> bool" where
  "service_kind k \<longleftrightarrow> k \<in> {''Service'', ''Deployment'', ''StatefulSet'', ''DaemonSet'', ''ReplicaSet'', ''Pod''}"

definition incidentReferences :: "incident_report \<Rightarrow> string \<Rightarrow> string \<Rightarrow> string \<Rightarrow> bool" where
  "incidentReferences inc kind ns name \<longleftrightarrow>
     (let pod = report_label inc LabelPodName; rs = st_AffectedResources (ir_Status inc)
      in kind = ''Pod'' \<and> report_ns inc = ns \<and> pod = name \<or>
         kind = ''Service'' \<and>
           (list_ex (\<lambda>r. ar_Name r = name \<and> \<not> (ar_Namespace r \<noteq> [] \<and> ar_Namespace r \<noteq> ns) \<and> service_kind (ar_Kind r) \<and>
                         \<not> (ar_Namespace r = [] \<and> report_ns inc \<noteq> ns)) rs \<or>
            pod \<noteq> [] \<and> report_ns inc = ns \<and> has_prefix pod (name @ ''-'')) \<or>
         list_ex (\<lambda>r. ar_Kind r = kind \<and> ar_Name r = name \<and> (kind = ''Node'' \<or> report_ns inc = ns)) rs)"

definition blank_resource :: "string \<Rightarrow> string \<Rightarrow> string \<Rightarrow> resource_response" where
  "blank_resource kind ns name = \<lparr>rp_Kind = kind, rp_Namespace = ns, rp_Name = name, rp_Age = [], rp_DesiredReplicas = 0,
     rp_CurrentReplicas = 0, rp_ReadyReplicas = 0, rp_RestartCount = 0, rp_Phase = [], rp_NodeName = [],
     rp_OpenIncidents = [], rp_RecentEvents = [], rp_NodeReady = None\<rparr>"

definition wrap32 :: "int \<Rightarrow> int" where
  "wrap32 x = (x + 2147483648) mod 4294967296 - 2147483648"

text \<open>The object itself: \<open>None\<close> for a kind that is not supported.\<close>

definition resource_object :: "api_env \<Rightarrow> gotime \<Rightarrow> string \<Rightarrow> string \<Rightarrow> string \<Rightarrow> (kerr + resource_response) option" where
  "resource_object A now kind ns name =
     (let resp = blank_resource kind ns name
      in if kind = ''Pod'' then
           Some (case ap_pod A ns name of Inl err \<Rightarrow> Inl err
             | Inr p \<Rightarrow> Inr (resp\<lparr>rp_Age := ageString now (pf_Created p), rp_Phase := pf_Phase p, rp_NodeName := pf_NodeName p,
                 rp_RestartCount := fold (\<lambda>r n. wrap32 (n + r)) (pf_Restarts p) 0\<rparr>))
         else if kind = ''Deployment'' then
           Some (case ap_deployment A ns name of Inl err \<Rightarrow> Inl err
             | Inr d \<Rightarrow> Inr (resp\<lparr>rp_Age := ageString now (df_Created d), rp_CurrentReplicas := df_Current d,
                 rp_ReadyReplicas := df_Ready d, rp_DesiredReplicas := (case df_Replicas d of None \<Rightarrow> 0 | Some n \<Rightarrow> n)\<rparr>))
         else if kind = ''Node'' then
           Some (case ap_node A name of Inl err \<Rightarrow> Inl err
             | Inr (created, conds) \<Rightarrow> Inr (resp\<lparr>rp_Age := ageString now created,
                 rp_NodeReady := Some (case find (\<lambda>c. kc_Type c = ''Ready'') conds of None \<Rightarrow> False | Some c \<Rightarrow> kc_Status c = ''True'')\<rparr>))
         else if kind = ''Service'' then
           Some (case ap_service A ns name of Inl err \<Rightarrow> Inl err
             | Inr (created, type) \<Rightarrow> Inr (resp\<lparr>rp_Age := ageString now created, rp_Phase := type\<rparr>))
         else None)"

definition event_of :: "api_event \<Rightarrow> event_entry" where
  "event_of e = \<lparr>et_Time = (if time_is_zero (kv_LastTimestamp e) then kv_EventTime e else kv_LastTimestamp e),
     et_Type = kv_Type e, et_Reason = kv_Reason e, et_Message = kv_Message e, et_Source = kv_Component e\<rparr>"

definition open_incidents :: "dash_env \<Rightarrow> string \<Rightarrow> string \<Rightarrow> string \<Rightarrow> incident_response list" where
  "open_incidents D kind ns name = (case dv_reports D [] of Inl _ \<Rightarrow> []
     | Inr items \<Rightarrow> map (toIncidentResponse D)
         (filter (\<lambda>i. \<not> equal_fold (report_phase i) ''resolved'' \<and> incidentReferences i kind ns name) items))"

definition writeResourceNotFound :: "kerr \<Rightarrow> 'a http_reply" where
  "writeResourceNotFound err = (case err of NotFound \<Rightarrow> HttpError ''not found'' 404 | KubeError _ \<Rightarrow> HttpError ''failed to get resource'' 500)"

definition handleResource :: "dash_env \<Rightarrow> api_env \<Rightarrow> gotime \<Rightarrow> string \<Rightarrow> string \<Rightarrow> resource_response http_reply" where
  "handleResource D A now method path =
     (if method \<noteq> ''GET'' then HttpError ''method not allowed'' 405
      else case str_split (CHR ''/'') (trim_prefix path ''/api/resources/'') of
        [ns, kind, name] \<Rightarrow>
          if ns = [] \<or> kind = [] \<or> name = [] then HttpError ''path must be /api/resources/{namespace}/{kind}/{name}'' 400
          else (case resource_object A now kind ns name of
                  None \<Rightarrow> HttpError ''unsupported kind'' 400
                | Some (Inl err) \<Rightarrow> writeResourceNotFound err
                | Some (Inr resp) \<Rightarrow>
                    HttpOk (resp\<lparr>rp_OpenIncidents := collapseDuplicateOTelIncidents (open_incidents D kind ns name),
                      rp_RecentEvents := (case ap_events A of None \<Rightarrow> []
                        | Some list_events \<Rightarrow>
                            (case list_events (if kind = ''Node'' then [] else ns)
                                    (''involvedObject.kind='' @ kind @ '',involvedObject.name='' @ name) of
                               Inl _ \<Rightarrow> [] | Inr es \<Rightarrow> map event_of es))\<rparr>))
      | _ \<Rightarrow> HttpError ''path must be /api/resources/{namespace}/{kind}/{name}'' 400)"

section \<open>Logs, pods and agents\<close>

definition log_tail :: "string \<Rightarrow> int" where
  "log_tail raw = (case atoi raw of None \<Rightarrow> 500 | Some v \<Rightarrow> if 0 < v then (if 5000 < v then 5000 else v) else 500)"

definition log_since :: "(string \<Rightarrow> duration option) \<Rightarrow> string \<Rightarrow> int" where
  "log_since parse raw = (if raw = [] then 3600 else case parse raw of None \<Rightarrow> 3600
     | Some d \<Rightarrow> if 0 < d then d div second else 3600)"

definition maxLogBytes :: nat where "maxLogBytes = 4 * 1024 * 1024"

text \<open>\<open>k8s\<close> says whether the typed client is configured. The first pod of a deployment is looked up
  by its selector.\<close>

definition dash_handleLogs ::
    "api_env \<Rightarrow> bool \<Rightarrow> (string \<Rightarrow> duration option) \<Rightarrow> string \<Rightarrow> string \<Rightarrow> string \<Rightarrow> string \<Rightarrow> string \<Rightarrow> string \<Rightarrow> string \<Rightarrow> string http_reply" where
  "dash_handleLogs A k8s parse method ns pod deployment container tailLines sinceText =
     (if method \<noteq> ''GET'' then HttpError ''method not allowed'' 405
      else if \<not> k8s then HttpError ''logs unavailable: k8s client not configured'' 503
      else if ns = [] then HttpError ''ns is required'' 400
      else if pod = [] \<and> deployment = [] then HttpError ''pod or deployment is required'' 400
      else let fetch = (\<lambda>pod. case ap_logs A ns pod container (log_tail tailLines) (log_since parse sinceText) of
                   None \<Rightarrow> HttpError ''failed to fetch logs'' 502 | Some bytes \<Rightarrow> HttpOk (take maxLogBytes bytes))
           in if pod \<noteq> [] then fetch pod
              else (case ap_deployment A ns deployment of Inl _ \<Rightarrow> HttpError ''deployment not found'' 404
                    | Inr _ \<Rightarrow> (case ap_first_pod A ns deployment of None \<Rightarrow> HttpError ''no pods found for deployment'' 404
                        | Some pod \<Rightarrow> fetch pod)))"

definition pod_deployment :: "string list \<Rightarrow> pod_facts \<Rightarrow> string" where
  "pod_deployment deps p = fold (\<lambda>(kind, name) dep.
     if kind \<noteq> ''ReplicaSet'' then dep
     else case find (\<lambda>d. has_prefix name (d @ ''-'')) deps of None \<Rightarrow> dep | Some d \<Rightarrow> d) (pf_Owners p) []"

definition handlePods :: "api_env \<Rightarrow> string \<Rightarrow> string \<Rightarrow> (string \<times> string \<times> string) list http_reply" where
  "handlePods A method ns =
     (if method \<noteq> ''GET'' then HttpError ''method not allowed'' 405
      else if ns = [] then HttpError ''ns is required'' 400
      else case ap_pods A ns of Inl _ \<Rightarrow> HttpError ''failed to list pods'' 500
           | Inr pods \<Rightarrow>
               (let deps = (case ap_deployments A ns of Inl _ \<Rightarrow> [] | Inr ds \<Rightarrow> ds)
                in HttpOk (map (\<lambda>p. (pf_Name p, pod_deployment deps p, pf_Phase p)) pods)))"

section \<open>Agents\<close>

text \<open>An agent as listed, with the two kinds of timestamps the page shows: its creation and the last
  transition of each of its conditions (\<open>None\<close> is the zero time).\<close>

record listed_agent =
  la_Agent :: rca_agent
  la_CreationTimestamp :: gotime
  la_LastTransition :: "agent_condition \<Rightarrow> gotime option"

record flatAgent =
  fl_Name :: string
  fl_WatchNamespaces :: "string list"
  fl_Status :: string
  fl_LastSync :: gotime
  fl_Healthy :: bool
  fl_Retention :: string

definition flat_agent :: "listed_agent \<Rightarrow> flatAgent" where
  "flat_agent l =
     (let a = la_Agent l;
          agent = \<lparr>fl_Name = aa_Name a, fl_WatchNamespaces = ag_WatchNamespaces (aa_Spec a), fl_Status = ''Unknown'',
            fl_LastSync = la_CreationTimestamp l, fl_Healthy = False, fl_Retention = ag_IncidentRetention (aa_Spec a)\<rparr>
      in case find (\<lambda>c. ac_Type c = ''Available'') (aa_Conditions a) of None \<Rightarrow> agent
         | Some c \<Rightarrow> agent\<lparr>fl_Status := ac_Status c, fl_Healthy := (ac_Status c = ''True''),
             fl_LastSync := (case la_LastTransition l c of None \<Rightarrow> fl_LastSync agent | Some t \<Rightarrow> t)\<rparr>)"

definition handleAgents :: "kerr + listed_agent list \<Rightarrow> string \<Rightarrow> flatAgent list http_reply" where
  "handleAgents listing method =
     (if method \<noteq> ''GET'' then HttpError ''method not allowed'' 405
      else case listing of Inl _ \<Rightarrow> HttpError ''failed to list agents'' 500
           | Inr items \<Rightarrow> HttpOk (map flat_agent items))"

section \<open>The live stream\<close>

text \<open>One entry as a server-sent event; \<open>stamp\<close> is the JSON text of a time.\<close>

definition writeSSEEntry :: "(gotime \<Rightarrow> string) \<Rightarrow> entry \<Rightarrow> string" where
  "writeSSEEntry stamp e =
     (let c = ClassifyEvent (en_Event e)
      in ''event: correlation'' @ [CHR 0x0A] @ ''data: '' @
         json_text (JObject ([(''time'', JString (stamp (en_AddedAt e))), (''kind'', JString (ec_Kind c)),
           (''source'', JString (ec_Source c)), (''title'', JString (ec_Title c)), (''msg'', JString (ec_Msg c))] @
           json_omit ''resource'' (ec_Resource c))) @ [CHR 0x0A, CHR 0x0A])"

text \<open>What is sent on connection, and the subscription that follows it, two separate steps on the
  shared buffer.\<close>

definition stream_replay :: "(gotime \<Rightarrow> string) \<Rightarrow> gotime \<Rightarrow> buffer \<Rightarrow> string list \<times> buffer" where
  "stream_replay stamp now b = (let (snap, b) = Snapshot now b in (map (writeSSEEntry stamp) (take_last 20 snap), b))"

definition stream_subscribe :: "nat \<Rightarrow> buffer \<Rightarrow> buffer" where
  "stream_subscribe ch b = Subscribe ch 32 b"

section \<open>Lemmas\<close>

text \<open>An entry added between the replay and the subscription is neither replayed nor queued.\<close>

lemma stream_gap:
  assumes "stream_replay stamp now b = (sent, b1)" "ch \<notin> sub_ch ` set (bf_subs b1)"
    and "b2 = stream_subscribe ch (buf_Add now' e b1)"
  shows "sent = map (writeSSEEntry stamp) (take_last 20 (fst (Snapshot now b)))"
    and "\<exists>s \<in> set (bf_subs b2). sub_ch s = ch \<and> sub_queue s = []"
proof -
  show "sent = map (writeSSEEntry stamp) (take_last 20 (fst (Snapshot now b)))"
    using assms(1) by (simp add: stream_replay_def case_prod_unfold Let_def)
  have "sub_ch (deliver en s) = sub_ch s" for en s by (simp add: deliver_def)
  then have "sub_ch ` set (bf_subs (buf_Add now' e b1)) = sub_ch ` set (bf_subs b1)"
    by (simp add: buf_Add_def Let_def buf_purgeOld_def image_image)
  then show "\<exists>s \<in> set (bf_subs b2). sub_ch s = ch \<and> sub_queue s = []"
    using assms(2,3) by (auto simp: stream_subscribe_def Subscribe_def)
qed

lemma log_tail_bounds: "0 < log_tail raw \<and> log_tail raw \<le> 5000"
  by (simp add: log_tail_def split: option.split)

text \<open>A page is answered with 304 exactly when the client has it.\<close>

lemma not_modified: "hp_Status (writeCachedJSON inm body etag) = (if etag \<noteq> [] \<and> inm = etag then 304 else 200)"
  by (simp add: writeCachedJSON_def Let_def)

end
