(* ===== verification/Collectors.thy ===== *)
theory Collectors
  imports Watch_Pods Watch_Events Dedup
begin

text \<open>
  The collectors as \<open>Start\<close> sets them up (\<open>internal/watcher/\<close>, wrapped by
  \<open>internal/collectors/collectors.go\<close>): what an informer delivers, with its tombstones, and the
  bootstrap and periodic scans, each led to the handler of the watcher. An activity is handled at
  once; the goroutines of a watcher interleave between activities.
\<close>

section \<open>What an informer delivers\<close>

text \<open>The dynamic type of a delivered object: the watched type, a tombstone around an object that is
  or is not of the watched type, or something else.\<close>

datatype 'o informer_object = Typed 'o | FinalStateUnknown "'o option" | OtherObject

text \<open>\<open>toPod\<close>, \<open>toDeployment\<close>, \<open>toStatefulSet\<close>, \<open>toDaemonSet\<close>, \<open>toJob\<close>, \<open>toNode\<close> and
  \<open>toK8sEvent\<close> are this function at their type.\<close>

definition informed :: "'o informer_object \<Rightarrow> 'o option" where
  "informed obj = (case obj of Typed x \<Rightarrow> Some x | FinalStateUnknown x \<Rightarrow> x | OtherObject \<Rightarrow> None)"

definition toPod :: "watched_pod informer_object \<Rightarrow> watched_pod option" where "toPod = informed"
definition toDeployment :: "watched_deployment informer_object \<Rightarrow> watched_deployment option" where "toDeployment = informed"
definition toStatefulSet :: "watched_stateful_set informer_object \<Rightarrow> watched_stateful_set option" where "toStatefulSet = informed"
definition toDaemonSet :: "watched_daemon_set informer_object \<Rightarrow> watched_daemon_set option" where "toDaemonSet = informed"
definition toJob :: "watched_job informer_object \<Rightarrow> watched_job option" where "toJob = informed"
definition toNode :: "watched_node informer_object \<Rightarrow> watched_node option" where "toNode = informed"
definition toK8sEvent :: "kube_event informer_object \<Rightarrow> kube_event option" where "toK8sEvent = informed"

text \<open>What happens to a running watcher. \<open>Bootstrap\<close> comes after the cache has synced; \<open>Periodic n\<close>
  is the \<open>n\<close>-th of its periodic scans. The scans carry what listing the cache answers.\<close>

datatype 'o activity =
    AddFunc "'o informer_object"
  | UpdateFunc "'o informer_object" "'o informer_object"
  | DeleteFunc "'o informer_object"
  | Bootstrap "kerr + 'o list"
  | Periodic nat "kerr + 'o list"

definition on_object :: "('o \<Rightarrow> 's \<Rightarrow> correlator_event list \<times> 's) \<Rightarrow> 'o option \<Rightarrow> 's \<Rightarrow> correlator_event list \<times> 's" where
  "on_object handle obj s = (case obj of None \<Rightarrow> ([], s) | Some x \<Rightarrow> handle x s)"

section \<open>Starting a watcher\<close>

datatype start_error = GetInformer kerr | AddEventHandler kerr

text \<open>\<open>Start\<close> fails when the informer is not available or does not take the handler; then no
  activity follows.\<close>

definition watcher_Start :: "kerr option \<Rightarrow> kerr option \<Rightarrow> start_error option" where
  "watcher_Start informer handler = (case informer of Some err \<Rightarrow> Some (GetInformer err)
     | None \<Rightarrow> map_option AddEventHandler handler)"

text \<open>The cron job watcher needs two informers and registers no handler.\<close>

definition cron_Start :: "kerr option \<Rightarrow> kerr option \<Rightarrow> start_error option" where
  "cron_Start cronjobs jobs = (case cronjobs of Some err \<Rightarrow> Some (GetInformer err) | None \<Rightarrow> map_option GetInformer jobs)"

section \<open>Building a watcher\<close>

text \<open>The constructors default the configuration and start with empty gates; the collectors of
  \<open>collectors.go\<close> are these.\<close>

definition NewDeploymentWatcher :: "watch_config \<Rightarrow> watch_config \<times> stalled_gate" where
  "NewDeploymentWatcher cfg = (NewWatchConfig cfg, Map.empty)"

definition NewStatefulSetWatcher :: "watch_config \<Rightarrow> watch_config \<times> stalled_gate" where
  "NewStatefulSetWatcher cfg = (NewWatchConfig cfg, Map.empty)"

definition NewDaemonSetWatcher :: "watch_config \<Rightarrow> watch_config \<times> stalled_gate" where
  "NewDaemonSetWatcher cfg = (NewWatchConfig cfg, Map.empty)"

definition NewJobWatcher :: "watch_config \<Rightarrow> watch_config \<times> fail_gate" where
  "NewJobWatcher cfg = (NewWatchConfig cfg, {})"

definition NewCronJobWatcher :: "watch_config \<Rightarrow> watch_config \<times> fail_gate" where
  "NewCronJobWatcher cfg = (NewWatchConfig cfg, {})"

definition NewNodeWatcher :: "node_config \<Rightarrow> node_config \<times> node_gate" where
  "NewNodeWatcher cfg = (NewNodeConfig cfg, {})"

definition NewEventWatcher :: "event_config \<Rightarrow> event_config \<times> dedup_seen" where
  "NewEventWatcher cfg = (NewEventConfig cfg, Map.empty)"

definition NewWorkloadCollector :: "watch_config \<Rightarrow> watch_config \<times> stalled_gate" where
  "NewWorkloadCollector cfg = NewDeploymentWatcher cfg"

definition NewStatefulSetCollector :: "watch_config \<Rightarrow> watch_config \<times> stalled_gate" where
  "NewStatefulSetCollector cfg = NewStatefulSetWatcher cfg"

definition NewDaemonSetCollector :: "watch_config \<Rightarrow> watch_config \<times> stalled_gate" where
  "NewDaemonSetCollector cfg = NewDaemonSetWatcher cfg"

definition NewJobCollector :: "watch_config \<Rightarrow> watch_config \<times> fail_gate" where
  "NewJobCollector cfg = NewJobWatcher cfg"

definition NewCronJobCollector :: "watch_config \<Rightarrow> watch_config \<times> fail_gate" where
  "NewCronJobCollector cfg = NewCronJobWatcher cfg"

definition NewNodeCollector :: "node_config \<Rightarrow> node_config \<times> node_gate" where
  "NewNodeCollector cfg = NewNodeWatcher cfg"

definition NewEventCollector :: "event_config \<Rightarrow> event_config \<times> dedup_seen" where
  "NewEventCollector cfg = NewEventWatcher cfg"

lemmas collector_defs = NewWorkloadCollector_def NewStatefulSetCollector_def NewDaemonSetCollector_def NewJobCollector_def
  NewNodeCollector_def NewDeploymentWatcher_def NewStatefulSetWatcher_def NewDaemonSetWatcher_def NewJobWatcher_def
  NewNodeWatcher_def

section \<open>The activities of each watcher\<close>

text \<open>The bootstrap scans walk the listed objects and leave out namespaces that are not watched, like
  the handlers.\<close>

definition deployment_bootstrapScan ::
    "watch_config \<Rightarrow> gotime \<Rightarrow> kerr + watched_deployment list \<Rightarrow> stalled_gate \<Rightarrow> correlator_event list \<times> stalled_gate" where
  "deployment_bootstrapScan cfg now items m = scan_list (\<lambda>dep m.
     if \<not> shouldWatchNamespace (wt_WatchNamespaces cfg) (wd_Namespace dep) then ([], m) else detectStalledRollout cfg now dep m) items m"

definition sts_bootstrapScan ::
    "watch_config \<Rightarrow> gotime \<Rightarrow> kerr + watched_stateful_set list \<Rightarrow> stalled_gate \<Rightarrow> correlator_event list \<times> stalled_gate" where
  "sts_bootstrapScan cfg now items m = scan_list (\<lambda>sts m.
     if \<not> shouldWatchNamespace (wt_WatchNamespaces cfg) (ws_Namespace sts) then ([], m) else sts_detectStalled cfg now sts m) items m"

definition ds_bootstrapScan ::
    "watch_config \<Rightarrow> gotime \<Rightarrow> kerr + watched_daemon_set list \<Rightarrow> stalled_gate \<Rightarrow> correlator_event list \<times> stalled_gate" where
  "ds_bootstrapScan cfg now items m = scan_list (\<lambda>d m.
     if \<not> shouldWatchNamespace (wt_WatchNamespaces cfg) (wm_Namespace d) then ([], m) else ds_detectStalled cfg now d m) items m"

definition job_bootstrapScan ::
    "watch_config \<Rightarrow> gotime \<Rightarrow> kerr + watched_job list \<Rightarrow> fail_gate \<Rightarrow> correlator_event list \<times> fail_gate" where
  "job_bootstrapScan cfg now items m = scan_list (\<lambda>j m.
     if \<not> shouldWatchNamespace (wt_WatchNamespaces cfg) (wj_Namespace j) then ([], m) else detectFailed cfg now j m) items m"

definition node_bootstrapScan ::
    "node_config \<Rightarrow> gotime \<Rightarrow> kerr + watched_node list \<Rightarrow> node_gate \<Rightarrow> correlator_event list \<times> node_gate" where
  "node_bootstrapScan cfg now items m = scan_list (checkConditions cfg now) items m"

lemma bootstrap_scans:
  "deployment_bootstrapScan cfg now = scan_list (onDeployment cfg now)"
  "sts_bootstrapScan cfg now = scan_list (onStatefulSet cfg now)"
  "ds_bootstrapScan cfg now = scan_list (onDaemonSet cfg now)"
  "job_bootstrapScan cfg now = scan_list (onJob cfg now)"
  "node_bootstrapScan ncfg now = scan_list (checkConditions ncfg now)"
  by (simp_all add: fun_eq_iff deployment_bootstrapScan_def sts_bootstrapScan_def ds_bootstrapScan_def job_bootstrapScan_def
      node_bootstrapScan_def onDeployment_def [abs_def] onStatefulSet_def [abs_def] onDaemonSet_def [abs_def] onJob_def [abs_def])

definition deployment_activity ::
    "watch_config \<Rightarrow> gotime \<Rightarrow> watched_deployment activity \<Rightarrow> stalled_gate \<Rightarrow> correlator_event list \<times> stalled_gate" where
  "deployment_activity cfg now a m = (case a of
     AddFunc obj \<Rightarrow> on_object (onDeployment cfg now) (toDeployment obj) m
   | UpdateFunc old new \<Rightarrow>
       if toDeployment old = None then ([], m) else on_object (onDeployment cfg now) (toDeployment new) m
   | DeleteFunc obj \<Rightarrow> ([], m)
   | Bootstrap items \<Rightarrow> deployment_bootstrapScan cfg now items m
   | Periodic n items \<Rightarrow> scanDeployments cfg now items m)"

definition stateful_set_activity ::
    "watch_config \<Rightarrow> gotime \<Rightarrow> watched_stateful_set activity \<Rightarrow> stalled_gate \<Rightarrow> correlator_event list \<times> stalled_gate" where
  "stateful_set_activity cfg now a m = (case a of
     AddFunc obj \<Rightarrow> on_object (onStatefulSet cfg now) (toStatefulSet obj) m
   | UpdateFunc old new \<Rightarrow> on_object (onStatefulSet cfg now) (toStatefulSet new) m
   | DeleteFunc obj \<Rightarrow> ([], m)
   | Bootstrap items \<Rightarrow> sts_bootstrapScan cfg now items m
   | Periodic n items \<Rightarrow> scanStatefulSets cfg now items m)"

definition daemon_set_activity ::
    "watch_config \<Rightarrow> gotime \<Rightarrow> watched_daemon_set activity \<Rightarrow> stalled_gate \<Rightarrow> correlator_event list \<times> stalled_gate" where
  "daemon_set_activity cfg now a m = (case a of
     AddFunc obj \<Rightarrow> on_object (onDaemonSet cfg now) (toDaemonSet obj) m
   | UpdateFunc old new \<Rightarrow> on_object (onDaemonSet cfg now) (toDaemonSet new) m
   | DeleteFunc obj \<Rightarrow> ([], m)
   | Bootstrap items \<Rightarrow> ds_bootstrapScan cfg now items m
   | Periodic n items \<Rightarrow> scanDaemonSets cfg now items m)"

definition job_activity ::
    "watch_config \<Rightarrow> gotime \<Rightarrow> watched_job activity \<Rightarrow> fail_gate \<Rightarrow> correlator_event list \<times> fail_gate" where
  "job_activity cfg now a m = (case a of
     AddFunc obj \<Rightarrow> on_object (onJob cfg now) (toJob obj) m
   | UpdateFunc old new \<Rightarrow> on_object (onJob cfg now) (toJob new) m
   | DeleteFunc obj \<Rightarrow> ([], m)
   | Bootstrap items \<Rightarrow> job_bootstrapScan cfg now items m
   | Periodic n items \<Rightarrow> scanJobs cfg now items m)"

definition node_activity ::
    "node_config \<Rightarrow> gotime \<Rightarrow> watched_node activity \<Rightarrow> node_gate \<Rightarrow> correlator_event list \<times> node_gate" where
  "node_activity cfg now a m = (case a of
     AddFunc obj \<Rightarrow> on_object (checkConditions cfg now) (toNode obj) m
   | UpdateFunc old new \<Rightarrow> on_object (checkConditions cfg now) (toNode new) m
   | DeleteFunc obj \<Rightarrow> ([], m)
   | Bootstrap items \<Rightarrow> node_bootstrapScan cfg now items m
   | Periodic n items \<Rightarrow> scanNodes cfg now items m)"

text \<open>The pod watcher handles deletions and has three periodic scans.\<close>

definition pod_activity ::
    "pod_config \<Rightarrow> gotime \<Rightarrow> watched_pod activity \<Rightarrow> pod_watcher \<Rightarrow> correlator_event list \<times> pod_watcher" where
  "pod_activity cfg now a s = (case a of
     AddFunc obj \<Rightarrow> on_object (onPod cfg now None) (toPod obj) s
   | UpdateFunc old new \<Rightarrow>
       (case toPod old of None \<Rightarrow> ([], s) | Some oldPod \<Rightarrow> on_object (onPod cfg now (Some oldPod)) (toPod new) s)
   | DeleteFunc obj \<Rightarrow> on_object (onPodDelete cfg now) (toPod obj) s
   | Bootstrap items \<Rightarrow> scanCurrentFailureSignals cfg now items s
   | Periodic n items \<Rightarrow>
       if n = 0 then scanPendingPods cfg now items s
       else if n = 1 then scanReadyPods cfg now items s else scanGracePeriodViolations cfg now items s)"

text \<open>The periodic work of the event watcher is the sweep of its memory.\<close>

definition event_activity ::
    "event_config \<Rightarrow> gotime \<Rightarrow> kube_event activity \<Rightarrow> dedup_seen \<Rightarrow> correlator_event list \<times> dedup_seen" where
  "event_activity cfg now a m = (case a of
     AddFunc obj \<Rightarrow> on_object (onEvent cfg now) (toK8sEvent obj) m
   | UpdateFunc old new \<Rightarrow> on_object (onEvent cfg now) (toK8sEvent new) m
   | DeleteFunc obj \<Rightarrow> ([], m)
   | Bootstrap items \<Rightarrow> events_bootstrapScan cfg now items m
   | Periodic n items \<Rightarrow> ([], sweepDedupMap (ec_DedupWindow cfg) now m))"

definition cron_activity ::
    "watch_config \<Rightarrow> (string \<Rightarrow> kerr + watched_job list) \<Rightarrow> gotime \<Rightarrow> watched_cron_job activity \<Rightarrow> fail_gate
      \<Rightarrow> correlator_event list \<times> fail_gate" where
  "cron_activity cfg list_jobs now a m = (case a of
     Bootstrap items \<Rightarrow> scanCronJobs cfg now list_jobs items m
   | Periodic n items \<Rightarrow> scanCronJobs cfg now list_jobs items m
   | _ \<Rightarrow> ([], m))"

text \<open>A run of a watcher: its activities with their times.\<close>

definition collect :: "(gotime \<Rightarrow> 'a \<Rightarrow> 's \<Rightarrow> correlator_event list \<times> 's) \<Rightarrow> (gotime \<times> 'a) list \<Rightarrow> 's \<Rightarrow> correlator_event list \<times> 's" where
  "collect act as s = watch_all (\<lambda>(now, a). act now a) as s"

section \<open>Activities are sequences of sightings\<close>

lemma watch_all_app:
  "watch_all h (xs @ ys) s = (let (es, s) = watch_all h xs s; (es', s) = watch_all h ys s in (es @ es', s))"
  by (induction xs arbitrary: s) (simp_all add: case_prod_unfold Let_def)

lemma watch_all_map: "watch_all h (map f xs) s = watch_all (\<lambda>x. h (f x)) xs s"
  by (induction xs arbitrary: s) simp_all

lemma watch_all_one: "watch_all h [x] s = h x s" by (simp add: case_prod_unfold Let_def)

text \<open>The objects a watcher without deletions is shown; \<open>both\<close> says that an update needs the old
  object as well.\<close>

fun shown :: "bool \<Rightarrow> 'o activity \<Rightarrow> 'o list" where
  "shown both (AddFunc obj) = (case informed obj of None \<Rightarrow> [] | Some x \<Rightarrow> [x])"
| "shown both (UpdateFunc old new) = (if both \<and> informed old = None then [] else case informed new of None \<Rightarrow> [] | Some x \<Rightarrow> [x])"
| "shown both (DeleteFunc obj) = []"
| "shown both (Bootstrap items) = (case items of Inl _ \<Rightarrow> [] | Inr xs \<Rightarrow> xs)"
| "shown both (Periodic n items) = (case items of Inl _ \<Rightarrow> [] | Inr xs \<Rightarrow> xs)"

definition sightings :: "bool \<Rightarrow> (gotime \<times> 'o activity) list \<Rightarrow> (gotime \<times> 'o) list" where
  "sightings both as = concat (map (\<lambda>(now, a). map (Pair now) (shown both a)) as)"

lemma collect_shown:
  assumes "\<And>now a s. act now a s = watch_all (handle now) (shown both a) s"
  shows "collect act as s = watch_all (\<lambda>(now, x). handle now x) (sightings both as) s"
proof (induction as arbitrary: s)
  case (Cons p as)
  obtain now a where p: "p = (now, a)" by (cases p)
  show ?case using Cons
    by (simp add: p collect_def sightings_def assms watch_all_app watch_all_map case_prod_unfold Let_def)
qed (simp add: collect_def sightings_def)

lemma deployment_shown: "deployment_activity cfg now a m = watch_all (onDeployment cfg now) (shown True a) m"
  by (cases a) (simp_all add: deployment_activity_def toDeployment_def scanDeployments_def bootstrap_scans on_object_def scan_list_def
      case_prod_unfold Let_def split: option.split sum.split)

lemma stateful_set_shown: "stateful_set_activity cfg now a m = watch_all (onStatefulSet cfg now) (shown False a) m"
  by (cases a) (simp_all add: stateful_set_activity_def toStatefulSet_def scanStatefulSets_def bootstrap_scans on_object_def scan_list_def
      case_prod_unfold Let_def split: option.split sum.split)

lemma daemon_set_shown: "daemon_set_activity cfg now a m = watch_all (onDaemonSet cfg now) (shown False a) m"
  by (cases a) (simp_all add: daemon_set_activity_def toDaemonSet_def scanDaemonSets_def bootstrap_scans on_object_def scan_list_def
      case_prod_unfold Let_def split: option.split sum.split)

lemma job_shown: "job_activity cfg now a m = watch_all (onJob cfg now) (shown False a) m"
  by (cases a) (simp_all add: job_activity_def toJob_def scanJobs_def bootstrap_scans on_object_def scan_list_def
      case_prod_unfold Let_def split: option.split sum.split)

lemma node_shown: "node_activity cfg now a m = watch_all (checkConditions cfg now) (shown False a) m"
  by (cases a) (simp_all add: node_activity_def toNode_def scanNodes_def bootstrap_scans on_object_def scan_list_def
      case_prod_unfold Let_def split: option.split sum.split)

text \<open>No scan sweeps the gate: the entry of a deployment that is never shown again stays.\<close>

lemma detectStalledRollout_other: "wd_UID d \<noteq> u \<Longrightarrow> snd (detectStalledRollout cfg now d m) u = m u"
  by (auto simp: detectStalledRollout_def markStalledAlerted_def clearStalledAlerted_def Let_def
      split: option.splits if_splits prod.splits)

lemma gate_not_swept:
  assumes "\<forall>(now, d) \<in> set (sightings True as). wd_UID d \<noteq> u"
  shows "snd (collect (deployment_activity cfg) as m) u = m u"
proof -
  have "(\<forall>(now, d) \<in> set xs. wd_UID d \<noteq> u) \<Longrightarrow> snd (watch_all (\<lambda>(now, d). onDeployment cfg now d) xs m) u = m u" for xs m
    by (induction xs arbitrary: m) (auto simp: onDeployment_def detectStalledRollout_other case_prod_unfold Let_def)
  with assms show ?thesis unfolding collect_shown [OF deployment_shown] by blast
qed

section \<open>Episodes\<close>

text \<open>The place \<open>i\<close> starts an episode: the object shows a fault, and no earlier sighting of it showed
  the fault of the same generation with no recovery and no other fault since.\<close>

definition episode_start :: "('o \<Rightarrow> 'k) \<Rightarrow> ('o \<Rightarrow> 'g sighting) \<Rightarrow> 'o list \<Rightarrow> nat \<Rightarrow> bool" where
  "episode_start key sight xs i \<longleftrightarrow> (\<exists>g. sight (xs ! i) = Faulty g \<and>
     \<not> (\<exists>j < i. key (xs ! j) = key (xs ! i) \<and> sight (xs ! j) = Faulty g \<and>
          (\<forall>l. j < l \<and> l < i \<and> key (xs ! l) = key (xs ! i) \<longrightarrow> sight (xs ! l) = Unclear)))"

definition episodes :: "('o \<Rightarrow> 'k) \<Rightarrow> ('o \<Rightarrow> 'g sighting) \<Rightarrow> ('o \<Rightarrow> correlator_event) \<Rightarrow> 'o list \<Rightarrow> correlator_event list" where
  "episodes key sight ev xs = map (\<lambda>i. ev (xs ! i)) (filter (episode_start key sight xs) [0..<length xs])"

lemma episode_start_app: "i < length xs \<Longrightarrow> episode_start key sight (xs @ ys) i \<longleftrightarrow> episode_start key sight xs i"
  by (simp add: episode_start_def nth_append cong: conj_cong)

lemma episodes_snoc:
  "episodes key sight ev (xs @ [x]) = episodes key sight ev xs @ (if episode_start key sight (xs @ [x]) (length xs) then [ev x] else [])"
proof -
  have "filter (episode_start key sight (xs @ [x])) [0..<length xs] = filter (episode_start key sight xs) [0..<length xs]"
    by (rule filter_cong) (simp_all add: episode_start_app)
  then show ?thesis by (simp add: episodes_def nth_append)
qed

lemma watch_all_episodes:
  assumes "alerts_once handle key sight s" "\<And>x s. fst (handle x s) = [] \<or> fst (handle x s) = [ev x]"
  shows "fst (watch_all handle xs s) = episodes key sight ev xs"
proof (induction xs rule: rev_induct)
  case (snoc x xs)
  have "i < length ys \<longrightarrow> length (fst (handle (ys ! i) (snd (watch_all handle (take i ys) s)))) =
      (if episode_start key sight ys i then 1 else 0)" for ys i
    using assms(1) [unfolded alerts_once_def, THEN spec, THEN spec, of i ys] unfolding episode_start_def .
  from this [of "length xs" "xs @ [x]"]
  have "length (fst (handle x (snd (watch_all handle xs s)))) = (if episode_start key sight (xs @ [x]) (length xs) then 1 else 0)"
    by simp
  then have "fst (handle x (snd (watch_all handle xs s))) = (if episode_start key sight (xs @ [x]) (length xs) then [ev x] else [])"
    using assms(2) [of x "snd (watch_all handle xs s)"] by (auto split: if_splits)
  then show ?case using snoc by (simp add: watch_all_app episodes_snoc case_prod_unfold Let_def)
qed (simp add: episodes_def)

lemma gate_event: "fst (gate_answer x k e h) = [] \<or> fst (gate_answer x k e h) = [e]"
  by (cases x) simp_all

text \<open>A node is a sequence of conditions.\<close>

definition condition_sightings :: "(gotime \<times> watched_node) list \<Rightarrow> (gotime \<times> watched_node \<times> watch_condition) list" where
  "condition_sightings xs = concat (map (\<lambda>(now, node). map (\<lambda>c. (now, node, c)) (wn_Conditions node)) xs)"

lemma node_conditions_all:
  "watch_all (\<lambda>(now, node). checkConditions cfg now node) xs m =
   watch_all (\<lambda>(now, node, c). node_condition cfg now node c) (condition_sightings xs) m"
proof (induction xs arbitrary: m)
  case (Cons x xs)
  then show ?case
    by (simp add: condition_sightings_def checkConditions_def watch_all_app watch_all_map case_prod_unfold Let_def)
qed (simp add: condition_sightings_def)

section \<open>Properties\<close>

text \<open>C10.
  Whatever informer deliveries, tombstones, bootstrap scans and periodic scans a collector goes
  through after it was built, in whatever order, the events it emits are one per episode: for every place of the
  sequence of objects it was shown where an object in a watched namespace shows a fault that is not
  a continuation of one already shown, the event of that object, in that order, and nothing else.
  This for deployments, stateful sets, daemon sets, jobs and the conditions of nodes.
\<close>

theorem collectors_report_episodes:
  "fst (collect (deployment_activity cfg) as (snd (NewWorkloadCollector c1))) = episodes (\<lambda>(now, d). wd_UID d)
     (\<lambda>(now, d). watched_sight (shouldWatchNamespace (wt_WatchNamespaces cfg) (wd_Namespace d)) (rollout_sight d))
     (\<lambda>(now, d). rollout_event cfg now d) (sightings True as) \<and>
   fst (collect (stateful_set_activity cfg) bs (snd (NewStatefulSetCollector c2))) = episodes (\<lambda>(now, s). ws_UID s)
     (\<lambda>(now, s). watched_sight (shouldWatchNamespace (wt_WatchNamespaces cfg) (ws_Namespace s)) (sts_sight s))
     (\<lambda>(now, s). sts_event cfg now s) (sightings False bs) \<and>
   fst (collect (daemon_set_activity cfg) cs (snd (NewDaemonSetCollector c3))) = episodes (\<lambda>(now, d). wm_UID d)
     (\<lambda>(now, d). watched_sight (shouldWatchNamespace (wt_WatchNamespaces cfg) (wm_Namespace d)) (ds_sight d))
     (\<lambda>(now, d). ds_event cfg now d) (sightings False cs) \<and>
   fst (collect (job_activity cfg) ds (snd (NewJobCollector c4))) = episodes (\<lambda>(now, j). wj_UID j)
     (\<lambda>(now, j). watched_sight (shouldWatchNamespace (wt_WatchNamespaces cfg) (wj_Namespace j)) (job_sight j))
     (\<lambda>(now, j). job_event cfg now j) (sightings False ds) \<and>
   fst (collect (node_activity ncfg) es (snd (NewNodeCollector c5))) = episodes (\<lambda>(now, node, c). condition_key node c) (\<lambda>(now, node, c). node_sight c)
     (\<lambda>(now, node, c). condition_event ncfg now node c) (condition_sightings (sightings False es))"
  unfolding collector_defs snd_conv
proof (intro conjI)
  show "fst (collect (deployment_activity cfg) as Map.empty) = episodes (\<lambda>(now, d). wd_UID d)
     (\<lambda>(now, d). watched_sight (shouldWatchNamespace (wt_WatchNamespaces cfg) (wd_Namespace d)) (rollout_sight d))
     (\<lambda>(now, d). rollout_event cfg now d) (sightings True as)"
    unfolding collect_shown [OF deployment_shown]
    by (rule watch_all_episodes [OF deployments.gate_alerts_once]) (simp_all add: case_prod_unfold onDeployment_gate gate_event)
  show "fst (collect (stateful_set_activity cfg) bs Map.empty) = episodes (\<lambda>(now, s). ws_UID s)
     (\<lambda>(now, s). watched_sight (shouldWatchNamespace (wt_WatchNamespaces cfg) (ws_Namespace s)) (sts_sight s))
     (\<lambda>(now, s). sts_event cfg now s) (sightings False bs)"
    unfolding collect_shown [OF stateful_set_shown]
    by (rule watch_all_episodes [OF stateful_sets.gate_alerts_once]) (simp_all add: case_prod_unfold onStatefulSet_gate gate_event)
  show "fst (collect (daemon_set_activity cfg) cs Map.empty) = episodes (\<lambda>(now, d). wm_UID d)
     (\<lambda>(now, d). watched_sight (shouldWatchNamespace (wt_WatchNamespaces cfg) (wm_Namespace d)) (ds_sight d))
     (\<lambda>(now, d). ds_event cfg now d) (sightings False cs)"
    unfolding collect_shown [OF daemon_set_shown]
    by (rule watch_all_episodes [OF daemon_sets.gate_alerts_once]) (simp_all add: case_prod_unfold onDaemonSet_gate gate_event)
  show "fst (collect (job_activity cfg) ds {}) = episodes (\<lambda>(now, j). wj_UID j)
     (\<lambda>(now, j). watched_sight (shouldWatchNamespace (wt_WatchNamespaces cfg) (wj_Namespace j)) (job_sight j))
     (\<lambda>(now, j). job_event cfg now j) (sightings False ds)"
    unfolding collect_shown [OF job_shown]
    by (rule watch_all_episodes [OF jobs.gate_alerts_once])
      (simp_all add: case_prod_unfold onJob_gate [THEN arg_cong, of fst, simplified] gate_event)
  show "fst (collect (node_activity ncfg) es {}) = episodes (\<lambda>(now, node, c). condition_key node c) (\<lambda>(now, node, c). node_sight c)
     (\<lambda>(now, node, c). condition_event ncfg now node c) (condition_sightings (sightings False es))"
    unfolding collect_shown [OF node_shown] node_conditions_all
    by (rule watch_all_episodes [OF node_conditions.gate_alerts_once])
      (simp_all add: case_prod_unfold node_condition_gate [THEN arg_cong, of fst, simplified] gate_event)
qed

end
