(* ===== verification/Pipeline.thy ===== *)
theory Pipeline
  imports Collectors Consumer "HOL-Library.Multiset"
begin

text \<open>
  The path of a signal: collectors and the OTLP receiver call \<open>Emit\<close> of the shared channel emitter
  (\<open>internal/watcher/emitter.go\<close>, built by \<open>NewChannelSignalEmitterWithOptions\<close> of
  \<open>internal/collectors/collectors.go\<close>), and the loop of the consumer
  (\<open>internal/correlator/consumer.go\<close>, \<open>Run\<close>) takes from the channel and handles. A call of \<open>Emit\<close> is three
  atomic steps: it reads the clock, makes the duplicate check under the lock with that reading, and
  attempts to send; the steps of concurrent calls and the receipts interleave in any order. This
  theory says what becomes of every signal.
\<close>

section \<open>The machine\<close>

text \<open>\<open>pl_started\<close>: the callers that have read the clock and not made the check; \<open>pl_pending\<close>: those
  that have passed the check and have not sent yet.\<close>

record ('w, 'e) pipeline =
  pl_emitter :: emitter
  pl_started :: "nat \<rightharpoonup> gotime \<times> correlator_event"
  pl_pending :: "nat \<rightharpoonup> gotime \<times> correlator_event"
  pl_consumer :: "('w, 'e) consumer"

datatype pipe_action = Stamp nat gotime correlator_event | Check nat | Push nat | Receive gotime

definition NewChannelSignalEmitterWithOptions :: "nat \<Rightarrow> duration \<Rightarrow> emitter" where
  "NewChannelSignalEmitterWithOptions cap dedupWindow = NewChannelEventEmitterWithOptions cap dedupWindow"

definition has_room :: "emitter \<Rightarrow> bool" where
  "has_room em \<longleftrightarrow> length (em_queue em) < em_capacity em"

definition push :: "correlator_event \<Rightarrow> emitter \<Rightarrow> emitter" where
  "push e em = (if has_room em then em\<lparr>em_queue := em_queue em @ [e]\<rparr> else em)"

text \<open>A receipt from an empty channel blocks (\<open>None\<close>), and a caller has one call at a time.\<close>

definition pipe_step :: "('w, 'e) cons_env \<Rightarrow> pipe_action \<Rightarrow> ('w, 'e) pipeline \<Rightarrow> ('w, 'e) pipeline option" where
  "pipe_step V a s = (case a of
     Stamp i now e \<Rightarrow>
       if pl_started s i \<noteq> None \<or> pl_pending s i \<noteq> None then None
       else Some (s\<lparr>pl_started := (pl_started s)(i \<mapsto> (now, e))\<rparr>)
   | Check i \<Rightarrow>
       (case pl_started s i of None \<Rightarrow> None
        | Some (now, e) \<Rightarrow>
            if pl_pending s i \<noteq> None then None
            else let (dup, em) = shouldDropDuplicate now e (pl_emitter s)
                 in Some (s\<lparr>pl_emitter := em, pl_started := (pl_started s)(i := None),
                            pl_pending := (pl_pending s)(i := if dup then None else Some (now, e))\<rparr>))
   | Push i \<Rightarrow>
       (case pl_pending s i of None \<Rightarrow> None
        | Some (now, e) \<Rightarrow> Some (s\<lparr>pl_emitter := push e (pl_emitter s), pl_pending := (pl_pending s)(i := None)\<rparr>))
   | Receive now \<Rightarrow>
       (case em_queue (pl_emitter s) of [] \<Rightarrow> None
        | e # q \<Rightarrow> Some (s\<lparr>pl_emitter := (pl_emitter s)\<lparr>em_queue := q\<rparr>, pl_consumer := snd (handleEvent V now e (pl_consumer s))\<rparr>)))"

fun pipe_run :: "('w, 'e) cons_env \<Rightarrow> pipe_action list \<Rightarrow> ('w, 'e) pipeline \<Rightarrow> ('w, 'e) pipeline option" where
  "pipe_run V [] s = Some s"
| "pipe_run V (a # as) s = (case pipe_step V a s of None \<Rightarrow> None | Some s \<Rightarrow> pipe_run V as s)"

definition pipe_start :: "emitter \<Rightarrow> ('w, 'e) consumer \<Rightarrow> ('w, 'e) pipeline" where
  "pipe_start em c = \<lparr>pl_emitter = em, pl_started = Map.empty, pl_pending = Map.empty, pl_consumer = c\<rparr>"

section \<open>What becomes of a signal\<close>

text \<open>The trace of a run: every clock reading, every check and whether the signal passed it, every attempt to send and whether
  there was room, every receipt.\<close>

datatype pipe_event =
    Called gotime correlator_event
  | Checked gotime correlator_event bool
  | Pushed gotime correlator_event bool
  | Received gotime correlator_event

definition pipe_observe :: "pipe_action \<Rightarrow> ('w, 'e) pipeline \<Rightarrow> pipe_event list" where
  "pipe_observe a s = (case a of
     Stamp i now e \<Rightarrow> [Called now e]
   | Check i \<Rightarrow> (case pl_started s i of None \<Rightarrow> []
        | Some (now, e) \<Rightarrow> [Checked now e (\<not> fst (shouldDropDuplicate now e (pl_emitter s)))])
   | Push i \<Rightarrow> (case pl_pending s i of None \<Rightarrow> [] | Some (now, e) \<Rightarrow> [Pushed now e (has_room (pl_emitter s))])
   | Receive now \<Rightarrow> (case em_queue (pl_emitter s) of [] \<Rightarrow> [] | e # q \<Rightarrow> [Received now e]))"

fun pipe_trace :: "('w, 'e) cons_env \<Rightarrow> pipe_action list \<Rightarrow> ('w, 'e) pipeline \<Rightarrow> pipe_event list" where
  "pipe_trace V [] s = []"
| "pipe_trace V (a # as) s = (case pipe_step V a s of None \<Rightarrow> [] | Some s' \<Rightarrow> pipe_observe a s @ pipe_trace V as s')"

type_synonym stamped = "gotime \<times> correlator_event"

definition called :: "pipe_event list \<Rightarrow> stamped list" where
  "called tr = List.map_filter (\<lambda>x. case x of Called t e \<Rightarrow> Some (t, e) | _ \<Rightarrow> None) tr"

definition checked :: "pipe_event list \<Rightarrow> stamped list" where
  "checked tr = List.map_filter (\<lambda>x. case x of Checked t e p \<Rightarrow> Some (t, e) | _ \<Rightarrow> None) tr"

definition passed :: "pipe_event list \<Rightarrow> stamped list" where
  "passed tr = List.map_filter (\<lambda>x. case x of Checked t e p \<Rightarrow> if p then Some (t, e) else None | _ \<Rightarrow> None) tr"

definition sent :: "pipe_event list \<Rightarrow> stamped list" where
  "sent tr = List.map_filter (\<lambda>x. case x of Pushed t e r \<Rightarrow> if r then Some (t, e) else None | _ \<Rightarrow> None) tr"

definition overflowed :: "pipe_event list \<Rightarrow> stamped list" where
  "overflowed tr = List.map_filter (\<lambda>x. case x of Pushed t e r \<Rightarrow> if r then None else Some (t, e) | _ \<Rightarrow> None) tr"

definition received :: "pipe_event list \<Rightarrow> stamped list" where
  "received tr = List.map_filter (\<lambda>x. case x of Received t e \<Rightarrow> Some (t, e) | _ \<Rightarrow> None) tr"

lemmas trace_parts = called_def checked_def passed_def sent_def overflowed_def received_def

lemma map_filter_app: "List.map_filter f (xs @ ys) = List.map_filter f xs @ List.map_filter f ys"
  by (simp add: List.map_filter_def)

lemma trace_append:
  "called (xs @ ys) = called xs @ called ys"
  "checked (xs @ ys) = checked xs @ checked ys" "passed (xs @ ys) = passed xs @ passed ys" "sent (xs @ ys) = sent xs @ sent ys"
  "overflowed (xs @ ys) = overflowed xs @ overflowed ys" "received (xs @ ys) = received xs @ received ys"
  by (simp_all add: trace_parts map_filter_app)

lemma pipe_run_Cons:
  assumes "pipe_run V (a # as) s = Some s'"
  obtains s1 where "pipe_step V a s = Some s1" "pipe_run V as s1 = Some s'"
    "pipe_trace V (a # as) s = pipe_observe a s @ pipe_trace V as s1"
  using assms by (auto split: option.splits)

lemma shouldDrop_frame:
  "em_queue (snd (shouldDropDuplicate now e em)) = em_queue em" "em_capacity (snd (shouldDropDuplicate now e em)) = em_capacity em"
  "em_dedupWindow (snd (shouldDropDuplicate now e em)) = em_dedupWindow em"
  by (simp_all add: shouldDropDuplicate_check emit_check_def)

text \<open>One call of \<open>Emit\<close> reads the clock, makes the check and, when the signal passes it, attempts to send.\<close>

definition emit_steps :: "nat \<Rightarrow> gotime \<Rightarrow> correlator_event \<Rightarrow> emitter \<Rightarrow> pipe_action list" where
  "emit_steps i now e em = Stamp i now e # Check i # (if fst (shouldDropDuplicate now e em) then [] else [Push i])"

lemma emit_steps_Emit:
  assumes "pl_started s i = None" "pl_pending s i = None"
  shows "pipe_run V (emit_steps i now e (pl_emitter s)) s = Some (s\<lparr>pl_emitter := Emit now e (pl_emitter s)\<rparr>)"
proof -
  have "(pl_pending s)(i := None) = pl_pending s" "(pl_started s)(i := None) = pl_started s" using assms by auto
  then show ?thesis
    by (simp add: emit_steps_def pipe_step_def assms Emit_def push_def has_room_def case_prod_unfold Let_def)
qed

lemma pipe_run_append:
  "pipe_run V (as @ bs) s = (case pipe_run V as s of None \<Rightarrow> None | Some s \<Rightarrow> pipe_run V bs s)"
  by (induction as arbitrary: s) (simp_all split: option.split)

text \<open>One caller that emits a list of signals.\<close>

fun emit_run :: "nat \<Rightarrow> gotime \<Rightarrow> correlator_event list \<Rightarrow> emitter \<Rightarrow> pipe_action list" where
  "emit_run i now [] em = []"
| "emit_run i now (e # es) em = emit_steps i now e em @ emit_run i now es (Emit now e em)"

lemma emit_run_Emit:
  assumes "pl_started s i = None" "pl_pending s i = None"
  shows "pipe_run V (emit_run i now es (pl_emitter s)) s = Some (s\<lparr>pl_emitter := fold (Emit now) es (pl_emitter s)\<rparr>)"
  using assms
proof (induction es arbitrary: s)
  case (Cons e es)
  show ?case
    using Cons.IH [of "s\<lparr>pl_emitter := Emit now e (pl_emitter s)\<rparr>"] Cons.prems
    by (simp add: pipe_run_append emit_steps_Emit)
qed simp

section \<open>Runs\<close>

lemma step_fifo:
  assumes "pipe_step V a s = Some s1"
  shows "em_queue (pl_emitter s) @ map snd (sent (pipe_observe a s)) = map snd (received (pipe_observe a s)) @ em_queue (pl_emitter s1)"
    and "pl_consumer s1 = consume V (map (\<lambda>(t, e). (t, Some e)) (received (pipe_observe a s))) (pl_consumer s)"
    and "em_capacity (pl_emitter s1) = em_capacity (pl_emitter s)" "em_dedupWindow (pl_emitter s1) = em_dedupWindow (pl_emitter s)"
    and "length (em_queue (pl_emitter s)) \<le> em_capacity (pl_emitter s) \<Longrightarrow> length (em_queue (pl_emitter s1)) \<le> em_capacity (pl_emitter s)"
  using assms shouldDrop_frame
  by (auto simp: pipe_step_def pipe_observe_def trace_parts List.map_filter_simps push_def has_room_def case_prod_unfold Let_def
      split: pipe_action.splits option.splits list.splits if_splits)

lemma consume_append: "consume V (xs @ ys) c = consume V ys (consume V xs c)"
  by (induction V xs c rule: consume.induct) simp_all

lemma pipe_run_fifo:
  assumes "pipe_run V as s = Some s'" "length (em_queue (pl_emitter s)) \<le> em_capacity (pl_emitter s)"
  shows "em_queue (pl_emitter s) @ map snd (sent (pipe_trace V as s)) = map snd (received (pipe_trace V as s)) @ em_queue (pl_emitter s')"
    and "pl_consumer s' = consume V (map (\<lambda>(t, e). (t, Some e)) (received (pipe_trace V as s))) (pl_consumer s)"
    and "length (em_queue (pl_emitter s')) \<le> em_capacity (pl_emitter s)"
  using assms
proof (induction as arbitrary: s)
  case Nil
  { case 1 then show ?case by (simp add: trace_parts List.map_filter_simps) }
  { case 2 then show ?case by (simp add: trace_parts List.map_filter_simps) }
  { case 3 then show ?case by simp }
next
  case (Cons a as)
  { case 1
    then obtain s1 where s1: "pipe_step V a s = Some s1" "pipe_run V as s1 = Some s'"
        "pipe_trace V (a # as) s = pipe_observe a s @ pipe_trace V as s1" by (elim pipe_run_Cons)
    note st = step_fifo [OF s1(1)]
    show ?case unfolding s1(3) trace_append map_append
      using Cons.IH(1) [OF s1(2)] st(1,3) st(5) [OF 1(2)] by (metis append.assoc) }
  { case 2
    then obtain s1 where s1: "pipe_step V a s = Some s1" "pipe_run V as s1 = Some s'"
        "pipe_trace V (a # as) s = pipe_observe a s @ pipe_trace V as s1" by (elim pipe_run_Cons)
    note st = step_fifo [OF s1(1)]
    show ?case unfolding s1(3) trace_append map_append consume_append
      using Cons.IH(2) [OF s1(2)] st(2,3) st(5) [OF 2(2)] by simp }
  { case 3
    then obtain s1 where s1: "pipe_step V a s = Some s1" "pipe_run V as s1 = Some s'" by (elim pipe_run_Cons)
    note st = step_fifo [OF s1(1)]
    show ?case using Cons.IH(3) [OF s1(2)] st(3) st(5) [OF 3(2)] by simp }
qed

text \<open>The signals that pass are those the sliding window accepts.\<close>

lemma step_accepted:
  assumes "pipe_step V a s = Some s1"
  shows "accepted_by emit_check (event_keys (checked (pipe_observe a s)) @ ks) (pl_emitter s) =
    event_keys (passed (pipe_observe a s)) @ accepted_by emit_check ks (pl_emitter s1)"
  using assms
  by (auto simp: pipe_step_def pipe_observe_def trace_parts List.map_filter_simps push_def shouldDropDuplicate_check case_prod_unfold Let_def
      accepted_by_Cons accepted_by_queue simp del: accepted_by.simps split: pipe_action.splits option.splits list.splits if_splits)

lemma passed_accepted:
  assumes "pipe_run V as s = Some s'"
  shows "event_keys (passed (pipe_trace V as s)) = accepted_by emit_check (event_keys (checked (pipe_trace V as s))) (pl_emitter s)"
  using assms
proof (induction as arbitrary: s)
  case (Cons a as)
  then obtain s1 where s1: "pipe_step V a s = Some s1" "pipe_run V as s1 = Some s'"
      "pipe_trace V (a # as) s = pipe_observe a s @ pipe_trace V as s1" by (elim pipe_run_Cons)
  show ?case unfolding s1(3) trace_append map_append step_accepted [OF s1(1)] by (simp add: Cons.IH [OF s1(2)])
qed (simp add: trace_parts List.map_filter_simps)

lemma passed_spaced:
  assumes "pipe_run V as s = Some s'" "emitter_inv w (pl_emitter s)" "em_recent (pl_emitter s) = Map.empty"
    and "lag_within d (checked (pipe_trace V as s))" "0 \<le> d"
  shows "spaced (w - d) (\<lambda>te. DedupKey (snd te)) (passed (pipe_trace V as s))"
proof -
  have "spaced (w - d) snd (accepted_by emit_check (event_keys (checked (pipe_trace V as s))) (pl_emitter s))"
    using assms(2-5)
    by (intro emitter.accepted_spaced_lag) (auto simp: list_all_iff comp_def case_prod_unfold lag_within_def sorted_wrt_map)
  then show ?thesis unfolding passed_accepted [OF assms(1), symmetric]
    by (simp add: spaced_def sorted_wrt_map case_prod_unfold)
qed

text \<open>No signal that passed is sent twice or forgotten: it was sent, found the channel full, or is
  about to be sent.\<close>

definition pending_mset :: "(nat \<rightharpoonup> stamped) \<Rightarrow> stamped multiset" where
  "pending_mset p = image_mset (\<lambda>i. the (p i)) (mset_set (dom p))"

lemma pending_mset_update: "finite (dom p) \<Longrightarrow> i \<notin> dom p \<Longrightarrow> pending_mset (p(i \<mapsto> x)) = add_mset x (pending_mset p)"
proof -
  assume p: "finite (dom p)" "i \<notin> dom p"
  have "image_mset (\<lambda>j. the ((p(i \<mapsto> x)) j)) (mset_set (dom p)) = image_mset (\<lambda>j. the (p j)) (mset_set (dom p))"
    using p by (intro image_mset_cong) (metis finite_set_mset_mset_set fun_upd_other)
  with p show "pending_mset (p(i \<mapsto> x)) = add_mset x (pending_mset p)" by (simp add: pending_mset_def)
qed

lemma pending_mset_delete: "finite (dom p) \<Longrightarrow> p i = Some x \<Longrightarrow> pending_mset p = add_mset x (pending_mset (p(i := None)))"
  using pending_mset_update [of "p(i := None)" i x] by (simp add: fun_upd_idem)

lemma step_conserves:
  assumes "pipe_step V a s = Some s1" "finite (dom (pl_pending s))"
  shows "pending_mset (pl_pending s) + mset (passed (pipe_observe a s)) =
      mset (sent (pipe_observe a s)) + mset (overflowed (pipe_observe a s)) + pending_mset (pl_pending s1)"
    and "finite (dom (pl_pending s1))"
proof -
  have "pending_mset (pl_pending s) + mset (passed (pipe_observe a s)) =
      mset (sent (pipe_observe a s)) + mset (overflowed (pipe_observe a s)) + pending_mset (pl_pending s1) \<and> finite (dom (pl_pending s1))"
  proof (cases a)
    case (Stamp i now e)
    then show ?thesis using assms
      by (auto simp: pipe_step_def pipe_observe_def trace_parts List.map_filter_simps split: if_splits)
  next
    case (Check i)
    then obtain now e where st: "pl_started s i = Some (now, e)" and i: "pl_pending s i = None"
      using assms(1) by (cases "pl_pending s i") (auto simp: pipe_step_def split: option.splits)
    then have "i \<notin> dom (pl_pending s)" "(pl_pending s)(i := None) = pl_pending s" by auto
    moreover from this(1) have "pending_mset ((pl_pending s)(i \<mapsto> x)) = add_mset x (pending_mset (pl_pending s))"
        "finite (dom ((pl_pending s)(i \<mapsto> x)))" for x
      using assms(2) by (simp_all add: pending_mset_update)
    ultimately show ?thesis using assms i st
      by (auto simp: Check pipe_step_def pipe_observe_def trace_parts List.map_filter_simps case_prod_unfold Let_def
          simp del: fun_upd_apply dom_fun_upd split: if_splits)
  next
    case (Push i)
    then obtain now e where i: "pl_pending s i = Some (now, e)" using assms(1) by (auto simp: pipe_step_def split: option.splits)
    then show ?thesis using assms pending_mset_delete [OF assms(2) i]
      by (auto simp: Push pipe_step_def pipe_observe_def trace_parts List.map_filter_simps)
  next
    case (Receive now)
    then show ?thesis using assms
      by (auto simp: pipe_step_def pipe_observe_def trace_parts List.map_filter_simps split: list.splits)
  qed
  then show "pending_mset (pl_pending s) + mset (passed (pipe_observe a s)) =
      mset (sent (pipe_observe a s)) + mset (overflowed (pipe_observe a s)) + pending_mset (pl_pending s1)"
    "finite (dom (pl_pending s1))" by auto
qed

lemma run_conserves:
  assumes "pipe_run V as s = Some s'" "finite (dom (pl_pending s))"
  shows "pending_mset (pl_pending s) + mset (passed (pipe_trace V as s)) =
    mset (sent (pipe_trace V as s)) + mset (overflowed (pipe_trace V as s)) + pending_mset (pl_pending s')"
  using assms
proof (induction as arbitrary: s)
  case (Cons a as)
  then obtain s1 where s1: "pipe_step V a s = Some s1" "pipe_run V as s1 = Some s'"
      "pipe_trace V (a # as) s = pipe_observe a s @ pipe_trace V as s1" by (elim pipe_run_Cons)
  have "pending_mset (pl_pending s) + mset (passed (pipe_trace V (a # as) s)) =
      mset (sent (pipe_observe a s)) + mset (overflowed (pipe_observe a s)) + (pending_mset (pl_pending s1) + mset (passed (pipe_trace V as s1)))"
    unfolding s1(3) trace_append using step_conserves(1) [OF s1(1) Cons.prems(2)] by (simp add: ac_simps)
  also have "\<dots> = mset (sent (pipe_trace V (a # as) s)) + mset (overflowed (pipe_trace V (a # as) s)) + pending_mset (pl_pending s')"
    unfolding s1(3) trace_append Cons.IH [OF s1(2) step_conserves(2) [OF s1(1) Cons.prems(2)]] by (simp add: ac_simps)
  finally show ?case .
qed (simp add: trace_parts List.map_filter_simps)

text \<open>Every call makes one check, or is about to.\<close>

lemma step_calls:
  assumes "pipe_step V a s = Some s1" "finite (dom (pl_started s))"
  shows "pending_mset (pl_started s) + mset (called (pipe_observe a s)) =
      mset (checked (pipe_observe a s)) + pending_mset (pl_started s1) \<and> finite (dom (pl_started s1))"
proof (cases a)
  case (Stamp i now e)
  then have i: "i \<notin> dom (pl_started s)" using assms(1) by (auto simp: pipe_step_def split: if_splits)
  show ?thesis using assms pending_mset_update [OF assms(2) i]
    by (auto simp: Stamp pipe_step_def pipe_observe_def trace_parts List.map_filter_simps split: if_splits)
next
  case (Check i)
  then obtain now e where i: "pl_started s i = Some (now, e)"
    using assms(1) by (auto simp: pipe_step_def split: option.splits)
  then show ?thesis using assms pending_mset_delete [OF assms(2) i]
    by (auto simp: Check pipe_step_def pipe_observe_def trace_parts List.map_filter_simps case_prod_unfold Let_def split: if_splits)
qed (use assms in \<open>auto simp: pipe_step_def pipe_observe_def trace_parts List.map_filter_simps split: option.splits list.splits\<close>)

lemma run_calls:
  assumes "pipe_run V as s = Some s'" "finite (dom (pl_started s))"
  shows "pending_mset (pl_started s) + mset (called (pipe_trace V as s)) =
    mset (checked (pipe_trace V as s)) + pending_mset (pl_started s')"
  using assms
proof (induction as arbitrary: s)
  case (Cons a as)
  then obtain s1 where s1: "pipe_step V a s = Some s1" "pipe_run V as s1 = Some s'"
      "pipe_trace V (a # as) s = pipe_observe a s @ pipe_trace V as s1" by (elim pipe_run_Cons)
  note st = step_calls [OF s1(1) Cons.prems(2)]
  have "pending_mset (pl_started s) + mset (called (pipe_trace V (a # as) s)) =
      mset (checked (pipe_observe a s)) + (pending_mset (pl_started s1) + mset (called (pipe_trace V as s1)))"
    unfolding s1(3) trace_append using st by (simp add: ac_simps)
  also have "\<dots> = mset (checked (pipe_trace V (a # as) s)) + pending_mset (pl_started s')"
    unfolding s1(3) trace_append using Cons.IH [OF s1(2)] st by (simp add: ac_simps)
  finally show ?case .
qed (simp add: trace_parts List.map_filter_simps)

text \<open>A signal is called a duplicate only of one that passed.\<close>

definition backed :: "pipe_event set \<Rightarrow> duration \<Rightarrow> gotime \<Rightarrow> correlator_event \<Rightarrow> bool" where
  "backed H w t e \<longleftrightarrow> (\<exists>t' e'. Checked t' e' True \<in> H \<and> DedupKey e' = DedupKey e \<and> time_sub t t' < w)"

definition remembers :: "pipe_event set \<Rightarrow> emitter \<Rightarrow> bool" where
  "remembers H em \<longleftrightarrow> (\<forall>k t. em_recent em k = Some t \<longrightarrow> (\<exists>e. Checked t e True \<in> H \<and> DedupKey e = k))"

lemma remembers_step:
  assumes "pipe_step V a s = Some s1" "remembers H (pl_emitter s)"
  shows "remembers (H \<union> set (pipe_observe a s)) (pl_emitter s1)"
proof (cases a)
  case (Stamp i now e)
  then show ?thesis using assms by (fastforce simp: pipe_step_def remembers_def split: if_splits)
next
  case (Check i)
  then show ?thesis using assms
    by (fastforce simp: pipe_step_def pipe_observe_def remembers_def shouldDropDuplicate_check emit_check_def case_prod_unfold Let_def
        split: option.splits if_splits)
next
  case (Push i)
  then show ?thesis using assms by (fastforce simp: pipe_step_def remembers_def push_def split: option.splits if_splits)
next
  case (Receive now)
  then show ?thesis using assms by (fastforce simp: pipe_step_def remembers_def split: list.splits)
qed

lemma dropped_backed:
  assumes "remembers H (pl_emitter s)" "fst (shouldDropDuplicate t e (pl_emitter s))"
  shows "backed H (em_dedupWindow (pl_emitter s)) t e"
proof -
  obtain t' where t': "em_recent (pl_emitter s) (DedupKey e) = Some t'" "time_sub t t' < em_dedupWindow (pl_emitter s)"
    using assms(2) by (auto simp: shouldDropDuplicate_check emit_check_def split: if_splits)
  with assms(1) obtain e' where "Checked t' e' True \<in> H" "DedupKey e' = DedupKey e" unfolding remembers_def by meson
  with t' show ?thesis by (auto simp: backed_def)
qed

lemma duplicate_backed:
  assumes "pipe_run V as s = Some s'" "remembers H (pl_emitter s)" "pipe_trace V as s = xs @ Checked t e False # ys"
  shows "backed (H \<union> set xs) (em_dedupWindow (pl_emitter s)) t e"
  using assms
proof (induction as arbitrary: s H xs)
  case (Cons a as)
  then obtain s1 where s1: "pipe_step V a s = Some s1" "pipe_run V as s1 = Some s'"
      "pipe_trace V (a # as) s = pipe_observe a s @ pipe_trace V as s1" by (elim pipe_run_Cons)
  note tr = Cons.prems(3) [unfolded s1(3)]
  from tr consider (here) us where "pipe_observe a s = xs @ Checked t e False # us"
    | (later) zs where "xs = pipe_observe a s @ zs" "pipe_trace V as s1 = zs @ Checked t e False # ys"
    by (fastforce simp: append_eq_append_conv2 append_eq_Cons_conv)
  then show ?case
  proof cases
    case here
    then have "fst (shouldDropDuplicate t e (pl_emitter s))" "xs = []"
      by (auto simp: pipe_observe_def append_eq_Cons_conv Cons_eq_append_conv split: pipe_action.splits option.splits list.splits)
    then show ?thesis using dropped_backed [OF Cons.prems(2)] by simp
  next
    case (later zs)
    note zs = later
    have "backed (H \<union> set (pipe_observe a s) \<union> set zs) (em_dedupWindow (pl_emitter s1)) t e"
      by (rule Cons.IH [OF s1(2) remembers_step [OF s1(1) Cons.prems(2)] zs(2)])
    then show ?thesis by (simp add: zs(1) step_fifo(4) [OF s1(1)] Un_assoc)
  qed
qed simp

section \<open>Losses\<close>

text \<open>The emitter remembers the key of a signal before it looks for room on the channel: a signal
  that finds the channel full is lost, and so are its repetitions until the window has passed, even
  when there is room again.\<close>

lemma full_then_duplicate:
  assumes "\<not> fst (shouldDropDuplicate now e em)" "\<not> has_room em" "0 < em_dedupWindow em" "DedupKey e' = DedupKey e"
    and "time_sub now' now < em_dedupWindow em"
  shows "em_queue (Emit now e em) = em_queue em"
    and "fst (shouldDropDuplicate now' e' ((Emit now e em)\<lparr>em_queue := q\<rparr>))"
  using assms
  by (auto simp: shouldDropDuplicate_check emit_check_def Emit_check has_room_def Let_def split: if_splits)

text \<open>The gate of a watcher closes whatever becomes of the event: when the event of a stalled
  rollout does not get onto the channel, later sightings of the same stall emit nothing.\<close>

lemma stall_lost:
  assumes "deployment_activity cfg now a m = ([e], m')" "shown True a = [d]" "shown True b = [d]"
  shows "fst (deployment_activity cfg now' b m') = []"
  using assms unfolding deployment_shown
  by (cases "watched_sight (shouldWatchNamespace (wt_WatchNamespaces cfg) (wd_Namespace d)) (rollout_sight d)")
    (auto simp: onDeployment_gate case_prod_unfold Let_def split: if_splits)

text \<open>
  The clock is read before the lock is taken (\<open>shouldDropDuplicate\<close>), so that a call can make its
  check after one that read a later time. That one may have purged the record of the key, and the
  key passes twice less than a window apart. Here the readings are in time order, two calls with key
  \<open>k\<close> are \<open>w - 1\<close> apart, and the second waits for the lock while a call with another key passes.
\<close>

lemma late_check_repeats:
  fixes V :: "('w, 'e) cons_env"
  assumes "1 < w" "w < 1000000000000" "DedupKey e \<noteq> DedupKey f"
  shows "\<exists>s. pipe_run V [Stamp 0 100 e, Check 0, Stamp 1 (w + 99) e, Stamp 2 (w + 101) f, Check 2, Check 1]
      (pipe_start (NewChannelSignalEmitterWithOptions cap w) c) = Some s \<and>
    passed (pipe_trace V [Stamp 0 100 e, Check 0, Stamp 1 (w + 99) e, Stamp 2 (w + 101) f, Check 2, Check 1]
      (pipe_start (NewChannelSignalEmitterWithOptions cap w) c)) = [(100, e), (w + 101, f), (w + 99, e)]"
  using assms
  by (simp add: pipe_step_def pipe_observe_def pipe_start_def shouldDropDuplicate_check emit_check_def push_def has_room_def
      NewChannelSignalEmitterWithOptions_def NewChannelEventEmitterWithOptions_def time_sub_def min_int64_def max_int64_def
      trace_parts List.map_filter_simps)

section \<open>Properties\<close>

text \<open>C9.
  However the steps of concurrent calls of \<open>Emit\<close> (reading the clock, checking for a duplicate under
  the lock, trying to send) and the receipts of the consumer interleave, for a channel of any
  capacity and any window: each call makes one check or is about to; each signal that passed the
  check was sent once, found the channel full once, or is still to be sent; each that did not pass
  follows, within the window by the two clock readings, one of the same key that did; the signals
  that were put on the channel are those the consumer has handled, in that order, followed by those
  still queued; the state of the consumer is that of handling exactly the received ones; the queue
  never exceeds the capacity. And for a positive window \<open>w\<close> and any \<open>d\<close>, when no check is made with a
  clock reading more than \<open>d\<close> older than that of an earlier check, signals of one key pass only
  \<open>w - d\<close> apart.
\<close>

theorem pipeline_exact:
  fixes cap :: nat and w :: duration and c :: "('w, 'e) consumer" and V :: "('w, 'e) cons_env"
  defines "s0 \<equiv> pipe_start (NewChannelSignalEmitterWithOptions cap w) c"
  defines "tr \<equiv> \<lambda>as. pipe_trace V as s0"
  assumes "pipe_run V as s0 = Some s"
  shows "map snd (sent (tr as)) = map snd (received (tr as)) @ em_queue (pl_emitter s) \<and>
    pl_consumer s = consume V (map (\<lambda>(t, e). (t, Some e)) (received (tr as))) c \<and>
    length (em_queue (pl_emitter s)) \<le> cap \<and>
    mset (called (tr as)) = mset (checked (tr as)) + pending_mset (pl_started s) \<and>
    mset (passed (tr as)) = mset (sent (tr as)) + mset (overflowed (tr as)) + pending_mset (pl_pending s) \<and>
    (\<forall>xs t e ys. tr as = xs @ Checked t e False # ys \<longrightarrow> backed (set xs) w t e) \<and>
    (\<forall>d. 0 < w \<and> 0 \<le> d \<and> lag_within d (checked (tr as)) \<longrightarrow> spaced (w - d) (\<lambda>te. DedupKey (snd te)) (passed (tr as)))"
proof -
  have s0: "em_queue (pl_emitter s0) = []" "em_capacity (pl_emitter s0) = cap" "em_recent (pl_emitter s0) = Map.empty"
      "em_dedupWindow (pl_emitter s0) = w" "pl_started s0 = Map.empty" "pl_pending s0 = Map.empty" "pl_consumer s0 = c"
    by (simp_all add: s0_def pipe_start_def NewChannelSignalEmitterWithOptions_def NewChannelEventEmitterWithOptions_def)
  have "backed (set xs) w t e" if "tr as = xs @ Checked t e False # ys" for xs t e ys
    using duplicate_backed [OF assms(3), of "{}" xs t e ys] that s0 by (simp add: remembers_def tr_def)
  moreover have "spaced (w - d) (\<lambda>te. DedupKey (snd te)) (passed (tr as))"
    if "0 < w" "0 \<le> d" "lag_within d (checked (tr as))" for d
    using that s0 unfolding tr_def by (intro passed_spaced [OF assms(3)]) (simp_all add: emitter_inv_def)
  moreover have "mset (called (tr as)) = mset (checked (tr as)) + pending_mset (pl_started s)"
    using run_calls [OF assms(3)] s0 by (simp add: tr_def pending_mset_def)
  moreover have "mset (passed (tr as)) = mset (sent (tr as)) + mset (overflowed (tr as)) + pending_mset (pl_pending s)"
    using run_conserves [OF assms(3)] s0 by (simp add: tr_def pending_mset_def)
  moreover have "map snd (sent (tr as)) = map snd (received (tr as)) @ em_queue (pl_emitter s)"
    "pl_consumer s = consume V (map (\<lambda>(t, e). (t, Some e)) (received (tr as))) c" "length (em_queue (pl_emitter s)) \<le> cap"
    using pipe_run_fifo [OF assms(3)] s0 by (simp_all add: tr_def)
  ultimately show ?thesis by blast
qed

theorem pipeline_exact_witness:
  "let e = PodHealthyEvent zero_base; as = [Stamp 0 0 e, Stamp 1 1 e, Check 0, Check 1, Push 0, Receive 2];
       s0 = pipe_start (NewChannelSignalEmitterWithOptions 4 60) sample_consumer
   in map snd (sent (pipe_trace sample_env as s0)) = [e] \<and> passed (pipe_trace sample_env as s0) = [(0, e)] \<and>
      spaced 60 (\<lambda>te. DedupKey (snd te)) (passed (pipe_trace sample_env as s0)) \<and>
      em_queue (pl_emitter (the (pipe_run sample_env as s0))) = []"
proof -
  let ?e = "PodHealthyEvent zero_base" and ?s0 = "pipe_start (NewChannelSignalEmitterWithOptions 4 60) sample_consumer"
  let ?as = "[Stamp 0 0 ?e, Stamp 1 1 ?e, Check 0, Check 1, Push 0, Receive 2]"
  let ?tr = "[Called 0 ?e, Called 1 ?e, Checked 0 ?e True, Checked 1 ?e False, Pushed 0 ?e True, Received 2 ?e]"
  have step: "\<exists>s. pipe_run sample_env ?as ?s0 = Some s \<and> pipe_trace sample_env ?as ?s0 = ?tr"
    by (simp add: pipe_step_def pipe_observe_def pipe_start_def shouldDropDuplicate_check emit_check_def push_def has_room_def
        NewChannelSignalEmitterWithOptions_def NewChannelEventEmitterWithOptions_def time_sub_def min_int64_def max_int64_def)
  then obtain s where run: "pipe_run sample_env ?as ?s0 = Some s" and tr: "pipe_trace sample_env ?as ?s0 = ?tr" by blast
  have parts: "sent (pipe_trace sample_env ?as ?s0) = [(0, ?e)]" "received (pipe_trace sample_env ?as ?s0) = [(2, ?e)]"
      "passed (pipe_trace sample_env ?as ?s0) = [(0, ?e)]" "checked (pipe_trace sample_env ?as ?s0) = [(0, ?e), (1, ?e)]"
    unfolding tr by (simp_all add: trace_parts List.map_filter_simps)
  note exact = pipeline_exact [OF run, unfolded parts]
  have "map snd [(0 :: gotime, ?e)] = map snd [(2 :: gotime, ?e)] @ em_queue (pl_emitter s)" using exact by blast
  moreover have "lag_within 0 [(0, ?e), (1, ?e)]" by (simp add: lag_within_def)
  then have "spaced (60 - 0) (\<lambda>te. DedupKey (snd te)) [(0, ?e)]"
    using exact by (metis order_refl zero_less_numeral)
  ultimately show ?thesis using parts run unfolding Let_def by simp
qed

end
