(* ===== verification/Metrics.thy ===== *)
theory Metrics
  imports Lifecycle
begin

text \<open>
  The Prometheus collectors of the operator (\<open>internal/metrics/metrics.go\<close>): the calls each
  \<open>Record\<close> function makes on its vectors. The client library is the interface \<open>prometheus\<close>: what
  \<open>Inc\<close>, \<open>Dec\<close>, \<open>Set\<close> and \<open>Observe\<close> do to the exported values. On top of it, what each exported series
  says of the recorded observations, and two operations whose records make the gauge of active
  incidents drift from the reports.
\<close>

section \<open>The collectors\<close>

datatype metric_vec = SignalsReceived | SignalsDeduplicated | IncidentsDetecting | IncidentsActivated
  | IncidentsResolved | ActiveIncidents | IncidentTransitionSeconds

datatype metric_kind = Counter | Gauge | Histogram

definition metric_namespace :: string where "metric_namespace = ''rca''"

definition labelUnknown :: string where "labelUnknown = ''unknown''"

primrec metric_opts :: "metric_vec \<Rightarrow> metric_kind \<times> string \<times> string list" where
  "metric_opts SignalsReceived = (Counter, ''signals_received_total'', [''event_type''])"
| "metric_opts SignalsDeduplicated = (Counter, ''signals_deduplicated_total'', [''event_type''])"
| "metric_opts IncidentsDetecting = (Counter, ''incidents_detecting_total'', [''incident_type'', ''severity''])"
| "metric_opts IncidentsActivated = (Counter, ''incidents_activated_total'', [''incident_type'', ''severity''])"
| "metric_opts IncidentsResolved = (Counter, ''incidents_resolved_total'', [''incident_type'', ''severity''])"
| "metric_opts ActiveIncidents = (Gauge, ''active_incidents'', [''incident_type'', ''severity''])"
| "metric_opts IncidentTransitionSeconds =
     (Histogram, ''incident_transition_seconds'', [''from_phase'', ''to_phase''])"

definition transition_buckets :: "int list" where
  "transition_buckets = [10, 30, 60, 120, 300, 600, 1800, 3600]"

text \<open>What \<open>init\<close> registers, in its order, under the full names.\<close>

definition registered :: "metric_vec list" where
  "registered = [SignalsReceived, SignalsDeduplicated, IncidentsDetecting, IncidentsActivated,
     IncidentsResolved, ActiveIncidents, IncidentTransitionSeconds]"

definition metric_full_name :: "metric_vec \<Rightarrow> string" where
  "metric_full_name v = metric_namespace @ ''_'' @ fst (snd (metric_opts v))"

section \<open>Recording\<close>

text \<open>A call on the child of a vector that \<open>WithLabelValues\<close> selects.\<close>

datatype metric_call =
    Inc metric_vec "string list"
  | Dec metric_vec "string list"
  | SetTo metric_vec "string list" int
  | ObserveIn metric_vec "string list" duration

definition orUnknown :: "string \<Rightarrow> string" where
  "orUnknown s = (if s = [] then labelUnknown else s)"

definition normLabels :: "string \<Rightarrow> string \<Rightarrow> string list" where
  "normLabels incidentType severity = [orUnknown incidentType, orUnknown severity]"

definition normPhase :: "string \<Rightarrow> string" where
  "normPhase p = (if p \<in> {''Detecting'', ''detecting''} then ''detecting''
     else if p \<in> {''Active'', ''active''} then ''active''
     else if p \<in> {''Resolved'', ''resolved''} then ''resolved'' else labelUnknown)"

definition signal_received_calls :: "string \<Rightarrow> metric_call list" where
  "signal_received_calls eventType = [Inc SignalsReceived [orUnknown eventType]]"

definition signal_deduplicated_calls :: "string \<Rightarrow> metric_call list" where
  "signal_deduplicated_calls eventType = [Inc SignalsDeduplicated [orUnknown eventType]]"

definition incident_detecting_calls :: "string \<Rightarrow> string \<Rightarrow> metric_call list" where
  "incident_detecting_calls incidentType severity =
     (let ts = normLabels incidentType severity in [Inc IncidentsDetecting ts, Inc ActiveIncidents ts])"

definition incident_activated_calls :: "string \<Rightarrow> string \<Rightarrow> duration \<Rightarrow> metric_call list" where
  "incident_activated_calls incidentType severity transition =
     Inc IncidentsActivated (normLabels incidentType severity) #
     (if 0 < transition then [ObserveIn IncidentTransitionSeconds [''detecting'', ''active''] transition] else [])"

definition incident_resolved_calls :: "string \<Rightarrow> string \<Rightarrow> string \<Rightarrow> duration \<Rightarrow> metric_call list" where
  "incident_resolved_calls incidentType severity fromPhase transition =
     (let ts = normLabels incidentType severity; from = normPhase fromPhase
      in Inc IncidentsResolved ts # Dec ActiveIncidents ts #
         (if 0 < transition then [ObserveIn IncidentTransitionSeconds [from, ''resolved''] transition] else []))"

definition SetActiveIncidents :: "string \<Rightarrow> string \<Rightarrow> int \<Rightarrow> metric_call list" where
  "SetActiveIncidents incidentType severity v = [SetTo ActiveIncidents (normLabels incidentType severity) v]"

primrec metric_calls :: "observation \<Rightarrow> metric_call list" where
  "metric_calls (RecordSignalReceived t) = signal_received_calls t"
| "metric_calls (RecordSignalDeduplicated t) = signal_deduplicated_calls t"
| "metric_calls (RecordIncidentDetecting t s) = incident_detecting_calls t s"
| "metric_calls (RecordIncidentActivated t s d) = incident_activated_calls t s d"
| "metric_calls (RecordIncidentResolved t s p d) = incident_resolved_calls t s p d"
| "metric_calls (KubeEvent a b c d) = []"

lemmas record_calls = signal_received_calls_def signal_deduplicated_calls_def incident_detecting_calls_def
  incident_activated_calls_def incident_resolved_calls_def SetActiveIncidents_def Let_def

section \<open>Calls the library accepts\<close>

text \<open>\<open>WithLabelValues\<close> panics on a wrong number of labels; only gauges go down or are set.\<close>

primrec well_typed :: "metric_call \<Rightarrow> bool" where
  "well_typed (Inc v ls) \<longleftrightarrow> fst (metric_opts v) \<noteq> Histogram \<and> length ls = length (snd (snd (metric_opts v)))"
| "well_typed (Dec v ls) \<longleftrightarrow> fst (metric_opts v) = Gauge \<and> length ls = length (snd (snd (metric_opts v)))"
| "well_typed (SetTo v ls x) \<longleftrightarrow> fst (metric_opts v) = Gauge \<and> length ls = length (snd (snd (metric_opts v)))"
| "well_typed (ObserveIn v ls d) \<longleftrightarrow> fst (metric_opts v) = Histogram \<and> length ls = length (snd (snd (metric_opts v)))"

lemma calls_well_typed: "list_all well_typed (metric_calls ob)"
  by (cases ob) (simp_all add: record_calls normLabels_def)

lemma SetActiveIncidents_well_typed: "list_all well_typed (SetActiveIncidents t s x)"
  by (simp add: record_calls normLabels_def)

text \<open>The registry takes the collectors: no two share a name.\<close>

lemma registered_distinct: "distinct (map metric_full_name registered) \<and> set registered = UNIV"
proof
  show "distinct (map metric_full_name registered)" by (simp add: registered_def metric_full_name_def)
  show "set registered = UNIV" by (auto simp: registered_def intro: metric_vec.exhaust)
qed

section \<open>The client library\<close>

definition record_all :: "(metric_call \<Rightarrow> 'm \<Rightarrow> 'm) \<Rightarrow> observation list \<Rightarrow> 'm \<Rightarrow> 'm" where
  "record_all call obs m = fold call (concat (map metric_calls obs)) m"

lemma record_all_simps [simp]:
  "record_all call [] m = m"
  "record_all call (ob # obs) m = record_all call obs (fold call (metric_calls ob) m)"
  "record_all call (obs @ obs') m = record_all call obs' (record_all call obs m)"
  by (simp_all add: record_all_def)

locale prometheus =
  fixes call :: "metric_call \<Rightarrow> 'm \<Rightarrow> 'm"
    and val :: "metric_vec \<Rightarrow> string list \<Rightarrow> 'm \<Rightarrow> int"
    and bucket :: "metric_vec \<Rightarrow> string list \<Rightarrow> int \<Rightarrow> 'm \<Rightarrow> nat"
    and start :: 'm
  assumes val_start: "val v ls start = 0"
    and bucket_start: "bucket v ls b start = 0"
    and val_call: "well_typed c \<Longrightarrow> val v ls (call c m) = (case c of
        Inc u k \<Rightarrow> val v ls m + of_bool (u = v \<and> k = ls)
      | Dec u k \<Rightarrow> val v ls m - of_bool (u = v \<and> k = ls)
      | SetTo u k x \<Rightarrow> if u = v \<and> k = ls then x else val v ls m
      | ObserveIn u k d \<Rightarrow> val v ls m)"
    and bucket_call: "well_typed c \<Longrightarrow> bucket v ls b (call c m) = bucket v ls b m + (case c of
        ObserveIn u k d \<Rightarrow> of_bool (u = v \<and> k = ls \<and> d \<le> b * 1000000000) | _ \<Rightarrow> 0)"
begin

text \<open>The gauge is the incidents counted as new less those counted as resolved, per label.\<close>

lemma gauge_call:
  "val ActiveIncidents ls (fold call (metric_calls ob) m) - val ActiveIncidents ls m =
    (val IncidentsDetecting ls (fold call (metric_calls ob) m) - val IncidentsDetecting ls m) -
    (val IncidentsResolved ls (fold call (metric_calls ob) m) - val IncidentsResolved ls m)"
  by (cases ob) (auto simp: record_calls val_call normLabels_def)

lemma gauge_balance:
  "val ActiveIncidents ls (record_all call obs m) - val ActiveIncidents ls m =
    (val IncidentsDetecting ls (record_all call obs m) - val IncidentsDetecting ls m) -
    (val IncidentsResolved ls (record_all call obs m) - val IncidentsResolved ls m)"
proof (induction obs arbitrary: m)
  case (Cons ob obs)
  show ?case using Cons [of "fold call (metric_calls ob) m"] gauge_call [of ls ob m] by simp
qed simp

text \<open>Counters only go up.\<close>

lemma counter_call: "v \<noteq> ActiveIncidents \<Longrightarrow> val v ls m \<le> val v ls (fold call (metric_calls ob) m)"
  by (cases ob) (auto simp: record_calls val_call normLabels_def)

lemma counters_grow: "v \<noteq> ActiveIncidents \<Longrightarrow> val v ls m \<le> val v ls (record_all call obs m)"
proof (induction obs arbitrary: m)
  case (Cons ob obs)
  have "val v ls m \<le> val v ls (fold call (metric_calls ob) m)" by (rule counter_call [OF Cons.prems])
  also have "\<dots> \<le> val v ls (record_all call (ob # obs) m)" using Cons.IH [OF Cons.prems] by simp
  finally show ?case .
qed simp

text \<open>Buckets are cumulative.\<close>

lemma buckets_call:
  "b \<le> b' \<Longrightarrow> bucket v ls b m \<le> bucket v ls b' m \<Longrightarrow>
   bucket v ls b (fold call (metric_calls ob) m) \<le> bucket v ls b' (fold call (metric_calls ob) m)"
  by (cases ob) (auto simp: record_calls bucket_call normLabels_def)

lemma buckets_cumulative:
  assumes "b \<le> b'"
  shows "bucket v ls b (record_all call obs start) \<le> bucket v ls b' (record_all call obs start)"
proof -
  have "bucket v ls b m \<le> bucket v ls b' m \<Longrightarrow> bucket v ls b (record_all call obs m) \<le> bucket v ls b' (record_all call obs m)" for m
    by (induction obs arbitrary: m) (simp_all add: buckets_call [OF assms])
  then show ?thesis by (simp add: bucket_start)
qed

end

text \<open>A registry that keeps the values in maps.\<close>

record sample_registry =
  sr_val :: "metric_vec \<Rightarrow> string list \<Rightarrow> int"
  sr_samples :: "(metric_vec \<times> string list \<times> duration) list"

definition sr_start :: sample_registry where
  "sr_start = \<lparr>sr_val = (\<lambda>v ls. 0), sr_samples = []\<rparr>"

definition sr_bump :: "metric_vec \<Rightarrow> string list \<Rightarrow> int \<Rightarrow> sample_registry \<Rightarrow> sample_registry" where
  "sr_bump u k x m = m\<lparr>sr_val := (sr_val m)(u := (sr_val m u)(k := x))\<rparr>"

primrec sr_call :: "metric_call \<Rightarrow> sample_registry \<Rightarrow> sample_registry" where
  "sr_call (Inc u k) m = sr_bump u k (sr_val m u k + 1) m"
| "sr_call (Dec u k) m = sr_bump u k (sr_val m u k - 1) m"
| "sr_call (SetTo u k x) m = sr_bump u k x m"
| "sr_call (ObserveIn u k d) m = m\<lparr>sr_samples := (u, k, d) # sr_samples m\<rparr>"

definition sr_bucket :: "metric_vec \<Rightarrow> string list \<Rightarrow> int \<Rightarrow> sample_registry \<Rightarrow> nat" where
  "sr_bucket v ls b m = length (filter (\<lambda>(u, k, d). u = v \<and> k = ls \<and> d \<le> b * 1000000000) (sr_samples m))"

interpretation sr: prometheus sr_call "\<lambda>v ls m. sr_val m v ls" sr_bucket sr_start
proof
  fix c v ls m b
  show "sr_val (sr_call c m) v ls = (case c of
        Inc u k \<Rightarrow> sr_val m v ls + of_bool (u = v \<and> k = ls)
      | Dec u k \<Rightarrow> sr_val m v ls - of_bool (u = v \<and> k = ls)
      | SetTo u k x \<Rightarrow> if u = v \<and> k = ls then x else sr_val m v ls
      | ObserveIn u k d \<Rightarrow> sr_val m v ls)"
    by (cases c) (auto simp: sr_bump_def)
  show "sr_bucket v ls b (sr_call c m) = sr_bucket v ls b m + (case c of
        ObserveIn u k d \<Rightarrow> of_bool (u = v \<and> k = ls \<and> d \<le> b * 1000000000) | _ \<Rightarrow> 0)"
    by (cases c) (auto simp: sr_bump_def sr_bucket_def)
qed (simp_all add: sr_start_def sr_bucket_def)

section \<open>What the collectors export\<close>

text \<open>
  A specification without calls: which recorded observations a series counts. \<open>counted v ls ob\<close> says
  whether \<open>ob\<close> raises the counter \<open>v\<close> under the labels \<open>ls\<close>, \<open>timed ls ob\<close> gives the duration \<open>ob\<close> adds to
  the histogram under \<open>ls\<close>.
\<close>

definition counted :: "metric_vec \<Rightarrow> string list \<Rightarrow> observation \<Rightarrow> bool" where
  "counted v ls ob \<longleftrightarrow> (case ob of
     RecordSignalReceived t \<Rightarrow> v = SignalsReceived \<and> ls = [orUnknown t]
   | RecordSignalDeduplicated t \<Rightarrow> v = SignalsDeduplicated \<and> ls = [orUnknown t]
   | RecordIncidentDetecting t s \<Rightarrow> v = IncidentsDetecting \<and> ls = [orUnknown t, orUnknown s]
   | RecordIncidentActivated t s d \<Rightarrow> v = IncidentsActivated \<and> ls = [orUnknown t, orUnknown s]
   | RecordIncidentResolved t s p d \<Rightarrow> v = IncidentsResolved \<and> ls = [orUnknown t, orUnknown s]
   | KubeEvent a b c d \<Rightarrow> False)"

definition timed :: "string list \<Rightarrow> observation \<Rightarrow> duration option" where
  "timed ls ob = (case ob of
     RecordIncidentActivated t s d \<Rightarrow> if 0 < d \<and> ls = [''detecting'', ''active''] then Some d else None
   | RecordIncidentResolved t s p d \<Rightarrow> if 0 < d \<and> ls = [normPhase p, ''resolved''] then Some d else None
   | _ \<Rightarrow> None)"

definition count_of :: "metric_vec \<Rightarrow> string list \<Rightarrow> observation list \<Rightarrow> int" where
  "count_of v ls obs = int (length (filter (counted v ls) obs))"

lemma count_of_Cons: "count_of v ls (ob # obs) = of_bool (counted v ls ob) + count_of v ls obs"
  by (simp add: count_of_def)

context prometheus
begin

lemma counter_step:
  assumes "v \<noteq> ActiveIncidents"
  shows "val v ls (fold call (metric_calls ob) m) = val v ls m + of_bool (counted v ls ob)"
  using assms by (cases ob) (auto simp: record_calls val_call normLabels_def counted_def)

lemma counter_exact:
  assumes "v \<noteq> ActiveIncidents"
  shows "val v ls (record_all call obs m) = val v ls m + count_of v ls obs"
proof (induction obs arbitrary: m)
  case (Cons ob obs)
  then show ?case by (simp add: counter_step [OF assms] count_of_Cons)
qed (simp add: count_of_def)

lemma gauge_exact:
  "val ActiveIncidents ls (record_all call obs m) =
     val ActiveIncidents ls m + count_of IncidentsDetecting ls obs - count_of IncidentsResolved ls obs"
  using gauge_balance [of ls obs m] by (simp add: counter_exact)

lemma bucket_step:
  "bucket IncidentTransitionSeconds ls b (fold call (metric_calls ob) m) = bucket IncidentTransitionSeconds ls b m +
    of_bool (\<exists>d. timed ls ob = Some d \<and> d \<le> b * second)"
  by (cases ob) (auto simp: record_calls bucket_call normLabels_def timed_def second_def)

lemma bucket_exact:
  "bucket IncidentTransitionSeconds ls b (record_all call obs m) = bucket IncidentTransitionSeconds ls b m +
    length (filter (\<lambda>ob. \<exists>d. timed ls ob = Some d \<and> d \<le> b * second) obs)"
  by (induction obs arbitrary: m) (simp_all add: bucket_step)

end

section \<open>What the operations record\<close>

text \<open>
  The gauge follows the reports as far as the operations record what they do. Two do not: reopening
  a report records no new incident, although its next resolution is counted; and a resolution is
  recorded before its status patch, so that one whose patch is refused is counted too.
\<close>

lemma mem_observe_log: "mw_log (fold (\<lambda>ob w. k_observe mem_client w ob) obs w) = mw_log w @ obs"
  by (induction obs arbitrary: w) (simp_all add: mem_client_sel)

lemma mem_patch_both_log:
  assumes "re_client E = mem_client"
  shows "mw_log (snd (patch_both E m1 m2 r changed upd w)) = mw_log w"
  using assms by (auto simp: patch_both_def mem_client_def mem_put_def split: option.split if_split sum.split prod.split)

lemma reopenIncident_uncounted:
  assumes "re_client E = mem_client" "reopenIncident E r i fp h st = (None, st')"
  shows "\<exists>obs. mw_log (rp_world st') = mw_log (rp_world st) @ obs \<and> count_of v ls obs = 0"
proof -
  obtain r' w where p: "patch_both E ''failed to patch IncidentReport metadata on reopen''
      ''failed to patch IncidentReport status on reopen'' r (reopen_meta E i fp h r)
      (reopen_status i (targetIncidentType r i)) (rp_world st) = (Inr r', w)"
    using assms(2) by (auto simp: reopenIncident_def split: sum.splits prod.splits)
  have w: "mw_log w = mw_log (rp_world st)" using mem_patch_both_log [OF assms(1)] p by (metis snd_conv)
  define obs where "obs = record_event E ''IncidentReopened'' ''Reopen'' (''Incident re-opened: '' @ in_Summary i)"
  have "mw_log (rp_world st') = mw_log (rp_world st) @ obs"
    using assms(2) p w by (auto simp: reopenIncident_def observe_def assms(1) mem_observe_log obs_def)
  moreover have "count_of v ls obs = 0" by (simp add: obs_def record_event_def count_of_def counted_def)
  ultimately show ?thesis by blast
qed

definition refusing_rec :: "mem_world rec_env" where
  "refusing_rec = mem_rec\<lparr>rv_client := mem_client\<lparr>k_patch_status := (\<lambda>w b m. (Inl (KubeError ''refused''), w))\<rparr>\<rparr>"

lemma refused_resolution_counted:
  fixes w :: mem_world
  assumes "report_phase r \<noteq> ''Resolved''" and answer_def: "answer = transitionToResolved refusing_rec now r reason w"
  defines "ls \<equiv> normLabels (st_IncidentType (ir_Status r)) (st_Severity (ir_Status r))"
  shows "fst (snd answer) \<noteq> None" "mw_reports (snd (snd answer)) = mw_reports w"
    "count_of IncidentsResolved ls (mw_log (snd (snd answer))) = count_of IncidentsResolved ls (mw_log w) + 1"
proof -
  have answer: "answer = (0, Some (rec_fail ''failed to resolve IncidentReport'' r (KubeError ''refused'')),
      fold (\<lambda>ob w. k_observe mem_client w ob) (snd (MarkResolved (ir_Status r) now reason)) w)"
    by (simp add: answer_def transitionToResolved_def refusing_rec_def rec_observe_def case_prod_unfold Let_def)
  have reps: "mw_reports (fold (\<lambda>ob w. k_observe mem_client w ob) obs w) = mw_reports w" for obs
    by (induction obs arbitrary: w) (simp_all add: mem_client_sel)
  have "count_of IncidentsResolved ls (xs @ snd (MarkResolved (ir_Status r) now reason)) =
      count_of IncidentsResolved ls xs + 1" for xs
    using assms(1) by (simp add: count_of_def counted_def MarkResolved_def Let_def ls_def normLabels_def)
  then show "fst (snd answer) \<noteq> None" "mw_reports (snd (snd answer)) = mw_reports w"
    "count_of IncidentsResolved ls (mw_log (snd (snd answer))) = count_of IncidentsResolved ls (mw_log w) + 1"
    by (simp_all add: answer reps mem_observe_log)
qed

section \<open>Properties\<close>

text \<open>C11.
  For a Prometheus client that follows the laws of the locale, and any observations recorded from the
  start of the process, in any order: no call panics on its labels or its kind; each counter is, per
  label values, the number of observations of its kind whose values are those labels, an empty value
  read as \<open>unknown\<close>; the gauge of active incidents is the incidents recorded as new less those recorded
  as resolved under the same labels; and each bucket of the histogram is the number of transitions
  with a positive duration up to its bound, under their phases.
\<close>

theorem metrics_exact:
  assumes "prometheus call val bucket start"
  shows "list_all well_typed (concat (map metric_calls obs)) \<and>
    val v ls (record_all call obs start) =
      (if v = ActiveIncidents then count_of IncidentsDetecting ls obs - count_of IncidentsResolved ls obs
       else count_of v ls obs) \<and>
    bucket IncidentTransitionSeconds ls b (record_all call obs start) =
      length (filter (\<lambda>ob. \<exists>d. timed ls ob = Some d \<and> d \<le> b * second) obs)"
proof -
  have "list_all well_typed (concat (map metric_calls obs))"
    using calls_well_typed by (auto simp: list_all_iff)
  then show ?thesis
    using prometheus.gauge_exact [OF assms] prometheus.counter_exact [OF assms] prometheus.bucket_exact [OF assms]
      prometheus.val_start [OF assms] prometheus.bucket_start [OF assms] by simp
qed

text \<open>An incident that was reopened once and resolved again leaves the gauge at minus one.\<close>

theorem metrics_exact_witness:
  "sr_val (record_all sr_call [RecordIncidentDetecting ''OOMKilled'' [], RecordIncidentResolved ''OOMKilled'' [] ''Active'' (40 * second),
       KubeEvent ''Warning'' ''IncidentReopened'' ''Reopen'' [], RecordIncidentResolved ''OOMKilled'' [] ''Detecting'' 0] sr_start)
     ActiveIncidents [''OOMKilled'', ''unknown''] = -1 \<and>
   sr_bucket IncidentTransitionSeconds [''active'', ''resolved''] 60 (record_all sr_call
     [RecordIncidentDetecting ''OOMKilled'' [], RecordIncidentResolved ''OOMKilled'' [] ''Active'' (40 * second),
       KubeEvent ''Warning'' ''IncidentReopened'' ''Reopen'' [], RecordIncidentResolved ''OOMKilled'' [] ''Detecting'' 0] sr_start) = 1"
proof -
  let ?obs = "[RecordIncidentDetecting ''OOMKilled'' [], RecordIncidentResolved ''OOMKilled'' [] ''Active'' (40 * second),
       KubeEvent ''Warning'' ''IncidentReopened'' ''Reopen'' [], RecordIncidentResolved ''OOMKilled'' [] ''Detecting'' 0]"
  have "sr_val (record_all sr_call ?obs sr_start) ActiveIncidents [''OOMKilled'', ''unknown''] =
      count_of IncidentsDetecting [''OOMKilled'', ''unknown''] ?obs - count_of IncidentsResolved [''OOMKilled'', ''unknown''] ?obs"
    using metrics_exact [OF sr.prometheus_axioms, of ?obs ActiveIncidents "[''OOMKilled'', ''unknown'']"] by simp
  moreover have "sr_bucket IncidentTransitionSeconds [''active'', ''resolved''] 60 (record_all sr_call ?obs sr_start) =
      length (filter (\<lambda>ob. \<exists>d. timed [''active'', ''resolved''] ob = Some d \<and> d \<le> 60 * second) ?obs)"
    using metrics_exact [OF sr.prometheus_axioms, of ?obs _ "[''active'', ''resolved'']" 60] by blast
  ultimately show ?thesis
    by (simp add: count_of_def counted_def timed_def orUnknown_def labelUnknown_def normPhase_def second_def)
qed

end
