(* ===== verification/Dashboard_Serve.thy ===== *)
theory Dashboard_Serve
  imports Dashboard_Api Agent
begin

text \<open>
  Serving the dashboard: the routes (\<open>newMux\<close> of \<open>internal/dashboard/server.go\<close>), the server with
  its options, the rendering of reports (\<open>report.go\<close>) and the live stream of correlated events
  (\<open>handleStream\<close> of \<open>handlers_extra.go\<close>) as a machine that interleaves with the other users of the
  shared buffer.
\<close>

section \<open>Routes\<close>

datatype endpoint = StaticFiles | StaticStripped | EpIncidents | EpIncidentDetail | EpRules | EpStats | EpTimeline
  | EpTopology | EpServiceGraph | EpResource | EpLogs | EpAgents | EpTraceSummary | EpPods | EpStream | EpTrace
  | EpClusterReport

definition newMux :: "(string \<times> endpoint) list" where
  "newMux = [(''/static/'', StaticStripped), (''/'', StaticFiles),
     (''/api/incidents'', EpIncidents), (''/api/incidents/'', EpIncidentDetail), (''/api/rules'', EpRules),
     (''/api/stats'', EpStats), (''/api/timeline'', EpTimeline), (''/api/topology'', EpTopology),
     (''/api/service-graph'', EpServiceGraph), (''/api/resources/'', EpResource), (''/api/logs'', EpLogs),
     (''/api/agents'', EpAgents), (''/api/trace-summary'', EpTraceSummary), (''/api/pods'', EpPods),
     (''/api/stream'', EpStream), (''/api/traces/'', EpTrace), (''/api/report'', EpClusterReport)]"

text \<open>The multiplexer of the standard library on a clean path: a pattern that ends in a slash
  matches the paths below it, another one only itself; the longest match wins; a path whose
  directory is registered, but not the path itself, is redirected to it.\<close>

datatype mux_answer = Serve endpoint | RedirectTo string | NoRoute

definition subtree :: "string \<Rightarrow> bool" where
  "subtree pat \<longleftrightarrow> pat \<noteq> [] \<and> last pat = CHR ''/''"

definition pattern_matches :: "string \<Rightarrow> string \<Rightarrow> bool" where
  "pattern_matches pat path \<longleftrightarrow> pat = path \<or> subtree pat \<and> prefix pat path"

fun longest_match :: "(string \<times> endpoint) list \<Rightarrow> string \<Rightarrow> (string \<times> endpoint) option \<Rightarrow> (string \<times> endpoint) option" where
  "longest_match [] path best = best"
| "longest_match ((pat, h) # ps) path best = longest_match ps path
     (if pattern_matches pat path \<and> (case best of None \<Rightarrow> True | Some (b, _) \<Rightarrow> length b < length pat) then Some (pat, h) else best)"

definition mux_route :: "(string \<times> endpoint) list \<Rightarrow> string \<Rightarrow> mux_answer" where
  "mux_route mux path =
     (if map_of mux path = None \<and> map_of mux (path @ ''/'') \<noteq> None then RedirectTo (path @ ''/'')
      else case longest_match mux path None of None \<Rightarrow> NoRoute | Some (_, h) \<Rightarrow> Serve h)"

section \<open>The server and its options\<close>

text \<open>The optional parts: the typed Kubernetes client, the correlation buffer, the Jaeger client.\<close>

record ('k, 'j) dash_server =
  sv_addr :: string
  sv_k8s :: "'k option"
  sv_buffer :: bool
  sv_jc :: "'j option"
  sv_cacheTTL :: duration

definition dash_NewServer :: "string \<Rightarrow> ('k, 'j) dash_server" where
  "dash_NewServer addr = \<lparr>sv_addr = addr, sv_k8s = None, sv_buffer = False, sv_jc = None, sv_cacheTTL = defaultCacheTTL\<rparr>"

definition WithKubernetesClient :: "'k \<Rightarrow> ('k, 'j) dash_server \<Rightarrow> ('k, 'j) dash_server" where
  "WithKubernetesClient k s = s\<lparr>sv_k8s := Some k\<rparr>"

definition WithBuffer :: "('k, 'j) dash_server \<Rightarrow> ('k, 'j) dash_server" where
  "WithBuffer s = s\<lparr>sv_buffer := True\<rparr>"

definition WithJaegerClient :: "'j \<Rightarrow> ('k, 'j) dash_server \<Rightarrow> ('k, 'j) dash_server" where
  "WithJaegerClient c s = s\<lparr>sv_jc := Some c\<rparr>"

section \<open>Reports\<close>

text \<open>The template engine answers with the page or an error; nothing is written before it is done.\<close>

definition renderReport :: "(string \<Rightarrow> 'v \<Rightarrow> string + string) \<Rightarrow> string \<Rightarrow> string \<Rightarrow> string \<Rightarrow> 'v \<Rightarrow> http_page" where
  "renderReport execute download tmplName downloadName data = (case execute tmplName data of
     Inl _ \<Rightarrow> \<lparr>hp_Status = 500, hp_Headers = [(''Content-Type'', ''text/plain; charset=utf-8'')],
                 hp_Body = ''failed to render report'' @ [CHR 0x0A]\<rparr>
   | Inr page \<Rightarrow> \<lparr>hp_Status = 200,
       hp_Headers = (''Content-Type'', ''text/html; charset=utf-8'') #
         (if download = ''1'' then [(''Content-Disposition'', ''attachment; filename='' @ quoted downloadName)] else []),
       hp_Body = page\<rparr>)"

definition writeIncidentReport ::
    "dash_env \<Rightarrow> (string \<Rightarrow> gotime \<Rightarrow> string) \<Rightarrow> (string \<Rightarrow> incident_view \<Rightarrow> string + string) \<Rightarrow> gotime \<Rightarrow> string \<Rightarrow> incident_report \<Rightarrow> http_page" where
  "writeIncidentReport D fmt execute now download item =
     (let view = buildIncidentReportView D fmt item now
      in renderReport execute download ''incident'' (rm_DownloadName (iv_Meta view)) view)"

section \<open>The live stream\<close>

text \<open>A connection: \<open>Connected\<close> before the replay, \<open>Replayed\<close> before the subscription, \<open>Streaming\<close> in the
  loop. \<open>sg_out\<close> is what the client has been sent.\<close>

datatype stream_phase = Connected | Replayed | Streaming | Closed

record stream =
  sg_buffer :: buffer
  sg_phase :: stream_phase
  sg_out :: "string list"

definition keepalive :: string where
  "keepalive = '': keepalive'' @ [CHR 0x0A, CHR 0x0A]"

text \<open>The conditions under which \<open>handleStream\<close> answers with an error instead.\<close>

definition stream_refused :: "string \<Rightarrow> bool \<Rightarrow> bool \<Rightarrow> (string \<times> nat) option" where
  "stream_refused method hasBuffer flusher =
     (if method \<noteq> ''GET'' then Some (''method not allowed'', 405)
      else if \<not> hasBuffer then Some (''stream unavailable: buffer not configured'', 503)
      else if \<not> flusher then Some (''streaming unsupported'', 500) else None)"

text \<open>What others do to the buffer, and the steps of the handler; \<open>Send\<close> and \<open>Heartbeat\<close> carry
  whether the write reached the client, after a failure the handler returns.\<close>

datatype stream_action =
    BufferAdd gotime correlator_event
  | BufferRead gotime
  | OtherSubscribe nat nat
  | OtherUnsubscribe nat
  | Replay gotime
  | SubscribeNow
  | Send bool
  | Heartbeat bool
  | Cancelled

definition stream_queue :: "nat \<Rightarrow> buffer \<Rightarrow> entry list" where
  "stream_queue ch b = (case find (\<lambda>s. sub_ch s = ch) (bf_subs b) of None \<Rightarrow> [] | Some s \<Rightarrow> sub_queue s)"

definition dequeue :: "nat \<Rightarrow> buffer \<Rightarrow> buffer" where
  "dequeue ch b = b\<lparr>bf_subs := map (\<lambda>s. if sub_ch s = ch then s\<lparr>sub_queue := tl (sub_queue s)\<rparr> else s) (bf_subs b)\<rparr>"

definition stream_close :: "nat \<Rightarrow> stream \<Rightarrow> stream" where
  "stream_close ch s = s\<lparr>sg_phase := Closed, sg_buffer := Unsubscribe ch (sg_buffer s)\<rparr>"

definition stream_step :: "(gotime \<Rightarrow> string) \<Rightarrow> nat \<Rightarrow> stream_action \<Rightarrow> stream \<Rightarrow> stream option" where
  "stream_step stamp ch a s = (case a of
     BufferAdd now e \<Rightarrow> Some (s\<lparr>sg_buffer := buf_Add now e (sg_buffer s)\<rparr>)
   | BufferRead now \<Rightarrow> Some (s\<lparr>sg_buffer := buf_purgeOld now (sg_buffer s)\<rparr>)
   | OtherSubscribe c cap \<Rightarrow> if c = ch then None else Some (s\<lparr>sg_buffer := Subscribe c cap (sg_buffer s)\<rparr>)
   | OtherUnsubscribe c \<Rightarrow> if c = ch then None else Some (s\<lparr>sg_buffer := Unsubscribe c (sg_buffer s)\<rparr>)
   | Replay now \<Rightarrow>
       if sg_phase s \<noteq> Connected then None
       else let (out, b) = stream_replay stamp now (sg_buffer s) in Some \<lparr>sg_buffer = b, sg_phase = Replayed, sg_out = sg_out s @ out\<rparr>
   | SubscribeNow \<Rightarrow>
       if sg_phase s \<noteq> Replayed then None
       else Some (s\<lparr>sg_phase := Streaming, sg_buffer := stream_subscribe ch (sg_buffer s)\<rparr>)
   | Send ok \<Rightarrow>
       if sg_phase s \<noteq> Streaming then None
       else (case stream_queue ch (sg_buffer s) of [] \<Rightarrow> None
             | e # _ \<Rightarrow> let s = s\<lparr>sg_buffer := dequeue ch (sg_buffer s)\<rparr>
                 in Some (if ok then s\<lparr>sg_out := sg_out s @ [writeSSEEntry stamp e]\<rparr> else stream_close ch s))
   | Heartbeat ok \<Rightarrow>
       if sg_phase s \<noteq> Streaming then None
       else Some (if ok then s\<lparr>sg_out := sg_out s @ [keepalive]\<rparr> else stream_close ch s)
   | Cancelled \<Rightarrow> if sg_phase s \<noteq> Streaming then None else Some (stream_close ch s))"

fun stream_run :: "(gotime \<Rightarrow> string) \<Rightarrow> nat \<Rightarrow> stream_action list \<Rightarrow> stream \<Rightarrow> stream option" where
  "stream_run stamp ch [] s = Some s"
| "stream_run stamp ch (a # as) s = (case stream_step stamp ch a s of None \<Rightarrow> None | Some s \<Rightarrow> stream_run stamp ch as s)"

text \<open>The entries added while the connection is subscribed, with whether its channel had room.\<close>

definition offer :: "nat \<Rightarrow> stream_action \<Rightarrow> stream \<Rightarrow> (entry \<times> bool) list" where
  "offer ch a s = (case a of
     BufferAdd now e \<Rightarrow>
       if sg_phase s = Streaming
       then [(\<lparr>en_Event = e, en_AddedAt = now\<rparr>, length (stream_queue ch (sg_buffer s)) < 32)] else []
   | _ \<Rightarrow> [])"

fun offered :: "(gotime \<Rightarrow> string) \<Rightarrow> nat \<Rightarrow> stream_action list \<Rightarrow> stream \<Rightarrow> (entry \<times> bool) list" where
  "offered stamp ch [] s = []"
| "offered stamp ch (a # as) s = (case stream_step stamp ch a s of None \<Rightarrow> [] | Some s' \<Rightarrow> offer ch a s @ offered stamp ch as s')"

definition accepted_entries :: "(entry \<times> bool) list \<Rightarrow> entry list" where
  "accepted_entries os = map fst (filter snd os)"

definition stream_events :: "stream \<Rightarrow> string list" where
  "stream_events s = filter (\<lambda>t. t \<noteq> keepalive) (sg_out s)"

section \<open>Lemmas on routes and reports\<close>

lemma newMux_routes:
  "mux_route newMux (''/api/incidents/'' @ rest) = Serve EpIncidentDetail"
  "mux_route newMux (''/api/resources/'' @ rest) = Serve EpResource"
  "mux_route newMux (''/api/traces/'' @ rest) = Serve EpTrace"
  by (simp_all add: mux_route_def newMux_def pattern_matches_def subtree_def)

lemma newMux_exact: "list_all (\<lambda>(pat, h). mux_route newMux pat = Serve h) newMux"
  by (simp add: newMux_def mux_route_def pattern_matches_def subtree_def)

lemma newMux_distinct: "distinct (map fst newMux)"
  by (simp add: newMux_def)

text \<open>A rendering error never reaches the client as a half-written page.\<close>

lemma renderReport_whole:
  "hp_Status (renderReport execute d t n v) = 200 \<Longrightarrow> execute t v = Inr (hp_Body (renderReport execute d t n v))"
  by (simp add: renderReport_def split: sum.splits)

lemma attachment_name: "list_all safe_file_char (fmt ''20060102-150405'' now) \<Longrightarrow> list_all safe_file_char (incidentDownloadName fmt ns name now)"
proof -
  have *: "list_all safe_file_char (sanitizeFilePart s)" for s
    by (auto simp: sanitizeFilePart_def Let_def list_all_iff safe_file_char_def is_lower_def)
  show "list_all safe_file_char (fmt ''20060102-150405'' now) \<Longrightarrow> list_all safe_file_char (incidentDownloadName fmt ns name now)"
    using * [of ns] * [of name] by (simp add: incidentDownloadName_def safe_file_char_def is_lower_def)
qed

section \<open>Lemmas on the stream\<close>

definition subscribed :: "nat \<Rightarrow> buffer \<Rightarrow> bool" where
  "subscribed ch b \<longleftrightarrow> (\<exists>s. find (\<lambda>s. sub_ch s = ch) (bf_subs b) = Some s \<and> sub_cap s = 32 \<and> length (sub_queue s) \<le> 32)"

lemma find_map_sub:
  "(\<And>s. sub_ch (f s) = sub_ch s) \<Longrightarrow> find (\<lambda>s. sub_ch s = ch) (map f ss) = map_option f (find (\<lambda>s. sub_ch s = ch) ss)"
  by (induction ss) simp_all

lemma find_filter_other: "c \<noteq> ch \<Longrightarrow> find (\<lambda>s. sub_ch s = ch) (filter (\<lambda>s. sub_ch s \<noteq> c) ss) = find (\<lambda>s. sub_ch s = ch) ss"
  by (induction ss) auto

lemma find_append_other: "sub_ch x \<noteq> ch \<Longrightarrow> find (\<lambda>s. sub_ch s = ch) (ss @ [x]) = find (\<lambda>s. sub_ch s = ch) ss"
  by (induction ss) auto

lemma find_fresh: "ch \<notin> sub_ch ` set ss \<Longrightarrow> find (\<lambda>s. sub_ch s = ch) (ss @ xs) = find (\<lambda>s. sub_ch s = ch) xs"
  by (induction ss) auto

lemma queue_Add:
  assumes "subscribed ch b"
  shows "subscribed ch (buf_Add now e b)"
    and "stream_queue ch (buf_Add now e b) = stream_queue ch b @
      (if length (stream_queue ch b) < 32 then [\<lparr>en_Event = e, en_AddedAt = now\<rparr>] else [])"
proof -
  obtain s where s: "find (\<lambda>s. sub_ch s = ch) (bf_subs b) = Some s" "sub_cap s = 32" "length (sub_queue s) \<le> 32"
    using assms by (auto simp: subscribed_def)
  let ?en = "\<lparr>en_Event = e, en_AddedAt = now\<rparr>"
  have f: "find (\<lambda>s. sub_ch s = ch) (bf_subs (buf_Add now e b)) = Some (deliver ?en s)"
    using s(1) by (simp add: buf_Add_def Let_def find_map_sub)
  have "sub_cap (deliver ?en s) = 32" "length (sub_queue (deliver ?en s)) \<le> 32" using s(2,3) by (simp_all add: deliver_def)
  with f show "subscribed ch (buf_Add now e b)" by (simp add: subscribed_def)
  show "stream_queue ch (buf_Add now e b) = stream_queue ch b @ (if length (stream_queue ch b) < 32 then [?en] else [])"
    using s by (simp add: stream_queue_def f deliver_def)
qed

lemma queue_purge: "stream_queue ch (buf_purgeOld now b) = stream_queue ch b" "subscribed ch (buf_purgeOld now b) \<longleftrightarrow> subscribed ch b"
  by (simp_all add: subscribed_def stream_queue_def)

lemma queue_Subscribe:
  assumes "c \<noteq> ch"
  shows "stream_queue ch (Subscribe c cap b) = stream_queue ch b" "subscribed ch (Subscribe c cap b) \<longleftrightarrow> subscribed ch b"
  using assms by (simp_all add: subscribed_def stream_queue_def Subscribe_def find_append_other)

lemma queue_Unsubscribe:
  assumes "c \<noteq> ch"
  shows "stream_queue ch (Unsubscribe c b) = stream_queue ch b" "subscribed ch (Unsubscribe c b) \<longleftrightarrow> subscribed ch b"
  using assms by (simp_all add: subscribed_def stream_queue_def Unsubscribe_def find_filter_other)

lemma queue_dequeue:
  assumes "subscribed ch b"
  shows "subscribed ch (dequeue ch b)" "stream_queue ch (dequeue ch b) = tl (stream_queue ch b)"
proof -
  obtain s where s: "find (\<lambda>s. sub_ch s = ch) (bf_subs b) = Some s" "sub_cap s = 32" "length (sub_queue s) \<le> 32"
    using assms by (auto simp: subscribed_def)
  have "sub_ch s = ch" using s(1) by (auto simp: find_Some_iff)
  then have "find (\<lambda>s. sub_ch s = ch) (bf_subs (dequeue ch b)) = Some (s\<lparr>sub_queue := tl (sub_queue s)\<rparr>)"
    using s(1) by (simp add: dequeue_def find_map_sub)
  with s show "subscribed ch (dequeue ch b)" "stream_queue ch (dequeue ch b) = tl (stream_queue ch b)"
    by (simp_all add: subscribed_def stream_queue_def)
qed

lemma subscribe_fresh:
  assumes "ch \<notin> sub_ch ` set (bf_subs b)"
  shows "subscribed ch (stream_subscribe ch b)" "stream_queue ch (stream_subscribe ch b) = []"
proof -
  have "find (\<lambda>s. sub_ch s = ch) (bf_subs b @ xs) = find (\<lambda>s. sub_ch s = ch) xs" for xs
    using assms by (rule find_fresh)
  then show "subscribed ch (stream_subscribe ch b)" "stream_queue ch (stream_subscribe ch b) = []"
    using assms by (simp_all add: subscribed_def stream_queue_def stream_subscribe_def Subscribe_def)
qed

lemmas queue_rules = queue_Add queue_purge queue_Subscribe queue_Unsubscribe queue_dequeue

lemma SSE_not_keepalive: "writeSSEEntry stamp e \<noteq> keepalive"
  by (simp add: writeSSEEntry_def keepalive_def Let_def)

lemma closed_run:
  assumes "stream_run stamp ch as s = Some s'" "sg_phase s = Closed"
  shows "sg_out s' = sg_out s \<and> sg_phase s' = Closed \<and> offered stamp ch as s = []"
  using assms
proof (induction as arbitrary: s)
  case (Cons a as)
  then obtain s1 where step: "stream_step stamp ch a s = Some s1" and run: "stream_run stamp ch as s1 = Some s'"
    by (auto split: option.splits)
  have "sg_phase s1 = Closed" "sg_out s1 = sg_out s" "offer ch a s = []"
    using step Cons.prems(2) by (auto simp: stream_step_def offer_def split: stream_action.splits if_splits)
  with Cons.IH [OF run] step show ?case by simp
qed simp

text \<open>In the loop, a step sends nothing or the first of the queue, and queues what is accepted, or
  closes the connection.\<close>

lemma streaming_step:
  assumes "stream_step stamp ch a s = Some s1" "sg_phase s = Streaming" "subscribed ch (sg_buffer s)"
  shows "(\<exists>j. sg_phase s1 = Streaming \<and> subscribed ch (sg_buffer s1) \<and> j \<le> length (stream_queue ch (sg_buffer s)) \<and>
      stream_events s1 = stream_events s @ map (writeSSEEntry stamp) (take j (stream_queue ch (sg_buffer s))) \<and>
      stream_queue ch (sg_buffer s1) = drop j (stream_queue ch (sg_buffer s)) @ accepted_entries (offer ch a s)) \<or>
    (sg_phase s1 = Closed \<and> sg_out s1 = sg_out s \<and> offer ch a s = [])"
proof (cases "\<exists>ok. a = Send ok")
  case True
  then obtain ok where a: "a = Send ok" by blast
  with assms(1,2) obtain e q where q: "stream_queue ch (sg_buffer s) = e # q"
    by (auto simp: stream_step_def split: list.splits)
  show ?thesis
  proof (cases ok)
    case True
    show ?thesis using assms queue_dequeue [OF assms(3)] SSE_not_keepalive [of stamp e]
      by (intro disjI1 exI [of _ 1]) (auto simp: a q True stream_step_def stream_events_def accepted_entries_def offer_def)
  qed (use assms in \<open>auto simp: a q stream_step_def offer_def stream_close_def Let_def\<close>)
next
  case False
  show ?thesis
  proof (cases "sg_phase s1 = Closed")
    case True
    then show ?thesis using assms(1,2) False
      by (auto simp: stream_step_def offer_def stream_close_def split: stream_action.splits if_splits)
  next
    case opn: False
    have "sg_phase s1 = Streaming \<and> subscribed ch (sg_buffer s1) \<and> stream_events s1 = stream_events s \<and>
        stream_queue ch (sg_buffer s1) = stream_queue ch (sg_buffer s) @ accepted_entries (offer ch a s)"
      using assms opn False
      by (cases a) (auto simp: stream_step_def offer_def stream_events_def accepted_entries_def queue_rules stream_close_def split: if_splits)
    then show ?thesis by (intro disjI1 exI [of _ 0]) simp
  qed
qed

lemma accepted_append: "accepted_entries (xs @ ys) = accepted_entries xs @ accepted_entries ys"
  by (simp add: accepted_entries_def)

lemma streaming_run:
  assumes "stream_run stamp ch as s = Some s'" "sg_phase s = Streaming" "subscribed ch (sg_buffer s)"
  shows "\<exists>k. stream_events s' = stream_events s @
      map (writeSSEEntry stamp) (take k (stream_queue ch (sg_buffer s) @ accepted_entries (offered stamp ch as s))) \<and>
    (sg_phase s' = Streaming \<longrightarrow> stream_queue ch (sg_buffer s') =
      drop k (stream_queue ch (sg_buffer s) @ accepted_entries (offered stamp ch as s)))"
  using assms
proof (induction as arbitrary: s)
  case Nil
  then show ?case by (intro exI [of _ 0]) (simp add: accepted_entries_def)
next
  case (Cons a as)
  then obtain s1 where step: "stream_step stamp ch a s = Some s1" and run: "stream_run stamp ch as s1 = Some s'"
    by (auto split: option.splits)
  let ?q = "stream_queue ch (sg_buffer s)" and ?acc = "accepted_entries (offered stamp ch as s1)"
  from streaming_step [OF step Cons.prems(2,3)] show ?case
  proof (elim disjE exE conjE)
    fix j
    assume p: "sg_phase s1 = Streaming" "subscribed ch (sg_buffer s1)" and j: "j \<le> length ?q"
      and ev: "stream_events s1 = stream_events s @ map (writeSSEEntry stamp) (take j ?q)"
      and q: "stream_queue ch (sg_buffer s1) = drop j ?q @ accepted_entries (offer ch a s)"
    obtain k where k: "stream_events s' = stream_events s1 @ map (writeSSEEntry stamp) (take k (stream_queue ch (sg_buffer s1) @ ?acc))"
        "sg_phase s' = Streaming \<longrightarrow> stream_queue ch (sg_buffer s') = drop k (stream_queue ch (sg_buffer s1) @ ?acc)"
      using Cons.IH [OF run p] by blast
    have all: "?q @ accepted_entries (offered stamp ch (a # as) s) = take j ?q @ (stream_queue ch (sg_buffer s1) @ ?acc)"
      using step by (simp add: q accepted_append)
    have tk: "take (j + k) (take j ?q @ zs) = take j ?q @ take k zs" "drop (j + k) (take j ?q @ zs) = drop k zs" for zs
      using j by (simp_all add: min_absorb2)
    show ?thesis unfolding all
      by (rule exI [of _ "j + k"], unfold tk) (use k(2) in \<open>simp only: k(1) ev map_append append_assoc simp_thms\<close>)
  next
    assume c: "sg_phase s1 = Closed" "sg_out s1 = sg_out s" "offer ch a s = []"
    then show ?thesis using closed_run [OF run c(1)] by (intro exI [of _ 0]) (simp add: stream_events_def)
  qed
qed

text \<open>As long as no more than its capacity is offered, the channel takes everything.\<close>

lemma offered_room:
  assumes "stream_run stamp ch as s = Some s'" "sg_phase s = Streaming" "subscribed ch (sg_buffer s)"
    and "length (stream_queue ch (sg_buffer s)) + length (offered stamp ch as s) \<le> 32"
  shows "accepted_entries (offered stamp ch as s) = map fst (offered stamp ch as s)"
  using assms
proof (induction as arbitrary: s)
  case (Cons a as)
  then obtain s1 where step: "stream_step stamp ch a s = Some s1" and run: "stream_run stamp ch as s1 = Some s'"
    by (auto split: option.splits)
  have room: "accepted_entries (offer ch a s) = map fst (offer ch a s)"
    using Cons.prems(4) step by (auto simp: offer_def accepted_entries_def split: stream_action.splits)
  from streaming_step [OF step Cons.prems(2,3)] show ?case
  proof (elim disjE exE conjE)
    fix j
    assume p: "sg_phase s1 = Streaming" "subscribed ch (sg_buffer s1)"
      and q: "stream_queue ch (sg_buffer s1) = drop j (stream_queue ch (sg_buffer s)) @ accepted_entries (offer ch a s)"
    have "length (stream_queue ch (sg_buffer s1)) + length (offered stamp ch as s1) \<le> 32"
      using Cons.prems(4) step by (simp add: q room)
    with Cons.IH [OF run p] room step show ?thesis by (simp add: accepted_append)
  next
    assume c: "sg_phase s1 = Closed"
    then show ?thesis using closed_run [OF run c] room step by (simp add: accepted_append accepted_entries_def)
  qed
qed (simp add: accepted_entries_def)

definition unsubscribed :: "nat \<Rightarrow> buffer \<Rightarrow> bool" where
  "unsubscribed ch b \<longleftrightarrow> ch \<notin> sub_ch ` set (bf_subs b)"

lemma unsubscribed_rules:
  "unsubscribed ch b \<Longrightarrow> unsubscribed ch (buf_Add now e b)"
  "unsubscribed ch b \<Longrightarrow> unsubscribed ch (buf_purgeOld now b)"
  "unsubscribed ch b \<Longrightarrow> c \<noteq> ch \<Longrightarrow> unsubscribed ch (Subscribe c cap b)"
  "unsubscribed ch b \<Longrightarrow> unsubscribed ch (Unsubscribe c b)"
  by (auto simp: unsubscribed_def buf_Add_def Let_def Subscribe_def Unsubscribe_def)

lemma replayed_step:
  assumes "stream_step stamp ch a s = Some s1" "sg_phase s = Replayed" "unsubscribed ch (sg_buffer s)"
  shows "sg_out s1 = sg_out s \<and> offer ch a s = [] \<and>
    (sg_phase s1 = Replayed \<and> unsubscribed ch (sg_buffer s1) \<or>
     sg_phase s1 = Streaming \<and> subscribed ch (sg_buffer s1) \<and> stream_queue ch (sg_buffer s1) = [])"
  using assms subscribe_fresh [of ch "sg_buffer s"]
  by (auto simp: stream_step_def offer_def unsubscribed_rules unsubscribed_def [symmetric]
      split: stream_action.splits if_splits)

lemma replayed_run:
  assumes "stream_run stamp ch as s = Some s'" "sg_phase s = Replayed" "unsubscribed ch (sg_buffer s)"
  shows "\<exists>k. stream_events s' = stream_events s @ map (writeSSEEntry stamp) (take k (accepted_entries (offered stamp ch as s))) \<and>
    (sg_phase s' = Streaming \<longrightarrow> stream_queue ch (sg_buffer s') = drop k (accepted_entries (offered stamp ch as s))) \<and>
    (length (offered stamp ch as s) \<le> 32 \<longrightarrow> accepted_entries (offered stamp ch as s) = map fst (offered stamp ch as s))"
  using assms
proof (induction as arbitrary: s)
  case (Cons a as)
  then obtain s1 where step: "stream_step stamp ch a s = Some s1" and run: "stream_run stamp ch as s1 = Some s'"
    by (auto split: option.splits)
  note st = replayed_step [OF step Cons.prems(2,3)]
  then have ev: "stream_events s1 = stream_events s" by (simp add: stream_events_def)
  have off: "offered stamp ch (a # as) s = offered stamp ch as s1" using step st by simp
  from st consider "sg_phase s1 = Replayed" "unsubscribed ch (sg_buffer s1)"
    | "sg_phase s1 = Streaming" "subscribed ch (sg_buffer s1)" "stream_queue ch (sg_buffer s1) = []" by blast
  then show ?case
  proof cases
    case 1
    then show ?thesis unfolding off using Cons.IH [OF run 1] ev by simp
  next
    case 2
    then show ?thesis unfolding off
      using streaming_run [OF run 2(1,2)] offered_room [OF run 2(1,2)] ev by fastforce
  qed
qed (simp add: accepted_entries_def)

section \<open>Properties\<close>

text \<open>C12.
  A client of the live stream, however its connection interleaves with signals, reads and other
  subscribers: apart from keep-alive comments it is sent the last twenty entries of the window at the
  time of the replay, followed by the entries added since the subscription for which its channel had
  room, in order and each once, those not yet sent being queued; and as long as no more than 32
  entries come while it is subscribed, none is dropped.
\<close>

theorem stream_exact:
  assumes "stream_run stamp ch (Replay now # as) s = Some s'"
    and "sg_phase s = Connected" "sg_out s = []" "ch \<notin> sub_ch ` set (bf_subs (sg_buffer s))"
  shows "let os = offered stamp ch (Replay now # as) s in
    \<exists>k. stream_events s' = map (writeSSEEntry stamp) (take_last 20 (fst (Snapshot now (sg_buffer s))) @ take k (accepted_entries os)) \<and>
      (sg_phase s' = Streaming \<longrightarrow> stream_queue ch (sg_buffer s') = drop k (accepted_entries os)) \<and>
      (length os \<le> 32 \<longrightarrow> accepted_entries os = map fst os)"
proof -
  let ?W = "writeSSEEntry stamp" and ?r = "take_last 20 (fst (Snapshot now (sg_buffer s)))"
  obtain s1 where step: "stream_step stamp ch (Replay now) s = Some s1" and run: "stream_run stamp ch as s1 = Some s'"
    using assms(1) by (auto split: option.splits)
  have s1: "sg_phase s1 = Replayed" "sg_out s1 = map ?W ?r" "sg_buffer s1 = snd (Snapshot now (sg_buffer s))"
    using step assms(2,3) by (auto simp: stream_step_def stream_replay_def case_prod_unfold Let_def)
  have "stream_events s1 = map ?W ?r"
    by (simp add: stream_events_def s1 filter_id_conv SSE_not_keepalive)
  moreover have "unsubscribed ch (sg_buffer s1)"
    using assms(4) by (simp add: s1 Snapshot_def Let_def unsubscribed_def)
  moreover have "offered stamp ch (Replay now # as) s = offered stamp ch as s1" by (simp add: step offer_def)
  ultimately show ?thesis using replayed_run [OF run s1(1)] unfolding Let_def by fastforce
qed

theorem stream_exact_witness:
  "let e = PodHealthyEvent zero_base; as = [BufferAdd 1 e, SubscribeNow, BufferAdd 2 e, Send True];
       s = \<lparr>sg_buffer = NewBuffer 300, sg_phase = Connected, sg_out = []\<rparr>
   in length (offered (\<lambda>t. []) 7 (Replay 0 # as) s) = 1 \<and>
      (\<exists>k. stream_events (the (stream_run (\<lambda>t. []) 7 (Replay 0 # as) s)) =
        map (writeSSEEntry (\<lambda>t. [])) (take k [\<lparr>en_Event = e, en_AddedAt = 2\<rparr>]))"
proof -
  let ?e = "PodHealthyEvent zero_base" and ?s = "\<lparr>sg_buffer = NewBuffer 300, sg_phase = Connected, sg_out = []\<rparr>"
  let ?as = "Replay 0 # [BufferAdd 1 ?e, SubscribeNow, BufferAdd 2 ?e, Send True]" and ?stamp = "\<lambda>t::gotime. []::char list"
  have off: "offered ?stamp 7 ?as ?s = [(\<lparr>en_Event = ?e, en_AddedAt = 2\<rparr>, True)]"
    by (simp add: stream_step_def stream_replay_def Snapshot_def buf_Add_def buf_purgeOld_def NewBuffer_def offer_def
        stream_queue_def stream_subscribe_def Subscribe_def deliver_def Let_def)
  obtain s' where run: "stream_run ?stamp 7 ?as ?s = Some s'"
    by (simp add: stream_step_def stream_replay_def Snapshot_def buf_Add_def buf_purgeOld_def NewBuffer_def
        stream_queue_def stream_subscribe_def Subscribe_def deliver_def Let_def time_before_def)
  have "fst (Snapshot 0 (sg_buffer ?s)) = []" by (simp add: Snapshot_def buf_purgeOld_def NewBuffer_def Let_def)
  then have "\<exists>k. stream_events s' = map (writeSSEEntry ?stamp) (take k [\<lparr>en_Event = ?e, en_AddedAt = 2\<rparr>])"
    using stream_exact [OF run] unfolding Let_def off by (fastforce simp: NewBuffer_def accepted_entries_def)
  then show ?thesis unfolding Let_def off run by simp
qed

end
