(* ===== verification/Helper_Copies.thy ===== *)
theory Helper_Copies
  imports Consumer
begin

text \<open>
  Functions that the packages keep their own copies of: the helpers of
  \<open>internal/correlator/consumer.go\<close>, \<open>mergeAffectedResources\<close> of \<open>internal/signals/enricher.go\<close>,
  \<open>ExtractBase\<close> of \<open>internal/rulengine/crd_engine.go\<close>, \<open>extractTraceID\<close> of
  \<open>internal/correlator/correlator.go\<close> and \<open>parseTraceIDCSV\<close> of \<open>internal/dashboard/server.go\<close>. Each copy
  is written out with its loops and proved equal to the function the development uses, so that
  a theorem about one holds of all.
\<close>

section \<open>Resources and pods\<close>

text \<open>The inner loop with its \<open>found\<close> flag, and the outer one.\<close>

fun resource_found :: "affected_resource list \<Rightarrow> affected_resource \<Rightarrow> bool" where
  "resource_found [] candidate = False"
| "resource_found (current # rest) candidate =
     (if ar_Kind current = ar_Kind candidate \<and> ar_Namespace current = ar_Namespace candidate \<and> ar_Name current = ar_Name candidate
      then True else resource_found rest candidate)"

fun merge_loop :: "affected_resource list \<Rightarrow> affected_resource list \<Rightarrow> affected_resource list" where
  "merge_loop out [] = out"
| "merge_loop out (candidate # incoming) =
     merge_loop (if \<not> resource_found out candidate then out @ [candidate] else out) incoming"

definition corr_mergeAffectedResources :: "affected_resource list \<Rightarrow> affected_resource list \<Rightarrow> affected_resource list" where
  "corr_mergeAffectedResources existing incoming = merge_loop existing incoming"

definition sig_mergeAffectedResources :: "affected_resource list \<Rightarrow> affected_resource list \<Rightarrow> affected_resource list" where
  "sig_mergeAffectedResources existing incoming = merge_loop existing incoming"

text \<open>The reporter's copy replaces an empty result by an empty slice.\<close>

definition trimAffectedResources :: "affected_resource list \<Rightarrow> affected_resource list" where
  "trimAffectedResources rs = (if length rs = 0 then [] else rs)"

definition rep_mergeAffectedResources :: "affected_resource list \<Rightarrow> affected_resource list \<Rightarrow> affected_resource list" where
  "rep_mergeAffectedResources existing incoming = trimAffectedResources (merge_loop existing incoming)"

fun affects_pod_loop :: "affected_resource list \<Rightarrow> string \<Rightarrow> string \<Rightarrow> bool" where
  "affects_pod_loop [] podName namespace = False"
| "affects_pod_loop (r # rs) podName namespace =
     (if ar_Kind r = ''Pod'' \<and> ar_Name r = podName \<and> ar_Namespace r = namespace then True
      else affects_pod_loop rs podName namespace)"

definition corr_incidentAffectsPod :: "incident_report \<Rightarrow> string \<Rightarrow> string \<Rightarrow> bool" where
  "corr_incidentAffectsPod report podName namespace =
     affects_pod_loop (st_AffectedResources (ir_Status report)) podName namespace"

fun ready_loop :: "kcondition list \<Rightarrow> bool" where
  "ready_loop [] = False"
| "ready_loop (c # cs) = (if kc_Type c = ''Ready'' then kc_Status c = ''True'' else ready_loop cs)"

definition corr_isPodCurrentlyReady :: "pod option \<Rightarrow> bool" where
  "corr_isPodCurrentlyReady p = (case p of None \<Rightarrow> False
     | Some p \<Rightarrow> if pod_Phase p \<noteq> ''Running'' then False else ready_loop (pod_Conditions p))"

lemma resource_found_covers: "resource_found out c \<longleftrightarrow> list_ex (\<lambda>current. same_resource current c) out"
  by (induction out) (auto simp: same_resource_def)

lemma merge_loop_merge: "merge_loop out incoming = mergeAffectedResources out incoming"
  by (induction incoming arbitrary: out) (simp_all add: mergeAffectedResources_def add_resource_def resource_found_covers)

lemma merge_copies:
  "corr_mergeAffectedResources = mergeAffectedResources"
  "sig_mergeAffectedResources = mergeAffectedResources"
  "rep_mergeAffectedResources = mergeAffectedResources"
  by (simp_all add: fun_eq_iff corr_mergeAffectedResources_def sig_mergeAffectedResources_def
      rep_mergeAffectedResources_def trimAffectedResources_def merge_loop_merge)

lemma corr_incidentAffectsPod: "corr_incidentAffectsPod = incidentAffectsPod"
proof -
  have "affects_pod_loop rs p n = list_ex (\<lambda>r. ar_Kind r = ''Pod'' \<and> ar_Name r = p \<and> ar_Namespace r = n) rs" for rs p n
    by (induction rs) auto
  then show ?thesis by (simp add: fun_eq_iff corr_incidentAffectsPod_def incidentAffectsPod_def)
qed

lemma corr_isPodCurrentlyReady: "corr_isPodCurrentlyReady (Some p) = isPodCurrentlyReady p"
proof -
  have "ready_loop cs = (case find (\<lambda>c. kc_Type c = ''Ready'') cs of None \<Rightarrow> False | Some c \<Rightarrow> kc_Status c = ''True'')" for cs
    by (induction cs) auto
  then show ?thesis by (simp add: corr_isPodCurrentlyReady_def isPodCurrentlyReady_def)
qed

section \<open>Logs, counters and severities\<close>

definition corr_trimTimeline :: "timeline_event list \<Rightarrow> timeline_event list" where
  "corr_trimTimeline tline =
     (if length tline \<le> MaxTimelineEntries then tline else drop (length tline - MaxTimelineEntries) tline)"

definition corr_trimSignals :: "string list \<Rightarrow> string list" where
  "corr_trimSignals sigs = (if length sigs \<le> MaxSignalEntries then sigs else drop (length sigs - MaxSignalEntries) sigs)"

definition corr_incrementCounter :: "string \<Rightarrow> string" where
  "corr_incrementCounter current =
     (if current = [] then ''1''
      else case atoi current of None \<Rightarrow> ''1'' | Some n \<Rightarrow> if n < 0 then ''1'' else itoa (wrap64 (n + 1)))"

text \<open>The rank as the map it is: an absent key reads as 0.\<close>

definition rank_map :: "string \<rightharpoonup> int" where
  "rank_map = [''P1'' \<mapsto> 4, ''P2'' \<mapsto> 3, ''P3'' \<mapsto> 2, ''P4'' \<mapsto> 1]"

definition rank_of :: "string \<Rightarrow> int" where
  "rank_of s = (case rank_map s of None \<Rightarrow> 0 | Some n \<Rightarrow> n)"

definition corr_higherSeverity :: "string \<Rightarrow> string \<Rightarrow> string" where
  "corr_higherSeverity current incoming =
     (if rank_of incoming > rank_of current then incoming else if current = [] then incoming else current)"

lemma rank_of_severity: "rank_of s = int (severity_rank s)"
  by (simp add: rank_of_def rank_map_def severity_rank_def)

lemma log_copies:
  "corr_trimSignals = trimSignals"
  "corr_incrementCounter = incrementCounter"
  "corr_higherSeverity = higherSeverity"
  by (simp_all add: fun_eq_iff corr_trimSignals_def trimSignals_def corr_incrementCounter_def incrementCounter_def
      corr_higherSeverity_def higherSeverity_def rank_of_severity)

lemma corr_trimTimeline: "corr_trimTimeline (tline @ [e]) = AppendTimeline tline (tl_Time e) (tl_Event e)"
  by (cases e) (simp add: corr_trimTimeline_def AppendTimeline_def Let_def)

section \<open>Labels and names\<close>

text \<open>The builder loops: one character after the other is written to the end of the buffer.\<close>

fun label_loop :: "string \<Rightarrow> string \<Rightarrow> string" where
  "label_loop b [] = b"
| "label_loop b (r # rs) =
     label_loop (b @ [if is_lower r then r else if is_digit r then r
       else if r = CHR ''-'' \<or> r = CHR ''.'' \<or> r = CHR ''_'' then r else CHR ''-'']) rs"

definition corr_safeLabelValue :: "string \<Rightarrow> string" where
  "corr_safeLabelValue s =
     (if s = [] then ''unknown''
      else let out = trim_cut (\<lambda>c. c = CHR ''-'' \<or> c = CHR ''.'' \<or> c = CHR ''_'') (label_loop [] (to_lower s))
           in if out = [] then ''unknown'' else if 63 < length out then take 63 out else out)"

fun name_loop :: "string \<Rightarrow> string \<Rightarrow> string" where
  "name_loop b [] = b"
| "name_loop b (r # rs) =
     name_loop (b @ [if is_lower r then r else if is_digit r then r else if r = CHR ''-'' then r else CHR ''-'']) rs"

definition corr_safeNameToken :: "string \<Rightarrow> string" where
  "corr_safeNameToken s =
     (if s = [] then ''incident''
      else let out = trim_cut (\<lambda>c. c = CHR ''-'') (name_loop [] (to_lower s)) in if out = [] then ''incident'' else out)"

lemma label_loop_map: "label_loop b s = b @ map label_char s"
  by (induction b s rule: label_loop.induct) (simp_all add: label_char_def)

lemma name_loop_map: "name_loop b s = b @ map name_char s"
  by (induction b s rule: name_loop.induct) (simp_all add: name_char_def)

lemma name_copies: "corr_safeLabelValue = safeLabelValue" "corr_safeNameToken = safeNameToken"
  by (simp_all add: fun_eq_iff corr_safeLabelValue_def safeLabelValue_def corr_safeNameToken_def safeNameToken_def
      label_loop_map name_loop_map)

section \<open>Fields of events\<close>

definition crd_ExtractBase :: "correlator_event \<Rightarrow> base_event" where
  "crd_ExtractBase event = (case event of
     CrashLoopBackOffEvent b _ _ _ _ _ _ \<Rightarrow> b
   | OOMKilledEvent b _ _ _ \<Rightarrow> b
   | ImagePullBackOffEvent b _ _ _ \<Rightarrow> b
   | PodPendingTooLongEvent b _ _ \<Rightarrow> b
   | GracePeriodViolationEvent b _ _ \<Rightarrow> b
   | NodeNotReadyEvent b _ _ \<Rightarrow> b
   | PodEvictedEvent b _ _ \<Rightarrow> b
   | ProbeFailureEvent b _ _ \<Rightarrow> b
   | StalledRolloutEvent b _ _ _ _ _ _ \<Rightarrow> b
   | NodePressureEvent b _ _ \<Rightarrow> b
   | StalledStatefulSetEvent b _ _ _ _ _ _ _ \<Rightarrow> b
   | StalledDaemonSetEvent b _ _ _ _ _ _ _ \<Rightarrow> b
   | JobFailedEvent b _ _ _ \<Rightarrow> b
   | CronJobFailedEvent b _ _ _ _ \<Rightarrow> b
   | OTelSpanErrorEvent b _ _ _ _ _ _ _ _ _ _ _ _ _ \<Rightarrow> b
   | OTelSpanLatencySpikeEvent b _ _ _ _ _ _ _ _ _ _ _ \<Rightarrow> b
   | OTelLogMatchEvent b _ _ _ _ _ _ _ _ _ \<Rightarrow> b
   | OTelSpanEventEvent b _ _ _ _ _ _ _ \<Rightarrow> b
   | _ \<Rightarrow> zero_base)"

definition buf_extractTraceID :: "correlator_event \<Rightarrow> string" where
  "buf_extractTraceID e = (case e of
     OTelSpanErrorEvent _ _ _ _ _ _ _ _ _ _ _ _ _ _ \<Rightarrow> ev_TraceID e
   | OTelSpanLatencySpikeEvent _ _ _ _ _ _ _ _ _ _ _ _ \<Rightarrow> ev_TraceID e
   | OTelLogMatchEvent _ _ _ _ _ _ _ _ _ _ \<Rightarrow> ev_TraceID e
   | OTelSpanEventEvent _ _ _ _ _ _ _ _ \<Rightarrow> ev_TraceID e
   | _ \<Rightarrow> [])"

lemma field_copies: "crd_ExtractBase e = ExtractBase e" "buf_extractTraceID e = extractTraceID e"
  by (cases e; simp add: crd_ExtractBase_def ExtractBase_def buf_extractTraceID_def extractTraceID_def)+

section \<open>Lists of trace ids\<close>

text \<open>The loop with the map of the ids seen and the result it appends to.\<close>

fun ids_loop :: "string list \<Rightarrow> (string \<rightharpoonup> unit) \<Rightarrow> string list \<Rightarrow> string list" where
  "ids_loop [] seen out = out"
| "ids_loop (p # ps) seen out =
     (let tid = trim_space p
      in if tid = [] then ids_loop ps seen out
         else if seen tid \<noteq> None then ids_loop ps seen out
         else ids_loop ps (seen(tid \<mapsto> ())) (out @ [tid]))"

definition dash_parseTraceIDCSV :: "string \<Rightarrow> string list" where
  "dash_parseTraceIDCSV s =
     (if trim_space s = [] then [] else ids_loop (str_fields trace_separator s) Map.empty [])"

lemma ids_loop_dedup: "dom seen = set ids \<Longrightarrow> ids_loop ps seen out = out @ dedup_ids ids ps"
proof (induction ps arbitrary: seen ids out)
  case (Cons p ps)
  let ?t = "trim_space p"
  have seen: "seen ?t \<noteq> None \<longleftrightarrow> ?t \<in> set ids" using Cons.prems by auto
  have "dom (seen(?t \<mapsto> ())) = set (?t # ids)" using Cons.prems by simp
  note new = Cons.IH [OF this, of "out @ [?t]"]
  show ?case
  proof (cases "?t = [] \<or> ?t \<in> set ids")
    case True
    then show ?thesis using Cons.IH [OF Cons.prems, of out] seen by (auto simp: Let_def)
  next
    case False
    then show ?thesis using new seen by (simp add: Let_def del: fun_upd_apply)
  qed
qed simp

lemma dash_parseTraceIDCSV: "dash_parseTraceIDCSV = parseTraceIDCSV"
  by (simp add: fun_eq_iff dash_parseTraceIDCSV_def parseTraceIDCSV_def ids_loop_dedup [of Map.empty "[]"])

end
