(* ===== verification/Startup.thy ===== *)
theory Startup
  imports Pipeline Engine Otel_Ingest Detector Dashboard_Serve
begin

text \<open>
  The process: the flags and environment that \<open>cmd/main.go\<close> reads, what it hands to the manager, and
  in which order it gives up. The manager, the OpenTelemetry SDK and the Kubernetes clients answer
  through the environment \<open>main_env\<close>; leaving with \<open>os.Exit(1)\<close> is an error value that carries the
  logged message. The routes of the OTLP receiver (\<open>internal/otelingest/server.go\<close>) and the loop of the
  detector (\<open>internal/autodetect/detector.go\<close>) are here because this is where they are started.
\<close>

section \<open>Environment variables\<close>

definition envOrDefault :: "(string \<Rightarrow> string) \<Rightarrow> string \<Rightarrow> string \<Rightarrow> string" where
  "envOrDefault getenv key fallback = (let v = getenv key in if v \<noteq> [] then v else fallback)"

definition envFloatOrDefault :: "(string \<Rightarrow> 'fl option) \<Rightarrow> (string \<Rightarrow> string) \<Rightarrow> string \<Rightarrow> 'fl \<Rightarrow> 'fl" where
  "envFloatOrDefault parse getenv key fallback =
     (let v = getenv key in if v = [] then fallback else case parse v of None \<Rightarrow> fallback | Some x \<Rightarrow> x)"

text \<open>\<open>strconv.ParseBool\<close>.\<close>

definition parse_bool :: "string \<Rightarrow> bool option" where
  "parse_bool s = (if s \<in> {''1'', ''t'', ''T'', ''true'', ''TRUE'', ''True''} then Some True
     else if s \<in> {''0'', ''f'', ''F'', ''false'', ''FALSE'', ''False''} then Some False else None)"

definition envBoolOrDefault :: "(string \<Rightarrow> string) \<Rightarrow> string \<Rightarrow> bool \<Rightarrow> bool" where
  "envBoolOrDefault getenv key fallback =
     (let v = getenv key in if v = [] then fallback else case parse_bool v of None \<Rightarrow> fallback | Some b \<Rightarrow> b)"

definition resolveLeaderElectionNamespace :: "(string \<Rightarrow> string) \<Rightarrow> bool \<Rightarrow> bool \<Rightarrow> string \<Rightarrow> string" where
  "resolveLeaderElectionNamespace getenv inCluster enable ns =
     (if \<not> enable \<or> ns \<noteq> [] then ns
      else let podNamespace = getenv ''POD_NAMESPACE''
           in if podNamespace \<noteq> [] then podNamespace else if \<not> inCluster then ''default'' else ns)"

section \<open>Tracing of the operator\<close>

record 'fl tracing_config =
  oc_Endpoint :: string
  oc_ServiceName :: string
  oc_SamplingRate :: 'fl
  oc_Insecure :: bool

text \<open>\<open>Setup\<close> of \<open>internal/otel/provider.go\<close>: what it asks the SDK for, \<open>None\<close> when tracing is off. \<open>ok\<close>
  says that a rate is neither at most 0 nor above 1.\<close>

definition otel_Setup :: "('fl \<Rightarrow> bool) \<Rightarrow> 'fl \<Rightarrow> 'fl tracing_config \<Rightarrow> 'fl tracing_config option" where
  "otel_Setup ok one cfg =
     (if oc_Endpoint cfg = [] then None
      else let cfg = (if oc_ServiceName cfg = [] then cfg\<lparr>oc_ServiceName := ''rca-operator''\<rparr> else cfg)
           in Some (if \<not> ok (oc_SamplingRate cfg) then cfg\<lparr>oc_SamplingRate := one\<rparr> else cfg))"

definition otel_env_config :: "(string \<Rightarrow> 'fl option) \<Rightarrow> 'fl \<Rightarrow> (string \<Rightarrow> string) \<Rightarrow> 'fl tracing_config" where
  "otel_env_config parse one getenv =
     \<lparr>oc_Endpoint = getenv ''OTEL_EXPORTER_OTLP_ENDPOINT'', oc_ServiceName = envOrDefault getenv ''OTEL_SERVICE_NAME'' ''rca-operator'',
      oc_SamplingRate = envFloatOrDefault parse getenv ''OTEL_SAMPLING_RATE'' one,
      oc_Insecure = envBoolOrDefault getenv ''OTEL_EXPORTER_OTLP_INSECURE'' True\<rparr>"

section \<open>Flags\<close>

record flags =
  fg_dashboard_bind_address :: string
  fg_metrics_bind_address :: string
  fg_health_probe_bind_address :: string
  fg_leader_elect :: bool
  fg_leader_election_namespace :: string
  fg_metrics_secure :: bool
  fg_enable_webhooks :: bool
  fg_signal_buffer_size :: int
  fg_signal_emit_dedup_window :: duration
  fg_webhook_cert :: "string \<times> string \<times> string"
  fg_metrics_cert :: "string \<times> string \<times> string"
  fg_enable_autodetect :: bool
  fg_autodetect_min_occurrences :: int
  fg_autodetect_min_timespan :: duration
  fg_autodetect_max_rules :: int
  fg_autodetect_interval :: duration
  fg_autodetect_expiry :: duration
  fg_otel_ingest_bind_address :: string
  fg_otel_ingest_error_status :: bool
  fg_otel_ingest_http_status_gte :: int
  fg_otel_ingest_latency_ms :: int
  fg_otel_ingest_min_log_severity :: string
  fg_otel_ingest_max_log_signals :: int
  fg_jaeger_query_url :: string
  fg_enable_http2 :: bool

definition default_flags :: flags where
  "default_flags = \<lparr>fg_dashboard_bind_address = '':9090'', fg_metrics_bind_address = ''0'',
     fg_health_probe_bind_address = '':8081'', fg_leader_elect = True, fg_leader_election_namespace = [],
     fg_metrics_secure = True, fg_enable_webhooks = False, fg_signal_buffer_size = 8192,
     fg_signal_emit_dedup_window = 2 * second, fg_webhook_cert = ([], ''tls.crt'', ''tls.key''),
     fg_metrics_cert = ([], ''tls.crt'', ''tls.key''), fg_enable_autodetect = False,
     fg_autodetect_min_occurrences = 5, fg_autodetect_min_timespan = 10 * minute, fg_autodetect_max_rules = 20,
     fg_autodetect_interval = 60 * second, fg_autodetect_expiry = hour, fg_otel_ingest_bind_address = [],
     fg_otel_ingest_error_status = True, fg_otel_ingest_http_status_gte = 500, fg_otel_ingest_latency_ms = 5000,
     fg_otel_ingest_min_log_severity = ''WARN'', fg_otel_ingest_max_log_signals = 256, fg_jaeger_query_url = [],
     fg_enable_http2 = False\<rparr>"

section \<open>Server options\<close>

text \<open>The protocols a TLS configuration is restricted to; \<open>None\<close> leaves them to the library.\<close>

type_synonym tls_protocols = "string list option"

definition tls_options :: "bool \<Rightarrow> tls_protocols" where
  "tls_options enableHTTP2 = (if \<not> enableHTTP2 then Some [''http/1.1''] else None)"

record server_options =
  so_TLSOpts :: tls_protocols
  so_Cert :: "(string \<times> string \<times> string) option"

definition cert_files :: "string \<times> string \<times> string \<Rightarrow> (string \<times> string \<times> string) option" where
  "cert_files cert = (if fst cert \<noteq> [] then Some cert else None)"

definition buildWebhookServer :: "tls_protocols \<Rightarrow> string \<times> string \<times> string \<Rightarrow> server_options" where
  "buildWebhookServer tlsOpts cert = \<lparr>so_TLSOpts = tlsOpts, so_Cert = cert_files cert\<rparr>"

record metrics_options = server_options +
  mo_BindAddress :: string
  mo_SecureServing :: bool
  mo_Authenticated :: bool

definition buildMetricsServerOptions :: "string \<Rightarrow> bool \<Rightarrow> tls_protocols \<Rightarrow> string \<times> string \<times> string \<Rightarrow> metrics_options" where
  "buildMetricsServerOptions addr secure tlsOpts cert =
     \<lparr>so_TLSOpts = tlsOpts, so_Cert = cert_files cert, mo_BindAddress = addr, mo_SecureServing = secure,
      mo_Authenticated = secure\<rparr>"

section \<open>The OTLP receiver\<close>

text \<open>The configuration a server is built with, and its routes.\<close>

definition ingest_NewServer :: "'re ingest_config \<Rightarrow> 're ingest_config" where
  "ingest_NewServer cfg = applyConfigDefaults cfg"

definition ingest_serve ::
    "('fl, 're) ingest_env \<Rightarrow> 're ingest_config \<Rightarrow> gotime \<Rightarrow> string \<Rightarrow> ingest_request \<Rightarrow> emitter \<Rightarrow> ingest_response \<times> emitter" where
  "ingest_serve E cfg now path r em =
     (if path = ''/v1/traces'' then handleTraces E cfg now r em
      else if path = ''/v1/logs'' then handleLogs E cfg now r em
      else if path = ''/healthz'' then (\<lparr>rs_Status = 200, rs_ContentType = [], rs_Body = []\<rparr>, em)
      else (http_Error ''404 page not found'' 404, em))"

text \<open>\<open>decodeOTLP\<close> with the two decoders of a message.\<close>

definition decodeOTLP :: "('fl, 're) ingest_env \<Rightarrow> (string \<Rightarrow> 'x) \<Rightarrow> (string \<Rightarrow> 'x) \<Rightarrow> string \<Rightarrow> string \<Rightarrow> 'x" where
  "decodeOTLP E protojson proto contentType body = (if isJSONContentType E contentType then protojson body else proto body)"

section \<open>The loop of the detector\<close>

text \<open>\<open>Run\<close> cleans up, then ticks until the context ends, here after the given ticks; the ticker of a
  non-positive interval panics (\<open>None\<close>).\<close>

definition detector_Run :: "'w detect_env \<Rightarrow> gotime list \<Rightarrow> detector \<Rightarrow> 'w \<Rightarrow> (detector \<times> 'w) option" where
  "detector_Run D ticks d w =
     (let w = detector_Start D w
      in if cf_AnalysisInterval (dv_config D) \<le> 0 then None
         else Some (fold (\<lambda>now (d, w). tick D now d w) ticks (d, w)))"

section \<open>What is started\<close>

datatype 're runnable =
    IncidentEngine
  | AutoDetector config
  | DashboardServer "(unit, string) dash_server"
  | OTLPServer "'re ingest_config"

text \<open>The runnables that declare whether they need leader election; the manager decides for the
  others.\<close>

definition NeedLeaderElection :: "'re runnable \<Rightarrow> bool option" where
  "NeedLeaderElection r = (case r of IncidentEngine \<Rightarrow> Some True | OTLPServer _ \<Rightarrow> Some False | _ \<Rightarrow> None)"

datatype controller = RCAAgentController | IncidentReportController bool | RCACorrelationRuleController

datatype webhook = RCAAgentWebhook | RCACorrelationRuleWebhook

record ('fl, 're) main_env =
  mv_getenv :: "string \<Rightarrow> string"
  mv_parse_float :: "string \<Rightarrow> 'fl option"
  mv_one :: 'fl
  mv_rate_ok :: "'fl \<Rightarrow> bool"
  mv_in_cluster :: bool
  mv_otel :: "'fl tracing_config \<Rightarrow> string option"
  mv_manager :: "metrics_options \<Rightarrow> server_options \<Rightarrow> string \<Rightarrow> bool \<Rightarrow> string \<Rightarrow> string option"
  mv_webhook :: "webhook \<Rightarrow> string option"
  mv_add :: "'re runnable \<Rightarrow> string option"
  mv_kubernetes :: "string option"
  mv_controller :: "controller \<Rightarrow> string option"
  mv_check :: "string \<Rightarrow> string option"

text \<open>The running process: the emitter that the collectors and the receiver share with the consumer of
  the engine, what the manager runs, and its controllers.\<close>

record ('w, 'e, 're) process =
  ps_emitter :: emitter
  ps_consumer :: "('w, 'e) consumer"
  ps_runnables :: "'re runnable list"
  ps_webhooks :: "webhook list"
  ps_controllers :: "controller list"
  ps_leaderNamespace :: string

text \<open>Log the message and leave when a call answers with an error.\<close>

definition orExit :: "string \<Rightarrow> string option \<Rightarrow> (string + 'a) \<Rightarrow> string + 'a" where
  "orExit msg err k = (case err of Some _ \<Rightarrow> Inl msg | None \<Rightarrow> k)"

definition setupOTel :: "('fl, 're) main_env \<Rightarrow> string option" where
  "setupOTel M = (case otel_Setup (mv_rate_ok M) (mv_one M) (otel_env_config (mv_parse_float M) (mv_one M) (mv_getenv M)) of
     None \<Rightarrow> None | Some cfg \<Rightarrow> mv_otel M cfg)"

definition setupWebhooks :: "('fl, 're) main_env \<Rightarrow> (string + 'a) \<Rightarrow> string + 'a" where
  "setupWebhooks M k =
     orExit ''Failed to create RCAAgent webhook'' (mv_webhook M RCAAgentWebhook)
       (orExit ''Failed to create RCACorrelationRule webhook'' (mv_webhook M RCACorrelationRuleWebhook) k)"

definition autodetect_config :: "flags \<Rightarrow> config" where
  "autodetect_config F = DefaultConfig\<lparr>cf_Enabled := True, cf_MinOccurrences := fg_autodetect_min_occurrences F,
     cf_MinTimeSpan := fg_autodetect_min_timespan F, cf_MaxAutoRules := fg_autodetect_max_rules F,
     cf_AnalysisInterval := fg_autodetect_interval F, cf_ExpiryDuration := fg_autodetect_expiry F\<rparr>"

definition setupOTLPIngest :: "flags \<Rightarrow> 're ingest_config option" where
  "setupOTLPIngest F =
     (if fg_otel_ingest_bind_address F = [] then None
      else let cfg = ingest_DefaultConfig
           in Some (cfg\<lparr>ic_BindAddress := fg_otel_ingest_bind_address F,
             ic_TraceFilters := (ic_TraceFilters cfg)\<lparr>tf_StatusCodeERROR := fg_otel_ingest_error_status F,
               tf_HTTPStatusGte := fg_otel_ingest_http_status_gte F, tf_LatencyP99Ms := fg_otel_ingest_latency_ms F\<rparr>,
             ic_LogFilters := (ic_LogFilters cfg)\<lparr>lf_MinSeverity := fg_otel_ingest_min_log_severity F,
               lf_MaxSignalsPerRequest := fg_otel_ingest_max_log_signals F\<rparr>,
             ic_Redaction := []\<rparr>))"

definition setupControllers :: "('fl, 're) main_env \<Rightarrow> bool \<Rightarrow> (string + 'a) \<Rightarrow> string + 'a" where
  "setupControllers M graphBuilder k =
     orExit ''Failed to create controller'' (mv_controller M RCAAgentController)
       (orExit ''Failed to create controller'' (mv_controller M (IncidentReportController graphBuilder))
         (orExit ''Failed to create controller'' (mv_controller M RCACorrelationRuleController) k))"

definition setupHealthChecks :: "('fl, 're) main_env \<Rightarrow> (string + 'a) \<Rightarrow> string + 'a" where
  "setupHealthChecks M k =
     orExit ''Failed to set up health check'' (mv_check M ''healthz'')
       (orExit ''Failed to set up ready check'' (mv_check M ''readyz'') k)"

definition signal_capacity :: "int \<Rightarrow> nat" where
  "signal_capacity n = nat (if n < 1 then 1 else n)"

definition dashboard_of :: "flags \<Rightarrow> ('fl, 're) main_env \<Rightarrow> (unit, string) dash_server" where
  "dashboard_of F M =
     (let s = dash_NewServer (fg_dashboard_bind_address F);
          s = (if mv_kubernetes M = None then WithKubernetesClient () s else s);
          s = WithBuffer s
      in if fg_jaeger_query_url F \<noteq> [] then WithJaegerClient (fg_jaeger_query_url F) s else s)"

text \<open>\<open>main\<close> up to the start of the manager. \<open>engine\<close> is what \<open>NewIncidentEngine\<close> answers; when it
  succeeds the factory holds the engine it built, so that the buffer of the engine is there for the
  detector, the dashboard and the graph builder.\<close>

definition main_setup :: "flags \<Rightarrow> ('fl, 're) main_env \<Rightarrow> engine_error + ('w, 'e) consumer \<Rightarrow> string + ('w, 'e, 're) process" where
  "main_setup F M engine =
     (let tlsOpts = tls_options (fg_enable_http2 F);
          ns = resolveLeaderElectionNamespace (mv_getenv M) (mv_in_cluster M) (fg_leader_elect F) (fg_leader_election_namespace F);
          detectors = (if fg_enable_autodetect F then [AutoDetector (autodetect_config F)] else []);
          dashboard = DashboardServer (dashboard_of F M);
          receivers = (case setupOTLPIngest F of None \<Rightarrow> [] | Some cfg \<Rightarrow> [OTLPServer (ingest_NewServer cfg)])
      in orExit ''Failed to initialize OpenTelemetry'' (setupOTel M)
        (orExit ''Failed to start manager''
          (mv_manager M (buildMetricsServerOptions (fg_metrics_bind_address F) (fg_metrics_secure F) tlsOpts (fg_metrics_cert F))
            (buildWebhookServer tlsOpts (fg_webhook_cert F)) (fg_health_probe_bind_address F) (fg_leader_elect F) ns)
        ((if fg_enable_webhooks F then setupWebhooks M else id)
        (case engine of Inl _ \<Rightarrow> Inl ''Failed to create incident engine''
         | Inr consumer \<Rightarrow>
            orExit ''Failed to add incident engine'' (mv_add M IncidentEngine)
            (orExit ''Failed to add auto-detector'' (if detectors = [] then None else mv_add M (hd detectors))
            (orExit ''Failed to add dashboard server'' (mv_add M dashboard)
            (orExit ''Failed to add OTLP ingest server'' (if receivers = [] then None else mv_add M (hd receivers))
            (setupControllers M True
            (setupHealthChecks M
            (Inr \<lparr>ps_emitter = NewChannelSignalEmitterWithOptions (signal_capacity (fg_signal_buffer_size F)) (fg_signal_emit_dedup_window F),
                  ps_consumer = consumer, ps_runnables = IncidentEngine # detectors @ dashboard # receivers,
                  ps_webhooks = (if fg_enable_webhooks F then [RCAAgentWebhook, RCACorrelationRuleWebhook] else []),
                  ps_controllers = [RCAAgentController, IncidentReportController True, RCACorrelationRuleController],
                  ps_leaderNamespace = ns\<rparr>))))))))))"

text \<open>The engine of \<open>main\<close>: the CRD factory is the only one registered, the options set a context and
  an event recorder.\<close>

definition main_engine ::
    "('re, 'tm, 'fl) go_lib \<Rightarrow> 'w rule_client \<Rightarrow> 'w \<Rightarrow> (engine_error + ('w, ('re, 'tm, 'fl) crd_engine) consumer) option" where
  "main_engine L K w = (case RegisterRuleEngineFactory (Some (crd_factory L K w)) [] of
     None \<Rightarrow> None | Some fs \<Rightarrow> Some (NewIncidentEngine [] fs w))"

section \<open>Lemmas\<close>

text \<open>Registering does not panic, and creating the engine does not fail even when the rules cannot be
  listed.\<close>

lemma main_engine_ok:
  "main_engine L K w = Some (Inr (NewConsumer w (Some (snd (LoadRules L K w (NewCRDRuleEngine (5 * minute)))))))"
  by (simp add: main_engine_def RegisterRuleEngineFactory_def NewIncidentEngine_def resolveRuleEngine_def default_options_def
      registeredRuleEngineFactories_def crd_factory_def crd_Build_def)

lemma orExit_Inr: "orExit msg err k = Inr p \<longleftrightarrow> err = None \<and> k = Inr p"
  by (simp add: orExit_def split: option.split)

lemma signal_capacity_pos: "1 \<le> signal_capacity n"
  by (simp add: signal_capacity_def Suc_le_eq)

lemma main_setup_Inr:
  assumes "main_setup F M engine = Inr p"
  obtains consumer where "engine = Inr consumer" "ps_consumer p = consumer"
    and "ps_emitter p = NewChannelSignalEmitterWithOptions (signal_capacity (fg_signal_buffer_size F)) (fg_signal_emit_dedup_window F)"
    and "ps_runnables p = IncidentEngine #
        (if fg_enable_autodetect F then [AutoDetector (autodetect_config F)] else []) @ DashboardServer (dashboard_of F M) #
        (case setupOTLPIngest F of None \<Rightarrow> [] | Some cfg \<Rightarrow> [OTLPServer (ingest_NewServer cfg)])"
    and "list_all (\<lambda>r. mv_add M r = None) (ps_runnables p)" "list_all (\<lambda>c. mv_controller M c = None) (ps_controllers p)"
  using assms
  by (auto simp: main_setup_def Let_def orExit_Inr setupWebhooks_def setupControllers_def setupHealthChecks_def
      split: sum.splits if_splits option.splits)

text \<open>The flags of the receiver reach its configuration; what the receiver is given has no redaction
  patterns, so that every text passes as it is.\<close>

lemma redact_nothing: "setupOTLPIngest F = Some cfg \<Longrightarrow> redact E (ic_Redaction (ingest_NewServer cfg)) body = body"
  by (auto simp: setupOTLPIngest_def ingest_NewServer_def applyConfigDefaults_def ingest_DefaultConfig_def redact_def Let_def
      split: if_splits)

text \<open>A detector whose interval flag is not positive crashes the process when it starts.\<close>

lemma detector_interval_panics:
  assumes "dv_config D = autodetect_config F" "fg_autodetect_interval F \<le> 0"
  shows "detector_Run D ticks d w = None"
  using assms by (simp add: detector_Run_def autodetect_config_def)

lemma receiver_routes:
  "rq_Method r \<noteq> ''POST'' \<Longrightarrow> path \<noteq> ''/healthz'' \<Longrightarrow> rs_Status (fst (ingest_serve E cfg now path r em)) \<in> {404, 405} \<and>
    snd (ingest_serve E cfg now path r em) = em"
  by (simp add: ingest_serve_def handleTraces_def handleLogs_def http_Error_def)

section \<open>A standby replica\<close>

text \<open>What the manager starts on a replica that is not the leader. \<open>dflt\<close> is its answer for runnables
  that do not say; the documented one is that they need leader election.\<close>

definition standby :: "bool \<Rightarrow> 're runnable list \<Rightarrow> 're runnable list" where
  "standby dflt rs = filter (\<lambda>r. \<not> (case NeedLeaderElection r of None \<Rightarrow> dflt | Some b \<Rightarrow> b)) rs"

text \<open>
  Which steps of the pipeline a running component takes: the incident engine (\<open>Start\<close> of
  \<open>internal/engine/engine.go\<close>) runs the loop that receives from the channel, the handlers of the OTLP
  receiver call \<open>Emit\<close>; the detector and the dashboard do neither. The collectors, which emit too, are
  started by the agent controller, which the manager runs on the leader only.
\<close>

definition performs :: "'re runnable \<Rightarrow> pipe_action \<Rightarrow> bool" where
  "performs r a \<longleftrightarrow> (case r of
     IncidentEngine \<Rightarrow> (case a of Receive _ \<Rightarrow> True | _ \<Rightarrow> False)
   | OTLPServer _ \<Rightarrow> (case a of Receive _ \<Rightarrow> False | _ \<Rightarrow> True)
   | _ \<Rightarrow> False)"

text \<open>A run of the components that run.\<close>

definition run_by :: "'re runnable list \<Rightarrow> pipe_action list \<Rightarrow> bool" where
  "run_by rs as \<longleftrightarrow> list_all (\<lambda>a. list_ex (\<lambda>r. performs r a) rs) as"

lemma receivers_receive_nothing:
  assumes "run_by rs as" "IncidentEngine \<notin> set rs"
  shows "received (pipe_trace V as s) = []"
  using assms(1)
proof (induction as arbitrary: s)
  case (Cons a as)
  then obtain r where "r \<in> set rs" "performs r a" by (auto simp: run_by_def list_ex_iff)
  then have "\<not> (\<exists>t. a = Receive t)" using assms(2) by (auto simp: performs_def split: runnable.splits)
  moreover have "received (pipe_trace V as s') = []" for s' using Cons by (simp add: run_by_def)
  ultimately show ?case
    by (auto simp: received_def pipe_observe_def map_filter_app List.map_filter_simps
        split: option.splits pipe_action.splits)
qed (simp add: received_def List.map_filter_simps)

text \<open>A request to the receiver is a run of signals, so that the theorems of \<open>Pipeline\<close> cover it.\<close>

lemma receiver_signals:
  "\<exists>es. \<forall>(V :: ('w, 'e) cons_env) s. pl_started s i = None \<and> pl_pending s i = None \<and> pl_emitter s = em \<longrightarrow>
     pipe_run V (emit_run i now es em) s = Some (s\<lparr>pl_emitter := snd (ingest_serve E cfg now path r em)\<rparr>)"
proof -
  have nil: "\<exists>es. em = fold (Emit now) es em" by (rule exI [of _ "[]"]) simp
  have ev: "\<exists>es'. fold (Emit now) es em = fold (Emit now) es' em" for es by (rule exI [of _ es]) simp
  have "\<exists>es. snd (ingest_serve E cfg now path r em) = fold (Emit now) es em"
    by (simp add: ingest_serve_def handleTraces_def handleLogs_def emit_each_def nil ev split: sum.split)
  then obtain es where es: "snd (ingest_serve E cfg now path r em) = fold (Emit now) es em" by blast
  show ?thesis
  proof (rule exI [of _ es], intro allI impI)
    fix V :: "('w, 'e) cons_env" and s :: "('w, 'e) pipeline"
    assume "pl_started s i = None \<and> pl_pending s i = None \<and> pl_emitter s = em"
    then show "pipe_run V (emit_run i now es em) s = Some (s\<lparr>pl_emitter := snd (ingest_serve E cfg now path r em)\<rparr>)"
      using emit_run_Emit [of s i V now es] by (simp add: es)
  qed
qed

text \<open>The answer to a request does not depend on the channel.\<close>

lemma answer_ignores_channel: "fst (ingest_serve E cfg now path r em) = fst (ingest_serve E cfg now path r em')"
  by (simp add: ingest_serve_def handleTraces_def handleLogs_def split: sum.split)


definition quiet_main :: "(unit, unit) main_env" where
  "quiet_main = \<lparr>mv_getenv = (\<lambda>k. []), mv_parse_float = (\<lambda>s. None), mv_one = (), mv_rate_ok = (\<lambda>r. True), mv_in_cluster = True,
     mv_otel = (\<lambda>c. None), mv_manager = (\<lambda>m s p l n. None), mv_webhook = (\<lambda>w. None), mv_add = (\<lambda>r. None),
     mv_kubernetes = None, mv_controller = (\<lambda>c. None), mv_check = (\<lambda>c. None)\<rparr>"

definition receiving_flags :: flags where
  "receiving_flags = default_flags\<lparr>fg_otel_ingest_bind_address := '':4319'', fg_signal_buffer_size := 1\<rparr>"


end
