(* ===== verification/Spec2Isabelle.thy ===== *)
theory Spec2Isabelle
  imports Dedup Consolidation Consumer Lifecycle Agent_Store Detector
    Watch_Pods Watch_Events Engine Otel_Ingest Notify Json_Cache Dashboard_Api
    Collectors Pipeline Metrics Dashboard_Serve Helper_Copies Startup
begin

text \<open>
  \<^bold>\<open>The RCA operator.\<close> A Kubernetes operator that watches a cluster, correlates what it sees into
  incidents and keeps one \<open>IncidentReport\<close> per incident up to date. Paths below are those of the
  repository.

  \<^bold>\<open>How the parts interact.\<close> Watchers turn changes of cluster objects into events and an OTLP receiver
  turns spans and log records into events; both put them on one bounded channel, which drops
  repetitions. The consumer takes events from the channel, normalises each to a signal, lets the rule
  engine look at it together with the recent events, and hands it to the reporter, which finds,
  creates, updates, reopens or resolves the report of that incident. A controller moves each report
  through its phases, attaches a graph and announces it; a second controller starts collectors for
  each agent and prunes old reports; a third reloads the rules. A detector mines recurring pairs of
  events and writes rules for them. The dashboard reads all of it.

  \<^bold>\<open>Theories.\<close>
  \<^item> \<open>Prelude\<close>, \<open>Go_Text\<close>, \<open>Json\<close>: Go's strings, integers of 64 bits, times and durations, capped
    lists, sorting, and the compact text \<open>encoding/json\<close> writes; the lemmas the components share.
  \<^item> \<open>Events\<close>, \<open>Dedup\<close>, \<open>Buffer\<close>: the twenty event structs (\<open>watcher/events.go\<close>), the two duplicate
    filters (\<open>watcher/emitter.go\<close>, \<open>signals/deduplicator.go\<close>), the window buffer with its index by
    trace and its subscribers, and the priority correlator (\<open>correlator/correlator.go\<close>, \<open>rules.go\<close>).
  \<^item> \<open>Api_Types\<close>, \<open>Kube\<close>: the custom resources (\<open>api/v1alpha1\<close>) and the API server as a record of
    operations over an abstract world, with the laws of a report store as the locale \<open>report_store\<close>.
    Its reads see every earlier write. \<open>cmd/main.go\<close> passes the cache-backed client of the manager, for
    which that holds while the cache is up to date; what happens when it is not is \<open>stale_reads_duplicate\<close>.
  \<^item> \<open>Incident\<close>, \<open>Signals\<close>: fingerprints, scopes, status transitions (\<open>incident/\<close>,
    \<open>incidentstatus/\<close>), normalisation and enrichment (\<open>signals/\<close>).
  \<^item> \<open>Rule_Engine\<close>, \<open>Admission\<close>, \<open>Engine\<close>: compiling and evaluating rules
    (\<open>rulengine/crd_engine.go\<close>), the webhook that admits them, the registry of rule engines
    (\<open>engine/engine.go\<close>) and the controller that reloads them.
  \<^item> \<open>Reporter\<close>, \<open>Reporter_Store\<close>, \<open>Consolidation\<close>: the report registry
    (\<open>reporter/cr_reporter.go\<close>), what it guarantees of the stored reports, the startup pass.
  \<^item> \<open>Consumer\<close>, \<open>Lifecycle\<close>: the event loop (\<open>correlator/consumer.go\<close>) and the report controller
    (\<open>controller/incidentreport_controller.go\<close>).
  \<^item> \<open>Agent_Spec\<close>, \<open>Agent\<close>, \<open>Agent_Store\<close>: the agent resource, its webhook and its controller, with
    the three sweeps over reports as instances of the locale \<open>report_sweep\<close>.
  \<^item> \<open>Patterns\<close>, \<open>Detector\<close>: mining, accumulating and writing rules (\<open>autodetect/\<close>).
  \<^item> \<open>Watch_Workloads\<close>, \<open>Watch_Pods\<close>, \<open>Watch_Events\<close>: the watchers (\<open>watcher/\<close>), whose alert gates
    are instances of the locale \<open>alert_gate\<close>; \<open>Collectors\<close>: building and starting them
    (\<open>collectors/\<close>, the \<open>Start\<close> methods), with every delivery of an informer and every scan.
  \<^item> \<open>Pipeline\<close>: emitter and consumer joined by the channel, a machine of the steps of \<open>Emit\<close> calls
    (reading the clock, the locked duplicate check, the attempt to send) and of receipts.
  \<^item> \<open>Otel_Ingest\<close>: the OTLP receiver (\<open>otelingest/\<close>).
  \<^item> \<open>Jaeger\<close>, \<open>Incident_Graph\<close>, \<open>Cluster_Graph\<close>, \<open>Service_Graph\<close>: the trace store client
    (\<open>jaeger/client.go\<close>) and the three graphs (\<open>correlator/graph/\<close>).
  \<^item> \<open>Notify\<close>: Slack and PagerDuty (\<open>notify/dispatcher.go\<close>), also as the notifier of the lifecycle.
  \<^item> \<open>Json_Cache\<close>, \<open>Incident_List\<close>, \<open>Trace_View\<close>, \<open>Trace_Summary\<close>, \<open>Report_View\<close>, \<open>Dashboard_Api\<close>:
    the dashboard (\<open>dashboard/\<close>): its response cache as a machine of atomic steps, the pages it
    computes and the answers of its handlers; \<open>Dashboard_Serve\<close>: its routes, its report pages and its
    live stream as a machine that interleaves with the other users of the buffer.
  \<^item> \<open>Metrics\<close>: the Prometheus collectors (\<open>metrics/metrics.go\<close>) over the locale \<open>prometheus\<close>.
  \<^item> \<open>Helper_Copies\<close>: functions several packages keep copies of, each proved equal to the one used.
  \<^item> \<open>Startup\<close>: flags, environment and what \<open>cmd/main.go\<close> starts, which component takes which steps of the
    pipeline, and the routes of the receiver.

  Stateful code is state passing over records, errors are values of sums, a Go panic is \<open>None\<close> or a
  constructor of its own. A definition has the name of the Go function it models; a loop body has a
  definition of its own. Concurrent code is a machine of atomic steps: the running system below, the
  cache, the channel, the live stream.

  \<^bold>\<open>What is proved.\<close>
  \<^item> The registry: whichever requests fail, at most one open report per namespace and fingerprint,
    for signals whose fingerprint is \<open>identifiable\<close> and reads that see earlier writes, every successful
    call recorded in an open report, every call one step of an abstract registry (\<open>Reporter_Store\<close>,
    which also shows two open reports where a condition is not met); restored by consolidation when
    its writes succeed; kept by every interleaving of the consumer and both controllers (this theory).
  \<^item> The lifecycle, for any graph builder and notifier: phases only advance, windows are waited for
    exactly, progress once they have passed on a cluster that is steady (\<open>steady_cluster\<close>); which
    announcements are made and which are repeated or lost (\<open>Lifecycle\<close>, \<open>Notify\<close>).
  \<^item> Windows and caps: the duplicate filters space equal events, up to the time a check may lag behind
    its clock reading, the buffer refines the history of additions, logs and timelines hold the latest
    entries, a request is read up to its limit and a log request emits a bounded amount (\<open>Dedup\<close>, \<open>Buffer\<close>, \<open>Incident\<close>, \<open>Otel_Ingest\<close>).
  \<^item> Rules: an evaluation fires the best rule; admitted rules load but for their template; mined
    rules are admitted, load and fire; no tick touches a rule of a user.
  \<^item> Agents: contexts of collectors are neither leaked nor shared, while the informer handlers stay;
    the sweeps act on exactly the due reports.
  \<^item> Watchers: one event per fault episode, through tombstones, bootstrap and periodic scans
    (\<open>Collectors\<close>). The path of a signal: what was put on the channel is what the consumer handles,
    in order, and a signal that was not put there found it full or repeats another (\<open>Pipeline\<close>); on a
    replica that is not the leader only the receiver runs and nothing is handled (\<open>Startup\<close>).
  \<^item> Metrics: every exported series as a count of recorded observations, and two operations whose
    records make the gauge of active incidents drift (\<open>Metrics\<close>).
  \<^item> Views: graphs are well formed after truncation and independent of the order of Go maps; times,
    critical paths (of at most 129 spans) and collapsed lists are exact against a specification without
    loops; the cache
    builds a key once at a time and answers who waits, unless a build panics; a client of the live
    stream gets the recent entries and every later one its channel has room for (\<open>Dashboard_Serve\<close>).

  \<^bold>\<open>Bounds and fuel.\<close> Loops are structural or have a measure; two recursions carry the source's own
  guard: \<open>spanDepth\<close> stops beyond 64 levels and \<open>path_walk\<close> has 129 steps, as \<open>criticalPathMicros\<close>
  stops beyond depth 128. \<open>stripEmptyKV\<close> iterates to a fixed point: its loop, also as a \<open>while_option\<close>, ends
  because each pass that changes the text shortens it. Integers are unbounded with \<open>wrap64\<close> wherever the source can overflow an int64
  (retention periods, sums of calls, trace times, paging). Strings are lists of bytes; case mapping
  and trimming are those of ASCII.

  \<^bold>\<open>Parameters.\<close> The API server and its client, HTTP transports, SHA-1 and SHA-256, regular
  expressions, templates, float64, gzip, protocol decoding, JSON decoding, time formatting and the
  iteration order of maps are arguments. What is relied on of a store or a transport is a locale
  (\<open>report_store\<close>, \<open>reporter_store\<close>, \<open>lifecycle_store\<close>, \<open>steady_cluster\<close>, \<open>agent_store\<close>, \<open>rule_store\<close>,
  \<open>detector_store\<close>, \<open>outbox\<close>, \<open>notifying\<close>), interpreted by a store in memory; what is relied on of
  the Prometheus client is the locale \<open>prometheus\<close>, interpreted by maps; the order of a map is any
  permutation. The manager, its caches and the template engine are arguments as well.

  \<^bold>\<open>Not modelled.\<close> TCP listeners and graceful shutdown, the goroutines and tickers inside libraries
  (an activity of a watcher, a tick and a request are atomic), registration of controllers with the
  manager beyond whether it succeeds, log output, static assets, the construction of the
  OpenTelemetry exporter and the span helpers of \<open>otel/spans.go\<close>, which nothing calls, the unused
  struct of \<open>correlator/incident.go\<close>, generated deep copies and the helpers of the end-to-end tests.
  Sums of a histogram are not modelled, only its buckets.
\<close>

section \<open>The running system\<close>

text \<open>
  The operator runs three loops over one cluster: the consumer handles collected events, one
  controller reconciles reports, the other reconciles agents. Between two of their calls anything
  else may change the cluster and delete reports; only the operator creates and changes them.
  \<open>system_step\<close> is one call of one of them, labelled with the signal the consumer made of the event,
  if it made one; the agent controller is called with whatever registry of collectors it has.
  \<open>system_reachable\<close> keeps the signals of a run.
\<close>

inductive system_step ::
    "('w, 'e) cons_env \<Rightarrow> 'w rec_env \<Rightarrow> 'w agent_env \<Rightarrow> ('w \<Rightarrow> bool) \<Rightarrow> ('w \<Rightarrow> incident_report list) \<Rightarrow>
       ('w, 'e) consumer \<Rightarrow> input option \<Rightarrow> ('w, 'e) consumer \<Rightarrow> bool"
  for V C A ok reports where
  event: "sig = fst (signal_input V now event
      (rp_world (observe (cv_rep V) [RecordSignalReceived (event_type event)] (cs_rep c))) (cs_engine c)) \<Longrightarrow>
    system_step V C A ok reports c sig (snd (handleEvent V now event c))"
| reconcile: "system_step V C A ok reports c None
    (c\<lparr>cs_rep := (cs_rep c)\<lparr>rp_world := snd (snd (Reconcile C now req (rp_world (cs_rep c))))\<rparr>\<rparr>)"
| agent: "as_world st = rp_world (cs_rep c) \<Longrightarrow> agent_Reconcile A now req st = (rq, after, err, st') \<Longrightarrow>
    system_step V C A ok reports c None (c\<lparr>cs_rep := (cs_rep c)\<lparr>rp_world := as_world st'\<rparr>\<rparr>)"
| cluster: "ok w' \<Longrightarrow> set (reports w') \<subseteq> set (reports (rp_world (cs_rep c))) \<Longrightarrow>
    system_step V C A ok reports c None (c\<lparr>cs_rep := (cs_rep c)\<lparr>rp_world := w'\<rparr>\<rparr>)"

inductive system_reachable ::
    "('w, 'e) cons_env \<Rightarrow> 'w rec_env \<Rightarrow> 'w agent_env \<Rightarrow> ('w \<Rightarrow> bool) \<Rightarrow> ('w \<Rightarrow> incident_report list) \<Rightarrow>
       ('w, 'e) consumer \<Rightarrow> input set \<Rightarrow> ('w, 'e) consumer \<Rightarrow> bool"
  for V C A ok reports c0 where
  start: "system_reachable V C A ok reports c0 {} c0"
| step: "system_reachable V C A ok reports c0 sigs c \<Longrightarrow> system_step V C A ok reports c sig c' \<Longrightarrow>
    system_reachable V C A ok reports c0 (sigs \<union> set_option sig) c'"

text \<open>The lifecycle preserves what the registry relies on.\<close>

lemma advances_open: "advances r r' \<Longrightarrow> is_open r' \<Longrightarrow> is_open r"
  by (auto simp: advances_def phase_step_def is_open_def)

lemma advances_labelled: "advances r r' \<Longrightarrow> hash_labelled sha1 r \<Longrightarrow> hash_labelled sha1 r'"
  using advances_fingerprint [of r r'] by (simp add: hash_labelled_def advances_def)

lemma store_advance:
  assumes "store_ok sha1 rs" "r \<in> set rs" "advances r r'" "set rs' = put_report r' (set rs)"
  shows "store_ok sha1 rs'"
proof -
  have reg: "registry_ok sha1 (set rs)" and logs: "\<forall>x \<in> set rs. logs_bounded x"
    using assms(1) by (simp_all add: store_ok_def list_all_iff)
  have key: "report_key r' = report_key r" using assms(3) by (simp add: advances_def)
  have "hash_labelled sha1 r' \<and> (\<forall>x. \<not> rival (set rs) r' (reportFingerprint r') x)" if "is_open r'"
  proof -
    have open_r: "is_open r" using advances_open [OF assms(3) that] .
    then have "\<not> rival (set rs) r (reportFingerprint r) x" for x
      using reg assms(2) by (auto simp: registry_ok_def unique_open_def)
    moreover have "hash_labelled sha1 r" using reg assms(2) open_r by (auto simp: registry_ok_def)
    ultimately show ?thesis
      using advances_labelled [OF assms(3)] advances_fingerprint [OF assms(3)] rival_cong [OF key] by metis
  qed
  then have "registry_ok sha1 (set rs')" unfolding assms(4) using reg by (intro registry_put) blast
  moreover have "logs_bounded r'" using assms(2,3) logs by (simp add: advances_def)
  then have "\<forall>x \<in> set rs'. logs_bounded x" using logs unfolding assms(4) by (auto simp: in_put)
  ultimately show ?thesis by (simp add: store_ok_def list_all_iff)
qed

lemma store_ok_subset:
  assumes "store_ok sha1 rs" "set rs' \<subseteq> set rs"
  shows "store_ok sha1 rs'"
proof -
  have "rival (set rs') r fp x \<Longrightarrow> rival (set rs) r fp x" for r fp x
    using assms(2) unfolding rival_def by blast
  then show ?thesis using assms unfolding store_ok_def registry_ok_def unique_open_def list_all_iff by blast
qed

lemma system_step_ok:
  assumes "system_step V C A ok reports c sig c'" "\<forall>i. sig = Some i \<longrightarrow> identifiable i"
    and "report_store (re_client (cv_rep V)) ok reports" "lifecycle_store C ok reports"
    and "agent_store A ok reports"
    and "ok (rp_world (cs_rep c))" "store_ok (re_sha1 (cv_rep V)) (reports (rp_world (cs_rep c)))"
  shows "ok (rp_world (cs_rep c')) \<and> store_ok (re_sha1 (cv_rep V)) (reports (rp_world (cs_rep c')))"
  using assms(1)
proof cases
  case (event now event)
  then show ?thesis using handleEvent_keeps_store [OF assms(3,6,7)] assms(2) by blast
next
  case (reconcile now req)
  let ?w = "rp_world (cs_rep c)"
  show ?thesis
  proof (cases "k_get_report (rv_client C) ?w (fst req) (snd req)")
    case (Inl e)
    then show ?thesis using reconcile assms(6,7) by (simp add: Reconcile_def)
  next
    case (Inr r)
    note m = lifecycle_store.reconcile_moves [OF assms(4,6) Inr]
    obtain r' where "ok (snd (snd (Reconcile C now req ?w)))" "advances r r'"
      "set (reports (snd (snd (Reconcile C now req ?w)))) = put_report r' (set (reports ?w))"
      using m(3) [of now] unfolding lifecycle_store.moves_def [OF assms(4)] by blast
    then show ?thesis using store_advance [OF assms(7) m(1)] reconcile by simp
  qed
next
  case (agent st now req rq after err st')
  then show ?thesis using agent_store.reconcile_store [OF assms(5) _ _ agent(4)] assms(6,7) by simp
next
  case (cluster w')
  then show ?thesis using store_ok_subset [OF assms(7)] by simp
qed

text \<open>C4.
  Take an API server whose reads see every earlier write (the laws of \<open>report_store\<close>,
  \<open>lifecycle_store\<close> and \<open>agent_store\<close>; reads and writes may fail), and reports that only the operator
  creates and changes. From a well-formed store, every interleaving of event handling,
  reconciliation of reports, reconciliation of agents (retention, orphan and graph sweeps), deletion
  of reports and other changes of the cluster, in which every signal the consumer makes of an event
  is \<open>identifiable\<close>, reaches only states in which a namespace has at most one open report per
  fingerprint, every open report is found by its label, and every timeline and signal log is within
  its limit. Where a signal is not identifiable or a read is stale, two reports can be open
  (\<open>services_collide\<close> and \<open>stale_reads_duplicate\<close> of \<open>Reporter_Store\<close>).
\<close>

theorem system_reachable_ok:
  assumes "system_reachable V C A ok reports c0 sigs c" "\<forall>i \<in> sigs. identifiable i"
    and "report_store (re_client (cv_rep V)) ok reports" "lifecycle_store C ok reports"
    and "agent_store A ok reports"
    and "ok (rp_world (cs_rep c0))" "store_ok (re_sha1 (cv_rep V)) (reports (rp_world (cs_rep c0)))"
  shows "ok (rp_world (cs_rep c)) \<and> store_ok (re_sha1 (cv_rep V)) (reports (rp_world (cs_rep c)))"
  using assms(1,2)
proof (induction rule: system_reachable.induct)
  case start
  then show ?case using assms(6,7) by simp
next
  case (step sigs c sig c')
  then show ?case using system_step_ok [OF step.hyps(2) _ assms(3-5)] by auto
qed

theorem system_reachable_ok_witness:
  "store_ok (re_sha1 mem_env)
     (mw_reports (rp_world (cs_rep (snd (handleEvent sample_env 7000000000 sample_event sample_consumer)))))"
proof -
  let ?w = "rp_world (observe (cv_rep sample_env) [RecordSignalReceived (event_type sample_event)] (cs_rep sample_consumer))"
  define c where "c = snd (handleEvent sample_env 7000000000 sample_event sample_consumer)"
  obtain i engine where i: "signal_input sample_env 7000000000 sample_event ?w (cs_engine sample_consumer) = (Some i, engine)"
    "identifiable i" by (rule sample_signal [OF sample_no_pods])
  then have "system_step sample_env mem_rec (mem_agents sample_agent) mem_inv mw_reports sample_consumer (Some i) c"
    unfolding c_def by (intro system_step.event) simp
  from system_reachable.step [OF system_reachable.start this]
  have reach: "system_reachable sample_env mem_rec (mem_agents sample_agent) mem_inv mw_reports sample_consumer {i} c"
    by simp
  have init: "mem_inv (rp_world (cs_rep sample_consumer))" "mw_reports (rp_world (cs_rep sample_consumer)) = []"
    using mem_empty_ok by (simp_all add: sample_consumer_def NewConsumer_def)
  from system_reachable_ok [OF reach _, unfolded sample_engine, OF _ mem_report_store mem_lifecycle mem_agent_store init(1)] init(2) i(2)
  show ?thesis unfolding c_def by (simp add: store_ok_def)
qed

end
